(* ===== verification/Prelude.thy ===== *)
theory Prelude
  imports Main "HOL-Library.Char_ord"
begin

text \<open>
  Shared vocabulary of the development: time as Go's nanoseconds, the environment's
  schedule of infrastructure faults and the one way a model reaches an external store
  (\<open>io_call\<close>), the string helpers of Go's standard library that the sources use, and
  the collections and generic lemmas the component proofs draw on.
\<close>

named_theorems step_simps
  \<comment> \<open>unfoldings of one store statement or one handler step\<close>

named_theorems fence_simps
  \<comment> \<open>unfoldings of compare-and-set guarded transitions\<close>

section \<open>Time\<close>

text \<open>
  Go's \<open>time.Time\<close> and \<open>time.Duration\<close> count nanoseconds; the model uses unbounded
  integers for both, the instant 0 being the Unix epoch.  \<open>UnixMilli\<close> rounds towards minus
  infinity, \<open>Duration.Milliseconds\<close> truncates towards zero.
\<close>

type_synonym time = int
type_synonym duration = int

definition ns_per_ms :: int where
  "ns_per_ms = 1000000"

definition seconds :: "int \<Rightarrow> duration" where
  "seconds n = n * 1000000000"

definition minutes :: "int \<Rightarrow> duration" where
  "minutes n = seconds (60 * n)"

definition unix_milli :: "time \<Rightarrow> int" where
  "unix_milli t = t div ns_per_ms"

definition dur_millis :: "duration \<Rightarrow> int" where
  "dur_millis d = (if 0 \<le> d then d div ns_per_ms else - ((- d) div ns_per_ms))"

lemma unix_milli_mono: "s \<le> t \<Longrightarrow> unix_milli s \<le> unix_milli t"
  by (simp add: unix_milli_def ns_per_ms_def zdiv_mono1)

lemma unix_milli_less: "unix_milli s < unix_milli t \<Longrightarrow> s < t"
  by (meson linorder_not_less unix_milli_mono)

lemma dur_millis_pos_iff: "0 < dur_millis d \<longleftrightarrow> ns_per_ms \<le> d"
  by (auto simp: dur_millis_def ns_per_ms_def pos_imp_zdiv_pos_iff)

section \<open>External stores and their faults\<close>

text \<open>
  A call to PostgreSQL or Redis may fail for reasons of the infrastructure.  The schedule of
  such faults is part of the environment: \<open>FaultBefore\<close> is a call that returns an error
  without having had an effect, \<open>FaultAfter\<close> one whose effect happened although the
  caller sees an error (a lost reply).  A store is paired with the schedule of the calls to
  come; an exhausted schedule means no further fault.
\<close>

datatype fault = NoFault | FaultBefore | FaultAfter

type_synonym 'db conn = "'db \<times> fault list"

fun io_call :: "'e \<Rightarrow> ('db \<Rightarrow> ('e + 'a) \<times> 'db) \<Rightarrow> 'db conn \<Rightarrow> ('e + 'a) \<times> 'db conn" where
  "io_call e f (db, []) = (fst (f db), (snd (f db), []))"
| "io_call e f (db, NoFault # fs) = (fst (f db), (snd (f db), fs))"
| "io_call e f (db, FaultBefore # fs) = (Inl e, (db, fs))"
| "io_call e f (db, FaultAfter # fs) = (Inl e, (snd (f db), fs))"

lemma io_call_ok: "io_call e f c = (Inr x, c') \<Longrightarrow> f (fst c) = (Inr x, fst c')"
  by (cases "(e, f, c)" rule: io_call.cases) (auto intro: prod_eqI)

lemma io_call_state: "fst (snd (io_call e f c)) = fst c \<or> fst (snd (io_call e f c)) = snd (f (fst c))"
  by (cases "(e, f, c)" rule: io_call.cases) auto

lemma io_call_err:
  "io_call e f c = (Inl x, c') \<Longrightarrow> x = e \<or> (fst (f (fst c)) = Inl x \<and> fst c' = snd (f (fst c)))"
  by (cases "(e, f, c)" rule: io_call.cases) auto

lemma io_call_pure:
  assumes "\<And>db. snd (f db) = db"
  shows "fst (snd (io_call e f c)) = fst c"
  using assms by (cases "(e, f, c)" rule: io_call.cases) auto

lemma io_call_inv:
  assumes "P (fst c)" and "P (fst c) \<Longrightarrow> P (snd (f (fst c)))"
  shows "P (fst (snd (io_call e f c)))"
  using assms io_call_state [of e f c] by auto

definition healthy :: "'db conn \<Rightarrow> bool" where
  "healthy c \<longleftrightarrow> set (snd c) \<subseteq> {NoFault}"

lemma healthy_io_call:
  "healthy c \<Longrightarrow> io_call e f c = (fst (f (fst c)), (snd (f (fst c)), tl (snd c)))"
  by (cases "(e, f, c)" rule: io_call.cases) (auto simp: healthy_def)

lemma healthy_tl [simp]: "healthy (db, fs) \<Longrightarrow> healthy (db', tl fs)"
  by (cases fs) (auto simp: healthy_def)

lemma healthy_db: "healthy (db, fs) \<Longrightarrow> healthy (db', fs)"
  by (auto simp: healthy_def)

lemma healthy_Nil [simp]: "healthy (db, [])"
  by (simp add: healthy_def)

subsection \<open>Transactions\<close>

text \<open>
  \<open>BeginTx\<close>, the body, then \<open>Commit\<close>, with the deferred \<open>Rollback\<close> of the sources:
  an error of the body restores the database of the beginning, and only the commit makes the
  writes of the body visible.
\<close>

definition tx_run ::
  "'e \<Rightarrow> ('db conn \<Rightarrow> ('e + 'a) \<times> 'db conn) \<Rightarrow> 'db conn \<Rightarrow> ('e + 'a) \<times> 'db conn" where
  "tx_run e body c =
     (case io_call e (\<lambda>db. (Inr (), db)) c of
        (Inl x, c1) \<Rightarrow> (Inl x, c1)
      | (Inr _, c1) \<Rightarrow>
          (case body c1 of
             (Inl x, c2) \<Rightarrow> (Inl x, (fst c1, snd c2))
           | (Inr v, c2) \<Rightarrow>
               (case io_call e (\<lambda>db. (Inr (), fst c2)) (fst c1, snd c2) of
                  (Inl x, c3) \<Rightarrow> (Inl x, c3)
                | (Inr _, c3) \<Rightarrow> (Inr v, c3))))"

lemma tx_run_cases:
  obtains (begin_failed) c1 where "tx_run e body c = (Inl e, c1)" "fst c1 = fst c"
  | (rolled_back) x c1 c2 where "fst c1 = fst c" "body c1 = (Inl x, c2)"
      "tx_run e body c = (Inl x, (fst c, snd c2))"
  | (commit_failed) v c1 c2 c3 where "fst c1 = fst c" "body c1 = (Inr v, c2)"
      "tx_run e body c = (Inl e, c3)" "fst c3 = fst c \<or> fst c3 = fst c2"
  | (committed) v c1 c2 c3 where "fst c1 = fst c" "body c1 = (Inr v, c2)"
      "tx_run e body c = (Inr v, c3)" "fst c3 = fst c2"
proof -
  obtain r1 c1 where b: "io_call e (\<lambda>db. (Inr (), db)) c = (r1, c1)"
    by (cases "io_call e (\<lambda>db. (Inr (), db)) c :: (_ + unit) \<times> _") blast
  then have c1: "fst c1 = fst c"
    using io_call_pure [of "\<lambda>db. (Inr (), db)" e c] by simp
  show thesis
  proof (cases r1)
    case (Inl x)
    with b have "x = e"
      using io_call_err [of e "\<lambda>db. (Inr (), db)" c x c1] by simp
    with Inl b c1 show thesis by (intro begin_failed [of c1]) (auto simp: tx_run_def)
  next
    case (Inr u)
    obtain r2 c2 where b2: "body c1 = (r2, c2)" by (cases "body c1") blast
    show thesis
    proof (cases r2)
      case (Inl x)
      with Inr b b2 c1 show thesis by (intro rolled_back [of c1 x c2]) (auto simp: tx_run_def)
    next
      case r2: (Inr v)
      obtain r3 c3 where b3: "io_call e (\<lambda>db. (Inr (), fst c2)) (fst c1, snd c2) = (r3, c3)"
        by (cases "io_call e (\<lambda>db. (Inr (), fst c2)) (fst c1, snd c2) :: (_ + unit) \<times> _") blast
      show thesis
      proof (cases r3)
        case (Inl x)
        then have "x = e" using io_call_err b3 by fastforce
        moreover have "fst c3 = fst c \<or> fst c3 = fst c2"
          using io_call_state [of e "\<lambda>db. (Inr (), fst c2)" "(fst c1, snd c2)"] b3 c1 by simp
        ultimately show thesis
          using Inl Inr b b2 b3 r2 c1 by (intro commit_failed [of c1 v c2 c3]) (auto simp: tx_run_def)
      next
        case r3: (Inr u')
        have "fst c3 = fst c2" using io_call_ok b3 r3 by fastforce
        then show thesis
          using r3 Inr b b2 b3 r2 c1 by (intro committed [of c1 v c2 c3]) (auto simp: tx_run_def)
      qed
    qed
  qed
qed

lemma tx_run_ok:
  assumes "tx_run e body c = (Inr v, c')"
  shows "\<exists>c1 c2. fst c1 = fst c \<and> body c1 = (Inr v, c2) \<and> fst c' = fst c2"
proof (cases rule: tx_run_cases [of e body c])
  case (committed w c1 c2 c3)
  with assms have "w = v" "c3 = c'" by simp_all
  with committed show ?thesis by blast
qed (use assms in simp_all)

lemma tx_run_inv:
  assumes "P (fst c)"
    and "\<And>c1 v c2. fst c1 = fst c \<Longrightarrow> body c1 = (Inr v, c2) \<Longrightarrow> P (fst c2)"
  shows "P (fst (snd (tx_run e body c)))"
proof (cases rule: tx_run_cases [of e body c])
  case (commit_failed v c1 c2 c3)
  with assms(1) assms(2) [OF commit_failed(1,2)] show ?thesis by (elim disjE) simp_all
next
  case (committed v c1 c2 c3)
  with assms(2) [OF committed(1,2)] show ?thesis by simp
qed (use assms in auto)

section \<open>Strings\<close>

text \<open>
  Go strings are byte strings; a \<open>char\<close> of HOL is a byte.  White space is the ASCII white
  space of \<open>unicode.IsSpace\<close>; a multi-byte Unicode space is not recognised by the model.
\<close>

definition is_space :: "char \<Rightarrow> bool" where
  "is_space c \<longleftrightarrow> of_char c \<in> {9::nat, 10, 11, 12, 13, 32}"

definition trim_space :: "string \<Rightarrow> string" where
  "trim_space s = rev (dropWhile is_space (rev (dropWhile is_space s)))"

lemma trim_space_Nil_iff: "trim_space s = [] \<longleftrightarrow> (\<forall>c\<in>set s. is_space c)"
  by (auto simp: trim_space_def dropWhile_eq_Nil_conv dest: set_dropWhileD)
     (metis dropWhile_eq_Nil_conv hd_dropWhile hd_in_set)

lemma trim_space_empty [simp]: "trim_space [] = []"
  by (simp add: trim_space_def)

fun str_contains :: "string \<Rightarrow> string \<Rightarrow> bool" where
  "str_contains [] p = (p = [])"
| "str_contains (c # cs) p = (take (length p) (c # cs) = p \<or> str_contains cs p)"

lemma str_contains_iff: "str_contains s p \<longleftrightarrow> (\<exists>xs ys. s = xs @ p @ ys)"
proof (induction s)
  case Nil
  then show ?case by auto
next
  case (Cons c cs)
  have "take (length p) (c # cs) = p \<longleftrightarrow> (\<exists>ys. c # cs = p @ ys)"
    by (metis append_eq_conv_conj append_take_drop_id)
  then show ?case
    using Cons.IH by (auto simp: Cons_eq_append_conv)
qed

definition has_prefix :: "string \<Rightarrow> string \<Rightarrow> bool" where
  "has_prefix s p \<longleftrightarrow> take (length p) s = p"

lemma has_prefix_iff: "has_prefix s p \<longleftrightarrow> (\<exists>t. s = p @ t)"
  by (metis append_eq_conv_conj append_take_drop_id has_prefix_def)

function str_fields :: "string \<Rightarrow> string list" where
  "str_fields s =
     (let t = dropWhile is_space s
      in if t = [] then []
         else takeWhile (\<lambda>c. \<not> is_space c) t # str_fields (dropWhile (\<lambda>c. \<not> is_space c) t))"
  by pat_completeness auto
termination
proof (relation "measure length", simp, goal_cases)
  case (1 s t)
  then have "t \<noteq> []" "\<not> is_space (hd t)" by (auto simp: hd_dropWhile)
  then have "length (dropWhile (\<lambda>c. \<not> is_space c) t) < length t"
    by (cases t) (auto intro: le_imp_less_Suc length_dropWhile_le)
  also have "\<dots> \<le> length s" using 1 by (simp add: length_dropWhile_le)
  finally show ?case by simp
qed

declare str_fields.simps [simp del]

fun str_join :: "string list \<Rightarrow> string \<Rightarrow> string" where
  "str_join [] sep = []"
| "str_join [x] sep = x"
| "str_join (x # y # ys) sep = x @ sep @ str_join (y # ys) sep"

text \<open>\<open>strings.Split\<close> at a one-character separator.\<close>

fun str_split :: "char \<Rightarrow> string \<Rightarrow> string list" where
  "str_split sep [] = [[]]"
| "str_split sep (c # cs) =
     (if c = sep then [] # str_split sep cs
      else case str_split sep cs of [] \<Rightarrow> [[c]] | x # xs \<Rightarrow> (c # x) # xs)"

lemma str_split_nonempty [simp]: "str_split sep s \<noteq> []"
  by (induction s) (auto split: list.splits)

lemma str_split_no_sep: "x \<in> set (str_split sep s) \<Longrightarrow> sep \<notin> set x"
  by (induction s arbitrary: x) (auto split: list.splits if_splits)

definition has_suffix :: "string \<Rightarrow> string \<Rightarrow> bool" where
  "has_suffix s p \<longleftrightarrow> has_prefix (rev s) (rev p)"

definition trim_prefix :: "string \<Rightarrow> string \<Rightarrow> string" where
  "trim_prefix s p = (if has_prefix s p then drop (length p) s else s)"

definition is_digit :: "char \<Rightarrow> bool" where
  "is_digit c \<longleftrightarrow> CHR ''0'' \<le> c \<and> c \<le> CHR ''9''"

definition is_alnum :: "char \<Rightarrow> bool" where
  "is_alnum c \<longleftrightarrow> is_digit c \<or> (CHR ''A'' \<le> c \<and> c \<le> CHR ''Z'') \<or> (CHR ''a'' \<le> c \<and> c \<le> CHR ''z'')"

text \<open>The character class \<open>[A-Za-z0-9_-]\<close> of base64url tokens and opaque identifiers.\<close>

definition is_token_char :: "char \<Rightarrow> bool" where
  "is_token_char c \<longleftrightarrow> is_alnum c \<or> c = CHR ''_'' \<or> c = CHR ''-''"

section \<open>Decimal numbers\<close>

text \<open>
  \<open>strconv.FormatInt(n, 10)\<close>, and \<open>strconv.ParseInt(s, 10, 64)\<close>: an optional sign, then at
  least one digit and nothing else, within the range of 64 bits.
\<close>

fun nat_digits :: "nat \<Rightarrow> string" where
  "nat_digits n = (if n < 10 then [char_of (48 + n)] else nat_digits (n div 10) @ [char_of (48 + n mod 10)])"

declare nat_digits.simps [simp del]

definition itoa :: "int \<Rightarrow> string" where
  "itoa n = (if n < 0 then CHR ''-'' # nat_digits (nat (- n)) else nat_digits (nat n))"

definition digits_value :: "string \<Rightarrow> int" where
  "digits_value s = foldl (\<lambda>acc c. 10 * acc + (of_char c - 48)) 0 s"

definition parse_int64 :: "string \<Rightarrow> int option" where
  "parse_int64 s =
     (let (neg, ds) = (case s of [] \<Rightarrow> (False, [])
            | c # cs \<Rightarrow> if c = CHR ''-'' then (True, cs) else if c = CHR ''+'' then (False, cs) else (False, s));
          v = (if neg then - digits_value ds else digits_value ds)
      in if ds = [] \<or> \<not> list_all is_digit ds then None
         else if v < - (2 ^ 63) \<or> 2 ^ 63 \<le> v then None else Some v)"

lemma digit_char: "d < 10 \<Longrightarrow> is_digit (char_of (48 + d :: nat)) \<and> (of_char (char_of (48 + d :: nat)) :: int) = 48 + int d"
proof -
  assume d: "d < 10"
  then have "d \<in> set [0..<10]" by simp
  moreover have "\<forall>d\<in>set [0..<10]. is_digit (char_of (48 + d :: nat)) \<and> (of_char (char_of (48 + d :: nat)) :: int) = 48 + int d"
    by code_simp
  ultimately show ?thesis by blast
qed

lemma nat_digits_value:
  "digits_value (nat_digits n) = int n \<and> list_all is_digit (nat_digits n) \<and> nat_digits n \<noteq> []"
proof (induction n rule: nat_digits.induct)
  case (1 n)
  show ?case
  proof (cases "n < 10")
    case True
    then show ?thesis by (simp add: nat_digits.simps [of n] digits_value_def digit_char)
  next
    case False
    with 1 have IH: "digits_value (nat_digits (n div 10)) = int (n div 10)" "list_all is_digit (nat_digits (n div 10))"
      by simp_all
    have "int n = 10 * int (n div 10) + int (n mod 10)"
      by (metis div_mult_mod_eq mult.commute of_nat_add of_nat_mult of_nat_numeral)
    with False IH show ?thesis
      by (simp add: nat_digits.simps [of n] digits_value_def digit_char)
  qed
qed

lemma parse_itoa:
  assumes "0 \<le> v" "v < 2 ^ 63"
  shows "parse_int64 (itoa v) = Some v"
proof -
  obtain c cs where n: "nat_digits (nat v) = c # cs"
    using nat_digits_value [of "nat v"] by (cases "nat_digits (nat v)") auto
  have "is_digit c" using nat_digits_value [of "nat v"] n by simp
  then have "c \<noteq> CHR ''-''" "c \<noteq> CHR ''+''" by (auto simp: is_digit_def)
  then show ?thesis
    using assms n nat_digits_value [of "nat v"] by (simp add: parse_int64_def itoa_def Let_def)
qed

text \<open>What parses back at all parses back to the number.\<close>

lemma parse_itoa_Some:
  assumes "parse_int64 (itoa v) = Some u"
  shows "u = v"
proof (cases "v < 0")
  case True
  with assms nat_digits_value [of "nat (- v)"] show ?thesis
    by (simp add: parse_int64_def itoa_def Let_def split: if_splits)
next
  case False
  obtain c cs where n: "nat_digits (nat v) = c # cs"
    using nat_digits_value [of "nat v"] by (cases "nat_digits (nat v)") auto
  have "is_digit c" using nat_digits_value [of "nat v"] n by simp
  then have "c \<noteq> CHR ''-''" "c \<noteq> CHR ''+''" by (auto simp: is_digit_def)
  with assms False n nat_digits_value [of "nat v"] show ?thesis
    by (simp add: parse_int64_def itoa_def Let_def split: if_splits)
qed

section \<open>Maps and lists\<close>

text \<open>A separator that the parts do not contain cuts a text in one way.\<close>

lemma cut_at:
  "x \<notin> set xs \<Longrightarrow> x \<notin> set ys \<Longrightarrow> xs @ x # r = ys @ x # r' \<longleftrightarrow> xs = ys \<and> r = r'"
proof (induction xs arbitrary: ys)
  case Nil
  then show ?case by (cases ys) auto
next
  case (Cons a xs)
  then show ?case by (cases ys) auto
qed

lemma int_le_add1: "(a::int) \<le> b \<Longrightarrow> a \<le> b + 1"
  by simp

lemma map_upd_ran_subset: "ran (m(k \<mapsto> v)) \<subseteq> insert v (ran m)"
  by (auto simp: ran_def)

lemma filter_neq_not_in [simp]: "x \<notin> set xs \<Longrightarrow> filter (\<lambda>y. y \<noteq> x) xs = xs"
  by (induction xs) auto

lemma distinct_subfilter:
  "distinct (map h (filter p xs)) \<Longrightarrow> distinct (map h (filter (\<lambda>x. p x \<and> q x) xs))"
  using distinct_map_filter [of h "filter p xs" q] by simp

end
