(* ===== verification/SecurityLedger.thy ===== *)
theory SecurityLedger
  imports Prelude
begin

text \<open>
  The authoritative security state of ADR-0007: the per-user security epoch and the durable
  password-mutation intent.  The types are those of
  \<open>internal/securitystate/securitystate.go\<close>, the statements those of
  \<open>internal/adapters/postgres/security_state_store.go\<close>.  A statement is a function on the
  two tables it touches; a method of the store reaches it through \<open>io_call\<close>, so that an
  infrastructure fault, with or without an effect, is one of its outcomes.
\<close>

section \<open>Domain types\<close>

type_synonym user_id = string
type_synonym epoch = int

datatype intent_status = IntentActive | IntentOutcomeRecorded | IntentLocalSettlement | IntentSettled

definition terminal :: "intent_status \<Rightarrow> bool" where
  "terminal s \<longleftrightarrow> s = IntentSettled"

definition post_epoch :: "intent_status \<Rightarrow> bool" where
  "post_epoch s \<longleftrightarrow> s = IntentOutcomeRecorded \<or> s = IntentLocalSettlement"

datatype provider_outcome =
  ProviderOutcomeNone | ProviderOutcomeSuccess | ProviderOutcomeConfirmedFailure | ProviderOutcomeUnknown

definition advances_epoch :: "provider_outcome \<Rightarrow> bool" where
  "advances_epoch x \<longleftrightarrow> x = ProviderOutcomeSuccess \<or> x = ProviderOutcomeUnknown"

datatype settlement_outcome =
  SettlementOutcomeNone | SettlementOutcomeSettled | SettlementOutcomeSettledRelogin
  | SettlementOutcomeDegraded

record intent =
  in_user_id :: user_id
  in_intent_id :: int
  in_status :: intent_status
  in_epoch_at_acquire :: epoch
  in_provider_outcome :: provider_outcome
  in_settlement_outcome :: settlement_outcome
  in_lease_expires_at :: time
  in_settlement_attempts :: int

record sec_state =
  ss_epoch :: epoch
  ss_intent :: "intent option"

datatype sec_error =
  ErrIntentHeld | ErrFenceLost | ErrEpochStale | ErrBarrierHeld | ErrUserNotFound
  | ErrSecInfra \<comment> \<open>a wrapped driver error\<close>
  | ErrSecRefused string \<comment> \<open>an \<open>errors.New\<close> of the package itself\<close>

text \<open>Go's zero time, which a nil \<open>lease_expires_at\<close> leaves in the intent.\<close>

definition zero_time :: time where
  "zero_time = - 62135596800000000000"

section \<open>The tables\<close>

record intent_row =
  ir_intent_id :: int
  ir_status :: intent_status
  ir_epoch_at_acquire :: epoch
  ir_provider_outcome :: provider_outcome
  ir_settlement_outcome :: settlement_outcome
  ir_lease_expires_at :: "time option"
  ir_settlement_attempts :: int
  ir_created_at :: time
  ir_updated_at :: time
  ir_settled_at :: "time option"

record ledger_db =
  ld_epochs :: "user_id \<rightharpoonup> epoch" \<comment> \<open>\<open>users.security_epoch\<close>\<close>
  ld_intents :: "user_id \<rightharpoonup> intent_row" \<comment> \<open>\<open>password_mutation_intents\<close>, keyed by its primary key\<close>
  ld_seq :: int \<comment> \<open>the last value of \<open>password_mutation_intent_seq\<close>\<close>
  ld_now :: time \<comment> \<open>\<open>NOW()\<close> of the database\<close>

definition row_intent :: "user_id \<Rightarrow> intent_row \<Rightarrow> intent" where
  "row_intent u r = \<lparr>in_user_id = u, in_intent_id = ir_intent_id r, in_status = ir_status r,
     in_epoch_at_acquire = ir_epoch_at_acquire r, in_provider_outcome = ir_provider_outcome r,
     in_settlement_outcome = ir_settlement_outcome r,
     in_lease_expires_at = (case ir_lease_expires_at r of None \<Rightarrow> zero_time | Some t \<Rightarrow> t),
     in_settlement_attempts = ir_settlement_attempts r\<rparr>"

section \<open>The statements\<close>

definition sql_get_security_state :: "user_id \<Rightarrow> ledger_db \<Rightarrow> (sec_error + sec_state) \<times> ledger_db" where
  "sql_get_security_state u db =
     (case ld_epochs db u of
        None \<Rightarrow> (Inl ErrUserNotFound, db)
      | Some e \<Rightarrow>
          (Inr \<lparr>ss_epoch = e,
             ss_intent = (case ld_intents db u of
                None \<Rightarrow> None
              | Some r \<Rightarrow> if ir_status r = IntentSettled then None else Some (row_intent u r))\<rparr>, db))"

definition sql_current_epoch :: "user_id \<Rightarrow> ledger_db \<Rightarrow> (sec_error + epoch) \<times> ledger_db" where
  "sql_current_epoch u db =
     (case ld_epochs db u of None \<Rightarrow> (Inl ErrUserNotFound, db) | Some e \<Rightarrow> (Inr e, db))"

text \<open>
  \<open>INSERT ... SELECT ... ON CONFLICT DO UPDATE WHERE status = 'settled' RETURNING\<close>: no row when
  the user does not exist or a non-terminal intent is there.  The sequence advances for every
  existing user, whether or not a row results.
\<close>

definition sql_acquire_intent ::
  "user_id \<Rightarrow> duration \<Rightarrow> ledger_db \<Rightarrow> (sec_error + intent option) \<times> ledger_db" where
  "sql_acquire_intent u lease_ttl db =
     (case ld_epochs db u of
        None \<Rightarrow> (Inr None, db)
      | Some e \<Rightarrow>
          (let db' = db\<lparr>ld_seq := ld_seq db + 1\<rparr>;
               row = \<lparr>ir_intent_id = ld_seq db + 1, ir_status = IntentActive, ir_epoch_at_acquire = e,
                  ir_provider_outcome = ProviderOutcomeNone, ir_settlement_outcome = SettlementOutcomeNone,
                  ir_lease_expires_at = Some (ld_now db + lease_ttl), ir_settlement_attempts = 0,
                  ir_created_at = ld_now db, ir_updated_at = ld_now db, ir_settled_at = None\<rparr>
           in if (case ld_intents db u of None \<Rightarrow> True | Some r \<Rightarrow> ir_status r = IntentSettled)
              then (Inr (Some (row_intent u row)), db'\<lparr>ld_intents := (ld_intents db)(u \<mapsto> row)\<rparr>)
              else (Inr None, db')))"

definition sql_user_exists :: "user_id \<Rightarrow> ledger_db \<Rightarrow> (sec_error + bool) \<times> ledger_db" where
  "sql_user_exists u db = (Inr (ld_epochs db u \<noteq> None), db)"

text \<open>
  The compare-and-set update shared by the transitions: \<open>UPDATE ... WHERE user_id = $1 AND
  intent_id = $2 AND <guard>\<close>; the result is the number of affected rows.
\<close>

definition cas_update ::
  "user_id \<Rightarrow> int \<Rightarrow> (intent_row \<Rightarrow> bool) \<Rightarrow> (ledger_db \<Rightarrow> intent_row \<Rightarrow> intent_row)
     \<Rightarrow> ledger_db \<Rightarrow> (sec_error + nat) \<times> ledger_db" where
  "cas_update u i guard upd db =
     (case ld_intents db u of
        Some r \<Rightarrow>
          if ir_intent_id r = i \<and> guard r
          then (Inr 1, db\<lparr>ld_intents := (ld_intents db)(u \<mapsto> (upd db r)\<lparr>ir_updated_at := ld_now db\<rparr>)\<rparr>)
          else (Inr 0, db)
      | None \<Rightarrow> (Inr 0, db))"

definition sql_settle_confirmed_failure :: "user_id \<Rightarrow> int \<Rightarrow> ledger_db \<Rightarrow> (sec_error + nat) \<times> ledger_db" where
  "sql_settle_confirmed_failure u i =
     cas_update u i (\<lambda>r. ir_status r = IntentActive)
       (\<lambda>db r. r\<lparr>ir_status := IntentSettled, ir_provider_outcome := ProviderOutcomeConfirmedFailure,
                ir_settled_at := Some (ld_now db)\<rparr>)"

text \<open>
  \<open>lease_fence\<close> is the optional \<open>AND lease_expires_at < $4\<close> of the expiry takeover.
\<close>

definition lease_passes :: "time option \<Rightarrow> intent_row \<Rightarrow> bool" where
  "lease_passes fence r =
     (case fence of
        None \<Rightarrow> True
      | Some now \<Rightarrow> (case ir_lease_expires_at r of None \<Rightarrow> False | Some t \<Rightarrow> t < now))"

definition sql_record_outcome ::
  "user_id \<Rightarrow> int \<Rightarrow> provider_outcome \<Rightarrow> time option \<Rightarrow> ledger_db \<Rightarrow> (sec_error + nat) \<times> ledger_db" where
  "sql_record_outcome u i outcome fence =
     cas_update u i (\<lambda>r. ir_status r = IntentActive \<and> lease_passes fence r)
       (\<lambda>db r. r\<lparr>ir_status := IntentOutcomeRecorded, ir_provider_outcome := outcome,
                ir_lease_expires_at := None\<rparr>)"

definition sql_bump_epoch :: "user_id \<Rightarrow> ledger_db \<Rightarrow> (sec_error + epoch) \<times> ledger_db" where
  "sql_bump_epoch u db =
     (case ld_epochs db u of
        None \<Rightarrow> (Inl ErrSecInfra, db)
      | Some e \<Rightarrow> (Inr (e + 1), db\<lparr>ld_epochs := (ld_epochs db)(u \<mapsto> e + 1)\<rparr>))"

definition sql_begin_settlement :: "user_id \<Rightarrow> int \<Rightarrow> ledger_db \<Rightarrow> (sec_error + nat) \<times> ledger_db" where
  "sql_begin_settlement u i =
     cas_update u i (\<lambda>r. ir_status r = IntentOutcomeRecorded)
       (\<lambda>db r. r\<lparr>ir_status := IntentLocalSettlement\<rparr>)"

definition sql_settle ::
  "user_id \<Rightarrow> int \<Rightarrow> settlement_outcome \<Rightarrow> ledger_db \<Rightarrow> (sec_error + nat) \<times> ledger_db" where
  "sql_settle u i outcome =
     cas_update u i (\<lambda>r. ir_status r = IntentLocalSettlement)
       (\<lambda>db r. r\<lparr>ir_status := IntentSettled, ir_settlement_outcome := outcome,
                ir_settled_at := Some (ld_now db)\<rparr>)"

definition sql_bump_attempts :: "user_id \<Rightarrow> int \<Rightarrow> ledger_db \<Rightarrow> (sec_error + int option) \<times> ledger_db" where
  "sql_bump_attempts u i db =
     (case ld_intents db u of
        Some r \<Rightarrow>
          if ir_intent_id r = i \<and> ir_status r \<noteq> IntentSettled
          then (Inr (Some (ir_settlement_attempts r + 1)),
                db\<lparr>ld_intents := (ld_intents db)(u \<mapsto>
                   r\<lparr>ir_settlement_attempts := ir_settlement_attempts r + 1, ir_updated_at := ld_now db\<rparr>)\<rparr>)
          else (Inr None, db)
      | None \<Rightarrow> (Inr None, db))"

section \<open>The methods of the store\<close>

type_synonym pg = "ledger_db conn"

definition pg_get_security_state :: "user_id \<Rightarrow> pg \<Rightarrow> (sec_error + sec_state) \<times> pg" where
  "pg_get_security_state u = io_call ErrSecInfra (sql_get_security_state u)"

definition pg_current_epoch :: "user_id \<Rightarrow> pg \<Rightarrow> (sec_error + epoch) \<times> pg" where
  "pg_current_epoch u = io_call ErrSecInfra (sql_current_epoch u)"

definition acquire_no_row :: "user_id \<Rightarrow> pg \<Rightarrow> sec_error \<times> pg" where
  "acquire_no_row u c =
     (case io_call ErrSecInfra (sql_user_exists u) c of
        (Inl e, c') \<Rightarrow> (e, c')
      | (Inr exists, c') \<Rightarrow> if exists then (ErrIntentHeld, c') else (ErrUserNotFound, c'))"

definition pg_acquire_intent :: "user_id \<Rightarrow> duration \<Rightarrow> pg \<Rightarrow> (sec_error + intent) \<times> pg" where
  "pg_acquire_intent u lease_ttl c =
     (case io_call ErrSecInfra (sql_acquire_intent u lease_ttl) c of
        (Inl e, c') \<Rightarrow> (Inl e, c')
      | (Inr (Some it), c') \<Rightarrow> (Inr it, c')
      | (Inr None, c') \<Rightarrow> (case acquire_no_row u c' of (e, c'') \<Rightarrow> (Inl e, c'')))"

text \<open>\<open>tag.RowsAffected() == 0\<close> is a lost fence.\<close>

definition fenced :: "(ledger_db \<Rightarrow> (sec_error + nat) \<times> ledger_db) \<Rightarrow> pg \<Rightarrow> (sec_error + unit) \<times> pg" where
  "fenced stmt c =
     (case io_call ErrSecInfra stmt c of
        (Inl e, c') \<Rightarrow> (Inl e, c')
      | (Inr n, c') \<Rightarrow> if n = 0 then (Inl ErrFenceLost, c') else (Inr (), c'))"

definition pg_settle_confirmed_failure :: "user_id \<Rightarrow> int \<Rightarrow> pg \<Rightarrow> (sec_error + unit) \<times> pg" where
  "pg_settle_confirmed_failure u i = fenced (sql_settle_confirmed_failure u i)"

definition advance_epoch ::
  "user_id \<Rightarrow> int \<Rightarrow> provider_outcome \<Rightarrow> time option \<Rightarrow> pg \<Rightarrow> (sec_error + epoch) \<times> pg" where
  "advance_epoch u i outcome fence =
     tx_run ErrSecInfra (\<lambda>c.
       case fenced (sql_record_outcome u i outcome fence) c of
         (Inl e, c') \<Rightarrow> (Inl e, c')
       | (Inr _, c') \<Rightarrow> io_call ErrSecInfra (sql_bump_epoch u) c')"

definition pg_record_outcome_advance_epoch ::
  "user_id \<Rightarrow> int \<Rightarrow> provider_outcome \<Rightarrow> pg \<Rightarrow> (sec_error + epoch) \<times> pg" where
  "pg_record_outcome_advance_epoch u i outcome = advance_epoch u i outcome None"

definition pg_takeover_expired_advance_epoch ::
  "user_id \<Rightarrow> int \<Rightarrow> time \<Rightarrow> pg \<Rightarrow> (sec_error + epoch) \<times> pg" where
  "pg_takeover_expired_advance_epoch u i now = advance_epoch u i ProviderOutcomeUnknown (Some now)"

definition pg_begin_settlement :: "user_id \<Rightarrow> int \<Rightarrow> pg \<Rightarrow> (sec_error + unit) \<times> pg" where
  "pg_begin_settlement u i = fenced (sql_begin_settlement u i)"

definition pg_settle :: "user_id \<Rightarrow> int \<Rightarrow> settlement_outcome \<Rightarrow> pg \<Rightarrow> (sec_error + unit) \<times> pg" where
  "pg_settle u i outcome = fenced (sql_settle u i outcome)"

definition pg_bump_settlement_attempts :: "user_id \<Rightarrow> int \<Rightarrow> pg \<Rightarrow> (sec_error + int) \<times> pg" where
  "pg_bump_settlement_attempts u i c =
     (case io_call ErrSecInfra (sql_bump_attempts u i) c of
        (Inl e, c') \<Rightarrow> (Inl e, c')
      | (Inr None, c') \<Rightarrow> (Inl ErrFenceLost, c')
      | (Inr (Some n), c') \<Rightarrow> (Inr n, c'))"

lemmas pg_defs = pg_get_security_state_def pg_current_epoch_def pg_acquire_intent_def
  acquire_no_row_def pg_settle_confirmed_failure_def pg_record_outcome_advance_epoch_def
  pg_takeover_expired_advance_epoch_def pg_begin_settlement_def pg_settle_def
  pg_bump_settlement_attempts_def

lemmas sql_defs = sql_get_security_state_def sql_current_epoch_def sql_acquire_intent_def
  sql_user_exists_def sql_settle_confirmed_failure_def sql_record_outcome_def sql_bump_epoch_def
  sql_begin_settlement_def sql_settle_def sql_bump_attempts_def cas_update_def

end
