(* ===== verification/SessionTypes.thy ===== *)
theory SessionTypes
  imports SecurityLedger
begin

text \<open>
  The session domain types of \<open>internal/session\<close>: the record stored in Redis and its expiry
  rules (\<open>session.go\<close>), the versioned provider credential sealed into it (\<open>credential.go\<close>) and
  the display strings of the session inventory (\<open>display.go\<close>).  SHA-256, the AES-GCM encryptor
  and the JSON codec of the credential's wire form are arguments of the definitions that use
  them; the fields of a record are those of the struct.
\<close>

type_synonym session_id = string
type_synonym token_hash = string

definition ClientKindMiniProgram :: string where
  "ClientKindMiniProgram = ''dreamup-miniprogram''"

definition MiniProgramSessionTTL :: duration where
  "MiniProgramSessionTTL = minutes 30"

record session_record =
  sn_version :: int
  sn_session_id :: session_id
  sn_user_id :: user_id
  sn_client_kind :: string
  sn_provider :: string
  sn_provider_session_reference :: string
  sn_provider_session_credential :: string
  sn_created_at :: time
  sn_last_seen_at :: time
  sn_expires_at :: time
  sn_authentication_time :: time
  sn_authentication_methods :: "string list"
  sn_reauthenticated_until :: "time option"
  sn_csrf_token_hash :: string
  sn_user_agent_hash :: string
  sn_device_display :: string
  sn_client_display :: string
  sn_ip_address_masked :: string
  sn_remember :: bool
  sn_security_epoch :: epoch

record principal =
  pr_user_id :: user_id
  pr_session_id :: session_id
  pr_authentication_time :: time
  pr_authentication_methods :: "string list"
  pr_reauthenticated_until :: "time option"

datatype session_error =
  ErrSessionNotFound | ErrSessionExpired | ErrSessionIsCurrent
  | ErrProviderSessionCredentialMissing | ErrMissingEncryptionKey
  | ErrSessInfra \<comment> \<open>a wrapped Redis, random-source, cipher or ledger failure\<close>
  | ErrSessDecode \<comment> \<open>a stored payload that is not a session record\<close>
  | ErrSessRefused string \<comment> \<open>an \<open>errors.New\<close> of the package itself\<close>

section \<open>Expiry\<close>

definition is_expired :: "session_record \<Rightarrow> time \<Rightarrow> duration \<Rightarrow> bool" where
  "is_expired r now idle \<longleftrightarrow>
     (if now > sn_expires_at r then True
      else if 0 < idle \<and> now - sn_last_seen_at r > idle then True else False)"

definition effective_expiry :: "session_record \<Rightarrow> duration \<Rightarrow> time" where
  "effective_expiry r idle =
     (if idle \<le> 0 then sn_expires_at r
      else let i = sn_last_seen_at r + idle
           in if i < sn_expires_at r then i else sn_expires_at r)"

definition needs_touch :: "session_record \<Rightarrow> time \<Rightarrow> duration \<Rightarrow> bool" where
  "needs_touch r now interval \<longleftrightarrow> now - sn_last_seen_at r \<ge> interval"

lemma is_expired_effective: "is_expired r now idle \<longleftrightarrow> effective_expiry r idle < now"
  by (auto simp: is_expired_def effective_expiry_def Let_def)

section \<open>The stamp\<close>

text \<open>A legacy record decodes with epoch 0 and counts as generation 1.\<close>

definition normalize_stamp :: "session_record \<Rightarrow> session_record" where
  "normalize_stamp r = (if sn_security_epoch r < 1 then r\<lparr>sn_security_epoch := 1\<rparr> else r)"

definition require_stamped :: "session_record \<Rightarrow> session_error option" where
  "require_stamped r =
     (if sn_security_epoch r < 1 then Some (ErrSessRefused ''missing security epoch stamp'') else None)"

lemma normalize_stamp_simps [simp]:
  "sn_session_id (normalize_stamp r) = sn_session_id r"
  "sn_user_id (normalize_stamp r) = sn_user_id r"
  "effective_expiry (normalize_stamp r) idle = effective_expiry r idle"
  "is_expired (normalize_stamp r) now idle = is_expired r now idle"
  "sn_created_at (normalize_stamp r) = sn_created_at r"
  by (simp_all add: normalize_stamp_def effective_expiry_def is_expired_def Let_def)

lemma normalize_stamp_ge1: "1 \<le> sn_security_epoch (normalize_stamp r)"
  by (simp add: normalize_stamp_def)

section \<open>CSRF\<close>

definition validate_csrf :: "(string \<Rightarrow> string) \<Rightarrow> string \<Rightarrow> string \<Rightarrow> session_record \<Rightarrow> bool" where
  "validate_csrf hash cookie_value header_value r \<longleftrightarrow>
     (if cookie_value = [] \<or> header_value = [] then False
      else if cookie_value \<noteq> header_value then False
      else if sn_csrf_token_hash r = [] then False
      else hash cookie_value = sn_csrf_token_hash r)"

section \<open>Provider credential\<close>

definition providerSessionFieldMaxLen :: nat where
  "providerSessionFieldMaxLen = 200"

record provider_credential =
  pc_version :: int
  pc_provider :: string
  pc_session_id :: string
  pc_session_token :: string

definition credential_validate :: "provider_credential \<Rightarrow> session_error option" where
  "credential_validate c =
     (if pc_provider c = [] then Some (ErrSessRefused ''requires a provider'')
      else if length (pc_session_id c) < 1 \<or> length (pc_session_id c) > providerSessionFieldMaxLen
      then Some (ErrSessRefused ''invalid provider session id'')
      else if pc_version c = 1
      then (if pc_session_token c \<noteq> [] then Some (ErrSessRefused ''version 1 carries a token'') else None)
      else if pc_version c = 2
      then (if length (pc_session_token c) < 1 \<or> length (pc_session_token c) > providerSessionFieldMaxLen
            then Some (ErrSessRefused ''invalid provider session token'') else None)
      else Some (ErrSessRefused ''unknown credential version''))"

definition can_finalize_authorization :: "provider_credential \<Rightarrow> bool" where
  "can_finalize_authorization c \<longleftrightarrow>
     pc_version c = 2 \<and> pc_session_id c \<noteq> [] \<and> pc_session_token c \<noteq> []"

text \<open>
  The encryptor (\<open>None\<close>: not configured) and the JSON form of the wire struct.
\<close>

record encryptor =
  enc_encrypt :: "string \<Rightarrow> session_error + string"
  enc_decrypt :: "string \<Rightarrow> session_error + string"

record wire_codec =
  wc_marshal :: "provider_credential \<Rightarrow> string"
  wc_unmarshal :: "string \<Rightarrow> provider_credential option"

definition seal_credential ::
  "encryptor option \<Rightarrow> wire_codec \<Rightarrow> provider_credential \<Rightarrow> session_error + string" where
  "seal_credential enc wc c =
     (case credential_validate c of
        Some e \<Rightarrow> Inl e
      | None \<Rightarrow>
          (case enc of
             None \<Rightarrow> Inl ErrMissingEncryptionKey
           | Some en \<Rightarrow>
               (case enc_encrypt en (wc_marshal wc c) of
                  Inl _ \<Rightarrow> Inl ErrSessInfra
                | Inr s \<Rightarrow> Inr s)))"

definition decrypt_credential ::
  "encryptor option \<Rightarrow> wire_codec \<Rightarrow> string \<Rightarrow> session_error + provider_credential" where
  "decrypt_credential enc wc sealed =
     (if sealed = [] then Inl ErrProviderSessionCredentialMissing
      else case enc of
        None \<Rightarrow> Inl ErrMissingEncryptionKey
      | Some en \<Rightarrow>
          (case enc_decrypt en sealed of
             Inl _ \<Rightarrow> Inl ErrSessInfra
           | Inr plain \<Rightarrow>
               (case wc_unmarshal wc plain of
                  None \<Rightarrow> Inl ErrSessDecode
                | Some c \<Rightarrow>
                    (case credential_validate c of Some e \<Rightarrow> Inl e | None \<Rightarrow> Inr c))))"

definition encrypt_provider_session_reference :: "encryptor option \<Rightarrow> string \<Rightarrow> session_error + string" where
  "encrypt_provider_session_reference enc plaintext =
     (if plaintext = [] then Inr []
      else case enc of
        None \<Rightarrow> Inl ErrMissingEncryptionKey
      | Some en \<Rightarrow> (case enc_encrypt en plaintext of Inl _ \<Rightarrow> Inl ErrSessInfra | Inr s \<Rightarrow> Inr s))"

definition decrypt_provider_session_reference :: "encryptor option \<Rightarrow> string \<Rightarrow> session_error + string" where
  "decrypt_provider_session_reference enc encrypted =
     (if encrypted = [] then Inr []
      else case enc of
        None \<Rightarrow> Inl ErrMissingEncryptionKey
      | Some en \<Rightarrow> (case enc_decrypt en encrypted of Inl _ \<Rightarrow> Inl ErrSessInfra | Inr s \<Rightarrow> Inr s))"

section \<open>Display strings\<close>

definition normalize_os :: "string \<Rightarrow> string" where
  "normalize_os ua =
     (if str_contains ua ''Android'' then ''Android''
      else if str_contains ua ''iPhone'' \<or> str_contains ua ''iPad'' \<or> str_contains ua ''iPod'' then ''iOS''
      else if str_contains ua ''Windows'' then ''Windows''
      else if str_contains ua ''Macintosh'' \<or> str_contains ua ''Mac OS X'' then ''macOS''
      else if str_contains ua ''Linux'' then ''Linux''
      else [])"

definition normalize_browser :: "string \<Rightarrow> string" where
  "normalize_browser ua =
     (if str_contains ua ''Edg/'' \<or> str_contains ua ''EdgA/'' \<or> str_contains ua ''Edge/'' then ''Edge''
      else if str_contains ua ''Firefox/'' then ''Firefox''
      else if str_contains ua ''Chrome/'' \<or> str_contains ua ''CriOS/'' then ''Chrome''
      else if str_contains ua ''Safari/'' then ''Safari''
      else [])"

definition clamp_display :: "string \<Rightarrow> string" where
  "clamp_display s = (if length s > 64 then [] else s)"

fun digits_of :: "nat \<Rightarrow> nat \<Rightarrow> (nat \<Rightarrow> char) \<Rightarrow> nat \<Rightarrow> string \<Rightarrow> string" where
  "digits_of 0 base digit v acc = acc"
| "digits_of (Suc n) base digit v acc =
     (if v = 0 then acc else digits_of n base digit (v div base) (digit (v mod base) # acc))"

definition itoa10 :: "nat \<Rightarrow> string" where
  "itoa10 n = (if n = 0 then ''0'' else digits_of 3 10 (\<lambda>d. char_of (48 + d)) n [])"

definition hex_group :: "nat \<Rightarrow> nat \<Rightarrow> string" where
  "hex_group hi lo =
     (let v = hi * 256 + lo
      in if v = 0 then ''0'' else digits_of 4 16 (\<lambda>d. ''0123456789abcdef'' ! d) v [])"

text \<open>
  \<open>net.SplitHostPort\<close> and \<open>net.ParseIP\<close> are given; a parsed address is its sixteen bytes, an
  IPv4 address in the mapped form \<open>::ffff:a.b.c.d\<close> that \<open>To4\<close> recognises.
\<close>

definition to4 :: "nat list \<Rightarrow> nat list option" where
  "to4 ip = (if take 10 ip = replicate 10 0 \<and> ip ! 10 = 255 \<and> ip ! 11 = 255 then Some (drop 12 ip) else None)"

definition mask_ip :: "(string \<Rightarrow> string option) \<Rightarrow> (string \<Rightarrow> nat list option) \<Rightarrow> string \<Rightarrow> string" where
  "mask_ip split_host_port parse_ip raw =
     (if raw = [] then []
      else let host = (case split_host_port raw of Some h \<Rightarrow> h | None \<Rightarrow> raw)
           in case parse_ip host of
                None \<Rightarrow> []
              | Some ip \<Rightarrow>
                  (case to4 ip of
                     Some v4 \<Rightarrow> itoa10 (v4 ! 0) @ ''.'' @ itoa10 (v4 ! 1) @ ''.'' @ itoa10 (v4 ! 2) @ ''.*''
                   | None \<Rightarrow>
                       str_join (map (\<lambda>i. hex_group (ip ! (2 * i)) (ip ! (2 * i + 1))) [0, 1, 2, 3]) '':''
                         @ '':*''))"

section \<open>What a valid credential is\<close>

lemma credential_validate_None:
  "credential_validate c = None \<longleftrightarrow>
     pc_provider c \<noteq> [] \<and> 1 \<le> length (pc_session_id c) \<and> length (pc_session_id c) \<le> 200 \<and>
     (pc_version c = 1 \<and> pc_session_token c = [] \<or>
      pc_version c = 2 \<and> 1 \<le> length (pc_session_token c) \<and> length (pc_session_token c) \<le> 200)"
  by (auto simp: credential_validate_def providerSessionFieldMaxLen_def Suc_le_eq)

lemma finalize_iff_version2:
  "credential_validate c = None \<Longrightarrow> can_finalize_authorization c \<longleftrightarrow> pc_version c = 2"
  by (auto simp: credential_validate_None can_finalize_authorization_def)

lemma decrypt_validates: "decrypt_credential enc wc sealed = Inr c \<Longrightarrow> credential_validate c = None"
  by (auto simp: decrypt_credential_def split: if_splits option.splits sum.splits)

section \<open>Properties\<close>

text \<open>\<open>IsExpired\<close> reports a record expired exactly when \<open>EffectiveExpiry\<close> has passed.\<close>

lemma expiry_definitions_agree: "is_expired r now idle \<longleftrightarrow> effective_expiry r idle < now"
  by (rule is_expired_effective)

text \<open>
  A provider credential survives sealing: whenever the encryptor opens what it encrypted and
  the JSON codec reads what it wrote, decrypting a sealed credential gives it back; and whatever
  ciphertext is presented, forged ones included, only a valid credential comes out, which can
  finalize an authorization exactly when it is a version-2 one.
\<close>

theorem sealed_credential_round_trip:
  assumes "\<And>p s. enc_encrypt en p = Inr s \<Longrightarrow> s \<noteq> [] \<and> enc_decrypt en s = Inr p"
    and "\<And>x. wc_unmarshal wc (wc_marshal wc x) = Some x"
    and "seal_credential (Some en) wc c = Inr sealed"
  shows "decrypt_credential (Some en) wc sealed = Inr c
    \<and> (\<nexists>x d. decrypt_credential (Some en) wc x = Inr d
         \<and> (credential_validate d \<noteq> None \<or> can_finalize_authorization d \<noteq> (pc_version d = 2)))"
proof
  show "decrypt_credential (Some en) wc sealed = Inr c"
    using assms by (auto simp: seal_credential_def decrypt_credential_def split: option.splits sum.splits)
  show "\<nexists>x d. decrypt_credential (Some en) wc x = Inr d
      \<and> (credential_validate d \<noteq> None \<or> can_finalize_authorization d \<noteq> (pc_version d = 2))"
    using decrypt_validates finalize_iff_version2 by metis
qed

text \<open>An encryptor and a codec with these laws: a tag byte, and a length-prefixed encoding.\<close>

definition demo_encryptor :: encryptor where
  "demo_encryptor = \<lparr>enc_encrypt = \<lambda>p. Inr (CHR ''#'' # p),
     enc_decrypt = \<lambda>s. case s of [] \<Rightarrow> Inl ErrSessInfra | c # p \<Rightarrow> Inr p\<rparr>"

definition demo_credential :: provider_credential where
  "demo_credential = \<lparr>pc_version = 2, pc_provider = ''zitadel'', pc_session_id = ''s'', pc_session_token = ''t''\<rparr>"

fun unary :: "nat \<Rightarrow> string" where
  "unary 0 = ''.''"
| "unary (Suc n) = CHR ''|'' # unary n"

fun split_unary :: "string \<Rightarrow> nat \<times> string" where
  "split_unary [] = (0, [])"
| "split_unary (c # s) =
     (if c = CHR ''|'' then (case split_unary s of (n, r) \<Rightarrow> (Suc n, r)) else (0, s))"

lemma split_unary [simp]: "split_unary (unary n @ s) = (n, s)"
  by (induction n) auto

definition demo_codec :: wire_codec where
  "demo_codec = \<lparr>
     wc_marshal = \<lambda>c. (if pc_version c < 0 then ''-'' else ''+'') @ unary (nat \<bar>pc_version c\<bar>)
        @ unary (length (pc_provider c)) @ pc_provider c
        @ unary (length (pc_session_id c)) @ pc_session_id c @ pc_session_token c,
     wc_unmarshal = \<lambda>s. (case s of [] \<Rightarrow> None | sg # s0 \<Rightarrow>
        (case split_unary s0 of (v, s1) \<Rightarrow>
          (case split_unary s1 of (n, s2) \<Rightarrow>
            (case split_unary (drop n s2) of (m, s3) \<Rightarrow>
               Some \<lparr>pc_version = (if sg = CHR ''-'' then - int v else int v), pc_provider = take n s2,
                 pc_session_id = take m s3, pc_session_token = drop m s3\<rparr>))))\<rparr>"

theorem sealed_credential_round_trip_witness:
  "\<exists>sealed. seal_credential (Some demo_encryptor) demo_codec demo_credential = Inr sealed
     \<and> decrypt_credential (Some demo_encryptor) demo_codec sealed = Inr demo_credential"
proof -
  obtain sealed where sealed: "seal_credential (Some demo_encryptor) demo_codec demo_credential = Inr sealed"
    by (simp add: seal_credential_def credential_validate_def providerSessionFieldMaxLen_def
        demo_encryptor_def demo_credential_def)
  have "enc_encrypt demo_encryptor p = Inr s \<Longrightarrow> s \<noteq> [] \<and> enc_decrypt demo_encryptor s = Inr p" for p s
    by (auto simp: demo_encryptor_def)
  moreover have "wc_unmarshal demo_codec (wc_marshal demo_codec x) = Some x" for x
    by (simp add: demo_codec_def)
  ultimately show ?thesis
    using sealed_credential_round_trip [OF _ _ sealed] sealed by blast
qed

lemma to4_mapped: "to4 (replicate 10 0 @ [255, 255, x, y, z, n]) = Some [x, y, z, n]"
  by (simp add: to4_def nth_append)

text \<open>No more of an IPv4 address is kept than its first three octets.\<close>

lemma masked_ipv4_hides_host:
  assumes "split_host_port a = None" and "split_host_port b = None" and "a \<noteq> []" and "b \<noteq> []"
    and "parse_ip a = Some (replicate 10 0 @ [255, 255, x, y, z, m])"
    and "parse_ip b = Some (replicate 10 0 @ [255, 255, x, y, z, n])"
  shows "mask_ip split_host_port parse_ip a = mask_ip split_host_port parse_ip b"
  unfolding mask_ip_def using assms by (simp add: to4_mapped)

end
