(* ===== verification/SessionStore.thy ===== *)
theory SessionStore
  imports SessionTypes "HOL-Library.List_Lexorder" "HOL-Library.Product_Lexorder"
begin

text \<open>
  The Redis session store of \<open>internal/adapters/redis/session_store.go\<close>: the record, locator and
  index keys, the Lua scripts that keep them together, and the methods built from them.  A
  command or script is a function on the Redis state.  A method reaches it through \<open>rcall\<close>:
  between any two commands of a method other clients may act, and every command may fault, both
  as the schedule of the environment says.
\<close>

section \<open>Keys\<close>

definition build_key :: "string \<Rightarrow> string list \<Rightarrow> string" where
  "build_key prefix parts = prefix @ concat parts"

definition record_key :: "string \<Rightarrow> token_hash \<Rightarrow> string" where
  "record_key prefix h = build_key prefix [''session:'', h]"

definition locator_key :: "string \<Rightarrow> session_id \<Rightarrow> string" where
  "locator_key prefix sid = build_key prefix [''session_locator:'', sid]"

definition index_key :: "string \<Rightarrow> user_id \<Rightarrow> string" where
  "index_key prefix u = build_key prefix [''user_sessions:'', u]"

lemmas key_defs = record_key_def locator_key_def index_key_def build_key_def

section \<open>The Redis state\<close>

text \<open>
  The three key families are disjoint (\<open>session_keys_disjoint\<close> below), so the state keeps a map
  for each.  A value carries the millisecond at which Redis expires it; the clock is the
  server's.  A payload is the JSON of a record, or bytes that are not JSON.
\<close>

datatype payload = Encoded session_record | Corrupt string

type_synonym zset = "(session_id \<times> int) list"

record redis =
  rd_now :: time
  rd_recs :: "token_hash \<rightharpoonup> payload \<times> int"
  rd_locs :: "session_id \<rightharpoonup> token_hash \<times> int"
  rd_idx :: "user_id \<rightharpoonup> zset \<times> int option"

definition rd_ms :: "redis \<Rightarrow> int" where
  "rd_ms db = unix_milli (rd_now db)"

definition get_rec :: "redis \<Rightarrow> token_hash \<Rightarrow> payload option" where
  "get_rec db h = (case rd_recs db h of None \<Rightarrow> None | Some (p, t) \<Rightarrow> if rd_ms db \<le> t then Some p else None)"

definition get_loc :: "redis \<Rightarrow> session_id \<Rightarrow> token_hash option" where
  "get_loc db sid = (case rd_locs db sid of None \<Rightarrow> None | Some (h, t) \<Rightarrow> if rd_ms db \<le> t then Some h else None)"

definition get_idx :: "redis \<Rightarrow> user_id \<Rightarrow> (zset \<times> int option) option" where
  "get_idx db u = (case rd_idx db u of
     None \<Rightarrow> None
   | Some (z, w) \<Rightarrow> (case w of None \<Rightarrow> Some (z, w) | Some t \<Rightarrow> if rd_ms db \<le> t then Some (z, w) else None))"

text \<open>\<open>ZADD\<close> keeps the members ordered by score, then by bytes.\<close>

definition zadd :: "session_id \<Rightarrow> int \<Rightarrow> zset \<Rightarrow> zset" where
  "zadd m s z = insort_key (\<lambda>x. (snd x, fst x)) (m, s) (filter (\<lambda>x. fst x \<noteq> m) z)"

definition zrem :: "user_id \<Rightarrow> session_id \<Rightarrow> redis \<Rightarrow> redis" where
  "zrem u m db = (case rd_idx db u of
     None \<Rightarrow> db
   | Some (z, w) \<Rightarrow>
       (let z' = filter (\<lambda>x. fst x \<noteq> m) z
        in db\<lparr>rd_idx := (rd_idx db)(u := if z' = [] then None else Some (z', w))\<rparr>))"

text \<open>
  \<open>ZADD\<close>, then the TTL of the index: \<open>PEXPIREAT\<close> when the key has none or when the score lies
  further ahead of the caller's clock than the key's remaining time; an instant that is not in
  the future deletes the key.
\<close>

definition refresh_index :: "user_id \<Rightarrow> session_id \<Rightarrow> int \<Rightarrow> int \<Rightarrow> redis \<Rightarrow> redis" where
  "refresh_index u m score now_ms db =
     (case (case get_idx db u of None \<Rightarrow> ([], None) | Some x \<Rightarrow> x) of
        (z, w) \<Rightarrow>
          (let z' = zadd m score z;
               extend = (case w of None \<Rightarrow> True | Some t \<Rightarrow> score - now_ms > t - rd_ms db)
           in if extend
              then db\<lparr>rd_idx := (rd_idx db)(u := if score \<le> rd_ms db then None else Some (z', Some score))\<rparr>
              else db\<lparr>rd_idx := (rd_idx db)(u \<mapsto> (z', w))\<rparr>))"

text \<open>The keys a record is written under; \<open>SET ... PX\<close> refuses a TTL that is not positive.\<close>

definition write_record ::
  "token_hash \<Rightarrow> session_record \<Rightarrow> int \<Rightarrow> int \<Rightarrow> int \<Rightarrow> redis \<Rightarrow> redis" where
  "write_record h r ttl_ms score now_ms db =
     refresh_index (sn_user_id r) (sn_session_id r) score now_ms
       (db\<lparr>rd_recs := (rd_recs db)(h \<mapsto> (Encoded r, rd_ms db + ttl_ms)),
           rd_locs := (rd_locs db)(sn_session_id r \<mapsto> (h, rd_ms db + ttl_ms))\<rparr>)"

section \<open>The Lua scripts\<close>

definition create_script ::
  "token_hash \<Rightarrow> session_record \<Rightarrow> int \<Rightarrow> int \<Rightarrow> int \<Rightarrow> redis \<Rightarrow> (session_error + int) \<times> redis" where
  "create_script h r ttl_ms score now_ms db =
     (if ttl_ms \<le> 0 then (Inl ErrSessInfra, db)
      else (Inr 1, write_record h r ttl_ms score now_ms db))"

definition delete_script :: "token_hash \<Rightarrow> redis \<Rightarrow> (session_error + int) \<times> redis" where
  "delete_script h db =
     (case get_rec db h of
        None \<Rightarrow> (Inr 0, db)
      | Some (Corrupt raw) \<Rightarrow> (Inl ErrSessInfra, db)
      | Some (Encoded r) \<Rightarrow>
          (Inr 1, zrem (sn_user_id r) (sn_session_id r)
             (db\<lparr>rd_recs := (rd_recs db)(h := None), rd_locs := (rd_locs db)(sn_session_id r := None)\<rparr>)))"

definition touch_script ::
  "token_hash \<Rightarrow> session_record \<Rightarrow> int \<Rightarrow> int \<Rightarrow> int \<Rightarrow> redis \<Rightarrow> (session_error + int) \<times> redis" where
  "touch_script h r ttl_ms score now_ms db =
     (if get_rec db h = None then (Inr 0, db)
      else if ttl_ms \<le> 0 then (Inl ErrSessInfra, db)
      else (Inr 1, write_record h r ttl_ms score now_ms db))"

definition rotate_script ::
  "token_hash \<Rightarrow> token_hash \<Rightarrow> session_record \<Rightarrow> int \<Rightarrow> int \<Rightarrow> int \<Rightarrow> redis \<Rightarrow> (session_error + int) \<times> redis" where
  "rotate_script old new r ttl_ms score now_ms db =
     (if get_rec db old = None then (Inr 0, db)
      else if ttl_ms \<le> 0 then (Inl ErrSessInfra, db)
      else let db1 = db\<lparr>rd_recs := (rd_recs db)(new \<mapsto> (Encoded r, rd_ms db + ttl_ms))\<rparr>;
               db2 = db1\<lparr>rd_recs := (rd_recs db1)(old := None)\<rparr>;
               db3 = db2\<lparr>rd_locs := (rd_locs db2)(sn_session_id r \<mapsto> (new, rd_ms db + ttl_ms))\<rparr>
           in (Inr 1, refresh_index (sn_user_id r) (sn_session_id r) score now_ms db3))"

section \<open>Commands, interleaved\<close>

text \<open>
  The schedule gives, for every command to come, what the other clients and the clock do before
  it and how the call itself fares.
\<close>

type_synonym rconn = "redis \<times> (fault \<times> (redis \<Rightarrow> redis)) list"

fun rcall :: "'e \<Rightarrow> (redis \<Rightarrow> ('e + 'a) \<times> redis) \<Rightarrow> rconn \<Rightarrow> ('e + 'a) \<times> rconn" where
  "rcall e f (db, []) = (fst (f db), (snd (f db), []))"
| "rcall e f (db, (NoFault, g) # es) = (fst (f (g db)), (snd (f (g db)), es))"
| "rcall e f (db, (FaultBefore, g) # es) = (Inl e, (g db, es))"
| "rcall e f (db, (FaultAfter, g) # es) = (Inl e, (snd (f (g db)), es))"

definition read_cmd :: "(redis \<Rightarrow> 'a) \<Rightarrow> redis \<Rightarrow> (session_error + 'a) \<times> redis" where
  "read_cmd f db = (Inr (f db), db)"

definition write_cmd :: "(redis \<Rightarrow> redis) \<Rightarrow> redis \<Rightarrow> (session_error + unit) \<times> redis" where
  "write_cmd f db = (Inr (), f db)"

section \<open>The methods\<close>

text \<open>\<open>tnow\<close> is the store's own reading of \<open>time.Now()\<close>.\<close>

definition store_create ::
  "token_hash \<Rightarrow> session_record \<Rightarrow> duration \<Rightarrow> duration \<Rightarrow> time \<Rightarrow> rconn \<Rightarrow> (session_error + unit) \<times> rconn" where
  "store_create h r ttl idle tnow c =
     (if h = [] then (Inl (ErrSessRefused ''token hash must not be empty''), c)
      else case require_stamped r of
        Some e \<Rightarrow> (Inl e, c)
      | None \<Rightarrow>
          (case rcall ErrSessInfra (create_script h r (dur_millis ttl)
                  (unix_milli (effective_expiry r idle)) (unix_milli tnow)) c of
             (Inl e, c') \<Rightarrow> (Inl e, c')
           | (Inr _, c') \<Rightarrow> (Inr (), c')))"

definition store_get :: "token_hash \<Rightarrow> rconn \<Rightarrow> (session_error + session_record) \<times> rconn" where
  "store_get h c =
     (if h = [] then (Inl (ErrSessRefused ''token hash must not be empty''), c)
      else case rcall ErrSessInfra (read_cmd (\<lambda>db. get_rec db h)) c of
        (Inl e, c') \<Rightarrow> (Inl e, c')
      | (Inr None, c') \<Rightarrow> (Inl ErrSessionNotFound, c')
      | (Inr (Some (Corrupt raw)), c') \<Rightarrow> (Inl ErrSessDecode, c')
      | (Inr (Some (Encoded r)), c') \<Rightarrow> (Inr (normalize_stamp r), c'))"

definition delete_by_token_hash :: "token_hash \<Rightarrow> rconn \<Rightarrow> (session_error + unit) \<times> rconn" where
  "delete_by_token_hash h c =
     (case rcall ErrSessInfra (delete_script h) c of
        (Inl e, c') \<Rightarrow> (Inl e, c')
      | (Inr _, c') \<Rightarrow> (Inr (), c'))"

definition store_delete :: "token_hash \<Rightarrow> rconn \<Rightarrow> (session_error + unit) \<times> rconn" where
  "store_delete h c =
     (if h = [] then (Inl (ErrSessRefused ''token hash must not be empty''), c)
      else delete_by_token_hash h c)"

definition store_touch ::
  "token_hash \<Rightarrow> session_record \<Rightarrow> duration \<Rightarrow> duration \<Rightarrow> time \<Rightarrow> rconn \<Rightarrow> (session_error + unit) \<times> rconn" where
  "store_touch h r ttl idle tnow c =
     (if h = [] then (Inl (ErrSessRefused ''token hash must not be empty''), c)
      else case require_stamped r of
        Some e \<Rightarrow> (Inl e, c)
      | None \<Rightarrow>
          (case rcall ErrSessInfra (touch_script h r (dur_millis ttl)
                  (unix_milli (effective_expiry r idle)) (unix_milli tnow)) c of
             (Inl e, c') \<Rightarrow> (Inl e, c')
           | (Inr n, c') \<Rightarrow> (if n = 0 then Inl ErrSessionNotFound else Inr (), c')))"

definition store_rotate ::
  "token_hash \<Rightarrow> token_hash \<Rightarrow> session_record \<Rightarrow> duration \<Rightarrow> duration \<Rightarrow> time \<Rightarrow> rconn
     \<Rightarrow> (session_error + unit) \<times> rconn" where
  "store_rotate old new r ttl idle tnow c =
     (if old = [] then (Inl (ErrSessRefused ''old token hash must not be empty''), c)
      else if new = [] then (Inl (ErrSessRefused ''new token hash must not be empty''), c)
      else case require_stamped r of
        Some e \<Rightarrow> (Inl e, c)
      | None \<Rightarrow>
          (case rcall ErrSessInfra (rotate_script old new r (dur_millis ttl)
                  (unix_milli (effective_expiry r idle)) (unix_milli tnow)) c of
             (Inl e, c') \<Rightarrow> (Inl e, c')
           | (Inr n, c') \<Rightarrow> (if n = 0 then Inl ErrSessionNotFound else Inr (), c')))"

text \<open>A call whose error is discarded (\<open>_ = ...\<close>).\<close>

definition best_effort :: "(rconn \<Rightarrow> (session_error + unit) \<times> rconn) \<Rightarrow> rconn \<Rightarrow> rconn" where
  "best_effort f c = snd (f c)"

definition zrem_cmd :: "user_id \<Rightarrow> session_id \<Rightarrow> rconn \<Rightarrow> (session_error + unit) \<times> rconn" where
  "zrem_cmd u m = rcall ErrSessInfra (write_cmd (zrem u m))"

definition del_locator_cmd :: "session_id \<Rightarrow> rconn \<Rightarrow> (session_error + unit) \<times> rconn" where
  "del_locator_cmd sid = rcall ErrSessInfra (write_cmd (\<lambda>db. db\<lparr>rd_locs := (rd_locs db)(sid := None)\<rparr>))"

definition heal_locator :: "user_id \<Rightarrow> session_id \<Rightarrow> rconn \<Rightarrow> rconn" where
  "heal_locator u sid c = best_effort (zrem_cmd u sid) (best_effort (del_locator_cmd sid) c)"

definition resolve ::
  "user_id \<Rightarrow> session_id \<Rightarrow> rconn \<Rightarrow> (session_error + token_hash \<times> session_record) \<times> rconn" where
  "resolve u sid c =
     (if sid = [] then (Inl ErrSessionNotFound, c)
      else case rcall ErrSessInfra (read_cmd (\<lambda>db. get_loc db sid)) c of
        (Inl e, c1) \<Rightarrow> (Inl e, c1)
      | (Inr None, c1) \<Rightarrow> (Inl ErrSessionNotFound, c1)
      | (Inr (Some h), c1) \<Rightarrow>
          (case store_get h c1 of
             (Inl e, c2) \<Rightarrow>
               if e = ErrSessionNotFound then (Inl ErrSessionNotFound, heal_locator u sid c2)
               else (Inl e, c2)
           | (Inr r, c2) \<Rightarrow>
               if sn_user_id r \<noteq> u \<or> sn_session_id r \<noteq> sid then (Inl ErrSessionNotFound, c2)
               else (Inr (h, r), c2)))"

definition store_get_by_session_id ::
  "user_id \<Rightarrow> session_id \<Rightarrow> time \<Rightarrow> duration \<Rightarrow> rconn \<Rightarrow> (session_error + session_record) \<times> rconn" where
  "store_get_by_session_id u sid now idle c =
     (case resolve u sid c of
        (Inl e, c1) \<Rightarrow> (Inl e, c1)
      | (Inr (h, r), c1) \<Rightarrow>
          if is_expired r now idle then (Inl ErrSessionNotFound, best_effort (delete_by_token_hash h) c1)
          else (Inr r, c1))"

definition store_delete_by_session_id ::
  "user_id \<Rightarrow> session_id \<Rightarrow> time \<Rightarrow> duration \<Rightarrow> rconn \<Rightarrow> (session_error + unit) \<times> rconn" where
  "store_delete_by_session_id u sid now idle c =
     (case resolve u sid c of
        (Inl e, c1) \<Rightarrow> (Inl e, c1)
      | (Inr (h, r), c1) \<Rightarrow>
          if is_expired r now idle then (Inl ErrSessionNotFound, best_effort (delete_by_token_hash h) c1)
          else delete_by_token_hash h c1)"

definition decode_payload :: "payload option \<Rightarrow> session_record option" where
  "decode_payload v = (case v of Some (Encoded r) \<Rightarrow> Some (normalize_stamp r) | _ \<Rightarrow> None)"

definition index_members :: "user_id \<Rightarrow> redis \<Rightarrow> session_id list" where
  "index_members u db = (case get_idx db u of None \<Rightarrow> [] | Some (z, w) \<Rightarrow> map fst z)"

definition prune_index :: "user_id \<Rightarrow> int \<Rightarrow> redis \<Rightarrow> redis" where
  "prune_index u bound db = (case rd_idx db u of
     None \<Rightarrow> db
   | Some (z, w) \<Rightarrow>
       (let z' = filter (\<lambda>x. \<not> snd x \<le> bound) z
        in db\<lparr>rd_idx := (rd_idx db)(u := if z' = [] then None else Some (z', w))\<rparr>))"

fun list_loop ::
  "user_id \<Rightarrow> time \<Rightarrow> duration \<Rightarrow> (session_id \<times> token_hash option \<times> payload option) list
     \<Rightarrow> session_record list \<Rightarrow> rconn \<Rightarrow> session_record list \<times> rconn" where
  "list_loop u now idle [] acc c = (acc, c)"
| "list_loop u now idle ((m, h, p) # rest) acc c =
     (case decode_payload p of
        None \<Rightarrow> list_loop u now idle rest acc (best_effort (zrem_cmd u m) c)
      | Some r \<Rightarrow>
          if sn_user_id r \<noteq> u then list_loop u now idle rest acc (best_effort (zrem_cmd u m) c)
          else if is_expired r now idle
          then (let c1 = best_effort (zrem_cmd u m) c;
                    c2 = (case h of
                            Some h' \<Rightarrow> if h' \<noteq> [] then best_effort (delete_by_token_hash h') c1 else c1
                          | None \<Rightarrow> c1)
                in list_loop u now idle rest acc c2)
          else list_loop u now idle rest (acc @ [r]) c)"

definition store_list_user_sessions ::
  "user_id \<Rightarrow> time \<Rightarrow> duration \<Rightarrow> rconn \<Rightarrow> (session_error + session_record list) \<times> rconn" where
  "store_list_user_sessions u now idle c =
     (case rcall ErrSessInfra (write_cmd (prune_index u (unix_milli now))) c of
        (Inl e, c1) \<Rightarrow> (Inl e, c1)
      | (Inr _, c1) \<Rightarrow>
     (case rcall ErrSessInfra (read_cmd (index_members u)) c1 of
        (Inl e, c2) \<Rightarrow> (Inl e, c2)
      | (Inr members, c2) \<Rightarrow>
          if members = [] then (Inr [], c2)
          else
     (case rcall ErrSessInfra (read_cmd (\<lambda>db. map (get_loc db) members)) c2 of
        (Inl e, c3) \<Rightarrow> (Inl e, c3)
      | (Inr hashes, c3) \<Rightarrow>
     (case rcall ErrSessInfra (read_cmd (\<lambda>db. map (\<lambda>v. case v of
             Some h \<Rightarrow> if h \<noteq> [] then get_rec db h else None | None \<Rightarrow> None) hashes)) c3 of
        (Inl e, c4) \<Rightarrow> (Inl e, c4)
      | (Inr payloads, c4) \<Rightarrow>
          (case list_loop u now idle (zip members (zip hashes payloads)) [] c4 of
             (rs, c5) \<Rightarrow> (Inr (sort_key (\<lambda>r. (sn_created_at r, sn_session_id r)) rs), c5))))))"

text \<open>
  The body shared by the two bulk revocations: \<open>spare_id\<close> is the test made on the member before it
  is resolved, \<open>spare_rec\<close> the one made on the record after the expiry replay.
\<close>

fun revoke_loop ::
  "(session_id \<Rightarrow> bool) \<Rightarrow> (session_record \<Rightarrow> bool) \<Rightarrow> user_id \<Rightarrow> time \<Rightarrow> duration \<Rightarrow> session_id list
     \<Rightarrow> session_record list \<Rightarrow> rconn \<Rightarrow> (session_record list \<times> session_error option) \<times> rconn" where
  "revoke_loop spare_id spare_rec u now idle [] victims c = ((victims, None), c)"
| "revoke_loop spare_id spare_rec u now idle (m # ms) victims c =
     (if spare_id m then revoke_loop spare_id spare_rec u now idle ms victims c
      else case resolve u m c of
        (Inl e, c1) \<Rightarrow>
          if e = ErrSessionNotFound
          then revoke_loop spare_id spare_rec u now idle ms victims (best_effort (zrem_cmd u m) c1)
          else ((victims, Some e), c1)
      | (Inr (h, r), c1) \<Rightarrow>
          if is_expired r now idle
          then revoke_loop spare_id spare_rec u now idle ms victims (best_effort (delete_by_token_hash h) c1)
          else if spare_rec r then revoke_loop spare_id spare_rec u now idle ms victims c1
          else (case delete_by_token_hash h c1 of
                  (Inl e, c2) \<Rightarrow> ((victims, Some e), c2)
                | (Inr _, c2) \<Rightarrow> revoke_loop spare_id spare_rec u now idle ms (victims @ [r]) c2))"

definition store_revoke_all_other_sessions ::
  "user_id \<Rightarrow> session_id \<Rightarrow> time \<Rightarrow> duration \<Rightarrow> rconn
     \<Rightarrow> (session_record list \<times> session_error option) \<times> rconn" where
  "store_revoke_all_other_sessions u current now idle c =
     (case rcall ErrSessInfra (read_cmd (index_members u)) c of
        (Inl e, c1) \<Rightarrow> (([], Some e), c1)
      | (Inr members, c1) \<Rightarrow> revoke_loop (\<lambda>m. m = current) (\<lambda>r. False) u now idle members [] c1)"

definition store_revoke_sessions_before_epoch ::
  "user_id \<Rightarrow> epoch \<Rightarrow> time \<Rightarrow> duration \<Rightarrow> rconn
     \<Rightarrow> (session_record list \<times> session_error option) \<times> rconn" where
  "store_revoke_sessions_before_epoch u new_epoch now idle c =
     (case rcall ErrSessInfra (read_cmd (index_members u)) c of
        (Inl e, c1) \<Rightarrow> (([], Some e), c1)
      | (Inr members, c1) \<Rightarrow>
          revoke_loop (\<lambda>m. False) (\<lambda>r. sn_security_epoch r \<ge> new_epoch) u now idle members [] c1)"

end
