(* ===== verification/SessionInventory.thy ===== *)
theory SessionInventory
  imports SessionStore
begin

text \<open>
  The inventory invariant of ADR-0006: every live record is reached by its locator, and by its
  user's index for as long as it has not passed its effective expiry.  The scripts preserve it;
  the self-healing deletes locators and index entries in commands of their own, so the invariant
  carries the set of the sessions they have hit.  On it rest the completeness of the two bulk
  revocations under every schedule of faults and every quiet interleaving, and the exact
  interleaving that defeats the self-healing.
\<close>

section \<open>The invariant\<close>

definition eff_ms :: "duration \<Rightarrow> session_record \<Rightarrow> int" where
  "eff_ms idle r = unix_milli (effective_expiry r idle)"

definition live_rec :: "redis \<Rightarrow> token_hash \<Rightarrow> session_record \<Rightarrow> bool" where
  "live_rec db h r \<longleftrightarrow> get_rec db h = Some (Encoded r)"

definition lapsed :: "duration \<Rightarrow> redis \<Rightarrow> session_record \<Rightarrow> bool" where
  "lapsed idle db r \<longleftrightarrow> eff_ms idle r \<le> rd_ms db"

definition indexed :: "duration \<Rightarrow> redis \<Rightarrow> session_record \<Rightarrow> bool" where
  "indexed idle db r \<longleftrightarrow>
     (\<exists>z w. rd_idx db (sn_user_id r) = Some (z, Some w) \<and> (sn_session_id r, eff_ms idle r) \<in> set z
        \<and> eff_ms idle r \<le> w)"

definition located :: "redis \<Rightarrow> token_hash \<Rightarrow> session_record \<Rightarrow> int \<Rightarrow> bool" where
  "located db h r t \<longleftrightarrow> (\<exists>t'. rd_locs db (sn_session_id r) = Some (h, t') \<and> t \<le> t')"

text \<open>The sessions of \<open>L\<close> are those the invariant says nothing about.\<close>

definition inventory :: "session_id set \<Rightarrow> duration \<Rightarrow> redis \<Rightarrow> bool" where
  "inventory L idle db \<longleftrightarrow>
     (\<forall>h r t. rd_recs db h = Some (Encoded r, t) \<longrightarrow> rd_ms db \<le> t \<longrightarrow> sn_session_id r \<notin> L \<longrightarrow>
        h \<noteq> [] \<and> sn_session_id r \<noteq> [] \<and> located db h r t \<and> (lapsed idle db r \<or> indexed idle db r))"

lemma live_rec_iff: "live_rec db h r \<longleftrightarrow> (\<exists>t. rd_recs db h = Some (Encoded r, t) \<and> rd_ms db \<le> t)"
  by (auto simp: live_rec_def get_rec_def split: option.splits if_splits)

lemma inventory_located: "inventory L idle db \<Longrightarrow> live_rec db h r \<Longrightarrow> sn_session_id r \<notin> L \<Longrightarrow>
   get_loc db (sn_session_id r) = Some h"
  by (fastforce simp: inventory_def live_rec_iff located_def get_loc_def)

lemma inventory_nonempty: "inventory L idle db \<Longrightarrow> live_rec db h r \<Longrightarrow> sn_session_id r \<notin> L \<Longrightarrow>
   h \<noteq> [] \<and> sn_session_id r \<noteq> []"
  by (auto simp: inventory_def live_rec_iff)

lemma inventory_indexed:
  assumes "inventory L idle db" and "live_rec db h r" and "sn_session_id r \<notin> L" and "\<not> lapsed idle db r"
  shows "sn_session_id r \<in> set (index_members (sn_user_id r) db)"
proof -
  have "indexed idle db r" using assms by (auto simp: inventory_def live_rec_iff)
  then obtain z w where i: "rd_idx db (sn_user_id r) = Some (z, Some w)"
    "(sn_session_id r, eff_ms idle r) \<in> set z" "eff_ms idle r \<le> w"
    by (auto simp: indexed_def)
  with assms(4) have "get_idx db (sn_user_id r) = Some (z, Some w)"
    by (auto simp: lapsed_def get_idx_def)
  with i(2) show ?thesis by (force simp: index_members_def)
qed

lemma inventory_mono: "inventory L idle db \<Longrightarrow> L \<subseteq> M \<Longrightarrow> inventory M idle db"
  unfolding inventory_def by blast

lemma inventory_unique:
  "inventory L idle db \<Longrightarrow> live_rec db h r \<Longrightarrow> live_rec db h' r' \<Longrightarrow> sn_session_id r = sn_session_id r' \<Longrightarrow>
   sn_session_id r \<notin> L \<Longrightarrow> h = h' \<and> r = r'"
  using inventory_located [of L idle db h r] inventory_located [of L idle db h' r']
  by (auto simp: live_rec_def)

section \<open>The scripts preserve it\<close>

lemma eff_ms_normalize [simp]: "eff_ms idle (normalize_stamp r) = eff_ms idle r"
  by (simp add: eff_ms_def)

lemma refresh_index_frame [simp]:
  "rd_recs (refresh_index u m s n db) = rd_recs db"
  "rd_locs (refresh_index u m s n db) = rd_locs db"
  "rd_now (refresh_index u m s n db) = rd_now db"
  "rd_ms (refresh_index u m s n db) = rd_ms db"
  by (auto simp: refresh_index_def Let_def rd_ms_def split: prod.splits option.splits)

lemma zrem_frame [simp]:
  "rd_recs (zrem u m db) = rd_recs db" "rd_locs (zrem u m db) = rd_locs db"
  "rd_now (zrem u m db) = rd_now db" "rd_ms (zrem u m db) = rd_ms db"
  by (auto simp: zrem_def Let_def rd_ms_def split: option.splits)

lemma prune_frame [simp]:
  "rd_recs (prune_index u k db) = rd_recs db" "rd_locs (prune_index u k db) = rd_locs db"
  "rd_now (prune_index u k db) = rd_now db" "rd_ms (prune_index u k db) = rd_ms db"
  by (auto simp: prune_index_def Let_def rd_ms_def split: option.splits)

lemma rd_ms_upd [simp]:
  "rd_ms (db\<lparr>rd_recs := a\<rparr>) = rd_ms db" "rd_ms (db\<lparr>rd_locs := b\<rparr>) = rd_ms db"
  "rd_ms (db\<lparr>rd_idx := d\<rparr>) = rd_ms db"
  by (simp_all add: rd_ms_def)

lemma indexed_upd [simp]:
  "indexed idle (db\<lparr>rd_recs := a\<rparr>) r = indexed idle db r"
  "indexed idle (db\<lparr>rd_locs := b\<rparr>) r = indexed idle db r"
  "indexed idle (db\<lparr>rd_now := t\<rparr>) r = indexed idle db r"
  by (simp_all add: indexed_def)

lemma lapsed_ms: "rd_ms db' = rd_ms db \<Longrightarrow> lapsed idle db' r = lapsed idle db r"
  by (simp add: lapsed_def)

lemma set_zadd [simp]: "set (zadd m s z) = insert (m, s) {x \<in> set z. fst x \<noteq> m}"
  by (simp add: zadd_def set_insort_key)

lemma refresh_indexed_other:
  assumes "lapsed idle db r \<or> indexed idle db r" and "sn_user_id r \<noteq> u \<or> sn_session_id r \<noteq> m"
  shows "lapsed idle db r \<or> indexed idle (refresh_index u m s (rd_ms db) db) r"
proof (cases "lapsed idle db r \<or> sn_user_id r \<noteq> u")
  case True
  with assms(1) show ?thesis
    by (auto simp: indexed_def refresh_index_def Let_def split: prod.splits option.splits)
next
  case False
  with assms obtain z w where i: "rd_idx db u = Some (z, Some w)" "(sn_session_id r, eff_ms idle r) \<in> set z"
    "eff_ms idle r \<le> w" "rd_ms db < eff_ms idle r" "sn_user_id r = u" "sn_session_id r \<noteq> m"
    by (auto simp: indexed_def lapsed_def)
  then have "get_idx db u = Some (z, Some w)" by (simp add: get_idx_def)
  with i show ?thesis by (auto simp: refresh_index_def Let_def indexed_def)
qed

lemma refresh_indexed_self:
  "eff_ms idle r \<le> rd_ms db
   \<or> indexed idle (refresh_index (sn_user_id r) (sn_session_id r) (eff_ms idle r) (rd_ms db) db) r"
  by (auto simp: refresh_index_def Let_def indexed_def split: prod.splits option.splits)

text \<open>
  The shape shared by create, touch and rotate: the record \<open>r\<close> is now at \<open>h\<close>, and what is
  left of the old records has other session ids.
\<close>

lemma inventory_write:
  assumes inv: "inventory L idle db" and L: "L \<subseteq> insert (sn_session_id r) M"
    and h: "sn_session_id r \<notin> M \<Longrightarrow> h \<noteq> []" "sn_session_id r \<notin> M \<Longrightarrow> sn_session_id r \<noteq> []"
    and R: "\<And>h' r' t. R h' = Some (Encoded r', t) \<Longrightarrow> rd_ms db \<le> t \<Longrightarrow> sn_session_id r' \<notin> M \<Longrightarrow>
        (h' = h \<and> r' = r \<and> t = T) \<or> (rd_recs db h' = Some (Encoded r', t) \<and> sn_session_id r' \<noteq> sn_session_id r)"
  shows "inventory M idle (refresh_index (sn_user_id r) (sn_session_id r) (eff_ms idle r) (rd_ms db)
     (db\<lparr>rd_recs := R, rd_locs := (rd_locs db)(sn_session_id r \<mapsto> (h, T))\<rparr>))"
    (is "inventory _ idle (refresh_index ?u ?m ?s ?n ?db)")
proof -
  have ms: "rd_ms ?db = rd_ms db" by simp
  {
    fix h' r' t
    assume r': "R h' = Some (Encoded r', t)" "rd_ms db \<le> t" "sn_session_id r' \<notin> M"
    from R [OF this] have "h' \<noteq> [] \<and> sn_session_id r' \<noteq> [] \<and> located ?db h' r' t
      \<and> (lapsed idle db r' \<or> indexed idle (refresh_index ?u ?m ?s ?n ?db) r')"
    proof
      assume "h' = h \<and> r' = r \<and> t = T"
      with h r'(3) refresh_indexed_self [of idle r ?db] show ?thesis
        by (simp add: located_def lapsed_def)
    next
      assume o: "rd_recs db h' = Some (Encoded r', t) \<and> sn_session_id r' \<noteq> sn_session_id r"
      with inv L r'(2,3) have l: "h' \<noteq> []" "sn_session_id r' \<noteq> []" "located db h' r' t"
        "lapsed idle db r' \<or> indexed idle db r'" by (auto simp: inventory_def)
      from l(4) o refresh_indexed_other [of idle ?db r' ?u ?m ?s]
      have "lapsed idle db r' \<or> indexed idle (refresh_index ?u ?m ?s ?n ?db) r'"
        by (simp add: lapsed_def)
      with l o show ?thesis by (simp add: located_def)
    qed
  }
  then show ?thesis by (simp add: inventory_def located_def lapsed_def)
qed

lemma zrem_indexed:
  "indexed idle db r \<Longrightarrow> sn_user_id r \<noteq> u \<or> sn_session_id r \<noteq> m \<Longrightarrow> indexed idle (zrem u m db) r"
  by (auto simp: indexed_def zrem_def Let_def filter_empty_conv split: option.splits) fastforce

lemma inventory_zrem:
  assumes "inventory L idle db"
    and "\<And>h r. live_rec db h r \<Longrightarrow> sn_session_id r \<notin> L \<Longrightarrow> sn_session_id r = m \<Longrightarrow> sn_user_id r = u \<Longrightarrow> lapsed idle db r"
  shows "inventory L idle (zrem u m db)"
  using assms zrem_indexed [of idle db _ u m]
  by (fastforce simp: inventory_def live_rec_iff located_def lapsed_def)

lemma inventory_del_locator:
  assumes "inventory L idle db" and "\<And>h r. live_rec db h r \<Longrightarrow> sn_session_id r \<notin> L \<Longrightarrow> sn_session_id r \<noteq> m"
  shows "inventory L idle (db\<lparr>rd_locs := (rd_locs db)(m := None)\<rparr>)"
  using assms by (fastforce simp: inventory_def live_rec_iff located_def lapsed_def indexed_def)

lemma prune_indexed:
  "indexed idle db r \<Longrightarrow> k < eff_ms idle r \<Longrightarrow> indexed idle (prune_index u k db) r"
  by (auto simp: indexed_def prune_index_def Let_def filter_empty_conv split: option.splits) fastforce

lemma inventory_prune:
  assumes "inventory L idle db" and "k \<le> rd_ms db"
  shows "inventory L idle (prune_index u k db)"
proof -
  have "lapsed idle db r \<or> indexed idle db r \<Longrightarrow> lapsed idle db r \<or> indexed idle (prune_index u k db) r" for r
    using prune_indexed [of idle db r k u] assms(2) by (cases "k < eff_ms idle r") (auto simp: lapsed_def)
  with assms(1) show ?thesis by (simp add: inventory_def located_def lapsed_def)
qed

lemma inventory_delete:
  assumes "inventory L idle db"
  shows "inventory L idle (snd (delete_script h db))"
proof (cases "get_rec db h")
  case None
  with assms show ?thesis by (simp add: delete_script_def)
next
  case (Some p)
  show ?thesis
  proof (cases p)
    case (Corrupt raw)
    with Some assms show ?thesis by (simp add: delete_script_def)
  next
    case (Encoded r)
    let ?db = "db\<lparr>rd_recs := (rd_recs db)(h := None), rd_locs := (rd_locs db)(sn_session_id r := None)\<rparr>"
    have l: "live_rec db h r" using Some Encoded by (simp add: live_rec_def)
    have o: "sn_session_id r' \<noteq> sn_session_id r" if "live_rec db h' r'" "h' \<noteq> h" "sn_session_id r' \<notin> L" for h' r'
      using inventory_unique [OF assms l] that by metis
    have "inventory L idle ?db"
      using assms o by (fastforce simp: inventory_def live_rec_iff located_def lapsed_def)
    moreover have "sn_session_id r' \<noteq> sn_session_id r" if "live_rec ?db h' r'" "sn_session_id r' \<notin> L" for h' r'
      using that o [of h' r'] by (auto simp: live_rec_iff split: if_splits)
    ultimately have "inventory L idle (zrem (sn_user_id r) (sn_session_id r) ?db)"
      by (blast intro: inventory_zrem)
    with Some Encoded show ?thesis by (simp add: delete_script_def)
  qed
qed

lemma inventory_time:
  assumes "inventory L idle db" and "rd_now db \<le> t"
  shows "inventory L idle (db\<lparr>rd_now := t\<rparr>)"
proof -
  have "rd_ms db \<le> rd_ms (db\<lparr>rd_now := t\<rparr>)" using assms(2) by (simp add: rd_ms_def unix_milli_mono)
  with assms(1) show ?thesis
    by (auto simp: inventory_def located_def lapsed_def indexed_def) (meson order_trans)+
qed

section \<open>Quiet interleavings\<close>

text \<open>
  What the other clients may do during a bulk revocation: time passes, sessions end, and a
  record may be refreshed in place; but no session is created or moved to another token, no
  stamp changes and no session comes back from beyond its effective expiry.
\<close>

definition stamp :: "session_record \<Rightarrow> epoch" where
  "stamp r = sn_security_epoch (normalize_stamp r)"

definition calm :: "session_id set \<Rightarrow> duration \<Rightarrow> redis \<Rightarrow> redis \<Rightarrow> bool" where
  "calm L idle db db' \<longleftrightarrow>
     inventory L idle db' \<and> rd_now db \<le> rd_now db' \<and>
     (\<forall>h r'. live_rec db' h r' \<longrightarrow>
        (\<exists>r. live_rec db h r \<and> sn_session_id r = sn_session_id r' \<and> sn_user_id r = sn_user_id r'
           \<and> stamp r = stamp r' \<and> (\<not> lapsed idle db' r' \<longrightarrow> \<not> lapsed idle db r)))"

definition calm_env :: "session_id set \<Rightarrow> duration \<Rightarrow> (fault \<times> (redis \<Rightarrow> redis)) list \<Rightarrow> bool" where
  "calm_env L idle es \<longleftrightarrow> (\<forall>k g db. (k, g) \<in> set es \<longrightarrow> inventory L idle db \<longrightarrow> calm L idle db (g db))"

lemma calm_refl: "inventory L idle db \<Longrightarrow> calm L idle db db"
  by (auto simp: calm_def)

lemma calm_trans: "calm L idle a b \<Longrightarrow> calm L idle b c \<Longrightarrow> calm L idle a c"
  unfolding calm_def by (meson order_trans) metis

lemma calm_inventory: "calm L idle a b \<Longrightarrow> inventory L idle b"
  by (simp add: calm_def)

lemma calm_shrink:
  "calm L idle db db' \<Longrightarrow> inventory L idle db'' \<Longrightarrow> rd_now db'' = rd_now db' \<Longrightarrow>
   (\<And>h r. live_rec db'' h r \<Longrightarrow> live_rec db' h r) \<Longrightarrow> calm L idle db db''"
  by (fastforce simp: calm_def lapsed_def rd_ms_def)

lemma calm_passing_time: "inventory L idle db \<Longrightarrow> rd_now db \<le> t \<Longrightarrow> calm L idle db (db\<lparr>rd_now := t\<rparr>)"
  using unix_milli_mono [of "rd_now db" t]
  by (fastforce simp: calm_def inventory_time live_rec_iff lapsed_def rd_ms_def)

lemma calm_delete: "inventory L idle db \<Longrightarrow> calm L idle db (snd (delete_script h db))"
  by (rule calm_shrink [OF calm_refl inventory_delete])
     (auto simp: delete_script_def live_rec_iff split: option.splits payload.splits if_splits)

text \<open>One command under a calm schedule.\<close>

lemma rcall_calm:
  assumes "rcall e f c = (res, c')" and "inventory L idle (fst c)" and "calm_env L idle (snd c)"
    and "\<And>db. calm L idle (fst c) db \<Longrightarrow> calm L idle db (snd (f db))"
  shows "calm L idle (fst c) (fst c') \<and> calm_env L idle (snd c')
    \<and> (\<forall>x. res = Inr x \<longrightarrow> (\<exists>db. calm L idle (fst c) db \<and> f db = (Inr x, fst c')))"
proof (cases "(e, f, c)" rule: rcall.cases)
  case (1 e f db)
  with assms calm_refl [of L idle db] show ?thesis by (auto intro!: exI [of _ db] prod_eqI)
next
  case (2 e f db g es)
  with assms have g: "calm L idle db (g db)" by (auto simp: calm_env_def)
  with 2 assms(4) [of "g db"] have "calm L idle db (snd (f (g db)))" by (auto intro: calm_trans)
  moreover have "calm_env L idle es" using 2 assms(3) by (auto simp: calm_env_def)
  ultimately show ?thesis using 2 assms(1) g by (auto intro!: exI [of _ "g db"] prod_eqI)
next
  case (3 e f db g es)
  with assms show ?thesis by (auto simp: calm_env_def)
next
  case (4 e f db g es)
  with assms have g: "calm L idle db (g db)" by (auto simp: calm_env_def)
  with 4 assms(4) [of "g db"] have "calm L idle db (snd (f (g db)))" by (auto intro: calm_trans)
  moreover have "calm_env L idle es" using 4 assms(3) by (auto simp: calm_env_def)
  ultimately show ?thesis using 4 assms(1) by auto
qed

lemma read_calm:
  assumes "rcall e (read_cmd q) c = (res, c')" and "inventory L idle (fst c)" and "calm_env L idle (snd c)"
  shows "calm L idle (fst c) (fst c')" and "calm_env L idle (snd c')" and "\<And>x. res = Inr x \<Longrightarrow> x = q (fst c')"
proof -
  have "calm L idle (fst c) db \<Longrightarrow> calm L idle db (snd (read_cmd q db))" for db
    by (simp add: read_cmd_def calm_refl calm_inventory)
  from rcall_calm [OF assms this] show "calm L idle (fst c) (fst c')" "calm_env L idle (snd c')"
    "\<And>x. res = Inr x \<Longrightarrow> x = q (fst c')"
    by (auto simp: read_cmd_def)
qed

lemma store_get_calm:
  assumes "store_get h c = (res, c')" and "inventory L idle (fst c)" and "calm_env L idle (snd c)"
  shows "calm L idle (fst c) (fst c')" and "calm_env L idle (snd c')"
    and "res = Inl ErrSessionNotFound \<Longrightarrow> get_rec (fst c') h = None"
    and "res = Inr r \<Longrightarrow> \<exists>r0. live_rec (fst c') h r0 \<and> r = normalize_stamp r0"
proof -
  have "calm L idle (fst c) (fst c') \<and> calm_env L idle (snd c')
    \<and> (res = Inl ErrSessionNotFound \<longrightarrow> get_rec (fst c') h = None)
    \<and> (\<forall>r. res = Inr r \<longrightarrow> (\<exists>r0. live_rec (fst c') h r0 \<and> r = normalize_stamp r0))"
  proof (cases "h = []")
    case True
    with assms show ?thesis by (auto simp: store_get_def calm_refl)
  next
    case False
    obtain q c1 where q: "rcall ErrSessInfra (read_cmd (\<lambda>db. get_rec db h)) c = (q, c1)"
      by (cases "rcall ErrSessInfra (read_cmd (\<lambda>db. get_rec db h)) c") blast
    from read_calm [OF q assms(2,3)] have "calm L idle (fst c) (fst c1)" "calm_env L idle (snd c1)"
      "\<And>x. q = Inr x \<Longrightarrow> x = get_rec (fst c1) h" "q \<noteq> Inl ErrSessionNotFound \<or> True" by auto
    moreover have "q = Inl x \<Longrightarrow> x = ErrSessInfra" for x
      using q by (cases "(ErrSessInfra, read_cmd (\<lambda>db. get_rec db h), c)" rule: rcall.cases)
        (auto simp: read_cmd_def)
    ultimately show ?thesis
      using assms(1) q False
      by (auto simp: store_get_def live_rec_def split: sum.splits option.splits payload.splits)
  qed
  then show "calm L idle (fst c) (fst c')" "calm_env L idle (snd c')"
    "res = Inl ErrSessionNotFound \<Longrightarrow> get_rec (fst c') h = None"
    "res = Inr r \<Longrightarrow> \<exists>r0. live_rec (fst c') h r0 \<and> r = normalize_stamp r0" by auto
qed

text \<open>Writes of the walk: they take nothing live out of the inventory.\<close>

lemma no_session_calm:
  assumes "calm L idle db db'" and "\<And>h r. live_rec db h r \<Longrightarrow> sn_session_id r \<notin> L \<Longrightarrow> sn_session_id r = m \<Longrightarrow> sn_user_id r = u \<Longrightarrow> lapsed idle db r"
    and "live_rec db' h r" and "sn_session_id r \<notin> L" and "sn_session_id r = m" and "sn_user_id r = u"
  shows "lapsed idle db' r"
  using assms unfolding calm_def by metis

lemma zrem_calm:
  assumes "inventory L idle (fst c)" and "calm_env L idle (snd c)"
    and "\<And>h r. live_rec (fst c) h r \<Longrightarrow> sn_session_id r \<notin> L \<Longrightarrow> sn_session_id r = m \<Longrightarrow> sn_user_id r = u \<Longrightarrow> lapsed idle (fst c) r"
  shows "calm L idle (fst c) (fst (best_effort (zrem_cmd u m) c)) \<and> calm_env L idle (snd (best_effort (zrem_cmd u m) c))"
proof -
  obtain res c' where r: "rcall ErrSessInfra (write_cmd (zrem u m)) c = (res, c')"
    by (cases "rcall ErrSessInfra (write_cmd (zrem u m)) c") blast
  have "calm L idle db (snd (write_cmd (zrem u m) db))" if "calm L idle (fst c) db" for db
  proof -
    have i: "inventory L idle db" using that by (rule calm_inventory)
    have "inventory L idle (zrem u m db)"
      by (rule inventory_zrem [OF i]) (rule no_session_calm [OF that assms(3)])
    then have "calm L idle db (zrem u m db)"
      by (rule calm_shrink [OF calm_refl [OF i]]) (auto simp: live_rec_iff)
    then show ?thesis by (simp add: write_cmd_def)
  qed
  from rcall_calm [OF r assms(1,2) this] r show ?thesis by (auto simp: best_effort_def zrem_cmd_def)
qed

lemma del_locator_calm:
  assumes "inventory L idle (fst c)" and "calm_env L idle (snd c)"
    and "\<And>h r. live_rec (fst c) h r \<Longrightarrow> sn_session_id r \<notin> L \<Longrightarrow> sn_session_id r \<noteq> m"
  shows "calm L idle (fst c) (fst (best_effort (del_locator_cmd m) c)) \<and> calm_env L idle (snd (best_effort (del_locator_cmd m) c))"
proof -
  let ?f = "\<lambda>db. db\<lparr>rd_locs := (rd_locs db)(m := None)\<rparr>"
  obtain res c' where r: "rcall ErrSessInfra (write_cmd ?f) c = (res, c')"
    by (cases "rcall ErrSessInfra (write_cmd ?f) c") blast
  have "calm L idle db (snd (write_cmd ?f db))" if "calm L idle (fst c) db" for db
  proof -
    have i: "inventory L idle db" using that by (rule calm_inventory)
    have "\<And>h r. live_rec db h r \<Longrightarrow> sn_session_id r \<notin> L \<Longrightarrow> sn_session_id r \<noteq> m"
      using that assms(3) unfolding calm_def by metis
    then have "inventory L idle (?f db)" using inventory_del_locator [OF i] by blast
    then have "calm L idle db (?f db)"
      by (rule calm_shrink [OF calm_refl [OF i]]) (auto simp: live_rec_iff)
    then show ?thesis by (simp add: write_cmd_def)
  qed
  from rcall_calm [OF r assms(1,2) this] r show ?thesis by (auto simp: best_effort_def del_locator_cmd_def)
qed

lemma delete_script_gone: "delete_script h db = (Inr n, db') \<Longrightarrow> \<not> live_rec db' h r"
  by (auto simp: delete_script_def live_rec_iff get_rec_def split: option.splits payload.splits if_splits)

lemma delete_calm:
  assumes "delete_by_token_hash h c = (res, c')" and "inventory L idle (fst c)" and "calm_env L idle (snd c)"
  shows "calm L idle (fst c) (fst c')" and "calm_env L idle (snd c')"
    and "res = Inr () \<Longrightarrow> \<not> live_rec (fst c') h r"
proof -
  obtain q c1 where q: "rcall ErrSessInfra (delete_script h) c = (q, c1)"
    by (cases "rcall ErrSessInfra (delete_script h) c") blast
  have "calm L idle (fst c) db \<Longrightarrow> calm L idle db (snd (delete_script h db))" for db
    using calm_delete calm_inventory by blast
  note k = rcall_calm [OF q assms(2,3) this]
  have c': "c' = c1" "res = Inr () \<Longrightarrow> \<exists>n. q = Inr n"
    using q assms(1) by (auto simp: delete_by_token_hash_def split: sum.splits)
  show "calm L idle (fst c) (fst c')" "calm_env L idle (snd c')" using k c' by auto
  show "\<not> live_rec (fst c') h r" if "res = Inr ()"
    using k c' that delete_script_gone by blast
qed

lemma best_effort_delete_calm:
  assumes "inventory L idle (fst c)" and "calm_env L idle (snd c)"
  shows "calm L idle (fst c) (fst (best_effort (delete_by_token_hash h) c))
    \<and> calm_env L idle (snd (best_effort (delete_by_token_hash h) c))"
  using delete_calm [of h c "fst (delete_by_token_hash h c)" "snd (delete_by_token_hash h c)" L idle] assms
  by (auto simp: best_effort_def)

lemma heal_calm:
  assumes "inventory L idle (fst c)" and "calm_env L idle (snd c)"
    and no: "\<And>h r. live_rec (fst c) h r \<Longrightarrow> sn_session_id r \<notin> L \<Longrightarrow> sn_session_id r \<noteq> m"
  shows "calm L idle (fst c) (fst (heal_locator u m c)) \<and> calm_env L idle (snd (heal_locator u m c))"
proof -
  let ?c = "best_effort (del_locator_cmd m) c"
  from del_locator_calm [OF assms] have d: "calm L idle (fst c) (fst ?c)" "calm_env L idle (snd ?c)" by auto
  have "\<And>h r. live_rec (fst ?c) h r \<Longrightarrow> sn_session_id r \<notin> L \<Longrightarrow> sn_session_id r \<noteq> m"
    using d(1) no unfolding calm_def by metis
  with zrem_calm [of L idle ?c m u] d calm_inventory [OF d(1)]
  show ?thesis unfolding heal_locator_def by (auto intro: calm_trans)
qed

lemma resolve_calm:
  assumes "resolve u m c = (res, c')" and "inventory L idle (fst c)" and "calm_env L idle (snd c)"
  shows "calm L idle (fst c) (fst c')" and "calm_env L idle (snd c')"
    and "res = Inl ErrSessionNotFound \<Longrightarrow> live_rec (fst c') h r \<Longrightarrow> sn_session_id r = m \<Longrightarrow> m \<notin> L \<Longrightarrow> sn_user_id r \<noteq> u"
    and "res = Inr (h, r) \<Longrightarrow> \<exists>r0. live_rec (fst c') h r0 \<and> r = normalize_stamp r0
        \<and> sn_session_id r = m \<and> sn_user_id r = u"
proof -
  have "calm L idle (fst c) (fst c') \<and> calm_env L idle (snd c')
    \<and> (res = Inl ErrSessionNotFound \<longrightarrow> (\<forall>h r. live_rec (fst c') h r \<longrightarrow> sn_session_id r = m \<longrightarrow> m \<notin> L \<longrightarrow> sn_user_id r \<noteq> u))
    \<and> (\<forall>h r. res = Inr (h, r) \<longrightarrow> (\<exists>r0. live_rec (fst c') h r0 \<and> r = normalize_stamp r0
        \<and> sn_session_id r = m \<and> sn_user_id r = u))"
  proof (cases "m = []")
    case True
    with assms show ?thesis by (auto simp: resolve_def calm_refl dest: inventory_nonempty)
  next
    case False
    obtain q c1 where q: "rcall ErrSessInfra (read_cmd (\<lambda>db. get_loc db m)) c = (q, c1)"
      by (cases "rcall ErrSessInfra (read_cmd (\<lambda>db. get_loc db m)) c") blast
    from read_calm [OF q assms(2,3)] have c1: "calm L idle (fst c) (fst c1)" "calm_env L idle (snd c1)"
      and loc: "\<And>x. q = Inr x \<Longrightarrow> x = get_loc (fst c1) m" by auto
    have inf: "q = Inl x \<Longrightarrow> x = ErrSessInfra" for x
      using q by (cases "(ErrSessInfra, read_cmd (\<lambda>db. get_loc db m), c)" rule: rcall.cases)
        (auto simp: read_cmd_def)
    note i1 = calm_inventory [OF c1(1)]
    have c12: "calm L idle (fst c1) x \<Longrightarrow> calm L idle (fst c) x" for x using c1(1) by (rule calm_trans)
    show ?thesis
    proof (cases q)
      case (Inl e)
      with inf assms(1) q False c1 show ?thesis by (auto simp: resolve_def)
    next
      case (Inr l)
      show ?thesis
      proof (cases l)
        case None
        with Inr loc have "get_loc (fst c1) m = None" by simp
        with inventory_located [OF i1] have "\<forall>h r. live_rec (fst c1) h r \<longrightarrow> m \<notin> L \<longrightarrow> sn_session_id r \<noteq> m" by force
        with None Inr assms(1) q False c1 show ?thesis by (auto simp: resolve_def)
      next
        case (Some h)
        with Inr loc have l: "get_loc (fst c1) m = Some h" by simp
        obtain x c2 where x: "store_get h c1 = (x, c2)" by (cases "store_get h c1") blast
        note g = store_get_calm [OF x i1 c1(2)]
        note i2 = calm_inventory [OF g(1)]
        have gone: "sn_session_id r' \<noteq> m" if "get_rec (fst c2) h = None" "live_rec (fst c2) h' r'" "sn_session_id r' \<notin> L" for h' r'
        proof
          assume m: "sn_session_id r' = m"
          with that(2) g(1) obtain r1 where "live_rec (fst c1) h' r1" "sn_session_id r1 = m"
            unfolding calm_def by metis
          with inventory_located [OF i1] l that(3) m have "h' = h" by force
          with that show False by (simp add: live_rec_def)
        qed
        show ?thesis
        proof (cases x)
          case xl: (Inl e)
          show ?thesis
          proof (cases "e = ErrSessionNotFound")
            case True
            with xl g(3) have "get_rec (fst c2) h = None" by simp
            from gone [OF this] have no: "\<And>h r. live_rec (fst c2) h r \<Longrightarrow> sn_session_id r \<notin> L \<Longrightarrow> sn_session_id r \<noteq> m" .
            from heal_calm [OF i2 g(2) no] have k: "calm L idle (fst c2) (fst (heal_locator u m c2))"
              "calm_env L idle (snd (heal_locator u m c2))" by auto
            have "\<forall>h r. live_rec (fst (heal_locator u m c2)) h r \<longrightarrow> m \<notin> L \<longrightarrow> sn_session_id r \<noteq> m"
              using k(1) no unfolding calm_def by metis
            moreover have "res = Inl ErrSessionNotFound" "c' = heal_locator u m c2"
              using xl True x q Inr Some assms(1) \<open>m \<noteq> []\<close> by (simp_all add: resolve_def)
            ultimately show ?thesis using k(2) c12 [OF calm_trans [OF g(1) k(1)]] by blast
          next
            case False
            with xl x q Inr Some assms(1) \<open>m \<noteq> []\<close> have "res = Inl e" "c' = c2"
              by (simp_all add: resolve_def)
            with g(2) c12 [OF g(1)] False show ?thesis by simp
          qed
        next
          case xr: (Inr r)
          with g(4) obtain r0 where r0: "live_rec (fst c2) h r0" "r = normalize_stamp r0" by blast
          have "sn_user_id r' \<noteq> u" if f: "sn_user_id r \<noteq> u \<or> sn_session_id r \<noteq> m"
            "live_rec (fst c2) h' r'" "sn_session_id r' = m" "m \<notin> L" for h' r'
          proof
            assume u: "sn_user_id r' = u"
            from that(2,3) g(1) obtain r1 where "live_rec (fst c1) h' r1" "sn_session_id r1 = m"
              unfolding calm_def by metis
            with inventory_located [OF i1] l that(4) have "h' = h" by force
            with r0 f u show False by (auto simp: live_rec_def)
          qed
          note foreign = this
          have "resolve u m c = (if sn_user_id r \<noteq> u \<or> sn_session_id r \<noteq> m
              then (Inl ErrSessionNotFound, c2) else (Inr (h, r), c2))"
            using xr x q Inr Some False by (simp add: resolve_def)
          with assms(1) have e: "c' = c2" "res = (if sn_user_id r \<noteq> u \<or> sn_session_id r \<noteq> m
              then Inl ErrSessionNotFound else Inr (h, r))" by (metis prod.inject)+
          show ?thesis
          proof (cases "sn_user_id r \<noteq> u \<or> sn_session_id r \<noteq> m")
            case True
            with e have "res = Inl ErrSessionNotFound" by simp
            with foreign [OF True] e(1) g(2) c12 [OF g(1)] show ?thesis by blast
          next
            case False
            with e have "res = Inr (h, r)" by simp
            with False e(1) r0 g(2) c12 [OF g(1)] show ?thesis by blast
          qed
        qed
      qed
    qed
  qed
  then show "calm L idle (fst c) (fst c')" "calm_env L idle (snd c')"
    "res = Inl ErrSessionNotFound \<Longrightarrow> live_rec (fst c') h r \<Longrightarrow> sn_session_id r = m \<Longrightarrow> m \<notin> L \<Longrightarrow> sn_user_id r \<noteq> u"
    "res = Inr (h, r) \<Longrightarrow> \<exists>r0. live_rec (fst c') h r0 \<and> r = normalize_stamp r0
        \<and> sn_session_id r = m \<and> sn_user_id r = u" by auto
qed

section \<open>The bulk revocations are complete\<close>

text \<open>No session of the user with this id, below the stamp bound, is left unless it has lapsed.\<close>

definition gone :: "duration \<Rightarrow> user_id \<Rightarrow> (epoch \<Rightarrow> bool) \<Rightarrow> session_id \<Rightarrow> redis \<Rightarrow> bool" where
  "gone idle u Q m db \<longleftrightarrow>
     (\<forall>h r. live_rec db h r \<longrightarrow> sn_user_id r = u \<longrightarrow> sn_session_id r = m \<longrightarrow> \<not> Q (stamp r) \<longrightarrow> lapsed idle db r)"

lemma gone_calm: "calm L idle db db' \<Longrightarrow> gone idle u Q m db \<Longrightarrow> gone idle u Q m db'"
  unfolding gone_def calm_def by metis

lemma expired_lapsed:
  "is_expired r now idle \<Longrightarrow> now \<le> rd_now db \<Longrightarrow> lapsed idle db r"
  using unix_milli_mono [of "effective_expiry r idle" "rd_now db"]
  by (auto simp: is_expired_effective lapsed_def eff_ms_def rd_ms_def)

lemma resolved_gone:
  assumes "inventory L idle db" and "live_rec db h r0" and "sn_session_id r0 = m"
    and "\<not> Q (stamp r0) \<Longrightarrow> lapsed idle db r0" and "m \<notin> L"
  shows "gone idle u Q m db"
  unfolding gone_def
proof (intro allI impI)
  fix h' r
  assume "live_rec db h' r" "sn_session_id r = m" "\<not> Q (stamp r)"
  with inventory_unique [OF assms(1,2), of h' r] assms(3-5) show "lapsed idle db r" by simp
qed

lemma revoke_loop_complete:
  assumes "revoke_loop spare_id (\<lambda>r. Q (sn_security_epoch r)) u now idle ms vs c = ((vs', None), c')"
    and "inventory L idle (fst c)" and "calm_env L idle (snd c)" and "now \<le> rd_now (fst c)"
  shows "calm L idle (fst c) (fst c') \<and> (\<forall>m\<in>set ms. \<not> spare_id m \<longrightarrow> m \<notin> L \<longrightarrow> gone idle u Q m (fst c'))"
  using assms
proof (induction ms arbitrary: vs c)
  case Nil
  then show ?case by (simp add: calm_refl)
next
  case (Cons m ms)
  let ?Q = "\<lambda>r. Q (sn_security_epoch r)"
  have step: ?case if "calm L idle (fst c) (fst c2)" "calm_env L idle (snd c2)" "spare_id m \<or> m \<in> L \<or> gone idle u Q m (fst c2)"
    "revoke_loop spare_id ?Q u now idle ms ws c2 = ((vs', None), c')" for c2 ws
  proof -
    have "now \<le> rd_now (fst c2)" using that(1) Cons.prems(4) by (simp add: calm_def)
    from Cons.IH [OF that(4) calm_inventory [OF that(1)] that(2) this]
    have k: "calm L idle (fst c2) (fst c')" "\<forall>m\<in>set ms. \<not> spare_id m \<longrightarrow> m \<notin> L \<longrightarrow> gone idle u Q m (fst c')"
      by simp_all
    have "spare_id m \<or> m \<in> L \<or> gone idle u Q m (fst c')" using that(3) gone_calm [OF k(1)] by blast
    with k(2) calm_trans [OF that(1) k(1)] show ?thesis by auto
  qed
  show ?case
  proof (cases "spare_id m")
    case True
    with Cons.prems step [of c vs] show ?thesis by (simp add: calm_refl)
  next
    case spare: False
    obtain x c1 where x: "resolve u m c = (x, c1)" by (cases "resolve u m c") blast
    note k = resolve_calm [OF x Cons.prems(2,3)]
    note i1 = calm_inventory [OF k(1)]
    show ?thesis
    proof (cases x)
      case (Inl e)
      with Cons.prems(1) x spare have e: "e = ErrSessionNotFound"
        and l: "revoke_loop spare_id ?Q u now idle ms vs (best_effort (zrem_cmd u m) c1) = ((vs', None), c')"
        by (auto split: if_splits)
      have no: "sn_user_id r \<noteq> u" if "live_rec (fst c1) h r" "sn_session_id r = m" "m \<notin> L" for h r
        using k(3) Inl e that by blast
      then have "m \<in> L \<or> gone idle u Q m (fst c1)" by (auto simp: gone_def)
      moreover have "calm L idle (fst c1) (fst (best_effort (zrem_cmd u m) c1))
          \<and> calm_env L idle (snd (best_effort (zrem_cmd u m) c1))"
        by (rule zrem_calm [OF i1 k(2)]) (use no in blast)
      ultimately show ?thesis using step [OF _ _ _ l] calm_trans [OF k(1)] gone_calm by blast
    next
      case (Inr y)
      then obtain h r where y: "x = Inr (h, r)" by (cases y) auto
      from k(4) [OF y] obtain r0 where r0: "live_rec (fst c1) h r0" "r = normalize_stamp r0"
        "sn_session_id r0 = m" "sn_user_id r0 = u" by auto
      have now: "now \<le> rd_now (fst c1)" using k(1) Cons.prems(4) by (simp add: calm_def)
      show ?thesis
      proof (cases "is_expired r now idle")
        case True
        with r0 now have "lapsed idle (fst c1) r0" using expired_lapsed by simp
        with resolved_gone [OF i1 r0(1,3)] have g: "m \<in> L \<or> gone idle u Q m (fst c1)" by blast
        have l: "revoke_loop spare_id ?Q u now idle ms vs (best_effort (delete_by_token_hash h) c1) = ((vs', None), c')"
          using Cons.prems(1) x y True spare by simp
        from best_effort_delete_calm [OF i1 k(2), of h] g
        show ?thesis using step [OF _ _ _ l] calm_trans [OF k(1)] gone_calm by blast
      next
        case live: False
        show ?thesis
        proof (cases "Q (sn_security_epoch r)")
          case True
          with r0(2) have "Q (stamp r0)" by (simp add: stamp_def)
          then have "m \<in> L \<or> gone idle u Q m (fst c1)" using resolved_gone [OF i1 r0(1,3)] by blast
          with Cons.prems(1) x y True live spare step [OF k(1,2)] show ?thesis by simp
        next
          case False
          obtain d c2 where d: "delete_by_token_hash h c1 = (d, c2)" by (cases "delete_by_token_hash h c1") blast
          note dc = delete_calm [OF d i1 k(2)]
          have dr: "d = Inr ()" and l: "revoke_loop spare_id ?Q u now idle ms (vs @ [r]) c2 = ((vs', None), c')"
            using Cons.prems(1) x y live False spare d by (auto split: sum.splits)
          have "gone idle u Q m (fst c2)" if "m \<notin> L"
            unfolding gone_def
          proof (intro allI impI)
            fix h' r'
            assume "live_rec (fst c2) h' r'" "sn_session_id r' = m"
            with dc(1) obtain r1 where "live_rec (fst c1) h' r1" "sn_session_id r1 = m"
              unfolding calm_def by metis
            with inventory_unique [OF i1 r0(1)] r0(3) that have "h' = h" by metis
            with dc(3) [OF dr] \<open>live_rec (fst c2) h' r'\<close> show "lapsed idle (fst c2) r'" by blast
          qed
          with step [OF calm_trans [OF k(1) dc(1)] dc(2) _ l] show ?thesis by blast
        qed
      qed
    qed
  qed
qed

lemma bulk_revocation_complete:
  assumes "(case rcall ErrSessInfra (read_cmd (index_members u)) c of
        (Inl e, c1) \<Rightarrow> (([], Some e), c1)
      | (Inr members, c1) \<Rightarrow> revoke_loop spare_id (\<lambda>r. Q (sn_security_epoch r)) u now idle members [] c1)
      = ((victims, None), c')"
    and "inventory L idle (fst c)" and "calm_env L idle (snd c)" and "now \<le> rd_now (fst c)"
    and "live_rec (fst c') h r" and "sn_user_id r = u" and "\<not> spare_id (sn_session_id r)" and "\<not> Q (stamp r)"
    and "sn_session_id r \<notin> L"
  shows "lapsed idle (fst c') r"
proof -
  obtain q c1 where q: "rcall ErrSessInfra (read_cmd (index_members u)) c = (q, c1)"
    by (cases "rcall ErrSessInfra (read_cmd (index_members u)) c") blast
  from read_calm [OF q assms(2,3)] have c1: "calm L idle (fst c) (fst c1)" "calm_env L idle (snd c1)"
    and m: "\<And>x. q = Inr x \<Longrightarrow> x = index_members u (fst c1)" by auto
  have now: "now \<le> rd_now (fst c1)" using c1(1) assms(4) by (simp add: calm_def)
  have l: "revoke_loop spare_id (\<lambda>r. Q (sn_security_epoch r)) u now idle (index_members u (fst c1)) [] c1
      = ((victims, None), c')"
    using assms(1) q m by (auto split: sum.splits)
  note d = revoke_loop_complete [OF l calm_inventory [OF c1(1)] c1(2) now]
  show ?thesis
  proof (rule ccontr)
    assume n: "\<not> lapsed idle (fst c') r"
    with d assms(5,6) obtain r1 where r1: "live_rec (fst c1) h r1" "sn_session_id r1 = sn_session_id r"
      "sn_user_id r1 = u" "\<not> lapsed idle (fst c1) r1" unfolding calm_def by metis
    with inventory_indexed [OF calm_inventory [OF c1(1)] r1(1)] assms(9)
    have "sn_session_id r \<in> set (index_members u (fst c1))" by simp
    with d assms(7,9) have "gone idle u Q (sn_session_id r) (fst c')" by blast
    with assms(5,6,8) n show False by (simp add: gone_def)
  qed
qed

section \<open>What a bulk revocation leaves alone\<close>

definition quiet_env :: "(fault \<times> (redis \<Rightarrow> redis)) list \<Rightarrow> bool" where
  "quiet_env es \<longleftrightarrow> list_all (\<lambda>x. snd x = id) es"

lemma rcall_quiet:
  assumes "rcall e f c = (res, c')" and "quiet_env (snd c)"
  shows "quiet_env (snd c')" and "fst c' = fst c \<or> fst c' = snd (f (fst c))"
    and "res = Inr x \<Longrightarrow> f (fst c) = (Inr x, fst c')"
proof -
  have "quiet_env (snd c') \<and> (fst c' = fst c \<or> fst c' = snd (f (fst c)))
      \<and> (\<forall>x. res = Inr x \<longrightarrow> f (fst c) = (Inr x, fst c'))"
    using assms by (cases "(e, f, c)" rule: rcall.cases) (auto simp: quiet_env_def intro: prod_eqI)
  then show "quiet_env (snd c')" "fst c' = fst c \<or> fst c' = snd (f (fst c))"
    "res = Inr x \<Longrightarrow> f (fst c) = (Inr x, fst c')" by auto
qed

text \<open>The part of the state that says which records are live.\<close>

definition same_recs :: "redis \<Rightarrow> redis \<Rightarrow> bool" where
  "same_recs db db' \<longleftrightarrow> rd_recs db' = rd_recs db \<and> rd_now db' = rd_now db"

lemma same_recs_live: "same_recs db db' \<Longrightarrow> live_rec db' h r = live_rec db h r"
  by (simp add: same_recs_def live_rec_iff rd_ms_def)

lemma same_recs_refl [simp]: "same_recs db db"
  by (simp add: same_recs_def)

lemma same_recs_trans: "same_recs a b \<Longrightarrow> same_recs b c \<Longrightarrow> same_recs a c"
  by (simp add: same_recs_def)

lemma rcall_same_recs:
  assumes "rcall e f c = (res, c')" and "quiet_env (snd c)" and "same_recs (fst c) (snd (f (fst c)))"
  shows "quiet_env (snd c') \<and> same_recs (fst c) (fst c')"
  using rcall_quiet [OF assms(1,2)] assms(3) by auto

lemma heals_same_recs:
  assumes "quiet_env (snd c)"
  shows "quiet_env (snd (best_effort (zrem_cmd u m) c)) \<and> same_recs (fst c) (fst (best_effort (zrem_cmd u m) c))"
    and "quiet_env (snd (best_effort (del_locator_cmd m) c))
      \<and> same_recs (fst c) (fst (best_effort (del_locator_cmd m) c))"
proof -
  have "quiet_env (snd (snd (rcall ErrSessInfra (write_cmd f) c)))
      \<and> same_recs (fst c) (fst (snd (rcall ErrSessInfra (write_cmd f) c)))"
    if "same_recs (fst c) (f (fst c))" for f
    using rcall_same_recs [OF _ assms, of ErrSessInfra "write_cmd f"] that
    by (metis prod.collapse snd_conv write_cmd_def)
  note this [of "zrem u m"] this [of "\<lambda>db. db\<lparr>rd_locs := (rd_locs db)(m := None)\<rparr>"]
  then show "quiet_env (snd (best_effort (zrem_cmd u m) c)) \<and> same_recs (fst c) (fst (best_effort (zrem_cmd u m) c))"
    and "quiet_env (snd (best_effort (del_locator_cmd m) c))
      \<and> same_recs (fst c) (fst (best_effort (del_locator_cmd m) c))"
    by (simp_all add: best_effort_def zrem_cmd_def del_locator_cmd_def same_recs_def)
qed

lemma store_get_quiet:
  assumes "store_get h c = (res, c')" and "quiet_env (snd c)"
  shows "quiet_env (snd c') \<and> same_recs (fst c) (fst c')
    \<and> (\<forall>r. res = Inr r \<longrightarrow> (\<exists>r0. live_rec (fst c') h r0 \<and> r = normalize_stamp r0))"
proof -
  obtain q c1 where q: "rcall ErrSessInfra (read_cmd (\<lambda>db. get_rec db h)) c = (q, c1)"
    by (cases "rcall ErrSessInfra (read_cmd (\<lambda>db. get_rec db h)) c") blast
  have "same_recs (fst c) (snd (read_cmd (\<lambda>db. get_rec db h) (fst c)))" by (simp add: read_cmd_def)
  note k = rcall_same_recs [OF q assms(2) this] rcall_quiet(3) [OF q assms(2)]
  from assms k q show ?thesis
    by (auto simp: store_get_def read_cmd_def live_rec_def
        split: if_splits sum.splits option.splits payload.splits)
qed

lemma resolve_quiet:
  assumes "resolve u m c = (res, c')" and "quiet_env (snd c)"
  shows "quiet_env (snd c')" and "same_recs (fst c) (fst c')"
    and "res = Inr (h, r) \<Longrightarrow> \<exists>r0. live_rec (fst c') h r0 \<and> r = normalize_stamp r0
        \<and> sn_session_id r = m \<and> sn_user_id r = u"
proof -
  obtain q c1 where q: "rcall ErrSessInfra (read_cmd (\<lambda>db. get_loc db m)) c = (q, c1)"
    by (cases "rcall ErrSessInfra (read_cmd (\<lambda>db. get_loc db m)) c") blast
  have "same_recs (fst c) (snd (read_cmd (\<lambda>db. get_loc db m) (fst c)))" by (simp add: read_cmd_def)
  note k = rcall_same_recs [OF q assms(2) this]
  have heal: "quiet_env (snd (heal_locator u m d)) \<and> same_recs (fst d) (fst (heal_locator u m d))"
    if "quiet_env (snd d)" for d
    using heals_same_recs(2) [OF that, of m] heals_same_recs(1) [of "best_effort (del_locator_cmd m) d" u m]
    by (auto simp: heal_locator_def intro: same_recs_trans)
  have "quiet_env (snd c') \<and> same_recs (fst c) (fst c') \<and>
     (res = Inr (h, r) \<longrightarrow> (\<exists>r0. live_rec (fst c') h r0 \<and> r = normalize_stamp r0
        \<and> sn_session_id r = m \<and> sn_user_id r = u))"
  proof (cases "m = [] \<or> (\<nexists>h. q = Inr (Some h))")
    case True
    with assms q k show ?thesis
      by (auto simp: resolve_def split: if_splits sum.splits option.splits)
  next
    case False
    then obtain h1 where h1: "q = Inr (Some h1)" "m \<noteq> []" by auto
    obtain x c2 where x: "store_get h1 c1 = (x, c2)" by (cases "store_get h1 c1") blast
    note g = store_get_quiet [OF x conjunct1 [OF k]]
    have s: "same_recs (fst c) (fst c2)" using g k same_recs_trans by blast
    show ?thesis
      using assms(1) q h1 x g s heal [of c2] same_recs_trans [OF s]
      by (auto simp: resolve_def split: sum.splits if_splits)
  qed
  then show "quiet_env (snd c')" "same_recs (fst c) (fst c')"
    "res = Inr (h, r) \<Longrightarrow> \<exists>r0. live_rec (fst c') h r0 \<and> r = normalize_stamp r0
        \<and> sn_session_id r = m \<and> sn_user_id r = u" by auto
qed

lemma delete_quiet:
  assumes "delete_by_token_hash h' c = (res, c')" and "quiet_env (snd c)" and "live_rec (fst c) h r" and "h' \<noteq> h"
  shows "quiet_env (snd c') \<and> live_rec (fst c') h r"
proof -
  obtain q c1 where q: "rcall ErrSessInfra (delete_script h') c = (q, c1)"
    by (cases "rcall ErrSessInfra (delete_script h') c") blast
  have "live_rec (snd (delete_script h' (fst c))) h r"
    using assms(3,4) by (auto simp: delete_script_def live_rec_iff split: option.splits payload.splits)
  with rcall_quiet [OF q assms(2)] assms(1,3) q show ?thesis
    by (auto simp: delete_by_token_hash_def split: sum.splits)
qed

lemma revoke_loop_spares:
  assumes "revoke_loop spare_id spare_rec u now idle ms vs c = (res, c')" and "quiet_env (snd c)"
    and "live_rec (fst c) h r"
    and "spare_id (sn_session_id r) \<or> sn_user_id r \<noteq> u \<or> (spare_rec (normalize_stamp r) \<and> \<not> is_expired r now idle)"
  shows "live_rec (fst c') h r"
  using assms(1-3)
proof (induction ms arbitrary: vs c)
  case Nil
  then show ?case by simp
next
  case (Cons m ms)
  show ?case
  proof (cases "spare_id m")
    case True
    with Cons show ?thesis by simp
  next
    case spare: False
    obtain x c1 where x: "resolve u m c = (x, c1)" by (cases "resolve u m c") blast
    note k = resolve_quiet [OF x Cons.prems(2)]
    have l1: "live_rec (fst c1) h r" using k(2) Cons.prems(3) same_recs_live by blast
    show ?thesis
    proof (cases x)
      case (Inl e)
      let ?c2 = "best_effort (zrem_cmd u m) c1"
      from heals_same_recs(1) [OF k(1), of u m] l1
      have "quiet_env (snd ?c2)" "live_rec (fst ?c2) h r" using same_recs_live by blast+
      with Cons.IH [of vs ?c2] Cons.prems(1) x Inl spare l1 show ?thesis
        by (simp split: if_splits) 
    next
      case (Inr y)
      then obtain h1 r1 where y: "x = Inr (h1, r1)" by (cases y) auto
      from k(3) [OF y] obtain r0 where r0: "live_rec (fst c1) h1 r0" "r1 = normalize_stamp r0"
        "sn_session_id r0 = m" "sn_user_id r0 = u" by auto
      have h1: "h1 \<noteq> h" if "is_expired r1 now idle \<or> \<not> spare_rec r1"
      proof
        assume "h1 = h"
        with r0(1) l1 have "r0 = r" by (simp add: live_rec_def)
        with r0 that assms(4) spare show False by auto
      qed
      obtain d c2 where d: "delete_by_token_hash h1 c1 = (d, c2)" by (cases "delete_by_token_hash h1 c1") blast
      have l2: "quiet_env (snd c2) \<and> live_rec (fst c2) h r" if "is_expired r1 now idle \<or> \<not> spare_rec r1"
        using delete_quiet [OF d k(1) l1] h1 [OF that] .
      consider "is_expired r1 now idle" | "\<not> is_expired r1 now idle" "spare_rec r1"
        | "\<not> is_expired r1 now idle" "\<not> spare_rec r1" by blast
      then show ?thesis
      proof cases
        case 1
        with l2 Cons.IH [of vs c2] Cons.prems(1) x y spare d show ?thesis by (simp add: best_effort_def)
      next
        case 2
        with l1 k(1) Cons.IH [of vs c1] Cons.prems(1) x y spare show ?thesis by simp
      next
        case 3
        with l2 Cons.IH [of "vs @ [r1]" c2] Cons.prems(1) x y spare d show ?thesis
          by (simp split: sum.splits)
      qed
    qed
  qed
qed

lemma read_same_recs:
  assumes "rcall e (read_cmd q) c = (res, c')" and "quiet_env (snd c)"
  shows "quiet_env (snd c') \<and> same_recs (fst c) (fst c')"
  by (rule rcall_same_recs [OF assms]) (simp add: read_cmd_def)

section \<open>Reachable states\<close>

text \<open>
  The atomic effects of clients whose clocks agree with the server's: a fresh session id is
  created under some token, a session is refreshed or rotated by a client that read it under
  that token, records are deleted, the index is pruned to the present, and the two commands of
  the self-healing (\<open>resolve\<close>, \<open>ListUserSessions\<close> and the bulk revocations send them on their own,
  with no check at the server) delete the locator or the index entry of any session at any time.
  Beside the state goes the set of the sessions hit so: a session enters it when one of the two
  commands runs while a live record carries its id, and leaves it when a script writes the
  session again.
\<close>

definition carries :: "redis \<Rightarrow> session_id \<Rightarrow> bool" where
  "carries db m \<longleftrightarrow> (\<exists>h r. live_rec db h r \<and> sn_session_id r = m)"

definition healed :: "session_id \<Rightarrow> redis \<Rightarrow> session_id set \<Rightarrow> session_id set" where
  "healed m db L = (if carries db m then insert m L else L)"

definition written :: "session_error + int \<Rightarrow> session_id \<Rightarrow> session_id set \<Rightarrow> session_id set" where
  "written q m L = (if q = Inr 1 then L - {m} else L)"

definition same_session :: "redis \<Rightarrow> token_hash \<Rightarrow> session_record \<Rightarrow> bool" where
  "same_session db h r \<longleftrightarrow> (\<forall>r0. live_rec db h r0 \<longrightarrow> sn_session_id r0 = sn_session_id r)"

inductive store_step :: "duration \<Rightarrow> redis \<times> session_id set \<Rightarrow> redis \<times> session_id set \<Rightarrow> bool" for idle where
  st_create: "h \<noteq> [] \<Longrightarrow> sn_session_id r \<noteq> [] \<Longrightarrow> \<not> carries db (sn_session_id r) \<Longrightarrow>
     create_script h r ttl (eff_ms idle r) (rd_ms db) db = (q, db') \<Longrightarrow>
     store_step idle (db, L) (db', written q (sn_session_id r) L)"
| st_touch: "same_session db h r \<Longrightarrow> touch_script h r ttl (eff_ms idle r) (rd_ms db) db = (q, db') \<Longrightarrow>
     store_step idle (db, L) (db', written q (sn_session_id r) L)"
| st_rotate: "new \<noteq> [] \<Longrightarrow> same_session db old r \<Longrightarrow>
     rotate_script old new r ttl (eff_ms idle r) (rd_ms db) db = (q, db') \<Longrightarrow>
     store_step idle (db, L) (db', written q (sn_session_id r) L)"
| st_delete: "store_step idle (db, L) (snd (delete_script h db), L)"
| st_prune: "k \<le> rd_ms db \<Longrightarrow> store_step idle (db, L) (prune_index u k db, L)"
| st_locator: "store_step idle (db, L) (db\<lparr>rd_locs := (rd_locs db)(m := None)\<rparr>, healed m db L)"
| st_member: "store_step idle (db, L) (zrem u m db, healed m db L)"
| st_time: "rd_now db \<le> t \<Longrightarrow> store_step idle (db, L) (db\<lparr>rd_now := t\<rparr>, L)"

text \<open>
  What holds of every session, hit or not: only the scripts' own payloads are stored, session ids
  are unique among live records, and a locator never leads to another token than the session's.
\<close>

definition sound :: "redis \<Rightarrow> bool" where
  "sound db \<longleftrightarrow>
     (\<forall>h p. get_rec db h = Some p \<longrightarrow> (\<exists>r. p = Encoded r \<and> h \<noteq> [] \<and> sn_session_id r \<noteq> []
        \<and> (\<forall>h'. get_loc db (sn_session_id r) = Some h' \<longrightarrow> h' = h)))
     \<and> (\<forall>h r h' r'. live_rec db h r \<longrightarrow> live_rec db h' r' \<longrightarrow> sn_session_id r = sn_session_id r' \<longrightarrow> h = h')
     \<and> (\<forall>m h. get_loc db m = Some h \<longrightarrow> h \<noteq> [])"

lemma soundD:
  assumes "sound db"
  shows "get_rec db h = Some p \<Longrightarrow> \<exists>r. p = Encoded r \<and> live_rec db h r \<and> h \<noteq> [] \<and> sn_session_id r \<noteq> []"
    and "live_rec db h r \<Longrightarrow> h \<noteq> [] \<and> sn_session_id r \<noteq> []"
    and "live_rec db h r \<Longrightarrow> get_loc db (sn_session_id r) = Some h' \<Longrightarrow> h' = h"
    and "live_rec db h r \<Longrightarrow> live_rec db h' r' \<Longrightarrow> sn_session_id r = sn_session_id r' \<Longrightarrow> h' = h"
    and "get_loc db m = Some h \<Longrightarrow> h \<noteq> []"
  using assms unfolding sound_def live_rec_def by blast+

text \<open>Steps that only take records and locators away.\<close>

lemma sound_shrink:
  assumes "sound db"
    and "\<And>h p. get_rec db' h = Some p \<Longrightarrow> get_rec db h = Some p"
    and "\<And>m h. get_loc db' m = Some h \<Longrightarrow> get_loc db m = Some h"
  shows "sound db'"
  unfolding sound_def
proof (intro conjI allI impI)
  fix h p assume "get_rec db' h = Some p"
  with soundD(1,3) [OF assms(1)] assms(2,3) show "\<exists>r. p = Encoded r \<and> h \<noteq> [] \<and> sn_session_id r \<noteq> []
      \<and> (\<forall>h'. get_loc db' (sn_session_id r) = Some h' \<longrightarrow> h' = h)" by meson
next
  fix h r h' r'
  assume "live_rec db' h r" "live_rec db' h' r'" "sn_session_id r = sn_session_id r'"
  with soundD(4) [OF assms(1), of h' r' h r] assms(2) show "h = h'" by (simp add: live_rec_def)
next
  fix m h assume "get_loc db' m = Some h"
  with soundD(5) [OF assms(1)] assms(3) show "h \<noteq> []" by blast
qed

lemma get_frame:
  "rd_recs db' = rd_recs db \<Longrightarrow> rd_ms db' = rd_ms db \<Longrightarrow> get_rec db' h = get_rec db h"
  "rd_locs db' = rd_locs db \<Longrightarrow> rd_ms db' = rd_ms db \<Longrightarrow> get_loc db' m = get_loc db m"
  by (simp_all add: get_rec_def get_loc_def split: option.split)

lemma sound_frame:
  "sound db \<Longrightarrow> rd_recs db' = rd_recs db \<Longrightarrow> rd_locs db' = rd_locs db \<Longrightarrow> rd_ms db' = rd_ms db \<Longrightarrow> sound db'"
  by (rule sound_shrink) (simp_all add: get_frame [of db' db])

lemma sound_locator: "sound db \<Longrightarrow> sound (db\<lparr>rd_locs := (rd_locs db)(m := None)\<rparr>)"
  by (rule sound_shrink) (auto simp: get_rec_def get_loc_def split: if_splits option.splits)

lemma sound_zrem: "sound db \<Longrightarrow> sound (zrem u m db)"
  by (rule sound_frame) simp_all

lemma sound_delete: "sound db \<Longrightarrow> sound (snd (delete_script h db))"
proof (cases "\<exists>r. get_rec db h = Some (Encoded r)")
  case True
  assume s: "sound db"
  from True obtain r where r: "get_rec db h = Some (Encoded r)" by blast
  have "sound (db\<lparr>rd_recs := (rd_recs db)(h := None), rd_locs := (rd_locs db)(sn_session_id r := None)\<rparr>)"
    by (rule sound_shrink [OF s]) (auto simp: get_rec_def get_loc_def split: if_splits option.splits)
  then have "sound (zrem (sn_user_id r) (sn_session_id r)
      (db\<lparr>rd_recs := (rd_recs db)(h := None), rd_locs := (rd_locs db)(sn_session_id r := None)\<rparr>))"
    by (rule sound_zrem)
  with r show ?thesis by (simp add: delete_script_def)
qed (auto simp: delete_script_def split: option.split payload.split)

lemma sound_time:
  assumes "sound db" and "rd_now db \<le> t"
  shows "sound (db\<lparr>rd_now := t\<rparr>)"
proof -
  have "rd_ms db \<le> rd_ms (db\<lparr>rd_now := t\<rparr>)" using assms(2) by (simp add: rd_ms_def unix_milli_mono)
  then show ?thesis
    by (intro sound_shrink [OF assms(1)]) (auto simp: get_rec_def get_loc_def split: option.splits if_splits)
qed

text \<open>The record \<open>r\<close> is now at \<open>h\<close>; what is left of the old records has other session ids.\<close>

lemma sound_write:
  assumes "sound db" and "h \<noteq> []" "sn_session_id r \<noteq> []"
    and R: "\<And>h' p. get_rec (db\<lparr>rd_recs := R\<rparr>) h' = Some p \<Longrightarrow> (h' = h \<and> p = Encoded r) \<or>
        (get_rec db h' = Some p \<and> (\<forall>r'. p = Encoded r' \<longrightarrow> sn_session_id r' \<noteq> sn_session_id r))"
  shows "sound (refresh_index u m s n (db\<lparr>rd_recs := R, rd_locs := (rd_locs db)(sn_session_id r \<mapsto> (h, T))\<rparr>))"
proof (rule sound_frame)
  let ?db = "db\<lparr>rd_recs := R, rd_locs := (rd_locs db)(sn_session_id r \<mapsto> (h, T))\<rparr>"
  have l: "get_loc ?db m' = Some h' \<Longrightarrow> (m' = sn_session_id r \<and> h' = h) \<or> (m' \<noteq> sn_session_id r \<and> get_loc db m' = Some h')" for m' h'
    by (auto simp: get_loc_def split: if_splits option.splits)
  have R': "(h' = h \<and> p = Encoded r) \<or> (get_rec db h' = Some p \<and> (\<forall>r'. p = Encoded r' \<longrightarrow> sn_session_id r' \<noteq> sn_session_id r))"
    if "get_rec ?db h' = Some p" for h' p
  proof (rule R)
    have "get_rec (db\<lparr>rd_recs := R\<rparr>) h' = get_rec ?db h'" by (rule get_frame) simp_all
    with that show "get_rec (db\<lparr>rd_recs := R\<rparr>) h' = Some p" by simp
  qed
  show "sound ?db"
    unfolding sound_def
  proof (intro conjI allI impI)
    fix h' p assume "get_rec ?db h' = Some p"
    from R' [OF this] l soundD(1,3) [OF assms(1)] assms(2,3)
    show "\<exists>r. p = Encoded r \<and> h' \<noteq> [] \<and> sn_session_id r \<noteq> [] \<and>
        (\<forall>h''. get_loc ?db (sn_session_id r) = Some h'' \<longrightarrow> h'' = h')" by metis
  next
    fix h1 r1 h2 r2
    assume "live_rec ?db h1 r1" "live_rec ?db h2 r2" "sn_session_id r1 = sn_session_id r2"
    with R' [of h1 "Encoded r1"] R' [of h2 "Encoded r2"] soundD(4) [OF assms(1), of h1 r1 h2 r2]
    show "h1 = h2" by (auto simp: live_rec_def)
  next
    fix m' h' assume "get_loc ?db m' = Some h'"
    from l [OF this] soundD(5) [OF assms(1)] assms(2) show "h' \<noteq> []" by blast
  qed
qed simp_all

lemma write_sound:
  assumes "sound db" and "inventory L idle db" and "h \<noteq> []" and "sn_session_id r \<noteq> []"
    and "\<And>h' r'. live_rec db h' r' \<Longrightarrow> h' \<noteq> h \<Longrightarrow> sn_session_id r' \<noteq> sn_session_id r"
  shows "sound (write_record h r ttl (eff_ms idle r) (rd_ms db) db)"
    and "inventory (L - {sn_session_id r}) idle (write_record h r ttl (eff_ms idle r) (rd_ms db) db)"
proof -
  show "sound (write_record h r ttl (eff_ms idle r) (rd_ms db) db)"
    unfolding write_record_def
  proof (rule sound_write [OF assms(1,3,4)])
    fix h' p
    assume "get_rec (db\<lparr>rd_recs := (rd_recs db)(h \<mapsto> (Encoded r, rd_ms db + ttl))\<rparr>) h' = Some p"
    then show "(h' = h \<and> p = Encoded r) \<or>
        (get_rec db h' = Some p \<and> (\<forall>r'. p = Encoded r' \<longrightarrow> sn_session_id r' \<noteq> sn_session_id r))"
      using assms(5) [of h'] by (auto simp: get_rec_def live_rec_def split: if_splits option.splits)
  qed
  show "inventory (L - {sn_session_id r}) idle (write_record h r ttl (eff_ms idle r) (rd_ms db) db)"
    unfolding write_record_def
  proof (rule inventory_write [OF assms(2) _ assms(3,4)])
    fix h' r' t
    assume "((rd_recs db)(h \<mapsto> (Encoded r, rd_ms db + ttl))) h' = Some (Encoded r', t)" "rd_ms db \<le> t"
    then show "(h' = h \<and> r' = r \<and> t = rd_ms db + ttl)
        \<or> (rd_recs db h' = Some (Encoded r', t) \<and> sn_session_id r' \<noteq> sn_session_id r)"
      using assms(5) [of h' r'] by (auto simp: live_rec_iff split: if_splits)
  qed auto
qed

text \<open>The three scripts that write.\<close>

definition kept :: "duration \<Rightarrow> redis \<times> session_id set \<Rightarrow> bool" where
  "kept idle x \<longleftrightarrow> sound (fst x) \<and> inventory (snd x) idle (fst x)"

lemma create_kept:
  assumes "kept idle (db, L)" and "h \<noteq> []" and "sn_session_id r \<noteq> []" and "\<not> carries db (sn_session_id r)"
    and "create_script h r ttl (eff_ms idle r) (rd_ms db) db = (q, db')"
  shows "kept idle (db', written q (sn_session_id r) L)"
proof -
  have i: "sound db" "inventory L idle db" using assms(1) by (simp_all add: kept_def)
  from write_sound [OF i assms(2,3), of ttl] assms(4,5) i show ?thesis
    by (auto simp: create_script_def kept_def written_def carries_def split: if_splits)
qed

lemma touch_kept:
  assumes "kept idle (db, L)" and "same_session db h r"
    and "touch_script h r ttl (eff_ms idle r) (rd_ms db) db = (q, db')"
  shows "kept idle (db', written q (sn_session_id r) L)"
proof (cases "get_rec db h = None \<or> ttl \<le> 0")
  case True
  with assms(1,3) show ?thesis by (auto simp: touch_script_def written_def split: if_splits)
next
  case False
  have i: "sound db" "inventory L idle db" using assms(1) by (simp_all add: kept_def)
  from False obtain p where "get_rec db h = Some p" by auto
  from soundD(1) [OF i(1) this] obtain r0 where r0: "live_rec db h r0" "h \<noteq> []" "sn_session_id r0 \<noteq> []" by blast
  with assms(2) have e: "sn_session_id r0 = sn_session_id r" by (simp add: same_session_def)
  with soundD(4) [OF i(1) r0(1)] have "live_rec db h' r' \<Longrightarrow> h' \<noteq> h \<Longrightarrow> sn_session_id r' \<noteq> sn_session_id r" for h' r'
    by metis
  from write_sound [OF i r0(2) _ this, where ttl = ttl] r0(3) e False assms(3) show ?thesis
    by (auto simp: touch_script_def kept_def written_def)
qed

lemma rotate_kept:
  assumes "kept idle (db, L)" and "new \<noteq> []" and "same_session db old r"
    and "rotate_script old new r ttl (eff_ms idle r) (rd_ms db) db = (q, db')"
  shows "kept idle (db', written q (sn_session_id r) L)"
proof (cases "get_rec db old = None \<or> ttl \<le> 0")
  case True
  with assms(1,4) show ?thesis by (auto simp: rotate_script_def written_def split: if_splits)
next
  case False
  have i: "sound db" "inventory L idle db" using assms(1) by (simp_all add: kept_def)
  from False obtain p where "get_rec db old = Some p" by auto
  from soundD(1) [OF i(1) this] obtain r0 where r0: "live_rec db old r0" "sn_session_id r0 \<noteq> []" by blast
  with assms(3) have e: "sn_session_id r0 = sn_session_id r" by (simp add: same_session_def)
  have o: "live_rec db h' r' \<Longrightarrow> h' \<noteq> old \<Longrightarrow> sn_session_id r' \<noteq> sn_session_id r" for h' r'
    using soundD(4) [OF i(1) r0(1)] e by metis
  let ?T = "rd_ms db + ttl" let ?R = "(rd_recs db)(new \<mapsto> (Encoded r, ?T), old := None)"
  let ?d = "refresh_index (sn_user_id r) (sn_session_id r) (eff_ms idle r) (rd_ms db)
     (db\<lparr>rd_recs := ?R, rd_locs := (rd_locs db)(sn_session_id r \<mapsto> (new, ?T))\<rparr>)"
  have n: "sn_session_id r \<noteq> []" using r0(2) e by simp
  have "inventory (L - {sn_session_id r}) idle ?d"
  proof (rule inventory_write [OF i(2) _ assms(2) n])
    fix h' r' t
    assume "?R h' = Some (Encoded r', t)" "rd_ms db \<le> t"
    then show "(h' = new \<and> r' = r \<and> t = ?T) \<or> (rd_recs db h' = Some (Encoded r', t) \<and> sn_session_id r' \<noteq> sn_session_id r)"
      using o [of h' r'] by (auto simp: live_rec_iff split: if_splits)
  qed auto
  moreover have "sound ?d"
  proof (rule sound_write [OF i(1) assms(2) n])
    fix h' p
    assume "get_rec (db\<lparr>rd_recs := ?R\<rparr>) h' = Some p"
    then show "(h' = new \<and> p = Encoded r) \<or>
        (get_rec db h' = Some p \<and> (\<forall>r'. p = Encoded r' \<longrightarrow> sn_session_id r' \<noteq> sn_session_id r))"
      using o [of h'] by (auto simp: get_rec_def live_rec_def split: if_splits option.splits)
  qed
  moreover from False assms(4) have "q = Inr 1" "db' = ?d" by (auto simp: rotate_script_def Let_def)
  ultimately show ?thesis by (simp add: kept_def written_def)
qed

lemma inventory_rotate:
  assumes "inventory L idle db" and "new \<noteq> []" and "sn_session_id r \<notin> L \<Longrightarrow> sn_session_id r \<noteq> []"
    and o: "\<And>h' r'. live_rec db h' r' \<Longrightarrow> h' \<noteq> old \<Longrightarrow> sn_session_id r' \<notin> L \<Longrightarrow> sn_session_id r' \<noteq> sn_session_id r"
  shows "inventory L idle (snd (rotate_script old new r ttl (eff_ms idle r) (rd_ms db) db))"
proof (cases "get_rec db old = None \<or> ttl \<le> 0")
  case True
  with assms(1) show ?thesis by (auto simp: rotate_script_def)
next
  case False
  let ?T = "rd_ms db + ttl" let ?R = "(rd_recs db)(new \<mapsto> (Encoded r, ?T), old := None)"
  have "inventory L idle (refresh_index (sn_user_id r) (sn_session_id r) (eff_ms idle r) (rd_ms db)
     (db\<lparr>rd_recs := ?R, rd_locs := (rd_locs db)(sn_session_id r \<mapsto> (new, ?T))\<rparr>))"
  proof (rule inventory_write [OF assms(1) _ assms(2,3)])
    fix h' r' t
    assume "?R h' = Some (Encoded r', t)" "rd_ms db \<le> t" "sn_session_id r' \<notin> L"
    then show "(h' = new \<and> r' = r \<and> t = ?T) \<or> (rd_recs db h' = Some (Encoded r', t) \<and> sn_session_id r' \<noteq> sn_session_id r)"
      using o [of h' r'] by (auto simp: live_rec_iff split: if_splits)
  qed auto
  with False show ?thesis by (auto simp: rotate_script_def Let_def)
qed

lemma healed_carries: "sn_session_id r \<notin> healed m db L \<Longrightarrow> live_rec db h r \<Longrightarrow> sn_session_id r \<noteq> m"
  by (auto simp: healed_def carries_def split: if_splits)

lemma healed_subset: "L \<subseteq> healed m db L"
  by (auto simp: healed_def)

lemma step_kept: "store_step idle x y \<Longrightarrow> kept idle x \<Longrightarrow> kept idle y"
proof (induction rule: store_step.induct)
  case (st_locator db L m)
  then have "sound db" "inventory (healed m db L) idle db"
    using inventory_mono healed_subset by (auto simp: kept_def)
  with sound_locator inventory_del_locator [OF this(2), of m] healed_carries show ?case
    by (fastforce simp: kept_def)
next
  case (st_member db L u m)
  then have "sound db" "inventory (healed m db L) idle db"
    using inventory_mono healed_subset by (auto simp: kept_def)
  with sound_zrem inventory_zrem [OF this(2), of m u] healed_carries show ?case
    by (fastforce simp: kept_def)
next
  case (st_prune k db L u)
  then show ?case using sound_frame [of db "prune_index u k db"] by (simp add: kept_def inventory_prune)
qed (simp_all add: create_kept touch_kept rotate_kept,
     simp_all add: kept_def sound_delete inventory_delete sound_time inventory_time)

definition empty_redis :: "time \<Rightarrow> redis" where
  "empty_redis t = \<lparr>rd_now = t, rd_recs = Map.empty, rd_locs = Map.empty, rd_idx = Map.empty\<rparr>"

lemma empty_kept: "kept idle (empty_redis t, {})"
  by (simp add: kept_def sound_def inventory_def empty_redis_def get_rec_def get_loc_def live_rec_def)

lemma reachable_kept: "(store_step idle)\<^sup>*\<^sup>* (empty_redis t, {}) x \<Longrightarrow> kept idle x"
  by (induction rule: rtranclp_induct) (auto intro: empty_kept step_kept)

lemma reachable_sound: "(store_step idle)\<^sup>*\<^sup>* (empty_redis t, {}) (db, L) \<Longrightarrow> sound db"
  and reachable_inventory: "(store_step idle)\<^sup>*\<^sup>* (empty_redis t, {}) (db, L) \<Longrightarrow> inventory L idle db"
  using reachable_kept [of idle t "(db, L)"] by (simp_all add: kept_def)

lemma touch_repairs:
  assumes "(store_step idle)\<^sup>*\<^sup>* (empty_redis t, {}) (db, L)" and "same_session db h r"
    and "touch_script h r ttl (eff_ms idle r) (rd_ms db) db = (Inr 1, db')"
  shows "get_loc db' (sn_session_id r) = Some h"
    and "lapsed idle db' r \<or> sn_session_id r \<in> set (index_members (sn_user_id r) db')"
proof -
  have s: "store_step idle (db, L) (db', L - {sn_session_id r})"
    using st_touch [OF assms(2,3), of L] by (simp add: written_def)
  have i: "inventory (L - {sn_session_id r}) idle db'" using assms(1) s by (blast intro: reachable_inventory rtranclp.rtrancl_into_rtrancl)
  have l: "live_rec db' h r"
    using assms(3) by (auto simp: touch_script_def write_record_def live_rec_iff split: if_splits)
  from inventory_located [OF i l] inventory_indexed [OF i l]
  show "get_loc db' (sn_session_id r) = Some h"
    "lapsed idle db' r \<or> sn_session_id r \<in> set (index_members (sn_user_id r) db')" by auto
qed

section \<open>Concrete sessions\<close>

definition demo_record :: "string \<Rightarrow> string \<Rightarrow> epoch \<Rightarrow> time \<Rightarrow> session_record" where
  "demo_record sid u e t = \<lparr>sn_version = 1, sn_session_id = sid, sn_user_id = u, sn_client_kind = [],
     sn_provider = ''zitadel'', sn_provider_session_reference = [], sn_provider_session_credential = [],
     sn_created_at = 0, sn_last_seen_at = 0, sn_expires_at = t, sn_authentication_time = 0,
     sn_authentication_methods = [], sn_reauthenticated_until = None, sn_csrf_token_hash = ''c'',
     sn_user_agent_hash = [], sn_device_display = [], sn_client_display = [], sn_ip_address_masked = [],
     sn_remember = False, sn_security_epoch = e\<rparr>"

text \<open>User \<open>u\<close> has a session \<open>s\<close> of generation 1 under token \<open>a\<close> and \<open>k\<close> of generation 2 under \<open>b\<close>.\<close>

definition demo_redis :: redis where
  "demo_redis = \<lparr>rd_now = seconds 1,
     rd_recs = [''a'' \<mapsto> (Encoded (demo_record ''s'' ''u'' 1 (seconds 60)), 60000),
                ''b'' \<mapsto> (Encoded (demo_record ''k'' ''u'' 2 (seconds 60)), 60000)],
     rd_locs = [''s'' \<mapsto> (''a'', 60000), ''k'' \<mapsto> (''b'', 60000)],
     rd_idx = [''u'' \<mapsto> ([(''k'', 60000), (''s'', 60000)], Some 60000)]\<rparr>"

lemma demo_inventory: "inventory {} 0 demo_redis"
  by (auto simp: inventory_def demo_redis_def located_def indexed_def demo_record_def eff_ms_def
      effective_expiry_def unix_milli_def ns_per_ms_def seconds_def split: if_splits)

lemmas demo_eval = demo_redis_def demo_record_def eff_ms_def effective_expiry_def is_expired_def
  unix_milli_def ns_per_ms_def seconds_def rd_ms_def get_rec_def get_loc_def get_idx_def index_members_def
  live_rec_def lapsed_def read_cmd_def write_cmd_def store_get_def resolve_def normalize_stamp_def
  delete_by_token_hash_def delete_script_def best_effort_def zrem_cmd_def del_locator_cmd_def
  heal_locator_def zrem_def Let_def

lemma demo_redis_reached: "(store_step 0)\<^sup>*\<^sup>* (empty_redis (seconds 1), {}) (demo_redis, {})"
proof -
  let ?s = "demo_record ''s'' ''u'' 1 (seconds 60)" and ?k = "demo_record ''k'' ''u'' 2 (seconds 60)"
  let ?e = "empty_redis (seconds 1)" let ?d = "write_record ''a'' ?s 59000 60000 1000 ?e"
  have e: "eff_ms 0 ?s = 60000" "eff_ms 0 ?k = 60000" "rd_ms ?e = 1000"
    by (simp_all add: demo_eval empty_redis_def)
  have ms: "rd_ms ?d = 1000" using e by (simp add: write_record_def)
  have 1: "store_step 0 (?e, {}) (?d, {})"
  proof -
    have "create_script ''a'' ?s 59000 (eff_ms 0 ?s) (rd_ms ?e) ?e = (Inr 1, ?d)" using e by (simp add: create_script_def)
    from st_create [OF _ _ _ this, of "{}"] show ?thesis
      by (simp add: written_def carries_def live_rec_iff demo_record_def empty_redis_def)
  qed
  have 2: "store_step 0 (?d, {}) (demo_redis, {})"
  proof -
    have "write_record ''b'' ?k 59000 60000 1000 ?d = demo_redis"
      by (simp add: write_record_def refresh_index_def zadd_def demo_eval empty_redis_def fun_upd_twist)
    then have "create_script ''b'' ?k 59000 (eff_ms 0 ?k) (rd_ms ?d) ?d = (Inr 1, demo_redis)"
      using e ms by (simp add: create_script_def)
    moreover have "\<not> carries ?d ''k''"
      by (auto simp: carries_def live_rec_iff write_record_def empty_redis_def demo_record_def split: if_splits)
    ultimately show ?thesis using st_create [of "''b''" ?k ?d 59000 0 "Inr 1" demo_redis "{}"]
      by (simp add: written_def demo_record_def)
  qed
  from 1 2 show ?thesis by (meson rtranclp.simps)
qed

section \<open>Properties\<close>

text \<open>Keys determine what they are built from, and the families are disjoint.\<close>

lemma session_keys_disjoint:
  "(record_key p h = record_key p h' \<longleftrightarrow> h = h') \<and> (locator_key p s = locator_key p s' \<longleftrightarrow> s = s')
   \<and> (index_key p u = index_key p u' \<longleftrightarrow> u = u')
   \<and> record_key p h \<noteq> locator_key p s \<and> record_key p h \<noteq> index_key p u \<and> locator_key p s \<noteq> index_key p u"
  by (simp add: key_defs)

text \<open>
  C5.  What a reachable Redis holds of a live session, when creations, refreshes, rotations,
  deletions, index pruning, the unguarded commands of the self-healing and the passing of time
  happen in any order, by clients whose clocks agree with the server's.  For every session: no
  other live record carries its id, a locator of that id leads to no other token, and the next
  refresh leaves it located and, until its effective expiry, indexed.  For a session that no
  self-healing command has hit since it was last written: its locator leads to it, and until its
  effective expiry it is in its user's index.
\<close>

theorem inventory_reachable:
  assumes "(store_step idle)\<^sup>*\<^sup>* (empty_redis t, {}) (db, L)" and "live_rec db h r"
  shows "(\<nexists>h' r'. h' \<noteq> h \<and> live_rec db h' r' \<and> sn_session_id r' = sn_session_id r)
    \<and> (\<forall>h'. get_loc db (sn_session_id r) = Some h' \<longrightarrow> h' = h)
    \<and> (sn_session_id r \<notin> L \<longrightarrow> get_loc db (sn_session_id r) = Some h
        \<and> (lapsed idle db r \<or> sn_session_id r \<in> set (index_members (sn_user_id r) db)))
    \<and> (\<forall>r' ttl db'. sn_session_id r' = sn_session_id r \<longrightarrow>
        touch_script h r' ttl (eff_ms idle r') (rd_ms db) db = (Inr 1, db') \<longrightarrow>
        get_loc db' (sn_session_id r) = Some h
        \<and> (lapsed idle db' r' \<or> sn_session_id r \<in> set (index_members (sn_user_id r') db')))"
proof -
  note k = reachable_sound [OF assms(1)] reachable_inventory [OF assms(1)]
  have "get_loc db' (sn_session_id r) = Some h
      \<and> (lapsed idle db' r' \<or> sn_session_id r \<in> set (index_members (sn_user_id r') db'))"
    if "sn_session_id r' = sn_session_id r" "touch_script h r' ttl (eff_ms idle r') (rd_ms db) db = (Inr 1, db')" for r' ttl db'
  proof -
    have "same_session db h r'" using assms(2) that(1) by (simp add: same_session_def live_rec_def)
    from touch_repairs [OF assms(1) this that(2)] that(1) show ?thesis by simp
  qed
  note touched = this
  have "\<nexists>h' r'. h' \<noteq> h \<and> live_rec db h' r' \<and> sn_session_id r' = sn_session_id r"
    using soundD(4) [OF k(1) assms(2)] by metis
  moreover have "\<forall>h'. get_loc db (sn_session_id r) = Some h' \<longrightarrow> h' = h" using soundD(3) [OF k(1) assms(2)] by blast
  moreover have "sn_session_id r \<notin> L \<longrightarrow> get_loc db (sn_session_id r) = Some h
      \<and> (lapsed idle db r \<or> sn_session_id r \<in> set (index_members (sn_user_id r) db))"
    using inventory_located [OF k(2) assms(2)] inventory_indexed [OF k(2) assms(2)] by blast
  ultimately show ?thesis using touched by (intro conjI) (assumption | blast)+
qed

theorem inventory_reachable_witness:
  "get_loc demo_redis ''s'' = Some ''a'' \<and> ''s'' \<in> set (index_members ''u'' demo_redis)"
proof -
  have "live_rec demo_redis ''a'' (demo_record ''s'' ''u'' 1 (seconds 60))"
    and "\<not> lapsed 0 demo_redis (demo_record ''s'' ''u'' 1 (seconds 60))" by (simp_all add: demo_eval)
  with inventory_reachable [OF demo_redis_reached, of "''a''" "demo_record ''s'' ''u'' 1 (seconds 60)",
      THEN conjunct2, THEN conjunct2, THEN conjunct1]
  show ?thesis by (simp add: demo_record_def)
qed




text \<open>
  The generation-scoped cleanup behind a password change is complete in the same sense:
  when \<open>RevokeSessionsBeforeEpoch\<close> ends without an error, every live session of the user that
  is still stamped below the new epoch has passed its effective expiry, unless a self-healing
  command hit it before.
\<close>

theorem revoke_before_epoch_complete:
  assumes "store_revoke_sessions_before_epoch u new_epoch now idle c = ((victims, None), c')"
    and "inventory L idle (fst c)" and "calm_env L idle (snd c)" and "now \<le> rd_now (fst c)"
    and "live_rec (fst c') h r" and "sn_user_id r = u" and "stamp r < new_epoch" and "sn_session_id r \<notin> L"
  shows "lapsed idle (fst c') r"
  using bulk_revocation_complete [where spare_id = "\<lambda>_. False" and Q = "\<lambda>e. e \<ge> new_epoch" and h = h and r = r,
      OF assms(1) [unfolded store_revoke_sessions_before_epoch_def] assms(2-6)] assms(7,8)
  by simp

lemma demo_revoke_epoch:
  "store_revoke_sessions_before_epoch ''u'' 2 (seconds 1) 0 (demo_redis, [(NoFault, id)])
     = (([demo_record ''s'' ''u'' 1 (seconds 60)], None),
        (snd (delete_script ''a'' demo_redis), []))"
  by (simp add: store_revoke_sessions_before_epoch_def demo_eval)

theorem revoke_before_epoch_complete_witness:
  "\<not> live_rec (snd (delete_script ''a'' demo_redis)) ''a'' (demo_record ''s'' ''u'' 1 (seconds 60))
   \<and> fst (store_revoke_sessions_before_epoch ''u'' 2 (seconds 1) 0 (demo_redis, [(NoFault, id)]))
      = ([demo_record ''s'' ''u'' 1 (seconds 60)], None)"
proof -
  have "calm_env {} 0 [(NoFault, id)]" by (auto simp: calm_env_def calm_refl)
  then have "live_rec (snd (delete_script ''a'' demo_redis)) ''a'' (demo_record ''s'' ''u'' 1 (seconds 60))
      \<Longrightarrow> lapsed 0 (snd (delete_script ''a'' demo_redis)) (demo_record ''s'' ''u'' 1 (seconds 60))"
    using revoke_before_epoch_complete [OF demo_revoke_epoch, of "{}" "''a''" "demo_record ''s'' ''u'' 1 (seconds 60)"]
      demo_inventory by (simp add: demo_redis_def demo_record_def stamp_def normalize_stamp_def)
  moreover have "\<not> lapsed 0 (snd (delete_script ''a'' demo_redis)) (demo_record ''s'' ''u'' 1 (seconds 60))"
    by (simp add: demo_eval)
  ultimately show ?thesis using demo_revoke_epoch by auto
qed

lemma bulk_spare:
  assumes "quiet_env (snd c)" and "live_rec (fst c) h r"
  shows "(sn_session_id r \<noteq> cur \<and> sn_user_id r = u)
      \<or> live_rec (fst (snd (store_revoke_all_other_sessions u cur now idle c))) h r"
    and "(stamp r < new_epoch \<or> is_expired r now idle) \<and> sn_user_id r = u
      \<or> live_rec (fst (snd (store_revoke_sessions_before_epoch u new_epoch now idle c))) h r"
proof -
  obtain q c1 where q: "rcall ErrSessInfra (read_cmd (index_members u)) c = (q, c1)"
    by (cases "rcall ErrSessInfra (read_cmd (index_members u)) c") blast
  from read_same_recs [OF q assms(1)] assms(2) have c1: "quiet_env (snd c1)" "live_rec (fst c1) h r"
    using same_recs_live by blast+
  have loop: "live_rec (fst (snd (revoke_loop f g u now idle ms vs c1))) h r"
    if "f (sn_session_id r) \<or> sn_user_id r \<noteq> u \<or> (g (normalize_stamp r) \<and> \<not> is_expired r now idle)" for f g ms vs
    using revoke_loop_spares [where spare_id = f and spare_rec = g, OF _ c1 that] by (metis prod.collapse)
  show "(sn_session_id r \<noteq> cur \<and> sn_user_id r = u)
      \<or> live_rec (fst (snd (store_revoke_all_other_sessions u cur now idle c))) h r"
    using q c1(2) loop [of "\<lambda>m. m = cur" "\<lambda>_. False"]
    by (auto simp: store_revoke_all_other_sessions_def split: sum.splits)
  show "(stamp r < new_epoch \<or> is_expired r now idle) \<and> sn_user_id r = u
      \<or> live_rec (fst (snd (store_revoke_sessions_before_epoch u new_epoch now idle c))) h r"
  proof (cases "(stamp r < new_epoch \<or> is_expired r now idle) \<and> sn_user_id r = u")
    case False
    then have "sn_user_id r \<noteq> u \<or> (new_epoch \<le> sn_security_epoch (normalize_stamp r) \<and> \<not> is_expired r now idle)"
      by (auto simp: stamp_def)
    then have "live_rec (fst (snd (revoke_loop (\<lambda>m. False) (\<lambda>r. new_epoch \<le> sn_security_epoch r) u now idle ms vs c1))) h r"
      for ms vs by (intro loop) auto
    with q c1(2) show ?thesis
      by (auto simp: store_revoke_sessions_before_epoch_def split: sum.splits)
  qed blast
qed

text \<open>
  Neither bulk revocation touches what it must not, whatever faults occur and whether or
  not it succeeds: the current session survives \<open>RevokeAllOtherSessions\<close>, a live session already
  stamped with the new epoch survives \<open>RevokeSessionsBeforeEpoch\<close>, and other users' sessions
  survive both.
\<close>

theorem bulk_revocations_spare:
  assumes "quiet_env (snd c)" and "live_rec (fst c) h r"
  shows "(sn_session_id r = cur \<or> sn_user_id r \<noteq> u
      \<longrightarrow> live_rec (fst (snd (store_revoke_all_other_sessions u cur now idle c))) h r)
    \<and> ((new_epoch \<le> stamp r \<and> \<not> is_expired r now idle) \<or> sn_user_id r \<noteq> u
      \<longrightarrow> live_rec (fst (snd (store_revoke_sessions_before_epoch u new_epoch now idle c))) h r)"
  using bulk_spare(1) [OF assms, of cur u now idle] bulk_spare(2) [OF assms, of new_epoch now idle u] by auto

theorem bulk_revocations_spare_witness:
  "live_rec (fst (snd (store_revoke_all_other_sessions ''u'' ''k'' (seconds 1) 0
      (demo_redis, [(NoFault, id), (FaultAfter, id)])))) ''b'' (demo_record ''k'' ''u'' 2 (seconds 60))"
proof -
  have "live_rec demo_redis ''b'' (demo_record ''k'' ''u'' 2 (seconds 60))"
    by (simp add: demo_eval)
  from bulk_revocations_spare [of "(demo_redis, [(NoFault, id), (FaultAfter, id)])" "''b''" _ "''k''" "''u''", simplified, OF _ this]
  show ?thesis by (simp add: quiet_env_def demo_record_def)
qed

text \<open>
  Refreshing or rotating never resurrects a session: when the record is gone by the time
  the script runs, \<open>Touch\<close> and \<open>Rotate\<close> write nothing and report an error, under every schedule of
  faults.
\<close>

theorem vanished_session_not_resurrected:
  assumes "quiet_env (snd c)" and "get_rec (fst c) old = None"
  shows "fst (snd (store_touch old r ttl idle tnow c)) = fst c
    \<and> fst (store_touch old r ttl idle tnow c) \<noteq> Inr ()
    \<and> fst (snd (store_rotate old new r ttl idle tnow c)) = fst c
    \<and> fst (store_rotate old new r ttl idle tnow c) \<noteq> Inr ()"
proof -
  define f where "f = touch_script old r (dur_millis ttl) (unix_milli (effective_expiry r idle)) (unix_milli tnow)"
  define g where "g = rotate_script old new r (dur_millis ttl) (unix_milli (effective_expiry r idle)) (unix_milli tnow)"
  have fg: "f (fst c) = (Inr 0, fst c)" "g (fst c) = (Inr 0, fst c)"
    using assms(2) by (simp_all add: f_def g_def touch_script_def rotate_script_def)
  have st: "fst c' = fst c \<and> (\<forall>n. res = Inr n \<longrightarrow> n = 0)"
    if "rcall ErrSessInfra k c = (res, c')" "k (fst c) = (Inr 0, fst c)"
    for res :: "session_error + int" and c' k
    using rcall_quiet [OF that(1) assms(1)] that(2) by auto
  obtain r1 c1 where 1: "rcall ErrSessInfra f c = (r1, c1)" by (cases "rcall ErrSessInfra f c") blast
  obtain r2 c2 where 2: "rcall ErrSessInfra g c = (r2, c2)" by (cases "rcall ErrSessInfra g c") blast
  from 1 2 st [OF 1 fg(1)] st [OF 2 fg(2)] show ?thesis
    by (auto simp: store_touch_def store_rotate_def f_def [symmetric] g_def [symmetric]
        split: option.splits sum.splits)
qed

theorem vanished_session_not_resurrected_witness:
  "fst (store_rotate ''a'' ''n'' (demo_record ''s'' ''u'' 2 (seconds 60)) (seconds 59) 0 (seconds 1)
      (snd (delete_script ''a'' demo_redis), [(FaultAfter, id)])) \<noteq> Inr ()"
proof -
  have "get_rec (snd (delete_script ''a'' demo_redis)) ''a'' = None"
    by (simp add: demo_eval)
  then show ?thesis
    using vanished_session_not_resurrected [of "(snd (delete_script ''a'' demo_redis), [(FaultAfter, id)])" "''a''"]
    by (simp add: quiet_env_def)
qed

section \<open>The healing race\<close>

lemma revoke_loop_other:
  "m \<notin> set ms \<Longrightarrow> revoke_loop f g u now idle ms vs c = revoke_loop (\<lambda>x. f x \<or> x = m) g u now idle ms vs c"
proof (induction ms arbitrary: vs c)
  case (Cons x xs)
  then show ?case by (auto split: sum.split prod.split)
qed simp

text \<open>Without faults a bulk revocation of a sound store reports success.\<close>

lemma store_get_fault_free:
  assumes "sound db" and "h \<noteq> []"
  shows "(\<exists>r. store_get h (db, []) = (Inr r, (db, []))) \<or> store_get h (db, []) = (Inl ErrSessionNotFound, (db, []))"
  using assms(2) soundD(1) [OF assms(1), of h]
  by (cases "get_rec db h") (auto simp: store_get_def read_cmd_def)

lemma resolve_fault_free:
  assumes "sound db"
  obtains db' where "sound db'" "resolve u m (db, []) = (Inl ErrSessionNotFound, (db', []))"
  | h r where "resolve u m (db, []) = (Inr (h, r), (db, []))"
proof (cases "m = [] \<or> get_loc db m = None")
  case True
  then have "resolve u m (db, []) = (Inl ErrSessionNotFound, (db, []))" by (auto simp: resolve_def read_cmd_def)
  with assms that(1) show ?thesis by blast
next
  case False
  then obtain h where h: "m \<noteq> []" "get_loc db m = Some h" by auto
  let ?d = "zrem u m (db\<lparr>rd_locs := (rd_locs db)(m := None)\<rparr>)"
  have d: "sound ?d" using assms by (intro sound_zrem sound_locator)
  from store_get_fault_free [OF assms soundD(5) [OF assms h(2)]] show ?thesis
  proof
    assume "\<exists>r. store_get h (db, []) = (Inr r, (db, []))"
    then obtain r where "store_get h (db, []) = (Inr r, (db, []))" by blast
    with h assms that show ?thesis
      by (cases "sn_user_id r \<noteq> u \<or> sn_session_id r \<noteq> m") (auto simp: resolve_def read_cmd_def)
  next
    assume "store_get h (db, []) = (Inl ErrSessionNotFound, (db, []))"
    with h have "resolve u m (db, []) = (Inl ErrSessionNotFound, (?d, []))"
      by (simp add: resolve_def read_cmd_def heal_locator_def best_effort_def del_locator_cmd_def zrem_cmd_def write_cmd_def)
    with d that(1) show ?thesis by blast
  qed
qed

lemma delete_fault_free:
  assumes "sound db"
  shows "delete_by_token_hash h (db, []) = (Inr (), (snd (delete_script h db), []))"
  using soundD(1) [OF assms, of h]
  by (cases "get_rec db h") (auto simp: delete_by_token_hash_def delete_script_def)

lemma revoke_loop_fault_free:
  "sound db \<Longrightarrow> \<exists>victims c'. revoke_loop f g u now idle ms vs (db, []) = ((victims, None), c')"
proof (induction ms arbitrary: vs db)
  case (Cons m ms)
  show ?case
  proof (cases "f m")
    case False
    from Cons.prems show ?thesis
    proof (rule resolve_fault_free [of db u m])
      fix db' assume d: "sound db'" "resolve u m (db, []) = (Inl ErrSessionNotFound, (db', []))"
      have "best_effort (zrem_cmd u m) (db', []) = (zrem u m db', [])"
        by (simp add: best_effort_def zrem_cmd_def write_cmd_def)
      with False d Cons.IH [OF sound_zrem [OF d(1)]] show ?thesis by simp
    next
      fix h r assume r: "resolve u m (db, []) = (Inr (h, r), (db, []))"
      note d = delete_fault_free [OF Cons.prems, of h]
      from r False d Cons.IH [OF sound_delete [OF Cons.prems]] Cons.IH [OF Cons.prems] show ?thesis
        by (simp add: best_effort_def)
    qed
  qed (use Cons in simp)
qed simp

lemma missed_session:
  assumes "sound db" and "live_rec db h r" and "sn_session_id r \<notin> set (index_members u db)"
  shows "\<exists>victims c'. store_revoke_all_other_sessions u cur now idle (db, []) = ((victims, None), c') \<and> live_rec (fst c') h r"
proof -
  let ?f = "\<lambda>m. m = cur" let ?g = "\<lambda>x. x = cur \<or> x = sn_session_id r" let ?ms = "index_members u db"
  obtain victims c' where c': "revoke_loop ?g (\<lambda>r. False) u now idle ?ms [] (db, []) = ((victims, None), c')"
    using revoke_loop_fault_free [OF assms(1)] by blast
  have "quiet_env (snd (db, []))" by (simp add: quiet_env_def)
  from revoke_loop_spares [OF c' this] assms(2) have "live_rec (fst c') h r" by simp
  moreover have "store_revoke_all_other_sessions u cur now idle (db, []) = ((victims, None), c')"
    using c' revoke_loop_other [OF assms(3), of ?f] by (simp add: store_revoke_all_other_sessions_def read_cmd_def)
  ultimately show ?thesis by blast
qed

lemma zrem_members: "m \<notin> set (index_members u (zrem u m db))"
  by (auto simp: index_members_def get_idx_def zrem_def Let_def split: option.splits if_splits)

lemma rotated_away:
  assumes "rotate_script old new r ttl s n db = (Inr 1, d)" and "new \<noteq> old"
  shows "get_rec d old = None" and "get_rec d new = Some (Encoded r)"
  using assms by (auto simp: rotate_script_def Let_def get_rec_def split: if_splits)

text \<open>
  C8.  The self-healing of a lookup by session id is not atomic, and in every reachable state one
  rotation between its commands orphans a live session: the lookup reads the locator, the
  session rotates to a new token, the lookup finds no record under the old token, deletes the new
  locator and the index entry and answers not-found.  The rotated session stays live, no locator
  and no index entry leads to it, and a following \<open>RevokeAllOtherSessions\<close> without any fault or
  interference reports success and leaves it live.
\<close>

theorem healing_race_orphans_session:
  assumes "(store_step idle)\<^sup>*\<^sup>* (empty_redis t, {}) (db, L)"
    and "live_rec db old r0" and "get_loc db (sn_session_id r0) = Some old"
    and "sn_session_id r = sn_session_id r0" and "sn_user_id r = u"
    and "rotate_script old new r ttl (eff_ms idle r) (rd_ms db) db = (Inr 1, d)" and "new \<noteq> []" and "new \<noteq> old"
    and "store_get_by_session_id u (sn_session_id r) now idle (db, [(NoFault, id), (NoFault, \<lambda>db'. d)]) = (res, (db', es))"
  shows "res = Inl ErrSessionNotFound \<and> live_rec db' new r
    \<and> get_loc db' (sn_session_id r) = None \<and> sn_session_id r \<notin> set (index_members u db')
    \<and> (\<exists>victims c'. store_revoke_all_other_sessions u cur now' idle (db', []) = ((victims, None), c')
        \<and> live_rec (fst c') new r)"
proof -
  let ?m = "sn_session_id r" let ?h = "zrem u ?m (d\<lparr>rd_locs := (rd_locs d)(?m := None)\<rparr>)"
  note k = reachable_kept [OF assms(1)]
  have "same_session db old r" using assms(2,4) by (simp add: same_session_def live_rec_def)
  from rotate_kept [OF k assms(7) this assms(6)] have d: "sound d" by (simp add: kept_def)
  then have h: "sound ?h" by (intro sound_zrem sound_locator)
  have ne: "old \<noteq> []" "?m \<noteq> []" using soundD(2) [OF _ assms(2)] k assms(4) by (auto simp: kept_def)
  note away = rotated_away [OF assms(6,8)]
  have "store_get_by_session_id u ?m now idle (db, [(NoFault, id), (NoFault, \<lambda>db'. d)]) = (Inl ErrSessionNotFound, (?h, []))"
    using ne away(1) assms(3,4)
    by (simp add: store_get_by_session_id_def resolve_def store_get_def read_cmd_def heal_locator_def best_effort_def
        del_locator_cmd_def zrem_cmd_def write_cmd_def)
  with assms(9) have e: "res = Inl ErrSessionNotFound" "db' = ?h" by simp_all
  have "get_rec ?h new = get_rec d new" by (rule get_frame) simp_all
  with away(2) have l: "live_rec ?h new r" by (simp add: live_rec_def)
  have "get_loc ?h ?m = None" by (simp add: get_loc_def)
  with e l zrem_members missed_session [OF h l zrem_members, of cur now' idle] show ?thesis by simp
qed

definition raced_redis :: redis where
  "raced_redis = fst (snd (store_get_by_session_id ''u'' ''s'' (seconds 1) 0
     (demo_redis, [(NoFault, id),
        (NoFault, \<lambda>db. snd (rotate_script ''a'' ''n'' (demo_record ''s'' ''u'' 2 (seconds 60)) 59000 60000 1000 demo_redis))])))"

theorem healing_race_orphans_session_witness:
  "\<exists>victims c'. store_revoke_all_other_sessions ''u'' ''k'' (seconds 1) 0 (raced_redis, []) = ((victims, None), c')
     \<and> live_rec (fst c') ''n'' (demo_record ''s'' ''u'' 2 (seconds 60))"
proof -
  let ?s = "demo_record ''s'' ''u'' 2 (seconds 60)" let ?d = "snd (rotate_script ''a'' ''n'' ?s 59000 60000 1000 demo_redis)"
  have "eff_ms 0 ?s = 60000" "rd_ms demo_redis = 1000" by (simp_all add: demo_eval)
  then have rot: "rotate_script ''a'' ''n'' ?s 59000 (eff_ms 0 ?s) (rd_ms demo_redis) demo_redis = (Inr 1, ?d)"
    by (simp add: rotate_script_def demo_redis_def get_rec_def rd_ms_def Let_def)
  obtain res db' es where g: "store_get_by_session_id ''u'' ''s'' (seconds 1) 0
      (demo_redis, [(NoFault, id), (NoFault, \<lambda>db. ?d)]) = (res, (db', es))" by (metis prod.collapse)
  have "live_rec demo_redis ''a'' (demo_record ''s'' ''u'' 1 (seconds 60))" "get_loc demo_redis ''s'' = Some ''a''"
    "sn_session_id ?s = ''s''" "sn_user_id ?s = ''u''" by (simp_all add: demo_eval)
  with healing_race_orphans_session [OF demo_redis_reached, of "''a''" "demo_record ''s'' ''u'' 1 (seconds 60)" ?s "''u''" "''n''" 59000 ?d
      "seconds 1" res db' es "''k''" "seconds 1"] rot g
  have "\<exists>victims c'. store_revoke_all_other_sessions ''u'' ''k'' (seconds 1) 0 (db', []) = ((victims, None), c')
     \<and> live_rec (fst c') ''n'' ?s" by (simp add: demo_record_def)
  moreover have "raced_redis = db'" using g by (simp add: raced_redis_def)
  ultimately show ?thesis by simp
qed

text \<open>
  The time-to-live of a user's index is compared with the caller's clock, so a caller whose
  clock lags the server's by 10 ms shortens it below the furthest effective expiry: a session
  that still has 3 ms to live is then missed by a fault-free bulk revocation that reports success.
\<close>

definition long_redis :: redis where
  "long_redis = snd (create_script ''a'' (demo_record ''s'' ''u'' 1 (seconds 5)) 4000 5000 1000 (empty_redis (seconds 1)))"

definition lagged_redis :: redis where
  "lagged_redis = (fst (snd (store_create ''b'' (demo_record ''k'' ''u'' 1 (4995 * ns_per_ms)) (3995 * ns_per_ms) 0
      (990 * ns_per_ms) (long_redis, []))))\<lparr>rd_now := 4997 * ns_per_ms\<rparr>"

lemma lagged_redis_eval:
  "lagged_redis = \<lparr>rd_now = 4997000000,
     rd_recs = [''a'' \<mapsto> (Encoded (demo_record ''s'' ''u'' 1 (seconds 5)), 5000),
                ''b'' \<mapsto> (Encoded (demo_record ''k'' ''u'' 1 4995000000), 4995)],
     rd_locs = [''s'' \<mapsto> (''a'', 5000), ''k'' \<mapsto> (''b'', 4995)],
     rd_idx = [''u'' \<mapsto> ([(''k'', 4995), (''s'', 5000)], Some 4995)]\<rparr>"
  by (simp add: lagged_redis_def long_redis_def store_create_def create_script_def write_record_def
      refresh_index_def zadd_def demo_eval empty_redis_def require_stamped_def dur_millis_def)

theorem lagging_clock_shortens_index:
  "inventory {} 0 long_redis
   \<and> fst (store_revoke_all_other_sessions ''u'' [] (4997 * ns_per_ms) 0 (lagged_redis, [])) = ([], None)
   \<and> live_rec (fst (snd (store_revoke_all_other_sessions ''u'' [] (4997 * ns_per_ms) 0 (lagged_redis, []))))
        ''a'' (demo_record ''s'' ''u'' 1 (seconds 5))
   \<and> \<not> lapsed 0 lagged_redis (demo_record ''s'' ''u'' 1 (seconds 5))"
proof -
  have "inventory {} 0 long_redis"
    by (auto simp: long_redis_def create_script_def write_record_def refresh_index_def zadd_def inventory_def
        located_def indexed_def demo_eval empty_redis_def split: if_splits)
  then show ?thesis
    by (simp add: store_revoke_all_other_sessions_def lagged_redis_eval demo_eval)
qed

text \<open>
  \<open>ListUserSessions\<close> only ever returns the caller's own unexpired sessions, in order of
  creation, under every schedule of faults and whatever other clients do meanwhile.
\<close>

lemma list_loop_own:
  "list_loop u now idle xs acc c = (rs, c') \<Longrightarrow>
   list_all (\<lambda>r. sn_user_id r = u \<and> \<not> is_expired r now idle) acc \<Longrightarrow>
   list_all (\<lambda>r. sn_user_id r = u \<and> \<not> is_expired r now idle) rs"
proof (induction xs arbitrary: acc c)
  case Nil
  then show ?case by simp
next
  case (Cons x xs)
  obtain m h p where x: "x = (m, h, p)" by (cases x)
  from Cons.prems(2) have "sn_user_id r = u \<Longrightarrow> \<not> is_expired r now idle \<Longrightarrow>
      list_all (\<lambda>r. sn_user_id r = u \<and> \<not> is_expired r now idle) (acc @ [r])" for r by simp
  then show ?case
    using Cons.prems Cons.IH by (auto simp: x Let_def split: option.splits if_splits)
qed

lemma store_list_own:
  assumes "fst (store_list_user_sessions u now idle c) = Inr rs"
  shows "sorted (map (\<lambda>r. (sn_created_at r, sn_session_id r)) rs)
    \<and> list_all (\<lambda>r. sn_user_id r = u \<and> \<not> is_expired r now idle) rs"
proof -
  have "list_all P (sort_key f xs) = list_all P xs" for P :: "session_record \<Rightarrow> bool" and f :: "session_record \<Rightarrow> int \<times> string" and xs
    by (simp add: list_all_iff)
  then show ?thesis
    using assms list_loop_own [where acc = "[]" and u = u and now = now and idle = idle]
    by (fastforce simp: store_list_user_sessions_def split: prod.splits sum.splits if_splits)
qed

theorem listing_returns_own_live_sessions:
  assumes "fst (store_list_user_sessions u now idle c) = Inr rs"
  shows "sorted (map (\<lambda>r. (sn_created_at r, sn_session_id r)) rs)
    \<and> list_all (\<lambda>r. sn_user_id r = u \<and> \<not> is_expired r now idle) rs"
  using assms by (rule store_list_own)

theorem listing_returns_own_live_sessions_witness:
  "\<exists>rs. fst (store_list_user_sessions ''u'' (seconds 1) 0 (demo_redis, [])) = Inr rs \<and> length rs = 2
     \<and> sorted (map (\<lambda>r. (sn_created_at r, sn_session_id r)) rs)"
proof -
  obtain rs where rs: "fst (store_list_user_sessions ''u'' (seconds 1) 0 (demo_redis, [])) = Inr rs" "length rs = 2"
    by (simp add: store_list_user_sessions_def prune_index_def decode_payload_def demo_eval)
  with listing_returns_own_live_sessions [OF rs(1)] show ?thesis by blast
qed

end
