(* ===== verification/SessionService.thy ===== *)
theory SessionService
  imports SessionInventory
begin

text \<open>
  The session service of \<open>internal/session/store.go\<close>: minting, validating, touching, rotating and
  revoking sessions over the interface \<open>Store\<close>.  The service's collaborators (token hash,
  encryptor, epoch stamper, provider revoker, auditor) are the fields of its environment, the
  readings of its clock and of the random source are arguments.  What the service needs of a
  store is the locale \<open>session_store\<close>; the Redis store provides it.
\<close>

section \<open>The interfaces\<close>

record 'w session_store_ops =
  ss_create :: "token_hash \<Rightarrow> session_record \<Rightarrow> duration \<Rightarrow> duration \<Rightarrow> 'w \<Rightarrow> (session_error + unit) \<times> 'w"
  ss_get :: "token_hash \<Rightarrow> 'w \<Rightarrow> (session_error + session_record) \<times> 'w"
  ss_delete :: "token_hash \<Rightarrow> 'w \<Rightarrow> (session_error + unit) \<times> 'w"
  ss_touch :: "token_hash \<Rightarrow> session_record \<Rightarrow> duration \<Rightarrow> duration \<Rightarrow> 'w \<Rightarrow> (session_error + unit) \<times> 'w"
  ss_rotate :: "token_hash \<Rightarrow> token_hash \<Rightarrow> session_record \<Rightarrow> duration \<Rightarrow> duration \<Rightarrow> 'w
     \<Rightarrow> (session_error + unit) \<times> 'w"
  ss_get_by_session_id :: "user_id \<Rightarrow> session_id \<Rightarrow> time \<Rightarrow> duration \<Rightarrow> 'w
     \<Rightarrow> (session_error + session_record) \<times> 'w"
  ss_delete_by_session_id :: "user_id \<Rightarrow> session_id \<Rightarrow> time \<Rightarrow> duration \<Rightarrow> 'w
     \<Rightarrow> (session_error + unit) \<times> 'w"
  ss_list_user_sessions :: "user_id \<Rightarrow> time \<Rightarrow> duration \<Rightarrow> 'w \<Rightarrow> (session_error + session_record list) \<times> 'w"
  ss_revoke_all_other :: "user_id \<Rightarrow> session_id \<Rightarrow> time \<Rightarrow> duration \<Rightarrow> 'w
     \<Rightarrow> (session_record list \<times> session_error option) \<times> 'w"
  ss_revoke_before_epoch :: "user_id \<Rightarrow> epoch \<Rightarrow> time \<Rightarrow> duration \<Rightarrow> 'w
     \<Rightarrow> (session_record list \<times> session_error option) \<times> 'w"

datatype session_event =
  EventSessionRevokedOther | EventSessionsRevokedOthers

datatype audit_result = AuditOutcomeSuccess | AuditOutcomeDenied

record session_audit_event =
  ae_event_type :: session_event
  ae_actor_user_id :: user_id
  ae_session_id :: session_id
  ae_operation :: string
  ae_result :: audit_result
  ae_failure_class :: string
  ae_affected_count :: nat
  ae_provider_failure_class :: string

record 'w session_env =
  se_hash :: "string \<Rightarrow> token_hash"
  se_encryptor :: "encryptor option"
  se_codec :: wire_codec
  se_ttl :: duration
  se_remember_ttl :: duration
  se_idle_ttl :: duration
  se_touch_interval :: duration
  se_epoch_stamper :: "(user_id \<Rightarrow> 'w \<Rightarrow> (sec_error + epoch) \<times> 'w) option"
  se_revoker :: "(string \<Rightarrow> 'w \<Rightarrow> (session_error + unit) \<times> 'w) option"
  se_auditor :: "(session_audit_event \<Rightarrow> 'w \<Rightarrow> bool \<times> 'w) option"
  se_classify :: "session_error \<Rightarrow> string" \<comment> \<open>\<open>observability.ClassifyError\<close>\<close>
  se_mask_ip :: "string \<Rightarrow> string" \<comment> \<open>\<open>MaskIP\<close> over the resolver of \<open>net\<close>\<close>

section \<open>Creation\<close>

record create_input =
  ci_user_id :: user_id
  ci_client_kind :: string
  ci_provider :: string
  ci_provider_session_reference :: string
  ci_provider_session_token :: string
  ci_authentication_methods :: "string list"
  ci_remember :: bool
  ci_user_agent :: string
  ci_client_ip :: string

record create_result =
  cr_session_token :: string
  cr_csrf_token :: string
  cr_token_hash :: token_hash
  cr_record :: session_record

text \<open>A read of \<open>crypto/rand\<close> yields a token or fails; creation draws three.\<close>

type_synonym random = "string option"

definition create_ttl :: "'w session_env \<Rightarrow> create_input \<Rightarrow> session_error + duration" where
  "create_ttl E i =
     (if ci_client_kind i = [] then Inr (if ci_remember i then se_remember_ttl E else se_ttl E)
      else if ci_client_kind i = ClientKindMiniProgram
      then (if ci_remember i then Inl (ErrSessRefused ''mini-program sessions cannot be remembered'')
            else Inr MiniProgramSessionTTL)
      else Inl (ErrSessRefused ''unsupported client kind''))"

definition seal_input :: "'w session_env \<Rightarrow> create_input \<Rightarrow> session_error + string" where
  "seal_input E i =
     (if ci_provider_session_token i = [] then Inr []
      else if ci_provider_session_reference i = []
      then Inl (ErrSessRefused ''session token without a session reference'')
      else seal_credential (se_encryptor E) (se_codec E)
        \<lparr>pc_version = 2, pc_provider = ci_provider i, pc_session_id = ci_provider_session_reference i,
         pc_session_token = ci_provider_session_token i\<rparr>)"

definition stamp_epoch :: "'w session_env \<Rightarrow> user_id \<Rightarrow> 'w \<Rightarrow> (session_error + epoch) \<times> 'w" where
  "stamp_epoch E u w =
     (case se_epoch_stamper E of
        None \<Rightarrow> (Inr 1, w)
      | Some f \<Rightarrow> (case f u w of (Inl _, w') \<Rightarrow> (Inl ErrSessInfra, w') | (Inr e, w') \<Rightarrow> (Inr e, w')))"

definition new_record ::
  "'w session_env \<Rightarrow> create_input \<Rightarrow> session_id \<Rightarrow> string \<Rightarrow> time \<Rightarrow> duration \<Rightarrow> string \<Rightarrow> string \<Rightarrow> epoch
     \<Rightarrow> session_record" where
  "new_record E i sid csrf now ttl ref sealed e =
     \<lparr>sn_version = 1, sn_session_id = sid, sn_user_id = ci_user_id i, sn_client_kind = ci_client_kind i,
      sn_provider = ci_provider i, sn_provider_session_reference = ref, sn_provider_session_credential = sealed,
      sn_created_at = now, sn_last_seen_at = now, sn_expires_at = now + ttl, sn_authentication_time = now,
      sn_authentication_methods = ci_authentication_methods i, sn_reauthenticated_until = None,
      sn_csrf_token_hash = se_hash E csrf, sn_user_agent_hash = se_hash E (ci_user_agent i),
      sn_device_display = clamp_display (normalize_os (ci_user_agent i)),
      sn_client_display = clamp_display (normalize_browser (ci_user_agent i)),
      sn_ip_address_masked = se_mask_ip E (ci_client_ip i), sn_remember = ci_remember i,
      sn_security_epoch = e\<rparr>"

definition create_session ::
  "'w session_store_ops \<Rightarrow> 'w session_env \<Rightarrow> random \<Rightarrow> random \<Rightarrow> random \<Rightarrow> time \<Rightarrow> create_input \<Rightarrow> 'w
     \<Rightarrow> (session_error + create_result) \<times> 'w" where
  "create_session S E rtoken rcsrf rsid now i w =
     (case (rtoken, rcsrf, rsid) of
        (Some token, Some csrf, Some sid) \<Rightarrow>
          (case create_ttl E i of
             Inl e \<Rightarrow> (Inl e, w)
           | Inr ttl \<Rightarrow>
          (case encrypt_provider_session_reference (se_encryptor E) (ci_provider_session_reference i) of
             Inl e \<Rightarrow> (Inl e, w)
           | Inr ref \<Rightarrow>
          (case seal_input E i of
             Inl e \<Rightarrow> (Inl e, w)
           | Inr sealed \<Rightarrow>
          (case stamp_epoch E (ci_user_id i) w of
             (Inl e, w1) \<Rightarrow> (Inl e, w1)
           | (Inr ep, w1) \<Rightarrow>
               (let r = new_record E i sid csrf now ttl ref sealed ep;
                    h = se_hash E token
                in case ss_create S h r ttl (se_idle_ttl E) w1 of
                     (Inl e, w2) \<Rightarrow> (Inl e, w2)
                   | (Inr _, w2) \<Rightarrow>
                       (Inr \<lparr>cr_session_token = token, cr_csrf_token = csrf, cr_token_hash = h, cr_record = r\<rparr>,
                        w2))))))
      | _ \<Rightarrow> (Inl ErrSessInfra, w))"

section \<open>Validation, touch, logout, rotation\<close>

definition discard :: "('a \<times> 'w) \<Rightarrow> 'w" where
  "discard x = snd x"

definition validate_session ::
  "'w session_store_ops \<Rightarrow> 'w session_env \<Rightarrow> time \<Rightarrow> string \<Rightarrow> 'w
     \<Rightarrow> (session_error + principal \<times> session_record) \<times> 'w" where
  "validate_session S E now token w =
     (if token = [] then (Inl ErrSessionNotFound, w)
      else case ss_get S (se_hash E token) w of
        (Inl e, w1) \<Rightarrow> (Inl e, w1)
      | (Inr r, w1) \<Rightarrow>
          if is_expired r now (se_idle_ttl E)
          then (Inl ErrSessionExpired, discard (ss_delete S (se_hash E token) w1))
          else (Inr (\<lparr>pr_user_id = sn_user_id r, pr_session_id = sn_session_id r,
                      pr_authentication_time = sn_authentication_time r,
                      pr_authentication_methods = sn_authentication_methods r,
                      pr_reauthenticated_until = sn_reauthenticated_until r\<rparr>, r), w1))"

definition touch_session ::
  "'w session_store_ops \<Rightarrow> 'w session_env \<Rightarrow> time \<Rightarrow> string \<Rightarrow> 'w \<Rightarrow> (session_error + unit) \<times> 'w" where
  "touch_session S E now token w =
     (if token = [] then (Inl ErrSessionNotFound, w)
      else case ss_get S (se_hash E token) w of
        (Inl e, w1) \<Rightarrow> (Inl e, w1)
      | (Inr r, w1) \<Rightarrow>
          if \<not> needs_touch r now (se_touch_interval E) then (Inr (), w1)
          else let ttl = sn_expires_at r - now
               in if ttl \<le> 0 then (Inl ErrSessionExpired, discard (ss_delete S (se_hash E token) w1))
                  else ss_touch S (se_hash E token) (r\<lparr>sn_last_seen_at := now\<rparr>) ttl (se_idle_ttl E) w1)"

definition delete_session ::
  "'w session_store_ops \<Rightarrow> 'w session_env \<Rightarrow> string \<Rightarrow> 'w \<Rightarrow> (session_error + unit) \<times> 'w" where
  "delete_session S E token w =
     (if token = [] then (Inr (), w) else ss_delete S (se_hash E token) w)"

record rotate_result =
  rr_session_token :: string
  rr_csrf_token :: string
  rr_token_hash :: token_hash
  rr_record :: session_record
  rr_remaining_ttl :: duration

definition rotate_session ::
  "'w session_store_ops \<Rightarrow> 'w session_env \<Rightarrow> random \<Rightarrow> random \<Rightarrow> time \<Rightarrow> string \<Rightarrow> epoch \<Rightarrow> 'w
     \<Rightarrow> (session_error + rotate_result) \<times> 'w" where
  "rotate_session S E rtoken rcsrf now old_token new_epoch w =
     (if old_token = [] then (Inl ErrSessionNotFound, w)
      else if new_epoch < 1 then (Inl (ErrSessRefused ''rotation requires a security epoch stamp''), w)
      else case ss_get S (se_hash E old_token) w of
        (Inl e, w1) \<Rightarrow> (Inl e, w1)
      | (Inr r, w1) \<Rightarrow>
          if is_expired r now (se_idle_ttl E)
          then (Inl ErrSessionExpired, discard (ss_delete S (se_hash E old_token) w1))
          else (case (rtoken, rcsrf) of
             (Some token, Some csrf) \<Rightarrow>
               (let remaining = sn_expires_at r - now
                in if remaining \<le> 0
                   then (Inl ErrSessionExpired, discard (ss_delete S (se_hash E old_token) w1))
                   else let r' = r\<lparr>sn_last_seen_at := now, sn_csrf_token_hash := se_hash E csrf,
                                   sn_security_epoch := new_epoch\<rparr>
                        in case ss_rotate S (se_hash E old_token) (se_hash E token) r' remaining (se_idle_ttl E) w1 of
                             (Inl e, w2) \<Rightarrow> (Inl e, w2)
                           | (Inr _, w2) \<Rightarrow>
                               (Inr \<lparr>rr_session_token = token, rr_csrf_token = csrf,
                                     rr_token_hash = se_hash E token, rr_record = r',
                                     rr_remaining_ttl = remaining\<rparr>, w2))
           | _ \<Rightarrow> (Inl ErrSessInfra, w1)))"

section \<open>Inventory and revocation\<close>

definition list_user_sessions ::
  "'w session_store_ops \<Rightarrow> 'w session_env \<Rightarrow> time \<Rightarrow> user_id \<Rightarrow> 'w \<Rightarrow> (session_error + session_record list) \<times> 'w" where
  "list_user_sessions S E now u = ss_list_user_sessions S u now (se_idle_ttl E)"

text \<open>The result is the stable failure class, empty when nothing degraded.\<close>

definition revoke_provider_session :: "'w session_env \<Rightarrow> session_record \<Rightarrow> 'w \<Rightarrow> string \<times> 'w" where
  "revoke_provider_session E r w =
     (if sn_provider_session_reference r = [] then ([], w)
      else case se_revoker E of
        None \<Rightarrow> ([], w)
      | Some f \<Rightarrow>
          (case decrypt_provider_session_reference (se_encryptor E) (sn_provider_session_reference r) of
             Inl e \<Rightarrow> (se_classify E e, w)
           | Inr ref \<Rightarrow>
               if ref = [] then ([], w)
               else (case f ref w of
                       (Inl e, w') \<Rightarrow> (se_classify E e, w')
                     | (Inr _, w') \<Rightarrow> ([], w'))))"

fun revoke_providers :: "'w session_env \<Rightarrow> session_record list \<Rightarrow> string \<Rightarrow> 'w \<Rightarrow> string \<times> 'w" where
  "revoke_providers E [] fc w = (fc, w)"
| "revoke_providers E (r # rs) fc w =
     (case revoke_provider_session E r w of
        (f, w') \<Rightarrow> revoke_providers E rs (if f \<noteq> [] \<and> fc = [] then f else fc) w')"

definition record_audit_outcome ::
  "'w session_env \<Rightarrow> session_event \<Rightarrow> user_id \<Rightarrow> session_id \<Rightarrow> string \<Rightarrow> audit_result \<Rightarrow> string \<Rightarrow> nat \<Rightarrow> string
     \<Rightarrow> 'w \<Rightarrow> 'w" where
  "record_audit_outcome E ev u sid operation result failure_class count provider_class w =
     (case se_auditor E of
        None \<Rightarrow> w
      | Some f \<Rightarrow> snd (f \<lparr>ae_event_type = ev, ae_actor_user_id = u, ae_session_id = sid,
           ae_operation = operation, ae_result = result, ae_failure_class = failure_class,
           ae_affected_count = count, ae_provider_failure_class = provider_class\<rparr> w))"

definition record_audit ::
  "'w session_env \<Rightarrow> session_event \<Rightarrow> user_id \<Rightarrow> session_id \<Rightarrow> string \<Rightarrow> string \<Rightarrow> 'w \<Rightarrow> 'w" where
  "record_audit E ev u sid operation failure_class =
     record_audit_outcome E ev u sid operation AuditOutcomeSuccess failure_class 0 []"

text \<open>\<open>now1\<close> and \<open>now2\<close> are the two readings of the clock, for the lookup and for the deletion.\<close>

definition revoke_session ::
  "'w session_store_ops \<Rightarrow> 'w session_env \<Rightarrow> time \<Rightarrow> time \<Rightarrow> user_id \<Rightarrow> session_id \<Rightarrow> session_id \<Rightarrow> 'w
     \<Rightarrow> (session_error + unit) \<times> 'w" where
  "revoke_session S E now1 now2 u current target w =
     (if target = current then (Inl ErrSessionIsCurrent, w)
      else case ss_get_by_session_id S u target now1 (se_idle_ttl E) w of
        (Inl e, w1) \<Rightarrow> (Inl e, w1)
      | (Inr r, w1) \<Rightarrow>
          (case ss_delete_by_session_id S u target now2 (se_idle_ttl E) w1 of
             (Inl e, w2) \<Rightarrow> (Inl e, w2)
           | (Inr _, w2) \<Rightarrow>
               (case revoke_provider_session E r w2 of
                  (fc, w3) \<Rightarrow> (Inr (), record_audit E EventSessionRevokedOther u target ''session.revoke'' fc w3))))"

definition revoke_all_other_sessions ::
  "'w session_store_ops \<Rightarrow> 'w session_env \<Rightarrow> time \<Rightarrow> user_id \<Rightarrow> session_id \<Rightarrow> 'w
     \<Rightarrow> (nat \<times> session_error option) \<times> 'w" where
  "revoke_all_other_sessions S E now u current w =
     (case ss_revoke_all_other S u current now (se_idle_ttl E) w of
        ((victims, err), w1) \<Rightarrow>
          (case revoke_providers E victims [] w1 of
             (fc, w2) \<Rightarrow>
               (case err of
                  Some e \<Rightarrow>
                    ((0, Some e),
                     if length victims > 0
                     then record_audit_outcome E EventSessionsRevokedOthers u current ''session.revoke_all_others''
                            AuditOutcomeDenied (se_classify E e) (length victims) fc w2
                     else w2)
                | None \<Rightarrow>
                    ((length victims, None),
                     record_audit_outcome E EventSessionsRevokedOthers u current ''session.revoke_all_others''
                       AuditOutcomeSuccess fc (length victims) [] w2))))"

definition revoke_user_session_by_admin ::
  "'w session_store_ops \<Rightarrow> 'w session_env \<Rightarrow> time \<Rightarrow> time \<Rightarrow> user_id \<Rightarrow> session_id \<Rightarrow> 'w
     \<Rightarrow> (session_error + string) \<times> 'w" where
  "revoke_user_session_by_admin S E now1 now2 u sid w =
     (if sid = [] then (Inl ErrSessionNotFound, w)
      else case ss_get_by_session_id S u sid now1 (se_idle_ttl E) w of
        (Inl e, w1) \<Rightarrow> (Inl e, w1)
      | (Inr r, w1) \<Rightarrow>
          (case ss_delete_by_session_id S u sid now2 (se_idle_ttl E) w1 of
             (Inl e, w2) \<Rightarrow> (Inl e, w2)
           | (Inr _, w2) \<Rightarrow> (case revoke_provider_session E r w2 of (fc, w3) \<Rightarrow> (Inr fc, w3))))"

definition revoke_all_user_sessions_by_admin ::
  "'w session_store_ops \<Rightarrow> 'w session_env \<Rightarrow> time \<Rightarrow> user_id \<Rightarrow> 'w
     \<Rightarrow> (nat \<times> string \<times> session_error option) \<times> 'w" where
  "revoke_all_user_sessions_by_admin S E now u w =
     (case ss_revoke_all_other S u [] now (se_idle_ttl E) w of
        ((victims, err), w1) \<Rightarrow>
          (case revoke_providers E victims [] w1 of (fc, w2) \<Rightarrow> ((length victims, fc, err), w2)))"

definition revoke_sessions_before_epoch ::
  "'w session_store_ops \<Rightarrow> 'w session_env \<Rightarrow> time \<Rightarrow> user_id \<Rightarrow> epoch \<Rightarrow> 'w
     \<Rightarrow> (nat \<times> session_error option) \<times> 'w" where
  "revoke_sessions_before_epoch S E now u new_epoch w =
     (case ss_revoke_before_epoch S u new_epoch now (se_idle_ttl E) w of
        ((victims, err), w1) \<Rightarrow>
          (case revoke_providers E victims [] w1 of (fc, w2) \<Rightarrow> ((length victims, err), w2)))"

lemmas revoke_defs = revoke_session_def revoke_all_other_sessions_def revoke_user_session_by_admin_def
  revoke_all_user_sessions_by_admin_def revoke_sessions_before_epoch_def

section \<open>What the service needs of a store\<close>

locale session_store =
  fixes S :: "'w session_store_ops"
    and stored :: "'w \<Rightarrow> token_hash \<Rightarrow> session_record \<Rightarrow> bool"
  assumes get_ok: "ss_get S h w = (Inr r, w') \<Longrightarrow> \<exists>r0. stored w' h r0 \<and> r = normalize_stamp r0"
    and create_ok: "ss_create S h r ttl idle w = (Inr (), w') \<Longrightarrow> stored w' h r \<and> 1 \<le> sn_security_epoch r"
    and delete_ok: "ss_delete S h w = (Inr (), w') \<Longrightarrow> \<not> stored w' h r"
    and touch_ok: "ss_touch S h r ttl idle w = (Inr (), w') \<Longrightarrow> stored w' h r"
    and rotate_ok: "ss_rotate S old new r ttl idle w = (Inr (), w') \<Longrightarrow> old \<noteq> new \<Longrightarrow>
      stored w' new r \<and> \<not> stored w' old r'"
begin

lemma validated:
  assumes "validate_session S E now token w = (Inr (p, r), w')"
  shows "\<exists>r0. stored w' (se_hash E token) r0 \<and> r = normalize_stamp r0"
    and "\<not> is_expired r now (se_idle_ttl E)" and "1 \<le> sn_security_epoch r" and "token \<noteq> []"
    and "pr_user_id p = sn_user_id r \<and> pr_session_id p = sn_session_id r"
  using assms get_ok [of "se_hash E token" w r w'] normalize_stamp_ge1
  by (auto simp: validate_session_def split: if_splits prod.splits sum.splits)

lemma created:
  assumes "create_session S E rt rc rs now i w = (Inr res, w')"
  shows "stored w' (cr_token_hash res) (cr_record res)"
    and "cr_token_hash res = se_hash E (cr_session_token res)"
    and "\<exists>w1. stamp_epoch E (ci_user_id i) w = (Inr (sn_security_epoch (cr_record res)), w1)"
    and "1 \<le> sn_security_epoch (cr_record res)"
    and "sn_csrf_token_hash (cr_record res) = se_hash E (cr_csrf_token res)"
    and "\<exists>ttl. create_ttl E i = Inr ttl \<and> sn_expires_at (cr_record res) = now + ttl"
    and "sn_last_seen_at (cr_record res) = now"
proof -
  from assms obtain token csrf sid ttl ref sealed ep w1 where
    k: "create_ttl E i = Inr ttl" "stamp_epoch E (ci_user_id i) w = (Inr ep, w1)"
    and c: "ss_create S (se_hash E token) (new_record E i sid csrf now ttl ref sealed ep) ttl (se_idle_ttl E) w1
       = (Inr (), w')"
    and res: "res = \<lparr>cr_session_token = token, cr_csrf_token = csrf, cr_token_hash = se_hash E token,
       cr_record = new_record E i sid csrf now ttl ref sealed ep\<rparr>"
    by (auto simp: create_session_def Let_def split: option.splits sum.splits prod.splits)
  from create_ok [OF c] k res
  show "stored w' (cr_token_hash res) (cr_record res)"
    and "cr_token_hash res = se_hash E (cr_session_token res)"
    and "\<exists>w1. stamp_epoch E (ci_user_id i) w = (Inr (sn_security_epoch (cr_record res)), w1)"
    and "1 \<le> sn_security_epoch (cr_record res)"
    and "sn_csrf_token_hash (cr_record res) = se_hash E (cr_csrf_token res)"
    and "\<exists>ttl. create_ttl E i = Inr ttl \<and> sn_expires_at (cr_record res) = now + ttl"
    and "sn_last_seen_at (cr_record res) = now"
    by (auto simp: new_record_def)
qed

lemma rotated:
  assumes "rotate_session S E rt rc now old_token e w = (Inr res, w')"
    and "se_hash E (rr_session_token res) \<noteq> se_hash E old_token"
  shows "stored w' (rr_token_hash res) (rr_record res)"
    and "\<not> stored w' (se_hash E old_token) r'"
    and "rr_remaining_ttl res = sn_expires_at (rr_record res) - now \<and> 0 < rr_remaining_ttl res"
    and "sn_security_epoch (rr_record res) = e \<and> 1 \<le> e"
    and "\<exists>r w1. ss_get S (se_hash E old_token) w = (Inr r, w1) \<and> \<not> is_expired r now (se_idle_ttl E)
        \<and> rr_record res = r\<lparr>sn_last_seen_at := now, sn_csrf_token_hash := se_hash E (rr_csrf_token res),
             sn_security_epoch := e\<rparr>"
  using assms rotate_ok
  by (auto simp: rotate_session_def Let_def split: if_splits option.splits sum.splits prod.splits)

lemma logged_out:
  "delete_session S E token w = (Inr (), w') \<Longrightarrow> token \<noteq> [] \<Longrightarrow> \<not> stored w' (se_hash E token) r"
  using delete_ok by (simp add: delete_session_def)

end

section \<open>The Redis store\<close>

text \<open>The world of the service: the Redis connection next to everything else.\<close>

definition on_redis :: "(rconn \<Rightarrow> 'a \<times> rconn) \<Rightarrow> rconn \<times> 'r \<Rightarrow> 'a \<times> (rconn \<times> 'r)" where
  "on_redis f w = (fst (f (fst w)), (snd (f (fst w)), snd w))"

text \<open>\<open>time.Now()\<close> inside the store reads the machine's clock, as Redis does.\<close>

definition redis_store :: "(rconn \<times> 'r) session_store_ops" where
  "redis_store = \<lparr>
     ss_create = \<lambda>h r ttl idle. on_redis (\<lambda>c. store_create h r ttl idle (rd_now (fst c)) c),
     ss_get = \<lambda>h. on_redis (store_get h),
     ss_delete = \<lambda>h. on_redis (store_delete h),
     ss_touch = \<lambda>h r ttl idle. on_redis (\<lambda>c. store_touch h r ttl idle (rd_now (fst c)) c),
     ss_rotate = \<lambda>old new r ttl idle. on_redis (\<lambda>c. store_rotate old new r ttl idle (rd_now (fst c)) c),
     ss_get_by_session_id = \<lambda>u sid now idle. on_redis (store_get_by_session_id u sid now idle),
     ss_delete_by_session_id = \<lambda>u sid now idle. on_redis (store_delete_by_session_id u sid now idle),
     ss_list_user_sessions = \<lambda>u now idle. on_redis (store_list_user_sessions u now idle),
     ss_revoke_all_other = \<lambda>u cur now idle. on_redis (store_revoke_all_other_sessions u cur now idle),
     ss_revoke_before_epoch = \<lambda>u e now idle. on_redis (store_revoke_sessions_before_epoch u e now idle)\<rparr>"

definition redis_stored :: "rconn \<times> 'r \<Rightarrow> token_hash \<Rightarrow> session_record \<Rightarrow> bool" where
  "redis_stored w h r \<longleftrightarrow> live_rec (fst (fst w)) h r"

lemma redis_store_ops [simp]:
  "ss_create redis_store h r ttl idle = on_redis (\<lambda>c. store_create h r ttl idle (rd_now (fst c)) c)"
  "ss_get redis_store h = on_redis (store_get h)"
  "ss_delete redis_store h = on_redis (store_delete h)"
  "ss_touch redis_store h r ttl idle = on_redis (\<lambda>c. store_touch h r ttl idle (rd_now (fst c)) c)"
  "ss_rotate redis_store old new r ttl idle = on_redis (\<lambda>c. store_rotate old new r ttl idle (rd_now (fst c)) c)"
  "ss_get_by_session_id redis_store u sid now idle = on_redis (store_get_by_session_id u sid now idle)"
  "ss_delete_by_session_id redis_store u sid now idle = on_redis (store_delete_by_session_id u sid now idle)"
  "ss_list_user_sessions redis_store u now idle = on_redis (store_list_user_sessions u now idle)"
  "ss_revoke_all_other redis_store u cur now idle = on_redis (store_revoke_all_other_sessions u cur now idle)"
  "ss_revoke_before_epoch redis_store u e now idle = on_redis (store_revoke_sessions_before_epoch u e now idle)"
  by (simp_all add: redis_store_def)

lemma rcall_ok:
  assumes "rcall e f c = (Inr x, c')"
  shows "\<exists>db. f db = (Inr x, fst c')"
proof (cases "(e, f, c)" rule: rcall.cases)
  case (1 e f db)
  with assms show ?thesis by (auto intro!: exI [of _ db] prod_eqI)
next
  case (2 e f db g es)
  with assms show ?thesis by (auto intro!: exI [of _ "g db"] prod_eqI)
qed (use assms in auto)

lemma write_record_live: "db' = write_record h r ttl s n db \<Longrightarrow> 0 < ttl \<Longrightarrow> live_rec db' h r"
  by (simp add: write_record_def live_rec_iff)

lemma on_redis_iff: "on_redis f w = (x, w') \<longleftrightarrow> f (fst w) = (x, fst w') \<and> snd w' = snd w"
  by (auto simp: on_redis_def intro: prod_eqI)

lemma redis_get_ok:
  assumes "on_redis (store_get h) w = (Inr r, w')"
  shows "\<exists>r0. redis_stored w' h r0 \<and> r = normalize_stamp r0"
proof -
  obtain r0 where "rcall ErrSessInfra (read_cmd (\<lambda>db. get_rec db h)) (fst w) = (Inr (Some (Encoded r0)), fst w')"
    and "r = normalize_stamp r0"
    using assms by (auto simp: on_redis_iff store_get_def
        split: if_splits prod.splits sum.splits option.splits payload.splits)
  from rcall_ok [OF this(1)] this(2) show ?thesis
    by (auto simp: read_cmd_def redis_stored_def live_rec_def)
qed

lemma redis_create_ok:
  assumes "store_create h r ttl idle t c = (Inr (), c')"
  shows "live_rec (fst c') h r \<and> 1 \<le> sn_security_epoch r"
proof -
  have s: "1 \<le> sn_security_epoch r"
    using assms by (auto simp: store_create_def require_stamped_def split: if_splits)
  obtain n where "rcall ErrSessInfra (create_script h r (dur_millis ttl)
      (unix_milli (effective_expiry r idle)) (unix_milli t)) c = (Inr n, c')"
    using assms by (auto simp: store_create_def split: if_splits option.splits prod.splits sum.splits)
  from rcall_ok [OF this] s show ?thesis
    by (auto simp: create_script_def intro: write_record_live [OF sym] split: if_splits)
qed

lemma redis_touch_ok:
  assumes "store_touch h r ttl idle t c = (Inr (), c')"
  shows "live_rec (fst c') h r"
proof -
  obtain n where "rcall ErrSessInfra (touch_script h r (dur_millis ttl)
      (unix_milli (effective_expiry r idle)) (unix_milli t)) c = (Inr n, c')" "n \<noteq> 0"
    using assms by (auto simp: store_touch_def split: if_splits option.splits prod.splits sum.splits)
  from rcall_ok [OF this(1)] this(2) show ?thesis
    by (auto simp: touch_script_def intro: write_record_live [OF sym] split: if_splits)
qed

lemma redis_rotate_ok:
  assumes "store_rotate old new r ttl idle t c = (Inr (), c')" and "old \<noteq> new"
  shows "live_rec (fst c') new r \<and> \<not> live_rec (fst c') old r'"
proof -
  obtain n where "rcall ErrSessInfra (rotate_script old new r (dur_millis ttl)
      (unix_milli (effective_expiry r idle)) (unix_milli t)) c = (Inr n, c')" "n \<noteq> 0"
    using assms(1) by (auto simp: store_rotate_def split: if_splits option.splits prod.splits sum.splits)
  from rcall_ok [OF this(1)] this(2) assms(2) show ?thesis
    by (auto simp: rotate_script_def Let_def live_rec_iff dest!: sym [of _ "fst c'"] split: if_splits)
qed

lemma redis_delete_ok: "store_delete h c = (Inr (), c') \<Longrightarrow> \<not> live_rec (fst c') h r"
  using rcall_ok [of ErrSessInfra "delete_script h" c] delete_script_gone
  by (fastforce simp: store_delete_def delete_by_token_hash_def split: if_splits prod.splits sum.splits)

interpretation rds: session_store redis_store redis_stored
  by (unfold_locales, unfold redis_store_ops)
     (rule redis_get_ok | auto simp: on_redis_iff redis_stored_def
        dest: redis_create_ok redis_touch_ok redis_rotate_ok redis_delete_ok)+

section \<open>Properties\<close>

definition demo_env :: "(rconn \<times> 'x) session_env" where
  "demo_env = \<lparr>se_hash = \<lambda>s. CHR ''#'' # s, se_encryptor = None, se_codec = demo_codec,
     se_ttl = minutes 60, se_remember_ttl = minutes 600, se_idle_ttl = minutes 10, se_touch_interval = seconds 30,
     se_epoch_stamper = Some (\<lambda>u w. (Inr 3, w)), se_revoker = None, se_auditor = None,
     se_classify = \<lambda>_. ''internal'', se_mask_ip = \<lambda>_. []\<rparr>"

definition demo_input :: create_input where
  "demo_input = \<lparr>ci_user_id = ''u'', ci_client_kind = [], ci_provider = ''zitadel'',
     ci_provider_session_reference = [], ci_provider_session_token = [], ci_authentication_methods = [''password''],
     ci_remember = False, ci_user_agent = [], ci_client_ip = []\<rparr>"

lemma normalize_stamped: "1 \<le> sn_security_epoch r \<Longrightarrow> normalize_stamp r = r"
  by (simp add: normalize_stamp_def)

text \<open>
  A minted session is usable and stamped: whatever faults and interleavings preceded, when
  \<open>CreateSession\<close> succeeds the record is live under the hash of the returned token, carries the
  epoch the ledger returned, accepts the returned CSRF token, and \<open>ValidateSession\<close> with that
  token at the same instant yields that very record.
\<close>

theorem created_session_is_usable:
  assumes "create_session redis_store E rt rc rs now i w = (Inr res, w')"
    and "\<And>s. se_hash E s \<noteq> []" and "cr_session_token res \<noteq> []" and "cr_csrf_token res \<noteq> []"
  shows "live_rec (fst (fst w')) (se_hash E (cr_session_token res)) (cr_record res)
    \<and> (\<exists>w1. stamp_epoch E (ci_user_id i) w = (Inr (sn_security_epoch (cr_record res)), w1))
    \<and> validate_csrf (se_hash E) (cr_csrf_token res) (cr_csrf_token res) (cr_record res)
    \<and> (\<exists>p w2. validate_session redis_store E now (cr_session_token res) ((fst (fst w'), []), snd w')
          = (Inr (p, cr_record res), w2) \<and> pr_user_id p = ci_user_id i)"
proof -
  note c = rds.created [OF assms(1)]
  have live: "live_rec (fst (fst w')) (se_hash E (cr_session_token res)) (cr_record res)"
    using c(1,2) by (simp add: redis_stored_def)
  from c(6) obtain ttl where ttl: "create_ttl E i = Inr ttl" "sn_expires_at (cr_record res) = now + ttl" by blast
  have u: "sn_user_id (cr_record res) = ci_user_id i" and pos: "0 < dur_millis ttl"
    using assms(1) ttl(1)
    by (auto simp: create_session_def new_record_def Let_def on_redis_def store_create_def create_script_def
        split: option.splits sum.splits prod.splits if_splits
        elim!: rcall.elims)
  then have "0 < ttl" using dur_millis_pos_iff [of ttl] by (simp add: ns_per_ms_def)
  with ttl c(7) have "\<not> is_expired (cr_record res) now (se_idle_ttl E)" by (simp add: is_expired_def)
  with live u assms(2,3) c(4) show ?thesis
    using c(3,5) assms(4)
    by (simp add: validate_csrf_def validate_session_def on_redis_def store_get_def read_cmd_def
        live_rec_def normalize_stamped)
qed

definition demo_created :: "rconn \<times> unit" where
  "demo_created = snd (create_session redis_store demo_env (Some ''t'') (Some ''c'') (Some ''s'') (seconds 1) demo_input
     ((empty_redis (seconds 1), []), ()))"

definition demo_session :: session_record where
  "demo_session = new_record (demo_env :: (rconn \<times> unit) session_env) demo_input ''s'' ''c'' (seconds 1) (minutes 60) [] [] 3"

lemma demo_create:
  "create_session redis_store demo_env (Some ''t'') (Some ''c'') (Some ''s'') (seconds 1) demo_input
     ((empty_redis (seconds 1), []), ())
   = (Inr \<lparr>cr_session_token = ''t'', cr_csrf_token = ''c'', cr_token_hash = ''#t'', cr_record = demo_session\<rparr>,
      demo_created)"
  unfolding demo_created_def demo_session_def
  by (rule prod_eqI)
     (simp_all add: create_session_def create_ttl_def seal_input_def encrypt_provider_session_reference_def stamp_epoch_def
      on_redis_def store_create_def require_stamped_def create_script_def new_record_def demo_env_def demo_input_def
      dur_millis_def minutes_def seconds_def ns_per_ms_def Let_def)

lemma demo_created_live: "live_rec (fst (fst demo_created)) ''#t'' demo_session"
  using rds.created(1,2) [OF demo_create] by (simp add: redis_stored_def)

theorem created_session_is_usable_witness:
  "\<exists>p w2. validate_session redis_store demo_env (seconds 1) ''t'' ((fst (fst demo_created), []), snd demo_created)
     = (Inr (p, demo_session), w2) \<and> pr_user_id p = ''u''"
  using created_session_is_usable [OF demo_create] by (simp add: demo_env_def demo_input_def)

text \<open>
  \<open>ValidateSession\<close> authenticates only a live, unexpired, stamped record stored under the hash
  of the presented token, and the principal it returns is that record's, under every schedule of
  faults and interleavings.
\<close>

theorem validated_session_is_live:
  assumes "validate_session redis_store E now token w = (Inr (p, r), w')"
  shows "(\<exists>r0. live_rec (fst (fst w')) (se_hash E token) r0 \<and> r = normalize_stamp r0)
    \<and> now \<le> effective_expiry r (se_idle_ttl E) \<and> 1 \<le> sn_security_epoch r
    \<and> pr_user_id p = sn_user_id r \<and> pr_session_id p = sn_session_id r"
  using rds.validated [OF assms] by (auto simp: redis_stored_def is_expired_effective)

lemma demo_validate:
  "validate_session redis_store demo_env (seconds 2) ''t'' ((fst (fst demo_created), []), ())
   = (Inr (\<lparr>pr_user_id = ''u'', pr_session_id = ''s'', pr_authentication_time = seconds 1,
            pr_authentication_methods = [''password''], pr_reauthenticated_until = None\<rparr>, demo_session),
      ((fst (fst demo_created), []), ()))"
  using demo_created_live
  by (simp add: validate_session_def on_redis_def store_get_def read_cmd_def live_rec_def normalize_stamp_def
      demo_env_def demo_session_def new_record_def demo_input_def is_expired_def seconds_def minutes_def)

theorem validated_session_is_live_witness:
  "seconds 2 \<le> effective_expiry demo_session (minutes 10)"
  using validated_session_is_live [OF demo_validate] by (simp add: demo_env_def)

text \<open>
  Rotation moves a session and never extends it: on success the old token's record is gone,
  the record is live under the new token with the same session id, user, creation and absolute
  expiry, it carries the new epoch, and the remaining lifetime returned for the cookies is what
  is left of the unchanged deadline.
\<close>

theorem rotation_moves_session:
  assumes "rotate_session redis_store E rt rc now old_token e w = (Inr res, w')"
    and "se_hash E (rr_session_token res) \<noteq> se_hash E old_token"
  shows "live_rec (fst (fst w')) (rr_token_hash res) (rr_record res)
    \<and> (\<nexists>r'. live_rec (fst (fst w')) (se_hash E old_token) r')
    \<and> sn_security_epoch (rr_record res) = e \<and> 1 \<le> e
    \<and> 0 < rr_remaining_ttl res \<and> now + rr_remaining_ttl res = sn_expires_at (rr_record res)
    \<and> (\<exists>r w1. ss_get redis_store (se_hash E old_token) w = (Inr r, w1) \<and> \<not> is_expired r now (se_idle_ttl E)
        \<and> sn_session_id (rr_record res) = sn_session_id r \<and> sn_user_id (rr_record res) = sn_user_id r
        \<and> sn_created_at (rr_record res) = sn_created_at r \<and> sn_expires_at (rr_record res) = sn_expires_at r)"
proof -
  note k = rds.rotated [OF assms]
  from k(5) obtain r w1 where r: "ss_get redis_store (se_hash E old_token) w = (Inr r, w1)"
    "\<not> is_expired r now (se_idle_ttl E)"
    "rr_record res = r\<lparr>sn_last_seen_at := now, sn_csrf_token_hash := se_hash E (rr_csrf_token res),
       sn_security_epoch := e\<rparr>" by blast
  then have "sn_session_id (rr_record res) = sn_session_id r \<and> sn_user_id (rr_record res) = sn_user_id r
      \<and> sn_created_at (rr_record res) = sn_created_at r \<and> sn_expires_at (rr_record res) = sn_expires_at r"
    by simp
  with k(1-4) r(1,2) show ?thesis unfolding redis_stored_def by (metis add_diff_cancel_left' diff_add_cancel)
qed

lemma demo_rotate:
  "\<exists>res w'. rotate_session redis_store demo_env (Some ''n'') (Some ''d'') (seconds 2) ''t'' 4 ((fst (fst demo_created), []), ())
     = (Inr res, w') \<and> rr_session_token res = ''n'' \<and> rr_token_hash res = ''#n''"
  using demo_created_live
  by (simp add: rotate_session_def on_redis_def store_get_def read_cmd_def live_rec_def normalize_stamp_def
      demo_env_def demo_session_def new_record_def demo_input_def is_expired_def seconds_def minutes_def
      store_rotate_def require_stamped_def rotate_script_def dur_millis_def ns_per_ms_def Let_def)

theorem rotation_moves_session_witness:
  "\<exists>res w'. rotate_session redis_store demo_env (Some ''n'') (Some ''d'') (seconds 2) ''t'' 4 ((fst (fst demo_created), []), ())
     = (Inr res, w') \<and> sn_security_epoch (rr_record res) = 4 \<and> \<not> live_rec (fst (fst w')) ''#t'' demo_session"
proof -
  obtain res w' where r: "rotate_session redis_store demo_env (Some ''n'') (Some ''d'') (seconds 2) ''t'' 4
      ((fst (fst demo_created), []), ()) = (Inr res, w')" "rr_session_token res = ''n''" using demo_rotate by blast
  have "se_hash demo_env (rr_session_token res) \<noteq> se_hash demo_env ''t''" using r(2) by (simp add: demo_env_def)
  from rotation_moves_session [OF r(1) this] r(1) show ?thesis by (simp add: demo_env_def)
qed

text \<open>
  Logout is final for its token: after a successful \<open>DeleteSession\<close> the token does not
  validate, and a deletion that was answered with an error is never reported as success.
\<close>

theorem logout_ends_session:
  assumes "delete_session redis_store E token w = (Inr (), w')" and "token \<noteq> []" and "se_hash E token \<noteq> []"
  shows "(\<nexists>r. live_rec (fst (fst w')) (se_hash E token) r)
    \<and> (\<nexists>x. fst (validate_session redis_store E now token ((fst (fst w'), fs), x')) = Inr x \<and> quiet_env fs)"
proof -
  have no: "\<not> live_rec (fst (fst w')) (se_hash E token) r" for r
    using rds.logged_out [OF assms(1,2)] by (simp add: redis_stored_def)
  have "False" if "quiet_env fs" "validate_session redis_store E now token ((fst (fst w'), fs), x') = (Inr x, w2)" for x w2
  proof -
    obtain p r where x: "x = (p, r)" by (cases x)
    from that(2) have "store_get (se_hash E token) (fst (fst w'), fs) = (Inr r, fst w2)"
      by (auto simp: x validate_session_def on_redis_def intro: prod_eqI split: if_splits prod.splits sum.splits)
    from store_get_quiet [OF this] that(1) obtain r0 where
      "same_recs (fst (fst w')) (fst (fst w2))" "live_rec (fst (fst w2)) (se_hash E token) r0" by auto
    with no same_recs_live show False by blast
  qed
  note bad = this
  have "\<not> (fst (validate_session redis_store E now token ((fst (fst w'), fs), x')) = Inr x \<and> quiet_env fs)" for x
  proof
    assume a: "fst (validate_session redis_store E now token ((fst (fst w'), fs), x')) = Inr x \<and> quiet_env fs"
    obtain y w2 where "validate_session redis_store E now token ((fst (fst w'), fs), x') = (y, w2)"
      by (cases "validate_session redis_store E now token ((fst (fst w'), fs), x')") blast
    with a bad show False by auto
  qed
  with no show ?thesis by blast
qed

theorem logout_ends_session_witness:
  "\<not> live_rec (fst (fst (snd (delete_session redis_store demo_env ''t'' ((fst (fst demo_created), []), ()))))) ''#t'' demo_session"
proof -
  have "fst (delete_session redis_store demo_env ''t'' ((fst (fst demo_created), []), ())) = Inr ()"
    using demo_created_live
    by (simp add: delete_session_def on_redis_def store_delete_def delete_by_token_hash_def delete_script_def
        live_rec_def demo_env_def)
  then have d: "delete_session redis_store demo_env ''t'' ((fst (fst demo_created), []), ())
      = (Inr (), snd (delete_session redis_store demo_env ''t'' ((fst (fst demo_created), []), ())))"
    by (intro prod_eqI) simp_all
  from logout_ends_session [OF d] show ?thesis by (simp add: demo_env_def)
qed

end
