(* ===== verification/SecurityLifecycle.thy ===== *)
theory SecurityLifecycle
  imports SecurityLedger
begin

text \<open>
  The abstract lifecycle of one user's security state, as ADR-0007 and the comments of
  \<open>securitystate.go\<close> promise it: \<open>active \<rightarrow> outcome_recorded \<rightarrow> local_settlement \<rightarrow> settled\<close>, the
  epoch moving by one exactly when an outcome that may have reached the provider is recorded.
  Every method of the PostgreSQL store, under any schedule of faults, refines it: the user it
  names makes at most one step, every other user none.
\<close>

section \<open>The abstract lifecycle\<close>

record life_intent =
  li_id :: int
  li_status :: intent_status
  li_at :: epoch
  li_provider :: provider_outcome
  li_settlement :: settlement_outcome

record life =
  lf_epoch :: epoch
  lf_intent :: "life_intent option"

inductive life_step :: "life \<Rightarrow> life \<Rightarrow> bool" where
  ls_acquire:
    "(case lf_intent v of None \<Rightarrow> True | Some i \<Rightarrow> li_status i = IntentSettled \<and> li_id i < n) \<Longrightarrow>
     life_step v (v\<lparr>lf_intent := Some \<lparr>li_id = n, li_status = IntentActive, li_at = lf_epoch v,
        li_provider = ProviderOutcomeNone, li_settlement = SettlementOutcomeNone\<rparr>\<rparr>)"
| ls_confirm_failure:
    "lf_intent v = Some i \<Longrightarrow> li_status i = IntentActive \<Longrightarrow>
     life_step v (v\<lparr>lf_intent := Some (i\<lparr>li_status := IntentSettled,
        li_provider := ProviderOutcomeConfirmedFailure\<rparr>)\<rparr>)"
| ls_advance:
    "lf_intent v = Some i \<Longrightarrow> li_status i = IntentActive \<Longrightarrow> advances_epoch x \<Longrightarrow>
     life_step v \<lparr>lf_epoch = lf_epoch v + 1,
        lf_intent = Some (i\<lparr>li_status := IntentOutcomeRecorded, li_provider := x\<rparr>)\<rparr>"
| ls_begin:
    "lf_intent v = Some i \<Longrightarrow> li_status i = IntentOutcomeRecorded \<Longrightarrow>
     life_step v (v\<lparr>lf_intent := Some (i\<lparr>li_status := IntentLocalSettlement\<rparr>)\<rparr>)"
| ls_settle:
    "lf_intent v = Some i \<Longrightarrow> li_status i = IntentLocalSettlement \<Longrightarrow>
     life_step v (v\<lparr>lf_intent := Some (i\<lparr>li_status := IntentSettled, li_settlement := y\<rparr>)\<rparr>)"

inductive_cases life_stepE: "life_step v w"

text \<open>What an intent knows of the epoch: the phase invariant.\<close>

definition life_inv :: "life \<Rightarrow> bool" where
  "life_inv v \<longleftrightarrow>
     1 \<le> lf_epoch v \<and>
     (case lf_intent v of
        None \<Rightarrow> True
      | Some i \<Rightarrow>
          (case li_status i of
             IntentActive \<Rightarrow> lf_epoch v = li_at i \<and> li_provider i = ProviderOutcomeNone
           | IntentSettled \<Rightarrow>
               (if li_provider i = ProviderOutcomeConfirmedFailure then lf_epoch v = li_at i
                else lf_epoch v = li_at i + 1 \<and> advances_epoch (li_provider i))
           | _ \<Rightarrow> lf_epoch v = li_at i + 1 \<and> advances_epoch (li_provider i)))"

lemma life_step_inv: "life_step v w \<Longrightarrow> life_inv v \<Longrightarrow> life_inv w"
  by (induction rule: life_step.induct)
     (auto simp: life_inv_def advances_epoch_def split: option.splits)

lemma life_step_epoch: "life_step v w \<Longrightarrow> lf_epoch v \<le> lf_epoch w \<and> lf_epoch w \<le> lf_epoch v + 1"
  by (induction rule: life_step.induct) auto

lemma life_steps_inv: "life_step\<^sup>*\<^sup>* v w \<Longrightarrow> life_inv v \<Longrightarrow> life_inv w"
  by (induction rule: rtranclp_induct) (auto dest: life_step_inv)

lemma life_steps_epoch: "life_step\<^sup>*\<^sup>* v w \<Longrightarrow> lf_epoch v \<le> lf_epoch w"
  by (induction rule: rtranclp_induct) (auto dest: life_step_epoch)

text \<open>
  An intent that has left \<open>active\<close> is consumed: as long as it stays the user's intent it never
  becomes active again and the epoch stands still; only a later intent can move it.
\<close>

definition consumed :: "int \<Rightarrow> life \<Rightarrow> bool" where
  "consumed n v \<longleftrightarrow>
     (case lf_intent v of
        None \<Rightarrow> False | Some i \<Rightarrow> n < li_id i \<or> (li_id i = n \<and> li_status i \<noteq> IntentActive))"

lemma consumed_step: "life_step v w \<Longrightarrow> consumed n v \<Longrightarrow> consumed n w"
  by (induction rule: life_step.induct) (auto simp: consumed_def split: option.splits)

lemma consumed_steps: "life_step\<^sup>*\<^sup>* v w \<Longrightarrow> consumed n v \<Longrightarrow> consumed n w"
  by (induction rule: rtranclp_induct) (auto dest: consumed_step)

section \<open>The abstraction of the tables\<close>

definition life_of_row :: "intent_row \<Rightarrow> life_intent" where
  "life_of_row r = \<lparr>li_id = ir_intent_id r, li_status = ir_status r, li_at = ir_epoch_at_acquire r,
     li_provider = ir_provider_outcome r, li_settlement = ir_settlement_outcome r\<rparr>"

definition life_of :: "ledger_db \<Rightarrow> user_id \<Rightarrow> life option" where
  "life_of db u =
     map_option (\<lambda>e. \<lparr>lf_epoch = e, lf_intent = map_option life_of_row (ld_intents db u)\<rparr>) (ld_epochs db u)"

text \<open>The foreign key of the intents and the sequence behind their ids.\<close>

definition ledger_wf :: "ledger_db \<Rightarrow> bool" where
  "ledger_wf db \<longleftrightarrow>
     (\<forall>u r. ld_intents db u = Some r \<longrightarrow> ir_intent_id r \<le> ld_seq db \<and> ld_epochs db u \<noteq> None)"

definition life_rel :: "life option \<Rightarrow> life option \<Rightarrow> bool" where
  "life_rel a b = (case (a, b) of
     (None, None) \<Rightarrow> True | (Some v, Some w) \<Rightarrow> life_step\<^sup>=\<^sup>= v w | _ \<Rightarrow> False)"

lemma life_rel_refl [simp]: "life_rel a a"
  by (simp add: life_rel_def split: option.splits)

text \<open>One statement or transaction on behalf of user \<open>u\<close>.\<close>

definition refines_user :: "user_id \<Rightarrow> ledger_db \<Rightarrow> ledger_db \<Rightarrow> bool" where
  "refines_user u db db' \<longleftrightarrow>
     (ledger_wf db \<longrightarrow> ledger_wf db') \<and>
     (ledger_wf db \<longrightarrow> life_rel (life_of db u) (life_of db' u)) \<and>
     (\<forall>x. x \<noteq> u \<longrightarrow> life_of db' x = life_of db x)"

lemma refines_user_refl [simp]: "refines_user u db db"
  by (simp add: refines_user_def)

lemma refines_userI_row:
  assumes "ld_intents db u = Some r"
    and "ir_intent_id r' = ir_intent_id r"
    and "\<And>e. life_step\<^sup>=\<^sup>= \<lparr>lf_epoch = e, lf_intent = Some (life_of_row r)\<rparr>
                 \<lparr>lf_epoch = e, lf_intent = Some (life_of_row r')\<rparr>"
  shows "refines_user u db (db\<lparr>ld_intents := (ld_intents db)(u \<mapsto> r')\<rparr>)"
  using assms
  by (auto simp: refines_user_def ledger_wf_def life_of_def life_rel_def split: option.splits)

lemma cas_update_refines:
  assumes "\<And>r. guard r \<Longrightarrow> ir_intent_id (upd db r) = ir_intent_id r"
    and "\<And>r e. guard r \<Longrightarrow> life_step\<^sup>=\<^sup>= \<lparr>lf_epoch = e, lf_intent = Some (life_of_row r)\<rparr>
                 \<lparr>lf_epoch = e, lf_intent = Some (life_of_row ((upd db r)\<lparr>ir_updated_at := ld_now db\<rparr>))\<rparr>"
  shows "refines_user u db (snd (cas_update u i guard upd db))"
  using assms by (auto simp: cas_update_def intro!: refines_userI_row split: option.splits)

lemma life_of_row_simps [simp]:
  "life_of_row (r\<lparr>ir_updated_at := t\<rparr>) = life_of_row r"
  "life_of_row (r\<lparr>ir_settled_at := s\<rparr>) = life_of_row r"
  "life_of_row (r\<lparr>ir_lease_expires_at := s\<rparr>) = life_of_row r"
  "life_of_row (r\<lparr>ir_settlement_attempts := k\<rparr>) = life_of_row r"
  "life_of_row (r\<lparr>ir_status := st\<rparr>) = (life_of_row r)\<lparr>li_status := st\<rparr>"
  "life_of_row (r\<lparr>ir_provider_outcome := po\<rparr>) = (life_of_row r)\<lparr>li_provider := po\<rparr>"
  "life_of_row (r\<lparr>ir_settlement_outcome := so\<rparr>) = (life_of_row r)\<lparr>li_settlement := so\<rparr>"
  "li_status (life_of_row r) = ir_status r"
  "li_id (life_of_row r) = ir_intent_id r"
  by (simp_all add: life_of_row_def)

lemma confirm_failure_refines: "refines_user u db (snd (sql_settle_confirmed_failure u i db))"
  unfolding sql_settle_confirmed_failure_def
  by (rule cas_update_refines)
     (auto intro!: ls_confirm_failure [of "\<lparr>lf_epoch = e, lf_intent = Some (life_of_row r)\<rparr>" for e r, simplified])

lemma begin_settlement_refines: "refines_user u db (snd (sql_begin_settlement u i db))"
  unfolding sql_begin_settlement_def
  by (rule cas_update_refines)
     (auto intro!: ls_begin [of "\<lparr>lf_epoch = e, lf_intent = Some (life_of_row r)\<rparr>" for e r, simplified])

lemma settle_refines: "refines_user u db (snd (sql_settle u i y db))"
  unfolding sql_settle_def
  by (rule cas_update_refines)
     (auto intro!: ls_settle [of "\<lparr>lf_epoch = e, lf_intent = Some (life_of_row r)\<rparr>" for e r, simplified])

lemma bump_attempts_refines: "refines_user u db (snd (sql_bump_attempts u i db))"
  by (auto simp: sql_bump_attempts_def intro!: refines_userI_row split: option.splits)

lemma acquire_refines: "refines_user u db (snd (sql_acquire_intent u ttl db))"
proof (cases "ld_epochs db u")
  case None
  then show ?thesis by (simp add: sql_acquire_intent_def)
next
  case (Some e)
  show ?thesis
  proof (cases "case ld_intents db u of None \<Rightarrow> True | Some r \<Rightarrow> ir_status r = IntentSettled")
    case True
    have "life_step \<lparr>lf_epoch = e, lf_intent = map_option life_of_row (ld_intents db u)\<rparr>
       \<lparr>lf_epoch = e, lf_intent = Some \<lparr>li_id = ld_seq db + 1, li_status = IntentActive, li_at = e,
        li_provider = ProviderOutcomeNone, li_settlement = SettlementOutcomeNone\<rparr>\<rparr>" if "ledger_wf db"
      using that True
        ls_acquire [where v = "\<lparr>lf_epoch = e, lf_intent = map_option life_of_row (ld_intents db u)\<rparr>"
          and n = "ld_seq db + 1"]
      by (fastforce simp: ledger_wf_def split: option.splits)
    with True Some show ?thesis
      by (auto simp: sql_acquire_intent_def Let_def refines_user_def ledger_wf_def life_of_def
            life_rel_def life_of_row_def intro: int_le_add1 split: option.splits)
  next
    case False
    with Some show ?thesis
      by (auto simp: sql_acquire_intent_def Let_def refines_user_def ledger_wf_def life_of_def
            life_rel_def intro: int_le_add1 split: option.splits)
  qed
qed

text \<open>The two statements of the outcome transaction, composed, are one \<open>advance\<close> step.\<close>

lemma record_and_bump:
  assumes "sql_record_outcome u i x fence db = (Inr n, db1)" and "n \<noteq> 0"
    and "sql_bump_epoch u db1 = (Inr e', db2)"
  obtains r e where "ld_intents db u = Some r" "ld_epochs db u = Some e" "e' = e + 1"
    "ir_intent_id r = i" "ir_status r = IntentActive" "lease_passes fence r"
    "db2 = db\<lparr>ld_epochs := (ld_epochs db)(u \<mapsto> e + 1),
       ld_intents := (ld_intents db)(u \<mapsto> r\<lparr>ir_status := IntentOutcomeRecorded, ir_provider_outcome := x,
          ir_lease_expires_at := None, ir_updated_at := ld_now db\<rparr>)\<rparr>"
  using assms
  by (auto simp: sql_record_outcome_def cas_update_def sql_bump_epoch_def split: option.splits if_splits)

lemma record_and_bump_refines:
  assumes "sql_record_outcome u i x fence db = (Inr n, db1)" and "n \<noteq> 0"
    and "sql_bump_epoch u db1 = (Inr e', db2)" and "advances_epoch x"
  shows "refines_user u db db2"
  using assms(1-3)
proof (rule record_and_bump)
  fix r e
  assume a: "ld_intents db u = Some r" "ld_epochs db u = Some e" "ir_status r = IntentActive"
    and db2: "db2 = db\<lparr>ld_epochs := (ld_epochs db)(u \<mapsto> e + 1),
       ld_intents := (ld_intents db)(u \<mapsto> r\<lparr>ir_status := IntentOutcomeRecorded, ir_provider_outcome := x,
          ir_lease_expires_at := None, ir_updated_at := ld_now db\<rparr>)\<rparr>"
  have "life_step \<lparr>lf_epoch = e, lf_intent = Some (life_of_row r)\<rparr>
      \<lparr>lf_epoch = e + 1, lf_intent = Some ((life_of_row r)\<lparr>li_status := IntentOutcomeRecorded, li_provider := x\<rparr>)\<rparr>"
    using ls_advance [of "\<lparr>lf_epoch = e, lf_intent = Some (life_of_row r)\<rparr>" "life_of_row r" x] a assms(4)
    by simp
  then show "refines_user u db db2"
    using a unfolding db2
    by (auto simp: refines_user_def ledger_wf_def life_of_def life_rel_def split: option.splits)
qed

section \<open>Every method refines the lifecycle\<close>

lemma io_call_refines:
  assumes "refines_user u (fst c) (snd (f (fst c)))"
  shows "refines_user u (fst c) (fst (snd (io_call e f c)))"
  using assms io_call_state [of e f c] by auto

lemma fenced_state: "fst (snd (fenced stmt c)) = fst (snd (io_call ErrSecInfra stmt c))"
  by (auto simp: fenced_def split: prod.splits sum.splits)

lemma advance_epoch_body:
  assumes "(case fenced (sql_record_outcome u i x fence) c of
         (Inl e, c') \<Rightarrow> (Inl e, c')
       | (Inr _, c') \<Rightarrow> io_call ErrSecInfra (sql_bump_epoch u) c') = (Inr e', c2)"
  obtains n db1 where "sql_record_outcome u i x fence (fst c) = (Inr n, db1)" "n \<noteq> 0"
    "sql_bump_epoch u db1 = (Inr e', fst c2)"
proof -
  from assms obtain n c1 where 1: "io_call ErrSecInfra (sql_record_outcome u i x fence) c = (Inr n, c1)"
      "n \<noteq> 0" "io_call ErrSecInfra (sql_bump_epoch u) c1 = (Inr e', c2)"
    by (auto simp: fenced_def split: prod.splits sum.splits if_splits)
  from that [of n "fst c1"] io_call_ok [OF 1(1)] 1(2) io_call_ok [OF 1(3)] show thesis by simp
qed

lemma advance_epoch_refines:
  assumes "advances_epoch x"
  shows "refines_user u (fst c) (fst (snd (advance_epoch u i x fence c)))"
  unfolding advance_epoch_def
proof (rule tx_run_inv [where P = "refines_user u (fst c)"])
  show "refines_user u (fst c) (fst c)" by simp
next
  fix c1 e' c2
  assume "fst c1 = fst c" and b: "(case fenced (sql_record_outcome u i x fence) c1 of
         (Inl e, c') \<Rightarrow> (Inl e, c')
       | (Inr _, c') \<Rightarrow> io_call ErrSecInfra (sql_bump_epoch u) c') = (Inr e', c2)"
  from b obtain n db1 where "sql_record_outcome u i x fence (fst c1) = (Inr n, db1)" "n \<noteq> 0"
    "sql_bump_epoch u db1 = (Inr e', fst c2)" by (rule advance_epoch_body)
  then show "refines_user u (fst c) (fst c2)"
    using record_and_bump_refines assms \<open>fst c1 = fst c\<close> by metis
qed

text \<open>The calls of the store, as data, for a step relation over any interleaving of workers.\<close>

datatype ledger_call =
  CallGetSecurityState user_id
| CallCurrentEpoch user_id
| CallAcquireIntent user_id duration
| CallSettleConfirmedFailure user_id int
| CallRecordOutcome user_id int provider_outcome
| CallTakeoverExpired user_id int time
| CallBeginSettlement user_id int
| CallSettle user_id int settlement_outcome
| CallBumpAttempts user_id int

fun ledger_exec :: "ledger_call \<Rightarrow> pg \<Rightarrow> pg" where
  "ledger_exec (CallGetSecurityState u) c = snd (pg_get_security_state u c)"
| "ledger_exec (CallCurrentEpoch u) c = snd (pg_current_epoch u c)"
| "ledger_exec (CallAcquireIntent u ttl) c = snd (pg_acquire_intent u ttl c)"
| "ledger_exec (CallSettleConfirmedFailure u i) c = snd (pg_settle_confirmed_failure u i c)"
| "ledger_exec (CallRecordOutcome u i x) c = snd (pg_record_outcome_advance_epoch u i x c)"
| "ledger_exec (CallTakeoverExpired u i now) c = snd (pg_takeover_expired_advance_epoch u i now c)"
| "ledger_exec (CallBeginSettlement u i) c = snd (pg_begin_settlement u i c)"
| "ledger_exec (CallSettle u i y) c = snd (pg_settle u i y c)"
| "ledger_exec (CallBumpAttempts u i) c = snd (pg_bump_settlement_attempts u i c)"

fun call_user :: "ledger_call \<Rightarrow> user_id" where
  "call_user (CallGetSecurityState u) = u"
| "call_user (CallCurrentEpoch u) = u"
| "call_user (CallAcquireIntent u ttl) = u"
| "call_user (CallSettleConfirmedFailure u i) = u"
| "call_user (CallRecordOutcome u i x) = u"
| "call_user (CallTakeoverExpired u i now) = u"
| "call_user (CallBeginSettlement u i) = u"
| "call_user (CallSettle u i y) = u"
| "call_user (CallBumpAttempts u i) = u"

text \<open>The service records success or unknown only (\<open>RecordOutcome\<close> refuses anything else).\<close>

fun call_admissible :: "ledger_call \<Rightarrow> bool" where
  "call_admissible (CallRecordOutcome u i x) = advances_epoch x"
| "call_admissible _ = True"

lemma acquire_intent_state:
  "fst (snd (pg_acquire_intent u ttl c)) = fst (snd (io_call ErrSecInfra (sql_acquire_intent u ttl) c))"
proof -
  have "fst (snd (acquire_no_row u c')) = fst c'" for c'
    using io_call_pure [of "sql_user_exists u" ErrSecInfra c']
    by (auto simp: acquire_no_row_def sql_user_exists_def split: prod.splits sum.splits)
  then have "\<And>a b x a' b'. acquire_no_row u (a, b) = (x, a', b') \<Longrightarrow> a' = a"
    by (metis fst_conv snd_conv)
  then show ?thesis
    by (auto simp: pg_acquire_intent_def split: prod.splits sum.splits option.splits)
qed

lemma bump_attempts_state:
  "fst (snd (pg_bump_settlement_attempts u i c)) = fst (snd (io_call ErrSecInfra (sql_bump_attempts u i) c))"
  by (auto simp: pg_bump_settlement_attempts_def split: prod.splits sum.splits option.splits)

lemma read_refines:
  "refines_user u db (snd (sql_get_security_state u db))"
  "refines_user u db (snd (sql_current_epoch u db))"
  by (auto simp: sql_get_security_state_def sql_current_epoch_def split: option.splits)

lemma ledger_exec_refines:
  "call_admissible k \<Longrightarrow> refines_user (call_user k) (fst c) (fst (ledger_exec k c))"
  by (cases k)
     (simp_all add: pg_get_security_state_def pg_current_epoch_def pg_settle_confirmed_failure_def
        pg_record_outcome_advance_epoch_def pg_takeover_expired_advance_epoch_def
        pg_begin_settlement_def pg_settle_def acquire_intent_state bump_attempts_state fenced_state
        io_call_refines read_refines acquire_refines confirm_failure_refines begin_settlement_refines
        settle_refines bump_attempts_refines advance_epoch_refines advances_epoch_def)

inductive ledger_step :: "pg \<Rightarrow> pg \<Rightarrow> bool" where
  ledger_call: "call_admissible k \<Longrightarrow> ledger_step c (ledger_exec k c)"
| ledger_env: "ld_now (fst c) \<le> t \<Longrightarrow> ledger_step c ((fst c)\<lparr>ld_now := t\<rparr>, fs)"

inductive_cases ledger_stepE: "ledger_step c c'"

lemma ledger_step_life:
  assumes "ledger_step c c'" and "ledger_wf (fst c)"
  shows "ledger_wf (fst c') \<and> (\<forall>u. life_rel (life_of (fst c) u) (life_of (fst c') u))"
  using assms
proof (induction rule: ledger_step.induct)
  case (ledger_call k c)
  then show ?case
    using ledger_exec_refines [of k c] by (metis life_rel_refl refines_user_def)
next
  case (ledger_env c t fs)
  then show ?case by (simp add: ledger_wf_def life_of_def)
qed

lemma ledger_steps_wf: "ledger_step\<^sup>*\<^sup>* c c' \<Longrightarrow> ledger_wf (fst c) \<Longrightarrow> ledger_wf (fst c')"
  by (induction rule: rtranclp_induct) (auto dest: ledger_step_life)

lemma ledger_steps_life:
  assumes "ledger_step\<^sup>*\<^sup>* c c'" and "ledger_wf (fst c)" and "life_of (fst c) u = Some v"
  shows "\<exists>w. life_of (fst c') u = Some w \<and> life_step\<^sup>*\<^sup>* v w"
  using assms
proof (induction rule: rtranclp_induct)
  case base
  then show ?case by blast
next
  case (step c1 c2)
  then obtain w where w: "life_of (fst c1) u = Some w" "life_step\<^sup>*\<^sup>* v w" by blast
  have "ledger_wf (fst c1)" using ledger_steps_wf step by blast
  then have "life_rel (life_of (fst c1) u) (life_of (fst c2) u)"
    using ledger_step_life step.hyps(2) by blast
  with w obtain w' where "life_of (fst c2) u = Some w'" "life_step\<^sup>=\<^sup>= w w'"
    by (auto simp: life_rel_def split: option.splits)
  with w show ?case by (auto intro: rtranclp.rtrancl_into_rtrancl)
qed

section \<open>Exactly one advance per intent\<close>

lemma consumed_after_advance:
  assumes "advance_epoch u n x fence c = (Inr e, c')" and "advances_epoch x"
  shows "\<exists>v w. life_of (fst c) u = Some v \<and> life_of (fst c') u = Some w
     \<and> lf_epoch w = lf_epoch v + 1 \<and> e = lf_epoch w \<and> consumed n w"
proof -
  from tx_run_ok [OF assms(1) [unfolded advance_epoch_def]] obtain c1 c2 where
    c1: "fst c1 = fst c" and "fst c' = fst c2" and
    b: "(case fenced (sql_record_outcome u n x fence) c1 of
         (Inl e, c') \<Rightarrow> (Inl e, c')
       | (Inr _, c') \<Rightarrow> io_call ErrSecInfra (sql_bump_epoch u) c') = (Inr e, c2)" by blast
  from b obtain k db1 where "sql_record_outcome u n x fence (fst c1) = (Inr k, db1)" "k \<noteq> 0"
    "sql_bump_epoch u db1 = (Inr e, fst c2)" by (rule advance_epoch_body)
  then show ?thesis
    using c1 \<open>fst c' = fst c2\<close>
    by (elim record_and_bump) (auto simp: life_of_def consumed_def)
qed

lemma consumed_refuses:
  assumes "life_of (fst c) u = Some v" and "consumed n v"
  shows "(\<forall>e. fst (advance_epoch u n x fence c) \<noteq> Inr e) \<and> fst (snd (advance_epoch u n x fence c)) = fst c"
proof -
  have no: "sql_record_outcome u n x fence (fst c) = (Inr 0, fst c)"
    using assms
    by (auto simp: life_of_def consumed_def sql_record_outcome_def cas_update_def split: option.splits)
  have body: "\<exists>er c2. (case fenced (sql_record_outcome u n x fence) c1 of
         (Inl e, c') \<Rightarrow> (Inl e, c')
       | (Inr _, c') \<Rightarrow> io_call ErrSecInfra (sql_bump_epoch u) c') = (Inl er, c2)"
    if "fst c1 = fst c" for c1
  proof -
    obtain r c2 where "io_call ErrSecInfra (sql_record_outcome u n x fence) c1 = (r, c2)"
      by (cases "io_call ErrSecInfra (sql_record_outcome u n x fence) c1") blast
    then show ?thesis
      using no that io_call_ok [of ErrSecInfra "sql_record_outcome u n x fence" c1 _ c2]
      by (cases r) (auto simp: fenced_def)
  qed
  show ?thesis
  proof (cases rule: tx_run_cases [of ErrSecInfra "\<lambda>c. case fenced (sql_record_outcome u n x fence) c of
         (Inl e, c') \<Rightarrow> (Inl e, c')
       | (Inr _, c') \<Rightarrow> io_call ErrSecInfra (sql_bump_epoch u) c'" c])
    case (commit_failed v c1 c2 c3)
    with body [of c1] show ?thesis by auto
  next
    case (committed v c1 c2 c3)
    with body [of c1] show ?thesis by auto
  qed (simp_all add: advance_epoch_def)
qed

section \<open>Properties\<close>

text \<open>
  C1.  Every method of the PostgreSQL security-state store, under every schedule of
  infrastructure faults, refines the abstract intent lifecycle: the named user makes at most
  one lifecycle step, nobody else changes, and the tables stay well formed.
\<close>

theorem ledger_refines_lifecycle:
  assumes "call_admissible k" and "ledger_wf (fst c)"
  shows "ledger_wf (fst (ledger_exec k c))
    \<and> life_rel (life_of (fst c) (call_user k)) (life_of (fst (ledger_exec k c)) (call_user k))
    \<and> (\<nexists>x. x \<noteq> call_user k \<and> life_of (fst (ledger_exec k c)) x \<noteq> life_of (fst c) x)"
  using ledger_exec_refines [OF assms(1), of c] assms(2) by (auto simp: refines_user_def)

definition demo_ledger :: ledger_db where
  "demo_ledger = \<lparr>ld_epochs = [''u'' \<mapsto> 1], ld_intents = [''u'' \<mapsto>
     \<lparr>ir_intent_id = 7, ir_status = IntentActive, ir_epoch_at_acquire = 1,
      ir_provider_outcome = ProviderOutcomeNone, ir_settlement_outcome = SettlementOutcomeNone,
      ir_lease_expires_at = Some 50, ir_settlement_attempts = 0, ir_created_at = 0, ir_updated_at = 0,
      ir_settled_at = None\<rparr>], ld_seq = 7, ld_now = 10\<rparr>"

lemma demo_ledger_wf: "ledger_wf demo_ledger"
  by (auto simp: ledger_wf_def demo_ledger_def split: if_splits)

lemma demo_ledger_life: "\<exists>v. life_of demo_ledger ''u'' = Some v \<and> life_inv v"
  by (simp add: life_of_def demo_ledger_def life_inv_def life_of_row_def)

theorem ledger_refines_lifecycle_witness:
  "call_admissible (CallRecordOutcome ''u'' 7 ProviderOutcomeSuccess)
   \<and> ledger_wf (fst (ledger_exec (CallRecordOutcome ''u'' 7 ProviderOutcomeSuccess) (demo_ledger, [NoFault, NoFault, NoFault, FaultAfter])))"
  using ledger_refines_lifecycle [of "CallRecordOutcome ''u'' 7 ProviderOutcomeSuccess"
      "(demo_ledger, [NoFault, NoFault, NoFault, FaultAfter])"] demo_ledger_wf
  by (simp add: advances_epoch_def)

text \<open>
  In every state reachable by any interleaving of store calls, faults and passing time the
  security epoch of a user never decreases, and it stands exactly one above the epoch stamped at
  acquisition once an outcome that may have reached the provider is recorded, and equal to it
  while the intent is active or was settled by a confirmed failure.
\<close>

theorem epoch_phase_invariant:
  assumes "ledger_step\<^sup>*\<^sup>* c c'" and "ledger_wf (fst c)"
    and "life_of (fst c) u = Some v" and "life_inv v"
  shows "\<exists>w. life_of (fst c') u = Some w \<and> life_inv w \<and> lf_epoch v \<le> lf_epoch w"
  using ledger_steps_life [OF assms(1-3)] assms(4) life_steps_inv life_steps_epoch by blast

theorem epoch_phase_invariant_witness:
  "\<exists>w. life_of (fst (ledger_exec (CallTakeoverExpired ''u'' 7 60) (demo_ledger, []))) ''u'' = Some w \<and> life_inv w"
proof -
  have "ledger_step\<^sup>*\<^sup>* (demo_ledger, []) (ledger_exec (CallTakeoverExpired ''u'' 7 60) (demo_ledger, []))"
    by (rule r_into_rtranclp, rule ledger_call) simp
  from epoch_phase_invariant [OF this] demo_ledger_wf demo_ledger_life show ?thesis by fastforce
qed

text \<open>
  The epoch advances exactly once per intent: a successful outcome recording (or expiry
  takeover) raises it by one, and whatever happens afterwards, a second recording or takeover
  under the same intent id is refused and leaves the tables as they are.
\<close>

theorem epoch_advances_once_per_intent:
  assumes "ledger_wf (fst c)" and "advances_epoch x"
    and "advance_epoch u n x fence c = (Inr e, c1)" and "ledger_step\<^sup>*\<^sup>* c1 c2"
  shows "(\<exists>v. life_of (fst c) u = Some v \<and> e = lf_epoch v + 1)
    \<and> (\<nexists>e'. fst (advance_epoch u n y fence' c2) = Inr e')
    \<and> fst (snd (advance_epoch u n y fence' c2)) = fst c2"
proof -
  from consumed_after_advance [OF assms(3,2)] obtain v w where
    v: "life_of (fst c) u = Some v" and w: "life_of (fst c1) u = Some w"
    and e: "lf_epoch w = lf_epoch v + 1" "e = lf_epoch w" and "consumed n w" by blast
  have "ledger_wf (fst c1)"
    using advance_epoch_refines [OF assms(2), of u c n fence] assms(1,3)
    by (simp add: refines_user_def)
  from ledger_steps_life [OF assms(4) this w] obtain w' where
    w': "life_of (fst c2) u = Some w'" "life_step\<^sup>*\<^sup>* w w'" by blast
  then have "consumed n w'" using \<open>consumed n w\<close> consumed_steps by blast
  from consumed_refuses [OF w'(1) this] v e show ?thesis by auto
qed

theorem epoch_advances_once_per_intent_witness:
  "\<exists>c1. advance_epoch ''u'' 7 ProviderOutcomeSuccess None (demo_ledger, []) = (Inr 2, c1)
     \<and> (\<nexists>e'. fst (advance_epoch ''u'' 7 ProviderOutcomeUnknown (Some 60) c1) = Inr e')"
proof -
  obtain c1 where c1: "advance_epoch ''u'' 7 ProviderOutcomeSuccess None (demo_ledger, []) = (Inr 2, c1)"
    by (simp add: advance_epoch_def tx_run_def fenced_def sql_record_outcome_def cas_update_def
        lease_passes_def sql_bump_epoch_def demo_ledger_def)
  from epoch_advances_once_per_intent [OF _ _ this, of c1 ProviderOutcomeUnknown "Some 60"]
  show ?thesis using c1 demo_ledger_wf by (auto simp: advances_epoch_def)
qed

end
