(* ===== verification/SecurityService.thy ===== *)
theory SecurityService
  imports SecurityLifecycle
begin

text \<open>
  The security-state service of \<open>internal/securitystate/service.go\<close>: promotion validation,
  the consumption gate, the mutation lifecycle and the takeover and recovery of abandoned
  intents.  Like the Go code it is written against the interface \<open>Ledger\<close> (a record of
  functions here) and the \<open>SettlementCleaner\<close>; the locale \<open>security_ledger\<close> states what an
  implementation of the interface promises, the lemmas of the service are proved from it, and
  the interpretation at the end discharges it for the PostgreSQL store.
\<close>

section \<open>Verdicts and barriers\<close>

datatype promotion_verdict = PromotionAllowed | PromotionEpochStale | PromotionDeniedTransient

definition barrier_active :: "sec_state \<Rightarrow> bool" where
  "barrier_active st \<longleftrightarrow>
     (case ss_intent st of None \<Rightarrow> False | Some it \<Rightarrow> in_status it = IntentActive)"

definition barrier_sensitive :: "sec_state \<Rightarrow> bool" where
  "barrier_sensitive st \<longleftrightarrow>
     (case ss_intent st of None \<Rightarrow> False | Some it \<Rightarrow> \<not> terminal (in_status it))"

section \<open>The interfaces\<close>

record 'w ledger_ops =
  op_get_security_state :: "user_id \<Rightarrow> 'w \<Rightarrow> (sec_error + sec_state) \<times> 'w"
  op_current_epoch :: "user_id \<Rightarrow> 'w \<Rightarrow> (sec_error + epoch) \<times> 'w"
  op_acquire_intent :: "user_id \<Rightarrow> duration \<Rightarrow> 'w \<Rightarrow> (sec_error + intent) \<times> 'w"
  op_settle_confirmed_failure :: "user_id \<Rightarrow> int \<Rightarrow> 'w \<Rightarrow> (sec_error + unit) \<times> 'w"
  op_record_outcome :: "user_id \<Rightarrow> int \<Rightarrow> provider_outcome \<Rightarrow> 'w \<Rightarrow> (sec_error + epoch) \<times> 'w"
  op_takeover_expired :: "user_id \<Rightarrow> int \<Rightarrow> time \<Rightarrow> 'w \<Rightarrow> (sec_error + epoch) \<times> 'w"
  op_begin_settlement :: "user_id \<Rightarrow> int \<Rightarrow> 'w \<Rightarrow> (sec_error + unit) \<times> 'w"
  op_settle :: "user_id \<Rightarrow> int \<Rightarrow> settlement_outcome \<Rightarrow> 'w \<Rightarrow> (sec_error + unit) \<times> 'w"
  op_bump_attempts :: "user_id \<Rightarrow> int \<Rightarrow> 'w \<Rightarrow> (sec_error + int) \<times> 'w"

text \<open>\<open>RevokeSessionsBeforeEpoch\<close>; \<open>None\<close> is the cleaner that was never wired.\<close>

type_synonym 'w cleaner = "(user_id \<Rightarrow> epoch \<Rightarrow> 'w \<Rightarrow> (sec_error + int) \<times> 'w) option"

text \<open>\<open>RotateFunc\<close>: \<open>Inr True\<close> is a vanished session, \<open>Inl\<close> an infrastructure failure.\<close>

type_synonym 'w rotate = "('w \<Rightarrow> (sec_error + bool) \<times> 'w) option"

record sec_config =
  sc_lease_ttl :: duration
  sc_max_settlement_attempts :: int

section \<open>Reads\<close>

definition evaluate_promotion ::
  "'w ledger_ops \<Rightarrow> user_id \<Rightarrow> epoch \<Rightarrow> 'w \<Rightarrow> (promotion_verdict \<times> bool) \<times> 'w" where
  "evaluate_promotion L u record_epoch w =
     (case op_get_security_state L u w of
        (Inl _, w') \<Rightarrow> ((PromotionDeniedTransient, False), w')
      | (Inr st, w') \<Rightarrow>
          (case ss_intent st of
             None \<Rightarrow>
               if record_epoch < ss_epoch st then ((PromotionEpochStale, False), w')
               else ((PromotionAllowed, False), w')
           | Some it \<Rightarrow>
               if in_status it = IntentActive then ((PromotionDeniedTransient, True), w')
               else if record_epoch < ss_epoch st then ((PromotionEpochStale, True), w')
               else ((PromotionAllowed, True), w')))"

definition allow_sensitive_consumption ::
  "'w ledger_ops \<Rightarrow> user_id \<Rightarrow> epoch \<Rightarrow> 'w \<Rightarrow> (sec_error + unit) \<times> 'w" where
  "allow_sensitive_consumption L u stamped w =
     (case op_get_security_state L u w of
        (Inl e, w') \<Rightarrow> (Inl e, w')
      | (Inr st, w') \<Rightarrow>
          if stamped \<noteq> ss_epoch st then (Inl ErrEpochStale, w')
          else if barrier_sensitive st then (Inl ErrBarrierHeld, w')
          else (Inr (), w'))"

section \<open>Settlement\<close>

record settlement_result =
  sr_outcome :: settlement_outcome
  sr_rotated :: bool

definition no_settlement :: settlement_result where
  "no_settlement = \<lparr>sr_outcome = SettlementOutcomeNone, sr_rotated = False\<rparr>"

datatype rotation = NotRotated | Rotated | RotateVanished | RotateFailed

definition run_rotate :: "'w rotate \<Rightarrow> 'w \<Rightarrow> rotation \<times> 'w" where
  "run_rotate rotator w =
     (case rotator of
        None \<Rightarrow> (NotRotated, w)
      | Some f \<Rightarrow>
          (case f w of
             (Inl _, w') \<Rightarrow> (RotateFailed, w')
           | (Inr gone, w') \<Rightarrow> (if gone then RotateVanished else Rotated, w')))"

definition settlement_class :: "provider_outcome \<Rightarrow> rotation \<Rightarrow> settlement_outcome" where
  "settlement_class p r =
     (if p = ProviderOutcomeUnknown then SettlementOutcomeDegraded
      else if r = RotateFailed then SettlementOutcomeDegraded
      else if r = RotateVanished then SettlementOutcomeSettledRelogin
      else SettlementOutcomeSettled)"

text \<open>The result and the error are returned side by side, as in Go.\<close>

definition settle_claimed ::
  "'w ledger_ops \<Rightarrow> (user_id \<Rightarrow> epoch \<Rightarrow> 'w \<Rightarrow> (sec_error + int) \<times> 'w) \<Rightarrow> intent \<Rightarrow> epoch
     \<Rightarrow> 'w rotate \<Rightarrow> 'w \<Rightarrow> (settlement_result \<times> sec_error option) \<times> 'w" where
  "settle_claimed L clean it new_epoch rotator w =
     (case run_rotate rotator w of
        (rot, w1) \<Rightarrow>
          (case clean (in_user_id it) new_epoch w1 of
             (Inl e, w2) \<Rightarrow>
               (case op_settle L (in_user_id it) (in_intent_id it) SettlementOutcomeDegraded w2 of
                  (_, w3) \<Rightarrow>
                    ((\<lparr>sr_outcome = SettlementOutcomeDegraded, sr_rotated = (rot = Rotated)\<rparr>, Some e), w3))
           | (Inr _, w2) \<Rightarrow>
               (let outcome = settlement_class (in_provider_outcome it) rot
                in case op_settle L (in_user_id it) (in_intent_id it) outcome w2 of
                     (Inl e, w3) \<Rightarrow> ((no_settlement, Some e), w3)
                   | (Inr _, w3) \<Rightarrow> ((\<lparr>sr_outcome = outcome, sr_rotated = (rot = Rotated)\<rparr>, None), w3))))"

definition settle_intent ::
  "'w ledger_ops \<Rightarrow> 'w cleaner \<Rightarrow> intent \<Rightarrow> epoch \<Rightarrow> 'w rotate \<Rightarrow> 'w
     \<Rightarrow> (settlement_result \<times> sec_error option) \<times> 'w" where
  "settle_intent L cleaner it new_epoch rotator w =
     (case cleaner of
        None \<Rightarrow> ((no_settlement, Some (ErrSecRefused ''cleaner not configured'')), w)
      | Some clean \<Rightarrow>
          if in_status it \<noteq> IntentOutcomeRecorded \<and> in_status it \<noteq> IntentLocalSettlement
          then ((no_settlement, Some (ErrSecRefused ''cannot settle intent'')), w)
          else if in_status it = IntentOutcomeRecorded
          then (case op_begin_settlement L (in_user_id it) (in_intent_id it) w of
                  (Inl e, w') \<Rightarrow> ((no_settlement, Some e), w')
                | (Inr _, w') \<Rightarrow> settle_claimed L clean it new_epoch rotator w')
          else settle_claimed L clean it new_epoch rotator w)"

section \<open>Recovery\<close>

definition force_degrade_settle :: "'w ledger_ops \<Rightarrow> intent \<Rightarrow> 'w \<Rightarrow> sec_error option \<times> 'w" where
  "force_degrade_settle L it w =
     (case op_settle L (in_user_id it) (in_intent_id it) SettlementOutcomeDegraded w of
        (Inl e, w') \<Rightarrow> (if e = ErrFenceLost then None else Some e, w')
      | (Inr _, w') \<Rightarrow> (None, w'))"

definition force_degrade :: "'w ledger_ops \<Rightarrow> intent \<Rightarrow> 'w \<Rightarrow> sec_error option \<times> 'w" where
  "force_degrade L it w =
     (if in_status it = IntentOutcomeRecorded
      then (case op_begin_settlement L (in_user_id it) (in_intent_id it) w of
              (Inl e, w') \<Rightarrow> (if e = ErrFenceLost then None else Some e, w')
            | (Inr _, w') \<Rightarrow> force_degrade_settle L it w')
      else force_degrade_settle L it w)"

definition resume_settlement ::
  "'w ledger_ops \<Rightarrow> 'w cleaner \<Rightarrow> sec_config \<Rightarrow> intent \<Rightarrow> epoch \<Rightarrow> 'w \<Rightarrow> sec_error option \<times> 'w" where
  "resume_settlement L cleaner cfg it epoch w =
     (case op_bump_attempts L (in_user_id it) (in_intent_id it) w of
        (Inl e, w') \<Rightarrow> (if e = ErrFenceLost then None else Some e, w')
      | (Inr attempts, w') \<Rightarrow>
          if attempts > sc_max_settlement_attempts cfg then force_degrade L it w'
          else (case settle_intent L cleaner it epoch None w' of
                  ((_, err), w'') \<Rightarrow> (if err = Some ErrFenceLost then None else err, w'')))"

text \<open>
  \<open>now1\<close> and \<open>now2\<close> are the two readings of the service clock, before the lease test and for
  the takeover statement.
\<close>

definition recover ::
  "'w ledger_ops \<Rightarrow> 'w cleaner \<Rightarrow> sec_config \<Rightarrow> time \<Rightarrow> time \<Rightarrow> user_id \<Rightarrow> 'w \<Rightarrow> sec_error option \<times> 'w" where
  "recover L cleaner cfg now1 now2 u w =
     (case op_get_security_state L u w of
        (Inl e, w1) \<Rightarrow> (Some e, w1)
      | (Inr st, w1) \<Rightarrow>
          (case ss_intent st of
             None \<Rightarrow> (None, w1)
           | Some it \<Rightarrow>
               (case in_status it of
                  IntentSettled \<Rightarrow> (None, w1)
                | IntentActive \<Rightarrow>
                    if now1 < in_lease_expires_at it then (None, w1)
                    else (case op_takeover_expired L u (in_intent_id it) now2 w1 of
                            (Inl e, w2) \<Rightarrow> (if e = ErrFenceLost then None else Some e, w2)
                          | (Inr new_epoch, w2) \<Rightarrow>
                              resume_settlement L cleaner cfg
                                (it\<lparr>in_status := IntentOutcomeRecorded,
                                    in_provider_outcome := ProviderOutcomeUnknown\<rparr>) new_epoch w2)
                | _ \<Rightarrow> resume_settlement L cleaner cfg it (ss_epoch st) w1)))"

definition acquire ::
  "'w ledger_ops \<Rightarrow> 'w cleaner \<Rightarrow> sec_config \<Rightarrow> time \<Rightarrow> time \<Rightarrow> user_id \<Rightarrow> 'w
     \<Rightarrow> (sec_error + intent) \<times> 'w" where
  "acquire L cleaner cfg now1 now2 u w =
     (case recover L cleaner cfg now1 now2 u w of
        (_, w') \<Rightarrow> op_acquire_intent L u (sc_lease_ttl cfg) w')"

definition record_outcome ::
  "'w ledger_ops \<Rightarrow> user_id \<Rightarrow> int \<Rightarrow> provider_outcome \<Rightarrow> 'w \<Rightarrow> (sec_error + epoch) \<times> 'w" where
  "record_outcome L u i x w =
     (if \<not> advances_epoch x then (Inl (ErrSecRefused ''record outcome requires success or unknown''), w)
      else op_record_outcome L u i x w)"

definition service_settle_confirmed_failure ::
  "'w ledger_ops \<Rightarrow> user_id \<Rightarrow> int \<Rightarrow> 'w \<Rightarrow> (sec_error + unit) \<times> 'w" where
  "service_settle_confirmed_failure L = op_settle_confirmed_failure L"

lemmas recovery_defs = recover_def resume_settlement_def force_degrade_def force_degrade_settle_def
  settle_intent_def settle_claimed_def run_rotate_def

section \<open>What an implementation of the ledger promises\<close>

definition life_reach :: "life option \<Rightarrow> life option \<Rightarrow> bool" where
  "life_reach a b = (case (a, b) of
     (None, None) \<Rightarrow> True | (Some v, Some w) \<Rightarrow> life_step\<^sup>*\<^sup>* v w | _ \<Rightarrow> False)"

lemma life_reach_refl [simp]: "life_reach a a"
  by (simp add: life_reach_def split: option.splits)

lemma life_reach_trans: "life_reach a b \<Longrightarrow> life_reach b c \<Longrightarrow> life_reach a c"
  by (auto simp: life_reach_def split: option.splits)

lemma life_rel_reach: "life_rel a b \<Longrightarrow> life_reach a b"
  by (auto simp: life_rel_def life_reach_def split: option.splits)

text \<open>An effect that keeps the implementation's invariant and moves every user along the lifecycle.\<close>

definition tracks ::
  "('w \<Rightarrow> user_id \<Rightarrow> life option) \<Rightarrow> ('w \<Rightarrow> bool) \<Rightarrow> ('w \<Rightarrow> bool) \<Rightarrow> 'w \<Rightarrow> 'w \<Rightarrow> bool" where
  "tracks life okw up w w' \<longleftrightarrow>
     (okw w \<longrightarrow> okw w' \<and> (\<forall>u. life_reach (life w u) (life w' u))) \<and> (up w \<longrightarrow> up w')"

lemma tracks_refl [simp]: "tracks life okw up w w"
  by (simp add: tracks_def)

lemma tracks_trans: "tracks life okw up a b \<Longrightarrow> tracks life okw up b c \<Longrightarrow> tracks life okw up a c"
  by (auto simp: tracks_def intro: life_reach_trans)

definition holds ::
  "('w \<Rightarrow> user_id \<Rightarrow> life option) \<Rightarrow> 'w \<Rightarrow> user_id \<Rightarrow> epoch \<Rightarrow> int \<Rightarrow> intent_status \<Rightarrow> bool" where
  "holds life w u e i s \<longleftrightarrow>
     (\<exists>v li. life w u = Some v \<and> lf_epoch v = e \<and> lf_intent v = Some li \<and> li_id li = i \<and> li_status li = s)"

text \<open>What a read may return of the abstract intent: the non-terminal one, and nothing else.\<close>

definition sees :: "user_id \<Rightarrow> time \<Rightarrow> life_intent option \<Rightarrow> intent option \<Rightarrow> bool" where
  "sees u lease a b = (case b of
     None \<Rightarrow> (case a of None \<Rightarrow> True | Some li \<Rightarrow> li_status li = IntentSettled)
   | Some it \<Rightarrow> (case a of None \<Rightarrow> False | Some li \<Rightarrow>
       li_status li \<noteq> IntentSettled \<and> in_user_id it = u \<and> in_intent_id it = li_id li
       \<and> in_status it = li_status li \<and> in_provider_outcome it = li_provider li
       \<and> in_lease_expires_at it = lease))"

locale security_ledger =
  fixes L :: "'w ledger_ops"
    and life :: "'w \<Rightarrow> user_id \<Rightarrow> life option"
    and lease :: "'w \<Rightarrow> user_id \<Rightarrow> time"
    and okw :: "'w \<Rightarrow> bool"
    and up :: "'w \<Rightarrow> bool"
  assumes get_frame: "op_get_security_state L u w = (r, w') \<Longrightarrow>
      life w' = life w \<and> lease w' = lease w \<and> (okw w \<longrightarrow> okw w') \<and> (up w \<longrightarrow> up w')"
    and get_value: "op_get_security_state L u w = (Inr st, w') \<Longrightarrow>
      \<exists>v. life w u = Some v \<and> ss_epoch st = lf_epoch v \<and> sees u (lease w u) (lf_intent v) (ss_intent st)"
    and get_up: "up w \<Longrightarrow> life w u = Some v \<Longrightarrow> \<exists>st w'. op_get_security_state L u w = (Inr st, w')"
    and acquire_tracks: "op_acquire_intent L u ttl w = (ra, w') \<Longrightarrow> tracks life okw up w w'"
    and takeover_tracks: "op_takeover_expired L u i now w = (re, w') \<Longrightarrow> tracks life okw up w w'"
    and record_tracks: "advances_epoch x \<Longrightarrow> op_record_outcome L u i x w = (re, w') \<Longrightarrow> tracks life okw up w w'"
    and begin_tracks: "op_begin_settlement L u i w = (ru, w') \<Longrightarrow> tracks life okw up w w'"
    and settle_tracks: "op_settle L u i y w = (ru, w') \<Longrightarrow> tracks life okw up w w'"
    and bump_tracks: "op_bump_attempts L u i w = (rn, w') \<Longrightarrow> tracks life okw up w w' \<and> life w' = life w"
    and takeover_up: "up w \<Longrightarrow> holds life w u e i IntentActive \<Longrightarrow> lease w u < now \<Longrightarrow>
      \<exists>w'. op_takeover_expired L u i now w = (Inr (e + 1), w') \<and> holds life w' u (e + 1) i IntentOutcomeRecorded"
    and begin_up: "up w \<Longrightarrow> holds life w u e i IntentOutcomeRecorded \<Longrightarrow>
      \<exists>w'. op_begin_settlement L u i w = (Inr (), w') \<and> holds life w' u e i IntentLocalSettlement"
    and settle_up: "up w \<Longrightarrow> holds life w u e i IntentLocalSettlement \<Longrightarrow>
      \<exists>w'. op_settle L u i y w = (Inr (), w') \<and> holds life w' u e i IntentSettled"
    and bump_up: "up w \<Longrightarrow> holds life w u e i s \<Longrightarrow> s \<noteq> IntentSettled \<Longrightarrow>
      \<exists>n w'. op_bump_attempts L u i w = (Inr n, w')"
begin

lemma promotion_verdict:
  assumes "evaluate_promotion L u e w = ((verdict, seen), w')"
  shows "verdict = PromotionAllowed \<Longrightarrow>
      \<exists>v. life w u = Some v \<and> lf_epoch v \<le> e
        \<and> (\<nexists>li. lf_intent v = Some li \<and> li_status li = IntentActive)"
    and "verdict = PromotionEpochStale \<Longrightarrow> \<exists>v. life w u = Some v \<and> e < lf_epoch v"
    and "life w' = life w"
  using assms get_frame [of u w] get_value [of u w]
  by (fastforce simp: evaluate_promotion_def sees_def split: prod.splits sum.splits option.splits if_splits)+

lemma stale_never_promoted:
  assumes "life w u = Some v" and "e < lf_epoch v"
  shows "fst (fst (evaluate_promotion L u e w)) \<noteq> PromotionAllowed"
  using promotion_verdict(1) [of u e w] assms
  by (metis linorder_not_less option.inject prod.collapse)

lemma consumption_gate:
  assumes "allow_sensitive_consumption L u e w = (Inr (), w')"
  shows "\<exists>v. life w u = Some v \<and> lf_epoch v = e
      \<and> (\<nexists>li. lf_intent v = Some li \<and> li_status li \<noteq> IntentSettled)"
  using assms get_value [of u w]
  by (fastforce simp: allow_sensitive_consumption_def sees_def barrier_sensitive_def terminal_def
        split: prod.splits sum.splits option.splits if_splits)

end

locale settling_ledger = security_ledger L life lease okw up
  for L :: "'w ledger_ops" and life lease okw up +
  fixes clean :: "user_id \<Rightarrow> epoch \<Rightarrow> 'w \<Rightarrow> (sec_error + int) \<times> 'w"
  assumes clean_frame: "clean u e w = (r, w') \<Longrightarrow>
      life w' = life w \<and> (okw w \<longrightarrow> okw w') \<and> (up w \<longrightarrow> up w')"
begin

lemma clean_tracks: "clean u e w = (r, w') \<Longrightarrow> tracks life okw up w w'"
  using clean_frame by (simp add: tracks_def)

lemma settle_claimed_tracks:
  "settle_claimed L clean it e None w = (r, w') \<Longrightarrow> tracks life okw up w w'"
  by (auto simp: settle_claimed_def run_rotate_def Let_def split: prod.splits sum.splits
        intro: tracks_trans dest!: clean_tracks settle_tracks)

lemma settle_intent_tracks:
  "settle_intent L (Some clean) it e None w = (r, w') \<Longrightarrow> tracks life okw up w w'"
  by (auto simp: settle_intent_def split: prod.splits sum.splits if_splits
        intro: tracks_trans dest!: settle_claimed_tracks begin_tracks)

lemma force_degrade_tracks: "force_degrade L it w = (r, w') \<Longrightarrow> tracks life okw up w w'"
  by (auto simp: force_degrade_def force_degrade_settle_def split: prod.splits sum.splits if_splits
        intro: tracks_trans dest!: begin_tracks settle_tracks)

lemma resume_settlement_tracks:
  assumes "resume_settlement L (Some clean) cfg it e w = (r, w')"
  shows "tracks life okw up w w'"
proof (cases "op_bump_attempts L (in_user_id it) (in_intent_id it) w")
  case (Pair rn w1)
  then have 1: "tracks life okw up w w1" using bump_tracks by blast
  show ?thesis
  proof (cases rn)
    case (Inl a)
    with assms Pair 1 show ?thesis by (auto simp: resume_settlement_def split: if_splits)
  next
    case (Inr n)
    with assms Pair have "tracks life okw up w1 w'"
      by (auto simp: resume_settlement_def split: if_splits prod.splits
          dest!: force_degrade_tracks settle_intent_tracks)
    with 1 show ?thesis by (rule tracks_trans)
  qed
qed

lemma get_tracks: "op_get_security_state L u w = (r, w') \<Longrightarrow> tracks life okw up w w'"
  using get_frame by (simp add: tracks_def)

lemma recover_tracks:
  assumes "recover L (Some clean) cfg t1 t2 u w = (r, w')"
  shows "tracks life okw up w w'"
  using assms
  by (auto simp: recover_def split: prod.splits sum.splits option.splits intent_status.splits if_splits
        intro: tracks_trans dest!: get_tracks takeover_tracks resume_settlement_tracks)

text \<open>Liveness: with the ledger up, a recovery that is due settles the intent, cleaner failing or not.\<close>

lemma up_tracks: "tracks life okw up w w' \<Longrightarrow> up w \<Longrightarrow> up w'"
  by (simp add: tracks_def)

lemma settle_claimed_settles:
  assumes "up w" and "holds life w u e i IntentLocalSettlement"
    and "in_user_id it = u" and "in_intent_id it = i"
  shows "holds life (snd (settle_claimed L clean it e' None w)) u e i IntentSettled"
proof -
  obtain r w2 where c: "clean u e' w = (r, w2)" by (cases "clean u e' w") blast
  from clean_frame [OF c] assms have "up w2" "holds life w2 u e i IntentLocalSettlement"
    by (simp_all add: holds_def)
  note s = settle_up [OF this]
  obtain w3 where s1: "op_settle L u i SettlementOutcomeDegraded w2 = (Inr (), w3)"
    "holds life w3 u e i IntentSettled" using s by blast
  obtain w4 where s2: "op_settle L u i (settlement_class (in_provider_outcome it) NotRotated) w2 = (Inr (), w4)"
    "holds life w4 u e i IntentSettled" using s by blast
  show ?thesis
    by (cases r) (simp_all add: settle_claimed_def run_rotate_def Let_def c s1 s2 assms(3,4))
qed

lemma settle_intent_settles:
  assumes "up w" and "holds life w u e i (in_status it)" and "post_epoch (in_status it)"
    and "in_user_id it = u" and "in_intent_id it = i"
  shows "holds life (snd (settle_intent L (Some clean) it e' None w)) u e i IntentSettled"
proof (cases "in_status it = IntentOutcomeRecorded")
  case True
  with begin_up [of w u e i] assms obtain w' where
    b: "op_begin_settlement L u i w = (Inr (), w')" and h: "holds life w' u e i IntentLocalSettlement" by auto
  have "up w'" using up_tracks [OF begin_tracks [OF b]] assms(1) by simp
  from settle_claimed_settles [OF this h assms(4,5), of e'] show ?thesis
    using True b assms(4,5) by (simp add: settle_intent_def)
next
  case False
  with assms(3) have "in_status it = IntentLocalSettlement" by (simp add: post_epoch_def)
  with assms show ?thesis
    by (simp add: settle_intent_def settle_claimed_settles)
qed

lemma force_degrade_settles:
  assumes "up w" and "holds life w u e i (in_status it)" and "post_epoch (in_status it)"
    and "in_user_id it = u" and "in_intent_id it = i"
  shows "holds life (snd (force_degrade L it w)) u e i IntentSettled"
proof (cases "in_status it = IntentOutcomeRecorded")
  case True
  with begin_up [of w u e i] assms obtain w' where
    b: "op_begin_settlement L u i w = (Inr (), w')" and h: "holds life w' u e i IntentLocalSettlement" by auto
  have "up w'" using up_tracks [OF begin_tracks [OF b]] assms(1) by simp
  from settle_up [OF this h, of SettlementOutcomeDegraded] show ?thesis
    using True b assms(4,5) by (auto simp: force_degrade_def force_degrade_settle_def)
next
  case False
  with assms have "holds life w u e i IntentLocalSettlement" by (simp add: post_epoch_def)
  from settle_up [OF assms(1) this, of SettlementOutcomeDegraded] show ?thesis
    using False assms(4,5) by (auto simp: force_degrade_def force_degrade_settle_def)
qed

lemma resume_settles:
  assumes "up w" and "holds life w u e i (in_status it)" and "post_epoch (in_status it)"
    and "in_user_id it = u" and "in_intent_id it = i"
  shows "holds life (snd (resume_settlement L (Some clean) cfg it e' w)) u e i IntentSettled"
proof -
  from bump_up [OF assms(1,2)] assms(3) obtain n w1 where b: "op_bump_attempts L u i w = (Inr n, w1)"
    by (auto simp: post_epoch_def)
  from bump_tracks [OF b] assms have "up w1" "holds life w1 u e i (in_status it)"
    by (simp_all add: holds_def tracks_def)
  note h = force_degrade_settles [OF this assms(3-5)] settle_intent_settles [OF this assms(3-5), of e']
  obtain x y where "settle_intent L (Some clean) it e' None w1 = (x, y)"
    by (cases "settle_intent L (Some clean) it e' None w1") blast
  with h b show ?thesis
    by (cases x) (simp add: resume_settlement_def assms(4,5))
qed

lemma recover_settles:
  assumes "up w" and "holds life w u e i s" and "s \<noteq> IntentSettled"
    and "s = IntentActive \<Longrightarrow> lease w u \<le> t1 \<and> lease w u < t2"
  shows "holds life (snd (recover L (Some clean) cfg t1 t2 u w)) u
     (if s = IntentActive then e + 1 else e) i IntentSettled"
proof -
  obtain v li where v: "life w u = Some v" "lf_intent v = Some li"
    "lf_epoch v = e" "li_id li = i" "li_status li = s" using assms(2) by (auto simp: holds_def)
  from get_up [OF assms(1) v(1)] obtain st w1 where g: "op_get_security_state L u w = (Inr st, w1)" by blast
  from get_frame [OF g] assms(1,2) have w1: "up w1" "holds life w1 u e i s" "lease w1 = lease w"
    by (simp_all add: holds_def)
  from get_value [OF g] v have "sees u (lease w u) (Some li) (ss_intent st)" by auto
  with v assms(3) obtain it where it: "ss_intent st = Some it" "in_user_id it = u" "in_intent_id it = i"
    "in_status it = s" "in_lease_expires_at it = lease w u"
    by (auto simp: sees_def split: option.splits)
  show ?thesis
  proof (cases "s = IntentActive")
    case True
    let ?it = "it\<lparr>in_status := IntentOutcomeRecorded, in_provider_outcome := ProviderOutcomeUnknown\<rparr>"
    from takeover_up [of w1 u e i t2] True w1 assms(4) obtain w2 where
      t: "op_takeover_expired L u i t2 w1 = (Inr (e + 1), w2)"
      and h: "holds life w2 u (e + 1) i IntentOutcomeRecorded" by auto
    have "up w2" using up_tracks [OF takeover_tracks [OF t] w1(1)] .
    from resume_settles [OF this, of u "e + 1" i ?it cfg "e + 1"] h it
    show ?thesis using g t True it assms(4) by (simp add: recover_def post_epoch_def)
  next
    case False
    with assms(3) have "post_epoch s" by (cases s) (auto simp: post_epoch_def)
    with resume_settles [of w1 u e i it cfg "ss_epoch st"] w1 it False g assms(3)
    show ?thesis by (cases s) (auto simp: recover_def post_epoch_def)
  qed
qed

end

section \<open>The PostgreSQL store keeps the promise\<close>

text \<open>
  The world of the service is the PostgreSQL connection next to everything else (\<open>'r\<close>: the
  session store the cleaner walks); the methods of the store leave the latter alone.
\<close>

definition on_pg :: "(pg \<Rightarrow> 'a \<times> pg) \<Rightarrow> pg \<times> 'r \<Rightarrow> 'a \<times> (pg \<times> 'r)" where
  "on_pg f w = (fst (f (fst w)), (snd (f (fst w)), snd w))"

definition on_rest :: "('r \<Rightarrow> 'a \<times> 'r) \<Rightarrow> pg \<times> 'r \<Rightarrow> 'a \<times> (pg \<times> 'r)" where
  "on_rest f w = (fst (f (snd w)), (fst w, snd (f (snd w))))"

definition pg_ledger :: "(pg \<times> 'r) ledger_ops" where
  "pg_ledger = \<lparr>
     op_get_security_state = \<lambda>u. on_pg (pg_get_security_state u),
     op_current_epoch = \<lambda>u. on_pg (pg_current_epoch u),
     op_acquire_intent = \<lambda>u ttl. on_pg (pg_acquire_intent u ttl),
     op_settle_confirmed_failure = \<lambda>u i. on_pg (pg_settle_confirmed_failure u i),
     op_record_outcome = \<lambda>u i x. on_pg (pg_record_outcome_advance_epoch u i x),
     op_takeover_expired = \<lambda>u i now. on_pg (pg_takeover_expired_advance_epoch u i now),
     op_begin_settlement = \<lambda>u i. on_pg (pg_begin_settlement u i),
     op_settle = \<lambda>u i y. on_pg (pg_settle u i y),
     op_bump_attempts = \<lambda>u i. on_pg (pg_bump_settlement_attempts u i)\<rparr>"

definition pg_life :: "pg \<times> 'r \<Rightarrow> user_id \<Rightarrow> life option" where
  "pg_life w = life_of (fst (fst w))"

definition pg_lease :: "pg \<times> 'r \<Rightarrow> user_id \<Rightarrow> time" where
  "pg_lease w u = (case ld_intents (fst (fst w)) u of
     None \<Rightarrow> zero_time | Some r \<Rightarrow> in_lease_expires_at (row_intent u r))"

definition pg_okw :: "pg \<times> 'r \<Rightarrow> bool" where
  "pg_okw w = ledger_wf (fst (fst w))"

text \<open>Every active intent has a lease, which the acquisition gave it.\<close>

definition leased :: "ledger_db \<Rightarrow> bool" where
  "leased db \<longleftrightarrow> (\<forall>u r. ld_intents db u = Some r \<longrightarrow> ir_status r = IntentActive \<longrightarrow> ir_lease_expires_at r \<noteq> None)"

definition pg_up :: "pg \<times> 'r \<Rightarrow> bool" where
  "pg_up w \<longleftrightarrow> healthy (fst w) \<and> leased (fst (fst w))"

lemma leased_upd:
  "leased db \<Longrightarrow> ir_status r \<noteq> IntentActive \<or> ir_lease_expires_at r \<noteq> None \<Longrightarrow>
   leased (db\<lparr>ld_intents := (ld_intents db)(u \<mapsto> r)\<rparr>)"
  by (auto simp: leased_def)

lemma leased_cas_update:
  assumes "leased db" and "\<And>r. guard r \<Longrightarrow> ir_status (upd db r) \<noteq> IntentActive"
  shows "leased (snd (cas_update u i guard upd db))"
  using assms by (auto simp: cas_update_def intro!: leased_upd split: option.splits)

lemma leased_sql:
  assumes "leased db"
  shows "leased (snd (sql_get_security_state u db))" and "leased (snd (sql_user_exists u db))"
    and "leased (snd (sql_acquire_intent u ttl db))"
    and "leased (snd (sql_settle_confirmed_failure u i db))"
    and "leased (snd (sql_record_outcome u i x fence db))"
    and "leased (snd (sql_bump_epoch u db))"
    and "leased (snd (sql_begin_settlement u i db))"
    and "leased (snd (sql_settle u i y db))"
    and "leased (snd (sql_bump_attempts u i db))"
proof -
  show "leased (snd (sql_acquire_intent u ttl db))"
    using assms by (auto simp: sql_acquire_intent_def Let_def leased_def split: option.splits)
  show "leased (snd (sql_bump_attempts u i db))"
    using assms by (auto simp: sql_bump_attempts_def leased_def split: option.splits)
qed (use assms in \<open>auto simp: sql_get_security_state_def sql_user_exists_def sql_bump_epoch_def
    sql_settle_confirmed_failure_def sql_record_outcome_def sql_begin_settlement_def sql_settle_def
    leased_def [of "_\<lparr>ld_epochs := _\<rparr>"] intro!: leased_cas_update dest: leased_def [THEN iffD1] split: option.splits\<close>)

lemma leased_io_call:
  "leased (fst c) \<Longrightarrow> (leased (fst c) \<Longrightarrow> leased (snd (f (fst c)))) \<Longrightarrow> leased (fst (snd (io_call e f c)))"
  by (rule io_call_inv [where P = leased])

lemma healthy_io_call_snd: "healthy c \<Longrightarrow> healthy (snd (io_call e f c))"
  by (cases c) (simp add: healthy_io_call)

lemma healthy_fenced: "healthy c \<Longrightarrow> healthy (snd (fenced stmt c))"
  using healthy_io_call_snd [of c ErrSecInfra stmt]
  by (auto simp: fenced_def split: prod.splits sum.splits)

lemma healthy_tx_run:
  assumes "healthy c" and "\<And>c1. healthy c1 \<Longrightarrow> healthy (snd (body c1))"
  shows "healthy (snd (tx_run e body c))"
proof -
  obtain db fs where c: "c = (db, fs)" by (cases c)
  with assms(1) have h: "healthy (db, tl fs)" by simp
  obtain r c2 where b: "body (db, tl fs) = (r, c2)" by (cases "body (db, tl fs)") blast
  with assms(2) [OF h] have h2: "healthy c2" by simp
  then have "healthy (db, snd c2)" using healthy_db [of "fst c2" "snd c2" db] by simp
  with h2 show ?thesis
    using assms(1) b
    by (cases r) (auto simp: c tx_run_def healthy_io_call intro: healthy_tl healthy_db)
qed

lemma advance_epoch_up:
  assumes "healthy c" and "leased (fst c)"
  shows "healthy (snd (advance_epoch u i x fence c)) \<and> leased (fst (snd (advance_epoch u i x fence c)))"
proof
  show "healthy (snd (advance_epoch u i x fence c))"
    unfolding advance_epoch_def
  proof (rule healthy_tx_run [OF assms(1)])
    fix c1 :: pg
    assume "healthy c1"
    then have "healthy (snd (fenced (sql_record_outcome u i x fence) c1))" by (rule healthy_fenced)
    then show "healthy (snd (case fenced (sql_record_outcome u i x fence) c1 of
         (Inl e, c') \<Rightarrow> (Inl e, c') | (Inr _, c') \<Rightarrow> io_call ErrSecInfra (sql_bump_epoch u) c'))"
      by (auto intro!: healthy_io_call_snd split: prod.splits sum.splits)
  qed
  show "leased (fst (snd (advance_epoch u i x fence c)))"
    unfolding advance_epoch_def
  proof (rule tx_run_inv [where P = leased, OF assms(2)])
    fix c1 v c2
    assume c1: "fst c1 = fst c" and "(case fenced (sql_record_outcome u i x fence) c1 of
         (Inl e, c') \<Rightarrow> (Inl e, c') | (Inr _, c') \<Rightarrow> io_call ErrSecInfra (sql_bump_epoch u) c') = (Inr v, c2)"
    from this(2) obtain n db1 where "sql_record_outcome u i x fence (fst c1) = (Inr n, db1)"
      "sql_bump_epoch u db1 = (Inr v, fst c2)" by (rule advance_epoch_body)
    with leased_sql(5) [OF assms(2), of u i x fence] leased_sql(6) [of db1 u] c1
    show "leased (fst c2)" by simp
  qed
qed

text \<open>A method that refines the named user's lifecycle tracks it in the larger world.\<close>

lemma on_pg_tracks:
  assumes "on_pg f w = (r, w')" and "refines_user u (fst (fst w)) (fst (snd (f (fst w))))"
    and "healthy (fst w) \<Longrightarrow> leased (fst (fst w)) \<Longrightarrow> healthy (snd (f (fst w))) \<and> leased (fst (snd (f (fst w))))"
  shows "tracks pg_life pg_okw pg_up w w'"
proof -
  have w': "fst w' = snd (f (fst w))" using assms(1) by (auto simp: on_pg_def)
  show ?thesis
    using assms(2,3) unfolding tracks_def pg_okw_def pg_up_def pg_life_def w' refines_user_def
    by (metis life_reach_refl life_rel_reach)
qed

lemma io_call_up:
  assumes "healthy c" and "leased (fst c)" and "leased (fst c) \<Longrightarrow> leased (snd (f (fst c)))"
  shows "healthy (snd (io_call e f c)) \<and> leased (fst (snd (io_call e f c)))"
  using assms by (blast intro: healthy_io_call_snd leased_io_call)

lemma fenced_up:
  assumes "healthy c" and "leased (fst c)" and "leased (fst c) \<Longrightarrow> leased (snd (stmt (fst c)))"
  shows "healthy (snd (fenced stmt c)) \<and> leased (fst (snd (fenced stmt c)))"
  using assms by (simp add: healthy_fenced fenced_state leased_io_call)

lemma healthy_acquire: "healthy c \<Longrightarrow> healthy (snd (pg_acquire_intent u ttl c))"
proof -
  assume "healthy c"
  then have 1: "healthy (snd (io_call ErrSecInfra (sql_acquire_intent u ttl) c))" by (rule healthy_io_call_snd)
  have 2: "healthy (snd (acquire_no_row u c'))" if "healthy c'" for c'
    using healthy_io_call_snd [OF that, of ErrSecInfra "sql_user_exists u"]
    by (auto simp: acquire_no_row_def split: prod.splits sum.splits)
  obtain r c' where io: "io_call ErrSecInfra (sql_acquire_intent u ttl) c = (r, c')"
    by (cases "io_call ErrSecInfra (sql_acquire_intent u ttl) c") blast
  with 1 have "healthy c'" by simp
  obtain x c'' where no: "acquire_no_row u c' = (x, c'')" by (cases "acquire_no_row u c'") blast
  with 2 [OF \<open>healthy c'\<close>] have "healthy c''" by simp
  with \<open>healthy c'\<close> io no show ?thesis
    by (simp add: pg_acquire_intent_def split: sum.splits option.splits)
qed

lemma healthy_bump: "healthy c \<Longrightarrow> healthy (snd (pg_bump_settlement_attempts u i c))"
  using healthy_io_call_snd [of c ErrSecInfra "sql_bump_attempts u i"]
  by (auto simp: pg_bump_settlement_attempts_def split: prod.splits sum.splits option.splits)

lemma bump_life: "life_of (snd (sql_bump_attempts u i db)) = life_of db"
  by (auto simp: sql_bump_attempts_def life_of_def fun_eq_iff split: option.splits)

lemma read_state: "fst (snd (io_call e (sql_get_security_state u) c)) = fst c"
  by (rule io_call_pure) (auto simp: sql_get_security_state_def split: option.splits)


section \<open>The interpretation\<close>

lemma pg_ledger_ops [simp]:
  "op_get_security_state pg_ledger u = on_pg (pg_get_security_state u)"
  "op_acquire_intent pg_ledger u ttl = on_pg (pg_acquire_intent u ttl)"
  "op_settle_confirmed_failure pg_ledger u i = on_pg (pg_settle_confirmed_failure u i)"
  "op_record_outcome pg_ledger u i x = on_pg (pg_record_outcome_advance_epoch u i x)"
  "op_takeover_expired pg_ledger u i now = on_pg (pg_takeover_expired_advance_epoch u i now)"
  "op_begin_settlement pg_ledger u i = on_pg (pg_begin_settlement u i)"
  "op_settle pg_ledger u i y = on_pg (pg_settle u i y)"
  "op_bump_attempts pg_ledger u i = on_pg (pg_bump_settlement_attempts u i)"
  by (simp_all add: pg_ledger_def)

lemma pg_get_frame:
  "on_pg (pg_get_security_state u) w = (r, w') \<Longrightarrow>
   pg_life w' = pg_life w \<and> pg_lease w' = pg_lease w \<and> (pg_okw w \<longrightarrow> pg_okw w') \<and> (pg_up w \<longrightarrow> pg_up w')"
  using healthy_io_call_snd [of "fst w" ErrSecInfra "sql_get_security_state u"]
  by (auto simp: on_pg_def pg_get_security_state_def pg_life_def pg_lease_def pg_okw_def pg_up_def
      read_state fun_eq_iff)

lemma pg_get_value:
  assumes "on_pg (pg_get_security_state u) w = (Inr st, w')"
  shows "\<exists>v. pg_life w u = Some v \<and> ss_epoch st = lf_epoch v
    \<and> sees u (pg_lease w u) (lf_intent v) (ss_intent st)"
proof -
  from assms have "io_call ErrSecInfra (sql_get_security_state u) (fst w)
      = (Inr st, snd (io_call ErrSecInfra (sql_get_security_state u) (fst w)))"
    by (auto simp: on_pg_def pg_get_security_state_def intro: prod_eqI)
  from io_call_ok [OF this] obtain e where e: "ld_epochs (fst (fst w)) u = Some e"
    and st: "st = \<lparr>ss_epoch = e, ss_intent = (case ld_intents (fst (fst w)) u of None \<Rightarrow> None
        | Some r \<Rightarrow> if ir_status r = IntentSettled then None else Some (row_intent u r))\<rparr>"
    by (auto simp: sql_get_security_state_def split: option.splits)
  have "pg_life w u = Some \<lparr>lf_epoch = e, lf_intent = map_option life_of_row (ld_intents (fst (fst w)) u)\<rparr>"
    using e by (simp add: pg_life_def life_of_def)
  then show ?thesis
    by (cases "ld_intents (fst (fst w)) u")
       (auto simp: st sees_def pg_lease_def row_intent_def life_of_row_def)
qed

lemma pg_get_up:
  assumes "pg_up w" and "pg_life w u = Some v"
  shows "\<exists>st w'. on_pg (pg_get_security_state u) w = (Inr st, w')"
  using assms
  by (auto simp: pg_up_def on_pg_def pg_get_security_state_def healthy_io_call
      sql_get_security_state_def pg_life_def life_of_def)

lemma fenced_healthy:
  "healthy c \<Longrightarrow> stmt (fst c) = (Inr (Suc 0), db) \<Longrightarrow> fenced stmt c = (Inr (), (db, tl (snd c)))"
  by (simp add: fenced_def healthy_io_call)

lemma pg_fenced_up:
  assumes "pg_up w" and "stmt (fst (fst w)) = (Inr (Suc 0), db)" and "holds (\<lambda>_. life_of db) () u e i s"
  shows "\<exists>w'. on_pg (fenced stmt) w = (Inr (), w') \<and> holds pg_life w' u e i s"
  using assms
  by (simp add: on_pg_def pg_up_def fenced_healthy holds_def pg_life_def)

lemma holds_rowE:
  assumes "holds pg_life w u e i s"
  obtains r where "ld_epochs (fst (fst w)) u = Some e" "ld_intents (fst (fst w)) u = Some r"
    "ir_intent_id r = i" "ir_status r = s"
  using assms by (auto simp: holds_def pg_life_def life_of_def)

lemma pg_begin_up:
  assumes "pg_up w" and "holds pg_life w u e i IntentOutcomeRecorded"
  shows "\<exists>w'. on_pg (pg_begin_settlement u i) w = (Inr (), w') \<and> holds pg_life w' u e i IntentLocalSettlement"
  unfolding pg_begin_settlement_def using assms(2)
  by (elim holds_rowE, intro pg_fenced_up [OF assms(1)])
     (auto simp: sql_begin_settlement_def cas_update_def holds_def life_of_def)

lemma pg_settle_up:
  assumes "pg_up w" and "holds pg_life w u e i IntentLocalSettlement"
  shows "\<exists>w'. on_pg (pg_settle u i y) w = (Inr (), w') \<and> holds pg_life w' u e i IntentSettled"
  unfolding pg_settle_def using assms(2)
  by (elim holds_rowE, intro pg_fenced_up [OF assms(1)])
     (auto simp: sql_settle_def cas_update_def holds_def life_of_def)

lemma pg_bump_up:
  assumes "pg_up w" and "holds pg_life w u e i s" and "s \<noteq> IntentSettled"
  shows "\<exists>n w'. on_pg (pg_bump_settlement_attempts u i) w = (Inr n, w')"
  using assms
  by (elim holds_rowE) (auto simp: on_pg_def pg_up_def pg_bump_settlement_attempts_def healthy_io_call
      sql_bump_attempts_def)

lemma pg_takeover_up:
  assumes "pg_up w" and "holds pg_life w u e i IntentActive" and "pg_lease w u < now"
  shows "\<exists>w'. on_pg (pg_takeover_expired_advance_epoch u i now) w = (Inr (e + 1), w')
     \<and> holds pg_life w' u (e + 1) i IntentOutcomeRecorded"
proof -
  from assms(2) obtain r where r: "ld_epochs (fst (fst w)) u = Some e" "ld_intents (fst (fst w)) u = Some r"
    "ir_intent_id r = i" "ir_status r = IntentActive" by (rule holds_rowE)
  with assms(1,3) have lease: "lease_passes (Some now) r"
    by (auto simp: pg_up_def leased_def pg_lease_def row_intent_def lease_passes_def split: option.splits)
  obtain db fs rest where w: "w = ((db, fs), rest)" by (metis prod.collapse)
  from assms(1) have h: "healthy (db, fs)" by (simp add: pg_up_def w)
  have "healthy (x, tl fs)" "healthy (x, tl (tl fs))" "healthy (x, tl (tl (tl fs)))" for x
    using h by (metis healthy_tl)+
  then show ?thesis
    using r lease h
    by (simp add: w on_pg_def pg_takeover_expired_advance_epoch_def advance_epoch_def tx_run_def
        healthy_io_call fenced_healthy sql_record_outcome_def cas_update_def sql_bump_epoch_def
        holds_def pg_life_def life_of_def)
qed

lemma sum_state_tracks:
  "on_pg (pg_acquire_intent u ttl) w = (ra, w') \<Longrightarrow> tracks pg_life pg_okw pg_up w w'"
  by (erule on_pg_tracks [where u = u])
     (simp_all add: acquire_intent_state io_call_refines acquire_refines healthy_acquire leased_io_call leased_sql(3))

lemma pg_advance_tracks:
  "advances_epoch x \<Longrightarrow> on_pg (advance_epoch u i x fence) w = (re, w') \<Longrightarrow> tracks pg_life pg_okw pg_up w w'"
  by (erule on_pg_tracks [where u = u]) (auto simp: advance_epoch_refines advance_epoch_up)

lemma pg_fenced_tracks:
  assumes "on_pg (fenced stmt) w = (ru, w')" and "\<And>db. refines_user u db (snd (stmt db))"
    and "\<And>db. leased db \<Longrightarrow> leased (snd (stmt db))"
  shows "tracks pg_life pg_okw pg_up w w'"
  using assms(1)
proof (rule on_pg_tracks [where u = u])
  show "refines_user u (fst (fst w)) (fst (snd (fenced stmt (fst w))))"
    using assms(2) by (simp add: fenced_state io_call_refines)
qed (use assms(3) fenced_up in blast)

lemma pg_bump_tracks:
  assumes "on_pg (pg_bump_settlement_attempts u i) w = (rn, w')"
  shows "tracks pg_life pg_okw pg_up w w' \<and> pg_life w' = pg_life w"
proof
  show "tracks pg_life pg_okw pg_up w w'"
    by (rule on_pg_tracks [where u = u, OF assms])
      (simp_all add: bump_attempts_state io_call_refines bump_attempts_refines healthy_bump leased_io_call leased_sql(9))
  show "pg_life w' = pg_life w"
    using assms io_call_state [of ErrSecInfra "sql_bump_attempts u i" "fst w"] bump_life [of u i "fst (fst w)"]
    by (auto simp: on_pg_def pg_life_def bump_attempts_state)
qed

text \<open>
  A cleaner that works on the rest of the world only, as the session store does.
\<close>

lemma pg_frame_rest:
  "on_rest f w = (r, w') \<Longrightarrow>
   pg_life w' = pg_life w \<and> (pg_okw w \<longrightarrow> pg_okw w') \<and> (pg_up w \<longrightarrow> pg_up w')"
  by (auto simp: on_rest_def pg_life_def pg_okw_def pg_up_def)

lemmas pg_takeover_tracks = pg_advance_tracks [where x = ProviderOutcomeUnknown and fence = "Some now" for now,
    simplified advances_epoch_def, simplified, folded pg_takeover_expired_advance_epoch_def]

lemmas pg_record_tracks = pg_advance_tracks [where fence = None, folded pg_record_outcome_advance_epoch_def]

lemma pg_begin_tracks: "on_pg (pg_begin_settlement u i) w = (ru, w') \<Longrightarrow> tracks pg_life pg_okw pg_up w w'"
  unfolding pg_begin_settlement_def
  by (erule pg_fenced_tracks) (rule begin_settlement_refines, rule leased_sql)

lemma pg_settle_tracks: "on_pg (pg_settle u i y) w = (ru, w') \<Longrightarrow> tracks pg_life pg_okw pg_up w w'"
  unfolding pg_settle_def
  by (erule pg_fenced_tracks) (rule settle_refines, rule leased_sql)

interpretation pgl: settling_ledger pg_ledger pg_life pg_lease pg_okw pg_up "\<lambda>u e. on_rest (clean u e)"
  for clean :: "user_id \<Rightarrow> epoch \<Rightarrow> 'r \<Rightarrow> (sec_error + int) \<times> 'r"
  by (unfold_locales, unfold pg_ledger_ops)
     (fact pg_get_frame pg_get_value pg_get_up sum_state_tracks pg_takeover_tracks pg_record_tracks
        pg_begin_tracks pg_settle_tracks pg_bump_tracks pg_takeover_up pg_begin_up pg_settle_up pg_bump_up
        pg_frame_rest)+


section \<open>Properties\<close>

lemma settled_implies_clean:
  assumes "settle_claimed L clean it e rotator w = ((res, None), w')"
    and "sr_outcome res \<noteq> SettlementOutcomeDegraded"
  shows "(\<exists>w1 w2 n. clean (in_user_id it) e w1 = (Inr n, w2)
        \<and> op_settle L (in_user_id it) (in_intent_id it) (sr_outcome res) w2 = (Inr (), w'))
    \<and> in_provider_outcome it \<noteq> ProviderOutcomeUnknown"
  using assms
  by (fastforce simp: settle_claimed_def settlement_class_def Let_def
      split: prod.splits sum.splits if_splits)

text \<open>
  C2.  A session whose stamped epoch is below the ledger's is never promoted: whatever
  interleaving of store calls by any workers, faults and passing time follows, promotion
  validation on the PostgreSQL ledger never allows it again.
\<close>

theorem stale_epoch_never_promoted_again:
  assumes "ledger_step\<^sup>*\<^sup>* c c'" and "ledger_wf (fst c)"
    and "life_of (fst c) u = Some v" and "e < lf_epoch v"
  shows "fst (fst (evaluate_promotion pg_ledger u e (c', r))) \<noteq> PromotionAllowed"
proof -
  from ledger_steps_life [OF assms(1-3)] obtain w where
    "life_of (fst c') u = Some w" "life_step\<^sup>*\<^sup>* v w" by blast
  then have "pg_life (c', r) u = Some w" "e < lf_epoch w"
    using life_steps_epoch assms(4) by (fastforce simp: pg_life_def)+
  then show ?thesis by (rule pgl.stale_never_promoted)
qed

theorem stale_epoch_never_promoted_again_witness:
  "fst (fst (evaluate_promotion pg_ledger ''u'' 1
      (ledger_exec (CallTakeoverExpired ''u'' 7 60) (demo_ledger, []), ()))) \<noteq> PromotionAllowed"
proof -
  let ?c = "ledger_exec (CallTakeoverExpired ''u'' 7 60) (demo_ledger, [])"
  have "ledger_step\<^sup>*\<^sup>* (demo_ledger, []) ?c"
    by (rule r_into_rtranclp, rule ledger_call) simp
  then have wf': "ledger_wf (fst ?c)" using ledger_steps_wf demo_ledger_wf by fastforce
  obtain v where "life_of (fst ?c) ''u'' = Some v" "lf_epoch v = 2"
    by (simp add: pg_takeover_expired_advance_epoch_def advance_epoch_def tx_run_def fenced_def
        sql_record_outcome_def cas_update_def lease_passes_def sql_bump_epoch_def demo_ledger_def life_of_def)
  from stale_epoch_never_promoted_again [OF rtranclp.rtrancl_refl wf' this(1), of 1 "()"] this(2)
  show ?thesis by simp
qed

text \<open>
  The consumption gate fails closed and is exact: under every schedule of faults it admits
  only a credential stamped with the current epoch while no non-terminal intent exists, and
  with the ledger reachable it admits every such credential.
\<close>

definition may_consume :: "ledger_db \<Rightarrow> user_id \<Rightarrow> epoch \<Rightarrow> bool" where
  "may_consume db u e \<longleftrightarrow> ld_epochs db u = Some e \<and>
     (case ld_intents db u of None \<Rightarrow> True | Some r \<Rightarrow> ir_status r = IntentSettled)"

theorem consumption_gate_exact:
  "fst (allow_sensitive_consumption pg_ledger u e ((db, fs), r)) = Inr ()
     \<longleftrightarrow> may_consume db u e \<and> (fs = [] \<or> hd fs = NoFault)"
  by (cases "(ErrSecInfra, sql_get_security_state u, (db, fs))" rule: io_call.cases)
     (auto simp: allow_sensitive_consumption_def on_pg_def pg_get_security_state_def
        sql_get_security_state_def may_consume_def barrier_sensitive_def terminal_def row_intent_def
        split: option.splits)

text \<open>
  C7.  Abandoned intents are always settled by the inline recovery: with the ledger reachable,
  one recovery of a user whose intent is in a post-epoch phase, or active with an expired
  lease, ends with that intent settled, the epoch advanced exactly when it was still active,
  whatever the session cleaner returns.
\<close>

theorem recover_settles_abandoned_intent:
  assumes "healthy c" and "leased (fst c)"
    and "ld_intents (fst c) u = Some row" and "ld_epochs (fst c) u = Some e"
    and "ir_status row \<noteq> IntentSettled"
    and "ir_status row = IntentActive \<Longrightarrow> ir_lease_expires_at row = Some t \<and> t \<le> now1 \<and> t < now2"
  shows "\<exists>row'. ld_intents (fst (fst (snd (recover pg_ledger (Some (\<lambda>u e. on_rest (clean u e))) cfg now1 now2 u (c, r))))) u
        = Some row'
     \<and> ir_intent_id row' = ir_intent_id row \<and> ir_status row' = IntentSettled
     \<and> ld_epochs (fst (fst (snd (recover pg_ledger (Some (\<lambda>u e. on_rest (clean u e))) cfg now1 now2 u (c, r))))) u
        = Some (if ir_status row = IntentActive then e + 1 else e)"
proof -
  have "pg_up (c, r)" using assms(1,2) by (simp add: pg_up_def)
  moreover have "holds pg_life (c, r) u e (ir_intent_id row) (ir_status row)"
    using assms(3,4) by (simp add: holds_def pg_life_def life_of_def)
  moreover have "ir_status row = IntentActive \<Longrightarrow> pg_lease (c, r) u \<le> now1 \<and> pg_lease (c, r) u < now2"
    using assms(3,6) by (simp add: pg_lease_def row_intent_def)
  ultimately have "holds pg_life (snd (recover pg_ledger (Some (\<lambda>u e. on_rest (clean u e))) cfg now1 now2 u (c, r)))
     u (if ir_status row = IntentActive then e + 1 else e) (ir_intent_id row) IntentSettled"
    by (rule pgl.recover_settles [OF _ _ assms(5)])
  then show ?thesis by (elim holds_rowE) auto
qed

lemma demo_leased: "leased demo_ledger"
  by (auto simp: leased_def demo_ledger_def split: if_splits)

lemma demo_ledger_row: "\<exists>row. ld_intents demo_ledger ''u'' = Some row \<and> ir_status row = IntentActive
    \<and> ir_lease_expires_at row = Some 50" "ld_epochs demo_ledger ''u'' = Some 1"
  by (simp_all add: demo_ledger_def)

theorem recover_settles_abandoned_intent_witness:
  "ld_epochs (fst (fst (snd (recover pg_ledger (Some (\<lambda>u e. on_rest (\<lambda>r. (Inl ErrSecInfra, r))))
     \<lparr>sc_lease_ttl = 30, sc_max_settlement_attempts = 3\<rparr> 51 52 ''u'' ((demo_ledger, []), ()))))) ''u'' = Some 2"
proof -
  obtain row where "ld_intents demo_ledger ''u'' = Some row" "ir_status row = IntentActive"
    "ir_lease_expires_at row = Some 50" using demo_ledger_row(1) by blast
  then show ?thesis
    using recover_settles_abandoned_intent [where c = "(demo_ledger, [])" and u = "''u''" and e = 1 and t = 50
      and ?now1.0 = 51 and ?now2.0 = 52 and clean = "\<lambda>u e r. (Inl ErrSecInfra, r)" and r = "()"
      and cfg = "\<lparr>sc_lease_ttl = 30, sc_max_settlement_attempts = 3\<rparr>" and row = row]
      demo_leased demo_ledger_row(2)
    by auto
qed

text \<open>
  Recovery, under any schedule of faults and with any outcome of the cleaner, only ever
  moves users along the abstract lifecycle: no interleaved failure can take an intent back,
  skip a phase or lower an epoch.
\<close>

theorem recover_follows_lifecycle:
  assumes "ledger_wf (fst c)"
    and "recover pg_ledger (Some (\<lambda>u e. on_rest (clean u e))) cfg now1 now2 u (c, r) = (res, (c', r'))"
  shows "ledger_wf (fst c') \<and> life_reach (life_of (fst c) x) (life_of (fst c') x)"
  using pgl.recover_tracks [OF assms(2)] assms(1)
  by (simp add: tracks_def pg_okw_def pg_life_def)

theorem recover_follows_lifecycle_witness:
  "\<exists>c' r'. recover pg_ledger (Some (\<lambda>u e. on_rest (\<lambda>r. (Inr 0, r))))
       \<lparr>sc_lease_ttl = 30, sc_max_settlement_attempts = 3\<rparr> 51 52 ''u'' ((demo_ledger, [FaultBefore]), ())
      = (Some ErrSecInfra, (c', r')) \<and> ledger_wf (fst c')"
proof -
  have "recover pg_ledger (Some (\<lambda>u e. on_rest (\<lambda>r. (Inr 0, r))))
       \<lparr>sc_lease_ttl = 30, sc_max_settlement_attempts = 3\<rparr> 51 52 ''u'' ((demo_ledger, [FaultBefore]), ())
      = (Some ErrSecInfra, ((demo_ledger, []), ()))"
    by (simp add: recover_def on_pg_def pg_get_security_state_def)
  from recover_follows_lifecycle [OF _ this] this demo_ledger_wf show ?thesis by force
qed

text \<open>
  Single writer: between two successful acquisitions for the same user, in any
  interleaving, the first intent has been settled; the ids grow strictly.
\<close>

lemma acquire_ok:
  assumes "pg_acquire_intent u ttl c = (Inr it, c')"
  shows "sql_acquire_intent u ttl (fst c) = (Inr (Some it), fst c')"
  using assms io_call_ok [of ErrSecInfra "sql_acquire_intent u ttl" c]
  by (fastforce simp: pg_acquire_intent_def split: prod.splits sum.splits option.splits)

lemma sql_acquire_ok:
  "sql_acquire_intent u ttl db = (Inr (Some it), db') \<Longrightarrow>
   \<exists>e row. ld_epochs db' u = Some e \<and> ld_intents db' u = Some row \<and> ir_intent_id row = in_intent_id it"
  by (auto simp: sql_acquire_intent_def Let_def row_intent_def split: option.splits if_splits)

lemma intent_id_step:
  "life_step v w \<Longrightarrow> lf_intent v = Some li \<Longrightarrow> \<exists>lj. lf_intent w = Some lj \<and> li_id li \<le> li_id lj"
  by (induction rule: life_step.induct) (auto split: option.splits)

lemma intent_id_steps:
  "life_step\<^sup>*\<^sup>* v w \<Longrightarrow> lf_intent v = Some li \<Longrightarrow> \<exists>lj. lf_intent w = Some lj \<and> li_id li \<le> li_id lj"
  by (induction rule: rtranclp_induct) (auto dest!: intent_id_step intro: order_trans)

theorem acquisitions_are_exclusive:
  assumes "ledger_wf (fst c)" and "pg_acquire_intent u ttl c = (Inr it1, c1)"
    and "ledger_step\<^sup>*\<^sup>* c1 c2" and "pg_acquire_intent u ttl' c2 = (Inr it2, c3)"
  shows "in_intent_id it1 < in_intent_id it2
    \<and> (\<exists>row. ld_intents (fst c2) u = Some row \<and> in_intent_id it1 \<le> ir_intent_id row
         \<and> ir_status row = IntentSettled)"
proof -
  from acquire_ok [OF assms(2)] have wf1: "ledger_wf (fst c1)"
    using acquire_refines [of u "fst c" ttl] assms(1) by (simp add: refines_user_def)
  from sql_acquire_ok [OF acquire_ok [OF assms(2)]] obtain v li where
    v: "life_of (fst c1) u = Some v" "lf_intent v = Some li" "li_id li = in_intent_id it1"
    by (auto simp: life_of_def)
  from ledger_steps_life [OF assms(3) wf1 v(1)] obtain w where
    w: "life_of (fst c2) u = Some w" "life_step\<^sup>*\<^sup>* v w" by blast
  from intent_id_steps [OF w(2) v(2)] w(1) v(3) obtain row where
    row: "ld_intents (fst c2) u = Some row" "in_intent_id it1 \<le> ir_intent_id row"
    by (auto simp: life_of_def)
  have "ledger_wf (fst c2)" using ledger_steps_wf [OF assms(3) wf1] .
  with row have "ir_intent_id row \<le> ld_seq (fst c2)" by (simp add: ledger_wf_def)
  with acquire_ok [OF assms(4)] row show ?thesis
    by (auto simp: sql_acquire_intent_def Let_def row_intent_def split: option.splits if_splits)
qed

definition free_ledger :: ledger_db where
  "free_ledger = \<lparr>ld_epochs = [''u'' \<mapsto> 1], ld_intents = Map.empty, ld_seq = 0, ld_now = 0\<rparr>"

theorem acquisitions_are_exclusive_witness:
  "\<exists>it1 it2 c1 c2 c3. pg_acquire_intent ''u'' 30 (free_ledger, []) = (Inr it1, c1)
     \<and> c2 = ledger_exec (CallSettleConfirmedFailure ''u'' 1) c1
     \<and> pg_acquire_intent ''u'' 30 c2 = (Inr it2, c3) \<and> in_intent_id it1 < in_intent_id it2"
proof -
  obtain it1 c1 where a1: "pg_acquire_intent ''u'' 30 (free_ledger, []) = (Inr it1, c1)"
    and st: "c1 = (snd (sql_acquire_intent ''u'' 30 free_ledger), [])"
    by (simp add: pg_acquire_intent_def sql_acquire_intent_def Let_def free_ledger_def)
  let ?c2 = "ledger_exec (CallSettleConfirmedFailure ''u'' 1) c1"
  have s: "ledger_step\<^sup>*\<^sup>* c1 ?c2" by (rule r_into_rtranclp, rule ledger_call) simp
  obtain it2 c3 where a2: "pg_acquire_intent ''u'' 30 ?c2 = (Inr it2, c3)"
    by (simp add: st pg_settle_confirmed_failure_def fenced_def sql_settle_confirmed_failure_def cas_update_def
        pg_acquire_intent_def sql_acquire_intent_def Let_def free_ledger_def)
  from acquisitions_are_exclusive [OF _ a1 s a2] a1 a2 show ?thesis
    by (auto simp: ledger_wf_def free_ledger_def)
qed

text \<open>
  A settlement is reported as \<open>settled\<close> or \<open>settled_relogin\<close> only after every session below
  the new epoch was invalidated: the cleaner answered without an error, the terminal statement
  ran after it with that very outcome, and the provider outcome was not unknown.
\<close>

theorem settled_means_sessions_cleaned:
  assumes "settle_intent L (Some clean) it e rotator w = ((res, None), w')"
    and "sr_outcome res \<noteq> SettlementOutcomeDegraded"
  shows "(\<exists>w1 w2 n. clean (in_user_id it) e w1 = (Inr n, w2)
        \<and> op_settle L (in_user_id it) (in_intent_id it) (sr_outcome res) w2 = (Inr (), w'))
    \<and> in_provider_outcome it \<noteq> ProviderOutcomeUnknown"
proof -
  obtain w0 where "settle_claimed L clean it e rotator w0 = ((res, None), w')"
    using assms(1) by (auto simp: settle_intent_def split: prod.splits sum.splits if_splits)
  then show ?thesis by (rule settled_implies_clean [OF _ assms(2)])
qed

definition demo_recorded :: intent where
  "demo_recorded = \<lparr>in_user_id = ''u'', in_intent_id = 7, in_status = IntentOutcomeRecorded,
     in_epoch_at_acquire = 1, in_provider_outcome = ProviderOutcomeSuccess,
     in_settlement_outcome = SettlementOutcomeNone, in_lease_expires_at = 0, in_settlement_attempts = 0\<rparr>"

theorem settled_means_sessions_cleaned_witness:
  "\<exists>w'. settle_intent pg_ledger (Some (\<lambda>u e. on_rest (\<lambda>r. (Inr 3, r)))) demo_recorded 2 None
      (ledger_exec (CallRecordOutcome ''u'' 7 ProviderOutcomeSuccess) (demo_ledger, []), ())
     = ((\<lparr>sr_outcome = SettlementOutcomeSettled, sr_rotated = False\<rparr>, None), w')
     \<and> in_provider_outcome demo_recorded \<noteq> ProviderOutcomeUnknown"
proof -
  obtain w' where w': "settle_intent pg_ledger (Some (\<lambda>u e. on_rest (\<lambda>r. (Inr 3, r)))) demo_recorded 2 None
      (ledger_exec (CallRecordOutcome ''u'' 7 ProviderOutcomeSuccess) (demo_ledger, []), ())
     = ((\<lparr>sr_outcome = SettlementOutcomeSettled, sr_rotated = False\<rparr>, None), w')"
    by (simp add: settle_intent_def settle_claimed_def run_rotate_def settlement_class_def demo_recorded_def
        on_pg_def on_rest_def pg_begin_settlement_def pg_settle_def fenced_def sql_begin_settlement_def
        sql_settle_def cas_update_def pg_record_outcome_advance_epoch_def advance_epoch_def tx_run_def
        sql_record_outcome_def lease_passes_def sql_bump_epoch_def demo_ledger_def Let_def)
  from settled_means_sessions_cleaned [OF this] have "in_provider_outcome demo_recorded \<noteq> ProviderOutcomeUnknown"
    by simp
  with w' show ?thesis by blast
qed

end
