(* ===== verification/SessionMiddleware.thy ===== *)
theory SessionMiddleware
  imports SessionService SecurityService
begin

text \<open>
  The HTTP session middleware of \<open>internal/adapters/httpapi/session_middleware.go\<close>: the promotion
  pipeline shared by every authenticated route, the cookie and the native bearer transports with
  their credential scopes, and the CSRF check.  A request is the headers and cookies the code
  reads; the answer of a middleware is what it does to the request.
\<close>

section \<open>Requests\<close>

record http_request =
  rq_method :: string
  rq_path :: string
  rq_authorization :: "string list"
  rq_session_cookie :: string
  rq_csrf_cookie :: string
  rq_csrf_header :: string
  rq_origin :: string
  rq_sec_fetch_site :: string
  rq_sec_fetch_mode :: string
  rq_sec_fetch_dest :: string
  rq_client :: string \<comment> \<open>\<open>X-UnitedPass-Client\<close>\<close>

definition is_mini_program_client_request :: "http_request \<Rightarrow> bool" where
  "is_mini_program_client_request q \<longleftrightarrow>
     rq_origin q = [] \<and> trim_space (rq_sec_fetch_site q) = [] \<and> trim_space (rq_sec_fetch_mode q) = []
     \<and> trim_space (rq_sec_fetch_dest q) = [] \<and> rq_client q = ClientKindMiniProgram"

definition read_mini_program_bearer :: "http_request \<Rightarrow> string" where
  "read_mini_program_bearer q =
     (case rq_authorization q of
        [v] \<Rightarrow>
          if \<not> has_prefix v ''Bearer '' then []
          else let token = trim_prefix v ''Bearer ''
               in if length token \<noteq> 43 then []
                  else if \<forall>c\<in>set token. is_token_char c then token else []
      | _ \<Rightarrow> [])"

definition native_mini_program_bearer_routes :: "(string \<times> string) list" where
  "native_mini_program_bearer_routes =
    [(''GET'', ''/api/v1/me''),
     (''POST'', ''/api/v1/me/miniprogram/profile''),
     (''GET'', ''/api/v1/me/sessions''),
     (''DELETE'', ''/api/v1/me/sessions''),
     (''DELETE'', ''/api/v1/me/sessions/{sessionId}''),
     (''DELETE'', ''/api/v1/auth/session''),
     (''POST'', ''/api/v1/auth/reauthentication''),
     (''POST'', ''/api/v1/auth/reauthentication/mfa''),
     (''POST'', ''/api/v1/me/security/password''),
     (''POST'', ''/api/v1/me/wechat/phone''),
     (''POST'', ''/api/v1/auth/qr/challenges/{challengeId}/approve''),
     (''POST'', ''/api/v1/dreamup/mobile/assertions''),
     (''POST'', ''/api/v1/dreamup/mobile/resume-upload-assertions''),
     (''GET'', ''/api/v1/admin/dreamup/eligibility''),
     (''GET'', ''/api/v1/admin/dreamup/events''),
     (''GET'', ''/api/v1/admin/dreamup/session''),
     (''POST'', ''/api/v1/admin/dreamup/reauthentication''),
     (''GET'', ''/api/v1/admin/dreamup/events/{eventId}/applications''),
     (''GET'', ''/api/v1/admin/dreamup/events/{eventId}/content''),
     (''GET'', ''/api/v1/admin/dreamup/events/{eventId}/splash-ad''),
     (''POST'', ''/api/v1/admin/dreamup/events/{eventId}/splash-poster-image-upload-intents''),
     (''POST'', ''/api/v1/admin/dreamup/events/{eventId}/announcement-background-image-upload-intents''),
     (''PUT'', ''/api/v1/admin/dreamup/events/{eventId}/splash-ad''),
     (''PUT'', ''/api/v1/admin/dreamup/events/{eventId}/content/intro''),
     (''POST'', ''/api/v1/admin/dreamup/events/{eventId}/announcements''),
     (''PATCH'', ''/api/v1/admin/dreamup/events/{eventId}/announcements/{contentId}''),
     (''GET'', ''/api/v1/admin/dreamup/events/{eventId}/contact-submissions''),
     (''GET'', ''/api/v1/admin/dreamup/events/{eventId}/contact-submissions/{submissionId}''),
     (''GET'', ''/api/v1/admin/dreamup/events/{eventId}/teams''),
     (''POST'', ''/api/v1/admin/dreamup/events/{eventId}/checkins/scan''),
     (''POST'', ''/api/v1/admin/dreamup/events/{eventId}/contact-submissions/{submissionId}/resolution''),
     (''GET'', ''/api/v1/admin/dreamup/events/{eventId}/applications/{applicationId}''),
     (''POST'', ''/api/v1/admin/dreamup/events/{eventId}/applications/{applicationId}/review-identity''),
     (''PUT'', ''/api/v1/admin/dreamup/events/{eventId}/applications/{applicationId}/reviews/me''),
     (''GET'', ''/api/v1/admin/dreamup/events/{eventId}/applications/{applicationId}/admission-consensus''),
     (''PUT'', ''/api/v1/admin/dreamup/events/{eventId}/applications/{applicationId}/admission-consensus/approval''),
     (''DELETE'', ''/api/v1/admin/dreamup/events/{eventId}/applications/{applicationId}/admission-consensus/approval''),
     (''POST'', ''/api/v1/admin/dreamup/events/{eventId}/applications/{applicationId}/decision''),
     (''POST'', ''/api/v1/admin/dreamup/events/{eventId}/inspection-point-image-upload-intents''),
     (''GET'', ''/api/v1/admin/dreamup/events/{eventId}/inspection-points''),
     (''POST'', ''/api/v1/admin/dreamup/events/{eventId}/inspection-points''),
     (''GET'', ''/api/v1/admin/dreamup/events/{eventId}/inspection-points/{pointId}''),
     (''PATCH'', ''/api/v1/admin/dreamup/events/{eventId}/inspection-points/{pointId}''),
     (''POST'', ''/api/v1/admin/dreamup/events/{eventId}/inspection-points/{pointId}/code-rotations''),
     (''POST'', ''/api/v1/admin/dreamup/events/{eventId}/inspection-points/{pointId}/inspections''),
     (''GET'', ''/api/v1/admin/dreamup/events/{eventId}/inspections''),
     (''GET'', ''/api/v1/admin/dreamup/events/{eventId}/inspections/{inspectionId}''),
     (''POST'', ''/api/v1/admin/dreamup/events/{eventId}/inspection-photo-uploads/{uploadId}/finalize''),
     (''POST'', ''/api/v1/admin/dreamup/events/{eventId}/asset-image-upload-intents''),
     (''GET'', ''/api/v1/admin/dreamup/events/{eventId}/assets''),
     (''POST'', ''/api/v1/admin/dreamup/events/{eventId}/assets''),
     (''GET'', ''/api/v1/admin/dreamup/events/{eventId}/assets/{assetId}''),
     (''PATCH'', ''/api/v1/admin/dreamup/events/{eventId}/assets/{assetId}''),
     (''POST'', ''/api/v1/admin/dreamup/events/{eventId}/asset-units/{unitId}/code-rotations''),
     (''POST'', ''/api/v1/admin/dreamup/events/{eventId}/asset-units/{unitId}/inventory-adjustments''),
     (''GET'', ''/api/v1/admin/dreamup/events/{eventId}/asset-reservations''),
     (''PATCH'', ''/api/v1/admin/dreamup/events/{eventId}/asset-reservations/{reservationId}''),
     (''POST'', ''/api/v1/admin/dreamup/events/{eventId}/asset-units/{unitId}/checkout''),
     (''POST'', ''/api/v1/admin/dreamup/events/{eventId}/asset-units/{unitId}/checkin''),
     (''POST'', ''/api/v1/admin/dreamup/events/{eventId}/asset-units/{unitId}/transfers''),
     (''POST'', ''/api/v1/admin/dreamup/events/{eventId}/personal-asset-image-upload-intents''),
     (''GET'', ''/api/v1/admin/dreamup/events/{eventId}/personal-asset-assignments''),
     (''POST'', ''/api/v1/admin/dreamup/events/{eventId}/personal-asset-assignments''),
     (''PATCH'', ''/api/v1/admin/dreamup/events/{eventId}/personal-asset-assignments/{assignmentId}''),
     (''POST'', ''/api/v1/admin/dreamup/events/{eventId}/personal-asset-assignments/{assignmentId}/code-rotations''),
     (''POST'', ''/api/v1/admin/dreamup/events/{eventId}/entity-codes/{codeId}/print-jobs''),
     (''POST'', ''/api/v1/admin/dreamup/events/{eventId}/qr-print-jobs/bulk''),
     (''GET'', ''/api/v1/admin/dreamup/events/{eventId}/qr-print-jobs/{printJobId}''),
     (''GET'', ''/api/v1/admin/dreamup/events/{eventId}/qr-print-jobs/{printJobId}/bulk'')]"

fun segments_match :: "string list \<Rightarrow> string list \<Rightarrow> bool" where
  "segments_match (actual # as) (expected # es) =
     (if has_prefix expected ''{'' \<and> has_suffix expected ''}''
      then (if actual = [] then False else segments_match as es)
      else if actual \<noteq> expected then False else segments_match as es)"
| "segments_match _ _ = True"

definition native_mini_program_path_matches :: "string \<Rightarrow> string \<Rightarrow> bool" where
  "native_mini_program_path_matches path template =
     (let ps = str_split (CHR ''/'') (trim_prefix path ''/'');
          ts = str_split (CHR ''/'') (trim_prefix template ''/'')
      in if length ps \<noteq> length ts then False else segments_match ps ts)"

definition native_mini_program_bearer_route_allowed :: "http_request \<Rightarrow> bool" where
  "native_mini_program_bearer_route_allowed q \<longleftrightarrow>
     list_ex (\<lambda>(m, t). rq_method q = m \<and> native_mini_program_path_matches (rq_path q) t)
       native_mini_program_bearer_routes"

section \<open>The promotion pipeline\<close>

datatype promotion_outcome = promoted | promotionInvalid | promotionEpochStale | promotionDeniedTransient

record 'w security_gate =
  sg_evaluate_promotion :: "user_id \<Rightarrow> epoch \<Rightarrow> 'w \<Rightarrow> (promotion_verdict \<times> bool) \<times> 'w"
  sg_trigger_recovery :: "user_id \<Rightarrow> 'w \<Rightarrow> 'w"

text \<open>\<open>UserStatusChecker\<close>: \<open>True\<close> is the nil error.\<close>

type_synonym 'w status_checker = "user_id \<Rightarrow> 'w \<Rightarrow> bool \<times> 'w"

text \<open>\<open>Some\<close> carries the promoted principal; \<open>t1\<close> and \<open>t2\<close> are the clock at validation and at the touch.\<close>

definition gate_pass ::
  "'w session_store_ops \<Rightarrow> 'w session_env \<Rightarrow> 'w security_gate option \<Rightarrow> string \<Rightarrow> principal \<Rightarrow> session_record \<Rightarrow> 'w
     \<Rightarrow> promotion_outcome \<times> 'w" where
  "gate_pass S E gate token p r w =
     (case gate of
        None \<Rightarrow> (promoted, w)
      | Some g \<Rightarrow>
          (case sg_evaluate_promotion g (pr_user_id p) (sn_security_epoch r) w of
             ((verdict, observed), w1) \<Rightarrow>
               (let w2 = (if observed then sg_trigger_recovery g (pr_user_id p) w1 else w1)
                in case verdict of
                     PromotionEpochStale \<Rightarrow> (promotionEpochStale, discard (delete_session S E token w2))
                   | PromotionDeniedTransient \<Rightarrow> (promotionDeniedTransient, w2)
                   | PromotionAllowed \<Rightarrow> (promoted, w2))))"

definition status_pass ::
  "'w session_store_ops \<Rightarrow> 'w session_env \<Rightarrow> 'w status_checker option \<Rightarrow> string \<Rightarrow> user_id \<Rightarrow> 'w \<Rightarrow> bool \<times> 'w" where
  "status_pass S E checker token u w =
     (case checker of
        None \<Rightarrow> (True, w)
      | Some f \<Rightarrow>
          (case f u w of
             (True, w1) \<Rightarrow> (True, w1)
           | (False, w1) \<Rightarrow> (False, discard (delete_session S E token w1))))"

definition validate_and_promote ::
  "'w session_store_ops \<Rightarrow> 'w session_env \<Rightarrow> 'w status_checker option \<Rightarrow> 'w security_gate option \<Rightarrow> time \<Rightarrow> time
     \<Rightarrow> string \<Rightarrow> 'w \<Rightarrow> ((principal \<times> session_record) option \<times> promotion_outcome) \<times> 'w" where
  "validate_and_promote S E checker gate t1 t2 token w =
     (case validate_session S E t1 token w of
        (Inl _, w1) \<Rightarrow> ((None, promotionInvalid), w1)
      | (Inr (p, r), w1) \<Rightarrow>
          (case status_pass S E checker token (pr_user_id p) w1 of
             (False, w2) \<Rightarrow> ((None, promotionInvalid), w2)
           | (True, w2) \<Rightarrow>
               (case gate_pass S E gate token p r w2 of
                  (outcome, w3) \<Rightarrow>
                    if outcome = promoted
                    then ((Some (p, r), promoted), discard (touch_session S E t2 token w3))
                    else ((None, outcome), w3))))"

section \<open>The middlewares\<close>

datatype middleware_result =
  Unauthorized bool \<comment> \<open>401; \<open>True\<close>: both cookies cleared\<close>
| Forbidden
| Anonymous bool \<comment> \<open>the next handler without a principal; \<open>True\<close>: both cookies cleared\<close>
| Authenticated principal session_record string bool \<comment> \<open>the next handler; \<open>True\<close>: native bearer\<close>

definition legacyQRAuthSessionProvider :: string where
  "legacyQRAuthSessionProvider = ''wechat_miniprogram_qr''"

definition wechat_ProviderName :: string where
  "wechat_ProviderName = ''provider_wechat_miniprogram''"

definition MethodFederated :: string where
  "MethodFederated = ''federated''"

definition MethodWeChatPhoneVerified :: string where
  "MethodWeChatPhoneVerified = ''wechat_phone_verified''"

definition session_has_authentication_method :: "string list \<Rightarrow> string \<Rightarrow> bool" where
  "session_has_authentication_method methods target \<longleftrightarrow> list_ex (\<lambda>m. m = target) methods"

definition is_wechat_flow :: "session_record \<Rightarrow> bool" where
  "is_wechat_flow r \<longleftrightarrow> sn_provider r = wechat_ProviderName
     \<or> session_has_authentication_method (sn_authentication_methods r) MethodFederated"

text \<open>What \<open>RequireSession\<close> does with a promoted session.\<close>

definition admit_session ::
  "'w session_store_ops \<Rightarrow> 'w session_env \<Rightarrow> bool \<Rightarrow> string \<Rightarrow> principal \<Rightarrow> session_record \<Rightarrow> 'w
     \<Rightarrow> middleware_result \<times> 'w" where
  "admit_session S E native token p r w =
     (if sn_provider r = legacyQRAuthSessionProvider
      then (Unauthorized (\<not> native), discard (delete_session S E token w))
      else if native
      then (if sn_client_kind r \<noteq> ClientKindMiniProgram then (Unauthorized False, w)
            else if is_wechat_flow r
                 \<and> \<not> session_has_authentication_method (sn_authentication_methods r) MethodWeChatPhoneVerified
            then (Unauthorized False, discard (delete_session S E token w))
            else (Authenticated p r token True, w))
      else if sn_client_kind r \<noteq> [] then (Unauthorized False, w)
      else (Authenticated p r token False, w))"

definition require_session ::
  "'w session_store_ops \<Rightarrow> 'w session_env \<Rightarrow> 'w status_checker option \<Rightarrow> 'w security_gate option \<Rightarrow> time \<Rightarrow> time
     \<Rightarrow> http_request \<Rightarrow> 'w \<Rightarrow> middleware_result \<times> 'w" where
  "require_session S E checker gate t1 t2 q w =
     (let native = (length (rq_authorization q) > 0)
      in if native \<and> (\<not> is_mini_program_client_request q \<or> \<not> native_mini_program_bearer_route_allowed q)
         then (Unauthorized False, w)
         else let token = (if native then read_mini_program_bearer q else rq_session_cookie q)
              in if token = [] then (Unauthorized False, w)
                 else case validate_and_promote S E checker gate t1 t2 token w of
                   ((Some (p, r), outcome), w1) \<Rightarrow> admit_session S E native token p r w1
                 | ((None, outcome), w1) \<Rightarrow>
                     if outcome = promotionEpochStale then (Unauthorized (\<not> native), w1)
                     else (Unauthorized False, w1))"

definition optional_session ::
  "'w session_store_ops \<Rightarrow> 'w session_env \<Rightarrow> 'w status_checker option \<Rightarrow> 'w security_gate option \<Rightarrow> time \<Rightarrow> time
     \<Rightarrow> http_request \<Rightarrow> 'w \<Rightarrow> middleware_result \<times> 'w" where
  "optional_session S E checker gate t1 t2 q w =
     (let token = rq_session_cookie q
      in if token = [] then (Anonymous False, w)
         else case validate_and_promote S E checker gate t1 t2 token w of
           ((None, outcome), w1) \<Rightarrow>
             if outcome = promotionEpochStale then (Anonymous True, w1) else (Anonymous False, w1)
         | ((Some (p, r), outcome), w1) \<Rightarrow>
             if sn_provider r = legacyQRAuthSessionProvider
             then (Anonymous True, discard (delete_session S E token w1))
             else if sn_client_kind r \<noteq> [] then (Anonymous False, w1)
             else (Authenticated p r token False, w1))"

definition is_safe_method :: "string \<Rightarrow> bool" where
  "is_safe_method m \<longleftrightarrow> m = ''GET'' \<or> m = ''HEAD'' \<or> m = ''OPTIONS''"

text \<open>The context a handler sees: the session record and the transport, when there is one.\<close>

datatype csrf_result = CsrfNext | CsrfUnauthorized | CsrfForbidden

definition require_csrf :: "(string \<Rightarrow> string) \<Rightarrow> (session_record \<times> bool) option \<Rightarrow> http_request \<Rightarrow> csrf_result" where
  "require_csrf hash ctx q =
     (if is_safe_method (rq_method q) then CsrfNext
      else case ctx of
        None \<Rightarrow> CsrfUnauthorized
      | Some (r, native) \<Rightarrow>
          if native
          then (if sn_client_kind r \<noteq> ClientKindMiniProgram then CsrfForbidden else CsrfNext)
          else if \<not> validate_csrf hash (rq_csrf_cookie q) (rq_csrf_header q) r then CsrfForbidden
          else CsrfNext)"

section \<open>The production gate\<close>

text \<open>
  The world of the middleware is the Redis connection, the PostgreSQL connection and the rest.
  The gate asks the security-state service; what its detached recovery does meanwhile
  (\<open>trig\<close>) is not restricted.
\<close>

definition ledger_gate ::
  "(user_id \<Rightarrow> rconn \<times> (pg \<times> 'x) \<Rightarrow> rconn \<times> (pg \<times> 'x)) \<Rightarrow> (rconn \<times> (pg \<times> 'x)) security_gate" where
  "ledger_gate trig = \<lparr>
     sg_evaluate_promotion = \<lambda>u e w. (case evaluate_promotion pg_ledger u e (snd w) of (v, w2) \<Rightarrow> (v, (fst w, w2))),
     sg_trigger_recovery = trig\<rparr>"

lemma gate_promotes:
  assumes "gate_pass S E (Some (ledger_gate trig)) token p r w = (promoted, w')"
  shows "\<exists>v. pg_life (snd w) (pr_user_id p) = Some v \<and> lf_epoch v \<le> sn_security_epoch r
     \<and> (\<nexists>li. lf_intent v = Some li \<and> li_status li = IntentActive)"
proof -
  obtain verdict seen w2 where e: "evaluate_promotion pg_ledger (pr_user_id p) (sn_security_epoch r) (snd w)
      = ((verdict, seen), w2)" by (metis prod.collapse)
  with assms have "verdict = PromotionAllowed"
    by (auto simp: gate_pass_def ledger_gate_def Let_def split: promotion_verdict.splits)
  with pgl.promotion_verdict(1) [OF e] show ?thesis by blast
qed

lemma promoted_facts:
  assumes "validate_and_promote S E checker (Some (ledger_gate trig)) t1 t2 token w = ((Some (p, r), outcome), w')"
  obtains w1 w2 where "validate_session S E t1 token w = (Inr (p, r), w1)"
    "status_pass S E checker token (pr_user_id p) w1 = (True, w2)"
    "\<exists>v. pg_life (snd w2) (pr_user_id p) = Some v \<and> lf_epoch v \<le> sn_security_epoch r
       \<and> (\<nexists>li. lf_intent v = Some li \<and> li_status li = IntentActive)"
proof -
  from assms obtain w1 w2 w3 where 1: "validate_session S E t1 token w = (Inr (p, r), w1)"
    and 2: "status_pass S E checker token (pr_user_id p) w1 = (True, w2)"
    and 3: "gate_pass S E (Some (ledger_gate trig)) token p r w2 = (promoted, w3)"
    by (auto simp: validate_and_promote_def split: prod.splits sum.splits bool.splits if_splits)
  show thesis by (rule that [OF 1 2 gate_promotes [OF 3]])
qed

lemma admitted_facts:
  assumes "admit_session S E native token p0 r0 w = (Authenticated p r tok nb, w')"
  shows "p = p0 \<and> r = r0 \<and> tok = token \<and> nb = native
     \<and> sn_client_kind r = (if native then ClientKindMiniProgram else [])
     \<and> sn_provider r \<noteq> legacyQRAuthSessionProvider
     \<and> (native \<and> is_wechat_flow r
        \<longrightarrow> session_has_authentication_method (sn_authentication_methods r) MethodWeChatPhoneVerified)"
  using assms by (auto simp: admit_session_def split: if_splits)

lemma bearer_shape:
  assumes "read_mini_program_bearer q = token" and "token \<noteq> []"
  shows "rq_authorization q = [''Bearer '' @ token] \<and> length token = 43 \<and> list_all is_token_char token"
  using assms
  by (auto simp: read_mini_program_bearer_def Let_def trim_prefix_def has_prefix_iff list_all_iff
      split: list.splits if_splits)

lemma authenticated_facts:
  assumes "require_session S E checker (Some (ledger_gate trig)) t1 t2 q w = (Authenticated p r token native, w')"
  obtains w1 w2 where "validate_session S E t1 token w = (Inr (p, r), w1)"
    "status_pass S E checker token (pr_user_id p) w1 = (True, w2)"
    "\<exists>v. pg_life (snd w2) (pr_user_id p) = Some v \<and> lf_epoch v \<le> sn_security_epoch r
       \<and> (\<nexists>li. lf_intent v = Some li \<and> li_status li = IntentActive)"
    "native \<longleftrightarrow> rq_authorization q \<noteq> []" "token \<noteq> []"
    "token = (if native then read_mini_program_bearer q else rq_session_cookie q)"
    "native \<longrightarrow> is_mini_program_client_request q \<and> native_mini_program_bearer_route_allowed q"
    "sn_client_kind r = (if native then ClientKindMiniProgram else [])"
    "sn_provider r \<noteq> legacyQRAuthSessionProvider"
    "native \<and> is_wechat_flow r
        \<longrightarrow> session_has_authentication_method (sn_authentication_methods r) MethodWeChatPhoneVerified"
proof -
  let ?n = "length (rq_authorization q) > 0"
  let ?t = "if ?n then read_mini_program_bearer q else rq_session_cookie q"
  from assms obtain p0 r0 out w0 where v: "validate_and_promote S E checker (Some (ledger_gate trig)) t1 t2 ?t w
       = ((Some (p0, r0), out), w0)"
    and a: "admit_session S E ?n ?t p0 r0 w0 = (Authenticated p r token native, w')"
    and n: "?n \<longrightarrow> is_mini_program_client_request q \<and> native_mini_program_bearer_route_allowed q" "?t \<noteq> []"
    by (auto simp: require_session_def Let_def split: if_splits prod.splits option.splits)
  note f = admitted_facts [OF a]
  from f have e: "p0 = p" "r0 = r" "token = ?t" "native = ?n" by auto
  from v e obtain w1 w2 where w: "validate_session S E t1 token w = (Inr (p, r), w1)"
    "status_pass S E checker token (pr_user_id p) w1 = (True, w2)"
    "\<exists>v. pg_life (snd w2) (pr_user_id p) = Some v \<and> lf_epoch v \<le> sn_security_epoch r
       \<and> (\<nexists>li. lf_intent v = Some li \<and> li_status li = IntentActive)"
    using promoted_facts [of S E checker trig t1 t2 token w p r out w0] by blast
  show thesis by (rule that [OF w]) (use f n e in auto)
qed

section \<open>Properties\<close>

text \<open>
  C6.  What it takes to be authenticated.  If \<open>RequireSession\<close> with the production gate hands a
  request to the next handler, then a live, unexpired record was stored under the hash of the
  token; the ledger, read after the user-status check, knew the user with an epoch no newer than
  the record's and without an active password mutation; the token came over the transport the
  record is bound to, as the session cookie of a browser session or as the single strictly
  formed bearer header of a Mini Program session on a route of the native scope; and a WeChat
  session over the bearer carries the phone-verified assurance.
\<close>

theorem authenticated_request_was_checked:
  assumes "require_session redis_store E checker (Some (ledger_gate trig)) t1 t2 q w
     = (Authenticated p r token native, w')"
  shows "\<exists>w1 w2 r0 v. validate_session redis_store E t1 token w = (Inr (p, r), w1)
     \<and> live_rec (fst (fst w1)) (se_hash E token) r0 \<and> r = normalize_stamp r0
     \<and> t1 \<le> effective_expiry r (se_idle_ttl E) \<and> pr_user_id p = sn_user_id r
     \<and> status_pass redis_store E checker token (sn_user_id r) w1 = (True, w2)
     \<and> life_of (fst (fst (snd w2))) (sn_user_id r) = Some v \<and> lf_epoch v \<le> sn_security_epoch r
     \<and> (\<nexists>li. lf_intent v = Some li \<and> li_status li = IntentActive)
     \<and> sn_provider r \<noteq> legacyQRAuthSessionProvider
     \<and> (if native
        then sn_client_kind r = ClientKindMiniProgram \<and> rq_authorization q = [''Bearer '' @ token]
          \<and> native_mini_program_bearer_route_allowed q
          \<and> (is_wechat_flow r \<longrightarrow>
               session_has_authentication_method (sn_authentication_methods r) MethodWeChatPhoneVerified)
        else sn_client_kind r = [] \<and> rq_authorization q = [] \<and> token = rq_session_cookie q)"
  using assms
proof (rule authenticated_facts)
  fix w1 w2
  assume v: "validate_session redis_store E t1 token w = (Inr (p, r), w1)"
    and s: "status_pass redis_store E checker token (pr_user_id p) w1 = (True, w2)"
    and g: "\<exists>v. pg_life (snd w2) (pr_user_id p) = Some v \<and> lf_epoch v \<le> sn_security_epoch r
       \<and> (\<nexists>li. lf_intent v = Some li \<and> li_status li = IntentActive)"
    and t: "native \<longleftrightarrow> rq_authorization q \<noteq> []" "token \<noteq> []"
      "token = (if native then read_mini_program_bearer q else rq_session_cookie q)"
      "native \<longrightarrow> is_mini_program_client_request q \<and> native_mini_program_bearer_route_allowed q"
    and k: "sn_client_kind r = (if native then ClientKindMiniProgram else [])"
      "sn_provider r \<noteq> legacyQRAuthSessionProvider"
      "native \<and> is_wechat_flow r
        \<longrightarrow> session_has_authentication_method (sn_authentication_methods r) MethodWeChatPhoneVerified"
  note c = rds.validated [OF v]
  from c(1) obtain r0 where r0: "live_rec (fst (fst w1)) (se_hash E token) r0" "r = normalize_stamp r0"
    by (auto simp: redis_stored_def)
  have u: "pr_user_id p = sn_user_id r" using c(5) by simp
  from g obtain v' where v': "life_of (fst (fst (snd w2))) (sn_user_id r) = Some v'"
    "lf_epoch v' \<le> sn_security_epoch r" "\<nexists>li. lf_intent v' = Some li \<and> li_status li = IntentActive"
    unfolding u pg_life_def by blast
  have x: "t1 \<le> effective_expiry r (se_idle_ttl E)" using c(2) by (simp add: is_expired_effective)
  have b: "if native
        then sn_client_kind r = ClientKindMiniProgram \<and> rq_authorization q = [''Bearer '' @ token]
          \<and> native_mini_program_bearer_route_allowed q
          \<and> (is_wechat_flow r \<longrightarrow>
               session_has_authentication_method (sn_authentication_methods r) MethodWeChatPhoneVerified)
        else sn_client_kind r = [] \<and> rq_authorization q = [] \<and> token = rq_session_cookie q"
  proof (cases native)
    case True
    with t(2,3) have "rq_authorization q = [''Bearer '' @ token]" using bearer_shape [of q token] by metis
    with True t(4) k show ?thesis by simp
  next
    case False
    with t k show ?thesis by simp
  qed
  show ?thesis
    by (rule exI [of _ w1], rule exI [of _ w2], rule exI [of _ r0], rule exI [of _ v'])
       (use v r0 x s u v' k(2) b in simp)
qed

definition demo_request :: http_request where
  "demo_request = \<lparr>rq_method = ''GET'', rq_path = ''/api/v1/me'', rq_authorization = [],
     rq_session_cookie = ''t'', rq_csrf_cookie = [], rq_csrf_header = [], rq_origin = [],
     rq_sec_fetch_site = [], rq_sec_fetch_mode = [], rq_sec_fetch_dest = [], rq_client = []\<rparr>"

definition demo_world :: "rconn \<times> (pg \<times> unit)" where
  "demo_world = ((fst (fst demo_created), []),
     ((\<lparr>ld_epochs = [''u'' \<mapsto> 3], ld_intents = Map.empty, ld_seq = 0, ld_now = 0\<rparr>, []), ()))"

lemma demo_required:
  "\<exists>p. fst (require_session redis_store demo_env None (Some (ledger_gate (\<lambda>_ w. w))) (seconds 2) (seconds 2)
     demo_request demo_world) = Authenticated p demo_session ''t'' False"
  using demo_created_live
  by (simp add: require_session_def validate_and_promote_def validate_session_def on_redis_def store_get_def
      read_cmd_def live_rec_def normalize_stamp_def demo_env_def demo_session_def new_record_def demo_input_def
      is_expired_def seconds_def minutes_def demo_request_def demo_world_def status_pass_def gate_pass_def
      ledger_gate_def evaluate_promotion_def on_pg_def pg_get_security_state_def sql_get_security_state_def
      Let_def admit_session_def legacyQRAuthSessionProvider_def split: prod.splits)

theorem authenticated_request_was_checked_witness:
  "seconds 2 \<le> effective_expiry demo_session (minutes 10)"
proof -
  obtain p w' where "require_session redis_store demo_env None (Some (ledger_gate (\<lambda>_ w. w))) (seconds 2) (seconds 2)
     demo_request demo_world = (Authenticated p demo_session ''t'' False, w')" using demo_required by (metis prod.collapse)
  from authenticated_request_was_checked [OF this] have "seconds 2 \<le> effective_expiry demo_session
    (se_idle_ttl (demo_env :: (rconn \<times> (pg \<times> unit)) session_env))" by blast
  then show ?thesis by (simp add: demo_env_def)
qed

text \<open>
  The CSRF check is exact: a request of a browser session reaches the next handler if and
  only if its method is safe, or its cookie and header carry the same non-empty token whose hash
  is the one in the session record.
\<close>

theorem csrf_gate_exact:
  "require_csrf hash (Some (r, False)) q = CsrfNext \<longleftrightarrow>
     is_safe_method (rq_method q) \<or>
     (rq_csrf_cookie q \<noteq> [] \<and> rq_csrf_header q = rq_csrf_cookie q \<and> sn_csrf_token_hash r \<noteq> []
      \<and> hash (rq_csrf_cookie q) = sn_csrf_token_hash r)"
  by (auto simp: require_csrf_def validate_csrf_def)

text \<open>
  The native bearer never reaches beyond the listed scope: a request whose bearer transport
  is allowed lies under \<open>/api/v1/\<close>, its path has as many segments as a listed template, agrees
  with it on every literal segment, and is empty in none of the parameters.
\<close>

definition literal_segment :: "string \<Rightarrow> bool" where
  "literal_segment e \<longleftrightarrow> \<not> (has_prefix e ''{'' \<and> has_suffix e ''}'')"

lemma segments_match_iff:
  "length as = length es \<Longrightarrow>
   segments_match as es \<longleftrightarrow> list_all2 (\<lambda>a e. if literal_segment e then a = e else a \<noteq> []) as es"
  by (induction as es rule: list_induct2) (auto simp: literal_segment_def)

definition path_segments :: "string \<Rightarrow> string list" where
  "path_segments s = str_split (CHR ''/'') (trim_prefix s ''/'')"

lemma path_matches_iff:
  "native_mini_program_path_matches path template \<longleftrightarrow>
     list_all2 (\<lambda>a e. if literal_segment e then a = e else a \<noteq> []) (path_segments path) (path_segments template)"
proof (cases "length (path_segments path) = length (path_segments template)")
  case True
  then show ?thesis
    using segments_match_iff [OF True]
    by (simp add: native_mini_program_path_matches_def Let_def path_segments_def)
next
  case False
  then show ?thesis
    using list_all2_lengthD by (auto simp: native_mini_program_path_matches_def Let_def path_segments_def)
qed

lemma route_table_scope:
  "list_all (\<lambda>(m, t). take 2 (path_segments t) = [''api'', ''v1'']) native_mini_program_bearer_routes"
  by code_simp

lemma literal_api: "literal_segment ''api''" "literal_segment ''v1''"
  by code_simp+

theorem native_bearer_scope:
  assumes "native_mini_program_bearer_route_allowed q"
  shows "\<exists>t rest. (rq_method q, t) \<in> set native_mini_program_bearer_routes
     \<and> path_segments (rq_path q) = ''api'' # ''v1'' # rest
     \<and> list_all2 (\<lambda>a e. if literal_segment e then a = e else a \<noteq> []) (path_segments (rq_path q)) (path_segments t)"
proof -
  from assms obtain t where t: "(rq_method q, t) \<in> set native_mini_program_bearer_routes"
    "native_mini_program_path_matches (rq_path q) t"
    by (auto simp: native_mini_program_bearer_route_allowed_def list_ex_iff)
  with route_table_scope have "take 2 (path_segments t) = [''api'', ''v1'']" by (auto simp: list_all_iff)
  then obtain ts where ts: "path_segments t = ''api'' # ''v1'' # ts"
    by (cases "path_segments t"; cases "tl (path_segments t)") auto
  from t(2) have m: "list_all2 (\<lambda>a e. if literal_segment e then a = e else a \<noteq> [])
      (path_segments (rq_path q)) (path_segments t)" by (simp add: path_matches_iff)
  with ts literal_api obtain rest where "path_segments (rq_path q) = ''api'' # ''v1'' # rest"
    by (auto simp: list_all2_Cons2)
  with t(1) m show ?thesis by blast
qed

theorem native_bearer_scope_witness:
  "\<exists>rest. path_segments (rq_path demo_request) = ''api'' # ''v1'' # rest"
proof -
  have "native_mini_program_bearer_route_allowed demo_request" by code_simp
  from native_bearer_scope [OF this] show ?thesis by blast
qed

end
