(* ===== verification/PasswordSettlement.thy ===== *)
theory PasswordSettlement
  imports SessionMiddleware
begin







section \<open>Rotation inside the settlement\<close>











section \<open>The settlement end to end\<close>















end
