(* ===== verification/RoleTypes.thy ===== *)
theory RoleTypes
  imports SecurityLedger
begin

text \<open>
  Administrative roles, their scopes and bindings, after
  \<open>internal/adminroles/types.go\<close>.  Roles and scope kinds are Go string types, so any string
  is a value and the constants name the ones the program knows.
\<close>

section \<open>Roles and scopes\<close>

type_synonym role = string
type_synonym scope_kind = string
type_synonym event_id = string

definition RoleSuperAdmin :: role where "RoleSuperAdmin = ''super_admin''"
definition RoleTopAdmin :: role where "RoleTopAdmin = ''top_admin''"
definition RoleSeniorAdmin :: role where "RoleSeniorAdmin = ''senior_admin''"
definition RoleAdmin :: role where "RoleAdmin = ''admin''"

definition ScopeSystem :: scope_kind where "ScopeSystem = ''system''"
definition ScopeEvent :: scope_kind where "ScopeEvent = ''event''"

lemma role_distinct [simp]:
  "RoleSuperAdmin \<noteq> RoleTopAdmin" "RoleTopAdmin \<noteq> RoleSuperAdmin"
  "RoleSuperAdmin \<noteq> RoleSeniorAdmin" "RoleSeniorAdmin \<noteq> RoleSuperAdmin"
  "RoleSuperAdmin \<noteq> RoleAdmin" "RoleAdmin \<noteq> RoleSuperAdmin"
  "RoleTopAdmin \<noteq> RoleSeniorAdmin" "RoleSeniorAdmin \<noteq> RoleTopAdmin"
  "RoleTopAdmin \<noteq> RoleAdmin" "RoleAdmin \<noteq> RoleTopAdmin"
  "RoleSeniorAdmin \<noteq> RoleAdmin" "RoleAdmin \<noteq> RoleSeniorAdmin"
  "ScopeSystem \<noteq> ScopeEvent" "ScopeEvent \<noteq> ScopeSystem"
  by (simp_all add: RoleSuperAdmin_def RoleTopAdmin_def RoleSeniorAdmin_def RoleAdmin_def
      ScopeSystem_def ScopeEvent_def)

datatype role_error =
  ErrInvalidRoleScope | ErrBindingNotFound | ErrBindingConflict
  | ErrEventRegistryNotFound | ErrEventRegistryDisabled | ErrInvalidRegisteredEvent
  | ErrInvalidRoleMutation | ErrRoleMutationForbidden | ErrOrdinarySuperAdminMutation
  | ErrSelfRoleMutation | ErrInvalidIdempotencyKey | ErrIfMatchRequired
  | ErrRoleIdempotencyConflict | ErrInvalidStoredRoleResult
  | ErrReasonConflict \<comment> \<open>\<open>adminstore.ErrIdempotencyConflict\<close> of the reason repository\<close>
  | ErrRoleInfra \<comment> \<open>a wrapped driver error, or any other error of a collaborator\<close>

record scope =
  sc_kind :: scope_kind
  sc_event_id :: event_id

definition system_scope :: scope where
  "system_scope = \<lparr>sc_kind = ScopeSystem, sc_event_id = []\<rparr>"

definition event_scope :: "event_id \<Rightarrow> scope" where
  "event_scope ev = \<lparr>sc_kind = ScopeEvent, sc_event_id = ev\<rparr>"

definition scope_key :: "scope \<Rightarrow> role_error + string" where
  "scope_key s =
     (if sc_kind s = ScopeSystem
      then (if sc_event_id s \<noteq> [] then Inl ErrInvalidRoleScope else Inr ''system'')
      else if sc_kind s = ScopeEvent
      then (if trim_space (sc_event_id s) = [] then Inl ErrInvalidRoleScope else Inr (sc_event_id s))
      else Inl ErrInvalidRoleScope)"

definition validate_role_scope :: "role \<Rightarrow> scope \<Rightarrow> role_error option" where
  "validate_role_scope ro s =
     (case scope_key s of
        Inl e \<Rightarrow> Some e
      | Inr _ \<Rightarrow>
          (if ro = RoleSuperAdmin \<or> ro = RoleTopAdmin
           then (if sc_kind s \<noteq> ScopeSystem then Some ErrInvalidRoleScope else None)
           else if ro = RoleSeniorAdmin \<or> ro = RoleAdmin
           then (if sc_kind s \<noteq> ScopeEvent then Some ErrInvalidRoleScope else None)
           else Some ErrInvalidRoleScope))"

lemma system_scope_sel [simp]: "sc_kind system_scope = ScopeSystem" "sc_event_id system_scope = []"
  by (simp_all add: system_scope_def)

lemma event_scope_sel [simp]: "sc_kind (event_scope ev) = ScopeEvent" "sc_event_id (event_scope ev) = ev"
  by (simp_all add: event_scope_def)

lemma scopes_differ [simp]: "event_scope ev \<noteq> system_scope" "system_scope \<noteq> event_scope ev"
  by (auto simp: system_scope_def event_scope_def)

lemma event_scope_inject [simp]: "event_scope a = event_scope b \<longleftrightarrow> a = b"
  by (simp add: event_scope_def)

lemma scope_key_event: "scope_key (event_scope ev) = (if trim_space ev = [] then Inl ErrInvalidRoleScope else Inr ev)"
  by (simp add: scope_key_def)

lemma scope_key_system [simp]: "scope_key system_scope = Inr ''system''"
  by (simp add: scope_key_def)

lemma scope_eqI: "sc_kind a = sc_kind b \<Longrightarrow> sc_event_id a = sc_event_id b \<Longrightarrow> (a::scope) = b"
  by simp

text \<open>A valid pair is a system role in the system scope or an event role in a named event.\<close>

lemma validate_role_scope_iff:
  "validate_role_scope ro s = None \<longleftrightarrow>
     (ro \<in> {RoleSuperAdmin, RoleTopAdmin} \<and> s = system_scope)
     \<or> (ro \<in> {RoleSeniorAdmin, RoleAdmin} \<and> s = event_scope (sc_event_id s) \<and> trim_space (sc_event_id s) \<noteq> [])"
  by (cases s) (auto simp: validate_role_scope_def scope_key_def system_scope_def event_scope_def split: if_splits)

section \<open>Bindings\<close>

record binding =
  bd_id :: string
  bd_user_id :: user_id
  bd_role :: role
  bd_scope :: scope
  bd_enabled :: bool
  bd_version :: int
  bd_granted_by :: user_id
  bd_reason_id :: string
  bd_disabled_at :: "time option"
  bd_created_at :: time
  bd_updated_at :: time

text \<open>The zero value \<open>Binding{}\<close> of Go.\<close>

definition no_binding :: binding where
  "no_binding = \<lparr>bd_id = [], bd_user_id = [], bd_role = [], bd_scope = \<lparr>sc_kind = [], sc_event_id = []\<rparr>,
     bd_enabled = False, bd_version = 0, bd_granted_by = [], bd_reason_id = [], bd_disabled_at = None,
     bd_created_at = zero_time, bd_updated_at = zero_time\<rparr>"

definition validate_binding_replacement :: "binding \<Rightarrow> binding \<Rightarrow> role_error option" where
  "validate_binding_replacement current next =
     (if bd_id current = [] \<or> bd_id current \<noteq> bd_id next \<or> bd_user_id current \<noteq> bd_user_id next
         \<or> bd_scope current \<noteq> bd_scope next \<or> \<not> bd_enabled current \<or> bd_disabled_at current \<noteq> None
      then Some ErrBindingConflict
      else if validate_role_scope (bd_role next) (bd_scope next) \<noteq> None then Some ErrBindingConflict
      else None)"

record mutation_audit =
  ma_actor_id :: user_id
  ma_reason_id :: string
  ma_request_id :: string
  ma_action :: string

record role_management_decision =
  rmd_allowed :: bool
  rmd_role :: role
  rmd_binding_id :: string
  rmd_binding_version :: int
  rmd_scope :: scope

definition no_role_management :: role_management_decision where
  "no_role_management = \<lparr>rmd_allowed = False, rmd_role = [], rmd_binding_id = [], rmd_binding_version = 0,
     rmd_scope = \<lparr>sc_kind = [], sc_event_id = []\<rparr>\<rparr>"

end
