(* ===== verification/ScopedActions.thy ===== *)
theory ScopedActions
  imports RoleTypes
begin

text \<open>
  The action vocabulary of event administration and the fixed role matrix over it, after
  \<open>internal/permissions/scoped.go\<close>: the constants, the action sets (Go maps to the empty struct,
  here lists of their keys), the canonical reauthentication targets and the request validation.
\<close>

section \<open>Actions\<close>

type_synonym action = string

definition ActionDashboardRead :: action where "ActionDashboardRead = ''event.dashboard.read''"
definition ActionApplicationReadBasic :: action where "ActionApplicationReadBasic = ''event.application.read_basic''"
definition ActionApplicationReview :: action where "ActionApplicationReview = ''event.application.review''"
definition ActionApplicationApproveAdmission :: action where "ActionApplicationApproveAdmission = ''event.application.approve_admission''"
definition ActionApplicationDecide :: action where "ActionApplicationDecide = ''event.application.decide''"
definition ActionRegistrationManage :: action where "ActionRegistrationManage = ''event.registration.manage''"
definition ActionCheckinScan :: action where "ActionCheckinScan = ''event.checkin.scan''"
definition ActionCheckinManageWindow :: action where "ActionCheckinManageWindow = ''event.checkin.manage_window''"
definition ActionIdentityAccessRequest :: action where "ActionIdentityAccessRequest = ''event.identity_access.request''"
definition ActionIdentityAccessApprove :: action where "ActionIdentityAccessApprove = ''event.identity_access.approve''"
definition ActionIdentityTargetValidate :: action where "ActionIdentityTargetValidate = ''event.identity_access.validate_target''"
definition ActionIdentityGrantConsume :: action where "ActionIdentityGrantConsume = ''event.identity_access.consume''"
definition ActionIdentityReadRestricted :: action where "ActionIdentityReadRestricted = ''event.identity.read_restricted''"
definition ActionLegalRead :: action where "ActionLegalRead = ''event.legal.read''"
definition ActionApplicationExport :: action where "ActionApplicationExport = ''event.application.export''"
definition ActionRoleManage :: action where "ActionRoleManage = ''event.role.manage''"
definition ActionAuditRead :: action where "ActionAuditRead = ''event.audit.read''"
definition ActionContactSubmissionManage :: action where "ActionContactSubmissionManage = ''event.contact_submission.manage''"
definition ActionContentManage :: action where "ActionContentManage = ''event.content.manage''"
definition ActionInspectionPointRead :: action where "ActionInspectionPointRead = ''event.inspection.point.read''"
definition ActionInspectionPointManage :: action where "ActionInspectionPointManage = ''event.inspection.point.manage''"
definition ActionInspectionPerform :: action where "ActionInspectionPerform = ''event.inspection.perform''"
definition ActionInspectionReview :: action where "ActionInspectionReview = ''event.inspection.review''"
definition ActionAssetRead :: action where "ActionAssetRead = ''event.asset.read''"
definition ActionAssetManage :: action where "ActionAssetManage = ''event.asset.manage''"
definition ActionAssetReservationManage :: action where "ActionAssetReservationManage = ''event.asset.reservation.manage''"
definition ActionAssetCustodyTransfer :: action where "ActionAssetCustodyTransfer = ''event.asset.custody.transfer''"
definition ActionAssetInventoryAdjust :: action where "ActionAssetInventoryAdjust = ''event.asset.inventory.adjust''"
definition ActionPersonalAssetAssignment :: action where "ActionPersonalAssetAssignment = ''event.personal_asset.assignment.manage''"
definition ActionAssetCodeRotate :: action where "ActionAssetCodeRotate = ''event.asset.code.rotate''"
definition ActionQRPrintSingle :: action where "ActionQRPrintSingle = ''event.qr.print.single''"
definition ActionQRPrintBulk :: action where "ActionQRPrintBulk = ''event.qr.print.bulk''"
definition ActionRoleMigrationRead :: action where "ActionRoleMigrationRead = ''system.role_migration.read''"
definition ActionEventRegistryManage :: action where "ActionEventRegistryManage = ''system.event_registry.manage''"
definition ActionOperationReceiptRead :: action where "ActionOperationReceiptRead = ''system.operation_receipt.read''"

lemmas action_defs =
   ActionDashboardRead_def ActionApplicationReadBasic_def ActionApplicationReview_def
   ActionApplicationApproveAdmission_def ActionApplicationDecide_def
   ActionRegistrationManage_def ActionCheckinScan_def ActionCheckinManageWindow_def
   ActionIdentityAccessRequest_def ActionIdentityAccessApprove_def
   ActionIdentityTargetValidate_def ActionIdentityGrantConsume_def
   ActionIdentityReadRestricted_def ActionLegalRead_def ActionApplicationExport_def
   ActionRoleManage_def ActionAuditRead_def ActionContactSubmissionManage_def
   ActionContentManage_def ActionInspectionPointRead_def ActionInspectionPointManage_def
   ActionInspectionPerform_def ActionInspectionReview_def ActionAssetRead_def
   ActionAssetManage_def ActionAssetReservationManage_def ActionAssetCustodyTransfer_def
   ActionAssetInventoryAdjust_def ActionPersonalAssetAssignment_def ActionAssetCodeRotate_def
   ActionQRPrintSingle_def ActionQRPrintBulk_def ActionRoleMigrationRead_def
   ActionEventRegistryManage_def ActionOperationReceiptRead_def

section \<open>Action sets\<close>

definition event_actions :: "action list" where
  "event_actions = [
   ActionDashboardRead, ActionApplicationReadBasic, ActionApplicationReview,
   ActionApplicationApproveAdmission, ActionApplicationDecide, ActionRegistrationManage,
   ActionCheckinScan, ActionCheckinManageWindow, ActionIdentityAccessRequest,
   ActionIdentityAccessApprove, ActionIdentityTargetValidate, ActionIdentityGrantConsume,
   ActionIdentityReadRestricted, ActionLegalRead, ActionApplicationExport, ActionRoleManage,
   ActionAuditRead, ActionContactSubmissionManage, ActionContentManage,
   ActionInspectionPointRead, ActionInspectionPointManage, ActionInspectionPerform,
   ActionInspectionReview, ActionAssetRead, ActionAssetManage, ActionAssetReservationManage,
   ActionAssetCustodyTransfer, ActionAssetInventoryAdjust, ActionPersonalAssetAssignment,
   ActionAssetCodeRotate, ActionQRPrintSingle, ActionQRPrintBulk]"

definition system_actions :: "action list" where
  "system_actions = [
   ActionRoleMigrationRead, ActionEventRegistryManage, ActionOperationReceiptRead]"

definition delegated_administrator_actions :: "action list" where
  "delegated_administrator_actions = [
   ActionDashboardRead, ActionApplicationReadBasic, ActionApplicationReview,
   ActionApplicationApproveAdmission, ActionApplicationDecide, ActionRegistrationManage,
   ActionCheckinScan, ActionCheckinManageWindow, ActionIdentityTargetValidate,
   ActionIdentityGrantConsume, ActionIdentityReadRestricted, ActionLegalRead,
   ActionApplicationExport, ActionAuditRead, ActionContactSubmissionManage, ActionContentManage,
   ActionInspectionPointRead, ActionInspectionPointManage, ActionInspectionPerform,
   ActionInspectionReview, ActionAssetRead, ActionAssetManage, ActionAssetReservationManage,
   ActionAssetCustodyTransfer, ActionAssetInventoryAdjust, ActionPersonalAssetAssignment,
   ActionAssetCodeRotate, ActionQRPrintSingle, ActionQRPrintBulk, ActionRoleMigrationRead]"

definition high_risk_delegated_administrator_actions :: "action list" where
  "high_risk_delegated_administrator_actions = [
   ActionApplicationReview, ActionApplicationApproveAdmission, ActionApplicationDecide,
   ActionRegistrationManage, ActionCheckinScan, ActionCheckinManageWindow,
   ActionIdentityGrantConsume, ActionIdentityReadRestricted, ActionLegalRead,
   ActionApplicationExport, ActionAuditRead, ActionContactSubmissionManage, ActionContentManage,
   ActionInspectionPointManage, ActionInspectionPerform, ActionInspectionReview,
   ActionAssetManage, ActionAssetReservationManage, ActionAssetCustodyTransfer,
   ActionAssetInventoryAdjust, ActionPersonalAssetAssignment, ActionAssetCodeRotate,
   ActionQRPrintSingle, ActionQRPrintBulk, ActionRoleMigrationRead]"

definition admin_event_actions :: "action list" where
  "admin_event_actions = [
   ActionDashboardRead, ActionApplicationReadBasic, ActionApplicationReview,
   ActionApplicationApproveAdmission, ActionCheckinScan, ActionAuditRead,
   ActionContactSubmissionManage, ActionContentManage, ActionInspectionPointRead,
   ActionInspectionPerform, ActionAssetRead, ActionAssetCustodyTransfer, ActionQRPrintSingle]"

definition senior_event_actions :: "action list" where
  "senior_event_actions = [
   ActionIdentityAccessRequest, ActionIdentityTargetValidate, ActionIdentityGrantConsume,
   ActionInspectionReview, ActionAssetReservationManage]"

definition is_delegated_administrator_action :: "action \<Rightarrow> bool" where
  "is_delegated_administrator_action a \<longleftrightarrow> a \<in> set delegated_administrator_actions"

definition is_high_risk_delegated_administrator_action :: "action \<Rightarrow> bool" where
  "is_high_risk_delegated_administrator_action a \<longleftrightarrow> a \<in> set high_risk_delegated_administrator_actions"

section \<open>The fixed role matrix\<close>

definition fixed_role_allows :: "role \<Rightarrow> action \<Rightarrow> bool" where
  "fixed_role_allows ro a =
     (if a = ActionOperationReceiptRead then False
      else if ro = RoleSuperAdmin \<or> ro = RoleTopAdmin then a \<in> set event_actions \<or> a \<in> set system_actions
      else if ro = RoleSeniorAdmin then (if a \<in> set admin_event_actions then True else a \<in> set senior_event_actions)
      else if ro = RoleAdmin then a \<in> set admin_event_actions
      else False)"

lemma admin_within_event: "set admin_event_actions \<subseteq> set event_actions"
  by (simp add: admin_event_actions_def event_actions_def)

lemma senior_within_event: "set senior_event_actions \<subseteq> set event_actions"
  by (simp add: senior_event_actions_def event_actions_def)

lemma event_action_prefix: "a \<in> set event_actions \<Longrightarrow> take 6 a = ''event.''"
  by (auto simp: event_actions_def action_defs)

lemma system_action_prefix: "a \<in> set system_actions \<Longrightarrow> take 6 a = ''system''"
  by (auto simp: system_actions_def action_defs)

lemma event_system_disjoint: "set event_actions \<inter> set system_actions = {}"
  using event_action_prefix system_action_prefix by fastforce

lemma receipt_read_is_system: "ActionOperationReceiptRead \<in> set system_actions"
  by (simp add: system_actions_def)

lemma receipt_read_not_event: "ActionOperationReceiptRead \<notin> set event_actions"
  using event_system_disjoint receipt_read_is_system by blast

lemma event_role_actions:
  "fixed_role_allows ro a \<Longrightarrow> ro \<notin> {RoleSuperAdmin, RoleTopAdmin} \<Longrightarrow> a \<in> set event_actions"
  using admin_within_event senior_within_event by (auto simp: fixed_role_allows_def split: if_splits)

text \<open>
  The role matrix is a chain bounded by the action vocabulary: what an administrator may do a
  senior administrator may do, what a senior administrator may do a super or top administrator
  may do, these two have the same rights, the event roles never reach a system action, nobody may
  read operation receipts, and a role the program does not know may do nothing.
\<close>

theorem role_matrix_is_a_bounded_chain:
  "(fixed_role_allows RoleAdmin a \<longrightarrow> fixed_role_allows RoleSeniorAdmin a)
   \<and> (fixed_role_allows RoleSeniorAdmin a \<longrightarrow> fixed_role_allows RoleSuperAdmin a)
   \<and> fixed_role_allows RoleTopAdmin a = fixed_role_allows RoleSuperAdmin a
   \<and> (fixed_role_allows RoleSeniorAdmin a \<longrightarrow> a \<in> set event_actions \<and> a \<notin> set system_actions)
   \<and> (fixed_role_allows ro a \<longrightarrow> a \<noteq> ActionOperationReceiptRead
        \<and> ro \<in> {RoleSuperAdmin, RoleTopAdmin, RoleSeniorAdmin, RoleAdmin}
        \<and> (a \<in> set event_actions \<or> a \<in> {ActionRoleMigrationRead, ActionEventRegistryManage}))"
proof -
  have 1: "fixed_role_allows RoleAdmin a \<Longrightarrow> fixed_role_allows RoleSeniorAdmin a"
    by (auto simp: fixed_role_allows_def split: if_splits)
  have 2: "fixed_role_allows RoleSeniorAdmin a \<Longrightarrow> fixed_role_allows RoleSuperAdmin a"
    using event_role_actions [of RoleSeniorAdmin a]
    by (auto simp: fixed_role_allows_def split: if_splits)
  have 3: "fixed_role_allows RoleTopAdmin a = fixed_role_allows RoleSuperAdmin a"
    by (simp add: fixed_role_allows_def)
  have 4: "fixed_role_allows RoleSeniorAdmin a \<Longrightarrow> a \<in> set event_actions \<and> a \<notin> set system_actions"
    using event_role_actions [of RoleSeniorAdmin a] event_system_disjoint by auto
  have 5: "a \<in> set event_actions \<or> a \<in> {ActionRoleMigrationRead, ActionEventRegistryManage}"
    if f: "fixed_role_allows ro a"
  proof (cases "ro \<in> {RoleSuperAdmin, RoleTopAdmin}")
    case True
    with f show ?thesis by (auto simp: fixed_role_allows_def system_actions_def split: if_splits)
  next
    case False
    with f show ?thesis using event_role_actions by blast
  qed
  have 6: "fixed_role_allows ro a \<Longrightarrow> a \<noteq> ActionOperationReceiptRead
      \<and> ro \<in> {RoleSuperAdmin, RoleTopAdmin, RoleSeniorAdmin, RoleAdmin}"
    by (auto simp: fixed_role_allows_def split: if_splits)
  show ?thesis using 1 2 3 4 5 6 by blast
qed

theorem role_matrix_is_a_bounded_chain_witness:
  "fixed_role_allows RoleSuperAdmin ActionAssetRead \<and> \<not> fixed_role_allows RoleAdmin ActionRoleManage"
proof -
  have "fixed_role_allows RoleAdmin ActionAssetRead"
    by (simp add: fixed_role_allows_def admin_event_actions_def action_defs)
  then have "fixed_role_allows RoleSuperAdmin ActionAssetRead"
    using role_matrix_is_a_bounded_chain [of ActionAssetRead RoleAdmin] by blast
  then show ?thesis by (simp add: fixed_role_allows_def admin_event_actions_def action_defs)
qed

section \<open>Resources and requests\<close>

text \<open>The attribute values the callers put into a resource or a principal.\<close>

datatype attr = AttrString string | AttrInt int | AttrBool bool

type_synonym attributes = "string \<rightharpoonup> attr"

record resource =
  re_kind :: string
  re_id :: string
  re_event_id :: event_id
  re_attributes :: attributes

datatype perm_error =
  ErrInvalidScopedAuthorization
  | ErrDecisionMismatch \<comment> \<open>count or correlation of the decisions\<close>
  | ErrPrincipalNotFound
  | ErrPolicyValidation
  | ErrPermInfra \<comment> \<open>a wrapped failure of a collaborator\<close>

definition validate_scoped_request :: "user_id \<Rightarrow> action \<Rightarrow> resource \<Rightarrow> perm_error option" where
  "validate_scoped_request u a re =
     (if u = [] \<or> trim_space (re_kind re) = [] \<or> trim_space (re_id re) = []
         \<or> CHR '':'' \<in> set (re_kind re) \<or> CHR '':'' \<in> set (re_id re)
      then Some ErrInvalidScopedAuthorization
      else if a \<in> set event_actions
      then (if trim_space (re_event_id re) = [] then Some ErrInvalidScopedAuthorization else None)
      else if a \<in> set system_actions
      then (if (a = ActionRoleMigrationRead \<or> a = ActionOperationReceiptRead) \<and> trim_space (re_event_id re) = []
            then Some ErrInvalidScopedAuthorization else None)
      else Some ErrInvalidScopedAuthorization)"

section \<open>Reauthentication targets\<close>

text \<open>\<open>^[A-Za-z0-9][A-Za-z0-9._:-]{0,199}$\<close>\<close>

definition target_component :: "string \<Rightarrow> bool" where
  "target_component s =
     (case s of [] \<Rightarrow> False
      | c # cs \<Rightarrow> is_alnum c \<and> length cs \<le> 199
          \<and> (\<forall>x\<in>set cs. is_alnum x \<or> x \<in> {CHR ''.'', CHR ''_'', CHR '':'', CHR ''-''}))"

definition target_kind_valid :: "action \<Rightarrow> bool \<Rightarrow> string \<Rightarrow> bool" where
  "target_kind_valid a event_target kind =
     (if a \<in> set [ActionContentManage, ActionRegistrationManage, ActionCheckinScan, ActionCheckinManageWindow,
                ActionApplicationExport, ActionAuditRead, ActionRoleMigrationRead] then event_target
      else if a = ActionInspectionPointManage then event_target \<or> kind = ''inspection_point''
      else if a = ActionInspectionPerform then kind = ''inspection_point'' \<or> kind = ''inspection_photo_upload''
      else if a = ActionInspectionReview then event_target \<or> kind = ''inspection_record''
      else if a = ActionAssetManage then event_target \<or> kind = ''event_asset''
      else if a = ActionAssetReservationManage then event_target \<or> kind = ''asset_reservation''
      else if a = ActionAssetCustodyTransfer then kind = ''asset_unit''
      else if a = ActionAssetInventoryAdjust then kind = ''event_asset'' \<or> kind = ''asset_unit''
      else if a = ActionPersonalAssetAssignment then event_target \<or> kind = ''personal_asset_assignment''
      else if a = ActionAssetCodeRotate then kind = ''asset_unit''
      else if a = ActionQRPrintSingle then kind = ''entity_code'' \<or> kind = ''qr_print_job''
      else if a = ActionQRPrintBulk then event_target \<or> kind = ''qr_print_job''
      else if a = ActionContactSubmissionManage then event_target \<or> kind = ''contact_submission''
      else if a \<in> set [ActionApplicationReview, ActionApplicationApproveAdmission, ActionApplicationDecide,
                ActionIdentityReadRestricted, ActionLegalRead] then kind = ''application''
      else if a = ActionIdentityGrantConsume then kind = ''identity_access_grant''
      else False)"

text \<open>
  \<open>json.Unmarshal\<close> into and \<open>json.Marshal\<close> of a string slice are arguments; the first may fail.
\<close>

definition parse_reauthentication_target ::
  "(string \<Rightarrow> string list option) \<Rightarrow> (string list \<Rightarrow> string)
     \<Rightarrow> event_id \<Rightarrow> action \<Rightarrow> string \<Rightarrow> resource option" where
  "parse_reauthentication_target json_unmarshal json_marshal ev a target =
     (if \<not> is_high_risk_delegated_administrator_action a \<or> length target = 0 \<or> length target > 900
         \<or> \<not> target_component ev
      then None
      else case json_unmarshal target of
             None \<Rightarrow> None
           | Some tuple \<Rightarrow>
               if length tuple \<noteq> 4 then None
               else if json_marshal tuple \<noteq> target \<or> tuple ! 0 \<noteq> ''dreamup-admin-target/v1''
                 \<or> tuple ! 1 \<noteq> ev \<or> \<not> target_component (tuple ! 2) \<or> \<not> target_component (tuple ! 3)
               then None
               else if target_kind_valid a (tuple ! 2 = ''event'' \<and> tuple ! 3 = ev) (tuple ! 2)
               then Some \<lparr>re_kind = tuple ! 2, re_id = tuple ! 3, re_event_id = ev, re_attributes = Map.empty\<rparr>
               else None)"

lemma length_four: "length xs = 4 \<Longrightarrow> xs = [xs ! 0, xs ! 1, xs ! 2, xs ! 3]"
  by (auto simp: numeral_eq_Suc length_Suc_conv)

text \<open>
  A reauthentication target is accepted in one spelling only: it is the JSON encoding of the
  version tag, the event of the request and the kind and id it decodes to.  So two accepted
  targets with the same decoded resource are the same bytes, an accepted target never names
  another event, and only high-risk delegated actions have targets at all.
\<close>

theorem reauthentication_target_canonical:
  assumes "parse_reauthentication_target json_unmarshal json_marshal ev a target = Some re"
  shows "target = json_marshal [''dreamup-admin-target/v1'', ev, re_kind re, re_id re]
    \<and> re_event_id re = ev \<and> is_high_risk_delegated_administrator_action a
    \<and> target_kind_valid a (re_kind re = ''event'' \<and> re_id re = ev) (re_kind re)
    \<and> target_component (re_id re) \<and> length target \<le> 900"
proof -
  from assms obtain tuple where u: "json_unmarshal target = Some tuple" and l: "length tuple = 4"
    and m: "json_marshal tuple = target" and t: "tuple ! 0 = ''dreamup-admin-target/v1''" "tuple ! 1 = ev"
      "target_component (tuple ! 3)"
    and k: "target_kind_valid a (tuple ! 2 = ''event'' \<and> tuple ! 3 = ev) (tuple ! 2)"
    and re: "re = \<lparr>re_kind = tuple ! 2, re_id = tuple ! 3, re_event_id = ev, re_attributes = Map.empty\<rparr>"
    and h: "is_high_risk_delegated_administrator_action a" "length target \<le> 900"
    by (auto simp: parse_reauthentication_target_def split: if_splits option.splits)
  have "tuple = [''dreamup-admin-target/v1'', ev, tuple ! 2, tuple ! 3]"
    using length_four [OF l] t by simp
  with m have "target = json_marshal [''dreamup-admin-target/v1'', ev, tuple ! 2, tuple ! 3]" by simp
  with re k h t(3) show ?thesis by simp
qed

definition demo_target_codec :: "string \<Rightarrow> string list option" where
  "demo_target_codec s = Some (str_split CHR '','' s)"

theorem reauthentication_target_canonical_witness:
  "''dreamup-admin-target/v1,e1,asset_unit,u7''
     = str_join [''dreamup-admin-target/v1'', ''e1'', ''asset_unit'', ''u7''] '',''"
proof -
  have "map_option (\<lambda>r. (re_kind r, re_id r)) (parse_reauthentication_target demo_target_codec
      (\<lambda>xs. str_join xs '','') ''e1'' ActionAssetCodeRotate ''dreamup-admin-target/v1,e1,asset_unit,u7'')
    = Some (''asset_unit'', ''u7'')"
    by code_simp
  then obtain re where p: "parse_reauthentication_target demo_target_codec (\<lambda>xs. str_join xs '','') ''e1''
      ActionAssetCodeRotate ''dreamup-admin-target/v1,e1,asset_unit,u7'' = Some re"
    and re: "re_kind re = ''asset_unit''" "re_id re = ''u7''" by auto
  show ?thesis using reauthentication_target_canonical [OF p] re by simp
qed

end
