(* ===== verification/CerbosClient.thy ===== *)
theory CerbosClient
  imports ScopedActions
begin

text \<open>
  The client of the policy decision point, after \<open>internal/adapters/cerbos/client.go\<close>: the
  request of \<open>Check\<close>, the correlation of its response, and the compilation of a published policy
  into a rule document.  The HTTP exchange (\<open>doJSON\<close>) is an argument: it maps a request to the
  decoded results or to an error.  The batching loop that both permission services run over the
  client is here as well, with the interface it relies on as a locale.
\<close>

section \<open>Policies\<close>

type_synonym policy_id = string
type_synonym effect = string

definition EffectAllow :: effect where "EffectAllow = ''allow''"
definition EffectDeny :: effect where "EffectDeny = ''deny''"

lemma effects_differ [simp]: "EffectAllow \<noteq> EffectDeny" "EffectDeny \<noteq> EffectAllow"
  by (simp_all add: EffectAllow_def EffectDeny_def)

record clause =
  cl_attribute :: string
  cl_operator :: string
  cl_value :: string

record published_policy =
  pp_policy_id :: policy_id
  pp_name :: string
  pp_resource :: string
  pp_action :: string
  pp_effect :: effect
  pp_version :: int
  pp_principals :: "clause list"
  pp_conditions :: "clause list"

definition has_policy_id_prefix :: "string \<Rightarrow> bool" where
  "has_policy_id_prefix s \<longleftrightarrow> has_prefix s ''pol_'' \<and> 12 \<le> length s \<and> length s \<le> 80"

section \<open>Compilation of a policy\<close>

record policy_rule =
  ru_name :: string
  ru_actions :: "string list"
  ru_effect :: string
  ru_roles :: "string list"
  ru_condition :: "string option"

record policy_document =
  do_resource :: string
  do_version :: string
  do_rules :: "policy_rule list"

definition resource_kind :: "policy_id \<Rightarrow> string" where
  "resource_kind pid = ''united_pass_'' @ map (\<lambda>c. if c = CHR ''-'' then CHR ''_'' else c) pid"

text \<open>\<open>strconv.Quote\<close> is the argument \<open>quote\<close>.\<close>

definition compile_clause :: "(string \<Rightarrow> string) \<Rightarrow> string \<Rightarrow> clause \<Rightarrow> string" where
  "compile_clause quote prefix cl =
     (let attribute = prefix @ cl_attribute cl;
          v = quote (cl_value cl);
          operator = cl_operator cl;
          listed = attribute @ '' in ['' @ str_join (map (\<lambda>x. quote (trim_space x)) (str_split CHR '','' (cl_value cl))) '','' @ '']''
      in if operator = ''eq'' then attribute @ '' == '' @ v
         else if operator = ''neq'' then attribute @ '' != '' @ v
         else if operator = ''contains'' then attribute @ ''.contains('' @ v @ '')''
         else if operator = ''in'' then listed
         else if operator = ''not_in'' then ''!('' @ listed @ '')''
         else if operator = ''gt'' then ''double('' @ attribute @ '') > '' @ cl_value cl
         else if operator = ''lt'' then ''double('' @ attribute @ '') < '' @ cl_value cl
         else ''false'')"

definition policy_expressions :: "(string \<Rightarrow> string) \<Rightarrow> published_policy \<Rightarrow> string list" where
  "policy_expressions quote p =
     map (compile_clause quote ''request.principal.attr.'') (pp_principals p)
     @ map (compile_clause quote ''request.resource.attr.'') (pp_conditions p)"

definition compile_policy :: "(string \<Rightarrow> string) \<Rightarrow> published_policy \<Rightarrow> perm_error + policy_document" where
  "compile_policy quote p =
     (if \<not> has_policy_id_prefix (pp_policy_id p) \<or> pp_version p < 1 then Inl ErrPolicyValidation
      else
        (let expressions = policy_expressions quote p;
             condition = (if expressions = [] then None else Some (str_join expressions '' && ''));
             match_effect = (if pp_effect p = EffectDeny then ''EFFECT_DENY'' else ''EFFECT_ALLOW'');
             rule = \<lparr>ru_name = ''united_pass_rule'', ru_actions = [''evaluate''], ru_effect = match_effect,
               ru_roles = [''*''], ru_condition = condition\<rparr>;
             fallback = \<lparr>ru_name = ''united_pass_deny_fallback'', ru_actions = [''evaluate''],
               ru_effect = ''EFFECT_ALLOW'', ru_roles = [''*''], ru_condition = None\<rparr>
         in Inr \<lparr>do_resource = resource_kind (pp_policy_id p), do_version = itoa (pp_version p),
              do_rules = (if pp_effect p = EffectDeny then [rule, fallback] else [rule])\<rparr>))"

section \<open>The decision request\<close>

record cerbos_principal =
  cp_id :: user_id
  cp_roles :: "string list"
  cp_attributes :: attributes

record resource_check =
  rc_policy_id :: policy_id
  rc_version :: int
  rc_attributes :: attributes

record decision =
  de_policy_id :: policy_id
  de_allowed :: bool

record wire_resource =
  wr_id :: string
  wr_kind :: string
  wr_policy_version :: string
  wr_attributes :: attributes
  wr_actions :: "string list"

record wire_request =
  wq_request_id :: string
  wq_principal :: cerbos_principal
  wq_resources :: "wire_resource list"

record wire_result =
  ws_id :: string
  ws_actions :: "string \<rightharpoonup> string"

type_synonym 'w transport = "wire_request \<Rightarrow> 'w \<Rightarrow> (perm_error + wire_result list) \<times> 'w"

definition wire_of :: "resource_check \<Rightarrow> wire_resource" where
  "wire_of c = \<lparr>wr_id = rc_policy_id c, wr_kind = resource_kind (rc_policy_id c),
     wr_policy_version = itoa (rc_version c), wr_attributes = rc_attributes c, wr_actions = [''evaluate'']\<rparr>"

definition decision_of :: "wire_result \<Rightarrow> decision" where
  "decision_of r = \<lparr>de_policy_id = ws_id r, de_allowed = (ws_actions r ''evaluate'' = Some ''EFFECT_ALLOW'')\<rparr>"

definition cerbos_check ::
  "'w transport \<Rightarrow> string \<Rightarrow> cerbos_principal \<Rightarrow> resource_check list \<Rightarrow> 'w \<Rightarrow> (perm_error + decision list) \<times> 'w" where
  "cerbos_check post request_id prin checks w =
     (case post \<lparr>wq_request_id = request_id, wq_principal = prin, wq_resources = map wire_of checks\<rparr> w of
        (Inl e, w') \<Rightarrow> (Inl e, w')
      | (Inr results, w') \<Rightarrow>
          (let decisions = map decision_of results
           in if length decisions \<noteq> length checks then (Inl ErrPermInfra, w') else (Inr decisions, w')))"

section \<open>Batches\<close>

definition max_checks_per_request :: nat where
  "max_checks_per_request = 50"

text \<open>The loop \<open>for start := 0; start < len(checks); start += maxCerbosChecksPerRequest\<close>.\<close>

function check_batches ::
  "(string \<Rightarrow> cerbos_principal \<Rightarrow> resource_check list \<Rightarrow> 'w \<Rightarrow> (perm_error + decision list) \<times> 'w)
     \<Rightarrow> string \<Rightarrow> cerbos_principal \<Rightarrow> resource_check list \<Rightarrow> 'w \<Rightarrow> (perm_error + decision list) \<times> 'w" where
  "check_batches client cid prin checks w =
     (if checks = [] then (Inr [], w)
      else
        (case client cid prin (take max_checks_per_request checks) w of
           (Inl e, w1) \<Rightarrow> (Inl e, w1)
         | (Inr batch, w1) \<Rightarrow>
             (case check_batches client cid prin (drop max_checks_per_request checks) w1 of
                (Inl e, w2) \<Rightarrow> (Inl e, w2)
              | (Inr rest, w2) \<Rightarrow> (Inr (batch @ rest), w2))))"
  by pat_completeness auto
termination
  by (relation "measure (\<lambda>(client, cid, prin, checks, w). length checks)") (auto simp: max_checks_per_request_def)

declare check_batches.simps [simp del]

lemma check_batches_Nil [simp]: "check_batches client cid prin [] w = (Inr [], w)"
  by (simp add: check_batches.simps)

text \<open>
  What the permission services rely on: a client that answers at all answers every check, in
  order, with decisions \<open>answers\<close> relates to them.
\<close>

locale decision_client =
  fixes client :: "string \<Rightarrow> cerbos_principal \<Rightarrow> resource_check list \<Rightarrow> 'w \<Rightarrow> (perm_error + decision list) \<times> 'w"
    and answers :: "cerbos_principal \<Rightarrow> resource_check \<Rightarrow> decision \<Rightarrow> bool"
  assumes client_answers: "client cid prin cs w = (Inr ds, w') \<Longrightarrow> list_all2 (answers prin) cs ds"
begin

lemma batches_answer:
  "check_batches client cid prin cs w = (Inr ds, w') \<Longrightarrow> list_all2 (answers prin) cs ds"
proof (induction cs arbitrary: w ds w' rule: measure_induct_rule [where f = length])
  case (less cs)
  show ?case
  proof (cases "cs = []")
    case True
    with less.prems show ?thesis by simp
  next
    case False
    with less.prems obtain b w1 rest where
      b: "client cid prin (take max_checks_per_request cs) w = (Inr b, w1)"
      and r: "check_batches client cid prin (drop max_checks_per_request cs) w1 = (Inr rest, w')"
      and ds: "ds = b @ rest"
      by (subst (asm) check_batches.simps) (auto split: prod.splits sum.splits)
    have "length (drop max_checks_per_request cs) < length cs"
      using False by (simp add: max_checks_per_request_def)
    from less.IH [OF this r] client_answers [OF b]
    have "list_all2 (answers prin) (take max_checks_per_request cs @ drop max_checks_per_request cs) (b @ rest)"
      by (intro list_all2_appendI)
    with ds show ?thesis by simp
  qed
qed

lemma batches_length: "check_batches client cid prin cs w = (Inr ds, w') \<Longrightarrow> length ds = length cs"
  by (drule batches_answer) (rule list_all2_lengthD [symmetric])

end

text \<open>
  The decision the transport gave for a check: it stood, in some exchange, at the position of
  the check.
\<close>

definition pdp_answer :: "'w transport \<Rightarrow> cerbos_principal \<Rightarrow> resource_check \<Rightarrow> decision \<Rightarrow> bool" where
  "pdp_answer post prin c d \<longleftrightarrow>
     (\<exists>cid cs w rs w' i.
        post \<lparr>wq_request_id = cid, wq_principal = prin, wq_resources = map wire_of cs\<rparr> w = (Inr rs, w')
        \<and> length rs = length cs \<and> i < length cs \<and> cs ! i = c \<and> d = decision_of (rs ! i))"

lemma cerbos_check_answers:
  assumes "cerbos_check post cid prin cs w = (Inr ds, w')"
  shows "list_all2 (pdp_answer post prin) cs ds"
proof -
  obtain rs where rs: "post \<lparr>wq_request_id = cid, wq_principal = prin, wq_resources = map wire_of cs\<rparr> w = (Inr rs, w')"
    and ds: "ds = map decision_of rs" and l: "length rs = length cs"
    using assms by (auto simp: cerbos_check_def Let_def split: prod.splits sum.splits if_splits)
  have "pdp_answer post prin (cs ! i) (decision_of (rs ! i))" if "i < length cs" for i
    unfolding pdp_answer_def using rs l that by blast
  with l ds show ?thesis by (simp add: list_all2_conv_all_nth)
qed

interpretation cc: decision_client "cerbos_check post" "pdp_answer post" for post :: "'w transport"
  by unfold_locales (rule cerbos_check_answers)

section \<open>Compiled policies under the documented rule semantics\<close>

text \<open>
  How the decision point evaluates the rules of a document, as its documentation states it: a
  matching deny rule wins, then a matching allow rule, and without a match the action is denied.
  \<open>holds\<close> tells whether a condition expression holds for the principal and the attributes.
\<close>

definition rule_matches :: "(string \<Rightarrow> bool) \<Rightarrow> policy_rule \<Rightarrow> bool" where
  "rule_matches holds r \<longleftrightarrow> (case ru_condition r of None \<Rightarrow> True | Some e \<Rightarrow> holds e)"

definition rules_outcome :: "(string \<Rightarrow> bool) \<Rightarrow> policy_rule list \<Rightarrow> string" where
  "rules_outcome holds rs =
     (if \<exists>r\<in>set rs. ru_effect r = ''EFFECT_DENY'' \<and> rule_matches holds r then ''EFFECT_DENY''
      else if \<exists>r\<in>set rs. ru_effect r = ''EFFECT_ALLOW'' \<and> rule_matches holds r then ''EFFECT_ALLOW''
      else ''EFFECT_DENY'')"

definition policy_applies :: "(string \<Rightarrow> string) \<Rightarrow> (string \<Rightarrow> bool) \<Rightarrow> published_policy \<Rightarrow> bool" where
  "policy_applies quote holds p \<longleftrightarrow>
     policy_expressions quote p = [] \<or> holds (str_join (policy_expressions quote p) '' && '')"

text \<open>An allow document answers allow when it applies, a deny document when it does not.\<close>

lemma compiled_outcome:
  assumes "compile_policy quote p = Inr doc"
  shows "rules_outcome holds (do_rules doc) = ''EFFECT_ALLOW'' \<longleftrightarrow>
     (if pp_effect p = EffectDeny then \<not> policy_applies quote holds p else policy_applies quote holds p)"
  using assms
  by (auto simp: compile_policy_def Let_def rules_outcome_def rule_matches_def policy_applies_def
      split: if_splits)

end
