(* ===== verification/Permissions.thy ===== *)
theory Permissions
  imports CerbosClient
begin

text \<open>
  The permission services of \<open>internal/permissions\<close>: the scoped authorizer of event
  administration (\<open>cerbos_authorizer.go\<close>), the capability resolver (\<open>cerbos_resolver.go\<close>) and the
  resolvers wrapped around it (\<open>resolver.go\<close>).  Collaborators are operations over an arbitrary
  world; the policy client is either an arbitrary one or the model of the decision-point client.
\<close>

section \<open>Collaborators\<close>

record principal_context =
  pc_roles :: "string list"
  pc_attrs :: attributes
  pc_challenge_version :: int

text \<open>\<open>pe_complete\<close> is false when a collaborator of the service is nil.\<close>

record 'w perm_env =
  pe_complete :: bool
  pe_get_for_scope :: "user_id \<Rightarrow> scope \<Rightarrow> 'w \<Rightarrow> (role_error + binding) \<times> 'w"
  pe_principal :: "user_id \<Rightarrow> 'w \<Rightarrow> (perm_error + principal_context) \<times> 'w"
  pe_list_published :: "string \<Rightarrow> string \<Rightarrow> 'w \<Rightarrow> (perm_error + published_policy list) \<times> 'w"
  pe_client :: "string \<Rightarrow> cerbos_principal \<Rightarrow> resource_check list \<Rightarrow> 'w \<Rightarrow> (perm_error + CerbosClient.decision list) \<times> 'w"
  pe_request_id :: string

record scoped_decision =
  sd_allowed :: bool
  sd_role :: role
  sd_binding_id :: string
  sd_binding_version :: int
  sd_challenge_version :: int

definition not_allowed :: scoped_decision where
  "not_allowed = \<lparr>sd_allowed = False, sd_role = [], sd_binding_id = [], sd_binding_version = 0,
     sd_challenge_version = 0\<rparr>"

section \<open>The scoped authorizer\<close>

definition active_binding :: "binding \<Rightarrow> bool" where
  "active_binding b \<longleftrightarrow> bd_id b \<noteq> [] \<and> bd_enabled b \<and> bd_disabled_at b = None \<and> 0 < bd_version b"

definition load_optional_binding ::
  "'w perm_env \<Rightarrow> user_id \<Rightarrow> scope \<Rightarrow> 'w \<Rightarrow> (perm_error + binding) \<times> 'w" where
  "load_optional_binding E u s w =
     (case pe_get_for_scope E u s w of
        (Inl e, w') \<Rightarrow> (if e = ErrBindingNotFound then (Inr no_binding, w') else (Inl ErrPermInfra, w'))
      | (Inr b, w') \<Rightarrow>
          (if bd_user_id b \<noteq> u \<or> bd_scope b \<noteq> s \<or> validate_role_scope (bd_role b) (bd_scope b) \<noteq> None
           then (Inl ErrInvalidScopedAuthorization, w') else (Inr b, w')))"

definition select_scoped_binding :: "action \<Rightarrow> binding \<Rightarrow> binding \<Rightarrow> binding" where
  "select_scoped_binding a system event =
     (if active_binding system \<and> (bd_role system = RoleSuperAdmin \<or> bd_role system = RoleTopAdmin) then system
      else if a \<in> set event_actions then event
      else no_binding)"

definition append_role :: "string list \<Rightarrow> string \<Rightarrow> string list" where
  "append_role roles r = (if r \<in> set roles then roles else roles @ [r])"

fun combine_loop ::
  "published_policy list \<Rightarrow> CerbosClient.decision list \<Rightarrow> bool \<Rightarrow> bool \<Rightarrow> perm_error + bool \<times> bool" where
  "combine_loop (p # ps) (d # ds) allow deny =
     (if de_policy_id d \<noteq> pp_policy_id p then Inl ErrDecisionMismatch
      else combine_loop ps ds (allow \<or> (pp_effect p = EffectAllow \<and> de_allowed d))
             (deny \<or> (pp_effect p = EffectDeny \<and> \<not> de_allowed d)))"
| "combine_loop _ _ allow deny = Inr (allow, deny)"

definition combine_scoped_policy_decisions ::
  "published_policy list \<Rightarrow> CerbosClient.decision list \<Rightarrow> perm_error + bool" where
  "combine_scoped_policy_decisions published decisions =
     (if length decisions \<noteq> length published then Inl ErrDecisionMismatch
      else case combine_loop published decisions False False of
             Inl e \<Rightarrow> Inl e
           | Inr (matched_allow, matched_deny) \<Rightarrow> Inr (matched_allow \<and> \<not> matched_deny))"

definition principal_attributes :: "principal_context \<Rightarrow> resource \<Rightarrow> binding \<Rightarrow> attributes" where
  "principal_attributes pr re b = (pc_attrs pr)
     (''eventId'' \<mapsto> AttrString (re_event_id re), ''eventRole'' \<mapsto> AttrString (bd_role b),
      ''roleBindingId'' \<mapsto> AttrString (bd_id b), ''roleBindingVersion'' \<mapsto> AttrInt (bd_version b),
      ''challengeVersion'' \<mapsto> AttrInt (pc_challenge_version pr))"

definition policy_selector :: "resource \<Rightarrow> string" where
  "policy_selector re = re_kind re @ '':'' @ re_id re"

definition resource_check_of :: "action \<Rightarrow> resource \<Rightarrow> published_policy \<Rightarrow> resource_check" where
  "resource_check_of a re p = \<lparr>rc_policy_id = pp_policy_id p, rc_version = pp_version p,
     rc_attributes = (re_attributes re)(''kind'' \<mapsto> AttrString (re_kind re), ''id'' \<mapsto> AttrString (re_id re),
        ''eventId'' \<mapsto> AttrString (re_event_id re), ''action'' \<mapsto> AttrString a,
        ''selector'' \<mapsto> AttrString (policy_selector re))\<rparr>"

definition relevant_policy :: "action \<Rightarrow> resource \<Rightarrow> published_policy \<Rightarrow> bool" where
  "relevant_policy a re p \<longleftrightarrow> pp_action p = a \<and> (pp_resource p = policy_selector re \<or> pp_resource p = ''*'')
     \<and> (pp_effect p = EffectAllow \<or> pp_effect p = EffectDeny)"

text \<open>Account and employment status, read from the backend's own attributes.\<close>

definition lifecycle_blocked :: "principal_context \<Rightarrow> bool" where
  "lifecycle_blocked pr \<longleftrightarrow> pc_attrs pr ''accountStatus'' \<noteq> Some (AttrString ''active'')
     \<or> pc_attrs pr ''employeeStatus'' = Some (AttrString ''offboarding'')"

text \<open>The part of \<open>Check\<close> after a binding was selected.\<close>

definition check_with_binding ::
  "'w perm_env \<Rightarrow> user_id \<Rightarrow> action \<Rightarrow> resource \<Rightarrow> principal_context \<Rightarrow> binding \<Rightarrow> 'w
     \<Rightarrow> (perm_error + scoped_decision) \<times> 'w" where
  "check_with_binding E u a re pr b w =
     (if \<not> active_binding b \<or> \<not> fixed_role_allows (bd_role b) a then (Inr not_allowed, w)
      else case pe_list_published E a (policy_selector re) w of
        (Inl e, w1) \<Rightarrow> (Inl e, w1)
      | (Inr published, w1) \<Rightarrow>
          if published = [] then (Inr not_allowed, w1)
          else if \<not> list_all (relevant_policy a re) published then (Inr not_allowed, w1)
          else case check_batches (pe_client E) (pe_request_id E)
                 \<lparr>cp_id = u, cp_roles = append_role (pc_roles pr) (bd_role b),
                  cp_attributes = principal_attributes pr re b\<rparr>
                 (map (resource_check_of a re) published) w1 of
            (Inl e, w2) \<Rightarrow> (Inl e, w2)
          | (Inr decisions, w2) \<Rightarrow>
              (case combine_scoped_policy_decisions published decisions of
                 Inl e \<Rightarrow> (Inl e, w2)
               | Inr allowed \<Rightarrow>
                   if \<not> allowed \<or> lifecycle_blocked pr then (Inr not_allowed, w2)
                   else (Inr \<lparr>sd_allowed = True, sd_role = bd_role b, sd_binding_id = bd_id b,
                           sd_binding_version = bd_version b,
                           sd_challenge_version = pc_challenge_version pr\<rparr>, w2)))"

definition authorizer_check ::
  "'w perm_env \<Rightarrow> user_id \<Rightarrow> action \<Rightarrow> resource \<Rightarrow> 'w \<Rightarrow> (perm_error + scoped_decision) \<times> 'w" where
  "authorizer_check E u a re w =
     (case validate_scoped_request u a re of
        Some e \<Rightarrow> (Inl e, w)
      | None \<Rightarrow>
          if \<not> pe_complete E \<or> a = ActionOperationReceiptRead then (Inr not_allowed, w)
          else case pe_principal E u w of
            (Inl e, w1) \<Rightarrow> (Inl e, w1)
          | (Inr pr, w1) \<Rightarrow>
              (case load_optional_binding E u system_scope w1 of
                 (Inl e, w2) \<Rightarrow> (Inl e, w2)
               | (Inr system_binding, w2) \<Rightarrow>
                   (case (if re_event_id re \<noteq> [] then load_optional_binding E u (event_scope (re_event_id re)) w2
                          else (Inr no_binding, w2)) of
                      (Inl e, w3) \<Rightarrow> (Inl e, w3)
                    | (Inr event_binding, w3) \<Rightarrow>
                        check_with_binding E u a re pr (select_scoped_binding a system_binding event_binding) w3)))"

subsection \<open>Deny overrides\<close>

lemma combine_loop_spec:
  "combine_loop ps ds allow deny = Inr (x, y) \<Longrightarrow> length ds = length ps \<Longrightarrow>
     map de_policy_id ds = map pp_policy_id ps
     \<and> x = (allow \<or> (\<exists>(p, d)\<in>set (zip ps ds). pp_effect p = EffectAllow \<and> de_allowed d))
     \<and> y = (deny \<or> (\<exists>(p, d)\<in>set (zip ps ds). pp_effect p = EffectDeny \<and> \<not> de_allowed d))"
  by (induction ps ds allow deny rule: combine_loop.induct) (auto split: if_splits)

lemma combine_loop_total:
  "map de_policy_id ds = map pp_policy_id ps \<Longrightarrow> \<exists>x y. combine_loop ps ds allow deny = Inr (x, y)"
  by (induction ps ds allow deny rule: combine_loop.induct) auto

lemma combine_spec:
  assumes "combine_scoped_policy_decisions ps ds = Inr r"
  shows "map de_policy_id ds = map pp_policy_id ps \<and> length ds = length ps
    \<and> (r \<longleftrightarrow> (\<exists>(p, d)\<in>set (zip ps ds). pp_effect p = EffectAllow \<and> de_allowed d)
        \<and> (\<forall>(p, d)\<in>set (zip ps ds). pp_effect p = EffectDeny \<longrightarrow> de_allowed d))"
proof -
  obtain x y where c: "combine_loop ps ds False False = Inr (x, y)" and l: "length ds = length ps"
    and r: "r = (x \<and> \<not> y)"
    using assms by (auto simp: combine_scoped_policy_decisions_def split: if_splits sum.splits)
  from combine_loop_spec [OF c l] l r show ?thesis by blast
qed

lemma load_optional_binding_ok:
  assumes "load_optional_binding E u s w = (Inr b, w')" and "active_binding b"
  shows "pe_get_for_scope E u s w = (Inr b, w') \<and> bd_user_id b = u \<and> bd_scope b = s
    \<and> validate_role_scope (bd_role b) (bd_scope b) = None"
  using assms by (auto simp: load_optional_binding_def active_binding_def no_binding_def
      split: prod.splits sum.splits if_splits)

text \<open>An active selected binding was read from the repository in this very call, for this user.\<close>

lemma selected_binding_loaded:
  assumes "load_optional_binding E u system_scope w1 = (Inr sb, w2)"
    and "(if re_event_id re \<noteq> [] then load_optional_binding E u (event_scope (re_event_id re)) w2
          else (Inr no_binding, w2)) = (Inr eb, w3)"
    and "active_binding (select_scoped_binding a sb eb)" (is "active_binding ?b")
  shows "\<exists>v v'. pe_get_for_scope E u (bd_scope ?b) v = (Inr ?b, v') \<and> bd_user_id ?b = u
    \<and> validate_role_scope (bd_role ?b) (bd_scope ?b) = None
    \<and> (bd_scope ?b = system_scope \<or> bd_scope ?b = event_scope (re_event_id re))"
proof (cases "active_binding sb \<and> (bd_role sb = RoleSuperAdmin \<or> bd_role sb = RoleTopAdmin)")
  case True
  then have "?b = sb" by (simp add: select_scoped_binding_def)
  with load_optional_binding_ok [OF assms(1)] True show ?thesis by metis
next
  case False
  with assms(3) have b: "?b = eb" "active_binding eb"
    by (auto simp: select_scoped_binding_def active_binding_def no_binding_def split: if_splits)
  with assms(2) have "load_optional_binding E u (event_scope (re_event_id re)) w2 = (Inr eb, w3)"
    by (auto simp: active_binding_def no_binding_def split: if_splits)
  from load_optional_binding_ok [OF this b(2)] b(1) show ?thesis by metis
qed

context decision_client
begin

lemma check_with_binding_allowed:
  assumes "check_with_binding E u a re pr b w = (Inr d, w')" and "sd_allowed d" and "pe_client E = client"
  shows "active_binding b \<and> fixed_role_allows (bd_role b) a \<and> \<not> lifecycle_blocked pr
    \<and> sd_role d = bd_role b \<and> sd_binding_id d = bd_id b \<and> sd_binding_version d = bd_version b
    \<and> (\<exists>w1 ps ds. pe_list_published E a (policy_selector re) w = (Inr ps, w1)
        \<and> list_all (relevant_policy a re) ps \<and> length ds = length ps
        \<and> list_all2 (answers \<lparr>cp_id = u, cp_roles = append_role (pc_roles pr) (bd_role b),
                       cp_attributes = principal_attributes pr re b\<rparr>) (map (resource_check_of a re) ps) ds
        \<and> (\<exists>(p, x)\<in>set (zip ps ds). pp_effect p = EffectAllow \<and> de_allowed x)
        \<and> (\<forall>(p, x)\<in>set (zip ps ds). pp_effect p = EffectDeny \<longrightarrow> de_allowed x))"
proof -
  let ?pr = "\<lparr>cp_id = u, cp_roles = append_role (pc_roles pr) (bd_role b),
                  cp_attributes = principal_attributes pr re b\<rparr>"
  have g: "active_binding b" "fixed_role_allows (bd_role b) a"
    using assms(1,2) by (auto simp: check_with_binding_def not_allowed_def split: if_splits)
  obtain ps w1 where ps: "pe_list_published E a (policy_selector re) w = (Inr ps, w1)"
    using assms(1,2) g by (auto simp: check_with_binding_def split: prod.splits sum.splits)
  have rel: "list_all (relevant_policy a re) ps"
    using assms(1,2) g ps by (auto simp: check_with_binding_def not_allowed_def split: if_splits)
  obtain ds w2 where ds: "check_batches client (pe_request_id E) ?pr (map (resource_check_of a re) ps) w1 = (Inr ds, w2)"
    using assms g ps rel
    by (auto simp: check_with_binding_def not_allowed_def split: if_splits prod.splits sum.splits)
  obtain r where r: "combine_scoped_policy_decisions ps ds = Inr r"
    using assms g ps rel ds
    by (auto simp: check_with_binding_def not_allowed_def split: if_splits sum.splits)
  have fin: "r" "\<not> lifecycle_blocked pr" "sd_role d = bd_role b" "sd_binding_id d = bd_id b"
      "sd_binding_version d = bd_version b"
    using assms g ps rel ds r by (auto simp: check_with_binding_def not_allowed_def split: if_splits)
  show ?thesis
    using g ps rel batches_answer [OF ds] combine_spec [OF r] fin by blast
qed

end

text \<open>
  C22.  Whatever the collaborators return and however they fail, the scoped authorizer allows an
  action only with all of its reasons present: the request is well formed, an active binding of
  this very user was read for the system or for the event of the resource and its role is one
  the fixed matrix grants the action, the principal read in this call has an active account and
  is not offboarding, every published policy is about the action and the resource, at least one
  allow policy was answered with allow by the decision point, and no deny policy with deny.
\<close>

theorem scoped_allow_is_justified:
  assumes "authorizer_check E u a re w = (Inr d, w')" and "sd_allowed d"
    and "pe_client E = cerbos_check post"
  shows "validate_scoped_request u a re = None
    \<and> (\<exists>b pr v1 v2 v3 v4 v5 v6 ps ds.
         pe_get_for_scope E u (bd_scope b) v1 = (Inr b, v2) \<and> active_binding b \<and> bd_user_id b = u
         \<and> validate_role_scope (bd_role b) (bd_scope b) = None
         \<and> (bd_scope b = system_scope \<or> bd_scope b = event_scope (re_event_id re))
         \<and> sd_role d = bd_role b \<and> sd_binding_id d = bd_id b \<and> sd_binding_version d = bd_version b
         \<and> fixed_role_allows (bd_role b) a
         \<and> pe_principal E u v3 = (Inr pr, v4) \<and> \<not> lifecycle_blocked pr
         \<and> pe_list_published E a (policy_selector re) v5 = (Inr ps, v6)
         \<and> list_all (relevant_policy a re) ps \<and> length ds = length ps
         \<and> list_all2 (pdp_answer post \<lparr>cp_id = u, cp_roles = append_role (pc_roles pr) (bd_role b),
                        cp_attributes = principal_attributes pr re b\<rparr>) (map (resource_check_of a re) ps) ds
         \<and> (\<exists>(p, x)\<in>set (zip ps ds). pp_effect p = EffectAllow \<and> de_allowed x)
         \<and> (\<forall>(p, x)\<in>set (zip ps ds). pp_effect p = EffectDeny \<longrightarrow> de_allowed x))"
proof -
  have v: "validate_scoped_request u a re = None"
    using assms(1) by (auto simp: authorizer_check_def split: option.splits)
  have g: "pe_complete E \<and> a \<noteq> ActionOperationReceiptRead"
    using assms(1,2) v by (auto simp: authorizer_check_def not_allowed_def split: if_splits)
  obtain pr w1 where pr: "pe_principal E u w = (Inr pr, w1)"
    using assms(1) v g by (auto simp: authorizer_check_def split: prod.splits sum.splits)
  obtain sb w2 where sb: "load_optional_binding E u system_scope w1 = (Inr sb, w2)"
    using assms(1) v g pr by (auto simp: authorizer_check_def split: prod.splits sum.splits)
  obtain eb w3 where eb: "(if re_event_id re \<noteq> [] then load_optional_binding E u (event_scope (re_event_id re)) w2
          else (Inr no_binding, w2)) = (Inr eb, w3)"
    and fin: "check_with_binding E u a re pr (select_scoped_binding a sb eb) w3 = (Inr d, w')"
    using assms(1) v g pr sb
    by (auto simp: authorizer_check_def split: prod.splits sum.splits if_splits)
  note ok = cc.check_with_binding_allowed [OF fin assms(2,3)]
  then have "active_binding (select_scoped_binding a sb eb)" by blast
  note sel = selected_binding_loaded [OF sb eb this]
  show ?thesis using v pr ok sel by blast
qed

definition demo_policy :: "effect \<Rightarrow> published_policy" where
  "demo_policy e = \<lparr>pp_policy_id = ''pol_demo1234'' @ e, pp_name = ''n'', pp_resource = ''*'',
     pp_action = ActionRoleManage, pp_effect = e, pp_version = 1, pp_principals = [], pp_conditions = []\<rparr>"

definition demo_binding :: binding where
  "demo_binding = \<lparr>bd_id = ''b1'', bd_user_id = ''u'', bd_role = RoleSuperAdmin, bd_scope = system_scope,
     bd_enabled = True, bd_version = 3, bd_granted_by = ''g'', bd_reason_id = ''r'', bd_disabled_at = None,
     bd_created_at = 0, bd_updated_at = 0\<rparr>"

definition demo_transport :: "unit transport" where
  "demo_transport q w =
     (Inr (map (\<lambda>r. \<lparr>ws_id = wr_id r, ws_actions = [''evaluate'' \<mapsto> ''EFFECT_ALLOW'']\<rparr>) (wq_resources q)), w)"

definition demo_perm_env :: "unit perm_env" where
  "demo_perm_env = \<lparr>pe_complete = True,
     pe_get_for_scope = (\<lambda>u s w. (if s = system_scope then Inr demo_binding else Inl ErrBindingNotFound, w)),
     pe_principal = (\<lambda>u w. (Inr \<lparr>pc_roles = [], pc_attrs = [''accountStatus'' \<mapsto> AttrString ''active''],
        pc_challenge_version = 1\<rparr>, w)),
     pe_list_published = (\<lambda>a s w. (Inr [demo_policy EffectAllow, demo_policy EffectDeny], w)),
     pe_client = cerbos_check demo_transport, pe_request_id = ''r''\<rparr>"

definition demo_resource :: resource where
  "demo_resource = \<lparr>re_kind = ''role_binding'', re_id = ''e1'', re_event_id = ''e1'', re_attributes = Map.empty\<rparr>"

lemma demo_role_manage: "ActionRoleManage \<in> set event_actions" "ActionRoleManage \<noteq> ActionOperationReceiptRead"
  by (simp_all add: event_actions_def action_defs)

lemma demo_authorizer_allows:
  "authorizer_check demo_perm_env ''u'' ActionRoleManage demo_resource ()
     = (Inr \<lparr>sd_allowed = True, sd_role = RoleSuperAdmin, sd_binding_id = ''b1'', sd_binding_version = 3,
          sd_challenge_version = 1\<rparr>, ())"
proof -
  have v: "validate_scoped_request ''u'' ActionRoleManage demo_resource = None"
    by (simp add: validate_scoped_request_def demo_role_manage demo_resource_def trim_space_def is_space_def)
  have f: "fixed_role_allows RoleSuperAdmin ActionRoleManage"
    by (simp add: fixed_role_allows_def demo_role_manage)
  have r: "validate_role_scope RoleSuperAdmin system_scope = None"
    by (simp add: validate_role_scope_iff)
  have b: "active_binding demo_binding" by (simp add: active_binding_def demo_binding_def)
  have rel: "list_all (relevant_policy ActionRoleManage demo_resource) [demo_policy EffectAllow, demo_policy EffectDeny]"
    by (simp add: relevant_policy_def demo_policy_def)
  have bind: "bd_role demo_binding = RoleSuperAdmin" "bd_scope demo_binding = system_scope"
      "bd_user_id demo_binding = ''u''" "bd_id demo_binding = ''b1''" "bd_version demo_binding = 3"
    by (simp_all add: demo_binding_def)
  show ?thesis
    using v f r b rel bind demo_role_manage
    by (simp add: authorizer_check_def demo_perm_env_def load_optional_binding_def select_scoped_binding_def
        check_with_binding_def check_batches.simps max_checks_per_request_def cerbos_check_def demo_transport_def
        resource_check_of_def wire_of_def decision_of_def combine_scoped_policy_decisions_def
        demo_policy_def lifecycle_blocked_def demo_resource_def)
qed

theorem scoped_allow_is_justified_witness:
  "validate_scoped_request ''u'' ActionRoleManage demo_resource = None
   \<and> fst (authorizer_check demo_perm_env ''u'' ActionRoleManage demo_resource ())
      = Inr \<lparr>sd_allowed = True, sd_role = RoleSuperAdmin, sd_binding_id = ''b1'', sd_binding_version = 3,
          sd_challenge_version = 1\<rparr>"
  using scoped_allow_is_justified [OF demo_authorizer_allows, of demo_transport] demo_authorizer_allows
  by (simp add: demo_perm_env_def)

section \<open>Published policies decide\<close>

text \<open>
  A transport that evaluates the compiled documents as the decision point documents it: for every
  resource of the request, in order, the outcome of the rules stored for its id and version.
\<close>

definition evaluating_transport ::
  "(string \<times> string \<Rightarrow> policy_rule list) \<Rightarrow> (cerbos_principal \<Rightarrow> attributes \<Rightarrow> string \<Rightarrow> bool) \<Rightarrow> 'w transport \<Rightarrow> bool" where
  "evaluating_transport rules holds post \<longleftrightarrow>
     (\<forall>q w rs w'. post q w = (Inr rs, w') \<longrightarrow>
        rs = map (\<lambda>r. \<lparr>ws_id = wr_id r, ws_actions = [''evaluate'' \<mapsto>
                 rules_outcome (holds (wq_principal q) (wr_attributes r)) (rules (wr_kind r, wr_policy_version r))]\<rparr>)
              (wq_resources q))"

lemma evaluating_answer:
  assumes "evaluating_transport rules holds post" and "pdp_answer post prin c d"
  shows "d = \<lparr>de_policy_id = rc_policy_id c, de_allowed =
     (rules_outcome (holds prin (rc_attributes c)) (rules (resource_kind (rc_policy_id c), itoa (rc_version c)))
        = ''EFFECT_ALLOW'')\<rparr>"
proof -
  obtain cid cs w rs w' i where
    p: "post \<lparr>wq_request_id = cid, wq_principal = prin, wq_resources = map wire_of cs\<rparr> w = (Inr rs, w')"
    and i: "i < length cs" "cs ! i = c" "d = decision_of (rs ! i)"
    using assms(2) unfolding pdp_answer_def by blast
  have "rs = map (\<lambda>r. \<lparr>ws_id = wr_id r, ws_actions = [''evaluate'' \<mapsto>
        rules_outcome (holds prin (wr_attributes r)) (rules (wr_kind r, wr_policy_version r))]\<rparr>) (map wire_of cs)"
    using assms(1) p unfolding evaluating_transport_def by fastforce
  with i show ?thesis by (simp add: decision_of_def wire_of_def)
qed

text \<open>
  C23.  The compiled documents mean what the policies say.  If the decision point evaluates rules
  as documented and holds the compiled form of the published policies, then the batched
  decisions, combined, allow exactly when some allow policy applies to the principal and the
  resource and no deny policy does - however many policies there are, across batches.  The deny
  fallback rule of the compiler and the reading of a denied deny document meet here.
\<close>

theorem published_policies_decide:
  assumes "evaluating_transport rules holds post"
    and "\<And>p. p \<in> set ps \<Longrightarrow> relevant_policy a re p
           \<and> (\<exists>doc. compile_policy quote p = Inr doc \<and> do_rules doc = rules (do_resource doc, do_version doc))"
    and "check_batches (cerbos_check post) cid prin (map (resource_check_of a re) ps) w = (Inr ds, w')"
  shows "combine_scoped_policy_decisions ps ds =
     Inr ((\<exists>p\<in>set ps. pp_effect p = EffectAllow
             \<and> policy_applies quote (holds prin (rc_attributes (resource_check_of a re p))) p)
          \<and> \<not> (\<exists>p\<in>set ps. pp_effect p = EffectDeny
             \<and> policy_applies quote (holds prin (rc_attributes (resource_check_of a re p))) p))"
proof -
  let ?app = "\<lambda>p. policy_applies quote (holds prin (rc_attributes (resource_check_of a re p))) p"
  let ?d = "\<lambda>p. \<lparr>de_policy_id = pp_policy_id p, de_allowed = (if pp_effect p = EffectDeny then \<not> ?app p else ?app p)\<rparr>"
  have d: "x = ?d p" if p: "p \<in> set ps" and x: "pdp_answer post prin (resource_check_of a re p) x" for p x
  proof -
    obtain doc where doc: "compile_policy quote p = Inr doc" "do_rules doc = rules (do_resource doc, do_version doc)"
      using assms(2) [OF p] by blast
    have k: "do_resource doc = resource_kind (pp_policy_id p)" "do_version doc = itoa (pp_version p)"
      using doc(1) by (auto simp: compile_policy_def Let_def split: if_splits)
    show ?thesis
      using evaluating_answer [OF assms(1) x] compiled_outcome [OF doc(1)] doc(2) k
      by (simp add: resource_check_of_def)
  qed
  have "list_all2 (pdp_answer post prin) (map (resource_check_of a re) ps) ds"
    using cc.batches_answer [OF assms(3)] .
  then have ds: "ds = map ?d ps"
    using d by (auto simp: list_all2_conv_all_nth intro!: nth_equalityI)
  have "map de_policy_id ds = map pp_policy_id ps" by (simp add: ds)
  then obtain r where r: "combine_scoped_policy_decisions ps ds = Inr r"
    using combine_loop_total [of ds ps False False]
    by (auto simp: combine_scoped_policy_decisions_def ds)
  have z: "set (zip ps ds) = (\<lambda>p. (p, ?d p)) ` set ps" 
    unfolding ds zip_map2 zip_same_conv_map by (simp add: image_image)
  have "r \<longleftrightarrow> (\<exists>p\<in>set ps. pp_effect p = EffectAllow \<and> ?app p)
      \<and> \<not> (\<exists>p\<in>set ps. pp_effect p = EffectDeny \<and> ?app p)"
    using combine_spec [OF r] unfolding z by auto
  with r show ?thesis by simp
qed

definition demo_rules :: "string \<times> string \<Rightarrow> policy_rule list" where
  "demo_rules k =
     (case compile_policy id (demo_policy (if fst k = resource_kind ''pol_demo1234allow'' then EffectAllow else EffectDeny)) of
        Inl _ \<Rightarrow> [] | Inr doc \<Rightarrow> do_rules doc)"

definition demo_evaluator :: "unit transport" where
  "demo_evaluator q w =
     (Inr (map (\<lambda>r. \<lparr>ws_id = wr_id r, ws_actions = [''evaluate'' \<mapsto>
        rules_outcome (\<lambda>_. True) (demo_rules (wr_kind r, wr_policy_version r))]\<rparr>) (wq_resources q)), w)"

lemma demo_evaluates: "evaluating_transport demo_rules (\<lambda>_ _ _. True) demo_evaluator"
  by (simp add: evaluating_transport_def demo_evaluator_def)

lemma demo_compiled:
  assumes "e = EffectAllow \<or> e = EffectDeny"
  shows "\<exists>doc. compile_policy id (demo_policy e) = Inr doc \<and> do_rules doc = demo_rules (do_resource doc, do_version doc)"
proof -
  have k: "resource_kind (pp_policy_id (demo_policy EffectDeny)) \<noteq> resource_kind ''pol_demo1234allow''"
      "resource_kind (pp_policy_id (demo_policy EffectAllow)) = resource_kind ''pol_demo1234allow''"
    by (simp_all add: demo_policy_def EffectDeny_def EffectAllow_def resource_kind_def)
  have i: "has_policy_id_prefix (pp_policy_id (demo_policy e))" "pp_version (demo_policy e) = 1"
    using assms by (auto simp: demo_policy_def EffectDeny_def EffectAllow_def has_policy_id_prefix_def has_prefix_def)
  then obtain doc where doc: "compile_policy id (demo_policy e) = Inr doc"
      "do_resource doc = resource_kind (pp_policy_id (demo_policy e))"
    by (auto simp: compile_policy_def Let_def)
  have "do_rules doc = demo_rules (do_resource doc, do_version doc)"
    using assms doc k by (auto simp: demo_rules_def)
  with doc(1) show ?thesis by blast
qed

lemma demo_relevant:
  "e = EffectAllow \<or> e = EffectDeny \<Longrightarrow> relevant_policy ActionRoleManage demo_resource (demo_policy e)"
  by (simp add: relevant_policy_def demo_policy_def)

theorem published_policies_decide_witness:
  "\<exists>ds. check_batches (cerbos_check demo_evaluator) ''r'' \<lparr>cp_id = ''u'', cp_roles = [], cp_attributes = Map.empty\<rparr>
        (map (resource_check_of ActionRoleManage demo_resource) [demo_policy EffectAllow, demo_policy EffectDeny]) () = (Inr ds, ())
     \<and> combine_scoped_policy_decisions [demo_policy EffectAllow, demo_policy EffectDeny] ds = Inr False"
proof -
  let ?ps = "[demo_policy EffectAllow, demo_policy EffectDeny]"
  obtain ds where ds: "check_batches (cerbos_check demo_evaluator) ''r'' \<lparr>cp_id = ''u'', cp_roles = [], cp_attributes = Map.empty\<rparr>
        (map (resource_check_of ActionRoleManage demo_resource) ?ps) () = (Inr ds, ())"
    by (simp add: check_batches.simps max_checks_per_request_def cerbos_check_def demo_evaluator_def)
  have "relevant_policy ActionRoleManage demo_resource p
      \<and> (\<exists>doc. compile_policy id p = Inr doc \<and> do_rules doc = demo_rules (do_resource doc, do_version doc))"
    if p: "p \<in> set ?ps" for p
  proof -
    obtain e where "p = demo_policy e" "e = EffectAllow \<or> e = EffectDeny" using p by auto
    with demo_compiled [of e] demo_relevant [of e] show ?thesis by blast
  qed
  from published_policies_decide [OF demo_evaluates this ds]
  have "combine_scoped_policy_decisions ?ps ds = Inr False"
    by (simp add: policy_applies_def policy_expressions_def demo_policy_def)
  with ds show ?thesis by blast
qed

end
