(* ===== verification/CapabilityResolver.thy ===== *)
theory CapabilityResolver
  imports Permissions
begin

text \<open>
  The flat administration capabilities: their resolution from published policies
  (\<open>internal/permissions/cerbos_resolver.go\<close>, \<open>permissions.go\<close>) and the resolvers that wrap it
  (\<open>resolver.go\<close>).  A resolver is a function of the user over a world; a nil base or reader is None.
\<close>

section \<open>Capabilities\<close>

record capabilities =
  ca_user_read :: bool
  ca_user_disable :: bool
  ca_employee_manage :: bool
  ca_employee_offboard :: bool
  ca_department_manage :: bool
  ca_application_read :: bool
  ca_application_manage :: bool
  ca_application_secret_rotate :: bool
  ca_policy_read :: bool
  ca_policy_manage :: bool
  ca_policy_publish :: bool
  ca_audit_read :: bool
  ca_audit_export :: bool
  ca_provider_read :: bool
  ca_provider_manage :: bool

definition no_capabilities :: capabilities where
  "no_capabilities = \<lparr>ca_user_read = False, ca_user_disable = False, ca_employee_manage = False,
     ca_employee_offboard = False, ca_department_manage = False, ca_application_read = False,
     ca_application_manage = False, ca_application_secret_rotate = False, ca_policy_read = False,
     ca_policy_manage = False, ca_policy_publish = False, ca_audit_read = False, ca_audit_export = False,
     ca_provider_read = False, ca_provider_manage = False\<rparr>"

definition all_capabilities :: capabilities where
  "all_capabilities = \<lparr>ca_user_read = True, ca_user_disable = True, ca_employee_manage = True,
     ca_employee_offboard = True, ca_department_manage = True, ca_application_read = True,
     ca_application_manage = True, ca_application_secret_rotate = True, ca_policy_read = True,
     ca_policy_manage = True, ca_policy_publish = True, ca_audit_read = True, ca_audit_export = True,
     ca_provider_read = True, ca_provider_manage = True\<rparr>"

record capability_spec =
  cs_action :: string
  cs_resource :: string
  cs_set :: "bool \<Rightarrow> capabilities \<Rightarrow> capabilities"

definition spec_of :: "string \<Rightarrow> string \<Rightarrow> (bool \<Rightarrow> capabilities \<Rightarrow> capabilities) \<Rightarrow> capability_spec" where
  "spec_of a re f = \<lparr>cs_action = a, cs_resource = re, cs_set = f\<rparr>"

definition capability_specs :: "capability_spec list" where
  "capability_specs = [
     spec_of ''user.read'' ''user:*'' (\<lambda>v c. c\<lparr>ca_user_read := v\<rparr>),
     spec_of ''user.disable'' ''user:*'' (\<lambda>v c. c\<lparr>ca_user_disable := v\<rparr>),
     spec_of ''employee.manage'' ''employee:*'' (\<lambda>v c. c\<lparr>ca_employee_manage := v\<rparr>),
     spec_of ''employee.offboard'' ''employee:*'' (\<lambda>v c. c\<lparr>ca_employee_offboard := v\<rparr>),
     spec_of ''department.manage'' ''department:*'' (\<lambda>v c. c\<lparr>ca_department_manage := v\<rparr>),
     spec_of ''application.read'' ''application:*'' (\<lambda>v c. c\<lparr>ca_application_read := v\<rparr>),
     spec_of ''application.manage'' ''application:*'' (\<lambda>v c. c\<lparr>ca_application_manage := v\<rparr>),
     spec_of ''application.secret.rotate'' ''application:*'' (\<lambda>v c. c\<lparr>ca_application_secret_rotate := v\<rparr>),
     spec_of ''policy.read'' ''policy:*'' (\<lambda>v c. c\<lparr>ca_policy_read := v\<rparr>),
     spec_of ''policy.manage'' ''policy:*'' (\<lambda>v c. c\<lparr>ca_policy_manage := v\<rparr>),
     spec_of ''policy.publish'' ''policy:*'' (\<lambda>v c. c\<lparr>ca_policy_publish := v\<rparr>),
     spec_of ''audit.read'' ''audit:*'' (\<lambda>v c. c\<lparr>ca_audit_read := v\<rparr>),
     spec_of ''audit.export'' ''audit:*'' (\<lambda>v c. c\<lparr>ca_audit_export := v\<rparr>),
     spec_of ''provider.read'' ''provider:*'' (\<lambda>v c. c\<lparr>ca_provider_read := v\<rparr>),
     spec_of ''provider.manage'' ''provider:*'' (\<lambda>v c. c\<lparr>ca_provider_manage := v\<rparr>)]"

text \<open>The fields in the order of the table.\<close>

definition capability_list :: "capabilities \<Rightarrow> bool list" where
  "capability_list c = [ca_user_read c, ca_user_disable c, ca_employee_manage c, ca_employee_offboard c,
     ca_department_manage c, ca_application_read c, ca_application_manage c, ca_application_secret_rotate c,
     ca_policy_read c, ca_policy_manage c, ca_policy_publish c, ca_audit_read c, ca_audit_export c,
     ca_provider_read c, ca_provider_manage c]"

lemma length_specs [simp]: "length capability_specs = 15"
  by (simp add: capability_specs_def)

lemma no_capability: "i < 15 \<Longrightarrow> \<not> capability_list no_capabilities ! i"
  by (auto simp: capability_list_def no_capabilities_def less_Suc_eq numeral_eq_Suc nth_Cons' split: if_splits)

section \<open>Resolution\<close>

type_synonym 'w resolver = "user_id \<Rightarrow> 'w \<Rightarrow> (perm_error + capabilities) \<times> 'w"

text \<open>
  Both \<open>pending\<close> and \<open>checks\<close> of the code, in step: the policy, the index of its table row, and
  the check.
\<close>

fun collect_policies ::
  "'w perm_env \<Rightarrow> nat \<Rightarrow> capability_spec list \<Rightarrow> 'w
     \<Rightarrow> (perm_error + (published_policy \<times> nat \<times> resource_check) list) \<times> 'w" where
  "collect_policies E i [] w = (Inr [], w)"
| "collect_policies E i (sp # sps) w =
     (case pe_list_published E (cs_action sp) (cs_resource sp) w of
        (Inl e, w1) \<Rightarrow> (Inl e, w1)
      | (Inr published, w1) \<Rightarrow>
          (case collect_policies E (Suc i) sps w1 of
             (Inl e, w2) \<Rightarrow> (Inl e, w2)
           | (Inr pending, w2) \<Rightarrow>
               (Inr (map (\<lambda>p. (p, i, \<lparr>rc_policy_id = pp_policy_id p, rc_version = pp_version p,
                        rc_attributes = [''selector'' \<mapsto> AttrString (cs_resource sp),
                                         ''action'' \<mapsto> AttrString (cs_action sp)]\<rparr>)) published
                     @ pending), w2)))"

fun match_loop ::
  "(published_policy \<times> nat \<times> resource_check) list \<Rightarrow> CerbosClient.decision list \<Rightarrow> bool list \<Rightarrow> bool list
     \<Rightarrow> perm_error + bool list \<times> bool list" where
  "match_loop ((p, k, c) # ps) (d # ds) allow deny =
     (if de_policy_id d \<noteq> pp_policy_id p then Inl ErrDecisionMismatch
      else match_loop ps ds (if pp_effect p = EffectAllow \<and> de_allowed d then allow[k := True] else allow)
             (if pp_effect p = EffectDeny \<and> \<not> de_allowed d then deny[k := True] else deny))"
| "match_loop _ _ allow deny = Inr (allow, deny)"

fun set_capabilities :: "capability_spec list \<Rightarrow> bool list \<Rightarrow> bool list \<Rightarrow> capabilities \<Rightarrow> capabilities" where
  "set_capabilities (sp # sps) (a # allow) (d # deny) c = set_capabilities sps allow deny (cs_set sp (a \<and> \<not> d) c)"
| "set_capabilities _ _ _ c = c"

definition cerbos_resolve :: "'w perm_env \<Rightarrow> 'w resolver" where
  "cerbos_resolve E u w =
     (if \<not> pe_complete E \<or> u = [] then (Inr no_capabilities, w)
      else case pe_principal E u w of
        (Inl e, w1) \<Rightarrow> (Inl e, w1)
      | (Inr pr, w1) \<Rightarrow>
          (case collect_policies E 0 capability_specs w1 of
             (Inl e, w2) \<Rightarrow> (Inl e, w2)
           | (Inr pending, w2) \<Rightarrow>
               if pending = [] then (Inr no_capabilities, w2)
               else case check_batches (pe_client E) (pe_request_id E)
                      \<lparr>cp_id = u, cp_roles = pc_roles pr, cp_attributes = pc_attrs pr\<rparr>
                      (map (snd \<circ> snd) pending) w2 of
                 (Inl e, w3) \<Rightarrow> (Inl e, w3)
               | (Inr decisions, w3) \<Rightarrow>
                   if length decisions \<noteq> length pending then (Inl ErrDecisionMismatch, w3)
                   else case match_loop pending decisions (replicate 15 False) (replicate 15 False) of
                     Inl e \<Rightarrow> (Inl e, w3)
                   | Inr (allow, deny) \<Rightarrow>
                       (Inr (set_capabilities capability_specs allow deny no_capabilities), w3)))"

section \<open>Wrapping resolvers\<close>

definition default_resolve :: "'w resolver" where
  "default_resolve u w = (Inr no_capabilities, w)"

definition global_principal_roles :: "string list \<Rightarrow> bool \<Rightarrow> string list" where
  "global_principal_roles base active_system_super =
     (if \<not> active_system_super then base
      else if RoleSuperAdmin \<in> set base then base else base @ [RoleSuperAdmin])"

record permission_config =
  cfg_dev_override_enabled :: bool
  cfg_dev_override_user_id :: user_id

definition dev_override_resolve :: "permission_config \<Rightarrow> 'w resolver option \<Rightarrow> 'w resolver" where
  "dev_override_resolve cfg base u w =
     (if cfg_dev_override_enabled cfg \<and> u = cfg_dev_override_user_id cfg \<and> cfg_dev_override_user_id cfg \<noteq> []
      then (Inr all_capabilities, w)
      else case base of
             None \<Rightarrow> (Inr no_capabilities, w)
           | Some f \<Rightarrow> f u w)"

definition new_resolver :: "permission_config \<Rightarrow> 'w resolver" where
  "new_resolver cfg =
     (if cfg_dev_override_enabled cfg then dev_override_resolve cfg (Some default_resolve) else default_resolve)"

datatype workforce_error = ErrWorkforceNotFound | ErrWorkforceInfra

text \<open>Of the employee profile the guard reads the status alone.\<close>

type_synonym 'w status_reader = "user_id \<Rightarrow> 'w \<Rightarrow> (workforce_error + string) \<times> 'w"

definition workforce_guard_resolve :: "'w resolver option \<Rightarrow> 'w status_reader option \<Rightarrow> 'w resolver" where
  "workforce_guard_resolve base reader u w =
     (case (base, reader) of
        (Some f, Some get) \<Rightarrow>
          (case get u w of
             (Inr status, w1) \<Rightarrow> if status = ''offboarding'' then (Inr no_capabilities, w1) else f u w1
           | (Inl e, w1) \<Rightarrow> if e = ErrWorkforceNotFound then f u w1 else (Inl ErrPermInfra, w1))
      | _ \<Rightarrow> (Inr no_capabilities, w))"

section \<open>Correctness of the resolution\<close>

definition granted :: "(published_policy \<times> nat \<times> resource_check) list \<Rightarrow> CerbosClient.decision list \<Rightarrow> nat \<Rightarrow> bool" where
  "granted pending ds i \<longleftrightarrow>
     (\<exists>((p, k, c), d)\<in>set (zip pending ds). k = i \<and> pp_effect p = EffectAllow \<and> de_allowed d)
     \<and> \<not> (\<exists>((p, k, c), d)\<in>set (zip pending ds). k = i \<and> pp_effect p = EffectDeny \<and> \<not> de_allowed d)"

lemma match_loop_spec:
  "match_loop ps ds allow deny = Inr (x, y) \<Longrightarrow> length allow = n \<Longrightarrow> length deny = n \<Longrightarrow>
     \<forall>((p, k, c), d)\<in>set (zip ps ds). k < n \<Longrightarrow>
     length x = n \<and> length y = n
     \<and> (\<forall>i<n. x ! i = (allow ! i \<or> (\<exists>((p, k, c), d)\<in>set (zip ps ds). k = i \<and> pp_effect p = EffectAllow \<and> de_allowed d))
           \<and> y ! i = (deny ! i \<or> (\<exists>((p, k, c), d)\<in>set (zip ps ds). k = i \<and> pp_effect p = EffectDeny \<and> \<not> de_allowed d)))"
proof (induction ps ds allow deny rule: match_loop.induct)
  case (1 p k c ps d ds allow deny)
  let ?allow = "if pp_effect p = EffectAllow \<and> de_allowed d then allow[k := True] else allow"
  let ?deny = "if pp_effect p = EffectDeny \<and> \<not> de_allowed d then deny[k := True] else deny"
  have id: "\<not> de_policy_id d \<noteq> pp_policy_id p" and m: "match_loop ps ds ?allow ?deny = Inr (x, y)"
    using 1(2) by (auto split: if_splits)
  have l: "length ?allow = n" "length ?deny = n" using 1(3,4) by auto
  have b: "\<forall>((p, k, c), d)\<in>set (zip ps ds). k < n" and k: "k < n" using 1(5) by auto
  note IH = 1(1) [OF id m l b]
  have "?allow ! i = (allow ! i \<or> (k = i \<and> pp_effect p = EffectAllow \<and> de_allowed d))"
    "?deny ! i = (deny ! i \<or> (k = i \<and> pp_effect p = EffectDeny \<and> \<not> de_allowed d))" if "i < n" for i
    using that 1(3,4) k by (auto simp: nth_list_update)
  with IH show ?case by auto
qed auto

lemma set_capabilities_nth:
  assumes "length allow = 15" "length deny = 15" "i < 15"
  shows "capability_list (set_capabilities capability_specs allow deny no_capabilities) ! i \<longleftrightarrow> allow ! i \<and> \<not> deny ! i"
proof -
  obtain a0 a1 a2 a3 a4 a5 a6 a7 a8 a9 a10 a11 a12 a13 a14 where
    a: "allow = [a0, a1, a2, a3, a4, a5, a6, a7, a8, a9, a10, a11, a12, a13, a14]"
    using assms(1) by (auto simp: numeral_eq_Suc length_Suc_conv)
  obtain d0 d1 d2 d3 d4 d5 d6 d7 d8 d9 d10 d11 d12 d13 d14 where
    d: "deny = [d0, d1, d2, d3, d4, d5, d6, d7, d8, d9, d10, d11, d12, d13, d14]"
    using assms(2) by (auto simp: numeral_eq_Suc length_Suc_conv)
  have "capability_list (set_capabilities capability_specs allow deny no_capabilities)
      = map2 (\<lambda>x y. x \<and> \<not> y) allow deny"
    by (simp add: a d capability_specs_def spec_of_def capability_list_def no_capabilities_def)
  with assms show ?thesis by simp
qed

lemma collect_indexed:
  "collect_policies E i sps w = (Inr pending, w') \<Longrightarrow>
     (p, k, c) \<in> set pending \<Longrightarrow> i \<le> k \<and> k < i + length sps
       \<and> (\<exists>v v' ps. pe_list_published E (cs_action (sps ! (k - i))) (cs_resource (sps ! (k - i))) v = (Inr ps, v') \<and> p \<in> set ps)"
proof (induction E i sps w arbitrary: pending w' rule: collect_policies.induct)
  case (2 E i sp sps w)
  obtain ps w1 where ps: "pe_list_published E (cs_action sp) (cs_resource sp) w = (Inr ps, w1)"
    using "2.prems"(1) by (auto split: prod.splits sum.splits)
  obtain rest w2 where rest: "collect_policies E (Suc i) sps w1 = (Inr rest, w2)"
    using "2.prems"(1) ps by (auto split: prod.splits sum.splits)
  have mem: "p \<in> set ps \<and> k = i \<or> (p, k, c) \<in> set rest"
    using "2.prems" ps rest by auto
  then show ?case
  proof
    assume "p \<in> set ps \<and> k = i"
    with ps show ?thesis by auto
  next
    assume m: "(p, k, c) \<in> set rest"
    have r: "Suc i \<le> k" "k < Suc i + length sps"
      and l: "\<exists>v v' ps. pe_list_published E (cs_action (sps ! (k - Suc i))) (cs_resource (sps ! (k - Suc i))) v = (Inr ps, v')
            \<and> p \<in> set ps"
      using "2.IH" [OF ps [symmetric] refl rest m] by auto
    have "k - i = Suc (k - Suc i)" using r(1) by simp
    then have "(sp # sps) ! (k - i) = sps ! (k - Suc i)" by simp
    with r l show ?thesis by simp
  qed
qed simp

text \<open>
  Capabilities come from policies alone and denial wins.  A resolved capability is true
  exactly when, among the published policies collected for it and answered by the decision point,
  an allow policy was allowed and no deny policy was denied; every policy counts for the table
  row whose action and resource it was listed under; and every error yields no capabilities.
\<close>

theorem capabilities_follow_policies:
  assumes "cerbos_resolve E u w = (Inr caps, w')" and "pe_client E = cerbos_check post" and "i < 15"
    and "capability_list caps ! i"
  shows "\<exists>pr pending ds v0 v v'. pe_principal E u w = (Inr pr, v0)
      \<and> check_batches (cerbos_check post) (pe_request_id E)
        \<lparr>cp_id = u, cp_roles = pc_roles pr, cp_attributes = pc_attrs pr\<rparr> (map (snd \<circ> snd) pending) v = (Inr ds, v')
      \<and> length ds = length pending \<and> granted pending ds i
      \<and> (\<forall>j<15. capability_list caps ! j \<longleftrightarrow> granted pending ds j)
      \<and> (\<forall>(p, k, c)\<in>set pending. k < 15 \<and> (\<exists>x x' ps. pe_list_published E (cs_action (capability_specs ! k))
            (cs_resource (capability_specs ! k)) x = (Inr ps, x') \<and> p \<in> set ps))"
proof -
  have ne: "caps \<noteq> no_capabilities" using assms(3,4) no_capability by blast
  then have c: "pe_complete E" "u \<noteq> []" using assms(1) by (auto simp: cerbos_resolve_def split: if_splits)
  obtain pr w1 where pr: "pe_principal E u w = (Inr pr, w1)"
    using assms(1) c by (auto simp: cerbos_resolve_def split: prod.splits sum.splits)
  obtain pending w2 where pe: "collect_policies E 0 capability_specs w1 = (Inr pending, w2)"
    using assms(1) c pr by (auto simp: cerbos_resolve_def split: prod.splits sum.splits)
  have ne2: "pending \<noteq> []" using assms(1) c pr pe ne by (auto simp: cerbos_resolve_def)
  let ?prin = "\<lparr>cp_id = u, cp_roles = pc_roles pr, cp_attributes = pc_attrs pr\<rparr>"
  obtain ds w3 where ds: "check_batches (cerbos_check post) (pe_request_id E) ?prin (map (snd \<circ> snd) pending) w2 = (Inr ds, w3)"
    using assms(1,2) c pr pe ne2 by (auto simp: cerbos_resolve_def split: prod.splits sum.splits)
  have l: "length ds = length pending" using cc.batches_length [OF ds] by simp
  obtain allow deny where m: "match_loop pending ds (replicate 15 False) (replicate 15 False) = Inr (allow, deny)"
    and caps: "caps = set_capabilities capability_specs allow deny no_capabilities"
    using assms(1,2) c pr pe ne2 ds l by (auto simp: cerbos_resolve_def split: sum.splits)
  have idx: "\<forall>(p, k, c)\<in>set pending. k < 15 \<and> (\<exists>x x' ps. pe_list_published E (cs_action (capability_specs ! k))
            (cs_resource (capability_specs ! k)) x = (Inr ps, x') \<and> p \<in> set ps)"
    using collect_indexed [OF pe] by fastforce
  then have bnd: "\<forall>((p, k, c), d)\<in>set (zip pending ds). k < 15" by (fastforce dest: set_zip_leftD)
  have g: "capability_list caps ! j \<longleftrightarrow> granted pending ds j" if "j < 15" for j
    using match_loop_spec [OF m _ _ bnd] set_capabilities_nth [of allow deny j] that caps
    by (auto simp: granted_def)
  then have gs: "\<forall>j<15. capability_list caps ! j \<longleftrightarrow> granted pending ds j" by blast
  have gi: "granted pending ds i" using g assms(3,4) by blast
  show ?thesis
    by (rule exI [of _ pr], rule exI [of _ pending], rule exI [of _ ds], rule exI [of _ w1],
        rule exI [of _ w2], rule exI [of _ w3]) (intro conjI pr ds l gi gs idx)
qed

definition demo_resolver_env :: "unit perm_env" where
  "demo_resolver_env = demo_perm_env\<lparr>pe_list_published :=
     \<lambda>a s w. (Inr (if a = ''user.read'' then [demo_policy EffectAllow] else []), w)\<rparr>"

lemma demo_resolved:
  "cerbos_resolve demo_resolver_env ''u'' () = (Inr (no_capabilities\<lparr>ca_user_read := True\<rparr>), ())"
proof -
  let ?c = "\<lparr>rc_policy_id = pp_policy_id (demo_policy EffectAllow), rc_version = pp_version (demo_policy EffectAllow),
     rc_attributes = [''selector'' \<mapsto> AttrString ''user:*'', ''action'' \<mapsto> AttrString ''user.read'']\<rparr>"
  have p: "collect_policies demo_resolver_env 0 capability_specs ()
      = (Inr [(demo_policy EffectAllow, 0, ?c)], ())"
    by (simp add: demo_resolver_env_def capability_specs_def spec_of_def)
  let ?d = "\<lparr>de_policy_id = pp_policy_id (demo_policy EffectAllow), de_allowed = True\<rparr>"
  have b: "check_batches (cerbos_check demo_transport) cid prin [?c] () = (Inr [?d], ())" for cid prin
    by (simp add: check_batches.simps max_checks_per_request_def cerbos_check_def demo_transport_def
        wire_of_def decision_of_def)
  have c: "pe_client demo_resolver_env = cerbos_check demo_transport" "pe_complete demo_resolver_env"
    by (simp_all add: demo_resolver_env_def demo_perm_env_def)
  obtain pr where pr: "pe_principal demo_resolver_env ''u'' () = (Inr pr, ())"
    by (simp add: demo_resolver_env_def demo_perm_env_def)
  have "pp_effect (demo_policy EffectAllow) = EffectAllow" by (simp add: demo_policy_def)
  then have m: "match_loop [(demo_policy EffectAllow, 0, ?c)] [?d] (replicate 15 False) (replicate 15 False)
      = Inr ((replicate 15 False)[0 := True], replicate 15 False)" by simp
  have s: "set_capabilities capability_specs ((replicate 15 False)[0 := True]) (replicate 15 False) no_capabilities
      = no_capabilities\<lparr>ca_user_read := True\<rparr>"
    by (simp add: numeral_eq_Suc capability_specs_def spec_of_def no_capabilities_def)
  show ?thesis
    unfolding cerbos_resolve_def using p b c pr m s by simp
qed

theorem capabilities_follow_policies_witness:
  "\<exists>caps. cerbos_resolve demo_resolver_env ''u'' () = (Inr caps, ()) \<and> ca_user_read caps \<and> \<not> ca_user_disable caps"
proof -
  have c: "pe_client demo_resolver_env = cerbos_check demo_transport"
    by (simp add: demo_resolver_env_def demo_perm_env_def)
  have l: "capability_list (no_capabilities\<lparr>ca_user_read := True\<rparr>) ! 0" by (simp add: capability_list_def)
  have "\<exists>pr. fst (pe_principal demo_resolver_env ''u'' ()) = Inr pr"
    using capabilities_follow_policies [OF demo_resolved c _ l] by auto
  with demo_resolved show ?thesis by (auto simp: no_capabilities_def)
qed

section \<open>The wrappers fail closed\<close>

lemma offboarding_user_resolves_nothing:
  "get u w = (Inr ''offboarding'', w1) \<Longrightarrow> workforce_guard_resolve base (Some get) u w = (Inr no_capabilities, w1)
     \<or> workforce_guard_resolve base (Some get) u w = (Inr no_capabilities, w)"
  by (cases base) (simp_all add: workforce_guard_resolve_def)

lemma guard_grants_only_what_base_grants:
  "workforce_guard_resolve (Some f) (Some get) u w = (Inr caps, w') \<Longrightarrow>
     caps = no_capabilities \<or> (\<exists>w1. f u w1 = (Inr caps, w') \<and>
        (\<exists>x. get u w = (x, w1) \<and> x \<noteq> Inr ''offboarding'' \<and> x \<noteq> Inl ErrWorkforceInfra))"
  by (auto simp: workforce_guard_resolve_def split: prod.splits sum.splits if_splits)

lemma dev_override_off:
  "\<not> cfg_dev_override_enabled cfg \<Longrightarrow> dev_override_resolve cfg (Some f) u w = f u w"
  by (simp add: dev_override_resolve_def)

end
