(* ===== verification/AdminOutbox.thy ===== *)
theory AdminOutbox
  imports RoleTypes "HOL-Library.Product_Lexorder" "HOL-Library.List_Lexorder"
begin

text \<open>
  The durable operation ledger of the administration: the outbox items and their results
  (\<open>internal/adminstore/outbox.go\<close>) and the repository over the table
  \<open>admin_operation_outbox\<close> (\<open>internal/adapters/postgres/admin_unit_of_work.go\<close>), with the CHECK
  constraints of the migrations 00012 and 00015.  A method of the repository runs inside a
  serializable transaction, so it is a sequence of statements on one state of the table, each
  of which the infrastructure may fail.
\<close>

section \<open>Kinds, phases and states\<close>

type_synonym operation_kind = string
type_synonym delivery_phase = string

definition OperationLocal :: operation_kind where "OperationLocal = ''local''"
definition OperationCrossSystem :: operation_kind where "OperationCrossSystem = ''cross_system''"
definition OperationRedisPurge :: operation_kind where "OperationRedisPurge = ''redis_purge''"

definition DeliveryPhaseNotSent :: delivery_phase where "DeliveryPhaseNotSent = ''not_sent''"
definition DeliveryPhaseIndeterminate :: delivery_phase where "DeliveryPhaseIndeterminate = ''indeterminate''"
definition DeliveryPhaseSent :: delivery_phase where "DeliveryPhaseSent = ''sent''"

definition delivery_phase_valid :: "delivery_phase \<Rightarrow> bool" where
  "delivery_phase_valid p \<longleftrightarrow> p = DeliveryPhaseNotSent \<or> p = DeliveryPhaseIndeterminate \<or> p = DeliveryPhaseSent"

text \<open>The values of \<open>delivery_state\<close> the statements name.\<close>

definition StatePending :: string where "StatePending = ''pending''"
definition StateClaimed :: string where "StateClaimed = ''claimed''"
definition StateSucceeded :: string where "StateSucceeded = ''succeeded''"
definition StateFailed :: string where "StateFailed = ''failed''"
definition StateNeedsOperator :: string where "StateNeedsOperator = ''needs_operator''"

lemmas outbox_constants = OperationLocal_def OperationCrossSystem_def OperationRedisPurge_def
  DeliveryPhaseNotSent_def DeliveryPhaseIndeterminate_def DeliveryPhaseSent_def
  StatePending_def StateClaimed_def StateSucceeded_def StateFailed_def StateNeedsOperator_def

lemma states_differ [simp]:
  "StatePending \<noteq> StateClaimed" "StateClaimed \<noteq> StatePending"
  "StatePending \<noteq> StateSucceeded" "StateSucceeded \<noteq> StatePending"
  "StatePending \<noteq> StateFailed" "StateFailed \<noteq> StatePending"
  "StatePending \<noteq> StateNeedsOperator" "StateNeedsOperator \<noteq> StatePending"
  "StateClaimed \<noteq> StateSucceeded" "StateSucceeded \<noteq> StateClaimed"
  "StateClaimed \<noteq> StateFailed" "StateFailed \<noteq> StateClaimed"
  "StateClaimed \<noteq> StateNeedsOperator" "StateNeedsOperator \<noteq> StateClaimed"
  "StateSucceeded \<noteq> StateFailed" "StateFailed \<noteq> StateSucceeded"
  "StateSucceeded \<noteq> StateNeedsOperator" "StateNeedsOperator \<noteq> StateSucceeded"
  "StateFailed \<noteq> StateNeedsOperator" "StateNeedsOperator \<noteq> StateFailed"
  by (simp_all add: outbox_constants)

lemma phases_differ [simp]:
  "DeliveryPhaseNotSent \<noteq> DeliveryPhaseIndeterminate" "DeliveryPhaseIndeterminate \<noteq> DeliveryPhaseNotSent"
  "DeliveryPhaseNotSent \<noteq> DeliveryPhaseSent" "DeliveryPhaseSent \<noteq> DeliveryPhaseNotSent"
  "DeliveryPhaseIndeterminate \<noteq> DeliveryPhaseSent" "DeliveryPhaseSent \<noteq> DeliveryPhaseIndeterminate"
  by (simp_all add: outbox_constants)

datatype store_error =
  ErrIdempotencyConflict | ErrInvalidOperationResult | ErrOperationNotFound
  | ErrStoreInfra \<comment> \<open>a driver error, a violated constraint or a failed random source\<close>

section \<open>Results\<close>

text \<open>A nil payload map is None; the keys of a map are distinct.\<close>

record allowlisted_result =
  ar_code :: string
  ar_digest :: string
  ar_payload :: "(string \<times> string) list option"

definition allowed_result_codes :: "string list" where
  "allowed_result_codes = [''role.created'', ''role.updated'', ''role.disabled'', ''registry.updated'',
     ''challenge.updated'', ''challenge.enrolled'', ''challenge.verified'', ''challenge.rotated'',
     ''challenge.rejected'', ''challenge.locked'', ''identity_access.requested'', ''identity_access.decided'',
     ''identity_access.claimed'', ''identity_access.settled'', ''operation.pending'', ''operation.settled'',
     ''operation.failed'', ''redis.purged'']"

definition allowed_statuses :: "string list" where
  "allowed_statuses = [''pending'', ''approved'', ''rejected'', ''revoked'', ''claimed'', ''settled'',
     ''disabled'', ''enabled'', ''active'', ''must_rotate'', ''recovery_pending'']"

definition is_metadata_char :: "char \<Rightarrow> bool" where
  "is_metadata_char c \<longleftrightarrow> is_alnum c \<or> c \<in> {CHR ''.'', CHR ''_'', CHR '':'', CHR ''-''}"

text \<open>\<open>^[A-Za-z0-9._:-]{8,128}$\<close> and \<open>^[A-Za-z0-9][A-Za-z0-9._:-]{0,254}$\<close>\<close>

definition operation_request_id :: "string \<Rightarrow> bool" where
  "operation_request_id s \<longleftrightarrow> 8 \<le> length s \<and> length s \<le> 128 \<and> list_all is_metadata_char s"

definition receipt_metadata :: "string \<Rightarrow> bool" where
  "receipt_metadata s \<longleftrightarrow> s \<noteq> [] \<and> is_alnum (hd s) \<and> length s \<le> 255 \<and> list_all is_metadata_char s"

definition valid_result_id :: "string \<Rightarrow> string \<Rightarrow> bool" where
  "valid_result_id v prefix \<longleftrightarrow>
     has_prefix v prefix \<and> length prefix < length v \<and> length v \<le> 160 \<and> list_all is_token_char v"

definition result_digest_ok :: "string \<Rightarrow> bool" where
  "result_digest_ok d \<longleftrightarrow> 8 \<le> length d \<and> length d \<le> 240 \<and> list_all is_token_char d"

text \<open>\<open>strconv.ParseInt(value, 10, 16)\<close> fails outside sixteen bits, which 200 to 599 never reach.\<close>

definition payload_value_ok :: "string \<Rightarrow> string \<Rightarrow> bool" where
  "payload_value_ok key v =
     (if key = ''binding_id'' then valid_result_id v ''arb_''
      else if key = ''request_id'' then valid_result_id v ''iar_''
      else if key = ''operation_request_id'' then operation_request_id v
      else if key = ''grant_id'' then valid_result_id v ''iag_''
      else if key = ''event_id'' then valid_result_id v ''evt_''
      else if key = ''actor_id'' then valid_result_id v ''user_''
      else if key = ''response_status'' then
        (case parse_int64 v of None \<Rightarrow> False | Some n \<Rightarrow> 200 \<le> n \<and> n \<le> 599)
      else if key = ''result_version'' then (case parse_int64 v of None \<Rightarrow> False | Some n \<Rightarrow> 0 < n)
      else if key \<in> {''receipt_action'', ''receipt_target_type'', ''receipt_target_id''} then receipt_metadata v
      else if key = ''status'' then v \<in> set allowed_statuses
      else if key = ''version'' \<or> key = ''credential_version'' then
        (case parse_int64 v of None \<Rightarrow> False | Some n \<Rightarrow> 0 < n)
      else False)"

definition payload_entries :: "allowlisted_result \<Rightarrow> (string \<times> string) list" where
  "payload_entries r = (case ar_payload r of None \<Rightarrow> [] | Some kvs \<Rightarrow> kvs)"

definition result_validate :: "allowlisted_result \<Rightarrow> store_error option" where
  "result_validate r =
     (if ar_code r \<notin> set allowed_result_codes then Some ErrInvalidOperationResult
      else if ar_digest r \<noteq> [] \<and> \<not> result_digest_ok (ar_digest r) then Some ErrInvalidOperationResult
      else if \<not> list_all (\<lambda>(k, v). payload_value_ok k v) (payload_entries r) then Some ErrInvalidOperationResult
      else None)"

definition validate_optional_result :: "allowlisted_result \<Rightarrow> store_error option" where
  "validate_optional_result r =
     (if ar_code r = [] \<and> ar_digest r = [] \<and> payload_entries r = [] then None else result_validate r)"

text \<open>What the column \<open>result_payload\<close> holds: the object \<open>{}\<close> for a nil map.\<close>

definition stored_result :: "allowlisted_result \<Rightarrow> allowlisted_result" where
  "stored_result r = r\<lparr>ar_payload := Some (payload_entries r)\<rparr>"

section \<open>Items\<close>

record fingerprint =
  fp_version :: string
  fp_key_id :: string
  fp_digest :: string

text \<open>
  Nullable columns of bytes and text are empty when they are NULL, as the reading and the writing
  code have it; the claim token is never stored.
\<close>

record outbox_item =
  ob_id :: string
  ob_kind :: operation_kind
  ob_key :: string
  ob_fingerprint :: fingerprint
  ob_payload_key_id :: string
  ob_payload_nonce :: string
  ob_payload_ciphertext :: string
  ob_result :: allowlisted_result
  ob_state :: string
  ob_phase :: delivery_phase
  ob_version :: int
  ob_claim_token_hash :: "string option"
  ob_claim_token :: string
  ob_claim_lease_until :: "time option"
  ob_attempts :: int
  ob_next_attempt_at :: time
  ob_terminal_at :: "time option"
  ob_audit_reconciled_at :: "time option"
  ob_payload_expires_at :: "time option"
  ob_payload_purged_at :: "time option"
  ob_created_at :: time
  ob_updated_at :: time

definition sanitize_outbox_replay :: "outbox_item \<Rightarrow> outbox_item" where
  "sanitize_outbox_replay item = item\<lparr>ob_payload_key_id := [], ob_payload_nonce := [], ob_payload_ciphertext := [],
     ob_claim_token_hash := None, ob_claim_token := [], ob_claim_lease_until := None\<rparr>"

definition payload_retention_deadline :: "time \<Rightarrow> time" where
  "payload_retention_deadline t = t + minutes (90 * 24 * 60)"

record operation_receipt =
  or_id :: string
  or_key :: string
  or_fingerprint :: fingerprint
  or_result :: allowlisted_result
  or_created_at :: time
  or_terminal_at :: "time option"

definition resolve_idempotent_replay ::
  "operation_receipt \<Rightarrow> fingerprint \<Rightarrow> store_error + operation_receipt" where
  "resolve_idempotent_replay existing incoming =
     (if or_fingerprint existing \<noteq> incoming then Inl ErrIdempotencyConflict
      else case result_validate (or_result existing) of Some e \<Rightarrow> Inl e | None \<Rightarrow> Inr existing)"

section \<open>The table\<close>

record outbox_db =
  ot_rows :: "outbox_item list"
  ot_clock :: time \<comment> \<open>\<open>clock_timestamp()\<close>\<close>

definition stored_digits :: "string \<Rightarrow> bool" where
  "stored_digits s \<longleftrightarrow> s \<noteq> [] \<and> list_all is_digit s \<and> hd s \<noteq> CHR ''0'' \<and> length s \<le> 19"

definition stored_value_ok :: "string \<Rightarrow> string \<Rightarrow> bool" where
  "stored_value_ok key v =
     (if key = ''response_status'' then length v = 3 \<and> list_all is_digit v \<and> hd v \<in> {CHR ''2'', CHR ''3'', CHR ''4'', CHR ''5''}
      else if key \<in> {''result_version'', ''version'', ''credential_version''} then stored_digits v
      else payload_value_ok key v)"

definition row_check :: "outbox_item \<Rightarrow> bool" where
  "row_check r \<longleftrightarrow>
     ob_kind r \<in> {OperationLocal, OperationCrossSystem, OperationRedisPurge}
     \<and> 1 \<le> length (ob_key r) \<and> length (ob_key r) \<le> 240
     \<and> fp_version (ob_fingerprint r) = ''hmac-sha256-v1''
     \<and> 1 \<le> length (fp_key_id (ob_fingerprint r)) \<and> length (fp_key_id (ob_fingerprint r)) \<le> 160
     \<and> 32 \<le> length (fp_digest (ob_fingerprint r)) \<and> length (fp_digest (ob_fingerprint r)) \<le> 160
     \<and> (ar_code (ob_result r) = [] \<or> ar_code (ob_result r) \<in> set allowed_result_codes)
     \<and> (ar_digest (ob_result r) = [] \<or> result_digest_ok (ar_digest (ob_result r)))
     \<and> list_all (\<lambda>(k, v). stored_value_ok k v) (payload_entries (ob_result r))
     \<and> ob_state r \<in> {StatePending, StateClaimed, StateSucceeded, StateFailed, StateNeedsOperator}
     \<and> delivery_phase_valid (ob_phase r)
     \<and> (ob_state r = StateClaimed \<longleftrightarrow> ob_claim_token_hash r \<noteq> None)
     \<and> (ob_state r = StateClaimed \<longleftrightarrow> ob_claim_lease_until r \<noteq> None)
     \<and> (ob_state r \<in> {StatePending, StateClaimed} \<longleftrightarrow> ob_terminal_at r = None)
     \<and> 0 \<le> ob_attempts r \<and> 0 < ob_version r
     \<and> (ob_payload_key_id r = [] \<longleftrightarrow> ob_payload_nonce r = [])
     \<and> (ob_payload_key_id r = [] \<longleftrightarrow> ob_payload_ciphertext r = [])
     \<and> (case ob_payload_purged_at r of None \<Rightarrow> True
        | Some p \<Rightarrow> ob_payload_key_id r = [] \<and> (case ob_payload_expires_at r of None \<Rightarrow> False | Some e \<Rightarrow> e \<le> p))
     \<and> (ob_audit_reconciled_at r = None \<or> ob_terminal_at r \<noteq> None)
     \<and> (case ob_payload_expires_at r of None \<Rightarrow> True
        | Some e \<Rightarrow> (case ob_audit_reconciled_at r of None \<Rightarrow> False | Some a \<Rightarrow> a < e))
     \<and> ob_created_at r \<le> ob_updated_at r"

text \<open>
  \<open>INSERT ... ON CONFLICT(idempotency_key) DO NOTHING\<close>, and \<open>UPDATE ... WHERE\<close> with the number
  of affected rows.  A violated constraint is an error without an effect.
\<close>

definition sql_insert :: "outbox_item \<Rightarrow> outbox_db \<Rightarrow> (store_error + nat) \<times> outbox_db" where
  "sql_insert r db =
     (if \<not> row_check r then (Inl ErrStoreInfra, db)
      else if \<exists>x\<in>set (ot_rows db). ob_key x = ob_key r then (Inr 0, db)
      else if \<exists>x\<in>set (ot_rows db). ob_id x = ob_id r then (Inl ErrStoreInfra, db)
      else (Inr 1, db\<lparr>ot_rows := ot_rows db @ [r]\<rparr>))"

definition sql_update ::
  "(outbox_item \<Rightarrow> bool) \<Rightarrow> (outbox_item \<Rightarrow> outbox_item) \<Rightarrow> outbox_db \<Rightarrow> (store_error + nat) \<times> outbox_db" where
  "sql_update p f db =
     (if list_all row_check (map f (filter p (ot_rows db)))
      then (Inr (length (filter p (ot_rows db))),
            db\<lparr>ot_rows := map (\<lambda>r. if p r then f r else r) (ot_rows db)\<rparr>)
      else (Inl ErrStoreInfra, db))"

text \<open>\<open>SELECT ... WHERE\<close> of one row; no row is \<open>pgx.ErrNoRows\<close>, here None.\<close>

definition sql_select :: "(outbox_item \<Rightarrow> bool) \<Rightarrow> outbox_db \<Rightarrow> (store_error + outbox_item option) \<times> outbox_db" where
  "sql_select p db = (Inr (List.find p (ot_rows db)), db)"

text \<open>
  \<open>SELECT operation_id ... ORDER BY next_attempt_at,operation_id LIMIT n FOR UPDATE SKIP LOCKED\<close>;
  in a serial history no row is locked by somebody else.
\<close>

definition sql_due :: "(outbox_item \<Rightarrow> bool) \<Rightarrow> nat \<Rightarrow> outbox_db \<Rightarrow> (store_error + string list) \<times> outbox_db" where
  "sql_due p n db =
     (Inr (map ob_id (take n (sort_key (\<lambda>r. (ob_next_attempt_at r, ob_id r)) (filter p (ot_rows db))))), db)"

section \<open>The repository\<close>

type_synonym outbox_conn = "outbox_db conn"

definition exec_one ::
  "(outbox_item \<Rightarrow> bool) \<Rightarrow> (outbox_item \<Rightarrow> outbox_item) \<Rightarrow> outbox_conn \<Rightarrow> (store_error + unit) \<times> outbox_conn" where
  "exec_one p f c =
     (case io_call ErrStoreInfra (sql_update p f) c of
        (Inl e, c1) \<Rightarrow> (Inl e, c1)
      | (Inr n, c1) \<Rightarrow> if n \<noteq> 1 then (Inl ErrIdempotencyConflict, c1) else (Inr (), c1))"

definition new_row :: "outbox_item \<Rightarrow> outbox_item" where
  "new_row item = item\<lparr>ob_result := stored_result (ob_result item), ob_claim_token_hash := None, ob_claim_token := [],
     ob_claim_lease_until := None, ob_terminal_at := None, ob_audit_reconciled_at := None,
     ob_payload_expires_at := None, ob_payload_purged_at := None\<rparr>"

text \<open>The defaults \<open>CreateOrReplay\<close> fills in; \<open>fresh_id\<close> is \<open>newAdminID("aop_")\<close>.\<close>

definition outbox_defaults :: "string \<Rightarrow> time \<Rightarrow> outbox_item \<Rightarrow> outbox_item" where
  "outbox_defaults fresh_id now item =
     (let created = (if ob_created_at item = zero_time then now else ob_created_at item)
      in item\<lparr>ob_id := (if ob_id item = [] then fresh_id else ob_id item),
          ob_version := (if ob_version item = 0 then 1 else ob_version item),
          ob_state := (if ob_state item = [] then StatePending else ob_state item),
          ob_next_attempt_at := (if ob_next_attempt_at item = zero_time then now else ob_next_attempt_at item),
          ob_created_at := created,
          ob_updated_at := (if ob_updated_at item = zero_time then created else ob_updated_at item),
          ob_phase := (if ob_phase item = [] then DeliveryPhaseNotSent else ob_phase item)\<rparr>)"

definition create_or_replay ::
  "string \<Rightarrow> time \<Rightarrow> outbox_item \<Rightarrow> outbox_conn \<Rightarrow> (store_error + outbox_item \<times> bool) \<times> outbox_conn" where
  "create_or_replay fresh_id now item0 c =
     (let item = outbox_defaults fresh_id now item0
      in if \<not> delivery_phase_valid (ob_phase item) then (Inl ErrInvalidOperationResult, c)
         else case validate_optional_result (ob_result item) of
           Some e \<Rightarrow> (Inl e, c)
         | None \<Rightarrow>
             (case io_call ErrStoreInfra (sql_insert (new_row item)) c of
                (Inl e, c1) \<Rightarrow> (Inl e, c1)
              | (Inr n, c1) \<Rightarrow>
                  if n = 1 then (Inr (item, False), c1)
                  else case io_call ErrStoreInfra (sql_select (\<lambda>r. ob_key r = ob_key item)) c1 of
                    (Inl e, c2) \<Rightarrow> (Inl e, c2)
                  | (Inr None, c2) \<Rightarrow> (Inl ErrStoreInfra, c2)
                  | (Inr (Some existing), c2) \<Rightarrow>
                      if ob_fingerprint existing \<noteq> ob_fingerprint item then (Inl ErrIdempotencyConflict, c2)
                      else (Inr (sanitize_outbox_replay existing, True), c2)))"

definition get_by_idempotency_key :: "string \<Rightarrow> outbox_conn \<Rightarrow> (store_error + outbox_item) \<times> outbox_conn" where
  "get_by_idempotency_key key c =
     (case io_call ErrStoreInfra (sql_select (\<lambda>r. ob_key r = key)) c of
        (Inl e, c1) \<Rightarrow> (Inl e, c1)
      | (Inr None, c1) \<Rightarrow> (Inl ErrOperationNotFound, c1)
      | (Inr (Some r), c1) \<Rightarrow> (Inr (sanitize_outbox_replay r), c1))"

definition unclaim :: "time \<Rightarrow> outbox_item \<Rightarrow> outbox_item" where
  "unclaim now r = r\<lparr>ob_state := StatePending, ob_claim_token_hash := None, ob_claim_lease_until := None,
     ob_next_attempt_at := now, ob_version := ob_version r + 1, ob_updated_at := now\<rparr>"

definition lease_over :: "time \<Rightarrow> outbox_item \<Rightarrow> bool" where
  "lease_over now r \<longleftrightarrow> (case ob_claim_lease_until r of None \<Rightarrow> False | Some l \<Rightarrow> l \<le> now)"

definition lease_live :: "time \<Rightarrow> outbox_item \<Rightarrow> bool" where
  "lease_live now r \<longleftrightarrow> (case ob_claim_lease_until r of None \<Rightarrow> False | Some l \<Rightarrow> now < l)"

definition reclaim_expired_claims :: "time \<Rightarrow> outbox_conn \<Rightarrow> (store_error + nat) \<times> outbox_conn" where
  "reclaim_expired_claims now =
     io_call ErrStoreInfra (sql_update (\<lambda>r. ob_state r = StateClaimed \<and> lease_over now r) (unclaim now))"

definition claimed_as :: "string \<Rightarrow> time \<Rightarrow> time \<Rightarrow> outbox_item \<Rightarrow> outbox_item" where
  "claimed_as h lease now r = r\<lparr>ob_state := StateClaimed, ob_claim_token_hash := Some h,
     ob_claim_lease_until := Some lease, ob_attempts := ob_attempts r + 1, ob_version := ob_version r + 1,
     ob_updated_at := now\<rparr>"

definition read_claimed :: "string \<Rightarrow> string \<Rightarrow> outbox_conn \<Rightarrow> (store_error + outbox_item) \<times> outbox_conn" where
  "read_claimed oid token c =
     (case io_call ErrStoreInfra (sql_select (\<lambda>r. ob_id r = oid)) c of
        (Inl e, c1) \<Rightarrow> (Inl e, c1)
      | (Inr None, c1) \<Rightarrow> (Inl ErrStoreInfra, c1)
      | (Inr (Some r), c1) \<Rightarrow> (Inr (r\<lparr>ob_claim_token := token\<rparr>), c1))"

text \<open>
  The loop over the selected ids; each iteration draws a token, an exhausted or failed random
  source is None.  \<open>hash\<close> is \<open>hashAdminOutboxClaimToken\<close>.
\<close>

fun claim_each ::
  "(string \<Rightarrow> string) \<Rightarrow> (delivery_phase \<Rightarrow> bool) \<Rightarrow> time \<Rightarrow> time \<Rightarrow> string option list \<Rightarrow> string list
     \<Rightarrow> outbox_conn \<Rightarrow> (store_error + outbox_item list) \<times> outbox_conn" where
  "claim_each hash ph lease now tokens [] c = (Inr [], c)"
| "claim_each hash ph lease now (Some token # tokens) (oid # oids) c =
     (case exec_one (\<lambda>r. ob_id r = oid \<and> ob_state r = StatePending \<and> ph (ob_phase r))
             (claimed_as (hash token) lease now) c of
        (Inl e, c1) \<Rightarrow> (Inl e, c1)
      | (Inr _, c1) \<Rightarrow>
          (case read_claimed oid token c1 of
             (Inl e, c2) \<Rightarrow> (Inl e, c2)
           | (Inr item, c2) \<Rightarrow>
               (case claim_each hash ph lease now tokens oids c2 of
                  (Inl e, c3) \<Rightarrow> (Inl e, c3)
                | (Inr items, c3) \<Rightarrow> (Inr (item # items), c3))))"
| "claim_each hash ph lease now _ (oid # oids) c = (Inl ErrStoreInfra, c)"

definition is_due :: "(delivery_phase \<Rightarrow> bool) \<Rightarrow> time \<Rightarrow> outbox_item \<Rightarrow> bool" where
  "is_due ph now r \<longleftrightarrow> ob_state r = StatePending \<and> ph (ob_phase r) \<and> ob_next_attempt_at r \<le> now"

abbreviation "not_sent_phase ph \<equiv> ph = DeliveryPhaseNotSent"
abbreviation "receipt_phase ph \<equiv> ph = DeliveryPhaseIndeterminate \<or> ph = DeliveryPhaseSent"

definition claim_selected ::
  "(string \<Rightarrow> string) \<Rightarrow> (delivery_phase \<Rightarrow> bool) \<Rightarrow> duration \<Rightarrow> string option list \<Rightarrow> time \<Rightarrow> nat \<Rightarrow> outbox_conn
     \<Rightarrow> (store_error + outbox_item list) \<times> outbox_conn" where
  "claim_selected hash ph lease tokens now limit c =
     (case reclaim_expired_claims now c of
        (Inl e, c1) \<Rightarrow> (Inl e, c1)
      | (Inr _, c1) \<Rightarrow>
          (case io_call ErrStoreInfra (sql_due (is_due ph now) limit) c1 of
             (Inl e, c2) \<Rightarrow> (Inl e, c2)
           | (Inr oids, c2) \<Rightarrow> claim_each hash ph (now + lease) now tokens oids c2))"

definition claim_due ::
  "(string \<Rightarrow> string) \<Rightarrow> string option list \<Rightarrow> time \<Rightarrow> int \<Rightarrow> outbox_conn \<Rightarrow> (store_error + outbox_item list) \<times> outbox_conn" where
  "claim_due hash tokens now limit =
     claim_selected hash (\<lambda>ph. not_sent_phase ph) (seconds 30) tokens now
       (if limit \<le> 0 \<or> 100 < limit then 100 else nat limit)"

definition claim_receipts_due ::
  "(string \<Rightarrow> string) \<Rightarrow> string option list \<Rightarrow> time \<Rightarrow> int \<Rightarrow> duration \<Rightarrow> outbox_conn
     \<Rightarrow> (store_error + outbox_item list) \<times> outbox_conn" where
  "claim_receipts_due hash tokens now limit lease c =
     (if limit \<le> 0 \<or> 100 < limit \<or> lease \<le> 0 \<or> minutes 10 < lease then (Inl ErrIdempotencyConflict, c)
      else claim_selected hash (\<lambda>ph. receipt_phase ph) lease tokens now (nat limit) c)"

definition claim_exact ::
  "(string \<Rightarrow> string) \<Rightarrow> string option \<Rightarrow> string \<Rightarrow> int \<Rightarrow> time \<Rightarrow> duration \<Rightarrow> outbox_conn
     \<Rightarrow> (store_error + outbox_item) \<times> outbox_conn" where
  "claim_exact hash draw oid expected now lease c =
     (if oid = [] \<or> expected \<le> 0 \<or> lease \<le> 0 \<or> minutes 10 < lease then (Inl ErrIdempotencyConflict, c)
      else case draw of
        None \<Rightarrow> (Inl ErrStoreInfra, c)
      | Some token \<Rightarrow>
          (case exec_one (\<lambda>r. ob_id r = oid \<and> ob_version r = expected \<and> ob_state r = StatePending
                 \<and> not_sent_phase (ob_phase r)) (claimed_as (hash token) (now + lease) now) c of
             (Inl e, c1) \<Rightarrow> (Inl e, c1)
           | (Inr _, c1) \<Rightarrow> read_claimed oid token c1))"

text \<open>The guard every statement of a claim holder carries.\<close>

definition held :: "(string \<Rightarrow> string) \<Rightarrow> string \<Rightarrow> int \<Rightarrow> string \<Rightarrow> time \<Rightarrow> outbox_item \<Rightarrow> bool" where
  "held hash oid expected token at r \<longleftrightarrow>
     ob_id r = oid \<and> ob_version r = expected \<and> ob_state r = StateClaimed
     \<and> ob_claim_token_hash r = Some (hash token) \<and> lease_live at r"

definition bumped :: "time \<Rightarrow> outbox_item \<Rightarrow> outbox_item" where
  "bumped at r = r\<lparr>ob_version := ob_version r + 1, ob_updated_at := at\<rparr>"

definition released :: "outbox_item \<Rightarrow> outbox_item" where
  "released r = r\<lparr>ob_claim_token_hash := None, ob_claim_lease_until := None\<rparr>"

definition mark_delivery_phase ::
  "(string \<Rightarrow> string) \<Rightarrow> string \<Rightarrow> int \<Rightarrow> string \<Rightarrow> delivery_phase \<Rightarrow> time \<Rightarrow> outbox_conn \<Rightarrow> (store_error + unit) \<times> outbox_conn" where
  "mark_delivery_phase hash oid expected token phase at c =
     (if token = [] then (Inl ErrIdempotencyConflict, c)
      else if phase = DeliveryPhaseIndeterminate
      then exec_one (\<lambda>r. held hash oid expected token at r \<and> ob_phase r = DeliveryPhaseNotSent)
             (\<lambda>r. (bumped at r)\<lparr>ob_phase := DeliveryPhaseIndeterminate\<rparr>) c
      else if phase = DeliveryPhaseSent
      then exec_one (\<lambda>r. held hash oid expected token at r \<and> ob_phase r = DeliveryPhaseIndeterminate)
             (\<lambda>r. (bumped at r)\<lparr>ob_phase := DeliveryPhaseSent\<rparr>) c
      else (Inl ErrIdempotencyConflict, c))"

text \<open>\<open>clock_timestamp()\<close> is the clock of the state the statement runs on.\<close>

definition renew_claim ::
  "(string \<Rightarrow> string) \<Rightarrow> string \<Rightarrow> int \<Rightarrow> string \<Rightarrow> duration \<Rightarrow> outbox_conn \<Rightarrow> (store_error + unit) \<times> outbox_conn" where
  "renew_claim hash oid expected token lease c =
     (if oid = [] \<or> expected \<le> 0 \<or> token = [] \<or> lease \<le> 0 \<or> minutes 10 < lease then (Inl ErrIdempotencyConflict, c)
      else exec_one (\<lambda>r. held hash oid expected token (ot_clock (fst c)) r \<and> ob_phase r = DeliveryPhaseIndeterminate)
             (\<lambda>r. (bumped (ot_clock (fst c)) r)\<lparr>ob_claim_lease_until := Some (ot_clock (fst c) + lease)\<rparr>) c)"

definition defer_receipt ::
  "(string \<Rightarrow> string) \<Rightarrow> string \<Rightarrow> int \<Rightarrow> string \<Rightarrow> time \<Rightarrow> time \<Rightarrow> outbox_conn \<Rightarrow> (store_error + unit) \<times> outbox_conn" where
  "defer_receipt hash oid expected token next_attempt at c =
     (if token = [] \<or> \<not> at < next_attempt then (Inl ErrIdempotencyConflict, c)
      else exec_one (\<lambda>r. held hash oid expected token at r \<and> receipt_phase (ob_phase r))
             (\<lambda>r. (released (bumped at r))\<lparr>ob_state := StatePending, ob_next_attempt_at := next_attempt\<rparr>) c)"

definition mark_needs_operator ::
  "(string \<Rightarrow> string) \<Rightarrow> string \<Rightarrow> int \<Rightarrow> string \<Rightarrow> time \<Rightarrow> outbox_conn \<Rightarrow> (store_error + unit) \<times> outbox_conn" where
  "mark_needs_operator hash oid expected token at c =
     (if token = [] then (Inl ErrIdempotencyConflict, c)
      else exec_one (\<lambda>r. held hash oid expected token at r \<and> receipt_phase (ob_phase r))
             (\<lambda>r. (released (bumped at r))\<lparr>ob_state := StateNeedsOperator, ob_terminal_at := Some at\<rparr>) c)"

definition finished :: "string \<Rightarrow> allowlisted_result \<Rightarrow> time \<Rightarrow> outbox_item \<Rightarrow> outbox_item" where
  "finished state result at r = (released (bumped at r))\<lparr>ob_state := state, ob_result := stored_result result,
     ob_terminal_at := Some at\<rparr>"

definition settle_item ::
  "(string \<Rightarrow> string) \<Rightarrow> string \<Rightarrow> int \<Rightarrow> string \<Rightarrow> allowlisted_result \<Rightarrow> time \<Rightarrow> outbox_conn \<Rightarrow> (store_error + unit) \<times> outbox_conn" where
  "settle_item hash oid expected token result at c =
     (if token = [] then (Inl ErrIdempotencyConflict, c)
      else case result_validate result of
        Some e \<Rightarrow> (Inl e, c)
      | None \<Rightarrow> exec_one (\<lambda>r. held hash oid expected token at r \<and> ob_phase r = DeliveryPhaseSent)
                  (finished StateSucceeded result at) c)"

definition fail_item ::
  "(string \<Rightarrow> string) \<Rightarrow> string \<Rightarrow> int \<Rightarrow> string \<Rightarrow> allowlisted_result \<Rightarrow> time \<Rightarrow> outbox_conn \<Rightarrow> (store_error + unit) \<times> outbox_conn" where
  "fail_item hash oid expected token result at c =
     (if token = [] \<or> ar_code result \<noteq> ''operation.failed'' then (Inl ErrIdempotencyConflict, c)
      else case result_validate result of
        Some e \<Rightarrow> (Inl e, c)
      | None \<Rightarrow> exec_one (\<lambda>r. held hash oid expected token at r \<and> ob_phase r = DeliveryPhaseSent)
                  (finished StateFailed result at) c)"

definition abort_before_send ::
  "(string \<Rightarrow> string) \<Rightarrow> string \<Rightarrow> int \<Rightarrow> string \<Rightarrow> allowlisted_result \<Rightarrow> time \<Rightarrow> outbox_conn \<Rightarrow> (store_error + unit) \<times> outbox_conn" where
  "abort_before_send hash oid expected token result at c =
     (if token = [] \<or> expected \<le> 0 \<or> ar_code result \<noteq> ''operation.failed'' \<or> at = zero_time
      then (Inl ErrIdempotencyConflict, c)
      else case result_validate result of
        Some e \<Rightarrow> (Inl e, c)
      | None \<Rightarrow> exec_one (\<lambda>r. held hash oid expected token at r \<and> ob_phase r = DeliveryPhaseIndeterminate)
                  (\<lambda>r. (finished StateFailed result at r)\<lparr>ob_phase := DeliveryPhaseNotSent\<rparr>) c)"

definition complete_local ::
  "string \<Rightarrow> int \<Rightarrow> allowlisted_result \<Rightarrow> time \<Rightarrow> outbox_conn \<Rightarrow> (store_error + unit) \<times> outbox_conn" where
  "complete_local oid expected result at c =
     (case result_validate result of
        Some e \<Rightarrow> (Inl e, c)
      | None \<Rightarrow> exec_one (\<lambda>r. ob_id r = oid \<and> ob_version r = expected \<and> ob_kind r = OperationLocal
                    \<and> ob_state r = StatePending \<and> ob_terminal_at r = None)
                  (\<lambda>r. (bumped at r)\<lparr>ob_state := StateSucceeded, ob_result := stored_result result,
                        ob_terminal_at := Some at\<rparr>) c)"

definition mark_audit_reconciled :: "string \<Rightarrow> int \<Rightarrow> time \<Rightarrow> outbox_conn \<Rightarrow> (store_error + unit) \<times> outbox_conn" where
  "mark_audit_reconciled oid expected at =
     exec_one (\<lambda>r. ob_id r = oid \<and> ob_version r = expected \<and> ob_terminal_at r \<noteq> None \<and> ob_audit_reconciled_at r = None)
       (\<lambda>r. (bumped at r)\<lparr>ob_audit_reconciled_at := Some at,
             ob_payload_expires_at := Some (payload_retention_deadline at)\<rparr>)"

definition release_expired_claim :: "string \<Rightarrow> int \<Rightarrow> time \<Rightarrow> outbox_conn \<Rightarrow> (store_error + unit) \<times> outbox_conn" where
  "release_expired_claim oid expected now =
     exec_one (\<lambda>r. ob_id r = oid \<and> ob_version r = expected \<and> ob_state r = StateClaimed
         \<and> delivery_phase_valid (ob_phase r) \<and> lease_over now r) (unclaim now)"

definition purge_payload :: "string \<Rightarrow> int \<Rightarrow> time \<Rightarrow> outbox_conn \<Rightarrow> (store_error + unit) \<times> outbox_conn" where
  "purge_payload oid expected now =
     exec_one (\<lambda>r. ob_id r = oid \<and> ob_version r = expected
         \<and> (case ob_payload_expires_at r of None \<Rightarrow> False | Some e \<Rightarrow> e \<le> now) \<and> ob_payload_purged_at r = None)
       (\<lambda>r. (bumped now r)\<lparr>ob_payload_key_id := [], ob_payload_nonce := [], ob_payload_ciphertext := [],
             ob_payload_purged_at := Some now\<rparr>)"

end
