(* ===== verification/OutboxProtocol.thy ===== *)
theory OutboxProtocol
  imports AdminOutbox
begin

text \<open>
  The delivery protocol of the operation ledger: an abstract life of one item that every method
  of the repository refines, under every fault schedule, and what follows from it for whole
  histories of calls - at most one send, final outcomes, exclusive claims and stable replays.
\<close>

section \<open>The abstract life of an item\<close>

text \<open>What no method ever changes.\<close>

definition same_operation :: "outbox_item \<Rightarrow> outbox_item \<Rightarrow> bool" where
  "same_operation r s \<longleftrightarrow> ob_id s = ob_id r \<and> ob_key s = ob_key r \<and> ob_kind s = ob_kind r
     \<and> ob_fingerprint s = ob_fingerprint r \<and> ob_created_at s = ob_created_at r
     \<and> ob_claim_token s = ob_claim_token r"

definition result_kept :: "outbox_item \<Rightarrow> outbox_item \<Rightarrow> bool" where
  "result_kept r s \<longleftrightarrow> ob_result s = ob_result r \<and> ob_phase s = ob_phase r"

definition claim_kept :: "outbox_item \<Rightarrow> outbox_item \<Rightarrow> bool" where
  "claim_kept r s \<longleftrightarrow> ob_claim_token_hash s = ob_claim_token_hash r"

text \<open>
  One step of an item: claimed, given back, its phase advanced or its lease renewed by the
  holder, finished, aborted before the send, handed to an operator, completed locally, or, once
  finished, annotated (audit and payload).
\<close>

inductive item_step :: "outbox_item \<Rightarrow> outbox_item \<Rightarrow> bool" where
  claim: "same_operation r s \<Longrightarrow> result_kept r s \<Longrightarrow> ob_version s = ob_version r + 1 \<Longrightarrow>
    ob_state r = StatePending \<Longrightarrow> ob_state s = StateClaimed \<Longrightarrow> item_step r s"
| give_back: "same_operation r s \<Longrightarrow> result_kept r s \<Longrightarrow> ob_version s = ob_version r + 1 \<Longrightarrow>
    ob_state r = StateClaimed \<Longrightarrow> ob_state s = StatePending \<Longrightarrow> item_step r s"
| advance: "same_operation r s \<Longrightarrow> ob_result s = ob_result r \<Longrightarrow> claim_kept r s \<Longrightarrow> ob_version s = ob_version r + 1 \<Longrightarrow>
    ob_state r = StateClaimed \<Longrightarrow> ob_state s = StateClaimed \<Longrightarrow>
    (ob_phase r, ob_phase s) \<in> {(DeliveryPhaseNotSent, DeliveryPhaseIndeterminate),
       (DeliveryPhaseIndeterminate, DeliveryPhaseSent), (DeliveryPhaseIndeterminate, DeliveryPhaseIndeterminate)} \<Longrightarrow>
    item_step r s"
| finish: "same_operation r s \<Longrightarrow> ob_version s = ob_version r + 1 \<Longrightarrow> ob_state r = StateClaimed \<Longrightarrow>
    ob_phase r = DeliveryPhaseSent \<Longrightarrow> ob_phase s = DeliveryPhaseSent \<Longrightarrow>
    ob_state s = StateSucceeded \<or> ob_state s = StateFailed \<Longrightarrow> item_step r s"
| abort: "same_operation r s \<Longrightarrow> ob_version s = ob_version r + 1 \<Longrightarrow> ob_state r = StateClaimed \<Longrightarrow>
    ob_phase r = DeliveryPhaseIndeterminate \<Longrightarrow> ob_phase s = DeliveryPhaseNotSent \<Longrightarrow>
    ob_state s = StateFailed \<Longrightarrow> item_step r s"
| hand_over: "same_operation r s \<Longrightarrow> result_kept r s \<Longrightarrow> ob_version s = ob_version r + 1 \<Longrightarrow>
    ob_state r = StateClaimed \<Longrightarrow> ob_phase r \<noteq> DeliveryPhaseNotSent \<Longrightarrow> ob_state s = StateNeedsOperator \<Longrightarrow> item_step r s"
| complete: "same_operation r s \<Longrightarrow> ob_phase s = ob_phase r \<Longrightarrow> ob_version s = ob_version r + 1 \<Longrightarrow>
    ob_kind r = OperationLocal \<Longrightarrow> ob_state r = StatePending \<Longrightarrow> ob_state s = StateSucceeded \<Longrightarrow> item_step r s"
| annotate: "same_operation r s \<Longrightarrow> result_kept r s \<Longrightarrow> ob_version s = ob_version r + 1 \<Longrightarrow>
    ob_state r \<in> {StateSucceeded, StateFailed, StateNeedsOperator} \<Longrightarrow> ob_state s = ob_state r \<Longrightarrow> item_step r s"

abbreviation "item_life \<equiv> item_step\<^sup>*\<^sup>*"

lemma item_step_basic:
  assumes "item_step r s"
  shows "same_operation r s \<and> ob_version s = ob_version r + 1"
  using assms by cases auto

lemma same_operation_refl [simp]: "same_operation r r"
  by (simp add: same_operation_def)

lemma same_operation_trans: "same_operation r s \<Longrightarrow> same_operation s t \<Longrightarrow> same_operation r t"
  by (simp add: same_operation_def)

lemma item_life_same: "item_life r s \<Longrightarrow> same_operation r s \<and> ob_version r \<le> ob_version s"
  by (induction rule: rtranclp_induct) (auto dest: item_step_basic intro: same_operation_trans)

text \<open>Once a send may have happened it may never be started again.\<close>

definition send_barred :: "outbox_item \<Rightarrow> bool" where
  "send_barred r \<longleftrightarrow> ob_phase r \<noteq> DeliveryPhaseNotSent
     \<or> ob_state r \<in> {StateSucceeded, StateFailed, StateNeedsOperator}"

lemma send_barred_step: "item_step r s \<Longrightarrow> send_barred r \<Longrightarrow> send_barred s"
  by (cases rule: item_step.cases) (auto simp: send_barred_def result_kept_def)

lemma send_barred_life: "item_life r s \<Longrightarrow> send_barred r \<Longrightarrow> send_barred s"
  by (induction rule: rtranclp_induct) (auto intro: send_barred_step)

definition is_final :: "outbox_item \<Rightarrow> bool" where
  "is_final r \<longleftrightarrow> ob_state r \<in> {StateSucceeded, StateFailed, StateNeedsOperator}"

lemma final_step: "item_step r s \<Longrightarrow> is_final r \<Longrightarrow> is_final s \<and> ob_state s = ob_state r \<and> result_kept r s"
  by (cases rule: item_step.cases) (auto simp: is_final_def)

lemma final_life: "item_life r s \<Longrightarrow> is_final r \<Longrightarrow> is_final s \<and> ob_state s = ob_state r \<and> result_kept r s"
proof (induction rule: rtranclp_induct)
  case base
  then show ?case by (simp add: result_kept_def)
next
  case (step s t)
  then have "is_final s \<and> ob_state s = ob_state r \<and> result_kept r s" by blast
  with final_step [OF step(2)] show ?case by (auto simp: result_kept_def)
qed

definition success_was_sent :: "outbox_item \<Rightarrow> bool" where
  "success_was_sent r \<longleftrightarrow> (ob_state r = StateSucceeded \<longrightarrow> ob_kind r = OperationLocal \<or> ob_phase r = DeliveryPhaseSent)"

lemma success_was_sent_step: "item_step r s \<Longrightarrow> success_was_sent r \<Longrightarrow> success_was_sent s"
  by (cases rule: item_step.cases) (auto simp: success_was_sent_def result_kept_def same_operation_def)

section \<open>The table evolves item by item\<close>

definition evolves :: "outbox_item list \<Rightarrow> outbox_item list \<Rightarrow> bool" where
  "evolves rs ss \<longleftrightarrow> length rs \<le> length ss \<and> (\<forall>i<length rs. item_life (rs ! i) (ss ! i))
     \<and> (\<forall>i. length rs \<le> i \<and> i < length ss \<longrightarrow> (\<exists>b. ob_state b = StatePending \<and> item_life b (ss ! i)))"

lemma evolves_refl [simp]: "evolves rs rs"
  by (auto simp: evolves_def)

lemma evolves_trans:
  assumes a: "evolves rs ss" and b: "evolves ss ts"
  shows "evolves rs ts"
proof -
  have la: "length rs \<le> length ss" and lb: "length ss \<le> length ts"
    using a b by (simp_all add: evolves_def)
  have sa: "item_life (rs ! i) (ss ! i)" if "i < length rs" for i using a that by (simp add: evolves_def)
  have sb: "item_life (ss ! i) (ts ! i)" if "i < length ss" for i using b that by (simp add: evolves_def)
  have old: "item_life (rs ! i) (ts ! i)" if i: "i < length rs" for i
    using rtranclp_trans [OF sa [OF i] sb] i la by simp
  have new: "\<exists>b. ob_state b = StatePending \<and> item_life b (ts ! i)" if i: "length rs \<le> i" "i < length ts" for i
  proof (cases "i < length ss")
    case True
    then obtain b0 where b0: "ob_state b0 = StatePending" "item_life b0 (ss ! i)"
      using a i by (auto simp: evolves_def)
    from rtranclp_trans [OF b0(2) sb [OF True]] b0(1) show ?thesis by blast
  next
    case False
    with b i show ?thesis by (simp add: evolves_def)
  qed
  show ?thesis using la lb old new by (simp add: evolves_def)
qed

text \<open>A table is sound when every row passed its checks and neither ids nor keys repeat.\<close>

definition table_ok :: "outbox_item list \<Rightarrow> bool" where
  "table_ok rs \<longleftrightarrow> (\<forall>r\<in>set rs. row_check r) \<and> distinct (map ob_id rs) \<and> distinct (map ob_key rs)"

text \<open>What every statement and every method does to the table, whatever fails.\<close>

definition outbox_tracks :: "outbox_db \<Rightarrow> outbox_db \<Rightarrow> bool" where
  "outbox_tracks db db' \<longleftrightarrow>
     (table_ok (ot_rows db) \<longrightarrow> table_ok (ot_rows db') \<and> evolves (ot_rows db) (ot_rows db'))
     \<and> ot_clock db' = ot_clock db"

lemma outbox_tracks_refl [simp]: "outbox_tracks db db"
  by (simp add: outbox_tracks_def)

lemma outbox_tracks_trans: "outbox_tracks a b \<Longrightarrow> outbox_tracks b c \<Longrightarrow> outbox_tracks a c"
  by (auto simp: outbox_tracks_def intro: evolves_trans)

lemma new_row_pending: "row_check (new_row item) \<Longrightarrow> ob_state (new_row item) = StatePending"
  by (auto simp: row_check_def new_row_def)

lemma sql_insert_tracks:
  assumes "row_check r \<Longrightarrow> ob_state r = StatePending"
  shows "outbox_tracks db (snd (sql_insert r db))"
proof (cases "row_check r \<and> (\<forall>x\<in>set (ot_rows db). ob_key x \<noteq> ob_key r \<and> ob_id x \<noteq> ob_id r)")
  case False
  then have "snd (sql_insert r db) = db" by (auto simp: sql_insert_def)
  then show ?thesis by simp
next
  case True
  then have e: "snd (sql_insert r db) = db\<lparr>ot_rows := ot_rows db @ [r]\<rparr>" by (auto simp: sql_insert_def)
  have "table_ok (ot_rows db @ [r])" if "table_ok (ot_rows db)"
    using that True by (auto simp: table_ok_def)
  moreover have "evolves (ot_rows db) (ot_rows db @ [r])"
    using assms True by (auto simp: evolves_def nth_append)
  ultimately show ?thesis by (simp add: outbox_tracks_def e)
qed

lemma map_update_nth:
  "map (\<lambda>r. if p r then f r else r) rs ! i = (if p (rs ! i) then f (rs ! i) else rs ! i)" if "i < length rs"
  using that by simp

lemma sql_update_tracks:
  assumes "\<And>r. p r \<Longrightarrow> row_check r \<Longrightarrow> item_step r (f r)"
  shows "outbox_tracks db (snd (sql_update p f db))"
proof (cases "list_all row_check (map f (filter p (ot_rows db)))")
  case False
  then have "snd (sql_update p f db) = db" by (auto simp: sql_update_def)
  then show ?thesis by simp
next
  case True
  let ?g = "\<lambda>r. if p r then f r else r"
  have e: "snd (sql_update p f db) = db\<lparr>ot_rows := map ?g (ot_rows db)\<rparr>"
    using True by (simp add: sql_update_def)
  have life: "item_life r (?g r)" if "row_check r" for r using assms that by auto
  have "table_ok (map ?g (ot_rows db)) \<and> evolves (ot_rows db) (map ?g (ot_rows db))" if ok: "table_ok (ot_rows db)"
  proof -
    have chk: "\<forall>r\<in>set (ot_rows db). row_check r" using ok by (simp add: table_ok_def)
    have "\<forall>r\<in>set (ot_rows db). ob_id (?g r) = ob_id r \<and> ob_key (?g r) = ob_key r"
      using life item_life_same chk unfolding same_operation_def by metis
    then have "map ob_id (map ?g (ot_rows db)) = map ob_id (ot_rows db)"
      "map ob_key (map ?g (ot_rows db)) = map ob_key (ot_rows db)" by simp_all
    moreover have "\<forall>r\<in>set (ot_rows db). row_check (?g r)"
      using True chk by (auto simp: list_all_iff)
    ultimately have "table_ok (map ?g (ot_rows db))" using ok unfolding table_ok_def by (metis (no_types, lifting) image_iff set_map)
    moreover have "evolves (ot_rows db) (map ?g (ot_rows db))"
      using life chk by (auto simp: evolves_def)
    ultimately show ?thesis by blast
  qed
  then show ?thesis by (simp add: outbox_tracks_def e)
qed

lemma io_tracks:
  assumes "\<And>db. outbox_tracks db (snd (g db))"
  shows "outbox_tracks (fst c) (fst (snd (io_call e g c)))"
  using io_call_inv [of "outbox_tracks (fst c)" c g e] assms by simp

lemma exec_one_tracks:
  assumes "\<And>r. p r \<Longrightarrow> row_check r \<Longrightarrow> item_step r (f r)"
  shows "outbox_tracks (fst c) (fst (snd (exec_one p f c)))"
  using io_tracks [OF sql_update_tracks [of p f, OF assms], of c ErrStoreInfra]
  by (auto simp: exec_one_def split: prod.splits sum.splits)

subsection \<open>Every method\<close>

lemmas step_fields = same_operation_def result_kept_def claim_kept_def bumped_def released_def finished_def
  unclaim_def claimed_as_def held_def

lemma create_or_replay_tracks: "outbox_tracks (fst c) (fst (snd (create_or_replay fid now item c)))"
proof -
  let ?r = "new_row (outbox_defaults fid now item)"
  have i: "outbox_tracks (fst c) (fst (snd (io_call ErrStoreInfra (sql_insert ?r) c)))"
    using new_row_pending by (intro io_tracks sql_insert_tracks) blast
  have s: "fst (snd (io_call ErrStoreInfra (sql_select q) c')) = fst c'" for q c'
    by (rule io_call_pure) (simp add: sql_select_def)
  obtain a c1 where a: "io_call ErrStoreInfra (sql_insert ?r) c = (a, c1)" by (rule prod.exhaust)
  obtain b c2 where b: "io_call ErrStoreInfra (sql_select (\<lambda>r. ob_key r = ob_key (outbox_defaults fid now item))) c1 = (b, c2)"
    by (rule prod.exhaust)
  have "fst c2 = fst c1" using s [of _ c1] b by (metis fst_conv snd_conv)
  with i show ?thesis
    by (auto simp: create_or_replay_def Let_def a b split: option.splits sum.splits)
qed

lemma read_claimed_pure: "fst (snd (read_claimed oid token c)) = fst c"
proof -
  have "fst (snd (io_call ErrStoreInfra (sql_select q) c)) = fst c" for q
    by (rule io_call_pure) (simp add: sql_select_def)
  then show ?thesis by (auto simp: read_claimed_def split: prod.splits sum.splits option.splits) (metis fst_conv snd_conv)+
qed

lemma claim_step: "ob_state r = StatePending \<Longrightarrow> item_step r (claimed_as h l now r)"
  by (rule item_step.claim) (simp_all add: step_fields)

lemma unclaim_step: "ob_state r = StateClaimed \<Longrightarrow> item_step r (unclaim now r)"
  by (rule item_step.give_back) (simp_all add: step_fields)

lemma claim_each_tracks: "outbox_tracks (fst c) (fst (snd (claim_each hash ph lease now tokens oids c)))"
proof (induction hash ph lease now tokens oids c rule: claim_each.induct)
  case (2 hash ph lease now token tokens oid oids c)
  obtain a c1 where a: "exec_one (\<lambda>r. ob_id r = oid \<and> ob_state r = StatePending \<and> ph (ob_phase r))
      (claimed_as (hash token) lease now) c = (a, c1)" by (rule prod.exhaust)
  have t1: "outbox_tracks (fst c) (fst c1)"
    using exec_one_tracks [of "\<lambda>r. ob_id r = oid \<and> ob_state r = StatePending \<and> ph (ob_phase r)"
        "claimed_as (hash token) lease now" c] a by (simp add: claim_step)
  obtain b c2 where b: "read_claimed oid token c1 = (b, c2)" by (rule prod.exhaust)
  have t2: "fst c2 = fst c1" using read_claimed_pure [of oid token c1] b by simp
  show ?case
  proof (cases a)
    case (Inl e)
    with a t1 show ?thesis by simp
  next
    case aa: (Inr u)
    show ?thesis
    proof (cases b)
      case (Inl e)
      with a aa b t1 t2 show ?thesis by simp
    next
      case (Inr item)
      have "outbox_tracks (fst c2) (fst (snd (claim_each hash ph lease now tokens oids c2)))"
        using 2 a aa b Inr by fastforce
      then show ?thesis
        using a aa b Inr t1 t2 outbox_tracks_trans by (fastforce split: prod.splits sum.splits)
    qed
  qed
qed simp_all

lemma claim_selected_tracks: "outbox_tracks (fst c) (fst (snd (claim_selected hash ph lease tokens now limit c)))"
proof -
  obtain a c1 where a: "reclaim_expired_claims now c = (a, c1)" by (rule prod.exhaust)
  have t1: "outbox_tracks (fst c) (fst c1)"
    using io_tracks [OF sql_update_tracks [of "\<lambda>r. ob_state r = StateClaimed \<and> lease_over now r" "unclaim now"], of c ErrStoreInfra]
      a by (simp add: reclaim_expired_claims_def unclaim_step)
  obtain b c2 where b: "io_call ErrStoreInfra (sql_due (is_due ph now) limit) c1 = (b, c2)" by (rule prod.exhaust)
  have "fst (snd (io_call ErrStoreInfra (sql_due (is_due ph now) limit) c1)) = fst c1"
    by (rule io_call_pure) (simp add: sql_due_def)
  with b have t2: "fst c2 = fst c1" by simp
  show ?thesis
    using t1 t2 claim_each_tracks [of c2 hash ph "now + lease" now tokens] outbox_tracks_trans
    by (fastforce simp: claim_selected_def a b split: sum.splits)
qed

lemma exec_one_tracks_step:
  assumes "\<And>r. p r \<Longrightarrow> item_step r (f r)"
  shows "outbox_tracks (fst c) (fst (snd (exec_one p f c)))"
  by (rule exec_one_tracks) (rule assms)

lemma mark_delivery_phase_tracks:
  "outbox_tracks (fst c) (fst (snd (mark_delivery_phase hash oid v token phase at c)))"
  unfolding mark_delivery_phase_def
  by (auto simp: step_fields intro!: exec_one_tracks_step item_step.advance)

lemma renew_claim_tracks: "outbox_tracks (fst c) (fst (snd (renew_claim hash oid v token lease c)))"
  unfolding renew_claim_def
  by (auto simp: step_fields intro!: exec_one_tracks_step item_step.advance)

lemma defer_receipt_tracks: "outbox_tracks (fst c) (fst (snd (defer_receipt hash oid v token nxt at c)))"
  unfolding defer_receipt_def
  by (auto simp: step_fields intro!: exec_one_tracks_step item_step.give_back)

lemma mark_needs_operator_tracks: "outbox_tracks (fst c) (fst (snd (mark_needs_operator hash oid v token at c)))"
  unfolding mark_needs_operator_def
  by (auto simp: step_fields intro!: exec_one_tracks_step item_step.hand_over)

lemma settle_item_tracks: "outbox_tracks (fst c) (fst (snd (settle_item hash oid v token res at c)))"
  unfolding settle_item_def
  by (auto simp: step_fields intro!: exec_one_tracks_step item_step.finish split: option.split)

lemma fail_item_tracks: "outbox_tracks (fst c) (fst (snd (fail_item hash oid v token res at c)))"
  unfolding fail_item_def
  by (auto simp: step_fields intro!: exec_one_tracks_step item_step.finish split: option.split)

lemma abort_before_send_tracks: "outbox_tracks (fst c) (fst (snd (abort_before_send hash oid v token res at c)))"
  unfolding abort_before_send_def
  by (auto simp: step_fields intro!: exec_one_tracks_step item_step.abort split: option.split)

lemma complete_local_tracks: "outbox_tracks (fst c) (fst (snd (complete_local oid v res at c)))"
  unfolding complete_local_def
  by (auto simp: step_fields intro!: exec_one_tracks_step item_step.complete split: option.split)

lemma final_when_terminal:
  "row_check r \<Longrightarrow> ob_terminal_at r \<noteq> None \<Longrightarrow> is_final r"
  by (auto simp: row_check_def is_final_def)

lemma annotate_step:
  assumes "is_final r" "same_operation r s" "result_kept r s" "ob_version s = ob_version r + 1" "ob_state s = ob_state r"
  shows "item_step r s"
  using assms by (intro item_step.annotate) (auto simp: is_final_def)

lemma mark_audit_reconciled_tracks: "outbox_tracks (fst c) (fst (snd (mark_audit_reconciled oid v at c)))"
  unfolding mark_audit_reconciled_def
  by (rule exec_one_tracks, rule annotate_step) (auto simp: step_fields intro: final_when_terminal)

lemma release_expired_claim_tracks: "outbox_tracks (fst c) (fst (snd (release_expired_claim oid v now c)))"
  unfolding release_expired_claim_def by (auto intro!: exec_one_tracks_step unclaim_step)

text \<open>A payload expires only on an item whose audit was reconciled, which is final.\<close>

lemma expiring_is_final: "row_check r \<Longrightarrow> ob_payload_expires_at r \<noteq> None \<Longrightarrow> is_final r"
  by (auto simp: row_check_def is_final_def split: option.splits)

lemma purge_payload_tracks: "outbox_tracks (fst c) (fst (snd (purge_payload oid v now c)))"
  unfolding purge_payload_def
  by (rule exec_one_tracks, rule annotate_step) (auto simp: step_fields intro: expiring_is_final split: option.splits)

lemma get_by_idempotency_key_pure: "fst (snd (get_by_idempotency_key key c)) = fst c"
proof -
  have "fst (snd (io_call ErrStoreInfra (sql_select q) c)) = fst c" for q
    by (rule io_call_pure) (simp add: sql_select_def)
  then show ?thesis by (auto simp: get_by_idempotency_key_def split: prod.splits sum.splits option.splits) (metis fst_conv snd_conv)+
qed

section \<open>Histories of calls\<close>

datatype outbox_op =
  OpCreate string time outbox_item
  | OpGet string
  | OpClaimDue "string option list" time int
  | OpClaimReceiptsDue "string option list" time int duration
  | OpClaimExact "string option" string int time duration
  | OpMarkPhase string int string delivery_phase time
  | OpRenew string int string duration
  | OpDefer string int string time time
  | OpNeedsOperator string int string time
  | OpSettle string int string allowlisted_result time
  | OpFail string int string allowlisted_result time
  | OpAbort string int string allowlisted_result time
  | OpCompleteLocal string int allowlisted_result time
  | OpAuditReconciled string int time
  | OpReleaseExpired string int time
  | OpPurge string int time

fun outbox_run :: "(string \<Rightarrow> string) \<Rightarrow> outbox_op \<Rightarrow> outbox_conn \<Rightarrow> outbox_conn" where
  "outbox_run hash (OpCreate fid now item) c = snd (create_or_replay fid now item c)"
| "outbox_run hash (OpGet key) c = snd (get_by_idempotency_key key c)"
| "outbox_run hash (OpClaimDue tokens now limit) c = snd (claim_due hash tokens now limit c)"
| "outbox_run hash (OpClaimReceiptsDue tokens now limit lease) c = snd (claim_receipts_due hash tokens now limit lease c)"
| "outbox_run hash (OpClaimExact draw oid v now lease) c = snd (claim_exact hash draw oid v now lease c)"
| "outbox_run hash (OpMarkPhase oid v token phase at) c = snd (mark_delivery_phase hash oid v token phase at c)"
| "outbox_run hash (OpRenew oid v token lease) c = snd (renew_claim hash oid v token lease c)"
| "outbox_run hash (OpDefer oid v token nxt at) c = snd (defer_receipt hash oid v token nxt at c)"
| "outbox_run hash (OpNeedsOperator oid v token at) c = snd (mark_needs_operator hash oid v token at c)"
| "outbox_run hash (OpSettle oid v token res at) c = snd (settle_item hash oid v token res at c)"
| "outbox_run hash (OpFail oid v token res at) c = snd (fail_item hash oid v token res at c)"
| "outbox_run hash (OpAbort oid v token res at) c = snd (abort_before_send hash oid v token res at c)"
| "outbox_run hash (OpCompleteLocal oid v res at) c = snd (complete_local oid v res at c)"
| "outbox_run hash (OpAuditReconciled oid v at) c = snd (mark_audit_reconciled oid v at c)"
| "outbox_run hash (OpReleaseExpired oid v now) c = snd (release_expired_claim oid v now c)"
| "outbox_run hash (OpPurge oid v now) c = snd (purge_payload oid v now c)"

lemma claim_exact_tracks: "outbox_tracks (fst c) (fst (snd (claim_exact hash draw oid v now lease c)))"
proof (cases draw)
  case None
  then show ?thesis by (simp add: claim_exact_def)
next
  case (Some token)
  obtain a c1 where a: "exec_one (\<lambda>r. ob_id r = oid \<and> ob_version r = v \<and> ob_state r = StatePending
       \<and> not_sent_phase (ob_phase r)) (claimed_as (hash token) (now + lease) now) c = (a, c1)"
    by (rule prod.exhaust)
  have t: "outbox_tracks (fst c) (fst c1)"
    using exec_one_tracks_step [of "\<lambda>r. ob_id r = oid \<and> ob_version r = v \<and> ob_state r = StatePending
       \<and> not_sent_phase (ob_phase r)" "claimed_as (hash token) (now + lease) now" c] a by (simp add: claim_step)
  with read_claimed_pure [of oid token c1] show ?thesis
    by (simp add: claim_exact_def Some a split: sum.split)
qed

lemma outbox_run_tracks: "outbox_tracks (fst c) (fst (outbox_run hash op c))"
  by (cases op)
     (simp_all add: create_or_replay_tracks get_by_idempotency_key_pure claim_due_def claim_receipts_due_def
       claim_selected_tracks claim_exact_tracks mark_delivery_phase_tracks renew_claim_tracks defer_receipt_tracks
       mark_needs_operator_tracks settle_item_tracks fail_item_tracks abort_before_send_tracks complete_local_tracks
       mark_audit_reconciled_tracks release_expired_claim_tracks purge_payload_tracks)

text \<open>
  The states a history of calls leads to: every call with faults of its own, and the clock moving
  between calls.  \<open>P\<close> restricts the calls.  A transaction of several calls that commits is such a
  history, one that does not leaves the state where it was.
\<close>

inductive outbox_reaches ::
  "(string \<Rightarrow> string) \<Rightarrow> (outbox_db \<Rightarrow> outbox_op \<Rightarrow> bool) \<Rightarrow> outbox_db \<Rightarrow> outbox_db \<Rightarrow> bool"
  for hash P db where
  start: "outbox_reaches hash P db db"
| call: "outbox_reaches hash P db db' \<Longrightarrow> P db' op \<Longrightarrow> outbox_reaches hash P db (fst (outbox_run hash op (db', fs)))"
| tick: "outbox_reaches hash P db db' \<Longrightarrow> 0 \<le> d \<Longrightarrow> outbox_reaches hash P db (db'\<lparr>ot_clock := ot_clock db' + d\<rparr>)"

abbreviation "any_call \<equiv> (\<lambda>(db::outbox_db) (op::outbox_op). True)"

lemma reaches_evolves:
  "outbox_reaches hash P db db' \<Longrightarrow> table_ok (ot_rows db) \<Longrightarrow> table_ok (ot_rows db') \<and> evolves (ot_rows db) (ot_rows db')"
proof (induction rule: outbox_reaches.induct)
  case (call db' op fs)
  then have "table_ok (ot_rows db')" "evolves (ot_rows db) (ot_rows db')" by blast+
  with outbox_run_tracks [of "(db', fs)" hash op] show ?case
    by (auto simp: outbox_tracks_def intro: evolves_trans)
qed simp_all

text \<open>The row of an operation after a history descends from its row before it.\<close>

lemma evolves_row:
  assumes "evolves rs ss" "table_ok ss" "r \<in> set rs"
  shows "\<exists>s\<in>set ss. item_life r s \<and> (\<forall>s'\<in>set ss. ob_id s' = ob_id r \<or> ob_key s' = ob_key r \<longrightarrow> s' = s)"
proof -
  obtain i where i: "i < length rs" "r = rs ! i" using assms(3) by (auto simp: in_set_conv_nth)
  have s: "item_life r (ss ! i)" "i < length ss" using assms(1) i by (auto simp: evolves_def)
  have u: "s' = ss ! i" if s': "s' \<in> set ss" "ob_id s' = ob_id r \<or> ob_key s' = ob_key r" for s'
  proof -
    obtain j where j: "j < length ss" "s' = ss ! j" using s'(1) by (auto simp: in_set_conv_nth)
    have "ob_id (ss ! i) = ob_id r" "ob_key (ss ! i) = ob_key r"
      using item_life_same [OF s(1)] by (auto simp: same_operation_def)
    with s' j s(2) have "map ob_id ss ! i = map ob_id ss ! j \<or> map ob_key ss ! i = map ob_key ss ! j" by auto
    moreover have "distinct (map ob_id ss)" "distinct (map ob_key ss)" using assms(2) by (simp_all add: table_ok_def)
    ultimately have "i = j" using j(1) s(2) by (metis length_map nth_eq_iff_index_eq)
    with j show ?thesis by simp
  qed
  show ?thesis using s u by (intro bexI [of _ "ss ! i"]) auto
qed

lemma exec_one_rows:
  assumes "exec_one p f c = (Inr (), c')"
  shows "ot_rows (fst c') = map (\<lambda>r. if p r then f r else r) (ot_rows (fst c))"
    and "\<exists>r\<in>set (ot_rows (fst c)). p r"
proof -
  obtain n c1 where n: "io_call ErrStoreInfra (sql_update p f) c = (Inr n, c1)" "n = 1" "c1 = c'"
    using assms by (auto simp: exec_one_def split: prod.splits sum.splits if_splits)
  have u: "sql_update p f (fst c) = (Inr 1, fst c')" using io_call_ok [OF n(1)] n by simp
  then have "fst c' = snd (sql_update p f (fst c))" by simp
  moreover have "list_all row_check (map f (filter p (ot_rows (fst c))))"
    using u by (auto simp: sql_update_def split: if_splits)
  ultimately show "ot_rows (fst c') = map (\<lambda>r. if p r then f r else r) (ot_rows (fst c))"
    by (simp add: sql_update_def)
  have "length (filter p (ot_rows (fst c))) = 1"
    using u by (auto simp: sql_update_def split: if_splits)
  then show "\<exists>r\<in>set (ot_rows (fst c)). p r"
    by (metis filter_False length_0_conv list.size(3) zero_neq_one)
qed

lemma exec_one_ok:
  assumes "exec_one p f c = (Inr (), c')"
  shows "\<exists>r\<in>set (ot_rows (fst c)). p r \<and> f r \<in> set (ot_rows (fst c'))"
  using exec_one_rows(2) [OF assms] unfolding exec_one_rows(1) [OF assms] by force

text \<open>A claim of a batch took its item in a state the table passed through.\<close>

lemma claim_each_took:
  "claim_each hash ph lease now tokens oids c = (Inr items, c') \<Longrightarrow> item \<in> set items \<Longrightarrow>
     \<exists>db1. outbox_tracks (fst c) db1 \<and> (\<exists>r\<in>set (ot_rows db1). ob_id r = ob_id item \<and> ob_state r = StatePending \<and> ph (ob_phase r))"
proof (induction hash ph lease now tokens oids c arbitrary: items c' rule: claim_each.induct)
  case (2 hash ph lease now token tokens oid oids c)
  let ?p = "\<lambda>r. ob_id r = oid \<and> ob_state r = StatePending \<and> ph (ob_phase r)"
  let ?f = "claimed_as (hash token) lease now"
  obtain c1 where a: "exec_one ?p ?f c = (Inr (), c1)"
    using 2(2) by (auto split: prod.splits sum.splits)
  obtain x c2 where b: "read_claimed oid token c1 = (Inr x, c2)"
    using 2(2) a by (auto split: prod.splits sum.splits)
  obtain xs c3 where d: "claim_each hash ph lease now tokens oids c2 = (Inr xs, c3)" and items: "items = x # xs"
    using 2(2) a b by (auto split: prod.splits sum.splits)
  have t1: "outbox_tracks (fst c) (fst c1)"
    using exec_one_tracks_step [of ?p ?f c] a by (simp add: claim_step)
  have t2: "fst c2 = fst c1" using read_claimed_pure [of oid token c1] b by simp
  have xid: "ob_id x = oid"
    using b by (auto simp: read_claimed_def sql_select_def find_Some_iff split: prod.splits sum.splits option.splits
        dest!: io_call_ok)
  show ?case
  proof (cases "item = x")
    case True
    obtain r where "r \<in> set (ot_rows (fst c))" "?p r" using exec_one_ok [OF a] by blast
    then show ?thesis using xid True by (intro exI [of _ "fst c"]) auto
  next
    case False
    then have "item \<in> set xs" using 2(3) items by simp
    with 2(1) [OF a [symmetric] refl b [symmetric] refl d] t1 t2 show ?thesis
      by (metis outbox_tracks_trans)
  qed
qed auto

lemma claim_selected_took:
  assumes "claim_selected hash ph lease tokens now limit c = (Inr items, c')" "item \<in> set items"
  shows "\<exists>db1. outbox_tracks (fst c) db1 \<and> (\<exists>r\<in>set (ot_rows db1). ob_id r = ob_id item \<and> ob_state r = StatePending \<and> ph (ob_phase r))"
proof -
  obtain n c1 where a: "reclaim_expired_claims now c = (Inr n, c1)"
    using assms(1) by (auto simp: claim_selected_def split: prod.splits sum.splits)
  obtain oids c2 where b: "io_call ErrStoreInfra (sql_due (is_due ph now) limit) c1 = (Inr oids, c2)"
    using assms(1) a by (auto simp: claim_selected_def split: prod.splits sum.splits)
  have d: "claim_each hash ph (now + lease) now tokens oids c2 = (Inr items, c')"
    using assms(1) a b by (simp add: claim_selected_def)
  have t1: "outbox_tracks (fst c) (fst c1)"
    using io_tracks [OF sql_update_tracks [of "\<lambda>r. ob_state r = StateClaimed \<and> lease_over now r" "unclaim now"], of c ErrStoreInfra]
      a by (simp add: reclaim_expired_claims_def unclaim_step)
  have "fst (snd (io_call ErrStoreInfra (sql_due (is_due ph now) limit) c1)) = fst c1"
    by (rule io_call_pure) (simp add: sql_due_def)
  with b have t2: "fst c2 = fst c1" by simp
  from claim_each_took [OF d assms(2)] t1 t2 show ?thesis by (metis outbox_tracks_trans)
qed

end
