(* ===== verification/OutboxProperties.thy ===== *)
theory OutboxProperties
  imports OutboxProtocol
begin

text \<open>
  The promises of the operation ledger over whole histories of calls, for every schedule of
  faults: an operation is sent at most once, its outcome is final, a live claim is exclusive,
  replays are stable, and no cross-system success is recorded before the send.
\<close>

lemma exec_one_refused:
  "(\<And>r. r \<in> set (ot_rows (fst c)) \<Longrightarrow> \<not> p r) \<Longrightarrow> exec_one p f c \<noteq> (Inr (), c')"
  using exec_one_ok by blast

lemma mark_indeterminate_ok:
  assumes "mark_delivery_phase hash oid v token DeliveryPhaseIndeterminate at c = (Inr (), c')"
  shows "\<exists>r\<in>set (ot_rows (fst c')). ob_id r = oid \<and> ob_phase r = DeliveryPhaseIndeterminate"
proof -
  have "exec_one (\<lambda>r. held hash oid v token at r \<and> ob_phase r = DeliveryPhaseNotSent)
      (\<lambda>r. (bumped at r)\<lparr>ob_phase := DeliveryPhaseIndeterminate\<rparr>) c = (Inr (), c')"
    using assms by (auto simp: mark_delivery_phase_def split: if_splits)
  from exec_one_ok [OF this] obtain r where "held hash oid v token at r"
    "(bumped at r)\<lparr>ob_phase := DeliveryPhaseIndeterminate\<rparr> \<in> set (ot_rows (fst c'))" by blast
  then show ?thesis by (intro bexI [of _ "(bumped at r)\<lparr>ob_phase := DeliveryPhaseIndeterminate\<rparr>"])
      (simp_all add: held_def bumped_def)
qed

text \<open>The row of a barred operation stays barred, and is the only row of its id.\<close>

lemma barred_rows:
  assumes "table_ok rs" "r \<in> set rs" "send_barred r" "table_ok ss" "evolves rs ss"
    and "s \<in> set ss" "ob_id s = ob_id r"
  shows "send_barred s"
  using evolves_row [OF assms(5,4,2)] send_barred_life [OF _ assms(3)] assms(6,7) by blast

text \<open>
  C24.  An operation is sent at most once.  A worker calls the upstream service only after it has
  marked the delivery indeterminate; once that mark has succeeded, then after any history of
  calls, faults and delays no other mark of the same operation succeeds, no exact claim for
  sending succeeds, and no batch claim for sending contains it - also when the lease expired, the
  worker died, or the send was aborted.
\<close>

theorem operation_sent_at_most_once:
  assumes "table_ok (ot_rows (fst c0))"
    and "mark_delivery_phase hash oid v token DeliveryPhaseIndeterminate at c0 = (Inr (), c1)"
    and "outbox_reaches hash any_call (fst c1) db"
  shows "fst (mark_delivery_phase hash oid v' token' DeliveryPhaseIndeterminate at' (db, fs)) \<noteq> Inr ()
    \<and> (\<nexists>x. fst (claim_exact hash draw oid v' now lease (db, fs)) = Inr x)
    \<and> (\<nexists>items. fst (claim_due hash tokens now limit (db, fs)) = Inr items \<and> oid \<in> ob_id ` set items)"
proof -
  have ok1: "table_ok (ot_rows (fst c1))"
    using mark_delivery_phase_tracks [of c0 hash oid v token DeliveryPhaseIndeterminate at] assms(1,2)
    by (simp add: outbox_tracks_def)
  obtain r where r: "r \<in> set (ot_rows (fst c1))" "ob_id r = oid" "ob_phase r = DeliveryPhaseIndeterminate"
    using mark_indeterminate_ok [OF assms(2)] by blast
  then have bar: "send_barred r" by (simp add: send_barred_def)
  have ev: "table_ok (ot_rows db)" "evolves (ot_rows (fst c1)) (ot_rows db)"
    using reaches_evolves [OF assms(3) ok1] by auto
  have barred: "send_barred s" if "outbox_tracks db db'" "s \<in> set (ot_rows db')" "ob_id s = oid" for db' s
  proof -
    have "table_ok (ot_rows db')" "evolves (ot_rows (fst c1)) (ot_rows db')"
      using that(1) ev by (auto simp: outbox_tracks_def intro: evolves_trans)
    from barred_rows [OF ok1 r(1) bar this that(2)] that(3) r(2) show ?thesis by simp
  qed
  have here: "send_barred s" if "s \<in> set (ot_rows db)" "ob_id s = oid" for s
    using barred [of db s] that by simp
  have 1: "fst (mark_delivery_phase hash oid v' token' DeliveryPhaseIndeterminate at' (db, fs)) \<noteq> Inr ()"
  proof
    assume "fst (mark_delivery_phase hash oid v' token' DeliveryPhaseIndeterminate at' (db, fs)) = Inr ()"
    then have "fst (exec_one (\<lambda>r. held hash oid v' token' at' r \<and> ob_phase r = DeliveryPhaseNotSent)
        (\<lambda>r. (bumped at' r)\<lparr>ob_phase := DeliveryPhaseIndeterminate\<rparr>) (db, fs)) = Inr ()"
      by (simp add: mark_delivery_phase_def split: if_splits)
    then have "exec_one (\<lambda>r. held hash oid v' token' at' r \<and> ob_phase r = DeliveryPhaseNotSent)
        (\<lambda>r. (bumped at' r)\<lparr>ob_phase := DeliveryPhaseIndeterminate\<rparr>) (db, fs) = (Inr (), snd (exec_one (\<lambda>r. held hash oid v' token' at' r \<and> ob_phase r = DeliveryPhaseNotSent)
        (\<lambda>r. (bumped at' r)\<lparr>ob_phase := DeliveryPhaseIndeterminate\<rparr>) (db, fs)))"
      by (metis prod.collapse)
    from exec_one_ok [OF this] obtain x where x: "x \<in> set (ot_rows db)" "held hash oid v' token' at' x"
        "ob_phase x = DeliveryPhaseNotSent" by auto
    from here [OF x(1)] x(2,3) show False by (simp add: held_def send_barred_def)
  qed
  have 2: False if x: "fst (claim_exact hash draw oid v' now lease (db, fs)) = Inr x" for x
  proof -
    obtain token'' where t: "draw = Some token''"
      using x by (auto simp: claim_exact_def split: if_splits option.splits)
    obtain res c2 where e: "exec_one (\<lambda>r. ob_id r = oid \<and> ob_version r = v' \<and> ob_state r = StatePending
        \<and> not_sent_phase (ob_phase r)) (claimed_as (hash token'') (now + lease) now) (db, fs) = (res, c2)"
      by (rule prod.exhaust)
    have "res = Inr ()" using x by (cases res) (simp_all add: claim_exact_def t e split: if_splits)
    with e have "exec_one (\<lambda>r. ob_id r = oid \<and> ob_version r = v' \<and> ob_state r = StatePending
        \<and> not_sent_phase (ob_phase r)) (claimed_as (hash token'') (now + lease) now) (db, fs) = (Inr (), c2)" by simp
    from exec_one_ok [OF this] obtain y where y: "y \<in> set (ot_rows db)" "ob_id y = oid"
        "ob_state y = StatePending" "ob_phase y = DeliveryPhaseNotSent" by auto
    from here [OF y(1,2)] y(3,4) show False by (simp add: send_barred_def)
  qed
  have 3: False if x: "fst (claim_due hash tokens now limit (db, fs)) = Inr items" "item \<in> set items" "ob_id item = oid" for items item
  proof -
    obtain c2 where "claim_due hash tokens now limit (db, fs) = (Inr items, c2)"
      using x(1) by (metis prod.collapse)
    from claim_selected_took [OF this [unfolded claim_due_def] x(2)] obtain db1 y where
      y: "outbox_tracks db db1" "y \<in> set (ot_rows db1)" "ob_id y = oid"
        "ob_state y = StatePending" "ob_phase y = DeliveryPhaseNotSent" using x(3) by auto
    from barred [OF y(1-3)] y(4,5) show False by (simp add: send_barred_def)
  qed
  show ?thesis using 1 2 3 by blast
qed

text \<open>
  Outcomes are final.  An item that reached a terminal time keeps its state, its phase and its
  result through every later history, and it stays the one row of its id and of its key.
\<close>

theorem outcomes_are_final:
  assumes "table_ok (ot_rows db)" and "r \<in> set (ot_rows db)" and "ob_terminal_at r \<noteq> None"
    and "outbox_reaches hash any_call db db'"
  shows "\<exists>s\<in>set (ot_rows db'). same_operation r s \<and> ob_state s = ob_state r \<and> ob_phase s = ob_phase r
    \<and> ob_result s = ob_result r \<and> ob_state r \<in> {StateSucceeded, StateFailed, StateNeedsOperator}
    \<and> (\<forall>s'\<in>set (ot_rows db'). ob_id s' = ob_id r \<or> ob_key s' = ob_key r \<longrightarrow> s' = s)"
proof -
  have f: "is_final r" using assms(1-3) final_when_terminal by (auto simp: table_ok_def)
  have ev: "table_ok (ot_rows db')" "evolves (ot_rows db) (ot_rows db')"
    using reaches_evolves [OF assms(4,1)] by auto
  obtain s where s: "s \<in> set (ot_rows db')" "item_life r s"
    and u: "\<forall>s'\<in>set (ot_rows db'). ob_id s' = ob_id r \<or> ob_key s' = ob_key r \<longrightarrow> s' = s"
    using evolves_row [OF ev(2,1) assms(2)] by blast
  have k: "is_final s \<and> ob_state s = ob_state r \<and> result_kept r s" by (rule final_life [OF s(2) f])
  have st: "ob_state r \<in> {StateSucceeded, StateFailed, StateNeedsOperator}" using f by (simp add: is_final_def)
  have e: "ob_phase s = ob_phase r" "ob_result s = ob_result r" using k by (simp_all add: result_kept_def)
  show ?thesis
    using s(1) by (rule bexI [rotated]) (intro conjI u st e conjunct1 [OF item_life_same [OF s(2)]] conjunct1 [OF conjunct2 [OF k]])
qed

text \<open>
  A success of a cross-system operation is only ever recorded for an item that was marked
  sent.  In every state reachable from an empty ledger the rows pass the table's checks, ids and
  keys are unique, and a succeeded item is local or sent.
\<close>

lemma born_sound: "ob_state b = StatePending \<Longrightarrow> item_life b s \<Longrightarrow> success_was_sent s"
proof (rotate_tac 1, induction rule: rtranclp_induct)
  case base
  then show ?case by (simp add: success_was_sent_def)
next
  case (step y z)
  then show ?case using success_was_sent_step by blast
qed

theorem success_only_after_send:
  assumes "outbox_reaches hash any_call \<lparr>ot_rows = [], ot_clock = t\<rparr> db"
  shows "table_ok (ot_rows db) \<and> (\<forall>r\<in>set (ot_rows db). ob_state r = StateSucceeded \<longrightarrow>
     ob_kind r = OperationLocal \<or> ob_phase r = DeliveryPhaseSent)"
proof -
  have "table_ok (ot_rows \<lparr>ot_rows = [], ot_clock = t\<rparr>)" by (simp add: table_ok_def)
  from reaches_evolves [OF assms this] have ok: "table_ok (ot_rows db)" and ev: "evolves [] (ot_rows db)" by auto
  have "success_was_sent r" if m: "r \<in> set (ot_rows db)" for r
  proof -
    obtain i where i: "i < length (ot_rows db)" "ot_rows db ! i = r" using m by (auto simp: in_set_conv_nth)
    have "\<exists>b. ob_state b = StatePending \<and> item_life b (ot_rows db ! i)" using ev i(1) by (simp add: evolves_def)
    then obtain b where "ob_state b = StatePending" "item_life b r" unfolding i(2) by blast
    then show ?thesis by (rule born_sound)
  qed
  with ok show ?thesis unfolding success_was_sent_def by blast
qed

section \<open>Exclusive claims\<close>

text \<open>The instant a call compares leases with, and the claim token it presents.\<close>

fun op_instant :: "outbox_db \<Rightarrow> outbox_op \<Rightarrow> time option" where
  "op_instant db (OpClaimDue tokens now limit) = Some now"
| "op_instant db (OpClaimReceiptsDue tokens now limit lease) = Some now"
| "op_instant db (OpReleaseExpired oid v now) = Some now"
| "op_instant db op = None"

fun op_presents :: "outbox_op \<Rightarrow> string option" where
  "op_presents (OpMarkPhase oid v token phase at) = Some token"
| "op_presents (OpRenew oid v token lease) = Some token"
| "op_presents (OpDefer oid v token nxt at) = Some token"
| "op_presents (OpNeedsOperator oid v token at) = Some token"
| "op_presents (OpSettle oid v token res at) = Some token"
| "op_presents (OpFail oid v token res at) = Some token"
| "op_presents (OpAbort oid v token res at) = Some token"
| "op_presents op = None"

definition keeps :: "outbox_item \<Rightarrow> outbox_db \<Rightarrow> outbox_db \<Rightarrow> bool" where
  "keeps r db db' \<longleftrightarrow> (r \<in> set (ot_rows db) \<longrightarrow> r \<in> set (ot_rows db'))"

lemma keeps_refl [simp]: "keeps r db db"
  by (simp add: keeps_def)

lemma keeps_trans: "keeps r a b \<Longrightarrow> keeps r b c \<Longrightarrow> keeps r a c"
  by (simp add: keeps_def)

lemma sql_update_keeps: "\<not> p r \<Longrightarrow> keeps r db (snd (sql_update p f db))"
  by (force simp: sql_update_def keeps_def)

lemma io_keeps: "(\<And>db. keeps r db (snd (g db))) \<Longrightarrow> keeps r (fst c) (fst (snd (io_call e g c)))"
  using io_call_inv [of "keeps r (fst c)" c g e] by simp

lemma exec_one_keeps: "\<not> p r \<Longrightarrow> keeps r (fst c) (fst (snd (exec_one p f c)))"
  using io_keeps [of r "sql_update p f" c ErrStoreInfra] sql_update_keeps [of p r _ f]
  by (auto simp: exec_one_def split: prod.splits sum.splits)

lemma create_or_replay_keeps: "keeps r (fst c) (fst (snd (create_or_replay fid now item c)))"
proof -
  let ?r = "new_row (outbox_defaults fid now item)"
  have i: "keeps r (fst c) (fst (snd (io_call ErrStoreInfra (sql_insert ?r) c)))"
    by (rule io_keeps) (auto simp: sql_insert_def keeps_def)
  have s: "fst (snd (io_call ErrStoreInfra (sql_select q) c')) = fst c'" for q c'
    by (rule io_call_pure) (simp add: sql_select_def)
  obtain a c1 where a: "io_call ErrStoreInfra (sql_insert ?r) c = (a, c1)" by (rule prod.exhaust)
  obtain b c2 where b: "io_call ErrStoreInfra (sql_select (\<lambda>r. ob_key r = ob_key (outbox_defaults fid now item))) c1 = (b, c2)"
    by (rule prod.exhaust)
  have "fst c2 = fst c1" using s [of _ c1] b by (metis fst_conv snd_conv)
  with i show ?thesis
    by (auto simp: create_or_replay_def Let_def a b split: option.splits sum.splits)
qed

lemma claim_each_keeps:
  "ob_state r = StateClaimed \<Longrightarrow> keeps r (fst c) (fst (snd (claim_each hash ph lease now tokens oids c)))"
proof (induction hash ph lease now tokens oids c rule: claim_each.induct)
  case (2 hash ph lease now token tokens oid oids c)
  let ?p = "\<lambda>r. ob_id r = oid \<and> ob_state r = StatePending \<and> ph (ob_phase r)"
  obtain a c1 where a: "exec_one ?p (claimed_as (hash token) lease now) c = (a, c1)" by (rule prod.exhaust)
  have t1: "keeps r (fst c) (fst c1)"
    using exec_one_keeps [of ?p r c "claimed_as (hash token) lease now"] a 2(2) by simp
  obtain b c2 where b: "read_claimed oid token c1 = (b, c2)" by (rule prod.exhaust)
  have t2: "fst c2 = fst c1" using read_claimed_pure [of oid token c1] b by simp
  show ?case
  proof (cases a)
    case (Inl e)
    with a t1 show ?thesis by simp
  next
    case aa: (Inr u)
    show ?thesis
    proof (cases b)
      case (Inl e)
      with a aa b t1 t2 show ?thesis by simp
    next
      case (Inr item)
      have "keeps r (fst c2) (fst (snd (claim_each hash ph lease now tokens oids c2)))"
        using 2 a aa b Inr by fastforce
      then have "keeps r (fst c) (fst (snd (claim_each hash ph lease now tokens oids c2)))"
        using t1 t2 keeps_trans by metis
      then show ?thesis using a aa b Inr by (auto split: prod.splits sum.splits)
    qed
  qed
qed simp_all

lemma claim_selected_keeps:
  assumes "ob_state r = StateClaimed" "\<not> lease_over now r"
  shows "keeps r (fst c) (fst (snd (claim_selected hash ph lease tokens now limit c)))"
proof -
  obtain a c1 where a: "reclaim_expired_claims now c = (a, c1)" by (rule prod.exhaust)
  have t1: "keeps r (fst c) (fst c1)"
    using io_keeps [of r "sql_update (\<lambda>r. ob_state r = StateClaimed \<and> lease_over now r) (unclaim now)" c ErrStoreInfra]
      sql_update_keeps [of "\<lambda>r. ob_state r = StateClaimed \<and> lease_over now r" r _ "unclaim now"] assms a
    by (simp add: reclaim_expired_claims_def)
  obtain b c2 where b: "io_call ErrStoreInfra (sql_due (is_due ph now) limit) c1 = (b, c2)" by (rule prod.exhaust)
  have "fst (snd (io_call ErrStoreInfra (sql_due (is_due ph now) limit) c1)) = fst c1"
    by (rule io_call_pure) (simp add: sql_due_def)
  with b have t2: "fst c2 = fst c1" by simp
  show ?thesis
    using t1 t2 claim_each_keeps [OF assms(1), of c2 hash ph "now + lease" now tokens] keeps_trans
    by (auto simp: claim_selected_def a b split: sum.splits)
qed

lemma claim_exact_keeps:
  assumes "ob_state r = StateClaimed"
  shows "keeps r (fst c) (fst (snd (claim_exact hash draw oid v now lease c)))"
proof (cases draw)
  case None
  then show ?thesis by (simp add: claim_exact_def)
next
  case (Some token)
  let ?p = "\<lambda>r. ob_id r = oid \<and> ob_version r = v \<and> ob_state r = StatePending \<and> not_sent_phase (ob_phase r)"
  obtain a c1 where a: "exec_one ?p (claimed_as (hash token) (now + lease) now) c = (a, c1)" by (rule prod.exhaust)
  have "keeps r (fst c) (fst c1)"
    using exec_one_keeps [of ?p r c "claimed_as (hash token) (now + lease) now"] a assms by simp
  with read_claimed_pure [of oid token c1] show ?thesis
    by (simp add: claim_exact_def Some a split: sum.split)
qed

lemma held_token: "held hash oid v token at r \<Longrightarrow> ob_claim_token_hash r = Some (hash token)"
  by (simp add: held_def)

lemma call_keeps_foreign_claim:
  assumes "row_check r" "ob_state r = StateClaimed"
    and "\<And>t. op_instant (fst c) op = Some t \<Longrightarrow> \<not> lease_over t r"
    and "\<And>t. op_presents op = Some t \<Longrightarrow> ob_claim_token_hash r \<noteq> Some (hash t)"
  shows "keeps r (fst c) (fst (outbox_run hash op c))"
proof -
  have "\<not> is_final r" using assms(2) by (simp add: is_final_def)
  then have nt: "ob_terminal_at r = None" "ob_payload_expires_at r = None"
    using final_when_terminal [OF assms(1)] expiring_is_final [OF assms(1)] by blast+
  show ?thesis
    using assms(2-4) nt
    by (cases op)
       (auto simp: create_or_replay_keeps get_by_idempotency_key_pure claim_due_def claim_receipts_due_def
          claim_exact_keeps mark_delivery_phase_def renew_claim_def defer_receipt_def mark_needs_operator_def
          settle_item_def fail_item_def abort_before_send_def complete_local_def mark_audit_reconciled_def
          release_expired_claim_def purge_payload_def
          intro!: exec_one_keeps claim_selected_keeps dest: held_token split: option.splits)
qed

text \<open>
  C26.  A claim is exclusive while its lease lives.  Through every history in which no batch claim
  and no release runs at or after the end of the lease by its own clock, and nobody presents a
  token with the claim's hash, the claimed row does not change at all: nobody else can advance,
  renew, defer, settle, fail, abort, hand over, complete, reclaim or purge it.
\<close>

theorem live_claim_is_exclusive:
  assumes "table_ok (ot_rows db)" and "r \<in> set (ot_rows db)"
    and "ob_state r = StateClaimed" and "ob_claim_token_hash r = Some h" and "ob_claim_lease_until r = Some l"
    and "outbox_reaches hash (\<lambda>db op. (\<forall>t. op_instant db op = Some t \<longrightarrow> t < l)
           \<and> (\<forall>t. op_presents op = Some t \<longrightarrow> hash t \<noteq> h)) db db'"
  shows "r \<in> set (ot_rows db')"
  using assms(6)
proof (induction rule: outbox_reaches.induct)
  case start
  then show ?case using assms(2) .
next
  case (call db' op fs)
  have chk: "row_check r" using assms(1,2) by (simp add: table_ok_def)
  have "\<not> lease_over t r" if "op_instant db' op = Some t" for t
    using call(2) that assms(5) by (auto simp: lease_over_def)
  then have "keeps r (fst (db', fs)) (fst (outbox_run hash op (db', fs)))"
    using call(2) assms(4) by (intro call_keeps_foreign_claim chk assms(3)) auto
  with call(3) show ?case by (simp add: keeps_def)
qed simp

section \<open>Stable replays\<close>

lemma defaults_keep [simp]:
  "ob_key (outbox_defaults fid now item) = ob_key item"
  "ob_fingerprint (outbox_defaults fid now item) = ob_fingerprint item"
  by (simp_all add: outbox_defaults_def Let_def)

lemma new_row_keep [simp]:
  "ob_key (new_row item) = ob_key item" "ob_id (new_row item) = ob_id item"
  "ob_fingerprint (new_row item) = ob_fingerprint item"
  by (simp_all add: new_row_def)

lemma sanitize_keep [simp]:
  "ob_key (sanitize_outbox_replay r) = ob_key r" "ob_id (sanitize_outbox_replay r) = ob_id r"
  "ob_fingerprint (sanitize_outbox_replay r) = ob_fingerprint r"
  by (simp_all add: sanitize_outbox_replay_def)

text \<open>An accepted call leaves, or finds, the row of its key with its fingerprint.\<close>

lemma create_or_replay_row:
  assumes "create_or_replay fid now item c = (Inr (x, rep), c')"
  shows "\<exists>r\<in>set (ot_rows (fst c')). ob_key r = ob_key item \<and> ob_id r = ob_id x \<and> ob_fingerprint r = ob_fingerprint item"
proof -
  let ?i = "outbox_defaults fid now item"
  obtain a c1 where a: "io_call ErrStoreInfra (sql_insert (new_row ?i)) c = (a, c1)" by (rule prod.exhaust)
  obtain n where n: "a = Inr n"
    using assms a by (auto simp: create_or_replay_def Let_def split: if_splits option.splits sum.splits)
  have ins: "sql_insert (new_row ?i) (fst c) = (Inr n, fst c1)" using io_call_ok [OF a [unfolded n]] .
  show ?thesis
  proof (cases "n = 1")
    case True
    then have "x = ?i" "c' = c1"
      using assms a n by (auto simp: create_or_replay_def Let_def split: if_splits option.splits)
    moreover have "new_row ?i \<in> set (ot_rows (fst c1))"
    proof -
      have "fst c1 = snd (sql_insert (new_row ?i) (fst c))" using ins by simp
      then show ?thesis using ins True by (auto simp: sql_insert_def split: if_splits)
    qed
    ultimately show ?thesis by (intro bexI [of _ "new_row ?i"]) simp_all
  next
    case False
    obtain b c2 where b: "io_call ErrStoreInfra (sql_select (\<lambda>r. ob_key r = ob_key item)) c1 = (b, c2)" by (rule prod.exhaust)
    have c2: "fst c2 = fst c1"
      using io_call_pure [of "sql_select (\<lambda>r. ob_key r = ob_key item)" ErrStoreInfra c1] b by (simp add: sql_select_def)
    obtain e where e: "b = Inr (Some e)" "ob_fingerprint e = ob_fingerprint item" "x = sanitize_outbox_replay e" "c' = c2"
      using assms a n b False by (auto simp: create_or_replay_def Let_def split: if_splits option.splits sum.splits)
    have "sql_select (\<lambda>r. ob_key r = ob_key item) (fst c1) = (Inr (Some e), fst c2)"
      using io_call_ok [OF b [unfolded e(1)]] .
    then have "e \<in> set (ot_rows (fst c1)) \<and> ob_key e = ob_key item"
      by (auto simp: sql_select_def find_Some_iff)
    with e c2 show ?thesis by (intro bexI [of _ e]) simp_all
  qed
qed

lemma create_or_replay_known_key:
  assumes "r \<in> set rs" "\<forall>x\<in>set rs. ob_key x = ob_key item \<longrightarrow> x = r" "ob_key r = ob_key item" "ot_rows db = rs"
  shows "fst (snd (create_or_replay fid now item (db, fs))) = db
    \<and> (fst (create_or_replay fid now item (db, fs)) = Inr (sanitize_outbox_replay r, True) \<and> ob_fingerprint item = ob_fingerprint r
       \<or> (\<exists>e. fst (create_or_replay fid now item (db, fs)) = Inl e))"
proof -
  let ?i = "outbox_defaults fid now item"
  let ?q = "sql_select (\<lambda>r. ob_key r = ob_key item)"
  obtain a c1 where a: "io_call ErrStoreInfra (sql_insert (new_row ?i)) (db, fs) = (a, c1)" by (rule prod.exhaust)
  obtain b c2 where b: "io_call ErrStoreInfra ?q c1 = (b, c2)" by (rule prod.exhaust)
  have ins: "snd (sql_insert (new_row ?i) db') = db' \<and> fst (sql_insert (new_row ?i) db') \<noteq> Inr 1" if "ot_rows db' = rs" for db'
    using that assms(1,3) by (auto simp: sql_insert_def)
  have c1: "fst c1 = db"
    using io_call_state [of ErrStoreInfra "sql_insert (new_row ?i)" "(db, fs)"] a ins [of db] assms(4) by auto
  have c2: "fst c2 = db"
    using io_call_pure [of ?q ErrStoreInfra c1] b c1 by (simp add: sql_select_def)
  have n1: "a \<noteq> Inr 1"
    using io_call_ok [of ErrStoreInfra "sql_insert (new_row ?i)" "(db, fs)" 1 c1] a ins [of db] assms(4) by auto
  have sel: "x = r" if x: "b = Inr (Some x)" for x
  proof -
    have "?q (fst c1) = (Inr (Some x), fst c2)" using io_call_ok [OF b [unfolded x]] .
    then have "x \<in> set rs \<and> ob_key x = ob_key item" using c1 assms(4) by (auto simp: sql_select_def find_Some_iff)
    with assms(2) show ?thesis by blast
  qed
  show ?thesis
    using c1 c2 n1 sel
    by (auto simp: create_or_replay_def Let_def a b split: option.splits sum.splits)
qed

text \<open>
  C25.  Replays are stable.  Once a call was accepted under an idempotency key, then after any
  history the same key never creates a second operation and never changes the ledger: a call
  under it is either refused or answered as a replay of that operation, without secrets of the
  payload or the claim, and it is answered only for the same request fingerprint.
\<close>

theorem replays_are_stable:
  assumes "table_ok (ot_rows (fst c0))"
    and "create_or_replay fid now item c0 = (Inr (x, rep), c1)"
    and "outbox_reaches hash any_call (fst c1) db"
    and "ob_key item' = ob_key item"
  shows "fst (snd (create_or_replay fid' now' item' (db, fs))) = db
    \<and> (\<forall>y rep'. fst (create_or_replay fid' now' item' (db, fs)) = Inr (y, rep') \<longrightarrow>
         rep' \<and> ob_id y = ob_id x \<and> ob_fingerprint item' = ob_fingerprint item
         \<and> ob_payload_ciphertext y = [] \<and> ob_claim_token_hash y = None \<and> ob_claim_token y = [])"
proof -
  have ok1: "table_ok (ot_rows (fst c1))"
    using create_or_replay_tracks [of c0 fid now item] assms(1,2) by (simp add: outbox_tracks_def)
  obtain r where r: "r \<in> set (ot_rows (fst c1))" "ob_key r = ob_key item" "ob_id r = ob_id x"
      "ob_fingerprint r = ob_fingerprint item"
    using create_or_replay_row [OF assms(2)] by blast
  have ev: "table_ok (ot_rows db)" "evolves (ot_rows (fst c1)) (ot_rows db)"
    using reaches_evolves [OF assms(3) ok1] by auto
  obtain s where s: "s \<in> set (ot_rows db)" "item_life r s"
    and u: "\<forall>s'\<in>set (ot_rows db). ob_id s' = ob_id r \<or> ob_key s' = ob_key r \<longrightarrow> s' = s"
    using evolves_row [OF ev(2,1) r(1)] by blast
  have k: "ob_key s = ob_key item'" "ob_id s = ob_id x" "ob_fingerprint s = ob_fingerprint item"
    using item_life_same [OF s(2)] r assms(4) by (simp_all add: same_operation_def)
  have u': "\<forall>s'\<in>set (ot_rows db). ob_key s' = ob_key item' \<longrightarrow> s' = s" using u r(2) assms(4) by simp
  from create_or_replay_known_key [OF s(1) u' k(1) refl, of fid' now' fs] k
  show ?thesis by (auto simp: sanitize_outbox_replay_def)
qed

section \<open>Witnesses\<close>

definition demo_fingerprint :: fingerprint where
  "demo_fingerprint = \<lparr>fp_version = ''hmac-sha256-v1'', fp_key_id = ''k'', fp_digest = replicate 43 CHR ''d''\<rparr>"

definition demo_item :: outbox_item where
  "demo_item = \<lparr>ob_id = ''op1'', ob_kind = OperationCrossSystem, ob_key = ''key'', ob_fingerprint = demo_fingerprint,
     ob_payload_key_id = [], ob_payload_nonce = [], ob_payload_ciphertext = [],
     ob_result = \<lparr>ar_code = [], ar_digest = [], ar_payload = None\<rparr>, ob_state = StatePending,
     ob_phase = DeliveryPhaseNotSent, ob_version = 1, ob_claim_token_hash = None, ob_claim_token = [],
     ob_claim_lease_until = None, ob_attempts = 0, ob_next_attempt_at = 0, ob_terminal_at = None,
     ob_audit_reconciled_at = None, ob_payload_expires_at = None, ob_payload_purged_at = None,
     ob_created_at = 0, ob_updated_at = 0\<rparr>"

definition demo_claimed :: outbox_item where
  "demo_claimed = claimed_as ''h'' 100 0 (new_row demo_item)"

lemma demo_checks: "row_check (new_row demo_item)" "row_check demo_claimed"
  by (simp_all add: demo_claimed_def claimed_as_def new_row_def stored_result_def row_check_def demo_item_def
      demo_fingerprint_def payload_entries_def delivery_phase_valid_def)

lemma demo_table_ok: "table_ok [demo_claimed]" "table_ok [new_row demo_item]"
  by (simp_all add: table_ok_def demo_checks)

abbreviation "demo_outbox rs \<equiv> \<lparr>ot_rows = rs, ot_clock = 0\<rparr>"

definition demo_indeterminate :: outbox_item where
  "demo_indeterminate = (bumped 1 demo_claimed)\<lparr>ob_phase := DeliveryPhaseIndeterminate\<rparr>"

lemma demo_mark:
  "mark_delivery_phase (\<lambda>_. ''h'') ''op1'' 2 ''t'' DeliveryPhaseIndeterminate 1 (demo_outbox [demo_claimed], [])
     = (Inr (), (demo_outbox [demo_indeterminate], []))"
proof -
  have h: "held (\<lambda>_. ''h'') ''op1'' 2 ''t'' 1 demo_claimed \<and> ob_phase demo_claimed = DeliveryPhaseNotSent"
    by (simp add: held_def demo_claimed_def claimed_as_def new_row_def stored_result_def demo_item_def lease_live_def)
  have c: "row_check demo_indeterminate"
    using demo_checks(2)
    by (simp add: demo_indeterminate_def bumped_def row_check_def delivery_phase_valid_def demo_claimed_def
        claimed_as_def new_row_def stored_result_def demo_item_def)
  from h c show ?thesis
    by (simp add: mark_delivery_phase_def exec_one_def sql_update_def demo_indeterminate_def)
qed

theorem operation_sent_at_most_once_witness:
  "fst (mark_delivery_phase (\<lambda>_. ''h'') ''op1'' 3 ''t'' DeliveryPhaseIndeterminate 2 (demo_outbox [demo_indeterminate], [])) \<noteq> Inr ()"
  using operation_sent_at_most_once [OF _ demo_mark outbox_reaches.start] demo_table_ok(1) by simp

definition demo_failed :: outbox_item where
  "demo_failed = (finished StateFailed \<lparr>ar_code = ''operation.failed'', ar_digest = [], ar_payload = None\<rparr> 5
     demo_claimed)\<lparr>ob_phase := DeliveryPhaseNotSent\<rparr>"

theorem outcomes_are_final_witness:
  "\<exists>s. ot_rows (fst (outbox_run id (OpGet ''key'') (demo_outbox [demo_failed], []))) = [s] \<and> ob_state s = StateFailed"
proof -
  have ok: "table_ok [demo_failed]"
    by (simp add: table_ok_def row_check_def demo_failed_def finished_def bumped_def released_def stored_result_def
        demo_claimed_def claimed_as_def new_row_def stored_result_def demo_item_def demo_fingerprint_def payload_entries_def
        delivery_phase_valid_def allowed_result_codes_def)
  have t: "ob_terminal_at demo_failed \<noteq> None" "ob_state demo_failed = StateFailed"
    by (simp_all add: demo_failed_def finished_def)
  have r: "outbox_reaches id any_call (demo_outbox [demo_failed]) (fst (outbox_run id (OpGet ''key'') (demo_outbox [demo_failed], [])))"
    by (rule outbox_reaches.call) (simp_all add: outbox_reaches.start)
  have "fst (outbox_run id (OpGet ''key'') (demo_outbox [demo_failed], [])) = demo_outbox [demo_failed]"
    using get_by_idempotency_key_pure [of "''key''" "(demo_outbox [demo_failed], [])"] by simp
  with outcomes_are_final [OF _ _ t(1) r] ok t(2) show ?thesis by auto
qed

theorem success_only_after_send_witness:
  "table_ok (ot_rows (demo_outbox []))"
  using success_only_after_send [OF outbox_reaches.start [of id any_call "demo_outbox []"]] by simp

theorem live_claim_is_exclusive_witness:
  "demo_claimed \<in> set (ot_rows (fst (outbox_run (\<lambda>t. t) (OpClaimDue [Some ''x''] 50 10) (demo_outbox [demo_claimed], []))))"
proof -
  have "outbox_reaches (\<lambda>t. t) (\<lambda>db op. (\<forall>t. op_instant db op = Some t \<longrightarrow> t < 100)
      \<and> (\<forall>t. op_presents op = Some t \<longrightarrow> t \<noteq> ''h'')) (demo_outbox [demo_claimed])
     (fst (outbox_run (\<lambda>t. t) (OpClaimDue [Some ''x''] 50 10) (demo_outbox [demo_claimed], [])))"
    by (rule outbox_reaches.call [OF outbox_reaches.start]) simp
  from live_claim_is_exclusive [OF _ _ _ _ _ this, of demo_claimed] demo_table_ok(1)
  show ?thesis by (simp add: demo_claimed_def claimed_as_def)
qed

lemma demo_outbox_create:
  "create_or_replay ''f'' 0 demo_item (demo_outbox [], []) = (Inr (demo_item, False), (demo_outbox [new_row demo_item], []))"
proof -
  have d: "outbox_defaults ''f'' 0 demo_item = demo_item"
    by (simp add: outbox_defaults_def demo_item_def Let_def zero_time_def StatePending_def DeliveryPhaseNotSent_def)
  have v: "delivery_phase_valid (ob_phase demo_item)" "validate_optional_result (ob_result demo_item) = None"
    by (simp_all add: demo_item_def delivery_phase_valid_def validate_optional_result_def payload_entries_def)
  show ?thesis by (simp add: create_or_replay_def d v sql_insert_def demo_checks(1))
qed

theorem replays_are_stable_witness:
  "fst (snd (create_or_replay ''g'' 9 demo_item (demo_outbox [new_row demo_item], []))) = demo_outbox [new_row demo_item]"
  using replays_are_stable [OF _ demo_outbox_create outbox_reaches.start [of id any_call] refl, of "''g''" 9 "[]"]
  by (simp add: table_ok_def)

end
