(* ===== verification/AdminRoleStore.thy ===== *)
theory AdminRoleStore
  imports AdminOutbox
begin

text \<open>
  The authority database of event administration as the role mutations see it: role bindings,
  account and employment status, the event registry, protected reasons, the operation outbox and
  the audit trail.  The methods are those of \<open>internal/adapters/postgres/admin_role_repo.go\<close>,
  \<open>dreamup_event_registry_repo.go\<close> and the adapters of \<open>admin_unit_of_work.go\<close>, the constraints
  those of migration 00012.
\<close>

section \<open>The tables\<close>

record registered_event =
  rv_event_id :: event_id
  rv_series :: string
  rv_slug :: string
  rv_display_name :: string
  rv_source_version :: string
  rv_authoritative_read_at :: time
  rv_enabled :: bool
  rv_version :: int

record reason_row =
  rr_id :: string
  rr_owner :: user_id
  rr_kind :: string
  rr_consumed_at :: "time option"
  rr_terminal_at :: "time option"
  rr_expires_at :: "time option"
  rr_created_at :: time
  rr_key_id :: string \<comment> \<open>the sealed text; never NULL while it is not purged\<close>
  rr_nonce :: string
  rr_ciphertext :: string

text \<open>A row of \<open>security_events\<close> as \<open>recordAdminMutation\<close> writes it, without its random id and time.\<close>

record admin_event =
  ae_type :: string
  ae_actor :: user_id
  ae_request_id :: string
  ae_operation :: string
  ae_target_id :: string
  ae_reason_id :: string

record admin_db =
  ad_bindings :: "binding list"
  ad_users :: "user_id \<rightharpoonup> string" \<comment> \<open>\<open>users.status\<close>\<close>
  ad_employees :: "user_id \<rightharpoonup> string" \<comment> \<open>\<open>employee_profiles.status\<close>\<close>
  ad_registry :: "registered_event list"
  ad_reasons :: "reason_row list"
  ad_outbox :: "outbox_item list"
  ad_events :: "admin_event list"
  ad_now :: time \<comment> \<open>\<open>NOW()\<close>\<close>

type_synonym admin_conn = "admin_db conn"

definition binding_check :: "binding \<Rightarrow> bool" where
  "binding_check b \<longleftrightarrow>
     (bd_role b = RoleSuperAdmin \<and> bd_scope b = system_scope
      \<or> bd_role b \<in> {RoleSeniorAdmin, RoleAdmin} \<and> sc_kind (bd_scope b) = ScopeEvent
         \<and> 1 \<le> length (sc_event_id (bd_scope b)) \<and> length (sc_event_id (bd_scope b)) \<le> 160
         \<and> sc_event_id (bd_scope b) \<noteq> ''system'')
     \<and> 0 < bd_version b
     \<and> 1 \<le> length (bd_granted_by b) \<and> length (bd_granted_by b) \<le> 160
     \<and> 1 \<le> length (bd_reason_id b) \<and> length (bd_reason_id b) \<le> 160
     \<and> (bd_enabled b \<and> bd_disabled_at b = None
        \<or> \<not> bd_enabled b \<and> (case bd_disabled_at b of None \<Rightarrow> False | Some t \<Rightarrow> bd_created_at b \<le> t))"

section \<open>Statements\<close>

definition sql_insert_binding :: "binding \<Rightarrow> admin_db \<Rightarrow> (role_error + unit) \<times> admin_db" where
  "sql_insert_binding b db =
     (if \<not> binding_check b \<or> ad_users db (bd_user_id b) = None then (Inl ErrRoleInfra, db)
      else if (\<exists>x\<in>set (ad_bindings db). bd_id x = bd_id b)
        \<or> (\<exists>x\<in>set (ad_bindings db). bd_disabled_at x = None \<and> bd_user_id x = bd_user_id b \<and> bd_scope x = bd_scope b)
      then (Inl ErrBindingConflict, db)
      else (Inr (), db\<lparr>ad_bindings := ad_bindings db @ [b]\<rparr>))"

definition sql_update_bindings ::
  "(binding \<Rightarrow> bool) \<Rightarrow> (time \<Rightarrow> binding \<Rightarrow> binding) \<Rightarrow> admin_db \<Rightarrow> (role_error + nat) \<times> admin_db" where
  "sql_update_bindings p f db =
     (if list_all binding_check (map (f (ad_now db)) (filter p (ad_bindings db)))
      then (Inr (length (filter p (ad_bindings db))),
            db\<lparr>ad_bindings := map (\<lambda>b. if p b then f (ad_now db) b else b) (ad_bindings db)\<rparr>)
      else (Inl ErrRoleInfra, db))"

definition sql_find_binding :: "(binding \<Rightarrow> bool) \<Rightarrow> admin_db \<Rightarrow> (role_error + binding option) \<times> admin_db" where
  "sql_find_binding p db = (Inr (List.find p (ad_bindings db)), db)"

definition sql_user_status :: "user_id \<Rightarrow> admin_db \<Rightarrow> (role_error + string option) \<times> admin_db" where
  "sql_user_status u db = (Inr (ad_users db u), db)"

definition sql_employee_status :: "user_id \<Rightarrow> admin_db \<Rightarrow> (role_error + string option) \<times> admin_db" where
  "sql_employee_status u db = (Inr (ad_employees db u), db)"

definition sql_find_event :: "event_id \<Rightarrow> admin_db \<Rightarrow> (role_error + registered_event option) \<times> admin_db" where
  "sql_find_event ev db = (Inr (List.find (\<lambda>x. rv_event_id x = ev) (ad_registry db)), db)"

definition sql_insert_event :: "admin_event \<Rightarrow> admin_db \<Rightarrow> (role_error + unit) \<times> admin_db" where
  "sql_insert_event e db = (Inr (), db\<lparr>ad_events := ad_events db @ [e]\<rparr>)"

text \<open>The CHECK constraints on the times of a reason.\<close>

definition reason_check :: "reason_row \<Rightarrow> bool" where
  "reason_check x \<longleftrightarrow>
     (case rr_consumed_at x of None \<Rightarrow> True | Some t \<Rightarrow> rr_created_at x \<le> t)
     \<and> (case rr_terminal_at x of None \<Rightarrow> True
        | Some t \<Rightarrow> (case rr_consumed_at x of None \<Rightarrow> False | Some c \<Rightarrow> c \<le> t))
     \<and> (case rr_expires_at x of None \<Rightarrow> True
        | Some t \<Rightarrow> (case rr_terminal_at x of None \<Rightarrow> False | Some c \<Rightarrow> c < t))"

definition consumed_reason :: "time \<Rightarrow> time \<Rightarrow> reason_row \<Rightarrow> reason_row" where
  "consumed_reason at expires x = x\<lparr>rr_consumed_at := Some at, rr_terminal_at := Some at, rr_expires_at := Some expires\<rparr>"

definition sql_consume_reason ::
  "string \<Rightarrow> user_id \<Rightarrow> string \<Rightarrow> time \<Rightarrow> time \<Rightarrow> admin_db \<Rightarrow> (role_error + nat) \<times> admin_db" where
  "sql_consume_reason rid owner kind at expires db =
     (let p = (\<lambda>x. rr_id x = rid \<and> rr_owner x = owner \<and> rr_kind x = kind \<and> rr_consumed_at x = None \<and> rr_terminal_at x = None)
      in if \<not> list_all reason_check (map (consumed_reason at expires) (filter p (ad_reasons db))) then (Inl ErrRoleInfra, db)
         else (Inr (length (filter p (ad_reasons db))),
               db\<lparr>ad_reasons := map (\<lambda>x. if p x then consumed_reason at expires x else x) (ad_reasons db)\<rparr>))"

section \<open>Methods\<close>

definition validate_registered_event :: "registered_event \<Rightarrow> role_error option" where
  "validate_registered_event e =
     (if rv_event_id e = [] \<or> rv_series e \<noteq> ''dreamup'' \<or> rv_slug e = [] \<or> rv_source_version e = []
         \<or> rv_authoritative_read_at e = zero_time \<or> rv_version e < 1
      then Some ErrInvalidRegisteredEvent else None)"

definition get_exact :: "event_id \<Rightarrow> admin_conn \<Rightarrow> (role_error + registered_event) \<times> admin_conn" where
  "get_exact ev c =
     (case io_call ErrRoleInfra (sql_find_event ev) c of
        (Inl e, c1) \<Rightarrow> (Inl e, c1)
      | (Inr None, c1) \<Rightarrow> (Inl ErrEventRegistryNotFound, c1)
      | (Inr (Some x), c1) \<Rightarrow>
          if \<not> rv_enabled x then (Inl ErrEventRegistryDisabled, c1)
          else case validate_registered_event x of Some e \<Rightarrow> (Inl e, c1) | None \<Rightarrow> (Inr x, c1))"

definition revalidate ::
  "user_id \<Rightarrow> event_id \<Rightarrow> role_management_decision \<Rightarrow> admin_conn \<Rightarrow> (role_error + unit) \<times> admin_conn" where
  "revalidate actor ev d c =
     (if actor = [] \<or> \<not> rmd_allowed d \<or> rmd_binding_id d = [] \<or> rmd_binding_version d \<le> 0
         \<or> validate_role_scope (rmd_role d) (rmd_scope d) \<noteq> None
      then (Inl ErrRoleMutationForbidden, c)
      else if sc_kind (rmd_scope d) = ScopeEvent \<and> sc_event_id (rmd_scope d) \<noteq> ev then (Inl ErrRoleMutationForbidden, c)
      else case io_call ErrRoleInfra (sql_user_status actor) c of
        (Inl e, c1) \<Rightarrow> (Inl e, c1)
      | (Inr account, c1) \<Rightarrow>
          if account \<noteq> Some ''active'' then (Inl ErrRoleMutationForbidden, c1)
          else case io_call ErrRoleInfra (sql_employee_status actor) c1 of
            (Inl e, c2) \<Rightarrow> (Inl e, c2)
          | (Inr employee, c2) \<Rightarrow>
              if employee \<noteq> None \<and> employee \<noteq> Some ''active'' then (Inl ErrRoleMutationForbidden, c2)
              else case io_call ErrRoleInfra (sql_find_binding (\<lambda>b. bd_id b = rmd_binding_id d \<and> bd_user_id b = actor
                       \<and> bd_version b = rmd_binding_version d \<and> bd_role b = rmd_role d \<and> bd_scope b = rmd_scope d
                       \<and> bd_enabled b \<and> bd_disabled_at b = None)) c2 of
                (Inl e, c3) \<Rightarrow> (Inl e, c3)
              | (Inr None, c3) \<Rightarrow> (Inl ErrRoleMutationForbidden, c3)
              | (Inr (Some b), c3) \<Rightarrow> (Inr (), c3))"

definition get_for_scope :: "user_id \<Rightarrow> scope \<Rightarrow> admin_conn \<Rightarrow> (role_error + binding) \<times> admin_conn" where
  "get_for_scope u s c =
     (case scope_key s of
        Inl e \<Rightarrow> (Inl e, c)
      | Inr _ \<Rightarrow>
          (case io_call ErrRoleInfra (sql_find_binding (\<lambda>b. bd_user_id b = u \<and> bd_scope b = s \<and> bd_disabled_at b = None)) c of
             (Inl e, c1) \<Rightarrow> (Inl e, c1)
           | (Inr None, c1) \<Rightarrow> (Inl ErrBindingNotFound, c1)
           | (Inr (Some b), c1) \<Rightarrow> (Inr b, c1)))"

definition record_admin_mutation ::
  "mutation_audit \<Rightarrow> string \<Rightarrow> string \<Rightarrow> admin_conn \<Rightarrow> (role_error + unit) \<times> admin_conn" where
  "record_admin_mutation audit event_type target c =
     (if ma_actor_id audit = [] \<or> ma_request_id audit = [] \<or> ma_action audit = [] \<or> ma_reason_id audit = []
      then (Inl ErrRoleInfra, c)
      else io_call ErrRoleInfra (sql_insert_event \<lparr>ae_type = event_type, ae_actor = ma_actor_id audit,
             ae_request_id = ma_request_id audit, ae_operation = ma_action audit, ae_target_id = target,
             ae_reason_id = ma_reason_id audit\<rparr>) c)"

definition created_binding :: "time \<Rightarrow> binding \<Rightarrow> binding" where
  "created_binding now b =
     (let created = (if bd_created_at b = zero_time then now else bd_created_at b)
      in b\<lparr>bd_version := (if bd_version b = 0 then 1 else bd_version b), bd_created_at := created,
           bd_updated_at := (if bd_updated_at b = zero_time then created else bd_updated_at b), bd_enabled := True,
           bd_disabled_at := None\<rparr>)"

definition create_binding :: "time \<Rightarrow> binding \<Rightarrow> mutation_audit \<Rightarrow> admin_conn \<Rightarrow> (role_error + binding) \<times> admin_conn" where
  "create_binding now b0 audit c =
     (case validate_role_scope (bd_role b0) (bd_scope b0) of
        Some e \<Rightarrow> (Inl e, c)
      | None \<Rightarrow>
          (let b = created_binding now b0
           in case io_call ErrRoleInfra (sql_insert_binding b) c of
                (Inl e, c1) \<Rightarrow> (Inl e, c1)
              | (Inr _, c1) \<Rightarrow>
                  (case record_admin_mutation audit ''admin.role.created'' (bd_id b) c1 of
                     (Inl e, c2) \<Rightarrow> (Inl e, c2)
                   | (Inr _, c2) \<Rightarrow> (Inr b, c2))))"

text \<open>\<open>scanAdminBinding\<close> of one row by its id; no row is a driver error here.\<close>

definition reread_binding :: "string \<Rightarrow> admin_conn \<Rightarrow> (role_error + binding) \<times> admin_conn" where
  "reread_binding bid c =
     (case io_call ErrRoleInfra (sql_find_binding (\<lambda>b. bd_id b = bid)) c of
        (Inl e, c1) \<Rightarrow> (Inl e, c1)
      | (Inr None, c1) \<Rightarrow> (Inl ErrRoleInfra, c1)
      | (Inr (Some b), c1) \<Rightarrow> (Inr b, c1))"

definition changed_role :: "binding \<Rightarrow> mutation_audit \<Rightarrow> time \<Rightarrow> binding \<Rightarrow> binding" where
  "changed_role next audit now b = b\<lparr>bd_role := bd_role next, bd_version := bd_version b + 1, bd_updated_at := now,
     bd_granted_by := ma_actor_id audit, bd_reason_id := ma_reason_id audit\<rparr>"

definition update_binding ::
  "binding \<Rightarrow> int \<Rightarrow> mutation_audit \<Rightarrow> admin_conn \<Rightarrow> (role_error + binding) \<times> admin_conn" where
  "update_binding next expected audit c =
     (case validate_role_scope (bd_role next) (bd_scope next) of
        Some e \<Rightarrow> (Inl e, c)
      | None \<Rightarrow>
          (case io_call ErrRoleInfra (sql_find_binding (\<lambda>b. bd_id b = bd_id next)) c of
             (Inl e, c1) \<Rightarrow> (Inl e, c1)
           | (Inr None, c1) \<Rightarrow> (Inl ErrBindingNotFound, c1)
           | (Inr (Some current), c1) \<Rightarrow>
               if bd_version current \<noteq> expected \<or> validate_binding_replacement current next \<noteq> None
               then (Inl ErrBindingConflict, c1)
               else case io_call ErrRoleInfra (sql_update_bindings (\<lambda>b. bd_id b = bd_id next \<and> bd_version b = expected
                        \<and> bd_disabled_at b = None) (changed_role next audit)) c1 of
                 (Inl e, c2) \<Rightarrow> (Inl e, c2)
               | (Inr n, c2) \<Rightarrow>
                   if n \<noteq> 1 then (Inl ErrBindingConflict, c2)
                   else case record_admin_mutation audit ''admin.role.updated'' (bd_id next) c2 of
                     (Inl e, c3) \<Rightarrow> (Inl e, c3)
                   | (Inr _, c3) \<Rightarrow> reread_binding (bd_id next) c3))"

definition disabled_binding :: "mutation_audit \<Rightarrow> time \<Rightarrow> binding \<Rightarrow> binding" where
  "disabled_binding audit now b = b\<lparr>bd_enabled := False, bd_disabled_at := Some now, bd_version := bd_version b + 1,
     bd_updated_at := now, bd_reason_id := ma_reason_id audit\<rparr>"

definition disable_binding ::
  "string \<Rightarrow> int \<Rightarrow> mutation_audit \<Rightarrow> admin_conn \<Rightarrow> (role_error + binding) \<times> admin_conn" where
  "disable_binding bid expected audit c =
     (case io_call ErrRoleInfra (sql_update_bindings (\<lambda>b. bd_id b = bid \<and> bd_version b = expected \<and> bd_disabled_at b = None)
             (disabled_binding audit)) c of
        (Inl e, c1) \<Rightarrow> (Inl e, c1)
      | (Inr n, c1) \<Rightarrow>
          if n \<noteq> 1 then (Inl ErrBindingConflict, c1)
          else case record_admin_mutation audit ''admin.role.disabled'' bid c1 of
            (Inl e, c2) \<Rightarrow> (Inl e, c2)
          | (Inr _, c2) \<Rightarrow> reread_binding bid c2)"

definition consume_owned ::
  "string \<Rightarrow> user_id \<Rightarrow> string \<Rightarrow> time \<Rightarrow> time \<Rightarrow> admin_conn \<Rightarrow> (role_error + unit) \<times> admin_conn" where
  "consume_owned rid owner kind at expires c =
     (if rid = [] \<or> owner = [] \<or> kind = [] \<or> \<not> at < expires then (Inl ErrReasonConflict, c)
      else case io_call ErrRoleInfra (sql_consume_reason rid owner kind at expires) c of
        (Inl e, c1) \<Rightarrow> (Inl e, c1)
      | (Inr n, c1) \<Rightarrow> if n \<noteq> 1 then (Inl ErrReasonConflict, c1) else (Inr (), c1))"

text \<open>The outbox repository on the transaction of the unit of work.\<close>

definition on_outbox ::
  "(outbox_conn \<Rightarrow> (store_error + 'a) \<times> outbox_conn) \<Rightarrow> admin_conn \<Rightarrow> (store_error + 'a) \<times> admin_conn" where
  "on_outbox f c =
     (case f (\<lparr>ot_rows = ad_outbox (fst c), ot_clock = ad_now (fst c)\<rparr>, snd c) of
        (r, c1) \<Rightarrow> (r, ((fst c)\<lparr>ad_outbox := ot_rows (fst c1)\<rparr>, snd c1)))"

definition map_role_receipt_error :: "store_error \<Rightarrow> role_error" where
  "map_role_receipt_error e =
     (if e = ErrIdempotencyConflict then ErrRoleIdempotencyConflict
      else if e = ErrInvalidOperationResult then ErrInvalidStoredRoleResult else ErrRoleInfra)"

record local_operation_receipt =
  lr_id :: string
  lr_key :: string
  lr_fingerprint :: fingerprint
  lr_result :: allowlisted_result
  lr_state :: string
  lr_version :: int
  lr_created_at :: time
  lr_terminal_at :: "time option"

definition from_adminstore_receipt :: "outbox_item \<Rightarrow> local_operation_receipt" where
  "from_adminstore_receipt i = \<lparr>lr_id = ob_id i, lr_key = ob_key i, lr_fingerprint = ob_fingerprint i,
     lr_result = ob_result i, lr_state = ob_state i, lr_version = ob_version i, lr_created_at = ob_created_at i,
     lr_terminal_at = ob_terminal_at i\<rparr>"

definition receipt_item :: "local_operation_receipt \<Rightarrow> outbox_item" where
  "receipt_item r = \<lparr>ob_id = lr_id r, ob_kind = OperationLocal, ob_key = lr_key r, ob_fingerprint = lr_fingerprint r,
     ob_payload_key_id = [], ob_payload_nonce = [], ob_payload_ciphertext = [], ob_result = lr_result r,
     ob_state = lr_state r, ob_phase = [], ob_version = lr_version r, ob_claim_token_hash = None, ob_claim_token = [],
     ob_claim_lease_until = None, ob_attempts = 0, ob_next_attempt_at = zero_time, ob_terminal_at = None,
     ob_audit_reconciled_at = None, ob_payload_expires_at = None, ob_payload_purged_at = None,
     ob_created_at = lr_created_at r, ob_updated_at = lr_created_at r\<rparr>"

definition receipt_create_or_replay ::
  "string \<Rightarrow> time \<Rightarrow> local_operation_receipt \<Rightarrow> admin_conn
     \<Rightarrow> (role_error + local_operation_receipt \<times> bool) \<times> admin_conn" where
  "receipt_create_or_replay fresh_id now r c =
     (case on_outbox (create_or_replay fresh_id now (receipt_item r)) c of
        (Inl e, c1) \<Rightarrow> (Inl (map_role_receipt_error e), c1)
      | (Inr (item, replay), c1) \<Rightarrow> (Inr (from_adminstore_receipt item, replay), c1))"

definition receipt_complete_local ::
  "string \<Rightarrow> int \<Rightarrow> allowlisted_result \<Rightarrow> time \<Rightarrow> admin_conn \<Rightarrow> (role_error + unit) \<times> admin_conn" where
  "receipt_complete_local rid expected result at c =
     (case on_outbox (complete_local rid expected result at) c of
        (Inl e, c1) \<Rightarrow> (Inl (map_role_receipt_error e), c1)
      | (Inr _, c1) \<Rightarrow> (Inr (), c1))"

end
