(* ===== verification/AdminRoles.thy ===== *)
theory AdminRoles
  imports AdminRoleStore OutboxProtocol CapabilityResolver
begin

text \<open>
  The mutation of event role bindings: the role-management gate
  (\<open>internal/permissions/scoped.go\<close>), the principal it judges
  (\<open>internal/adapters/postgres/permission_context.go\<close>) and the service that runs a mutation, its
  audit, the consumption of its reason and its receipt in one transaction
  (\<open>internal/adminroles/service.go\<close>).
\<close>

section \<open>The gate\<close>

definition check_role_management ::
  "'w perm_env \<Rightarrow> user_id \<Rightarrow> event_id \<Rightarrow> 'w \<Rightarrow> (perm_error + role_management_decision) \<times> 'w" where
  "check_role_management E actor ev w =
     (if trim_space ev = [] then (Inr no_role_management, w)
      else case authorizer_check E actor ActionRoleManage
             \<lparr>re_kind = ''role_binding'', re_id = ev, re_event_id = ev, re_attributes = Map.empty\<rparr> w of
        (Inl e, w1) \<Rightarrow> (Inl e, w1)
      | (Inr d, w1) \<Rightarrow>
          if \<not> sd_allowed d then (Inr no_role_management, w1)
          else (Inr \<lparr>rmd_allowed = True, rmd_role = sd_role d, rmd_binding_id = sd_binding_id d,
                  rmd_binding_version = sd_binding_version d,
                  rmd_scope = (if sd_role d = RoleSuperAdmin \<or> sd_role d = RoleTopAdmin
                               then system_scope else event_scope ev)\<rparr>, w1))"

text \<open>What the authorizer grants is within the fixed matrix, whatever the client answers.\<close>

lemma check_with_binding_role:
  "check_with_binding E u a re pr b w = (Inr d, w') \<Longrightarrow> sd_allowed d \<Longrightarrow> fixed_role_allows (sd_role d) a"
  by (auto simp: check_with_binding_def not_allowed_def split: if_splits prod.splits sum.splits)

lemma authorizer_role:
  "authorizer_check E u a re w = (Inr d, w') \<Longrightarrow> sd_allowed d \<Longrightarrow> fixed_role_allows (sd_role d) a"
  by (auto simp: authorizer_check_def not_allowed_def dest: check_with_binding_role
      split: option.splits if_splits prod.splits sum.splits)

lemma role_manage_is_top: "fixed_role_allows ro ActionRoleManage \<Longrightarrow> ro = RoleSuperAdmin \<or> ro = RoleTopAdmin"
  by (auto simp: fixed_role_allows_def admin_event_actions_def senior_event_actions_def action_defs split: if_splits)

text \<open>The environment of the gate over the authority database, without writes.\<close>

record principal_info =
  pi_personas :: "string list"
  pi_department_id :: string
  pi_department_name :: string
  pi_challenge_version :: int

definition active_system_super :: "admin_db \<Rightarrow> user_id \<Rightarrow> bool" where
  "active_system_super db u \<longleftrightarrow> (\<exists>b\<in>set (ad_bindings db). bd_user_id b = u
     \<and> (bd_role b = RoleSuperAdmin \<or> bd_role b = RoleTopAdmin) \<and> bd_scope b = system_scope
     \<and> bd_enabled b \<and> bd_disabled_at b = None)"

definition permission_context_system_role :: "string \<Rightarrow> string \<Rightarrow> bool \<Rightarrow> string" where
  "permission_context_system_role account employee super =
     (if super \<and> account = ''active'' \<and> employee \<noteq> ''offboarding'' then ''super_admin'' else [])"

definition permission_context_roles :: "string list \<Rightarrow> string \<Rightarrow> string \<Rightarrow> bool \<Rightarrow> string list" where
  "permission_context_roles personas account employee super =
     global_principal_roles (''authenticated'' # personas) (super \<and> account = ''active'' \<and> employee \<noteq> ''offboarding'')"

definition get_permission_principal ::
  "(user_id \<Rightarrow> principal_info) \<Rightarrow> user_id \<Rightarrow> admin_conn \<Rightarrow> (perm_error + principal_context) \<times> admin_conn" where
  "get_permission_principal info u c =
     (case io_call ErrPermInfra (\<lambda>db. (Inr (ad_users db u, ad_employees db u, active_system_super db u), db)) c of
        (Inl e, c1) \<Rightarrow> (Inl e, c1)
      | (Inr (None, _), c1) \<Rightarrow> (Inl ErrPrincipalNotFound, c1)
      | (Inr (Some status, employee, super), c1) \<Rightarrow>
          (let es = (case employee of None \<Rightarrow> [] | Some x \<Rightarrow> x)
           in (Inr \<lparr>pc_roles = permission_context_roles (pi_personas (info u)) status es super,
                 pc_attrs = [''userId'' \<mapsto> AttrString u, ''accountStatus'' \<mapsto> AttrString status,
                    ''personas'' \<mapsto> AttrString (str_join (pi_personas (info u)) '',''),
                    ''departmentId'' \<mapsto> AttrString (pi_department_id (info u)),
                    ''department'' \<mapsto> AttrString (pi_department_name (info u)),
                    ''employeeStatus'' \<mapsto> AttrString es,
                    ''eventRole'' \<mapsto> AttrString (permission_context_system_role status es super)],
                 pc_challenge_version = pi_challenge_version (info u)\<rparr>, c1)))"

definition authority_env ::
  "(user_id \<Rightarrow> principal_info) \<Rightarrow> (string \<Rightarrow> string \<Rightarrow> perm_error + published_policy list)
     \<Rightarrow> (wire_request \<Rightarrow> perm_error + wire_result list) \<Rightarrow> string \<Rightarrow> admin_conn perm_env" where
  "authority_env info pol post rid = \<lparr>pe_complete = True, pe_get_for_scope = get_for_scope,
     pe_principal = get_permission_principal info, pe_list_published = (\<lambda>a s c. (pol a s, c)),
     pe_client = cerbos_check (\<lambda>q c. (post q, c)), pe_request_id = rid\<rparr>"

section \<open>The service\<close>

record role_service =
  rs_wired :: bool \<comment> \<open>unit of work, fingerprinter, clock and id source are there\<close>
  rs_check :: "(user_id \<Rightarrow> event_id \<Rightarrow> admin_conn \<Rightarrow> (perm_error + role_management_decision) \<times> admin_conn) option"
  rs_fingerprint :: "string \<Rightarrow> string \<Rightarrow> fingerprint option"
  rs_marshal :: "(string \<times> string) list \<Rightarrow> string"
  rs_digest :: "string \<Rightarrow> string"
  rs_now :: time
  rs_new_id :: "string \<Rightarrow> string option"
  rs_two_years_after :: "time \<Rightarrow> time"
  rs_fresh_id :: string

record role_mutation_result =
  rm_binding_id :: string
  rm_version :: int

record role_input =
  ri_actor :: user_id
  ri_target :: user_id
  ri_event :: event_id
  ri_reason :: string
  ri_request :: string
  ri_key :: string

definition valid_idempotency_key :: "string \<Rightarrow> bool" where
  "valid_idempotency_key k \<longleftrightarrow> 32 \<le> length k \<and> length k \<le> 160 \<and> list_all is_token_char k"

definition validate_common :: "role_input \<Rightarrow> role_error option" where
  "validate_common i =
     (if ri_actor i = [] \<or> ri_target i = [] \<or> trim_space (ri_event i) = [] \<or> trim_space (ri_reason i) = []
         \<or> trim_space (ri_request i) = [] then Some ErrInvalidRoleMutation
      else if ri_actor i = ri_target i then Some ErrSelfRoleMutation
      else if \<not> valid_idempotency_key (ri_key i) then Some ErrInvalidIdempotencyKey
      else None)"

definition validate_ordinary_role :: "role \<Rightarrow> role_error option" where
  "validate_ordinary_role ro =
     (if ro = RoleSuperAdmin \<or> ro = RoleTopAdmin then Some ErrOrdinarySuperAdminMutation
      else if ro \<noteq> RoleAdmin \<and> ro \<noteq> RoleSeniorAdmin then Some ErrInvalidRoleMutation
      else None)"

definition mutation_audit_of :: "role_input \<Rightarrow> mutation_audit" where
  "mutation_audit_of i = \<lparr>ma_actor_id = ri_actor i, ma_reason_id = ri_reason i, ma_request_id = ri_request i,
     ma_action = ''event.role.manage''\<rparr>"

definition encode_stored_role_result :: "(string \<Rightarrow> string) \<Rightarrow> string \<Rightarrow> string \<Rightarrow> int \<Rightarrow> allowlisted_result" where
  "encode_stored_role_result digest code bid v = \<lparr>ar_code = code,
     ar_digest = digest (code @ [CHR 0x00] @ bid @ [CHR 0x00] @ itoa v),
     ar_payload = Some [(''binding_id'', bid), (''version'', itoa v)]\<rparr>"

definition payload_get :: "(string \<times> string) list \<Rightarrow> string \<Rightarrow> string" where
  "payload_get kvs k = (case map_of kvs k of None \<Rightarrow> [] | Some v \<Rightarrow> v)"

definition decode_stored_role_result ::
  "(string \<Rightarrow> string) \<Rightarrow> allowlisted_result \<Rightarrow> string \<Rightarrow> role_error + role_mutation_result" where
  "decode_stored_role_result digest res want =
     (case ar_payload res of
        None \<Rightarrow> Inl ErrInvalidStoredRoleResult
      | Some kvs \<Rightarrow>
          if ar_code res \<noteq> want then Inl ErrInvalidStoredRoleResult
          else case parse_int64 (payload_get kvs ''version'') of
            None \<Rightarrow> Inl ErrInvalidStoredRoleResult
          | Some v \<Rightarrow>
              if \<not> has_prefix (payload_get kvs ''binding_id'') ''arb_'' \<or> v \<le> 0 then Inl ErrInvalidStoredRoleResult
              else if ar_digest res \<noteq> ar_digest (encode_stored_role_result digest want (payload_get kvs ''binding_id'') v)
              then Inl ErrInvalidStoredRoleResult
              else Inr \<lparr>rm_binding_id = payload_get kvs ''binding_id'', rm_version = v\<rparr>)"

definition role_authorize ::
  "role_service \<Rightarrow> role_input \<Rightarrow> admin_conn \<Rightarrow> (role_error + role_management_decision) \<times> admin_conn" where
  "role_authorize S i c =
     (case rs_check S of
        None \<Rightarrow> (Inl ErrRoleMutationForbidden, c)
      | Some chk \<Rightarrow>
          (case chk (ri_actor i) (ri_event i) c of
             (Inl e, c1) \<Rightarrow> (Inl ErrRoleInfra, c1)
           | (Inr d, c1) \<Rightarrow>
               if \<not> rmd_allowed d \<or> trim_space (rmd_binding_id d) = [] \<or> rmd_binding_version d \<le> 0
                  \<or> validate_role_scope (rmd_role d) (rmd_scope d) \<noteq> None
               then (Inl ErrRoleMutationForbidden, c1) else (Inr d, c1)))"

type_synonym role_mutation = "time \<Rightarrow> admin_conn \<Rightarrow> (role_error + binding) \<times> admin_conn"

text \<open>The callback of \<open>WithinRoleMutation\<close>.\<close>

definition execute_body ::
  "role_service \<Rightarrow> role_input \<Rightarrow> fingerprint \<Rightarrow> string \<Rightarrow> string \<Rightarrow> role_mutation \<Rightarrow> role_management_decision
     \<Rightarrow> admin_conn \<Rightarrow> (role_error + role_mutation_result) \<times> admin_conn" where
  "execute_body S i fp rid code mutate auth c =
     (case get_exact (ri_event i) c of
        (Inl e, c1) \<Rightarrow> (Inl e, c1)
      | (Inr _, c1) \<Rightarrow>
     (case revalidate (ri_actor i) (ri_event i) auth c1 of
        (Inl e, c2) \<Rightarrow> (Inl e, c2)
      | (Inr _, c2) \<Rightarrow>
     (case receipt_create_or_replay (rs_fresh_id S) (rs_now S) \<lparr>lr_id = rid, lr_key = ri_key i, lr_fingerprint = fp,
              lr_result = \<lparr>ar_code = [], ar_digest = [], ar_payload = None\<rparr>, lr_state = ''pending'', lr_version = 1,
              lr_created_at = rs_now S, lr_terminal_at = None\<rparr> c2 of
        (Inl e, c3) \<Rightarrow> (Inl e, c3)
      | (Inr (receipt, True), c3) \<Rightarrow> (decode_stored_role_result (rs_digest S) (lr_result receipt) code, c3)
      | (Inr (receipt, False), c3) \<Rightarrow>
     (case mutate (rs_now S) c3 of
        (Inl e, c4) \<Rightarrow> (Inl e, c4)
      | (Inr b, c4) \<Rightarrow>
          if bd_id b = [] \<or> bd_version b \<le> 0 then (Inl ErrInvalidStoredRoleResult, c4)
          else
     (case consume_owned (ri_reason i) (ri_actor i) ''role'' (rs_now S) (rs_two_years_after S (rs_now S)) c4 of
        (Inl e, c5) \<Rightarrow> (Inl e, c5)
      | (Inr _, c5) \<Rightarrow>
     (case receipt_complete_local (lr_id receipt) (lr_version receipt)
              (encode_stored_role_result (rs_digest S) code (bd_id b) (bd_version b)) (rs_now S) c5 of
        (Inl e, c6) \<Rightarrow> (Inl e, c6)
      | (Inr _, c6) \<Rightarrow> (Inr \<lparr>rm_binding_id = bd_id b, rm_version = bd_version b\<rparr>, c6)))))))"

definition execute ::
  "role_service \<Rightarrow> string \<Rightarrow> role_input \<Rightarrow> string \<Rightarrow> string \<Rightarrow> role_mutation \<Rightarrow> role_management_decision
     \<Rightarrow> admin_conn \<Rightarrow> (role_error + role_mutation_result) \<times> admin_conn" where
  "execute S purpose i canonical code mutate auth c =
     (if \<not> rs_wired S then (Inl ErrInvalidRoleMutation, c)
      else case rs_fingerprint S purpose canonical of
        None \<Rightarrow> (Inl ErrRoleInfra, c)
      | Some fp \<Rightarrow>
          if fp_version fp = [] \<or> fp_key_id fp = [] \<or> fp_digest fp = [] then (Inl ErrInvalidRoleMutation, c)
          else case rs_new_id S ''aop_'' of
            None \<Rightarrow> (Inl ErrRoleInfra, c)
          | Some rid \<Rightarrow> tx_run ErrRoleInfra (execute_body S i fp rid code mutate auth) c)"

definition create_mutation :: "role_service \<Rightarrow> role_input \<Rightarrow> role \<Rightarrow> role_mutation" where
  "create_mutation S i ro now c =
     (case rs_new_id S ''arb_'' of
        None \<Rightarrow> (Inl ErrRoleInfra, c)
      | Some bid \<Rightarrow> create_binding (ad_now (fst c)) \<lparr>bd_id = bid, bd_user_id = ri_target i, bd_role = ro,
           bd_scope = event_scope (ri_event i), bd_enabled = True, bd_version = 1, bd_granted_by = ri_actor i,
           bd_reason_id = ri_reason i, bd_disabled_at = None, bd_created_at = now, bd_updated_at = now\<rparr>
           (mutation_audit_of i) c)"

definition create_role ::
  "role_service \<Rightarrow> role_input \<Rightarrow> role \<Rightarrow> admin_conn \<Rightarrow> (role_error + role_mutation_result) \<times> admin_conn" where
  "create_role S i ro c =
     (case validate_common i of
        Some e \<Rightarrow> (Inl e, c)
      | None \<Rightarrow>
     (case validate_ordinary_role ro of
        Some e \<Rightarrow> (Inl e, c)
      | None \<Rightarrow>
     (case role_authorize S i c of
        (Inl e, c1) \<Rightarrow> (Inl e, c1)
      | (Inr auth, c1) \<Rightarrow>
          execute S ''adminroles.create'' i
            (rs_marshal S [(''Operation'', ''create''), (''ActorID'', ri_actor i), (''TargetUserID'', ri_target i),
               (''EventID'', ri_event i), (''Role'', ro), (''ReasonID'', ri_reason i)])
            ''role.created'' (create_mutation S i ro) auth c1)))"

definition update_mutation :: "role_input \<Rightarrow> string \<Rightarrow> role \<Rightarrow> int \<Rightarrow> role_mutation" where
  "update_mutation i bid ro expected now c =
     (case get_for_scope (ri_target i) (event_scope (ri_event i)) c of
        (Inl e, c1) \<Rightarrow> (Inl e, c1)
      | (Inr current, c1) \<Rightarrow>
          if bd_id current \<noteq> bid \<or> bd_version current \<noteq> expected then (Inl ErrBindingConflict, c1)
          else if bd_role current = RoleSuperAdmin \<or> bd_role current = RoleTopAdmin
          then (Inl ErrOrdinarySuperAdminMutation, c1)
          else update_binding (current\<lparr>bd_role := ro, bd_granted_by := ri_actor i, bd_reason_id := ri_reason i,
                 bd_updated_at := now\<rparr>) expected (mutation_audit_of i) c1)"

definition update_role ::
  "role_service \<Rightarrow> role_input \<Rightarrow> string \<Rightarrow> role \<Rightarrow> int \<Rightarrow> admin_conn \<Rightarrow> (role_error + role_mutation_result) \<times> admin_conn" where
  "update_role S i bid ro expected c =
     (if expected \<le> 0 then (Inl ErrIfMatchRequired, c)
      else case validate_common i of
        Some e \<Rightarrow> (Inl e, c)
      | None \<Rightarrow>
          if trim_space bid = [] then (Inl ErrInvalidRoleMutation, c)
          else case validate_ordinary_role ro of
            Some e \<Rightarrow> (Inl e, c)
          | None \<Rightarrow>
              (case role_authorize S i c of
                 (Inl e, c1) \<Rightarrow> (Inl e, c1)
               | (Inr auth, c1) \<Rightarrow>
                   execute S ''adminroles.update'' i
                     (rs_marshal S [(''Operation'', ''update''), (''ActorID'', ri_actor i), (''TargetUserID'', ri_target i),
                        (''BindingID'', bid), (''EventID'', ri_event i), (''Role'', ro), (''ReasonID'', ri_reason i),
                        (''ExpectedVersion'', itoa expected)])
                     ''role.updated'' (update_mutation i bid ro expected) auth c1))"

definition disable_mutation :: "role_input \<Rightarrow> string \<Rightarrow> int \<Rightarrow> role_mutation" where
  "disable_mutation i bid expected now c =
     (case get_for_scope (ri_target i) (event_scope (ri_event i)) c of
        (Inl e, c1) \<Rightarrow> (Inl e, c1)
      | (Inr current, c1) \<Rightarrow>
          if bd_id current \<noteq> bid \<or> bd_version current \<noteq> expected then (Inl ErrBindingConflict, c1)
          else if bd_role current = RoleSuperAdmin \<or> bd_role current = RoleTopAdmin
          then (Inl ErrOrdinarySuperAdminMutation, c1)
          else disable_binding (bd_id current) expected (mutation_audit_of i) c1)"

definition disable_role ::
  "role_service \<Rightarrow> role_input \<Rightarrow> string \<Rightarrow> int \<Rightarrow> admin_conn \<Rightarrow> (role_error + role_mutation_result) \<times> admin_conn" where
  "disable_role S i bid expected c =
     (if expected \<le> 0 then (Inl ErrIfMatchRequired, c)
      else case validate_common i of
        Some e \<Rightarrow> (Inl e, c)
      | None \<Rightarrow>
          if trim_space bid = [] then (Inl ErrInvalidRoleMutation, c)
          else case role_authorize S i c of
            (Inl e, c1) \<Rightarrow> (Inl e, c1)
          | (Inr auth, c1) \<Rightarrow>
              execute S ''adminroles.disable'' i
                (rs_marshal S [(''Operation'', ''disable''), (''ActorID'', ri_actor i), (''TargetUserID'', ri_target i),
                   (''BindingID'', bid), (''EventID'', ri_event i), (''ReasonID'', ri_reason i),
                   (''ExpectedVersion'', itoa expected)])
                ''role.disabled'' (disable_mutation i bid expected) auth c1)"

datatype role_request =
  CreateRole role_input role
  | UpdateRole role_input string role int
  | DisableRole role_input string int

fun request_input :: "role_request \<Rightarrow> role_input" where
  "request_input (CreateRole i ro) = i"
| "request_input (UpdateRole i bid ro v) = i"
| "request_input (DisableRole i bid v) = i"

fun request_run :: "role_service \<Rightarrow> role_request \<Rightarrow> admin_conn \<Rightarrow> (role_error + role_mutation_result) \<times> admin_conn" where
  "request_run S (CreateRole i ro) = create_role S i ro"
| "request_run S (UpdateRole i bid ro v) = update_role S i bid ro v"
| "request_run S (DisableRole i bid v) = disable_role S i bid v"

end
