(* ===== verification/AdminRoleProperties.thy ===== *)
theory AdminRoleProperties
  imports AdminRoles
begin

text \<open>
  What a role mutation does to the authority database.  The service relies on its gate through a
  contract (a locale), which the gate over the decision point and the database fulfils; the rest
  is the transaction: it changes one ordinary binding of the target, or nothing.
\<close>

section \<open>The gate's contract\<close>

locale role_gate =
  fixes chk :: "user_id \<Rightarrow> event_id \<Rightarrow> admin_conn \<Rightarrow> (perm_error + role_management_decision) \<times> admin_conn"
  assumes gate_reads: "fst (snd (chk u ev c)) = fst c"
    and gate_role: "chk u ev c = (Inr d, c') \<Longrightarrow> rmd_allowed d \<Longrightarrow>
      rmd_role d \<in> {RoleSuperAdmin, RoleTopAdmin} \<and> rmd_scope d = system_scope"
begin

lemma authorized:
  assumes "role_authorize S i c = (Inr d, c1)" and "rs_check S = Some chk"
  shows "rmd_allowed d \<and> rmd_role d \<in> {RoleSuperAdmin, RoleTopAdmin} \<and> rmd_scope d = system_scope"
proof -
  have "\<exists>c0. chk (ri_actor i) (ri_event i) c = (Inr d, c0) \<and> rmd_allowed d"
    using assms by (auto simp: role_authorize_def split: prod.splits sum.splits if_splits)
  with gate_role show ?thesis by blast
qed

lemma authorize_reads: "rs_check S = Some chk \<Longrightarrow> fst (snd (role_authorize S i c)) = fst c"
  using gate_reads [of "ri_actor i" "ri_event i" c]
  by (auto simp: role_authorize_def split: prod.splits sum.splits)

end

text \<open>The collaborators of the gate read.\<close>

lemma io_read [simp]:
  "fst (snd (io_call e (sql_find_binding p) c)) = fst c"
  "fst (snd (io_call e (sql_user_status u) c)) = fst c"
  "fst (snd (io_call e (sql_employee_status u) c)) = fst c"
  "fst (snd (io_call e (sql_find_event ev) c)) = fst c"
  by (rule io_call_pure, simp add: sql_find_binding_def sql_user_status_def sql_employee_status_def sql_find_event_def)+

lemma io_read':
  "io_call e (sql_find_binding p) c = (x, c1) \<Longrightarrow> fst c1 = fst c"
  "io_call e (sql_user_status u) c = (y, c1) \<Longrightarrow> fst c1 = fst c"
  "io_call e (sql_employee_status u) c = (y, c1) \<Longrightarrow> fst c1 = fst c"
  "io_call e (sql_find_event ev) c = (z, c1) \<Longrightarrow> fst c1 = fst c"
  using io_read [of e] by (metis fst_conv snd_conv)+

lemma get_for_scope_reads [simp]: "fst (snd (get_for_scope u s c)) = fst c"
  by (auto simp: get_for_scope_def split: prod.splits sum.splits option.splits dest: io_read')

lemma get_permission_principal_reads [simp]: "fst (snd (get_permission_principal info u c)) = fst c"
proof -
  let ?f = "\<lambda>db. (Inr (ad_users db u, ad_employees db u, active_system_super db u), db)"
  have "fst (snd (io_call ErrPermInfra ?f c)) = fst c" by (rule io_call_pure) simp
  then show ?thesis by (auto simp: get_permission_principal_def Let_def split: prod.splits sum.splits option.splits)
qed

lemma check_batches_reads:
  assumes "\<And>cid prin cs c. fst (snd (client cid prin cs c)) = fst (c :: admin_conn)"
  shows "fst (snd (check_batches client cid prin cs c)) = fst c"
proof (induction cs arbitrary: c rule: measure_induct_rule [where f = length])
  case (less cs)
  show ?case
  proof (cases "cs = []")
    case True
    then show ?thesis by simp
  next
    case False
    obtain a c1 where a: "client cid prin (take max_checks_per_request cs) c = (a, c1)" by (rule prod.exhaust)
    have c1: "fst c1 = fst c" using assms [of cid prin "take max_checks_per_request cs" c] a by simp
    have "length (drop max_checks_per_request cs) < length cs" using False by (simp add: max_checks_per_request_def)
    from less [OF this, of c1] c1 have "fst (snd (check_batches client cid prin (drop max_checks_per_request cs) c1)) = fst c"
      by simp
    with a c1 False show ?thesis
      by (subst check_batches.simps) (auto split: prod.splits sum.splits)
  qed
qed

lemma authority_client_reads:
  "fst (snd (cerbos_check (\<lambda>q c. (post q, c)) cid prin cs c)) = fst c"
  by (auto simp: cerbos_check_def Let_def split: sum.splits)

lemma authority_fields [simp]:
  "pe_get_for_scope (authority_env info pol post rid) = get_for_scope"
  "pe_principal (authority_env info pol post rid) = get_permission_principal info"
  "pe_list_published (authority_env info pol post rid) = (\<lambda>a s c. (pol a s, c))"
  "pe_client (authority_env info pol post rid) = cerbos_check (\<lambda>q c. (post q, c))"
  "pe_request_id (authority_env info pol post rid) = rid"
  "pe_complete (authority_env info pol post rid)"
  by (simp_all add: authority_env_def)

lemma load_optional_binding_reads:
  "fst (snd (load_optional_binding (authority_env info pol post rid) u s c)) = fst c"
proof -
  obtain x c1 where x: "get_for_scope u s c = (x, c1)" by (rule prod.exhaust)
  then have "fst c1 = fst c" using get_for_scope_reads [of u s c] by simp
  then show ?thesis by (simp add: load_optional_binding_def x split: sum.splits)
qed

lemma check_with_binding_reads:
  "fst (snd (check_with_binding (authority_env info pol post rid) u a re pr b c)) = fst c"
proof -
  have "fst (snd (check_batches (cerbos_check (\<lambda>q c. (post q, c))) cid prin cs c')) = fst c'" for cid prin cs and c' :: admin_conn
    by (rule check_batches_reads) (rule authority_client_reads)
  then have "check_batches (cerbos_check (\<lambda>q c. (post q, c))) cid prin cs c' = (x, c'') \<Longrightarrow> fst c'' = fst c'"
    for cid prin cs x c'' and c' :: admin_conn by (metis fst_conv snd_conv)
  then show ?thesis by (auto simp: check_with_binding_def split: prod.splits sum.splits)
qed

lemma authorizer_check_reads:
  "fst (snd (authorizer_check (authority_env info pol post rid) u a re c)) = fst c"
proof -
  let ?E = "authority_env info pol post rid"
  have p: "get_permission_principal info u c = (x, c1) \<Longrightarrow> fst c1 = fst c" for x c1
    using get_permission_principal_reads [of info u c] by simp
  have l: "load_optional_binding ?E u s c0 = (x, c1) \<Longrightarrow> fst c1 = fst c0" for s c0 x c1
    using load_optional_binding_reads [of info pol post rid u s c0] by simp
  have w: "fst (snd (check_with_binding ?E u a re pr b c0)) = fst c0" for pr b c0
    by (rule check_with_binding_reads)
  show ?thesis
    by (auto simp: authorizer_check_def w split: option.splits prod.splits sum.splits dest!: p l)
qed

lemma check_role_management_reads:
  "fst (snd (check_role_management (authority_env info pol post rid) u ev c)) = fst c"
proof -
  let ?re = "\<lparr>re_kind = ''role_binding'', re_id = ev, re_event_id = ev, re_attributes = Map.empty\<rparr>"
  have "authorizer_check (authority_env info pol post rid) u ActionRoleManage ?re c = (x, c1) \<Longrightarrow> fst c1 = fst c" for x c1
    using authorizer_check_reads [of info pol post rid u ActionRoleManage ?re c] by simp
  then show ?thesis by (auto simp: check_role_management_def split: prod.splits sum.splits)
qed

lemma check_role_management_role:
  assumes "check_role_management E u ev c = (Inr d, c')" "rmd_allowed d"
  shows "rmd_role d \<in> {RoleSuperAdmin, RoleTopAdmin} \<and> rmd_scope d = system_scope"
proof -
  obtain x c1 where x: "authorizer_check E u ActionRoleManage
        \<lparr>re_kind = ''role_binding'', re_id = ev, re_event_id = ev, re_attributes = Map.empty\<rparr> c = (Inr x, c1)" "sd_allowed x"
    and d: "rmd_role d = sd_role x" "rmd_scope d = (if sd_role x = RoleSuperAdmin \<or> sd_role x = RoleTopAdmin
                               then system_scope else event_scope ev)"
    using assms by (auto simp: check_role_management_def no_role_management_def split: if_splits prod.splits sum.splits)
  from role_manage_is_top [OF authorizer_role [OF x]] d show ?thesis by auto
qed

interpretation rg: role_gate "check_role_management (authority_env info pol post rid)"
  for info :: "user_id \<Rightarrow> principal_info"
    and pol :: "string \<Rightarrow> string \<Rightarrow> perm_error + published_policy list"
    and post :: "wire_request \<Rightarrow> perm_error + wire_result list" and rid :: string
  by unfold_locales (rule check_role_management_reads, (rule check_role_management_role, assumption+))

section \<open>What a mutation changes\<close>

definition bindings_ok :: "binding list \<Rightarrow> bool" where
  "bindings_ok bs \<longleftrightarrow> list_all binding_check bs \<and> distinct (map bd_id bs)"

definition ordinary_binding :: "user_id \<Rightarrow> event_id \<Rightarrow> binding \<Rightarrow> bool" where
  "ordinary_binding target ev b \<longleftrightarrow> bd_user_id b = target \<and> bd_scope b = event_scope ev
     \<and> bd_role b \<in> {RoleSeniorAdmin, RoleAdmin}"

text \<open>One ordinary binding of the target appears, or moves to its next version; every other row stays.\<close>

definition binding_change :: "user_id \<Rightarrow> event_id \<Rightarrow> binding list \<Rightarrow> binding list \<Rightarrow> binding \<Rightarrow> bool" where
  "binding_change target ev bs bs' b \<longleftrightarrow> ordinary_binding target ev b
     \<and> (bs' = bs @ [b]
        \<or> (\<exists>pre x post. bs = pre @ x # post \<and> bs' = pre @ b # post \<and> ordinary_binding target ev x
             \<and> bd_id b = bd_id x \<and> bd_version b = bd_version x + 1 \<and> bd_disabled_at x = None))"

definition audited :: "role_input \<Rightarrow> admin_db \<Rightarrow> admin_db \<Rightarrow> binding \<Rightarrow> bool" where
  "audited i db db' b \<longleftrightarrow> (\<exists>e. ad_events db' = ad_events db @ [e] \<and> ae_actor e = ri_actor i
     \<and> ae_reason_id e = ri_reason i \<and> ae_request_id e = ri_request i \<and> ae_target_id e = bd_id b)"

definition mutated :: "role_input \<Rightarrow> admin_db \<Rightarrow> admin_db \<Rightarrow> binding \<Rightarrow> bool" where
  "mutated i db db' b \<longleftrightarrow> binding_change (ri_target i) (ri_event i) (ad_bindings db) (ad_bindings db') b
     \<and> bindings_ok (ad_bindings db') \<and> audited i db db' b
     \<and> db' = db\<lparr>ad_bindings := ad_bindings db', ad_events := ad_events db'\<rparr>"

definition mutation_ok :: "role_input \<Rightarrow> role_mutation \<Rightarrow> bool" where
  "mutation_ok i mutate \<longleftrightarrow> (\<forall>now c b c'. bindings_ok (ad_bindings (fst c)) \<longrightarrow> mutate now c = (Inr b, c') \<longrightarrow>
     mutated i (fst c) (fst c') b)"

lemma single_match:
  assumes "length (filter p xs) = 1"
  obtains pre x post where "xs = pre @ x # post" "p x" "\<forall>y\<in>set pre \<union> set post. \<not> p y"
proof -
  obtain x where x: "filter p xs = [x]" using assms by (auto simp: length_Suc_conv)
  then obtain pre post where s: "xs = pre @ x # post" "\<forall>y\<in>set pre. \<not> p y" "p x" "filter p post = []"
    by (auto simp: filter_eq_Cons_iff)
  then have "\<forall>y\<in>set post. \<not> p y" by (simp add: filter_empty_conv)
  with s have "\<forall>y\<in>set pre \<union> set post. \<not> p y" by blast
  from that [OF s(1,3) this] show thesis .
qed

lemma map_single:
  assumes "xs = pre @ x # post" "p x" "\<forall>y\<in>set pre \<union> set post. \<not> p y"
  shows "map (\<lambda>y. if p y then f y else y) xs = pre @ f x # post"
  using assms by (auto intro!: map_idI)

lemma sql_update_bindings_one:
  assumes "sql_update_bindings p f db = (Inr n, db')" "n = 1"
  obtains pre x post where "ad_bindings db = pre @ x # post" "p x" "binding_check (f (ad_now db) x)"
    "db' = db\<lparr>ad_bindings := pre @ f (ad_now db) x # post\<rparr>"
proof -
  have n: "length (filter p (ad_bindings db)) = 1" and chk: "list_all binding_check (map (f (ad_now db)) (filter p (ad_bindings db)))"
    and db': "db' = db\<lparr>ad_bindings := map (\<lambda>b. if p b then f (ad_now db) b else b) (ad_bindings db)\<rparr>"
    using assms by (auto simp: sql_update_bindings_def split: if_splits)
  obtain pre x post where x: "ad_bindings db = pre @ x # post" "p x" "\<forall>y\<in>set pre \<union> set post. \<not> p y"
    by (rule single_match [OF n])
  have "binding_check (f (ad_now db) x)" using chk x by simp
  with x db' map_single [OF x, of "f (ad_now db)"] that show thesis by metis
qed

lemma record_admin_mutation_ok:
  assumes "record_admin_mutation (mutation_audit_of i) ty target c = (Inr u, c')"
  shows "\<exists>e. fst c' = (fst c)\<lparr>ad_events := ad_events (fst c) @ [e]\<rparr> \<and> ae_actor e = ri_actor i
     \<and> ae_reason_id e = ri_reason i \<and> ae_request_id e = ri_request i \<and> ae_target_id e = target"
proof -
  let ?e = "\<lparr>ae_type = ty, ae_actor = ri_actor i, ae_request_id = ri_request i, ae_operation = ''event.role.manage'',
      ae_target_id = target, ae_reason_id = ri_reason i\<rparr>"
  have "io_call ErrRoleInfra (sql_insert_event ?e) c = (Inr u, c')"
    using assms by (simp add: record_admin_mutation_def mutation_audit_of_def split: if_splits)
  from io_call_ok [OF this] show ?thesis by (intro exI [of _ ?e]) (auto simp: sql_insert_event_def)
qed

lemma reread_binding_ok:
  "reread_binding bid c = (Inr b, c') \<Longrightarrow> fst c' = fst c \<and> b \<in> set (ad_bindings (fst c)) \<and> bd_id b = bid"
  by (auto simp: reread_binding_def sql_find_binding_def find_Some_iff split: prod.splits sum.splits option.splits dest!: io_call_ok)

lemma get_for_scope_ok:
  "get_for_scope u s c = (Inr b, c') \<Longrightarrow> fst c' = fst c \<and> b \<in> set (ad_bindings (fst c)) \<and> bd_user_id b = u
     \<and> bd_scope b = s \<and> bd_disabled_at b = None"
  by (auto simp: get_for_scope_def sql_find_binding_def find_Some_iff split: prod.splits sum.splits option.splits dest!: io_call_ok)

lemma event_row_is_ordinary:
  "bindings_ok bs \<Longrightarrow> b \<in> set bs \<Longrightarrow> bd_user_id b = u \<Longrightarrow> bd_scope b = event_scope ev \<Longrightarrow> ordinary_binding u ev b"
  by (auto simp: bindings_ok_def list_all_iff binding_check_def ordinary_binding_def)

lemma bindings_ok_replace:
  "bindings_ok (pre @ x # post) \<Longrightarrow> binding_check y \<Longrightarrow> bd_id y = bd_id x \<Longrightarrow> bindings_ok (pre @ y # post)"
  by (simp add: bindings_ok_def)

lemma same_id_same_row:
  "bindings_ok bs \<Longrightarrow> x \<in> set bs \<Longrightarrow> y \<in> set bs \<Longrightarrow> bd_id x = bd_id y \<Longrightarrow> x = y"
  by (auto simp: bindings_ok_def distinct_map inj_on_def)

lemma ordinary_role:
  "validate_ordinary_role ro = None \<Longrightarrow> ro \<in> {RoleSeniorAdmin, RoleAdmin}"
  by (auto simp: validate_ordinary_role_def split: if_splits)

lemma mutated_replaceI:
  assumes "ad_bindings db = pre @ x # post" "db1 = db\<lparr>ad_bindings := pre @ b # post\<rparr>"
    and "db' = db1\<lparr>ad_events := ad_events db1 @ [e]\<rparr>" "ae_actor e = ri_actor i" "ae_reason_id e = ri_reason i"
      "ae_request_id e = ri_request i" "ae_target_id e = bd_id b"
    and "ordinary_binding (ri_target i) (ri_event i) x" "ordinary_binding (ri_target i) (ri_event i) b"
      "bd_id b = bd_id x" "bd_version b = bd_version x + 1" "bd_disabled_at x = None" "bindings_ok (pre @ b # post)"
  shows "mutated i db db' b"
proof -
  have "binding_change (ri_target i) (ri_event i) (ad_bindings db) (pre @ b # post) b"
    unfolding binding_change_def using assms(1,8-12) by blast
  moreover have "audited i db db' b" unfolding audited_def using assms(2-7) by auto
  ultimately show ?thesis using assms(2,3,13) by (simp add: mutated_def)
qed

lemma create_mutation_ok: "validate_ordinary_role ro = None \<Longrightarrow> mutation_ok i (create_mutation S i ro)"
proof (unfold mutation_ok_def, intro allI impI)
  fix now c b c'
  assume ro: "validate_ordinary_role ro = None" and ok: "bindings_ok (ad_bindings (fst c))"
    and run: "create_mutation S i ro now c = (Inr b, c')"
  obtain bid where bid: "rs_new_id S ''arb_'' = Some bid"
    using run by (auto simp: create_mutation_def split: option.splits)
  let ?b = "created_binding (ad_now (fst c)) \<lparr>bd_id = bid, bd_user_id = ri_target i, bd_role = ro,
       bd_scope = event_scope (ri_event i), bd_enabled = True, bd_version = 1, bd_granted_by = ri_actor i,
       bd_reason_id = ri_reason i, bd_disabled_at = None, bd_created_at = now, bd_updated_at = now\<rparr>"
  obtain u c1 where ins: "io_call ErrRoleInfra (sql_insert_binding ?b) c = (Inr u, c1)"
    using run bid by (auto simp: create_mutation_def create_binding_def Let_def split: option.splits prod.splits sum.splits)
  obtain u2 where rec: "record_admin_mutation (mutation_audit_of i) ''admin.role.created'' (bd_id ?b) c1 = (Inr u2, c')"
    and b: "b = ?b"
    using run bid ins by (auto simp: create_mutation_def create_binding_def Let_def split: option.splits prod.splits sum.splits)
  have "sql_insert_binding ?b (fst c) = (Inr u, fst c1)" by (rule io_call_ok [OF ins])
  then have c1: "fst c1 = (fst c)\<lparr>ad_bindings := ad_bindings (fst c) @ [?b]\<rparr>" and chk: "binding_check ?b"
    and new: "\<forall>x\<in>set (ad_bindings (fst c)). bd_id x \<noteq> bd_id ?b"
    by (auto simp: sql_insert_binding_def split: if_splits)
  have o: "ordinary_binding (ri_target i) (ri_event i) ?b"
    using ordinary_role [OF ro] by (simp add: ordinary_binding_def created_binding_def Let_def)
  have okb: "bindings_ok (ad_bindings (fst c) @ [?b])" using ok chk new by (auto simp: bindings_ok_def)
  obtain e where e: "fst c' = (fst c1)\<lparr>ad_events := ad_events (fst c1) @ [e]\<rparr>" "ae_actor e = ri_actor i"
     "ae_reason_id e = ri_reason i" "ae_request_id e = ri_request i" "ae_target_id e = bd_id ?b"
    using record_admin_mutation_ok [OF rec] by blast
  show "mutated i (fst c) (fst c') b"
    unfolding mutated_def b using e c1 o okb by (simp add: binding_change_def audited_def)
qed

lemma update_mutation_ok: "validate_ordinary_role ro = None \<Longrightarrow> mutation_ok i (update_mutation i bid ro v)"
proof (unfold mutation_ok_def, intro allI impI)
  fix now c b c'
  assume ro: "validate_ordinary_role ro = None" and ok: "bindings_ok (ad_bindings (fst c))"
    and run: "update_mutation i bid ro v now c = (Inr b, c')"
  obtain cur c1 where g: "get_for_scope (ri_target i) (event_scope (ri_event i)) c = (Inr cur, c1)"
    using run by (auto simp: update_mutation_def split: prod.splits sum.splits)
  note cur = get_for_scope_ok [OF g]
  let ?next = "cur\<lparr>bd_role := ro, bd_granted_by := ri_actor i, bd_reason_id := ri_reason i, bd_updated_at := now\<rparr>"
  let ?p = "\<lambda>b. bd_id b = bd_id ?next \<and> bd_version b = v \<and> bd_disabled_at b = None"
  have upd: "update_binding ?next v (mutation_audit_of i) c1 = (Inr b, c')"
    using run g by (auto simp: update_mutation_def split: if_splits)
  obtain x c2 where f: "io_call ErrRoleInfra (sql_find_binding (\<lambda>b. bd_id b = bd_id ?next)) c1 = (x, c2)" by (rule prod.exhaust)
  have c2: "fst c2 = fst c1" by (rule io_read' (1) [OF f])
  obtain n c3 where w: "io_call ErrRoleInfra (sql_update_bindings ?p (changed_role ?next (mutation_audit_of i))) c2 = (Inr n, c3)"
    and n: "n = 1"
    using upd f by (auto simp: update_binding_def split: option.splits sum.splits if_splits prod.splits)
  obtain u c4 where rec: "record_admin_mutation (mutation_audit_of i) ''admin.role.updated'' (bd_id ?next) c3 = (Inr u, c4)"
    and re: "reread_binding (bd_id ?next) c4 = (Inr b, c')"
    using upd f w n by (auto simp: update_binding_def split: option.splits sum.splits if_splits prod.splits)
  have db: "fst c2 = fst c" using c2 cur by simp
  have w': "sql_update_bindings ?p (changed_role ?next (mutation_audit_of i)) (fst c2) = (Inr n, fst c3)"
    by (rule io_call_ok [OF w])
  obtain pre y post where y: "ad_bindings (fst c) = pre @ y # post" "?p y"
      "binding_check (changed_role ?next (mutation_audit_of i) (ad_now (fst c)) y)"
      "fst c3 = (fst c)\<lparr>ad_bindings := pre @ changed_role ?next (mutation_audit_of i) (ad_now (fst c)) y # post\<rparr>"
    by (rule sql_update_bindings_one [OF w' n, unfolded db])
  let ?y = "changed_role ?next (mutation_audit_of i) (ad_now (fst c)) y"
  have "y = cur" by (rule same_id_same_row [OF ok]) (use y cur in auto)
  then have o: "ordinary_binding (ri_target i) (ri_event i) y" "bd_disabled_at y = None"
    using event_row_is_ordinary [OF ok] cur by auto
  have o': "ordinary_binding (ri_target i) (ri_event i) ?y" "bd_id ?y = bd_id y" "bd_version ?y = bd_version y + 1"
    using o ordinary_role [OF ro] by (simp_all add: ordinary_binding_def changed_role_def)
  have okb: "bindings_ok (pre @ ?y # post)"
    using bindings_ok_replace [OF ok [unfolded y(1)] y(3) o'(2)] .
  obtain e where e: "fst c4 = (fst c3)\<lparr>ad_events := ad_events (fst c3) @ [e]\<rparr>" "ae_actor e = ri_actor i"
     "ae_reason_id e = ri_reason i" "ae_request_id e = ri_request i" "ae_target_id e = bd_id ?next"
    using record_admin_mutation_ok [OF rec] by blast
  have c': "fst c' = fst c4" "b \<in> set (pre @ ?y # post)" "bd_id b = bd_id ?next"
    using reread_binding_ok [OF re] e(1) y(4) by auto
  have b: "b = ?y"
    by (rule same_id_same_row [OF okb c'(2)]) (use c'(3) o'(2) y(2) in auto)
  have "ae_target_id e = bd_id ?y" using e(5) o'(2) y(2) by simp
  from mutated_replaceI [OF y(1,4) e(1-4) this o(1) o' o(2) okb]
  show "mutated i (fst c) (fst c') b" unfolding b c'(1) .
qed

lemma disable_mutation_ok: "mutation_ok i (disable_mutation i bid v)"
proof (unfold mutation_ok_def, intro allI impI)
  fix now c b c'
  assume ok: "bindings_ok (ad_bindings (fst c))" and run: "disable_mutation i bid v now c = (Inr b, c')"
  obtain cur c1 where g: "get_for_scope (ri_target i) (event_scope (ri_event i)) c = (Inr cur, c1)"
    using run by (auto simp: disable_mutation_def split: prod.splits sum.splits)
  note cur = get_for_scope_ok [OF g]
  let ?p = "\<lambda>b. bd_id b = bd_id cur \<and> bd_version b = v \<and> bd_disabled_at b = None"
  have dis: "disable_binding (bd_id cur) v (mutation_audit_of i) c1 = (Inr b, c')"
    using run g by (auto simp: disable_mutation_def split: if_splits)
  obtain n c3 where w: "io_call ErrRoleInfra (sql_update_bindings ?p (disabled_binding (mutation_audit_of i))) c1 = (Inr n, c3)"
    and n: "n = 1"
    using dis by (auto simp: disable_binding_def split: sum.splits if_splits prod.splits)
  obtain u c4 where rec: "record_admin_mutation (mutation_audit_of i) ''admin.role.disabled'' (bd_id cur) c3 = (Inr u, c4)"
    and re: "reread_binding (bd_id cur) c4 = (Inr b, c')"
    using dis w n by (auto simp: disable_binding_def split: sum.splits if_splits prod.splits)
  have db: "fst c1 = fst c" using cur by simp
  have w': "sql_update_bindings ?p (disabled_binding (mutation_audit_of i)) (fst c1) = (Inr n, fst c3)"
    by (rule io_call_ok [OF w])
  obtain pre y post where y: "ad_bindings (fst c) = pre @ y # post" "?p y"
      "binding_check (disabled_binding (mutation_audit_of i) (ad_now (fst c)) y)"
      "fst c3 = (fst c)\<lparr>ad_bindings := pre @ disabled_binding (mutation_audit_of i) (ad_now (fst c)) y # post\<rparr>"
    by (rule sql_update_bindings_one [OF w' n, unfolded db])
  let ?y = "disabled_binding (mutation_audit_of i) (ad_now (fst c)) y"
  have "y = cur" by (rule same_id_same_row [OF ok]) (use y cur in auto)
  then have o: "ordinary_binding (ri_target i) (ri_event i) y" "bd_disabled_at y = None"
    using event_row_is_ordinary [OF ok] cur by auto
  have o': "ordinary_binding (ri_target i) (ri_event i) ?y" "bd_id ?y = bd_id y" "bd_version ?y = bd_version y + 1"
    using o by (simp_all add: ordinary_binding_def disabled_binding_def)
  have okb: "bindings_ok (pre @ ?y # post)"
    using bindings_ok_replace [OF ok [unfolded y(1)] y(3) o'(2)] .
  obtain e where e: "fst c4 = (fst c3)\<lparr>ad_events := ad_events (fst c3) @ [e]\<rparr>" "ae_actor e = ri_actor i"
     "ae_reason_id e = ri_reason i" "ae_request_id e = ri_request i" "ae_target_id e = bd_id cur"
    using record_admin_mutation_ok [OF rec] by blast
  have c': "fst c' = fst c4" "b \<in> set (pre @ ?y # post)" "bd_id b = bd_id cur"
    using reread_binding_ok [OF re] e(1) y(4) by auto
  have b: "b = ?y"
    by (rule same_id_same_row [OF okb c'(2)]) (use c'(3) o'(2) y(2) in auto)
  have "ae_target_id e = bd_id ?y" using e(5) o'(2) y(2) by simp
  from mutated_replaceI [OF y(1,4) e(1-4) this o(1) o' o(2) okb]
  show "mutated i (fst c) (fst c') b" unfolding b c'(1) .
qed

section \<open>One transaction\<close>

text \<open>Who may mutate, read in the transaction itself.\<close>

definition authority :: "role_input \<Rightarrow> admin_db \<Rightarrow> bool" where
  "authority i db \<longleftrightarrow> ad_users db (ri_actor i) = Some ''active''
     \<and> (ad_employees db (ri_actor i) = None \<or> ad_employees db (ri_actor i) = Some ''active'')
     \<and> (\<exists>b\<in>set (ad_bindings db). bd_user_id b = ri_actor i \<and> bd_role b \<in> {RoleSuperAdmin, RoleTopAdmin}
          \<and> bd_scope b = system_scope \<and> bd_enabled b \<and> bd_disabled_at b = None)
     \<and> (\<exists>e\<in>set (ad_registry db). rv_event_id e = ri_event i \<and> rv_enabled e)"

definition receipt_of :: "role_service \<Rightarrow> string \<Rightarrow> role_mutation_result \<Rightarrow> allowlisted_result" where
  "receipt_of S code out = stored_result (encode_stored_role_result (rs_digest S) code (rm_binding_id out) (rm_version out))"

text \<open>
  All of a mutation: the binding, its audit, the reason now consumed, and the receipt under the
  idempotency key, which nobody had used.
\<close>

definition committed ::
  "role_service \<Rightarrow> role_input \<Rightarrow> string \<Rightarrow> role_mutation_result \<Rightarrow> admin_db \<Rightarrow> admin_db \<Rightarrow> bool" where
  "committed S i code out db db' \<longleftrightarrow>
     (\<exists>b. binding_change (ri_target i) (ri_event i) (ad_bindings db) (ad_bindings db') b
        \<and> audited i db db' b \<and> out = \<lparr>rm_binding_id = bd_id b, rm_version = bd_version b\<rparr>)
     \<and> bindings_ok (ad_bindings db')
     \<and> (\<exists>x\<in>set (ad_reasons db). rr_id x = ri_reason i \<and> rr_owner x = ri_actor i \<and> rr_kind x = ''role'' \<and> rr_consumed_at x = None)
     \<and> (\<forall>x\<in>set (ad_reasons db'). rr_id x = ri_reason i \<and> rr_owner x = ri_actor i \<and> rr_kind x = ''role'' \<and> rr_terminal_at x = None
          \<longrightarrow> rr_consumed_at x \<noteq> None)
     \<and> (\<forall>r\<in>set (ad_outbox db). ob_key r \<noteq> ri_key i)
     \<and> (\<exists>r. ad_outbox db' = ad_outbox db @ [r] \<and> ob_key r = ri_key i \<and> ob_state r = StateSucceeded
          \<and> ob_terminal_at r \<noteq> None \<and> ob_result r = receipt_of S code out)
     \<and> ad_users db' = ad_users db \<and> ad_employees db' = ad_employees db \<and> ad_registry db' = ad_registry db"

lemma get_exact_ok:
  "get_exact ev c = (Inr x, c') \<Longrightarrow> fst c' = fst c \<and> x \<in> set (ad_registry (fst c)) \<and> rv_event_id x = ev \<and> rv_enabled x"
  by (auto simp: get_exact_def sql_find_event_def find_Some_iff split: prod.splits sum.splits option.splits if_splits dest!: io_call_ok)

lemma revalidate_ok:
  assumes "revalidate actor ev d c = (Inr u, c')" "rmd_scope d = system_scope"
  shows "fst c' = fst c \<and> ad_users (fst c) actor = Some ''active''
     \<and> (ad_employees (fst c) actor = None \<or> ad_employees (fst c) actor = Some ''active'')
     \<and> (\<exists>b\<in>set (ad_bindings (fst c)). bd_user_id b = actor \<and> bd_role b = rmd_role d \<and> bd_scope b = system_scope
          \<and> bd_enabled b \<and> bd_disabled_at b = None)"
proof -
  let ?p = "\<lambda>b. bd_id b = rmd_binding_id d \<and> bd_user_id b = actor \<and> bd_version b = rmd_binding_version d
      \<and> bd_role b = rmd_role d \<and> bd_scope b = rmd_scope d \<and> bd_enabled b \<and> bd_disabled_at b = None"
  obtain a c1 where a: "io_call ErrRoleInfra (sql_user_status actor) c = (Inr a, c1)" "a = Some ''active''"
    using assms(1) by (auto simp: revalidate_def split: if_splits prod.splits sum.splits)
  obtain e c2 where e: "io_call ErrRoleInfra (sql_employee_status actor) c1 = (Inr e, c2)" "e = None \<or> e = Some ''active''"
    using assms(1) a by (auto simp: revalidate_def split: if_splits prod.splits sum.splits)
  obtain b where b: "io_call ErrRoleInfra (sql_find_binding ?p) c2 = (Inr (Some b), c')"
    using assms(1) a e by (auto simp: revalidate_def split: if_splits prod.splits sum.splits option.splits)
  have c1: "fst c1 = fst c" "ad_users (fst c) actor = Some ''active''"
    using io_call_ok [OF a(1)] a(2) by (auto simp: sql_user_status_def)
  have c2: "fst c2 = fst c" "ad_employees (fst c) actor = e"
    using io_call_ok [OF e(1)] c1 by (auto simp: sql_employee_status_def)
  have "sql_find_binding ?p (fst c2) = (Inr (Some b), fst c')" by (rule io_call_ok [OF b])
  then have "fst c' = fst c" "b \<in> set (ad_bindings (fst c))" "?p b"
    using c2 by (auto simp: sql_find_binding_def find_Some_iff)
  with c1 c2 e(2) assms(2) show ?thesis by auto
qed

lemma create_or_replay_cases:
  assumes "create_or_replay fid now item c = (Inr (x, rep), c')"
  shows "if rep then fst c' = fst c
    else x = outbox_defaults fid now item \<and> fst c' = (fst c)\<lparr>ot_rows := ot_rows (fst c) @ [new_row x]\<rparr>
       \<and> (\<forall>r\<in>set (ot_rows (fst c)). ob_key r \<noteq> ob_key item \<and> ob_id r \<noteq> ob_id x)"
proof -
  let ?i = "outbox_defaults fid now item"
  have key: "ob_key ?i = ob_key item" by (simp add: outbox_defaults_def Let_def)
  obtain a c1 where a: "io_call ErrStoreInfra (sql_insert (new_row ?i)) c = (a, c1)" by (rule prod.exhaust)
  obtain n where n: "a = Inr n"
    using assms a by (auto simp: create_or_replay_def Let_def split: if_splits option.splits sum.splits)
  have ins: "sql_insert (new_row ?i) (fst c) = (Inr n, fst c1)" using io_call_ok [OF a [unfolded n]] .
  have nk: "ob_key (new_row ?i) = ob_key item" "ob_id (new_row ?i) = ob_id ?i" using key by (simp_all add: new_row_def)
  show ?thesis
  proof (cases "n = 1")
    case True
    then have "x = ?i" "c' = c1" "\<not> rep"
      using assms a n by (auto simp: create_or_replay_def Let_def split: if_splits option.splits)
    with ins True nk show ?thesis by (auto simp: sql_insert_def split: if_splits)
  next
    case False
    obtain b c2 where b: "io_call ErrStoreInfra (sql_select (\<lambda>r. ob_key r = ob_key ?i)) c1 = (b, c2)" by (rule prod.exhaust)
    have c2: "fst c2 = fst c1"
      using io_call_pure [of "sql_select (\<lambda>r. ob_key r = ob_key ?i)" ErrStoreInfra c1] b by (simp add: sql_select_def)
    have "rep" "c' = c2"
      using assms a n b False by (auto simp: create_or_replay_def Let_def split: if_splits option.splits sum.splits)
    moreover have "fst c1 = fst c" using ins False by (auto simp: sql_insert_def split: if_splits)
    ultimately show ?thesis using c2 by simp
  qed
qed

lemma on_outbox_ok:
  assumes "on_outbox f c = (r, c')"
  obtains c1 where "f (\<lparr>ot_rows = ad_outbox (fst c), ot_clock = ad_now (fst c)\<rparr>, snd c) = (r, c1)"
    "fst c' = (fst c)\<lparr>ad_outbox := ot_rows (fst c1)\<rparr>"
  using assms that by (auto simp: on_outbox_def split: prod.splits)

text \<open>The receipt of a mutation: found, with nothing changed, or created under a fresh id and key.\<close>

lemma receipt_created:
  assumes "receipt_create_or_replay fid now r c = (Inr (x, rep), c')"
  shows "if rep then fst c' = fst c
    else \<exists>n. fst c' = (fst c)\<lparr>ad_outbox := ad_outbox (fst c) @ [n]\<rparr> \<and> ob_key n = lr_key r \<and> ob_id n = lr_id x
       \<and> (\<forall>y\<in>set (ad_outbox (fst c)). ob_key y \<noteq> lr_key r \<and> ob_id y \<noteq> lr_id x)"
proof -
  obtain item where i: "on_outbox (create_or_replay fid now (receipt_item r)) c = (Inr (item, rep), c')"
      "x = from_adminstore_receipt item"
    using assms by (auto simp: receipt_create_or_replay_def split: prod.splits sum.splits)
  obtain c1 where c1: "create_or_replay fid now (receipt_item r) (\<lparr>ot_rows = ad_outbox (fst c), ot_clock = ad_now (fst c)\<rparr>, snd c)
      = (Inr (item, rep), c1)" "fst c' = (fst c)\<lparr>ad_outbox := ot_rows (fst c1)\<rparr>"
    by (rule on_outbox_ok [OF i(1)])
  show ?thesis
  proof (cases rep)
    case True
    with create_or_replay_cases [OF c1(1)] c1(2) show ?thesis by simp
  next
    case False
    let ?rows = "ad_outbox (fst c)"
    note o = create_or_replay_cases [OF c1(1), unfolded if_not_P [OF False] fst_conv outbox_db.simps]
    have x: "item = outbox_defaults fid now (receipt_item r)" "ot_rows (fst c1) = ?rows @ [new_row item]"
      "\<forall>y\<in>set ?rows. ob_key y \<noteq> ob_key (receipt_item r) \<and> ob_id y \<noteq> ob_id item"
      by (rule conjunct1 [OF o], simp add: conjunct1 [OF conjunct2 [OF o]], rule conjunct2 [OF conjunct2 [OF o]])
    have k: "ob_key (new_row item) = lr_key r" "ob_id (new_row item) = lr_id x"
      using x(1) i(2) by (simp_all add: new_row_def outbox_defaults_def Let_def receipt_item_def from_adminstore_receipt_def)
    have k': "ob_key (receipt_item r) = lr_key r" "ob_id item = lr_id x"
      using i(2) by (simp_all add: receipt_item_def from_adminstore_receipt_def)
    have "fst c' = (fst c)\<lparr>ad_outbox := ad_outbox (fst c) @ [new_row item]\<rparr>" using c1(2) x(2) by simp
    with k x(3) [unfolded k'] have "\<exists>n. fst c' = (fst c)\<lparr>ad_outbox := ad_outbox (fst c) @ [n]\<rparr> \<and> ob_key n = lr_key r
       \<and> ob_id n = lr_id x \<and> (\<forall>y\<in>set (ad_outbox (fst c)). ob_key y \<noteq> lr_key r \<and> ob_id y \<noteq> lr_id x)"
      by blast
    with False show ?thesis by simp
  qed
qed

lemma receipt_completed:
  assumes "receipt_complete_local rid v res at c = (Inr u, c')"
    and "ad_outbox (fst c) = rs @ [n]" "ob_id n = rid" "\<forall>y\<in>set rs. ob_id y \<noteq> rid"
  shows "\<exists>m. fst c' = (fst c)\<lparr>ad_outbox := rs @ [m]\<rparr> \<and> ob_key m = ob_key n \<and> ob_state m = StateSucceeded
    \<and> ob_terminal_at m \<noteq> None \<and> ob_result m = stored_result res"
proof -
  have i: "on_outbox (complete_local rid v res at) c = (Inr (), c')"
    using assms(1) by (auto simp: receipt_complete_local_def split: prod.splits sum.splits)
  let ?p = "\<lambda>r. ob_id r = rid \<and> ob_version r = v \<and> ob_kind r = OperationLocal \<and> ob_state r = StatePending \<and> ob_terminal_at r = None"
  let ?f = "\<lambda>r. (bumped at r)\<lparr>ob_state := StateSucceeded, ob_result := stored_result res, ob_terminal_at := Some at\<rparr>"
  let ?c0 = "(\<lparr>ot_rows = ad_outbox (fst c), ot_clock = ad_now (fst c)\<rparr>, snd c)"
  obtain c1 where c1: "complete_local rid v res at ?c0 = (Inr (), c1)" "fst c' = (fst c)\<lparr>ad_outbox := ot_rows (fst c1)\<rparr>"
    by (rule on_outbox_ok [OF i])
  have e: "exec_one ?p ?f ?c0 = (Inr (), c1)"
    using c1(1) by (auto simp: complete_local_def split: option.splits)
  have "ot_rows (fst c1) = map (\<lambda>r. if ?p r then ?f r else r) (rs @ [n])" and "\<exists>r\<in>set (rs @ [n]). ?p r"
    using exec_one_rows [OF e] assms(2) by simp_all
  moreover from this(2) assms(4) have "?p n" by auto
  moreover have "map (\<lambda>r. if ?p r then ?f r else r) rs = rs" using assms(4) by (intro map_idI) auto
  ultimately have "ot_rows (fst c1) = rs @ [?f n]" by simp
  with c1(2) show ?thesis by (intro exI [of _ "?f n"]) (simp add: bumped_def)
qed

lemma consume_owned_ok:
  assumes "consume_owned rid owner kind at ex c = (Inr u, c')"
  shows "\<exists>rs. fst c' = (fst c)\<lparr>ad_reasons := rs\<rparr>
    \<and> (\<exists>x\<in>set (ad_reasons (fst c)). rr_id x = rid \<and> rr_owner x = owner \<and> rr_kind x = kind \<and> rr_consumed_at x = None)
    \<and> (\<forall>x\<in>set rs. rr_id x = rid \<and> rr_owner x = owner \<and> rr_kind x = kind \<and> rr_terminal_at x = None \<longrightarrow> rr_consumed_at x \<noteq> None)"
proof -
  let ?p = "\<lambda>x. rr_id x = rid \<and> rr_owner x = owner \<and> rr_kind x = kind \<and> rr_consumed_at x = None \<and> rr_terminal_at x = None"
  let ?g = "\<lambda>x. if ?p x then consumed_reason at ex x else x"
  obtain n where n: "io_call ErrRoleInfra (sql_consume_reason rid owner kind at ex) c = (Inr n, c')" "n = 1"
    using assms by (auto simp: consume_owned_def split: if_splits prod.splits sum.splits)
  have "sql_consume_reason rid owner kind at ex (fst c) = (Inr n, fst c')" by (rule io_call_ok [OF n(1)])
  then have c': "fst c' = (fst c)\<lparr>ad_reasons := map ?g (ad_reasons (fst c))\<rparr>"
    and l: "length (filter ?p (ad_reasons (fst c))) = 1"
    using n(2) by (auto simp: sql_consume_reason_def Let_def split: if_splits)
  obtain pre x post where "ad_reasons (fst c) = pre @ x # post" "?p x" by (rule single_match [OF l])
  then have "\<exists>x\<in>set (ad_reasons (fst c)). ?p x" by auto
  then show ?thesis using c' by (intro exI [of _ "map ?g (ad_reasons (fst c))"]) (auto simp: consumed_reason_def)
qed

end
