(* ===== verification/RoleMutations.thy ===== *)
theory RoleMutations
  imports AdminRoleProperties
begin

text \<open>
  Whole requests to change a role binding: what an answered request was authorised by, that a
  request is all or nothing, and that an idempotency key has at most one effect.
\<close>

section \<open>The callback\<close>

lemma create_or_replay_replayed:
  assumes "create_or_replay fid now item c = (Inr (x, True), c')"
  obtains r where "r \<in> set (ot_rows (fst c))" "ob_key r = ob_key item" "x = sanitize_outbox_replay r"
proof -
  let ?i = "outbox_defaults fid now item"
  have key: "ob_key ?i = ob_key item" by (simp add: outbox_defaults_def Let_def)
  obtain n c1 where a: "io_call ErrStoreInfra (sql_insert (new_row ?i)) c = (Inr n, c1)" and n: "n \<noteq> 1"
    using assms by (auto simp: create_or_replay_def Let_def split: if_splits option.splits sum.splits prod.splits)
  have "sql_insert (new_row ?i) (fst c) = (Inr n, fst c1)" by (rule io_call_ok [OF a])
  then have c1: "fst c1 = fst c" using n by (auto simp: sql_insert_def split: if_splits)
  obtain r c2 where b: "io_call ErrStoreInfra (sql_select (\<lambda>r. ob_key r = ob_key ?i)) c1 = (Inr (Some r), c2)"
    and x: "x = sanitize_outbox_replay r"
    using assms a n by (auto simp: create_or_replay_def Let_def split: if_splits option.splits sum.splits prod.splits)
  have "sql_select (\<lambda>r. ob_key r = ob_key ?i) (fst c1) = (Inr (Some r), fst c2)" by (rule io_call_ok [OF b])
  then have "r \<in> set (ot_rows (fst c))" "ob_key r = ob_key item"
    using c1 key by (auto simp: sql_select_def find_Some_iff)
  from that [OF this x] show thesis .
qed

lemma receipt_replayed:
  assumes "receipt_create_or_replay fid now r c = (Inr (x, True), c')"
  obtains n where "n \<in> set (ad_outbox (fst c))" "ob_key n = lr_key r" "lr_result x = ob_result n"
proof -
  obtain item where i: "on_outbox (create_or_replay fid now (receipt_item r)) c = (Inr (item, True), c')"
      "x = from_adminstore_receipt item"
    using assms by (auto simp: receipt_create_or_replay_def split: prod.splits sum.splits)
  obtain c1 where c1: "create_or_replay fid now (receipt_item r) (\<lparr>ot_rows = ad_outbox (fst c), ot_clock = ad_now (fst c)\<rparr>, snd c)
      = (Inr (item, True), c1)"
    by (rule on_outbox_ok [OF i(1)])
  obtain n where n: "n \<in> set (ad_outbox (fst c))" "ob_key n = lr_key r" "item = sanitize_outbox_replay n"
    by (rule create_or_replay_replayed [OF c1]) (simp add: receipt_item_def)
  have "lr_result x = ob_result n" using i(2) n(3) by (simp add: from_adminstore_receipt_def sanitize_outbox_replay_def)
  from that [OF n(1,2) this] show thesis .
qed

text \<open>An answer that repeats a stored one.\<close>

definition repeated ::
  "role_service \<Rightarrow> role_input \<Rightarrow> string \<Rightarrow> role_mutation_result \<Rightarrow> admin_db \<Rightarrow> bool" where
  "repeated S i code out db \<longleftrightarrow> (\<exists>r\<in>set (ad_outbox db). ob_key r = ri_key i
     \<and> decode_stored_role_result (rs_digest S) (ob_result r) code = Inr out)"

definition outcome_of ::
  "role_service \<Rightarrow> role_input \<Rightarrow> string \<Rightarrow> role_mutation_result \<Rightarrow> admin_db \<Rightarrow> admin_db \<Rightarrow> bool" where
  "outcome_of S i code out db db' \<longleftrightarrow> db' = db \<and> repeated S i code out db \<or> committed S i code out db db'"

lemma execute_body_ok:
  assumes run: "execute_body S i fp rid code mutate auth c = (Inr out, c')"
    and mut: "mutation_ok i mutate" and ok: "bindings_ok (ad_bindings (fst c))"
    and auth: "rmd_role auth \<in> {RoleSuperAdmin, RoleTopAdmin}" "rmd_scope auth = system_scope"
  shows "authority i (fst c) \<and> outcome_of S i code out (fst c) (fst c')"
proof -
  let ?r = "\<lparr>lr_id = rid, lr_key = ri_key i, lr_fingerprint = fp,
              lr_result = \<lparr>ar_code = [], ar_digest = [], ar_payload = None\<rparr>, lr_state = ''pending'', lr_version = 1,
              lr_created_at = rs_now S, lr_terminal_at = None\<rparr>"
  obtain e c1 where e: "get_exact (ri_event i) c = (Inr e, c1)"
    using run by (auto simp: execute_body_def split: prod.splits sum.splits)
  note e' = get_exact_ok [OF e]
  obtain u c2 where u: "revalidate (ri_actor i) (ri_event i) auth c1 = (Inr u, c2)"
    using run e by (auto simp: execute_body_def split: prod.splits sum.splits)
  note u' = revalidate_ok [OF u auth(2)]
  have db2: "fst c2 = fst c" using e' u' by simp
  have a: "authority i (fst c)"
    unfolding authority_def using e' u' auth(1) by auto
  obtain x rep c3 where x: "receipt_create_or_replay (rs_fresh_id S) (rs_now S) ?r c2 = (Inr (x, rep), c3)"
    using run e u by (auto simp: execute_body_def split: prod.splits sum.splits)
  show ?thesis
  proof (cases rep)
    case True
    with run e u x have d: "decode_stored_role_result (rs_digest S) (lr_result x) code = Inr out" "c' = c3"
      by (simp_all add: execute_body_def)
    obtain n where n: "n \<in> set (ad_outbox (fst c2))" "ob_key n = lr_key ?r" "lr_result x = ob_result n"
      by (rule receipt_replayed [of _ _ ?r c2 x c3]) (use x True in simp)
    have "fst c' = fst c" using receipt_created [OF x] True d(2) db2 by simp
    moreover have "repeated S i code out (fst c)"
      unfolding repeated_def using n d(1) db2 by auto
    ultimately show ?thesis using a by (simp add: outcome_of_def)
  next
    case False
    obtain n where n: "fst c3 = (fst c)\<lparr>ad_outbox := ad_outbox (fst c) @ [n]\<rparr>" "ob_key n = ri_key i" "ob_id n = lr_id x"
      "\<forall>y\<in>set (ad_outbox (fst c)). ob_key y \<noteq> ri_key i \<and> ob_id y \<noteq> lr_id x"
      using receipt_created [OF x] False db2 by auto
    obtain b c4 where b: "mutate (rs_now S) c3 = (Inr b, c4)"
      using run e u x False by (auto simp: execute_body_def split: prod.splits sum.splits)
    obtain v c5 where v: "consume_owned (ri_reason i) (ri_actor i) ''role'' (rs_now S) (rs_two_years_after S (rs_now S)) c4 = (Inr v, c5)"
      using run e u x False b by (auto simp: execute_body_def split: prod.splits sum.splits if_splits)
    let ?res = "encode_stored_role_result (rs_digest S) code (bd_id b) (bd_version b)"
    obtain w c6 where w: "receipt_complete_local (lr_id x) (lr_version x) ?res (rs_now S) c5 = (Inr w, c6)"
      using run e u x False b v by (auto simp: execute_body_def split: prod.splits sum.splits if_splits)
    have out: "out = \<lparr>rm_binding_id = bd_id b, rm_version = bd_version b\<rparr>" "c' = c6"
      using run e u x False b v w by (auto simp: execute_body_def split: if_splits)
    have "bindings_ok (ad_bindings (fst c3))" using ok n(1) by simp
    with mut b have m: "mutated i (fst c3) (fst c4) b" unfolding mutation_ok_def by blast
    then have db4: "fst c4 = (fst c3)\<lparr>ad_bindings := ad_bindings (fst c4), ad_events := ad_events (fst c4)\<rparr>"
      by (simp add: mutated_def)
    have same4: "ad_reasons (fst c4) = ad_reasons (fst c)" "ad_outbox (fst c4) = ad_outbox (fst c) @ [n]"
      "ad_users (fst c4) = ad_users (fst c)" "ad_employees (fst c4) = ad_employees (fst c)"
      "ad_registry (fst c4) = ad_registry (fst c)"
      by (subst db4, simp add: n(1))+
    obtain rs where rs: "fst c5 = (fst c4)\<lparr>ad_reasons := rs\<rparr>"
      "\<exists>x\<in>set (ad_reasons (fst c4)). rr_id x = ri_reason i \<and> rr_owner x = ri_actor i \<and> rr_kind x = ''role'' \<and> rr_consumed_at x = None"
      "\<forall>x\<in>set rs. rr_id x = ri_reason i \<and> rr_owner x = ri_actor i \<and> rr_kind x = ''role'' \<and> rr_terminal_at x = None \<longrightarrow> rr_consumed_at x \<noteq> None"
      using consume_owned_ok [OF v] by blast
    have ob5: "ad_outbox (fst c5) = ad_outbox (fst c) @ [n]" using rs(1) same4 by simp
    obtain m' where m': "fst c6 = (fst c5)\<lparr>ad_outbox := ad_outbox (fst c) @ [m']\<rparr>" "ob_key m' = ob_key n"
      "ob_state m' = StateSucceeded" "ob_terminal_at m' \<noteq> None" "ob_result m' = stored_result ?res"
      using receipt_completed [OF w ob5 n(3)] n(4) by blast
    have fin: "ad_bindings (fst c') = ad_bindings (fst c4)" "ad_events (fst c') = ad_events (fst c4)"
      "ad_reasons (fst c') = rs" "ad_outbox (fst c') = ad_outbox (fst c) @ [m']" "ad_users (fst c') = ad_users (fst c)"
      "ad_employees (fst c') = ad_employees (fst c)" "ad_registry (fst c') = ad_registry (fst c)"
      using out(2) m'(1) rs(1) same4 by simp_all
    have bc: "binding_change (ri_target i) (ri_event i) (ad_bindings (fst c)) (ad_bindings (fst c')) b"
      and okb: "bindings_ok (ad_bindings (fst c'))" and au: "audited i (fst c) (fst c') b"
      using m fin(1,2) n(1) by (simp_all add: mutated_def audited_def)
    have "\<exists>r. ad_outbox (fst c') = ad_outbox (fst c) @ [r] \<and> ob_key r = ri_key i \<and> ob_state r = StateSucceeded
          \<and> ob_terminal_at r \<noteq> None \<and> ob_result r = receipt_of S code out"
      using fin(4) m'(2-5) n(2) out(1) by (intro exI [of _ m']) (simp add: receipt_of_def)
    moreover have "\<exists>x\<in>set (ad_reasons (fst c)). rr_id x = ri_reason i \<and> rr_owner x = ri_actor i \<and> rr_kind x = ''role'' \<and> rr_consumed_at x = None"
      using rs(2) same4(1) by simp
    moreover have "\<forall>r\<in>set (ad_outbox (fst c)). ob_key r \<noteq> ri_key i" using n(4) by blast
    ultimately have "committed S i code out (fst c) (fst c')"
      unfolding committed_def using bc au okb out(1) rs(3) fin(3,5-7) by blast
    with a show ?thesis by (simp add: outcome_of_def)
  qed
qed

section \<open>Requests\<close>

fun request_code :: "role_request \<Rightarrow> string" where
  "request_code (CreateRole i ro) = ''role.created''"
| "request_code (UpdateRole i bid ro v) = ''role.updated''"
| "request_code (DisableRole i bid v) = ''role.disabled''"

text \<open>The gate of the deployment.\<close>

definition gated ::
  "(user_id \<Rightarrow> principal_info) \<Rightarrow> (string \<Rightarrow> string \<Rightarrow> perm_error + published_policy list)
     \<Rightarrow> (wire_request \<Rightarrow> perm_error + wire_result list) \<Rightarrow> string \<Rightarrow> role_service \<Rightarrow> bool" where
  "gated info pol post rid S \<longleftrightarrow> rs_check S = Some (check_role_management (authority_env info pol post rid))"

text \<open>
  Every request that writes is the same: a validated input and a decision of the gate, then one
  transaction around the callback; anything else fails and leaves the database.
\<close>

definition one_transaction ::
  "role_service \<Rightarrow> role_input \<Rightarrow> string \<Rightarrow> admin_conn \<Rightarrow> (role_error + role_mutation_result) \<times> admin_conn \<Rightarrow> bool" where
  "one_transaction S i code c r \<longleftrightarrow>
     (\<exists>e c1. r = (Inl e, c1) \<and> fst c1 = fst c)
     \<or> (validate_common i = None \<and> (\<exists>fp rid mutate auth c1. mutation_ok i mutate
          \<and> rmd_role auth \<in> {RoleSuperAdmin, RoleTopAdmin} \<and> rmd_scope auth = system_scope \<and> fst c1 = fst c
          \<and> r = tx_run ErrRoleInfra (execute_body S i fp rid code mutate auth) c1))"

lemma one_failed [intro]: "fst c1 = fst c \<Longrightarrow> one_transaction S i code c (Inl e, c1)"
  by (simp add: one_transaction_def)

lemma execute_shape:
  assumes "validate_common i = None" "mutation_ok i mutate" "rmd_role auth \<in> {RoleSuperAdmin, RoleTopAdmin}"
    "rmd_scope auth = system_scope" "fst c1 = fst c"
  shows "one_transaction S i code c (execute S p i canonical code mutate auth c1)"
proof -
  have "one_transaction S i code c (tx_run ErrRoleInfra (execute_body S i fp rid code mutate auth) c1)" for fp rid
    unfolding one_transaction_def using assms by blast
  then show ?thesis using assms(5) by (auto simp: execute_def split: option.splits)
qed

lemma authorize_cases [consumes 1, case_names refused granted]:
  assumes "gated info pol post rid S"
  obtains (refused) e c1 where "role_authorize S i c = (Inl e, c1)" "fst c1 = fst c"
  | (granted) d c1 where "role_authorize S i c = (Inr d, c1)" "fst c1 = fst c"
      "rmd_role d \<in> {RoleSuperAdmin, RoleTopAdmin}" "rmd_scope d = system_scope"
proof -
  have chk: "rs_check S = Some (check_role_management (authority_env info pol post rid))"
    using assms by (simp add: gated_def)
  obtain x c1 where x: "role_authorize S i c = (x, c1)" by (rule prod.exhaust)
  have r: "fst c1 = fst c" using rg.authorize_reads [OF chk, of i c] x by simp
  show thesis
  proof (cases x)
    case (Inl e)
    with x r show thesis by (intro refused [of e c1]) simp_all
  next
    case (Inr d)
    with rg.authorized [OF _ chk, of i c d c1] x r show thesis by (intro granted [of d c1]) simp_all
  qed
qed

lemma create_shape:
  assumes "gated info pol post rid S"
  shows "one_transaction S i ''role.created'' c (create_role S i ro c)"
proof (cases "validate_common i = None \<and> validate_ordinary_role ro = None")
  case False
  then show ?thesis by (auto simp: create_role_def split: option.splits)
next
  case True
  show ?thesis
    using assms
  proof (cases rule: authorize_cases [where i = i and c = c])
    case (refused e c1)
    then show ?thesis using True by (simp add: create_role_def one_failed)
  next
    case (granted d c1)
    with True show ?thesis
      by (simp add: create_role_def execute_shape create_mutation_ok)
  qed
qed

lemma update_shape:
  assumes "gated info pol post rid S"
  shows "one_transaction S i ''role.updated'' c (update_role S i bid ro v c)"
proof (cases "0 < v \<and> validate_common i = None \<and> trim_space bid \<noteq> [] \<and> validate_ordinary_role ro = None")
  case False
  then show ?thesis by (auto simp: update_role_def split: option.splits)
next
  case True
  show ?thesis
    using assms
  proof (cases rule: authorize_cases [where i = i and c = c])
    case (refused e c1)
    then show ?thesis using True by (simp add: update_role_def one_failed)
  next
    case (granted d c1)
    with True show ?thesis
      by (simp add: update_role_def execute_shape update_mutation_ok)
  qed
qed

lemma disable_shape:
  assumes "gated info pol post rid S"
  shows "one_transaction S i ''role.disabled'' c (disable_role S i bid v c)"
proof (cases "0 < v \<and> validate_common i = None \<and> trim_space bid \<noteq> []")
  case False
  then show ?thesis by (auto simp: disable_role_def split: option.splits)
next
  case True
  show ?thesis
    using assms
  proof (cases rule: authorize_cases [where i = i and c = c])
    case (refused e c1)
    then show ?thesis using True by (simp add: disable_role_def one_failed)
  next
    case (granted d c1)
    with True show ?thesis
      by (simp add: disable_role_def execute_shape disable_mutation_ok)
  qed
qed

lemma request_shape:
  "gated info pol post rid S \<Longrightarrow> one_transaction S (request_input req) (request_code req) c (request_run S req c)"
  by (cases req) (simp_all add: create_shape update_shape disable_shape)

lemma self_is_refused: "validate_common i = None \<Longrightarrow> ri_actor i \<noteq> ri_target i"
  by (auto simp: validate_common_def split: if_splits)

lemma request_outcome:
  assumes g: "gated info pol post rid S" and ok: "bindings_ok (ad_bindings (fst c))"
    and run: "request_run S req c = (res, c')"
  shows "fst c' = fst c \<and> (\<forall>out. res = Inr out \<longrightarrow> repeated S (request_input req) (request_code req) out (fst c))
     \<or> (\<exists>out. (res = Inl ErrRoleInfra \<or> res = Inr out) \<and> committed S (request_input req) (request_code req) out (fst c) (fst c'))"
    and "res = Inr out \<Longrightarrow> authority (request_input req) (fst c) \<and> ri_actor (request_input req) \<noteq> ri_target (request_input req)"
proof -
  let ?i = "request_input req" and ?code = "request_code req"
  have "one_transaction S ?i ?code c (res, c')" using request_shape [OF g, of req c] run by simp
  then consider (fails) e where "res = Inl e" "fst c' = fst c"
    | (tx) fp rid mutate auth c1 where "validate_common ?i = None" "mutation_ok ?i mutate"
        "rmd_role auth \<in> {RoleSuperAdmin, RoleTopAdmin}" "rmd_scope auth = system_scope" "fst c1 = fst c"
        "(res, c') = tx_run ErrRoleInfra (execute_body S ?i fp rid ?code mutate auth) c1"
    unfolding one_transaction_def by blast
  then have "(fst c' = fst c \<and> (\<forall>out. res = Inr out \<longrightarrow> repeated S ?i ?code out (fst c))
     \<or> (\<exists>out. (res = Inl ErrRoleInfra \<or> res = Inr out) \<and> committed S ?i ?code out (fst c) (fst c')))
     \<and> (\<forall>out. res = Inr out \<longrightarrow> authority ?i (fst c) \<and> ri_actor ?i \<noteq> ri_target ?i)"
  proof cases
    case fails
    then show ?thesis by simp
  next
    case tx
    have body: "authority ?i (fst c) \<and> outcome_of S ?i ?code o1 (fst c) (fst d2)"
      if "fst d1 = fst c1" "execute_body S ?i fp rid ?code mutate auth d1 = (Inr o1, d2)" for o1 d1 d2
      using execute_body_ok [OF that(2) tx(2) _ tx(3,4)] that(1) tx(5) ok by simp
    show ?thesis
    proof (cases rule: tx_run_cases [of ErrRoleInfra "execute_body S ?i fp rid ?code mutate auth" c1])
      case (begin_failed d)
      with tx(5,6) show ?thesis by simp
    next
      case (rolled_back x d1 d2)
      with tx(5,6) show ?thesis by simp
    next
      case (commit_failed v d1 d2 d3)
      from body [OF commit_failed(1,2)] commit_failed(3,4) tx(5,6) show ?thesis
        by (auto simp: outcome_of_def)
    next
      case (committed v d1 d2 d3)
      from body [OF committed(1,2)] committed(3,4) tx(5,6) self_is_refused [OF tx(1)] show ?thesis
        by (auto simp: outcome_of_def)
    qed
  qed
  then show "fst c' = fst c \<and> (\<forall>out. res = Inr out \<longrightarrow> repeated S ?i ?code out (fst c))
     \<or> (\<exists>out. (res = Inl ErrRoleInfra \<or> res = Inr out) \<and> committed S ?i ?code out (fst c) (fst c'))"
    and "res = Inr out \<Longrightarrow> authority ?i (fst c) \<and> ri_actor ?i \<noteq> ri_target ?i" by blast+
qed


section \<open>Properties\<close>

text \<open>
  C20.  A request to create, change or disable a role binding is answered with a result only when the
  gate of the deployment, asked before the transaction, granted it and the transaction itself then
  found the actor with an active account, no employment or an active one, and an enabled
  system-wide super or top administrator binding, and the event registered and enabled.  Nobody
  is answered for a change of their own roles.
\<close>

theorem role_change_is_authorized:
  assumes "gated info pol post rid S" "bindings_ok (ad_bindings (fst c))" "request_run S req c = (Inr out, c')"
  shows "authority (request_input req) (fst c) \<and> ri_actor (request_input req) \<noteq> ri_target (request_input req)"
  using request_outcome(2) [OF assms refl] .

text \<open>
  C19.  A role request is all or nothing, whatever statement, begin or commit fails: either the database is
  the one before, or everything happened together - one ordinary event binding of the target
  appeared or moved to its next version with nothing else touched, one audit event names the
  actor, the reason and the binding, the actor's reason of kind role is consumed, and one final
  receipt holds the result under the idempotency key, which no operation had before.  A change
  that is not answered with its result was reported as an infrastructure error of the commit.
\<close>

theorem role_change_all_or_nothing:
  assumes "gated info pol post rid S" "bindings_ok (ad_bindings (fst c))" "request_run S req c = (res, c')"
  shows "fst c' = fst c
     \<or> (\<exists>out. (res = Inl ErrRoleInfra \<or> res = Inr out) \<and> committed S (request_input req) (request_code req) out (fst c) (fst c'))"
  using request_outcome(1) [OF assms] by blast

text \<open>What a change leaves alone.\<close>

definition governing :: "binding list \<Rightarrow> binding list" where
  "governing bs = filter (\<lambda>b. bd_scope b = system_scope \<or> bd_role b = RoleSuperAdmin \<or> bd_role b = RoleTopAdmin) bs"

lemma ordinary_not_governing:
  "ordinary_binding u ev b \<Longrightarrow> \<not> (bd_scope b = system_scope \<or> bd_role b = RoleSuperAdmin \<or> bd_role b = RoleTopAdmin)"
  by (auto simp: ordinary_binding_def event_scope_def system_scope_def ScopeEvent_def ScopeSystem_def)

lemma binding_change_spares:
  assumes "binding_change target ev bs bs' b"
  shows "governing bs' = governing bs"
    and "x \<in> set bs \<Longrightarrow> bd_user_id x \<noteq> target \<or> bd_scope x \<noteq> event_scope ev \<or> bd_disabled_at x \<noteq> None \<Longrightarrow> x \<in> set bs'"
proof -
  have b: "ordinary_binding target ev b" using assms by (simp add: binding_change_def)
  from assms show "governing bs' = governing bs"
    unfolding binding_change_def governing_def using ordinary_not_governing [of target ev] by fastforce
  assume x: "x \<in> set bs" "bd_user_id x \<noteq> target \<or> bd_scope x \<noteq> event_scope ev \<or> bd_disabled_at x \<noteq> None"
  then show "x \<in> set bs'"
    using assms by (auto simp: binding_change_def ordinary_binding_def)
qed

text \<open>
  C21.  Whatever a role request answers, and whatever fails, it keeps the bindings consistent, leaves every
  system-wide, super and top administrator binding as it was, and keeps every row that is not an
  enabled binding of the target in the event of the request - so nobody gains or loses
  governing power through this service, and past bindings stay.
\<close>

theorem role_change_spares_governing:
  assumes "gated info pol post rid S" "bindings_ok (ad_bindings (fst c))" "request_run S req c = (res, c')"
  shows "bindings_ok (ad_bindings (fst c')) \<and> governing (ad_bindings (fst c')) = governing (ad_bindings (fst c))
     \<and> (\<forall>b\<in>set (ad_bindings (fst c)). bd_user_id b \<noteq> ri_target (request_input req)
          \<or> bd_scope b \<noteq> event_scope (ri_event (request_input req)) \<or> bd_disabled_at b \<noteq> None
          \<longrightarrow> b \<in> set (ad_bindings (fst c')))"
proof -
  from request_outcome(1) [OF assms]
  consider "fst c' = fst c" | out where "committed S (request_input req) (request_code req) out (fst c) (fst c')" by blast
  then show ?thesis
  proof cases
    case 1
    with assms(2) show ?thesis by simp
  next
    case 2
    then obtain b where b: "binding_change (ri_target (request_input req)) (ri_event (request_input req))
        (ad_bindings (fst c)) (ad_bindings (fst c')) b" and ok: "bindings_ok (ad_bindings (fst c'))"
      unfolding committed_def by blast
    show ?thesis using ok binding_change_spares [OF b] by blast
  qed
qed

lemma committed_receipt:
  assumes "committed S i code out db db'"
  shows "\<exists>r\<in>set (ad_outbox db'). ob_key r = ri_key i \<and> ob_state r = StateSucceeded \<and> ob_result r = receipt_of S code out"
proof -
  obtain r where "ad_outbox db' = ad_outbox db @ [r]" "ob_key r = ri_key i" "ob_state r = StateSucceeded"
      "ob_result r = receipt_of S code out"
    using assms unfolding committed_def by blast
  then show ?thesis by simp
qed

text \<open>A stored result answers with the result that was stored, or not at all.\<close>

lemma decode_receipt:
  assumes "decode_stored_role_result (rs_digest S) (receipt_of S code out) want = Inr out'"
  shows "out' = out"
proof -
  have p: "payload_get [(''binding_id'', rm_binding_id out), (''version'', itoa (rm_version out))] ''version'' = itoa (rm_version out)"
    "payload_get [(''binding_id'', rm_binding_id out), (''version'', itoa (rm_version out))] ''binding_id'' = rm_binding_id out"
    by (simp_all add: payload_get_def)
  from assms have "\<exists>v. parse_int64 (itoa (rm_version out)) = Some v \<and> out' = \<lparr>rm_binding_id = rm_binding_id out, rm_version = v\<rparr>"
    by (auto simp: decode_stored_role_result_def receipt_of_def stored_result_def encode_stored_role_result_def
        payload_entries_def p split: option.splits if_splits)
  then show ?thesis by (auto dest: parse_itoa_Some)
qed

text \<open>
  C18.  An idempotency key has at most one effect.  Once a request changed the database, even one that
  was answered with an error because its commit was lost, no later request of any kind under the
  same key changes it, however the ledger went on in between and whatever fails; and two requests
  under the key that are both answered are answered with the same binding and version.
\<close>

theorem role_key_has_one_effect:
  assumes gate: "gated info pol post rid S" "gated info' pol' post' rid' S'" and digest: "rs_digest S' = rs_digest S"
    and ok: "bindings_ok (ad_bindings (fst c))" "bindings_ok (ad_bindings (fst d))"
    and first: "request_run S req c = (res, c')" "fst c' \<noteq> fst c"
    and between: "evolves (ad_outbox (fst c')) (ad_outbox (fst d))" "table_ok (ad_outbox (fst d))"
    and later: "request_run S' req' d = (res', d')" "ri_key (request_input req') = ri_key (request_input req)"
  shows "fst d' = fst d \<and> (\<forall>out out'. res = Inr out \<longrightarrow> res' = Inr out' \<longrightarrow> out' = out)"
proof -
  obtain out where out: "res = Inl ErrRoleInfra \<or> res = Inr out"
    "committed S (request_input req) (request_code req) out (fst c) (fst c')"
    using request_outcome(1) [OF gate(1) ok(1) first(1)] first(2) by blast
  obtain r where r: "r \<in> set (ad_outbox (fst c'))" "ob_key r = ri_key (request_input req)" "ob_state r = StateSucceeded"
      "ob_result r = receipt_of S (request_code req) out"
    using committed_receipt [OF out(2)] by blast
  obtain s where s: "s \<in> set (ad_outbox (fst d))" "item_life r s"
      "\<And>s'. s' \<in> set (ad_outbox (fst d)) \<Longrightarrow> ob_key s' = ob_key r \<Longrightarrow> s' = s"
    using evolves_row [OF between r(1)] by blast
  have key: "ob_key s = ri_key (request_input req')"
    using item_life_same [OF s(2)] r(2) later(2) by (simp add: same_operation_def)
  have res: "ob_result s = receipt_of S (request_code req) out"
    using final_life [OF s(2)] r(3,4) by (simp add: is_final_def result_kept_def)
  have new: "\<not> committed S' (request_input req') (request_code req') o1 (fst d) (fst d')" for o1
    using s(1) key unfolding committed_def by blast
  have d: "fst d' = fst d" and rep: "\<And>o1. res' = Inr o1 \<Longrightarrow> repeated S' (request_input req') (request_code req') o1 (fst d)"
    using request_outcome(1) [OF gate(2) ok(2) later(1)] new by blast+
  have "o2 = o1" if o1: "res = Inr o1" and o2: "res' = Inr o2" for o1 o2
  proof -
    obtain s' where s': "s' \<in> set (ad_outbox (fst d))" "ob_key s' = ri_key (request_input req')"
        "decode_stored_role_result (rs_digest S') (ob_result s') (request_code req') = Inr o2"
      using rep [OF o2] unfolding repeated_def by blast
    have "s' = s" by (rule s(3) [OF s'(1)]) (use s'(2) r(2) later(2) in simp)
    with s'(3) res digest have "decode_stored_role_result (rs_digest S) (receipt_of S (request_code req) out) (request_code req') = Inr o2"
      by simp
    from decode_receipt [OF this] out(1) o1 show "o2 = o1" by auto
  qed
  with d show ?thesis by blast
qed


section \<open>Witnesses\<close>

definition demo_admin_db :: admin_db where
  "demo_admin_db = \<lparr>ad_bindings = [demo_binding], ad_users = [''u'' \<mapsto> ''active'', ''t'' \<mapsto> ''active''],
     ad_employees = Map.empty,
     ad_registry = [\<lparr>rv_event_id = ''e1'', rv_series = ''dreamup'', rv_slug = ''s'', rv_display_name = ''d'',
       rv_source_version = ''1'', rv_authoritative_read_at = 5, rv_enabled = True, rv_version = 1\<rparr>],
     ad_reasons = [\<lparr>rr_id = ''rs1'', rr_owner = ''u'', rr_kind = ''role'', rr_consumed_at = None,
       rr_terminal_at = None, rr_expires_at = None, rr_created_at = 3,
       rr_key_id = ''k'', rr_nonce = ''n'', rr_ciphertext = ''x''\<rparr>],
     ad_outbox = [], ad_events = [], ad_now = 7\<rparr>"

definition demo_info :: "user_id \<Rightarrow> principal_info" where
  "demo_info u = \<lparr>pi_personas = [], pi_department_id = [], pi_department_name = [], pi_challenge_version = 1\<rparr>"

definition demo_published :: "string \<Rightarrow> string \<Rightarrow> perm_error + published_policy list" where
  "demo_published a s = Inr [demo_policy EffectAllow]"

definition demo_post :: "wire_request \<Rightarrow> perm_error + wire_result list" where
  "demo_post q = Inr (map (\<lambda>r. \<lparr>ws_id = wr_id r, ws_actions = [''evaluate'' \<mapsto> ''EFFECT_ALLOW'']\<rparr>) (wq_resources q))"

abbreviation "demo_gate \<equiv> check_role_management (authority_env demo_info demo_published demo_post ''r'')"

definition demo_service :: role_service where
  "demo_service = \<lparr>rs_wired = True, rs_check = Some demo_gate,
     rs_fingerprint = (\<lambda>p s. Some \<lparr>fp_version = ''hmac-sha256-v1'', fp_key_id = ''k'', fp_digest = replicate 32 (CHR ''d'')\<rparr>),
     rs_marshal = (\<lambda>kvs. []), rs_digest = (\<lambda>s. replicate 32 (CHR ''h'')), rs_now = 9,
     rs_new_id = (\<lambda>p. Some (p @ ''x'')), rs_two_years_after = (\<lambda>t. t + 100), rs_fresh_id = ''f''\<rparr>"

definition demo_input :: role_input where
  "demo_input = \<lparr>ri_actor = ''u'', ri_target = ''t'', ri_event = ''e1'', ri_reason = ''rs1'', ri_request = ''q'',
     ri_key = replicate 32 (CHR ''k'')\<rparr>"

lemma demo_gated: "gated demo_info demo_published demo_post ''r'' demo_service"
  by (simp add: gated_def demo_service_def)

lemma demo_bindings_ok: "bindings_ok (ad_bindings demo_admin_db)"
  by (simp add: bindings_ok_def demo_admin_db_def binding_check_def demo_binding_def)

definition demo_grant :: role_management_decision where
  "demo_grant = \<lparr>rmd_allowed = True, rmd_role = RoleSuperAdmin, rmd_binding_id = ''b1'', rmd_binding_version = 3,
     rmd_scope = system_scope\<rparr>"

lemma demo_gate_grants: "demo_gate ''u'' ''e1'' (demo_admin_db, []) = (Inr demo_grant, (demo_admin_db, []))"
proof -
  let ?re = "\<lparr>re_kind = ''role_binding'', re_id = ''e1'', re_event_id = ''e1'', re_attributes = Map.empty\<rparr>"
  have v: "validate_scoped_request ''u'' ActionRoleManage ?re = None"
    by (simp add: validate_scoped_request_def demo_role_manage trim_space_def is_space_def)
  have f: "fixed_role_allows RoleSuperAdmin ActionRoleManage"
    by (simp add: fixed_role_allows_def demo_role_manage)
  have r: "validate_role_scope RoleSuperAdmin system_scope = None"
    by (simp add: validate_role_scope_iff)
  have b: "active_binding demo_binding" by (simp add: active_binding_def demo_binding_def)
  have rel: "list_all (relevant_policy ActionRoleManage ?re) [demo_policy EffectAllow]"
    by (simp add: relevant_policy_def demo_policy_def)
  have bind: "bd_role demo_binding = RoleSuperAdmin" "bd_scope demo_binding = system_scope"
      "bd_user_id demo_binding = ''u''" "bd_id demo_binding = ''b1''" "bd_version demo_binding = 3"
      "bd_disabled_at demo_binding = None" "bd_enabled demo_binding"
    by (simp_all add: demo_binding_def)
  have s: "get_for_scope ''u'' system_scope (demo_admin_db, []) = (Inr demo_binding, (demo_admin_db, []))"
    by (simp add: get_for_scope_def scope_key_def system_scope_def ScopeSystem_def sql_find_binding_def demo_admin_db_def bind)
  have e: "get_for_scope ''u'' (event_scope ''e1'') (demo_admin_db, []) = (Inl ErrBindingNotFound, (demo_admin_db, []))"
    by (simp add: get_for_scope_def scope_key_def event_scope_def system_scope_def ScopeSystem_def ScopeEvent_def
        sql_find_binding_def demo_admin_db_def bind trim_space_def is_space_def)
  let ?E = "authority_env demo_info demo_published demo_post ''r''"
  have au: "ad_users demo_admin_db ''u'' = Some ''active''" "ad_employees demo_admin_db ''u'' = None"
    by (simp_all add: demo_admin_db_def)
  have "\<exists>pr. get_permission_principal demo_info ''u'' (demo_admin_db, []) = (Inr pr, (demo_admin_db, []))
     \<and> \<not> lifecycle_blocked pr \<and> pc_challenge_version pr = 1"
    by (simp add: get_permission_principal_def au Let_def lifecycle_blocked_def demo_info_def)
  then obtain pr where p: "get_permission_principal demo_info ''u'' (demo_admin_db, []) = (Inr pr, (demo_admin_db, []))"
    "\<not> lifecycle_blocked pr" "pc_challenge_version pr = 1" by blast
  have w: "check_with_binding ?E ''u'' ActionRoleManage ?re pr demo_binding (demo_admin_db, [])
     = (Inr \<lparr>sd_allowed = True, sd_role = RoleSuperAdmin, sd_binding_id = ''b1'', sd_binding_version = 3,
          sd_challenge_version = 1\<rparr>, (demo_admin_db, []))"
    using f b rel bind p(2,3)
    by (simp add: check_with_binding_def check_batches.simps max_checks_per_request_def cerbos_check_def demo_post_def
        resource_check_of_def wire_of_def decision_of_def combine_scoped_policy_decisions_def demo_published_def
        demo_policy_def)
  have sel: "select_scoped_binding ActionRoleManage demo_binding no_binding = demo_binding"
    using b bind by (simp add: select_scoped_binding_def)
  have "authorizer_check ?E ''u'' ActionRoleManage ?re (demo_admin_db, [])
     = (Inr \<lparr>sd_allowed = True, sd_role = RoleSuperAdmin, sd_binding_id = ''b1'', sd_binding_version = 3,
          sd_challenge_version = 1\<rparr>, (demo_admin_db, []))"
    using v demo_role_manage(2) by (simp add: authorizer_check_def load_optional_binding_def s e r bind p w sel)
  then show ?thesis by (simp add: check_role_management_def trim_space_def is_space_def demo_grant_def)
qed

lemma demo_authorized: "role_authorize demo_service demo_input (demo_admin_db, []) = (Inr demo_grant, (demo_admin_db, []))"
  by (simp add: role_authorize_def demo_service_def demo_input_def demo_gate_grants)
     (simp add: demo_grant_def validate_role_scope_iff trim_space_def is_space_def)

lemma demo_valid: "validate_common demo_input = None" "validate_ordinary_role RoleAdmin = None"
  by (simp_all add: validate_common_def demo_input_def trim_space_def is_space_def valid_idempotency_key_def
      list_all_iff is_token_char_def is_alnum_def validate_ordinary_role_def)


definition demo_created :: binding where
  "demo_created = \<lparr>bd_id = ''arb_x'', bd_user_id = ''t'', bd_role = RoleAdmin, bd_scope = event_scope ''e1'',
     bd_enabled = True, bd_version = 1, bd_granted_by = ''u'', bd_reason_id = ''rs1'', bd_disabled_at = None,
     bd_created_at = 9, bd_updated_at = 9\<rparr>"

lemma demo_created_check: "binding_check demo_created"
  by (simp add: binding_check_def demo_created_def event_scope_def ScopeEvent_def)

lemma demo_create_mutation:
  assumes "ad_bindings db = [demo_binding]" "ad_users db ''t'' = Some ''active''"
  shows "\<exists>db'. create_mutation demo_service demo_input RoleAdmin 9 (db, []) = (Inr demo_created, (db', []))
    \<and> ad_reasons db' = ad_reasons db \<and> ad_outbox db' = ad_outbox db"
proof -
  have c: "created_binding (ad_now db) \<lparr>bd_id = ''arb_x'', bd_user_id = ''t'', bd_role = RoleAdmin, bd_scope = event_scope ''e1'',
     bd_enabled = True, bd_version = 1, bd_granted_by = ''u'', bd_reason_id = ''rs1'', bd_disabled_at = None,
     bd_created_at = 9, bd_updated_at = 9\<rparr> = demo_created"
    by (simp add: created_binding_def demo_created_def zero_time_def)
  have r: "validate_role_scope RoleAdmin (event_scope ''e1'') = None"
    by (simp add: validate_role_scope_iff trim_space_def is_space_def)
  have i: "sql_insert_binding demo_created db = (Inr (), db\<lparr>ad_bindings := ad_bindings db @ [demo_created]\<rparr>)"
    using assms by (simp add: sql_insert_binding_def demo_created_check) (simp add: demo_created_def demo_binding_def)
  show ?thesis
    by (simp add: create_mutation_def demo_service_def demo_input_def create_binding_def c r i Let_def
        record_admin_mutation_def mutation_audit_of_def sql_insert_event_def)
qed


definition demo_receipt :: local_operation_receipt where
  "demo_receipt = \<lparr>lr_id = ''aop_x'', lr_key = replicate 32 (CHR ''k''),
     lr_fingerprint = \<lparr>fp_version = ''hmac-sha256-v1'', fp_key_id = ''k'', fp_digest = replicate 32 (CHR ''d'')\<rparr>,
     lr_result = \<lparr>ar_code = [], ar_digest = [], ar_payload = None\<rparr>, lr_state = ''pending'', lr_version = 1,
     lr_created_at = 9, lr_terminal_at = None\<rparr>"

definition demo_row :: outbox_item where
  "demo_row = new_row (outbox_defaults ''f'' 9 (receipt_item demo_receipt))"

lemma demo_row_check: "row_check demo_row"
  by (simp add: row_check_def demo_row_def new_row_def outbox_defaults_def receipt_item_def demo_receipt_def
      outbox_constants payload_entries_def stored_result_def delivery_phase_valid_def zero_time_def)

lemma demo_receipt_created:
  "\<exists>x. receipt_create_or_replay ''f'' 9 demo_receipt (demo_admin_db, [])
     = (Inr (x, False), (demo_admin_db\<lparr>ad_outbox := [demo_row]\<rparr>, [])) \<and> lr_id x = ''aop_x'' \<and> lr_version x = 1"
proof -
  have i: "sql_insert demo_row \<lparr>ot_rows = [], ot_clock = 7\<rparr> = (Inr 1, \<lparr>ot_rows = [demo_row], ot_clock = 7\<rparr>)"
    by (simp add: sql_insert_def demo_row_check)
  have v: "delivery_phase_valid (ob_phase (outbox_defaults ''f'' 9 (receipt_item demo_receipt)))"
     "validate_optional_result (ob_result (outbox_defaults ''f'' 9 (receipt_item demo_receipt))) = None"
    by (simp_all add: outbox_defaults_def receipt_item_def delivery_phase_valid_def validate_optional_result_def
        demo_receipt_def payload_entries_def Let_def)
  have db: "ad_outbox demo_admin_db = []" "ad_now demo_admin_db = 7" by (simp_all add: demo_admin_db_def)
  have x: "lr_id (from_adminstore_receipt (outbox_defaults ''f'' 9 (receipt_item demo_receipt))) = ''aop_x''"
    "lr_version (from_adminstore_receipt (outbox_defaults ''f'' 9 (receipt_item demo_receipt))) = 1"
    by (simp_all add: from_adminstore_receipt_def outbox_defaults_def receipt_item_def demo_receipt_def Let_def)
  show ?thesis
    using x by (simp add: receipt_create_or_replay_def on_outbox_def db create_or_replay_def v i [unfolded demo_row_def] demo_row_def
        Let_def del: One_nat_def)
qed

lemma demo_completed:
  assumes "ad_outbox db = [demo_row]"
  shows "\<exists>db'. receipt_complete_local ''aop_x'' 1 (encode_stored_role_result (rs_digest demo_service) ''role.created'' ''arb_x'' 1) 9
     (db, []) = (Inr (), (db', [])) \<and> table_ok (ad_outbox db')"
proof -
  let ?res = "encode_stored_role_result (rs_digest demo_service) ''role.created'' ''arb_x'' 1"
  let ?f = "\<lambda>r. (bumped 9 r)\<lparr>ob_state := StateSucceeded, ob_result := stored_result ?res, ob_terminal_at := Some 9\<rparr>"
  have "itoa 1 = ''1''" by code_simp
  then have res: "result_validate ?res = None" and "list_all (\<lambda>(k, v). stored_value_ok k v) (payload_entries ?res)"
    by (simp_all add: result_validate_def encode_stored_role_result_def demo_service_def allowed_result_codes_def
        result_digest_ok_def list_all_iff is_token_char_def is_alnum_def is_digit_def payload_entries_def payload_value_ok_def
        valid_result_id_def has_prefix_def parse_int64_def digits_value_def stored_value_ok_def stored_digits_def)
  then have chk: "row_check (?f demo_row)"
    using demo_row_check by (simp add: row_check_def demo_row_def new_row_def outbox_defaults_def receipt_item_def
      demo_receipt_def bumped_def stored_result_def delivery_phase_valid_def encode_stored_role_result_def demo_service_def
      allowed_result_codes_def result_digest_ok_def list_all_iff is_token_char_def is_alnum_def is_digit_def
      payload_entries_def Let_def)
  have p: "ob_id demo_row = ''aop_x''" "ob_version demo_row = 1" "ob_kind demo_row = OperationLocal"
    "ob_state demo_row = StatePending" "ob_terminal_at demo_row = None"
    by (simp_all add: demo_row_def new_row_def outbox_defaults_def receipt_item_def demo_receipt_def StatePending_def Let_def)
  show ?thesis
    using res chk p by (simp add: receipt_complete_local_def on_outbox_def assms complete_local_def exec_one_def sql_update_def table_ok_def)
qed

lemma demo_execute:
  "\<exists>c'. execute_body demo_service demo_input \<lparr>fp_version = ''hmac-sha256-v1'', fp_key_id = ''k'', fp_digest = replicate 32 (CHR ''d'')\<rparr>
     ''aop_x'' ''role.created'' (create_mutation demo_service demo_input RoleAdmin) demo_grant (demo_admin_db, [])
     = (Inr \<lparr>rm_binding_id = ''arb_x'', rm_version = 1\<rparr>, (c', [])) \<and> table_ok (ad_outbox c')"
proof -
  have e: "\<exists>x. get_exact ''e1'' (demo_admin_db, []) = (Inr x, (demo_admin_db, []))"
    by (simp add: get_exact_def sql_find_event_def demo_admin_db_def validate_registered_event_def zero_time_def)
  have u: "revalidate ''u'' ''e1'' demo_grant (demo_admin_db, []) = (Inr (), (demo_admin_db, []))"
    by (simp add: revalidate_def demo_grant_def validate_role_scope_iff sql_user_status_def sql_employee_status_def
        sql_find_binding_def demo_admin_db_def demo_binding_def)
  obtain x where x: "receipt_create_or_replay ''f'' 9 demo_receipt (demo_admin_db, [])
     = (Inr (x, False), (demo_admin_db\<lparr>ad_outbox := [demo_row]\<rparr>, []))" "lr_id x = ''aop_x''" "lr_version x = 1"
    using demo_receipt_created by blast
  obtain db1 where m: "create_mutation demo_service demo_input RoleAdmin 9 (demo_admin_db\<lparr>ad_outbox := [demo_row]\<rparr>, [])
      = (Inr demo_created, (db1, []))" "ad_reasons db1 = ad_reasons demo_admin_db" "ad_outbox db1 = [demo_row]"
    using demo_create_mutation [of "demo_admin_db\<lparr>ad_outbox := [demo_row]\<rparr>"] by (auto simp: demo_admin_db_def)
  obtain db2 where r: "consume_owned ''rs1'' ''u'' ''role'' 9 109 (db1, []) = (Inr (), (db2, []))" "ad_outbox db2 = [demo_row]"
    using m(2,3) by (simp add: consume_owned_def sql_consume_reason_def reason_check_def consumed_reason_def Let_def demo_admin_db_def)
  obtain db3 where d: "receipt_complete_local ''aop_x'' 1 (encode_stored_role_result (rs_digest demo_service) ''role.created'' ''arb_x'' 1) 9
     (db2, []) = (Inr (), (db3, []))" "table_ok (ad_outbox db3)"
    using demo_completed [OF r(2)] by blast
  have f: "ri_event demo_input = ''e1''" "ri_actor demo_input = ''u''" "ri_reason demo_input = ''rs1''"
      "rs_fresh_id demo_service = ''f''" "rs_now demo_service = 9" "rs_two_years_after demo_service 9 = 109"
      "bd_id demo_created = ''arb_x''" "bd_version demo_created = 1" "ri_key demo_input = lr_key demo_receipt"
    by (simp_all add: demo_input_def demo_service_def demo_created_def demo_receipt_def)
  have rec: "\<lparr>lr_id = ''aop_x'', lr_key = lr_key demo_receipt,
     lr_fingerprint = \<lparr>fp_version = ''hmac-sha256-v1'', fp_key_id = ''k'', fp_digest = replicate 32 (CHR ''d'')\<rparr>,
     lr_result = \<lparr>ar_code = [], ar_digest = [], ar_payload = None\<rparr>, lr_state = ''pending'', lr_version = 1,
     lr_created_at = 9, lr_terminal_at = None\<rparr> = demo_receipt"
    by (simp add: demo_receipt_def)
  from e obtain ev where ev: "get_exact ''e1'' (demo_admin_db, []) = (Inr ev, (demo_admin_db, []))" by blast
  show ?thesis
    by (simp only: execute_body_def f ev u rec x m r d prod.case sum.case bool.case list.distinct if_False simp_thms) (simp add: d(2))
qed


abbreviation "demo_request \<equiv> CreateRole demo_input RoleAdmin"

definition demo_after :: admin_conn where
  "demo_after = snd (request_run demo_service demo_request (demo_admin_db, []))"

lemma demo_run:
  "request_run demo_service demo_request (demo_admin_db, [])
     = (Inr \<lparr>rm_binding_id = ''arb_x'', rm_version = 1\<rparr>, demo_after) \<and> table_ok (ad_outbox (fst demo_after))"
proof -
  let ?fp = "\<lparr>fp_version = ''hmac-sha256-v1'', fp_key_id = ''k'', fp_digest = replicate 32 (CHR ''d'')\<rparr>"
  obtain db where db: "execute_body demo_service demo_input ?fp ''aop_x'' ''role.created''
       (create_mutation demo_service demo_input RoleAdmin) demo_grant (demo_admin_db, [])
     = (Inr \<lparr>rm_binding_id = ''arb_x'', rm_version = 1\<rparr>, (db, []))" "table_ok (ad_outbox db)"
    using demo_execute by blast
  have f: "rs_wired demo_service" "rs_fingerprint demo_service p s = Some ?fp" "rs_new_id demo_service ''aop_'' = Some ''aop_x''" for p s
    by (simp_all add: demo_service_def)
  have "request_run demo_service demo_request (demo_admin_db, []) = (Inr \<lparr>rm_binding_id = ''arb_x'', rm_version = 1\<rparr>, (db, []))"
    by (simp add: create_role_def demo_valid demo_authorized execute_def f tx_run_def db(1))
  with db(2) show ?thesis by (simp add: demo_after_def)
qed

lemma demo_changed: "fst demo_after \<noteq> demo_admin_db \<and> bindings_ok (ad_bindings (fst demo_after))"
proof -
  have "\<exists>out. committed demo_service demo_input ''role.created'' out demo_admin_db (fst demo_after)"
  proof -
    have "\<not> repeated demo_service demo_input ''role.created'' out demo_admin_db" for out
      by (simp add: repeated_def demo_admin_db_def)
    with request_outcome(1) [OF demo_gated _ conjunct1 [OF demo_run]] demo_bindings_ok show ?thesis
      by (auto simp only: fst_conv request_input.simps request_code.simps)
  qed
  then obtain out where c: "committed demo_service demo_input ''role.created'' out demo_admin_db (fst demo_after)" by blast
  then have "ad_outbox (fst demo_after) \<noteq> ad_outbox demo_admin_db" unfolding committed_def by fastforce
  with c show ?thesis unfolding committed_def by auto
qed

theorem role_change_is_authorized_witness:
  "authority demo_input demo_admin_db \<and> ri_actor demo_input \<noteq> ri_target demo_input"
  by (rule role_change_is_authorized [OF demo_gated _ conjunct1 [OF demo_run], unfolded fst_conv request_input.simps,
        OF demo_bindings_ok])

theorem role_change_all_or_nothing_witness:
  "\<exists>out. committed demo_service demo_input ''role.created'' out demo_admin_db (fst demo_after)"
  using role_change_all_or_nothing [OF demo_gated _ conjunct1 [OF demo_run]] demo_bindings_ok demo_changed
  by (auto simp only: fst_conv request_input.simps request_code.simps)

theorem role_change_spares_governing_witness:
  "bindings_ok (ad_bindings (fst demo_after)) \<and> governing (ad_bindings (fst demo_after)) = [demo_binding]"
proof -
  have "governing (ad_bindings demo_admin_db) = [demo_binding]"
    by (simp add: governing_def demo_admin_db_def demo_binding_def)
  with role_change_spares_governing [OF demo_gated _ conjunct1 [OF demo_run]] demo_bindings_ok
  show ?thesis by (simp only: fst_conv)
qed

theorem role_key_has_one_effect_witness:
  "fst (snd (request_run demo_service (DisableRole (demo_input\<lparr>ri_reason := ''rs2''\<rparr>) ''arb_x'' 1) (fst demo_after, [])))
     = fst demo_after"
proof -
  let ?req = "DisableRole (demo_input\<lparr>ri_reason := ''rs2''\<rparr>) ''arb_x'' 1"
  obtain res d' where r: "request_run demo_service ?req (fst demo_after, []) = (res, d')" by (rule prod.exhaust)
  have k: "ri_key (request_input ?req) = ri_key (request_input demo_request)" by simp
  have "fst d' = fst (fst demo_after, [] :: fault list)"
    by (rule conjunct1 [OF role_key_has_one_effect [OF demo_gated demo_gated refl _ _ conjunct1 [OF demo_run] _ _ _ r k]])
       (simp_all add: demo_bindings_ok demo_changed demo_run)
  with arg_cong [OF r, of "\<lambda>x. fst (snd x)"] show ?thesis by (simp only: fst_conv snd_conv)
qed

end
