(* ===== verification/ScriptStores.thy ===== *)
theory ScriptStores
  imports SessionTypes
begin

text \<open>
  Redis stores whose methods run one command or one Lua script each: when a key is there, what
  any number of clients make of a store over time, and the one law their invariants rest on.
\<close>

section \<open>Expiry\<close>

text \<open>A key with the deadline \<open>t\<close> is there until the millisecond \<open>t\<close> has passed.\<close>

definition unexpired :: "int \<Rightarrow> int option \<Rightarrow> bool" where
  "unexpired ms w = (case w of None \<Rightarrow> True | Some t \<Rightarrow> ms \<le> t)"

section \<open>Histories of a store\<close>

text \<open>
  What any number of clients make of a store: calls one after the other, each with faults of its
  own, and time passing on the server.  \<open>P\<close> restricts the calls.
\<close>

inductive store_reaches ::
  "('op \<Rightarrow> 's conn \<Rightarrow> 's conn) \<Rightarrow> (int \<Rightarrow> 's \<Rightarrow> 's) \<Rightarrow> ('op \<Rightarrow> bool) \<Rightarrow> 's \<Rightarrow> 's \<Rightarrow> bool"
  for run tick P db where
  here: "store_reaches run tick P db db"
| call: "store_reaches run tick P db db' \<Longrightarrow> P op \<Longrightarrow> store_reaches run tick P db (fst (run op (db', fs)))"
| wait: "store_reaches run tick P db db' \<Longrightarrow> 0 \<le> d \<Longrightarrow> store_reaches run tick P db (tick d db')"

lemma fst_io_call: "fst (io_call e f c) = Inl e \<or> fst (io_call e f c) = fst (f (fst c))"
  by (cases "(e, f, c)" rule: io_call.cases) auto

lemma io_effect:
  "fst (snd (io_call e f c)) = fst c \<or> fst (snd (io_call e f c)) = snd (f (fst c))"
  by (rule io_call_state)

section \<open>Stores driven by scripts\<close>

locale script_store =
  fixes run :: "'op \<Rightarrow> 's conn \<Rightarrow> 's conn" and tick :: "int \<Rightarrow> 's \<Rightarrow> 's" and effect :: "'op \<Rightarrow> 's \<Rightarrow> 's"
  assumes run_effect: "fst (run op c) = fst c \<or> fst (run op c) = effect op (fst c)"
begin

lemma reaches_keeps:
  assumes "store_reaches run tick P db db'" "I db"
    and "\<And>op db. P op \<Longrightarrow> I db \<Longrightarrow> I (effect op db)" "\<And>d db. 0 \<le> d \<Longrightarrow> I db \<Longrightarrow> I (tick d db)"
  shows "I db'"
  using assms(1)
proof induction
  case here
  show ?case by (rule assms(2))
next
  case (call db' op fs)
  from run_effect [of op "(db', fs)"] call assms(3) show ?case by auto
next
  case (wait db' d)
  then show ?case using assms(4) by blast
qed

end

end
