(* ===== verification/ChallengeStores.thy ===== *)
theory ChallengeStores
  imports ScriptStores
begin

text \<open>
  Challenges with a claim lock, kept in Redis: the login second factor
  (\<open>internal/adapters/redis/mfa_store.go\<close>), and what the reauthentication and enrollment stores
  share with it.  A challenge, its attempt counter and its claim lock live under three keys of the
  same token hash; every method is one command or one Lua script, so a method is one atomic step
  that may fault before or after it took effect.
\<close>

section \<open>The state\<close>

datatype challenge_error =
  ErrChallengeNotFound | ErrChallengeClaimed | ErrChallengeNotHeld | ErrMaxAttemptsExceeded
  | ErrChallengeInfra \<comment> \<open>a Redis failure, or a payload that does not decode\<close>
  | ErrChallengeRefused string \<comment> \<open>an \<open>errors.New\<close> of the store itself\<close>

datatype 'd stored = Readable 'd | Garbled string

text \<open>
  Each value carries the millisecond at which the server expires it, None when it never does; a
  key is there until that millisecond has passed.  The key segments differ, and a token hash is
  hexadecimal, so the three families never meet.
\<close>

record 'd challenge_db =
  cd_ms :: int
  cd_data :: "token_hash \<rightharpoonup> 'd stored \<times> int option"
  cd_attempts :: "token_hash \<rightharpoonup> int \<times> int option"
  cd_claims :: "token_hash \<rightharpoonup> string \<times> int"

definition live_data :: "('d, 'z) challenge_db_scheme \<Rightarrow> token_hash \<Rightarrow> 'd stored option" where
  "live_data db h = (case cd_data db h of None \<Rightarrow> None | Some (d, w) \<Rightarrow> if unexpired (cd_ms db) w then Some d else None)"

definition live_attempts :: "('d, 'z) challenge_db_scheme \<Rightarrow> token_hash \<Rightarrow> (int \<times> int option) option" where
  "live_attempts db h = (case cd_attempts db h of None \<Rightarrow> None
     | Some (n, w) \<Rightarrow> if unexpired (cd_ms db) w then Some (n, w) else None)"

definition live_claim :: "('d, 'z) challenge_db_scheme \<Rightarrow> token_hash \<Rightarrow> string option" where
  "live_claim db h = (case cd_claims db h of None \<Rightarrow> None | Some (c, t) \<Rightarrow> if cd_ms db \<le> t then Some c else None)"

definition cd_tick :: "int \<Rightarrow> ('d, 'z) challenge_db_scheme \<Rightarrow> ('d, 'z) challenge_db_scheme" where
  "cd_tick d db = db\<lparr>cd_ms := cd_ms db + d\<rparr>"

text \<open>
  \<open>Set\<close> of the client library: a positive expiration counts in milliseconds, at least one;
  \<open>KeepTTL\<close> is minus one; any other expiration stores the value for good.
\<close>

definition set_expiry :: "int \<Rightarrow> int option \<Rightarrow> duration \<Rightarrow> int option" where
  "set_expiry ms old ttl =
     (if 0 < ttl then Some (ms + max 1 (dur_millis ttl)) else if ttl = - 1 then old else None)"

definition data_expiry :: "('d, 'z) challenge_db_scheme \<Rightarrow> token_hash \<Rightarrow> int option" where
  "data_expiry db h = (case cd_data db h of None \<Rightarrow> None | Some (d, w) \<Rightarrow> if unexpired (cd_ms db) w then w else None)"

definition set_data ::
  "token_hash \<Rightarrow> 'd \<Rightarrow> duration \<Rightarrow> ('d, 'z) challenge_db_scheme \<Rightarrow> (challenge_error + unit) \<times> ('d, 'z) challenge_db_scheme" where
  "set_data h d ttl db =
     (Inr (), db\<lparr>cd_data := (cd_data db)(h \<mapsto> (Readable d, set_expiry (cd_ms db) (data_expiry db h) ttl))\<rparr>)"

section \<open>The Lua scripts\<close>

definition increment_script ::
  "token_hash \<Rightarrow> ('d, 'z) challenge_db_scheme \<Rightarrow> (challenge_error + int) \<times> ('d, 'z) challenge_db_scheme" where
  "increment_script h db =
     (if live_data db h = None then (Inr (- 1), db)
      else let (n, w) = (case live_attempts db h of None \<Rightarrow> (0, None) | Some x \<Rightarrow> x);
               w' = (case data_expiry db h of None \<Rightarrow> w | Some t \<Rightarrow> if 0 < t - cd_ms db then Some t else w)
           in (Inr (n + 1), db\<lparr>cd_attempts := (cd_attempts db)(h \<mapsto> (n + 1, w'))\<rparr>))"

definition claim_script ::
  "token_hash \<Rightarrow> string \<Rightarrow> int \<Rightarrow> ('d, 'z) challenge_db_scheme
     \<Rightarrow> (challenge_error + 'd stored option) \<times> ('d, 'z) challenge_db_scheme" where
  "claim_script h cid ttl_ms db =
     (if live_claim db h \<noteq> None then (Inl ErrChallengeClaimed, db)
      else case live_data db h of
        None \<Rightarrow> (Inr None, db\<lparr>cd_claims := (cd_claims db)(h := None)\<rparr>)
      | Some d \<Rightarrow> (Inr (Some d), db\<lparr>cd_claims := (cd_claims db)(h \<mapsto> (cid, cd_ms db + ttl_ms))\<rparr>))"

definition release_script ::
  "token_hash \<Rightarrow> string \<Rightarrow> ('d, 'z) challenge_db_scheme \<Rightarrow> (challenge_error + int) \<times> ('d, 'z) challenge_db_scheme" where
  "release_script h cid db =
     (if live_claim db h \<noteq> Some cid then (Inr 0, db)
      else (Inr 1, db\<lparr>cd_claims := (cd_claims db)(h := None)\<rparr>))"

definition consume_script ::
  "token_hash \<Rightarrow> string \<Rightarrow> ('d, 'z) challenge_db_scheme \<Rightarrow> (challenge_error + int) \<times> ('d, 'z) challenge_db_scheme" where
  "consume_script h cid db =
     (if live_claim db h \<noteq> Some cid then (Inr 0, db)
      else if live_data db h = None then (Inr (- 1), db\<lparr>cd_claims := (cd_claims db)(h := None)\<rparr>)
      else (Inr 1, db\<lparr>cd_data := (cd_data db)(h := None), cd_attempts := (cd_attempts db)(h := None),
                       cd_claims := (cd_claims db)(h := None)\<rparr>))"

text \<open>What the methods make of a script's reply.\<close>

definition claim_reply ::
  "('d \<Rightarrow> 'd) \<Rightarrow> (challenge_error + 'd stored option) \<times> 'c \<Rightarrow> (challenge_error + 'd) \<times> 'c" where
  "claim_reply norm r =
     (case r of
        (Inl e, c) \<Rightarrow> (Inl e, c)
      | (Inr None, c) \<Rightarrow> (Inl ErrChallengeNotFound, c)
      | (Inr (Some (Garbled raw)), c) \<Rightarrow> (Inl ErrChallengeInfra, c)
      | (Inr (Some (Readable d)), c) \<Rightarrow> (Inr (norm d), c))"

definition release_reply :: "(challenge_error + int) \<times> 'c \<Rightarrow> (challenge_error + unit) \<times> 'c" where
  "release_reply r =
     (case r of
        (Inl e, c) \<Rightarrow> (Inl e, c)
      | (Inr n, c) \<Rightarrow> if n = 0 then (Inl ErrChallengeNotHeld, c) else (Inr (), c))"

definition consume_reply :: "(challenge_error + int) \<times> 'c \<Rightarrow> (challenge_error + unit) \<times> 'c" where
  "consume_reply r =
     (case r of
        (Inl e, c) \<Rightarrow> (Inl e, c)
      | (Inr n, c) \<Rightarrow> if n = 1 then (Inr (), c)
                    else if n = - 1 then (Inl ErrChallengeNotFound, c) else (Inl ErrChallengeNotHeld, c))"

definition increment_reply :: "int \<Rightarrow> (challenge_error + int) \<times> 'c \<Rightarrow> (int \<times> challenge_error option) \<times> 'c" where
  "increment_reply max_attempts r =
     (case r of
        (Inl e, c) \<Rightarrow> ((0, Some e), c)
      | (Inr n, c) \<Rightarrow> if n < 0 then ((0, Some ErrChallengeNotFound), c)
                    else if max_attempts \<le> n then ((n, Some ErrMaxAttemptsExceeded), c) else ((n, None), c))"

section \<open>The second-factor store\<close>

record mfa_challenge =
  mf_user_id :: user_id
  mf_provider :: string
  mf_provider_session_reference :: string
  mf_authentication_methods :: "string list"
  mf_available_methods :: "string list"
  mf_provider_session_id :: string
  mf_passkey_request_options :: string
  mf_attempts :: int
  mf_remember :: bool
  mf_client_kind :: string
  mf_created_at :: time

type_synonym mfa_conn = "mfa_challenge challenge_db conn"

abbreviation "refused_hash \<equiv> Inl (ErrChallengeRefused ''token hash must not be empty'')"
abbreviation "refused_claim \<equiv> Inl (ErrChallengeRefused ''claim id must not be empty'')"

definition mfaClaimTTL :: duration where "mfaClaimTTL = seconds 60"

definition mfa_create :: "token_hash \<Rightarrow> mfa_challenge \<Rightarrow> duration \<Rightarrow> mfa_conn \<Rightarrow> (challenge_error + unit) \<times> mfa_conn" where
  "mfa_create h d ttl c =
     (if h = [] then (refused_hash, c) else io_call ErrChallengeInfra (set_data h d ttl) c)"

definition mfa_get :: "token_hash \<Rightarrow> mfa_conn \<Rightarrow> (challenge_error + mfa_challenge) \<times> mfa_conn" where
  "mfa_get h c =
     (if h = [] then (refused_hash, c)
      else claim_reply id (io_call ErrChallengeInfra (\<lambda>db. (Inr (live_data db h), db)) c))"

text \<open>One pipeline of two \<open>DEL\<close>s, taken as one step.\<close>

definition mfa_delete :: "token_hash \<Rightarrow> mfa_conn \<Rightarrow> (challenge_error + unit) \<times> mfa_conn" where
  "mfa_delete h c =
     (if h = [] then (refused_hash, c)
      else io_call ErrChallengeInfra (\<lambda>db. (Inr (), db\<lparr>cd_data := (cd_data db)(h := None),
             cd_attempts := (cd_attempts db)(h := None)\<rparr>)) c)"

definition mfa_increment_attempts :: "token_hash \<Rightarrow> int \<Rightarrow> mfa_conn \<Rightarrow> (int \<times> challenge_error option) \<times> mfa_conn" where
  "mfa_increment_attempts h max_attempts c =
     (if h = [] then ((0, Some (ErrChallengeRefused ''token hash must not be empty'')), c)
      else increment_reply max_attempts (io_call ErrChallengeInfra (increment_script h) c))"

definition mfa_claim :: "token_hash \<Rightarrow> string \<Rightarrow> mfa_conn \<Rightarrow> (challenge_error + mfa_challenge) \<times> mfa_conn" where
  "mfa_claim h cid c =
     (if h = [] then (refused_hash, c) else if cid = [] then (refused_claim, c)
      else claim_reply id (io_call ErrChallengeInfra (claim_script h cid (dur_millis mfaClaimTTL)) c))"

definition mfa_release :: "token_hash \<Rightarrow> string \<Rightarrow> mfa_conn \<Rightarrow> (challenge_error + unit) \<times> mfa_conn" where
  "mfa_release h cid c =
     (if h = [] then (refused_hash, c) else if cid = [] then (refused_claim, c)
      else release_reply (io_call ErrChallengeInfra (release_script h cid) c))"

definition mfa_consume :: "token_hash \<Rightarrow> string \<Rightarrow> mfa_conn \<Rightarrow> (challenge_error + unit) \<times> mfa_conn" where
  "mfa_consume h cid c =
     (if h = [] then (refused_hash, c) else if cid = [] then (refused_claim, c)
      else consume_reply (io_call ErrChallengeInfra (consume_script h cid) c))"

datatype mfa_op =
  MfaCreate token_hash mfa_challenge duration
  | MfaGet token_hash
  | MfaDelete token_hash
  | MfaIncrement token_hash int
  | MfaClaim token_hash string
  | MfaRelease token_hash string
  | MfaConsume token_hash string

fun mfa_run :: "mfa_op \<Rightarrow> mfa_conn \<Rightarrow> mfa_conn" where
  "mfa_run (MfaCreate h d ttl) c = snd (mfa_create h d ttl c)"
| "mfa_run (MfaGet h) c = snd (mfa_get h c)"
| "mfa_run (MfaDelete h) c = snd (mfa_delete h c)"
| "mfa_run (MfaIncrement h m) c = snd (mfa_increment_attempts h m c)"
| "mfa_run (MfaClaim h cid) c = snd (mfa_claim h cid c)"
| "mfa_run (MfaRelease h cid) c = snd (mfa_release h cid c)"
| "mfa_run (MfaConsume h cid) c = snd (mfa_consume h cid c)"

end
