(* ===== verification/ReauthStore.thy ===== *)
theory ReauthStore
  imports ChallengeStores SecurityService "HOL-Library.List_Lexorder" "HOL-Library.Product_Lexorder"
begin

text \<open>
  The reauthentication store of \<open>internal/adapters/redis/reauth_store.go\<close>: challenges with their
  cleanup index, and single-use grants; and the verifier that redeems a grant
  (\<open>ReauthGrants\<close> of \<open>internal/adapters/httpapi/reauth_handlers.go\<close>), which asks the
  consumption gate of the security-state service.
\<close>

section \<open>Records\<close>

record reauth_challenge =
  rc_user_id :: user_id
  rc_session_id :: session_id
  rc_action :: string
  rc_application_id :: string
  rc_client_id :: string
  rc_provider_session_id :: string
  rc_available_methods :: "string list"
  rc_passkey_request_options :: string
  rc_target :: string
  rc_attempts :: int
  rc_created_at :: time
  rc_security_epoch :: epoch

record expired_reauth_challenge =
  er_token_hash :: token_hash
  er_provider_session_id :: string
  er_user_id :: user_id
  er_application_id :: string
  er_client_id :: string
  er_action :: string

record reauth_grant =
  rg_grant_id :: string
  rg_user_id :: user_id
  rg_session_id :: session_id
  rg_action :: string
  rg_application_id :: string
  rg_client_id :: string
  rg_target :: string
  rg_created_at :: time
  rg_security_epoch :: epoch
  rg_challenge_version :: int

text \<open>
  A member of the cleanup index is the token hash and the JSON of the entry; only this store
  writes members, so they decode.
\<close>

record reauth_db = "reauth_challenge challenge_db" +
  ra_index :: "((token_hash \<times> expired_reauth_challenge) \<times> int) list"
  ra_grants :: "token_hash \<rightharpoonup> reauth_grant stored \<times> int option"

type_synonym reauth_conn = "reauth_db conn"

definition reauthClaimTTL :: duration where "reauthClaimTTL = seconds 60"

definition normalize_reauth_challenge_epoch :: "reauth_challenge \<Rightarrow> reauth_challenge" where
  "normalize_reauth_challenge_epoch d = (if rc_security_epoch d < 1 then d\<lparr>rc_security_epoch := 1\<rparr> else d)"

definition normalize_reauth_grant_epoch :: "reauth_grant \<Rightarrow> reauth_grant" where
  "normalize_reauth_grant_epoch d = (if rg_security_epoch d < 1 then d\<lparr>rg_security_epoch := 1\<rparr> else d)"

definition reauth_cleanup_index_member ::
  "token_hash \<Rightarrow> reauth_challenge \<Rightarrow> token_hash \<times> expired_reauth_challenge" where
  "reauth_cleanup_index_member h d = (h, \<lparr>er_token_hash = h, er_provider_session_id = rc_provider_session_id d,
     er_user_id = rc_user_id d, er_application_id = rc_application_id d, er_client_id = rc_client_id d,
     er_action = rc_action d\<rparr>)"

section \<open>Scripts\<close>

text \<open>\<open>ZADD\<close>, ordered by score and then by the token hash a member starts with.\<close>

definition index_add ::
  "token_hash \<times> expired_reauth_challenge \<Rightarrow> int \<Rightarrow> ((token_hash \<times> expired_reauth_challenge) \<times> int) list
     \<Rightarrow> ((token_hash \<times> expired_reauth_challenge) \<times> int) list" where
  "index_add m s z = insort_key (\<lambda>x. (snd x, fst (fst x))) (m, s) (filter (\<lambda>x. fst x \<noteq> m) z)"

definition create_challenge_script ::
  "token_hash \<Rightarrow> reauth_challenge \<Rightarrow> int \<Rightarrow> int \<Rightarrow> reauth_db \<Rightarrow> (challenge_error + unit) \<times> reauth_db" where
  "create_challenge_script h d ttl_ms score db =
     (if ttl_ms \<le> 0 then (Inl ErrChallengeInfra, db)
      else (Inr (), db\<lparr>cd_data := (cd_data db)(h \<mapsto> (Readable d, Some (cd_ms db + ttl_ms))),
              ra_index := index_add (reauth_cleanup_index_member h d) score (ra_index db)\<rparr>))"

definition pop_expired_script ::
  "int \<Rightarrow> nat \<Rightarrow> reauth_db \<Rightarrow> (challenge_error + expired_reauth_challenge list) \<times> reauth_db" where
  "pop_expired_script cutoff limit db =
     (let due = take limit (filter (\<lambda>x. snd x \<le> cutoff) (ra_index db));
          popped = filter (\<lambda>x. live_data db (fst (fst x)) = None) due
      in (Inr (map (\<lambda>x. snd (fst x)) popped),
          db\<lparr>ra_index := filter (\<lambda>x. fst x \<notin> fst ` set popped) (ra_index db)\<rparr>))"

section \<open>The methods\<close>

definition reauth_create_challenge ::
  "time \<Rightarrow> token_hash \<Rightarrow> reauth_challenge \<Rightarrow> duration \<Rightarrow> reauth_conn \<Rightarrow> (challenge_error + unit) \<times> reauth_conn" where
  "reauth_create_challenge now h d ttl c =
     (if h = [] then (refused_hash, c)
      else if rc_security_epoch d < 1
      then (Inl (ErrChallengeRefused ''reauth challenge missing security epoch stamp''), c)
      else io_call ErrChallengeInfra (create_challenge_script h d (dur_millis ttl) (unix_milli (now + ttl))) c)"

definition reauth_claim_challenge ::
  "token_hash \<Rightarrow> string \<Rightarrow> reauth_conn \<Rightarrow> (challenge_error + reauth_challenge) \<times> reauth_conn" where
  "reauth_claim_challenge h cid c =
     (if h = [] then (refused_hash, c) else if cid = [] then (refused_claim, c)
      else claim_reply normalize_reauth_challenge_epoch
             (io_call ErrChallengeInfra (claim_script h cid (dur_millis reauthClaimTTL)) c))"

definition reauth_release_challenge :: "token_hash \<Rightarrow> string \<Rightarrow> reauth_conn \<Rightarrow> (challenge_error + unit) \<times> reauth_conn" where
  "reauth_release_challenge h cid c =
     (if h = [] then (refused_hash, c) else if cid = [] then (refused_claim, c)
      else release_reply (io_call ErrChallengeInfra (release_script h cid) c))"

definition reauth_consume_challenge :: "token_hash \<Rightarrow> string \<Rightarrow> reauth_conn \<Rightarrow> (challenge_error + unit) \<times> reauth_conn" where
  "reauth_consume_challenge h cid c =
     (if h = [] then (refused_hash, c) else if cid = [] then (refused_claim, c)
      else consume_reply (io_call ErrChallengeInfra (consume_script h cid) c))"

definition reauth_increment_challenge_attempts ::
  "token_hash \<Rightarrow> int \<Rightarrow> reauth_conn \<Rightarrow> (int \<times> challenge_error option) \<times> reauth_conn" where
  "reauth_increment_challenge_attempts h max_attempts c =
     (if h = [] then ((0, Some (ErrChallengeRefused ''token hash must not be empty'')), c)
      else increment_reply max_attempts (io_call ErrChallengeInfra (increment_script h) c))"

definition reauth_pop_expired_challenges ::
  "time \<Rightarrow> int \<Rightarrow> reauth_conn \<Rightarrow> (challenge_error + expired_reauth_challenge list) \<times> reauth_conn" where
  "reauth_pop_expired_challenges now limit =
     io_call ErrChallengeInfra (pop_expired_script (unix_milli now) (nat (if limit \<le> 0 then 100 else limit)))"

definition live_grant :: "reauth_db \<Rightarrow> token_hash \<Rightarrow> (reauth_grant stored \<times> int option) option" where
  "live_grant db h = (case ra_grants db h of None \<Rightarrow> None
     | Some (g, w) \<Rightarrow> if unexpired (cd_ms db) w then Some (g, w) else None)"

definition reauth_create_grant ::
  "token_hash \<Rightarrow> reauth_grant \<Rightarrow> duration \<Rightarrow> reauth_conn \<Rightarrow> (challenge_error + unit) \<times> reauth_conn" where
  "reauth_create_grant h d ttl c =
     (if h = [] then (refused_hash, c)
      else if rg_security_epoch d < 1
      then (Inl (ErrChallengeRefused ''reauth grant missing security epoch stamp''), c)
      else io_call ErrChallengeInfra (\<lambda>db. (Inr (), db\<lparr>ra_grants := (ra_grants db)(h \<mapsto> (Readable d,
             set_expiry (cd_ms db) (case live_grant db h of None \<Rightarrow> None | Some (g, w) \<Rightarrow> w) ttl))\<rparr>)) c)"

text \<open>\<open>GETDEL\<close>\<close>

definition getdel_grant :: "token_hash \<Rightarrow> reauth_db \<Rightarrow> (challenge_error + reauth_grant stored option) \<times> reauth_db" where
  "getdel_grant h db = (Inr (map_option fst (live_grant db h)), db\<lparr>ra_grants := (ra_grants db)(h := None)\<rparr>)"

definition reauth_consume_grant :: "token_hash \<Rightarrow> reauth_conn \<Rightarrow> (challenge_error + reauth_grant) \<times> reauth_conn" where
  "reauth_consume_grant h c =
     (if h = [] then (refused_hash, c)
      else claim_reply normalize_reauth_grant_epoch (io_call ErrChallengeInfra (getdel_grant h) c))"

section \<open>The verifier\<close>

text \<open>
  \<open>hash\<close> is \<open>session.HashToken\<close>; the gate acts on a part \<open>'s\<close> of the world of its own.
\<close>

datatype grant_error =
  GrantUnavailable | GrantStore challenge_error | GrantMismatch | GrantGate sec_error

definition verify_and_consume_data ::
  "(string \<Rightarrow> token_hash) \<Rightarrow> (user_id \<Rightarrow> epoch \<Rightarrow> 's \<Rightarrow> (sec_error + unit) \<times> 's) option \<Rightarrow> string \<Rightarrow> string \<Rightarrow> session_id
     \<Rightarrow> string \<Rightarrow> string \<Rightarrow> string \<Rightarrow> reauth_conn \<times> 's \<Rightarrow> (grant_error + reauth_grant) \<times> (reauth_conn \<times> 's)" where
  "verify_and_consume_data hash gate token action sid target app client w =
     (if token = [] \<or> action = [] \<or> sid = [] then (Inl GrantUnavailable, w)
      else case reauth_consume_grant (hash token) (fst w) of
        (Inl e, c1) \<Rightarrow> (Inl (GrantStore e), (c1, snd w))
      | (Inr d, c1) \<Rightarrow>
          if rg_action d \<noteq> action \<or> rg_session_id d \<noteq> sid \<or> rg_target d \<noteq> target \<or> rg_application_id d \<noteq> app
             \<or> rg_client_id d \<noteq> client
          then (Inl GrantMismatch, (c1, snd w))
          else case gate of
            None \<Rightarrow> (Inr d, (c1, snd w))
          | Some allow \<Rightarrow>
              (case allow (rg_user_id d) (rg_security_epoch d) (snd w) of
                 (Inl e, s1) \<Rightarrow> (Inl (GrantGate e), (c1, s1))
               | (Inr _, s1) \<Rightarrow> (Inr d, (c1, s1))))"

definition verify_and_consume ::
  "(string \<Rightarrow> token_hash) \<Rightarrow> (user_id \<Rightarrow> epoch \<Rightarrow> 's \<Rightarrow> (sec_error + unit) \<times> 's) option \<Rightarrow> string \<Rightarrow> string \<Rightarrow> session_id
     \<Rightarrow> string \<Rightarrow> string \<Rightarrow> string \<Rightarrow> reauth_conn \<times> 's \<Rightarrow> (grant_error + unit) \<times> (reauth_conn \<times> 's)" where
  "verify_and_consume hash gate token action sid target app client w =
     (case verify_and_consume_data hash gate token action sid target app client w of
        (Inl e, w1) \<Rightarrow> (Inl e, w1) | (Inr _, w1) \<Rightarrow> (Inr (), w1))"

datatype reauth_op =
  ReauthCreate time token_hash reauth_challenge duration
  | ReauthClaim token_hash string
  | ReauthRelease token_hash string
  | ReauthConsume token_hash string
  | ReauthIncrement token_hash int
  | ReauthPop time int
  | GrantCreate token_hash reauth_grant duration
  | GrantConsume token_hash

fun reauth_run :: "reauth_op \<Rightarrow> reauth_conn \<Rightarrow> reauth_conn" where
  "reauth_run (ReauthCreate now h d ttl) c = snd (reauth_create_challenge now h d ttl c)"
| "reauth_run (ReauthClaim h cid) c = snd (reauth_claim_challenge h cid c)"
| "reauth_run (ReauthRelease h cid) c = snd (reauth_release_challenge h cid c)"
| "reauth_run (ReauthConsume h cid) c = snd (reauth_consume_challenge h cid c)"
| "reauth_run (ReauthIncrement h m) c = snd (reauth_increment_challenge_attempts h m c)"
| "reauth_run (ReauthPop now limit) c = snd (reauth_pop_expired_challenges now limit c)"
| "reauth_run (GrantCreate h d ttl) c = snd (reauth_create_grant h d ttl c)"
| "reauth_run (GrantConsume h) c = snd (reauth_consume_grant h c)"

end
