(* ===== verification/EnrollmentStore.thy ===== *)
theory EnrollmentStore
  imports ChallengeStores "HOL-Library.List_Lexorder" "HOL-Library.Product_Lexorder"
begin

text \<open>
  The factor-enrollment store of \<open>internal/adapters/redis/enrollment_store.go\<close>: enrollment
  challenges under a claim lock, and the cleanup queue that settles abandoned passkey
  registrations.
\<close>

section \<open>Records\<close>

record enrollment =
  en_user_id :: user_id
  en_session_id :: session_id
  en_kind :: string
  en_target :: string
  en_security_epoch :: epoch

record passkey_cleanup =
  xp_token_hash :: token_hash
  xp_user_id :: user_id
  xp_target :: string
  xp_created_at :: time
  xp_attempts :: int

text \<open>\<open>auth.EnrollmentPasskey\<close>\<close>

definition EnrollmentPasskey :: string where "EnrollmentPasskey = ''passkey''"

record enrollment_db = "enrollment challenge_db" +
  eb_cleanup :: "token_hash \<rightharpoonup> passkey_cleanup stored"
  eb_index :: "(token_hash \<times> int) list"

type_synonym enrollment_conn = "enrollment_db conn"

definition enrollmentClaimTTL :: duration where "enrollmentClaimTTL = seconds 60"
definition enrollmentCleanupLeaseTTL :: duration where "enrollmentCleanupLeaseTTL = seconds 45"

section \<open>Scripts\<close>

definition queue_add :: "token_hash \<Rightarrow> int \<Rightarrow> (token_hash \<times> int) list \<Rightarrow> (token_hash \<times> int) list" where
  "queue_add m s z = insort_key (\<lambda>x. (snd x, fst x)) (m, s) (filter (\<lambda>x. fst x \<noteq> m) z)"

definition queue_drop :: "token_hash \<Rightarrow> (token_hash \<times> int) list \<Rightarrow> (token_hash \<times> int) list" where
  "queue_drop m z = filter (\<lambda>x. fst x \<noteq> m) z"

definition create_passkey_script ::
  "token_hash \<Rightarrow> enrollment \<Rightarrow> int \<Rightarrow> passkey_cleanup \<Rightarrow> int \<Rightarrow> enrollment_db \<Rightarrow> (challenge_error + unit) \<times> enrollment_db" where
  "create_passkey_script h d ttl_ms cleanup score db =
     (if ttl_ms \<le> 0 then (Inl ErrChallengeInfra, db)
      else (Inr (), db\<lparr>cd_data := (cd_data db)(h \<mapsto> (Readable d, Some (cd_ms db + ttl_ms))),
              eb_cleanup := (eb_cleanup db)(h \<mapsto> Readable cleanup),
              eb_index := queue_add h score (eb_index db)\<rparr>))"

definition consume_enrollment_script ::
  "token_hash \<Rightarrow> string \<Rightarrow> enrollment_db \<Rightarrow> (challenge_error + int) \<times> enrollment_db" where
  "consume_enrollment_script h cid db =
     (if live_claim db h \<noteq> Some cid then (Inr 0, db)
      else (Inr 1, db\<lparr>cd_data := (cd_data db)(h := None), cd_claims := (cd_claims db)(h := None),
              eb_cleanup := (eb_cleanup db)(h := None), eb_index := queue_drop h (eb_index db)\<rparr>))"

definition abandon_enrollment_script ::
  "token_hash \<Rightarrow> string \<Rightarrow> int \<Rightarrow> enrollment_db \<Rightarrow> (challenge_error + int) \<times> enrollment_db" where
  "abandon_enrollment_script h cid now_ms db =
     (if live_claim db h \<noteq> Some cid then (Inr 0, db)
      else (Inr 1, db\<lparr>cd_data := (cd_data db)(h := None), cd_claims := (cd_claims db)(h := None),
              eb_index := (if eb_cleanup db h = None then eb_index db else queue_add h now_ms (eb_index db))\<rparr>))"

fun lease_loop ::
  "int \<Rightarrow> int \<Rightarrow> token_hash list \<Rightarrow> (token_hash \<times> passkey_cleanup stored) list \<Rightarrow> enrollment_db
     \<Rightarrow> (token_hash \<times> passkey_cleanup stored) list \<times> enrollment_db" where
  "lease_loop lease_ms limit [] claimed db = (claimed, db)"
| "lease_loop lease_ms limit (h # hs) claimed db =
     (if limit \<le> int (length claimed) then (claimed, db)
      else case eb_cleanup db h of
        None \<Rightarrow> lease_loop lease_ms limit hs claimed (db\<lparr>eb_index := queue_drop h (eb_index db)\<rparr>)
      | Some p \<Rightarrow>
          if live_data db h = None \<and> live_claim db h = None
          then lease_loop lease_ms limit hs (claimed @ [(h, p)]) (db\<lparr>eb_index := queue_add h lease_ms (eb_index db)\<rparr>)
          else lease_loop lease_ms limit hs claimed db)"

definition lease_script ::
  "int \<Rightarrow> int \<Rightarrow> int \<Rightarrow> int \<Rightarrow> enrollment_db
     \<Rightarrow> (challenge_error + (token_hash \<times> passkey_cleanup stored) list) \<times> enrollment_db" where
  "lease_script now_ms lease_ms limit scan db =
     (let due = take (nat scan) (filter (\<lambda>x. snd x \<le> now_ms) (eb_index db))
      in case lease_loop lease_ms limit (map fst due) [] db of (claimed, db') \<Rightarrow> (Inr claimed, db'))"

definition requeue_script :: "passkey_cleanup \<Rightarrow> int \<Rightarrow> enrollment_db \<Rightarrow> (challenge_error + unit) \<times> enrollment_db" where
  "requeue_script e score db =
     (Inr (), if eb_cleanup db (xp_token_hash e) = None then db
              else db\<lparr>eb_cleanup := (eb_cleanup db)(xp_token_hash e \<mapsto> Readable e),
                     eb_index := queue_add (xp_token_hash e) score (eb_index db)\<rparr>)"

section \<open>The methods\<close>

definition create_enrollment ::
  "time \<Rightarrow> token_hash \<Rightarrow> enrollment \<Rightarrow> duration \<Rightarrow> enrollment_conn \<Rightarrow> (challenge_error + unit) \<times> enrollment_conn" where
  "create_enrollment now h d ttl c =
     (if h = [] then (refused_hash, c)
      else if en_security_epoch d < 1
      then (Inl (ErrChallengeRefused ''enrollment missing security epoch stamp''), c)
      else if en_kind d = EnrollmentPasskey
      then (if en_target d = [] then (Inl (ErrChallengeRefused ''passkey enrollment missing cleanup target''), c)
            else io_call ErrChallengeInfra (create_passkey_script h d (dur_millis ttl)
                   \<lparr>xp_token_hash = h, xp_user_id = en_user_id d, xp_target = en_target d, xp_created_at = now, xp_attempts = 0\<rparr>
                   (unix_milli (now + ttl))) c)
      else io_call ErrChallengeInfra (set_data h d ttl) c)"

definition normalize_enrollment_epoch :: "enrollment \<Rightarrow> enrollment" where
  "normalize_enrollment_epoch d = (if en_security_epoch d < 1 then d\<lparr>en_security_epoch := 1\<rparr> else d)"

definition claim_enrollment ::
  "token_hash \<Rightarrow> string \<Rightarrow> enrollment_conn \<Rightarrow> (challenge_error + enrollment) \<times> enrollment_conn" where
  "claim_enrollment h cid c =
     (if h = [] then (refused_hash, c) else if cid = [] then (refused_claim, c)
      else claim_reply normalize_enrollment_epoch
             (io_call ErrChallengeInfra (claim_script h cid (dur_millis enrollmentClaimTTL)) c))"

definition release_enrollment :: "token_hash \<Rightarrow> string \<Rightarrow> enrollment_conn \<Rightarrow> (challenge_error + unit) \<times> enrollment_conn" where
  "release_enrollment h cid c =
     (if h = [] then (refused_hash, c) else if cid = [] then (refused_claim, c)
      else release_reply (io_call ErrChallengeInfra (release_script h cid) c))"

definition consume_enrollment :: "token_hash \<Rightarrow> string \<Rightarrow> enrollment_conn \<Rightarrow> (challenge_error + unit) \<times> enrollment_conn" where
  "consume_enrollment h cid c =
     (if h = [] then (refused_hash, c) else if cid = [] then (refused_claim, c)
      else release_reply (io_call ErrChallengeInfra (consume_enrollment_script h cid) c))"

definition abandon_enrollment ::
  "time \<Rightarrow> token_hash \<Rightarrow> string \<Rightarrow> enrollment_conn \<Rightarrow> (challenge_error + unit) \<times> enrollment_conn" where
  "abandon_enrollment now h cid c =
     (if h = [] then (refused_hash, c) else if cid = [] then (refused_claim, c)
      else release_reply (io_call ErrChallengeInfra (abandon_enrollment_script h cid (unix_milli now)) c))"

text \<open>Entries that do not decode, and one without a hash, are skipped.\<close>

fun decode_leases :: "(token_hash \<times> passkey_cleanup stored) list \<Rightarrow> passkey_cleanup list" where
  "decode_leases [] = []"
| "decode_leases ((h, Garbled raw) # xs) = decode_leases xs"
| "decode_leases ((h, Readable p) # xs) =
     (if h = [] then decode_leases xs else p\<lparr>xp_token_hash := h\<rparr> # decode_leases xs)"

definition claim_expired_passkey_enrollments ::
  "time \<Rightarrow> int \<Rightarrow> enrollment_conn \<Rightarrow> (challenge_error + passkey_cleanup list) \<times> enrollment_conn" where
  "claim_expired_passkey_enrollments now limit0 c =
     (let limit = (if limit0 \<le> 0 then 100 else limit0)
      in case io_call ErrChallengeInfra (lease_script (unix_milli now) (unix_milli (now + enrollmentCleanupLeaseTTL))
                limit (limit * 10)) c of
           (Inl e, c1) \<Rightarrow> (Inl e, c1)
         | (Inr claimed, c1) \<Rightarrow> (Inr (decode_leases claimed), c1))"

definition complete_passkey_enrollment_cleanup ::
  "token_hash \<Rightarrow> enrollment_conn \<Rightarrow> (challenge_error + unit) \<times> enrollment_conn" where
  "complete_passkey_enrollment_cleanup h c =
     (if h = [] then (refused_hash, c)
      else io_call ErrChallengeInfra (\<lambda>db. (Inr (), db\<lparr>eb_cleanup := (eb_cleanup db)(h := None),
             eb_index := queue_drop h (eb_index db)\<rparr>)) c)"

definition requeue_passkey_enrollment_cleanup ::
  "time \<Rightarrow> passkey_cleanup \<Rightarrow> duration \<Rightarrow> enrollment_conn \<Rightarrow> (challenge_error + unit) \<times> enrollment_conn" where
  "requeue_passkey_enrollment_cleanup now e delay c =
     (if xp_token_hash e = [] then (refused_hash, c)
      else io_call ErrChallengeInfra
             (requeue_script (e\<lparr>xp_attempts := xp_attempts e + 1\<rparr>) (unix_milli (now + max 0 delay))) c)"

datatype enrollment_op =
  EnCreate time token_hash enrollment duration
  | EnClaim token_hash string
  | EnRelease token_hash string
  | EnConsume token_hash string
  | EnAbandon time token_hash string
  | EnLease time int
  | EnComplete token_hash
  | EnRequeue time passkey_cleanup duration

fun enrollment_run :: "enrollment_op \<Rightarrow> enrollment_conn \<Rightarrow> enrollment_conn" where
  "enrollment_run (EnCreate now h d ttl) c = snd (create_enrollment now h d ttl c)"
| "enrollment_run (EnClaim h cid) c = snd (claim_enrollment h cid c)"
| "enrollment_run (EnRelease h cid) c = snd (release_enrollment h cid c)"
| "enrollment_run (EnConsume h cid) c = snd (consume_enrollment h cid c)"
| "enrollment_run (EnAbandon now h cid) c = snd (abandon_enrollment now h cid c)"
| "enrollment_run (EnLease now limit) c = snd (claim_expired_passkey_enrollments now limit c)"
| "enrollment_run (EnComplete h) c = snd (complete_passkey_enrollment_cleanup h c)"
| "enrollment_run (EnRequeue now e delay) c = snd (requeue_passkey_enrollment_cleanup now e delay c)"

end
