(* ===== verification/ChallengeProtocol.thy ===== *)
theory ChallengeProtocol
  imports ReauthStore EnrollmentStore
begin

text \<open>
  What the three challenge stores have in common: a method has the effect of one script or none
  (a locale), and on top of it the lock that a claim is (a locale that extends it).  Both are
  interpreted on every store.
\<close>

section \<open>Locks\<close>

text \<open>
  A claim is a lock with a deadline: only its holder frees it before the deadline, and time moves
  only by ticks.
\<close>

locale locked_store = script_store run tick effect
  for run :: "'op \<Rightarrow> 's conn \<Rightarrow> 's conn" and tick and effect +
  fixes now :: "'s \<Rightarrow> int" and holder :: "'s \<Rightarrow> token_hash \<Rightarrow> (string \<times> int) option"
    and frees :: "'op \<Rightarrow> token_hash \<Rightarrow> string \<Rightarrow> bool"
  assumes effect_now: "now (effect op db) = now db"
    and effect_holder: "holder db h = Some (a, t) \<Longrightarrow> now db \<le> t \<Longrightarrow> \<not> frees op h a \<Longrightarrow> holder (effect op db) h = Some (a, t)"
    and tick_now: "now (tick d db) = now db + d"
    and tick_holder: "holder (tick d db) h = holder db h"
begin

lemma held_throughout:
  assumes "store_reaches run tick P db db'" "holder db h = Some (a, t)" "now db' \<le> t"
    and "\<And>op. P op \<Longrightarrow> \<not> frees op h a"
  shows "holder db' h = Some (a, t)"
proof -
  let ?I = "\<lambda>s. now s \<le> t \<longrightarrow> holder s h = Some (a, t)"
  have "?I db'"
  proof (rule reaches_keeps [OF assms(1)])
    show "?I db" using assms(2) by simp
    show "?I (effect op s)" if "P op" "?I s" for op s
      using that assms(4) effect_holder [of s h a t op] by (simp add: effect_now)
    show "?I (tick d s)" if "0 \<le> d" "?I s" for d s
      using that by (simp add: tick_now tick_holder)
  qed
  with assms(3) show ?thesis by simp
qed

end

section \<open>Replies do not act\<close>

lemma snd_replies [simp]:
  "snd (claim_reply n r) = snd r" "snd (release_reply r') = snd r'" "snd (consume_reply r') = snd r'"
  "snd (increment_reply m r') = snd r'"
  by (auto simp: claim_reply_def release_reply_def consume_reply_def increment_reply_def
      split: prod.split sum.split option.split stored.split)

fun mfa_effect :: "mfa_op \<Rightarrow> mfa_challenge challenge_db \<Rightarrow> mfa_challenge challenge_db" where
  "mfa_effect (MfaCreate h d ttl) db = snd (set_data h d ttl db)"
| "mfa_effect (MfaGet h) db = db"
| "mfa_effect (MfaDelete h) db = db\<lparr>cd_data := (cd_data db)(h := None), cd_attempts := (cd_attempts db)(h := None)\<rparr>"
| "mfa_effect (MfaIncrement h m) db = snd (increment_script h db)"
| "mfa_effect (MfaClaim h cid) db = snd (claim_script h cid (dur_millis mfaClaimTTL) db)"
| "mfa_effect (MfaRelease h cid) db = snd (release_script h cid db)"
| "mfa_effect (MfaConsume h cid) db = snd (consume_script h cid db)"

lemma mfa_run_effect: "fst (mfa_run op c) = fst c \<or> fst (mfa_run op c) = mfa_effect op (fst c)"
proof (cases op)
  case (MfaGet h)
  then show ?thesis using io_call_pure [of "\<lambda>db. (Inr (live_data db h), db)" ErrChallengeInfra c]
    by (simp add: mfa_get_def)
next
  case (MfaDelete h)
  then show ?thesis
    using io_effect [of ErrChallengeInfra "\<lambda>db. (Inr (), db\<lparr>cd_data := (cd_data db)(h := None),
             cd_attempts := (cd_attempts db)(h := None)\<rparr>)" c] by (simp add: mfa_delete_def)
qed (simp_all add: mfa_create_def mfa_increment_attempts_def mfa_claim_def
      mfa_release_def mfa_consume_def,
    (intro impI conjI io_effect)+)

fun reauth_effect :: "reauth_op \<Rightarrow> reauth_db \<Rightarrow> reauth_db" where
  "reauth_effect (ReauthCreate now h d ttl) db = snd (create_challenge_script h d (dur_millis ttl) (unix_milli (now + ttl)) db)"
| "reauth_effect (ReauthClaim h cid) db = snd (claim_script h cid (dur_millis reauthClaimTTL) db)"
| "reauth_effect (ReauthRelease h cid) db = snd (release_script h cid db)"
| "reauth_effect (ReauthConsume h cid) db = snd (consume_script h cid db)"
| "reauth_effect (ReauthIncrement h m) db = snd (increment_script h db)"
| "reauth_effect (ReauthPop now limit) db = snd (pop_expired_script (unix_milli now) (nat (if limit \<le> 0 then 100 else limit)) db)"
| "reauth_effect (GrantCreate h d ttl) db = db\<lparr>ra_grants := (ra_grants db)(h \<mapsto> (Readable d,
             set_expiry (cd_ms db) (case live_grant db h of None \<Rightarrow> None | Some (g, w) \<Rightarrow> w) ttl))\<rparr>"
| "reauth_effect (GrantConsume h) db = snd (getdel_grant h db)"

lemma reauth_run_effect: "fst (reauth_run op c) = fst c \<or> fst (reauth_run op c) = reauth_effect op (fst c)"
proof (cases op)
  case (GrantCreate h d ttl)
  then show ?thesis
    using io_effect [of ErrChallengeInfra "\<lambda>db. (Inr (), db\<lparr>ra_grants := (ra_grants db)(h \<mapsto> (Readable d,
             set_expiry (cd_ms db) (case live_grant db h of None \<Rightarrow> None | Some (g, w) \<Rightarrow> w) ttl))\<rparr>)" c]
    by (simp add: reauth_create_grant_def)
qed (simp_all add: reauth_create_challenge_def reauth_claim_challenge_def
      reauth_release_challenge_def reauth_consume_challenge_def reauth_increment_challenge_attempts_def
      reauth_pop_expired_challenges_def reauth_consume_grant_def,
    (intro impI conjI io_effect)+)

fun enrollment_effect :: "enrollment_op \<Rightarrow> enrollment_db \<Rightarrow> enrollment_db" where
  "enrollment_effect (EnCreate now h d ttl) db =
     (if en_kind d = EnrollmentPasskey
      then snd (create_passkey_script h d (dur_millis ttl) \<lparr>xp_token_hash = h, xp_user_id = en_user_id d,
             xp_target = en_target d, xp_created_at = now, xp_attempts = 0\<rparr> (unix_milli (now + ttl)) db)
      else snd (set_data h d ttl db))"
| "enrollment_effect (EnClaim h cid) db = snd (claim_script h cid (dur_millis enrollmentClaimTTL) db)"
| "enrollment_effect (EnRelease h cid) db = snd (release_script h cid db)"
| "enrollment_effect (EnConsume h cid) db = snd (consume_enrollment_script h cid db)"
| "enrollment_effect (EnAbandon now h cid) db = snd (abandon_enrollment_script h cid (unix_milli now) db)"
| "enrollment_effect (EnLease now limit) db =
     (let n = (if limit \<le> 0 then 100 else limit)
      in snd (lease_script (unix_milli now) (unix_milli (now + enrollmentCleanupLeaseTTL)) n (n * 10) db))"
| "enrollment_effect (EnComplete h) db = db\<lparr>eb_cleanup := (eb_cleanup db)(h := None), eb_index := queue_drop h (eb_index db)\<rparr>"
| "enrollment_effect (EnRequeue now e delay) db =
     snd (requeue_script (e\<lparr>xp_attempts := xp_attempts e + 1\<rparr>) (unix_milli (now + max 0 delay)) db)"

lemma snd_claim_expired:
  "snd (claim_expired_passkey_enrollments now limit c) =
     snd (io_call ErrChallengeInfra (lease_script (unix_milli now) (unix_milli (now + enrollmentCleanupLeaseTTL))
       (if limit \<le> 0 then 100 else limit) ((if limit \<le> 0 then 100 else limit) * 10)) c)"
  by (simp add: claim_expired_passkey_enrollments_def Let_def split: prod.split sum.split)

lemma enrollment_run_effect: "fst (enrollment_run op c) = fst c \<or> fst (enrollment_run op c) = enrollment_effect op (fst c)"
proof (cases op)
  case (EnLease now limit)
  then show ?thesis by (simp only: enrollment_run.simps enrollment_effect.simps snd_claim_expired Let_def io_effect)
next
  case (EnComplete h)
  then show ?thesis
    using io_effect [of ErrChallengeInfra "\<lambda>db. (Inr (), db\<lparr>eb_cleanup := (eb_cleanup db)(h := None),
             eb_index := queue_drop h (eb_index db)\<rparr>)" c] by (simp add: complete_passkey_enrollment_cleanup_def)
qed (simp_all add: create_enrollment_def claim_enrollment_def
      release_enrollment_def consume_enrollment_def abandon_enrollment_def requeue_passkey_enrollment_cleanup_def,
    (intro impI conjI io_effect)+)

section \<open>The lock in each store\<close>

lemma claim_script_claims [simp]:
  "cd_claims db h = Some (a, t) \<Longrightarrow> cd_ms db \<le> t \<Longrightarrow> cd_claims (snd (claim_script h' cid ttl db)) h = Some (a, t)"
  by (auto simp: claim_script_def live_claim_def split: option.splits)

lemma release_script_claims [simp]:
  "cd_claims db h = Some (a, t) \<Longrightarrow> cd_ms db \<le> t \<Longrightarrow> h' \<noteq> h \<or> cid \<noteq> a \<Longrightarrow>
     cd_claims (snd (release_script h' cid db)) h = Some (a, t)"
  by (auto simp: release_script_def live_claim_def split: option.splits)

lemma consume_script_claims [simp]:
  "cd_claims db h = Some (a, t) \<Longrightarrow> cd_ms db \<le> t \<Longrightarrow> h' \<noteq> h \<or> cid \<noteq> a \<Longrightarrow>
     cd_claims (snd (consume_script h' cid db)) h = Some (a, t)"
  by (auto simp: consume_script_def live_claim_def split: option.splits)

lemma script_claims [simp]:
  "cd_claims (snd (set_data h d ttl db)) = cd_claims db"
  "cd_claims (snd (increment_script h db)) = cd_claims db"
  by (simp_all add: set_data_def increment_script_def Let_def split: prod.split)

lemma script_ms [simp]:
  "cd_ms (snd (set_data h d ttl db)) = cd_ms db" "cd_ms (snd (increment_script h db)) = cd_ms db"
  "cd_ms (snd (claim_script h cid t db)) = cd_ms db" "cd_ms (snd (release_script h cid db)) = cd_ms db"
  "cd_ms (snd (consume_script h cid db)) = cd_ms db"
  by (simp_all add: set_data_def increment_script_def claim_script_def release_script_def consume_script_def Let_def
      split: prod.split option.split)

lemma cd_tick_sel [simp]:
  "cd_ms (cd_tick d db) = cd_ms db + d" "cd_claims (cd_tick d db) = cd_claims db"
  "cd_data (cd_tick d db) = cd_data db" "cd_attempts (cd_tick d db) = cd_attempts db"
  by (simp_all add: cd_tick_def)

fun mfa_frees :: "mfa_op \<Rightarrow> token_hash \<Rightarrow> string \<Rightarrow> bool" where
  "mfa_frees (MfaRelease h' cid) h a \<longleftrightarrow> h' = h \<and> cid = a"
| "mfa_frees (MfaConsume h' cid) h a \<longleftrightarrow> h' = h \<and> cid = a"
| "mfa_frees _ h a \<longleftrightarrow> False"

fun reauth_frees :: "reauth_op \<Rightarrow> token_hash \<Rightarrow> string \<Rightarrow> bool" where
  "reauth_frees (ReauthRelease h' cid) h a \<longleftrightarrow> h' = h \<and> cid = a"
| "reauth_frees (ReauthConsume h' cid) h a \<longleftrightarrow> h' = h \<and> cid = a"
| "reauth_frees _ h a \<longleftrightarrow> False"

fun enrollment_frees :: "enrollment_op \<Rightarrow> token_hash \<Rightarrow> string \<Rightarrow> bool" where
  "enrollment_frees (EnRelease h' cid) h a \<longleftrightarrow> h' = h \<and> cid = a"
| "enrollment_frees (EnConsume h' cid) h a \<longleftrightarrow> h' = h \<and> cid = a"
| "enrollment_frees (EnAbandon now h' cid) h a \<longleftrightarrow> h' = h \<and> cid = a"
| "enrollment_frees _ h a \<longleftrightarrow> False"

interpretation mfa: locked_store mfa_run cd_tick mfa_effect cd_ms cd_claims mfa_frees
proof
  fix op :: mfa_op and c db h a t
  show "fst (mfa_run op c) = fst c \<or> fst (mfa_run op c) = mfa_effect op (fst c)" by (rule mfa_run_effect)
  show "cd_ms (mfa_effect op db) = cd_ms db" by (cases op) simp_all
  show "cd_claims (mfa_effect op db) h = Some (a, t)"
    if "cd_claims db h = Some (a, t)" "cd_ms db \<le> t" "\<not> mfa_frees op h a"
    using that by (cases op) auto
qed simp_all

lemma create_challenge_sel [simp]:
  "cd_ms (snd (create_challenge_script h d t s db)) = cd_ms db"
  "cd_claims (snd (create_challenge_script h d t s db)) = cd_claims db"
  by (simp_all add: create_challenge_script_def)

lemma pop_grant_sel [simp]:
  "cd_ms (snd (pop_expired_script cutoff n db)) = cd_ms db" "cd_claims (snd (pop_expired_script cutoff n db)) = cd_claims db"
  "cd_data (snd (pop_expired_script cutoff n db)) = cd_data db" "ra_grants (snd (pop_expired_script cutoff n db)) = ra_grants db"
  "cd_ms (snd (getdel_grant h db)) = cd_ms db" "cd_claims (snd (getdel_grant h db)) = cd_claims db"
  "cd_data (snd (getdel_grant h db)) = cd_data db"
  by (simp_all add: pop_expired_script_def getdel_grant_def Let_def)

interpretation reauth: locked_store reauth_run cd_tick reauth_effect cd_ms cd_claims reauth_frees
proof
  fix op :: reauth_op and c db h a t
  show "fst (reauth_run op c) = fst c \<or> fst (reauth_run op c) = reauth_effect op (fst c)" by (rule reauth_run_effect)
  show "cd_ms (reauth_effect op db) = cd_ms db" by (cases op) simp_all
  show "cd_claims (reauth_effect op db) h = Some (a, t)"
    if "cd_claims db h = Some (a, t)" "cd_ms db \<le> t" "\<not> reauth_frees op h a"
    using that by (cases op) auto
qed simp_all

lemma lease_loop_sel [simp]:
  "cd_ms (snd (lease_loop l n hs acc db)) = cd_ms db" "cd_claims (snd (lease_loop l n hs acc db)) = cd_claims db"
  "cd_data (snd (lease_loop l n hs acc db)) = cd_data db" "eb_cleanup (snd (lease_loop l n hs acc db)) = eb_cleanup db"
  by (induction l n hs acc db rule: lease_loop.induct) (auto split: option.split)

lemma snd_lease_script:
  "snd (lease_script now_ms l n scan db) =
     snd (lease_loop l n (map fst (take (nat scan) (filter (\<lambda>x. snd x \<le> now_ms) (eb_index db)))) [] db)"
  by (simp add: lease_script_def Let_def split: prod.split)

lemma enrollment_script_sel [simp]:
  "cd_ms (snd (create_passkey_script h d t p s db)) = cd_ms db"
  "cd_claims (snd (create_passkey_script h d t p s db)) = cd_claims db"
  "cd_ms (snd (consume_enrollment_script h cid db)) = cd_ms db"
  "cd_ms (snd (abandon_enrollment_script h cid n db)) = cd_ms db"
  "cd_ms (snd (requeue_script e s db)) = cd_ms db" "cd_claims (snd (requeue_script e s db)) = cd_claims db"
  by (simp_all add: create_passkey_script_def consume_enrollment_script_def abandon_enrollment_script_def requeue_script_def)

lemma enrollment_script_claims [simp]:
  "cd_claims db h = Some (a, t) \<Longrightarrow> cd_ms db \<le> t \<Longrightarrow> h' \<noteq> h \<or> cid \<noteq> a \<Longrightarrow>
     cd_claims (snd (consume_enrollment_script h' cid db)) h = Some (a, t)"
  "cd_claims db h = Some (a, t) \<Longrightarrow> cd_ms db \<le> t \<Longrightarrow> h' \<noteq> h \<or> cid \<noteq> a \<Longrightarrow>
     cd_claims (snd (abandon_enrollment_script h' cid n db)) h = Some (a, t)"
  by (auto simp: consume_enrollment_script_def abandon_enrollment_script_def live_claim_def split: option.splits)

interpretation enroll: locked_store enrollment_run cd_tick enrollment_effect cd_ms cd_claims enrollment_frees
proof
  fix op :: enrollment_op and c db h a t
  show "fst (enrollment_run op c) = fst c \<or> fst (enrollment_run op c) = enrollment_effect op (fst c)" by (rule enrollment_run_effect)
  show "cd_ms (enrollment_effect op db) = cd_ms db" by (cases op) (simp_all add: snd_lease_script Let_def)
  show "cd_claims (enrollment_effect op db) h = Some (a, t)"
    if "cd_claims db h = Some (a, t)" "cd_ms db \<le> t" "\<not> enrollment_frees op h a"
    using that by (cases op) (auto simp: snd_lease_script Let_def)
qed simp_all

end
