(* ===== verification/ChallengeProperties.thy ===== *)
theory ChallengeProperties
  imports ChallengeProtocol
begin

text \<open>
  What the challenge stores promise, whatever calls, faults and delays come between: claims
  exclude one another, attempts are counted, a consumed challenge and a redeemed grant stay
  spent, and an abandoned passkey registration stays in the cleanup queue until it is settled.
\<close>

section \<open>Replies\<close>

lemma claim_reply_ok:
  "fst (claim_reply norm r) = Inr d \<longleftrightarrow> (\<exists>x. fst r = Inr (Some (Readable x)) \<and> d = norm x)"
  by (auto simp: claim_reply_def split: prod.split sum.split option.split stored.split)

lemma consume_reply_ok: "fst (consume_reply r) = Inr () \<longleftrightarrow> fst r = Inr 1"
  by (auto simp: consume_reply_def split: prod.split sum.split)

lemma claim_script_ok:
  "fst (claim_script h cid ttl db) = Inr (Some d) \<Longrightarrow> live_claim db h = None \<and> live_data db h = Some d
     \<and> cd_claims (snd (claim_script h cid ttl db)) h = Some (cid, cd_ms db + ttl)"
  by (auto simp: claim_script_def split: option.splits if_splits)

lemma claimed_by_script:
  assumes "claim_reply norm (io_call e (claim_script h cid ttl) c) = (Inr d, c')"
  shows "cd_claims (fst c') h = Some (cid, cd_ms (fst c) + ttl)" "cd_ms (fst c') = cd_ms (fst c)"
proof -
  from assms obtain x where "io_call e (claim_script h cid ttl) c = (Inr (Some (Readable x)), c')"
    using claim_reply_ok [of norm "io_call e (claim_script h cid ttl) c" d] snd_replies(1) [of norm "io_call e (claim_script h cid ttl) c"]
    by (metis fst_conv prod.collapse snd_conv)
  then have "claim_script h cid ttl (fst c) = (Inr (Some (Readable x)), fst c')" by (rule io_call_ok)
  then show "cd_claims (fst c') h = Some (cid, cd_ms (fst c) + ttl)" "cd_ms (fst c') = cd_ms (fst c)"
    using claim_script_ok [of h cid ttl "fst c" "Readable x"] script_ms(3) [of h cid ttl "fst c"] by auto
qed

section \<open>Claims of the second factor\<close>

text \<open>
  While a login second factor is claimed nobody else gets it: for the sixty seconds of the
  lock, unless its holder releases or consumes it, every other claim of it fails whatever calls,
  faults and delays came in between, and the holder can still consume it if it is still there.
\<close>

theorem mfa_claim_is_exclusive:
  assumes "mfa_claim h cid c = (Inr d, c1)" and "store_reaches mfa_run cd_tick P (fst c1) db2"
    and "\<And>op. P op \<Longrightarrow> \<not> mfa_frees op h cid" and "cd_ms db2 \<le> cd_ms (fst c) + 60000"
  shows "(\<exists>e. fst (mfa_claim h cid' (db2, fs)) = Inl e)
    \<and> (live_data db2 h \<noteq> None \<longrightarrow> fst (mfa_consume h cid (db2, [])) = Inr ())"
proof -
  have ne: "h \<noteq> []" "cid \<noteq> []" using assms(1) by (auto simp: mfa_claim_def split: if_splits)
  then have "claim_reply id (io_call ErrChallengeInfra (claim_script h cid (dur_millis mfaClaimTTL)) c) = (Inr d, c1)"
    using assms(1) by (simp add: mfa_claim_def)
  note cl = claimed_by_script [OF this]
  have "dur_millis mfaClaimTTL = 60000" by code_simp
  with cl have "cd_claims (fst c1) h = Some (cid, cd_ms (fst c) + 60000)" by simp
  from mfa.held_throughout [OF assms(2) this assms(4) assms(3)]
  have held: "live_claim db2 h = Some cid" using assms(4) by (simp add: live_claim_def)
  then have "fst (claim_script h cid' (dur_millis mfaClaimTTL) db2) = Inl ErrChallengeClaimed"
    by (simp add: claim_script_def)
  with fst_io_call [of ErrChallengeInfra "claim_script h cid' (dur_millis mfaClaimTTL)" "(db2, fs)"]
  have "\<exists>e. fst (mfa_claim h cid' (db2, fs)) = Inl e"
    by (auto simp: mfa_claim_def claim_reply_def split: prod.split)
  moreover have "fst (mfa_consume h cid (db2, [])) = Inr ()" if "live_data db2 h \<noteq> None"
    using that held ne by (auto simp: mfa_consume_def consume_reply_def consume_script_def)
  ultimately show ?thesis by blast
qed

definition demo_mfa :: "mfa_challenge challenge_db" where
  "demo_mfa = \<lparr>cd_ms = 1000, cd_data = [''ab'' \<mapsto> (Readable \<lparr>mf_user_id = ''u'', mf_provider = ''p'',
     mf_provider_session_reference = '''', mf_authentication_methods = [], mf_available_methods = [''totp''],
     mf_provider_session_id = '''', mf_passkey_request_options = '''', mf_attempts = 0, mf_remember = False,
     mf_client_kind = ''browser'', mf_created_at = 0\<rparr>, Some 300000)], cd_attempts = Map.empty, cd_claims = Map.empty\<rparr>"

theorem mfa_claim_is_exclusive_witness:
  "(\<exists>e. fst (mfa_claim ''ab'' ''c2'' (fst (snd (mfa_claim ''ab'' ''c1'' (demo_mfa, []))), [])) = Inl e)
    \<and> fst (mfa_consume ''ab'' ''c1'' (fst (snd (mfa_claim ''ab'' ''c1'' (demo_mfa, []))), [])) = Inr ()"
proof -
  let ?r = "mfa_claim ''ab'' ''c1'' (demo_mfa, [])"
  have "\<exists>d. ?r = (Inr d, snd ?r)"
    by (simp add: mfa_claim_def claim_reply_def claim_script_def live_claim_def live_data_def unexpired_def demo_mfa_def)
  then obtain d where d: "?r = (Inr d, snd ?r)" ..
  have "cd_ms (fst (snd ?r)) \<le> cd_ms (fst (demo_mfa, [])) + 60000"
    by (simp add: mfa_claim_def demo_mfa_def)
  note held = mfa_claim_is_exclusive [where P = "\<lambda>op. False", OF d store_reaches.here _ this, of "''c2''" "[]"]
  have "live_data (fst (snd ?r)) ''ab'' \<noteq> None"
    by (simp add: mfa_claim_def claim_script_def live_claim_def live_data_def unexpired_def demo_mfa_def)
  with held show ?thesis by simp
qed

section \<open>Attempts at the second factor\<close>

text \<open>
  \<open>spent h n t\<close>: the challenge under \<open>h\<close> is gone for good, or it ends at \<open>t\<close> with at least \<open>n\<close>
  attempts on a counter that ends with it.
\<close>

definition spent :: "token_hash \<Rightarrow> int \<Rightarrow> int \<Rightarrow> ('d, 'z) challenge_db_scheme \<Rightarrow> bool" where
  "spent h n t db \<longleftrightarrow> (case cd_data db h of None \<Rightarrow> True | Some (d, w) \<Rightarrow> w = Some t
     \<and> (cd_ms db \<le> t \<longrightarrow> (\<exists>k. cd_attempts db h = Some (k, Some t) \<and> n \<le> k)))"

lemma spent_increment [simp]: "spent h n t db \<Longrightarrow> spent h n t (snd (increment_script h' db))"
  by (auto simp: spent_def increment_script_def live_data_def live_attempts_def data_expiry_def unexpired_def Let_def
      split: option.splits prod.splits if_splits)

lemma spent_scripts [simp]:
  "spent h n t db \<Longrightarrow> spent h n t (snd (claim_script h' cid ttl db))"
  "spent h n t db \<Longrightarrow> spent h n t (snd (release_script h' cid db))"
  "spent h n t db \<Longrightarrow> spent h n t (snd (consume_script h' cid db))"
  "spent h n t db \<Longrightarrow> h' \<noteq> h \<Longrightarrow> spent h n t (snd (set_data h' d ttl db))"
  "spent h n t db \<Longrightarrow> 0 \<le> k \<Longrightarrow> spent h n t (cd_tick k db)"
  "spent h n t db \<Longrightarrow> spent h n t (db\<lparr>cd_data := (cd_data db)(h' := None), cd_attempts := (cd_attempts db)(h' := None)\<rparr>)"
  by (auto simp: spent_def claim_script_def release_script_def consume_script_def set_data_def
      split: option.splits)

fun mfa_creates :: "mfa_op \<Rightarrow> token_hash \<Rightarrow> bool" where
  "mfa_creates (MfaCreate h' d ttl) h \<longleftrightarrow> h' = h"
| "mfa_creates _ h \<longleftrightarrow> False"

lemma mfa_spent: "spent h n t db \<Longrightarrow> \<not> mfa_creates op h \<Longrightarrow> spent h n t (mfa_effect op db)"
  by (cases op) simp_all

lemma increment_counts:
  assumes "increment_reply m (io_call e (increment_script h) c) = ((n, r), c')" and "0 < n"
    and "data_expiry (fst c) h = Some t" and "cd_ms (fst c) < t"
  shows "spent h n t (fst c')"
proof -
  from assms(1,2) have "io_call e (increment_script h) c = (Inr n, c')"
    by (auto simp: increment_reply_def split: prod.splits sum.splits if_splits)
  then have run: "increment_script h (fst c) = (Inr n, fst c')" by (rule io_call_ok)
  have "spent h n t (snd (increment_script h (fst c)))" if "fst (increment_script h (fst c)) = Inr n"
    using that assms(2-4) by (auto simp: increment_script_def spent_def live_data_def live_attempts_def data_expiry_def
        unexpired_def Let_def split: option.splits prod.splits if_splits)
  with run show ?thesis by simp
qed

lemma spent_counts_on:
  assumes "spent h n t db" and "fst (increment_script h db) = Inr k"
  shows "k = - 1 \<or> n < k"
  using assms by (auto simp: increment_script_def spent_def live_data_def live_attempts_def data_expiry_def unexpired_def Let_def
        split: option.splits prod.splits if_splits)

text \<open>
  C9.  Guesses at a second factor are counted whatever happens: once an attempt was numbered, no
  later attempt at the same challenge gets that number or a smaller one, so each limit is
  reached, until the challenge is gone or a login creates it anew; claims, releases, faults and
  delays never take the counter back.
\<close>

theorem mfa_attempts_are_counted:
  assumes "mfa_increment_attempts h m c = ((n, r), c1)" and "0 < n"
    and "data_expiry (fst c) h = Some t" and "cd_ms (fst c) < t"
    and "store_reaches mfa_run cd_tick P (fst c1) db2" and "\<And>op. P op \<Longrightarrow> \<not> mfa_creates op h"
  shows "case fst (mfa_increment_attempts h m' (db2, fs)) of
           (k, None) \<Rightarrow> n < k \<and> k < m'
         | (k, Some e) \<Rightarrow> k = 0 \<or> n < k \<and> m' \<le> k \<and> e = ErrMaxAttemptsExceeded"
proof -
  have ne: "h \<noteq> []" using assms(1,2) by (auto simp: mfa_increment_attempts_def split: if_splits)
  then have "spent h n t (fst c1)"
    using assms(1) by (intro increment_counts [OF _ assms(2-4)]) (simp add: mfa_increment_attempts_def)
  then have sp: "spent h n t db2"
    using assms(6) mfa_spent spent_scripts(5) by (elim mfa.reaches_keeps [OF assms(5)]) blast+
  obtain x c2 where x: "io_call ErrChallengeInfra (increment_script h) (db2, fs) = (x, c2)" by (rule prod.exhaust)
  show ?thesis
  proof (cases x)
    case (Inl e)
    with x ne show ?thesis by (simp add: mfa_increment_attempts_def increment_reply_def)
  next
    case (Inr k)
    with x have "fst (increment_script h db2) = Inr k" using io_call_ok by fastforce
    with spent_counts_on [OF sp] have "k = - 1 \<or> n < k" by simp
    with x ne Inr show ?thesis using assms(2) by (auto simp: mfa_increment_attempts_def increment_reply_def)
  qed
qed

theorem mfa_attempts_are_counted_witness:
  "case fst (mfa_increment_attempts ''ab'' 5 (fst (snd (mfa_increment_attempts ''ab'' 5 (demo_mfa, []))), [])) of
     (k, None) \<Rightarrow> 1 < k \<and> k < 5
   | (k, Some e) \<Rightarrow> k = 0 \<or> 1 < k \<and> 5 \<le> k \<and> e = ErrMaxAttemptsExceeded"
proof -
  let ?r = "mfa_increment_attempts ''ab'' 5 (demo_mfa, [])"
  have "fst ?r = (1, None)" by (simp add: mfa_increment_attempts_def increment_reply_def increment_script_def
      live_data_def live_attempts_def data_expiry_def unexpired_def demo_mfa_def)
  then have r: "?r = ((1, None), snd ?r)" by (simp add: prod_eq_iff)
  have "data_expiry (fst (demo_mfa, [])) ''ab'' = Some 300000" "cd_ms (fst (demo_mfa, [])) < 300000"
    by (simp_all add: data_expiry_def unexpired_def demo_mfa_def)
  from mfa_attempts_are_counted [where P = "\<lambda>op. False", OF r _ this store_reaches.here, of 5 "[]"]
  show ?thesis by simp
qed

section \<open>Reauthentication challenges are single-use\<close>

fun reauth_creates :: "reauth_op \<Rightarrow> token_hash \<Rightarrow> bool" where
  "reauth_creates (ReauthCreate now h' d ttl) h \<longleftrightarrow> h' = h"
| "reauth_creates _ h \<longleftrightarrow> False"

fun grant_creates :: "reauth_op \<Rightarrow> token_hash \<Rightarrow> bool" where
  "grant_creates (GrantCreate h' d ttl) h \<longleftrightarrow> h' = h"
| "grant_creates _ h \<longleftrightarrow> False"

lemma script_data_gone [simp]:
  "cd_data db h = None \<Longrightarrow> cd_data (snd (claim_script h' cid ttl db)) h = None"
  "cd_data db h = None \<Longrightarrow> cd_data (snd (release_script h' cid db)) h = None"
  "cd_data db h = None \<Longrightarrow> cd_data (snd (consume_script h' cid db)) h = None"
  "cd_data db h = None \<Longrightarrow> cd_data (snd (increment_script h' db)) h = None"
  "cd_data db h = None \<Longrightarrow> h' \<noteq> h \<Longrightarrow> cd_data (snd (set_data h' d t db)) h = None"
  "cd_data db' h = None \<Longrightarrow> h' \<noteq> h \<Longrightarrow> cd_data (snd (create_challenge_script h' x t' s db')) h = None"
  by (auto simp: claim_script_def release_script_def consume_script_def increment_script_def set_data_def
      create_challenge_script_def Let_def split: option.split prod.split)

lemma reauth_data_gone:
  "cd_data db h = None \<Longrightarrow> \<not> reauth_creates op h \<Longrightarrow> cd_data (reauth_effect op db) h = None"
  by (cases op) simp_all

lemma consumed_script:
  assumes "consume_reply (io_call e (consume_script h cid) c) = (Inr (), c')"
  shows "live_claim (fst c) h = Some cid" "live_data (fst c) h \<noteq> None" "cd_data (fst c') h = None"
proof -
  from assms have "io_call e (consume_script h cid) c = (Inr 1, c')"
    using consume_reply_ok [of "io_call e (consume_script h cid) c"] snd_replies(3) [of "io_call e (consume_script h cid) c"]
    by (metis fst_conv prod.collapse snd_conv)
  then have run: "consume_script h cid (fst c) = (Inr 1, fst c')" by (rule io_call_ok)
  then show ok: "live_claim (fst c) h = Some cid" "live_data (fst c) h \<noteq> None"
    by (auto simp: consume_script_def split: if_splits)
  from arg_cong [OF run, of "\<lambda>x. cd_data (snd x) h"] ok show "cd_data (fst c') h = None" by (simp add: consume_script_def)
qed

text \<open>
  A reauthentication challenge is consumed once, and only under its claim: when it was, the
  caller held the claim of the live challenge, and from then on no claim, consumption or attempt
  under that token succeeds, whatever calls, faults and delays follow, until one is created
  under it anew.
\<close>

theorem reauth_challenge_single_use:
  assumes "reauth_consume_challenge h cid c = (Inr (), c1)"
    and "store_reaches reauth_run cd_tick P (fst c1) db2" and "\<And>op. P op \<Longrightarrow> \<not> reauth_creates op h"
  shows "live_claim (fst c) h = Some cid \<and> live_data (fst c) h \<noteq> None
    \<and> (\<exists>e. fst (reauth_claim_challenge h cid' (db2, fs)) = Inl e)
    \<and> (\<exists>e. fst (reauth_consume_challenge h cid' (db2, fs)) = Inl e)
    \<and> (\<exists>e. fst (reauth_increment_challenge_attempts h m (db2, fs)) = (0, Some e))"
proof -
  have "consume_reply (io_call ErrChallengeInfra (consume_script h cid) c) = (Inr (), c1)"
    using assms(1) by (auto simp: reauth_consume_challenge_def split: if_splits)
  note done1 = consumed_script [OF this]
  have "cd_data db2 h = None"
    using done1(3) assms(3) by (elim reauth.reaches_keeps [OF assms(2)]) (auto simp: reauth_data_gone)
  then have gone: "live_data db2 h = None" by (simp add: live_data_def)
  have "\<exists>e. fst (reauth_claim_challenge h cid' (db2, fs)) = Inl e"
    using fst_io_call [of ErrChallengeInfra "claim_script h cid' (dur_millis reauthClaimTTL)" "(db2, fs)"] gone
    by (auto simp: reauth_claim_challenge_def claim_reply_def claim_script_def split: prod.splits if_splits)
  moreover have "\<exists>e. fst (reauth_consume_challenge h cid' (db2, fs)) = Inl e"
    using fst_io_call [of ErrChallengeInfra "consume_script h cid'" "(db2, fs)"] gone
    by (auto simp: reauth_consume_challenge_def consume_reply_def consume_script_def split: prod.splits if_splits)
  moreover have "\<exists>e. fst (reauth_increment_challenge_attempts h m (db2, fs)) = (0, Some e)"
    using fst_io_call [of ErrChallengeInfra "increment_script h" "(db2, fs)"] gone
    by (auto simp: reauth_increment_challenge_attempts_def increment_reply_def increment_script_def split: prod.splits if_splits)
  ultimately show ?thesis using done1 by blast
qed

definition demo_reauth :: reauth_db where
  "demo_reauth = \<lparr>cd_ms = 1000, cd_data = [''ab'' \<mapsto> (Readable \<lparr>rc_user_id = ''u'', rc_session_id = ''s'',
     rc_action = ''a'', rc_application_id = '''', rc_client_id = '''', rc_provider_session_id = ''p'',
     rc_available_methods = [''totp''], rc_passkey_request_options = '''', rc_target = '''', rc_attempts = 0,
     rc_created_at = 0, rc_security_epoch = 1\<rparr>, Some 300000)], cd_attempts = Map.empty,
     cd_claims = [''ab'' \<mapsto> (''c1'', 60000)], ra_index = [], ra_grants = [''cd'' \<mapsto> (Readable \<lparr>rg_grant_id = ''g'',
     rg_user_id = ''u'', rg_session_id = ''s'', rg_action = ''a'', rg_application_id = '''', rg_client_id = '''',
     rg_target = '''', rg_created_at = 0, rg_security_epoch = 1, rg_challenge_version = 0\<rparr>, Some 300000)]\<rparr>"

theorem reauth_challenge_single_use_witness:
  "live_claim demo_reauth ''ab'' = Some ''c1'' \<and> live_data demo_reauth ''ab'' \<noteq> None
    \<and> (\<exists>e. fst (reauth_claim_challenge ''ab'' ''c2'' (fst (snd (reauth_consume_challenge ''ab'' ''c1'' (demo_reauth, []))), [])) = Inl e)"
proof -
  let ?r = "reauth_consume_challenge ''ab'' ''c1'' (demo_reauth, [])"
  have "?r = (Inr (), snd ?r)"
    by (simp add: prod_eq_iff reauth_consume_challenge_def consume_reply_def consume_script_def live_claim_def
        live_data_def unexpired_def demo_reauth_def)
  from reauth_challenge_single_use [where P = "\<lambda>op. False", OF this store_reaches.here, of "''c2''" "[]" 5]
  show ?thesis by simp
qed

section \<open>Grants are redeemed once\<close>

lemma grant_scripts [simp]:
  "ra_grants (snd (create_challenge_script h d t s db)) = ra_grants db"
  "ra_grants (snd (claim_script h cid ttl db)) = ra_grants db"
  "ra_grants (snd (release_script h cid db)) = ra_grants db"
  "ra_grants (snd (consume_script h cid db)) = ra_grants db"
  "ra_grants (snd (increment_script h db)) = ra_grants db"
  "ra_grants (snd (getdel_grant h db)) = (ra_grants db)(h := None)"
  "ra_grants (cd_tick k db) = ra_grants db"
  by (simp_all add: create_challenge_script_def claim_script_def release_script_def consume_script_def
      increment_script_def getdel_grant_def cd_tick_def Let_def split: option.split prod.split)

lemma reauth_grant_gone:
  "ra_grants db h = None \<Longrightarrow> \<not> grant_creates op h \<Longrightarrow> ra_grants (reauth_effect op db) h = None"
  by (cases op) simp_all

lemma grant_consumed:
  assumes "reauth_consume_grant h c = (Inr d, c1)"
  shows "\<exists>g w. live_grant (fst c) h = Some (Readable g, w) \<and> d = normalize_reauth_grant_epoch g"
    and "ra_grants (fst c1) h = None"
proof -
  from assms have ok: "claim_reply normalize_reauth_grant_epoch (io_call ErrChallengeInfra (getdel_grant h) c) = (Inr d, c1)"
    by (simp add: reauth_consume_grant_def split: if_splits)
  obtain x c2 where x: "io_call ErrChallengeInfra (getdel_grant h) c = (x, c2)" by (rule prod.exhaust)
  with ok have "c2 = c1" by (metis snd_conv snd_replies(1))
  with ok x obtain g where g: "x = Inr (Some (Readable g))" "d = normalize_reauth_grant_epoch g"
    using claim_reply_ok [of normalize_reauth_grant_epoch "(x, c2)" d] by auto
  with x have run: "getdel_grant h (fst c) = (Inr (Some (Readable g)), fst c2)" using io_call_ok by fastforce
  then show "\<exists>g w. live_grant (fst c) h = Some (Readable g, w) \<and> d = normalize_reauth_grant_epoch g"
    using g(2) by (auto simp: getdel_grant_def)
  from arg_cong [OF run, of "\<lambda>x. ra_grants (snd x) h"] \<open>c2 = c1\<close> show "ra_grants (fst c1) h = None" by simp
qed

lemma grant_gone:
  assumes "ra_grants db h = None"
  shows "\<exists>e. fst (reauth_consume_grant h (db, fs)) = Inl e"
  using fst_io_call [of ErrChallengeInfra "getdel_grant h" "(db, fs)"] assms
  by (auto simp: reauth_consume_grant_def claim_reply_def getdel_grant_def live_grant_def split: prod.splits)

lemma gate_may_consume:
  assumes "allow_sensitive_consumption pg_ledger u e ((db, fs), r) = (Inr (), w')"
  shows "may_consume db u e"
  using pgl.consumption_gate [OF assms]
  by (auto simp: may_consume_def pg_life_def life_of_def life_of_row_def split: option.split)

lemma accepted_grant:
  assumes "verify_and_consume_data hash (Some allow) token action sid target app client w = (Inr d, w1)"
  shows "\<exists>c1 x. reauth_consume_grant (hash token) (fst w) = (Inr d, c1) \<and> allow (rg_user_id d) (rg_security_epoch d) (snd w) = (Inr x, snd w1)
    \<and> fst w1 = c1 \<and> rg_action d = action \<and> rg_session_id d = sid \<and> rg_target d = target
    \<and> rg_application_id d = app \<and> rg_client_id d = client"
  using assms by (auto simp: verify_and_consume_data_def split: prod.splits sum.splits if_splits)

text \<open>
  C10.  A sensitive operation costs a grant of exactly its kind: a token is accepted only while
  its grant is stored, issued for that action, session, target, application and client, with a
  stamp that is the user's current security epoch and no mutation under way in the ledger; and
  once accepted it is never accepted again, for any operation, whatever happens to the store,
  until a grant is created under its hash anew.
\<close>

theorem grant_redeemed_once:
  assumes "verify_and_consume_data hash (Some (allow_sensitive_consumption pg_ledger)) token action sid target app client
             (c, ((db, fs), r)) = (Inr d, (c1, w1))"
    and "store_reaches reauth_run cd_tick P (fst c1) db2" and "\<And>op. P op \<Longrightarrow> \<not> grant_creates op (hash token)"
  shows "(\<exists>g w. live_grant (fst c) (hash token) = Some (Readable g, w) \<and> d = normalize_reauth_grant_epoch g)
    \<and> rg_action d = action \<and> rg_session_id d = sid \<and> rg_target d = target \<and> rg_application_id d = app
    \<and> rg_client_id d = client \<and> may_consume db (rg_user_id d) (rg_security_epoch d)
    \<and> (\<exists>e. fst (verify_and_consume hash gate token action' sid' target' app' client' ((db2, fs2), w2)) = Inl e)"
proof -
  from accepted_grant [OF assms(1)] obtain x where
    b: "reauth_consume_grant (hash token) c = (Inr d, c1)"
      "allow_sensitive_consumption pg_ledger (rg_user_id d) (rg_security_epoch d) ((db, fs), r) = (Inr x, w1)"
      "rg_action d = action" "rg_session_id d = sid" "rg_target d = target" "rg_application_id d = app" "rg_client_id d = client"
    by auto
  note taken = grant_consumed [OF b(1)]
  have "ra_grants db2 (hash token) = None"
    using taken(2) assms(3) by (elim reauth.reaches_keeps [OF assms(2)]) (auto simp: reauth_grant_gone)
  from grant_gone [OF this] obtain e c3 where "reauth_consume_grant (hash token) (db2, fs2) = (Inl e, c3)"
    by (metis prod.collapse)
  then have "\<exists>e. fst (verify_and_consume hash gate token action' sid' target' app' client' ((db2, fs2), w2)) = Inl e"
    by (simp add: verify_and_consume_def verify_and_consume_data_def)
  moreover have "may_consume db (rg_user_id d) (rg_security_epoch d)" using b(2) gate_may_consume by simp
  ultimately show ?thesis using taken(1) b(3-) by blast
qed

theorem grant_redeemed_once_witness:
  "\<exists>e. fst (verify_and_consume (\<lambda>x. ''cd'') None ''t'' ''a'' ''s'' '''' '''' ''''
     (fst (snd (verify_and_consume_data (\<lambda>x. ''cd'') (Some (allow_sensitive_consumption pg_ledger)) ''t'' ''a'' ''s'' '''' '''' ''''
       ((demo_reauth, []), ((\<lparr>ld_epochs = [''u'' \<mapsto> 1], ld_intents = Map.empty, ld_seq = 0, ld_now = 0\<rparr>, []), ())))), ())) = Inl e"
proof -
  let ?db = "\<lparr>ld_epochs = [''u'' \<mapsto> 1], ld_intents = Map.empty, ld_seq = 0, ld_now = 0\<rparr>"
  let ?r = "verify_and_consume_data (\<lambda>x. ''cd'') (Some (allow_sensitive_consumption pg_ledger)) ''t'' ''a'' ''s'' '''' '''' ''''
       ((demo_reauth, []), ((?db, []), ()))"
  have "\<exists>d. fst ?r = Inr d" "snd (fst (snd ?r)) = []"
    by (simp_all add: verify_and_consume_data_def reauth_consume_grant_def claim_reply_def getdel_grant_def live_grant_def
        unexpired_def demo_reauth_def normalize_reauth_grant_epoch_def allow_sensitive_consumption_def on_pg_def
        pg_get_security_state_def sql_get_security_state_def barrier_sensitive_def)
  then obtain d db1 w1 where "?r = (Inr d, ((db1, []), w1))" by (metis prod.collapse)
  from grant_redeemed_once [where P = "\<lambda>op. False", OF this store_reaches.here, of None "''a''" "''s''" "''''" "''''" "''''" "[]" "()"]
    this show ?thesis by simp
qed

end
