(* ===== verification/EnrollmentCleanup.thy ===== *)
theory EnrollmentCleanup
  imports ChallengeProtocol
begin

text \<open>
  The cleanup queue of abandoned passkey registrations: every pending record stays indexed until
  it is settled, repeated calls hand out a due one, and a lease keeps other workers away from it.
\<close>

section \<open>The index\<close>

lemma set_queue_add [simp]: "set (queue_add m s z) = insert (m, s) {x \<in> set z. fst x \<noteq> m}"
  by (auto simp: queue_add_def set_insort_key)

lemma set_queue_drop [simp]: "set (queue_drop m z) = {x \<in> set z. fst x \<noteq> m}"
  by (auto simp: queue_drop_def)

text \<open>Every pending record is indexed.\<close>

definition queued :: "enrollment_db \<Rightarrow> bool" where
  "queued db \<longleftrightarrow> (\<forall>h. eb_cleanup db h \<noteq> None \<longrightarrow> h \<in> fst ` set (eb_index db))"

lemma queuedI: "(\<And>h p. eb_cleanup db h = Some p \<Longrightarrow> \<exists>s. (h, s) \<in> set (eb_index db)) \<Longrightarrow> queued db"
  unfolding queued_def by (force simp: image_iff)

lemma queuedD: "queued db \<Longrightarrow> eb_cleanup db h = Some p \<Longrightarrow> \<exists>s. (h, s) \<in> set (eb_index db)"
  unfolding queued_def by (fastforce simp: image_iff)

lemma queue_scripts [simp]:
  "eb_cleanup (snd (claim_script h cid ttl db)) = eb_cleanup db" "eb_index (snd (claim_script h cid ttl db)) = eb_index db"
  "eb_cleanup (snd (release_script h cid db)) = eb_cleanup db" "eb_index (snd (release_script h cid db)) = eb_index db"
  "eb_cleanup (snd (set_data h d k db)) = eb_cleanup db" "eb_index (snd (set_data h d k db)) = eb_index db"
  "eb_cleanup (cd_tick k db) = eb_cleanup db" "eb_index (cd_tick k db) = eb_index db"
  by (simp_all add: claim_script_def release_script_def set_data_def cd_tick_def split: option.split)

lemma queued_cong: "eb_cleanup db' = eb_cleanup db \<Longrightarrow> eb_index db' = eb_index db \<Longrightarrow> queued db' = queued db"
  by (simp add: queued_def)

lemma queued_add:
  "queued db \<Longrightarrow> eb_cleanup db' = eb_cleanup db \<Longrightarrow> eb_index db' = queue_add h s (eb_index db) \<Longrightarrow> queued db'"
  by (rule queuedI) (metis (mono_tags, lifting) queuedD set_queue_add insertCI mem_Collect_eq fst_conv)

lemma lease_loop_queued: "queued db \<Longrightarrow> queued (snd (lease_loop l n hs acc db))"
proof (induction l n hs acc db rule: lease_loop.induct)
  case (2 l n h hs acc db)
  have drop: "queued (db\<lparr>eb_index := queue_drop h (eb_index db)\<rparr>)" if "eb_cleanup db h = None"
    using that 2 by (intro queuedI) (auto dest: queuedD)
  have add: "queued (db\<lparr>eb_index := queue_add h l (eb_index db)\<rparr>)"
    using 2(4) by (rule queued_add) simp_all
  from 2 drop add show ?case by (auto split: option.split)
qed simp

lemma enrollment_queued: "queued db \<Longrightarrow> queued (enrollment_effect op db)"
proof (induction op)
  case (EnCreate now h d ttl)
  then show ?case
    by (auto simp: create_passkey_script_def queued_cong [of "snd (set_data h d ttl db)" db] intro!: queuedI
        split: if_splits dest: queuedD)
next
  case (EnConsume h cid)
  then show ?case by (auto simp: consume_enrollment_script_def intro!: queuedI split: if_splits dest: queuedD)
next
  case (EnAbandon now h cid)
  let ?d = "snd (abandon_enrollment_script h cid (unix_milli now) db)"
  have "eb_cleanup ?d = eb_cleanup db"
    and "eb_index ?d = eb_index db \<or> eb_index ?d = queue_add h (unix_milli now) (eb_index db)"
    by (auto simp: abandon_enrollment_script_def)
  then have "queued ?d" using queued_add EnAbandon queued_cong by metis
  then show ?case by simp
next
  case (EnLease now limit)
  then show ?case by (simp add: snd_lease_script lease_loop_queued Let_def)
next
  case (EnComplete h)
  then show ?case by (auto intro!: queuedI split: if_splits dest: queuedD)
next
  case (EnRequeue now e delay)
  then show ?case by (auto simp: requeue_script_def intro!: queuedI split: if_splits dest: queuedD)
qed (simp_all add: queued_cong [of "snd (claim_script _ _ _ db)" db] queued_cong [of "snd (release_script _ _ db)" db])

section \<open>Handing out\<close>

lemma lease_loop_keeps: "set acc \<subseteq> set (fst (lease_loop l n hs acc db))"
  by (induction l n hs acc db rule: lease_loop.induct) (auto split: option.split)

lemma live_index [simp]:
  "live_data (db\<lparr>eb_index := z\<rparr>) h = live_data db h" "live_claim (db\<lparr>eb_index := z\<rparr>) h = live_claim db h"
  by (simp_all add: live_data_def live_claim_def split: option.split)

lemma lease_loop_hands_out:
  assumes "h \<in> set hs" "eb_cleanup db h = Some p" "live_data db h = None" "live_claim db h = None"
    and "int (length acc + length (takeWhile (\<lambda>x. x \<noteq> h) hs)) < n"
  shows "(h, p) \<in> set (fst (lease_loop l n hs acc db))"
  using assms
proof (induction l n hs acc db rule: lease_loop.induct)
  case (2 l n k ks acc db)
  show ?case
  proof (cases "k = h")
    case True
    have "(h, p) \<in> set (acc @ [(h, p)])" by simp
    then have "(h, p) \<in> set (fst (lease_loop l n ks (acc @ [(h, p)]) (db\<lparr>eb_index := queue_add h l (eb_index db)\<rparr>)))"
      using lease_loop_keeps by (rule set_mp [rotated])
    with True 2(5-8) show ?thesis by simp
  next
    case False
    with 2 show ?thesis by (auto split: option.split)
  qed
qed simp

lemma lease_script_eq:
  "lease_script now_ms l n scan db =
     (case lease_loop l n (map fst (take (nat scan) (filter (\<lambda>x. snd x \<le> now_ms) (eb_index db)))) [] db of
        (xs, db') \<Rightarrow> (Inr xs, db'))"
  by (simp add: lease_script_def Let_def)

lemma decode_leases_set:
  "e \<in> set (decode_leases xs) \<longleftrightarrow>
     (\<exists>h p. (h, Readable p) \<in> set xs \<and> h \<noteq> [] \<and> e = p\<lparr>xp_token_hash := h\<rparr>)"
  by (induction xs rule: decode_leases.induct) auto

lemma takeWhile_take_le: "length (takeWhile P (take n xs)) \<le> length (takeWhile P xs)"
  by (induction xs arbitrary: n) (auto simp: take_Cons split: nat.split)

lemma found_in_take:
  "y \<in> set xs \<Longrightarrow> \<not> P y \<Longrightarrow> length (takeWhile P xs) < n \<Longrightarrow> \<exists>x\<in>set (take n xs). \<not> P x"
proof (induction xs arbitrary: n)
  case (Cons x xs)
  then show ?case by (cases n) (auto split: if_splits)
qed simp

lemma lease_script_hands_out:
  assumes "(h, s) \<in> set (eb_index db)" "s \<le> now_ms" "eb_cleanup db h = Some p" "live_data db h = None" "live_claim db h = None"
    and before: "int (length (takeWhile (\<lambda>x. fst x \<noteq> h) (filter (\<lambda>x. snd x \<le> now_ms) (eb_index db)))) < n"
  shows "\<exists>xs db'. lease_script now_ms l n (n * 10) db = (Inr xs, db') \<and> (h, p) \<in> set xs"
proof -
  let ?due = "filter (\<lambda>x. snd x \<le> now_ms) (eb_index db)" let ?t = "take (nat (n * 10)) ?due"
  have "length (takeWhile (\<lambda>x. fst x \<noteq> h) ?due) < nat (n * 10)" using before by linarith
  with found_in_take [of "(h, s)" ?due "\<lambda>x. fst x \<noteq> h" "nat (n * 10)"] assms(1,2)
  have "h \<in> set (map fst ?t)" by force
  moreover have "takeWhile (\<lambda>x. x \<noteq> h) (map fst ?t) = map fst (takeWhile (\<lambda>x. fst x \<noteq> h) ?t)"
    by (simp add: takeWhile_map comp_def)
  then have "int (length ([] :: (token_hash \<times> passkey_cleanup stored) list) + length (takeWhile (\<lambda>x. x \<noteq> h) (map fst ?t))) < n"
    using takeWhile_take_le [of "\<lambda>x. fst x \<noteq> h" "nat (n * 10)" ?due] before by simp
  ultimately have "(h, p) \<in> set (fst (lease_loop l n (map fst ?t) [] db))"
    by (rule lease_loop_hands_out [OF _ assms(3-5)])
  then show ?thesis by (auto simp: lease_script_def Let_def split: prod.split)
qed

section \<open>Draining the queue\<close>

text \<open>The entries due, those ahead of an item, and the ones a call passes over because their ceremony is still live.\<close>

definition dues :: "int \<Rightarrow> enrollment_db \<Rightarrow> token_hash list" where
  "dues now_ms db = map fst (filter (\<lambda>x. snd x \<le> now_ms) (eb_index db))"

definition ahead :: "int \<Rightarrow> token_hash \<Rightarrow> enrollment_db \<Rightarrow> token_hash list" where
  "ahead now_ms h db = takeWhile (\<lambda>k. k \<noteq> h) (dues now_ms db)"

definition busy :: "enrollment_db \<Rightarrow> token_hash \<Rightarrow> bool" where
  "busy db h \<longleftrightarrow> eb_cleanup db h \<noteq> None \<and> (live_data db h \<noteq> None \<or> live_claim db h \<noteq> None)"

definition batch :: "int \<Rightarrow> int" where
  "batch limit = (if limit \<le> 0 then 100 else limit)"

text \<open>What \<open>k\<close> calls of a worker hand out one after the other, at the same instant.\<close>

primrec handed_out :: "nat \<Rightarrow> time \<Rightarrow> int \<Rightarrow> enrollment_db \<Rightarrow> passkey_cleanup list" where
  "handed_out 0 now limit db = []"
| "handed_out (Suc k) now limit db =
     (case claim_expired_passkey_enrollments now limit (db, []) of
        (Inl e, c) \<Rightarrow> handed_out k now limit (fst c)
      | (Inr es, c) \<Rightarrow> es @ handed_out k now limit (fst c))"

lemma busy_index [simp]: "busy (db\<lparr>eb_index := z\<rparr>) = busy db"
  by (simp add: busy_def fun_eq_iff)

lemma dues_drop: "dues now_ms (db\<lparr>eb_index := queue_drop k (eb_index db)\<rparr>) = filter (\<lambda>x. x \<noteq> k) (dues now_ms db)"
  by (simp add: dues_def queue_drop_def filter_map comp_def conj_commute)

lemma dues_lease:
  "now_ms < l \<Longrightarrow> dues now_ms (db\<lparr>eb_index := queue_add k l (eb_index db)\<rparr>) = filter (\<lambda>x. x \<noteq> k) (dues now_ms db)"
  by (simp add: dues_def queue_add_def filter_insort_triv filter_map comp_def conj_commute)

text \<open>
  A pass removes the entries it drops or leases from the due ones, hands out the leased ones,
  and gets at least as far as the first entry that is not busy.
\<close>

lemma lease_loop_pass:
  assumes "now_ms < l"
  shows "\<exists>X z. dues now_ms (snd (lease_loop l n hs acc db)) = filter (\<lambda>x. x \<notin> X) (dues now_ms db)
     \<and> snd (lease_loop l n hs acc db) = db\<lparr>eb_index := z\<rparr>
     \<and> (\<forall>k p. k \<in> X \<longrightarrow> eb_cleanup db k = Some p \<longrightarrow> (k, p) \<in> set (fst (lease_loop l n hs acc db)))
     \<and> (\<forall>bs k rest. hs = bs @ k # rest \<longrightarrow> list_all (busy db) bs \<longrightarrow> \<not> busy db k \<longrightarrow> int (length acc) < n \<longrightarrow> k \<in> X)"
    (is "\<exists>X z. ?P hs acc db X z")
proof (induction hs arbitrary: acc db)
  case Nil
  have "?P [] acc db {} (eb_index db)" by simp
  then show ?case by blast
next
  case (Cons h hs)
  consider "n \<le> int (length acc)" | "int (length acc) < n" "eb_cleanup db h = None"
    | p where "int (length acc) < n" "eb_cleanup db h = Some p" "\<not> busy db h" | "int (length acc) < n" "busy db h"
    by (cases "eb_cleanup db h") fastforce+
  then show ?case
  proof cases
    case 1
    then have "?P (h # hs) acc db {} (eb_index db)" by simp
    then show ?thesis by blast
  next
    case 2
    let ?d = "db\<lparr>eb_index := queue_drop h (eb_index db)\<rparr>"
    obtain X z where X: "?P hs acc ?d X z" using Cons.IH by blast
    have "?P (h # hs) acc db (insert h X) z"
    proof (intro conjI allI impI)
      fix bs k rest
      assume "h # hs = bs @ k # rest" "list_all (busy db) bs"
      then show "k \<in> insert h X" using 2(2) by (cases bs) (auto simp: busy_def)
    qed (use X 2 in \<open>auto simp: dues_drop\<close>)
    then show ?thesis by blast
  next
    case 3
    let ?d = "db\<lparr>eb_index := queue_add h l (eb_index db)\<rparr>"
    obtain X z where X: "?P hs (acc @ [(h, p)]) ?d X z" using Cons.IH by blast
    have e: "lease_loop l n (h # hs) acc db = lease_loop l n hs (acc @ [(h, p)]) ?d"
      using 3 by (simp add: busy_def)
    have "(h, p) \<in> set (acc @ [(h, p)])" by simp
    then have out: "(h, p) \<in> set (fst (lease_loop l n hs (acc @ [(h, p)]) ?d))" using lease_loop_keeps by (rule set_mp [rotated])
    have "?P (h # hs) acc db (insert h X) z"
      unfolding e
    proof (intro conjI allI impI)
      fix bs k rest
      assume "h # hs = bs @ k # rest" "list_all (busy db) bs"
      then show "k \<in> insert h X" using 3(3) by (cases bs) auto
    next
      fix k q assume "k \<in> insert h X" "eb_cleanup db k = Some q"
      then show "(k, q) \<in> set (fst (lease_loop l n hs (acc @ [(h, p)]) ?d))" using out X 3(2) by auto
    qed (use X assms in \<open>auto simp: dues_lease\<close>)
    then show ?thesis by blast
  next
    case 4
    obtain X z where X: "?P hs acc db X z" using Cons.IH by blast
    have e: "lease_loop l n (h # hs) acc db = lease_loop l n hs acc db" using 4 by (auto simp: busy_def)
    have "k \<in> X" if "h # hs = bs @ k # rest" "list_all (busy db) bs" "\<not> busy db k" for bs k rest
    proof (cases bs)
      case Nil
      with that 4(2) show ?thesis by simp
    next
      case (Cons b bs')
      with that have "hs = bs' @ k # rest" "list_all (busy db) bs'" by simp_all
      with X that(3) 4(1) show ?thesis by blast
    qed
    with X have "?P (h # hs) acc db X z" unfolding e by (intro conjI allI impI) blast+
    then show ?thesis by blast
  qed
qed

lemma takeWhile_filter: "Q h \<Longrightarrow> takeWhile (\<lambda>k. k \<noteq> h) (filter Q xs) = filter Q (takeWhile (\<lambda>k. k \<noteq> h) xs)"
  by (induction xs) auto

lemma first_ready:
  assumes "h \<in> set xs" and "\<not> B h" and "length (filter B (takeWhile (\<lambda>k. k \<noteq> h) xs)) < m"
  obtains bs k rest where "take m xs = bs @ k # rest" "list_all B bs" "\<not> B k"
    "k = h \<or> k \<in> set (takeWhile (\<lambda>k. k \<noteq> h) xs)"
proof -
  let ?b = "takeWhile (\<lambda>k. k \<noteq> h) xs"
  obtain rest where xs: "xs = ?b @ h # rest"
    using assms(1) by (metis (mono_tags, lifting) dropWhile_eq_Cons_conv hd_dropWhile list.exhaust_sel set_dropWhileD takeWhile_dropWhile_id dropWhile_eq_Nil_conv)
  have "\<exists>k\<in>set (take m (?b @ [h])). \<not> B k"
  proof (rule ccontr)
    assume "\<not> (\<exists>k\<in>set (take m (?b @ [h])). \<not> B k)"
    then have a: "\<forall>k\<in>set (take m (?b @ [h])). B k" by blast
    with assms(2) have "m \<le> length ?b" by (cases "m \<le> length ?b") auto
    with a have "filter B (take m ?b) = take m ?b" "length (take m ?b) = m" by (auto simp: filter_id_conv)
    moreover have "length (filter B (take m ?b)) \<le> length (filter B ?b)"
      by (metis append_take_drop_id filter_append le_add1 length_append)
    ultimately show False using assms(3) by simp
  qed
  from split_list_first_prop [OF this] obtain ys k zs where
    k: "take m (?b @ [h]) = ys @ k # zs" "\<not> B k" "\<forall>y\<in>set ys. \<not> \<not> B y" by blast
  have "take m xs = take m (?b @ [h]) @ take (m - length (?b @ [h])) rest"
    using take_append [of m "?b @ [h]" rest] xs by simp
  with k have "take m xs = ys @ k # (zs @ take (m - length (?b @ [h])) rest)" by simp
  moreover have "k \<in> set (?b @ [h])" using k(1) in_set_takeD [of k m "?b @ [h]"] by simp
  ultimately show thesis using that [of ys k] k(2,3) by (auto simp: list_all_iff)
qed

lemma claim_eq:
  "claim_expired_passkey_enrollments now limit (db, []) =
     (case lease_loop (unix_milli (now + enrollmentCleanupLeaseTTL)) (batch limit)
             (take (nat (batch limit * 10)) (dues (unix_milli now) db)) [] db of
        (xs, db') \<Rightarrow> (Inr (decode_leases xs), (db', [])))"
  by (simp add: claim_expired_passkey_enrollments_def lease_script_eq batch_def dues_def take_map Let_def split: prod.split)

text \<open>One call hands the item out or brings it nearer to the front.\<close>

lemma claim_pass:
  assumes "h \<in> set (dues (unix_milli now) db)" "eb_cleanup db h = Some (Readable p)" "h \<noteq> []" "\<not> busy db h"
    and "int (length (filter (busy db) (ahead (unix_milli now) h db))) < 10 * batch limit"
    and "claim_expired_passkey_enrollments now limit (db, []) = (res, c)"
  shows "\<exists>es z. res = Inr es \<and> c = (db\<lparr>eb_index := z\<rparr>, [])
    \<and> (p\<lparr>xp_token_hash := h\<rparr> \<in> set es
       \<or> (h \<in> set (dues (unix_milli now) (fst c))
          \<and> length (ahead (unix_milli now) h (fst c)) < length (ahead (unix_milli now) h db)
          \<and> length (filter (busy db) (ahead (unix_milli now) h (fst c))) \<le> length (filter (busy db) (ahead (unix_milli now) h db))))"
proof -
  let ?l = "unix_milli (now + enrollmentCleanupLeaseTTL)" and ?now = "unix_milli now"
  let ?hs = "take (nat (batch limit * 10)) (dues ?now db)"
  have l: "?now < ?l" by (simp add: enrollmentCleanupLeaseTTL_def unix_milli_def seconds_def ns_per_ms_def)
  obtain xs d where x: "lease_loop ?l (batch limit) ?hs [] db = (xs, d)" by (rule prod.exhaust)
  from lease_loop_pass [OF l, of "batch limit" ?hs "[]" db] x obtain X z where
    X: "dues ?now d = filter (\<lambda>x. x \<notin> X) (dues ?now db)" "d = db\<lparr>eb_index := z\<rparr>"
      "\<forall>k p. k \<in> X \<longrightarrow> eb_cleanup db k = Some p \<longrightarrow> (k, p) \<in> set xs"
      "\<forall>bs k rest. ?hs = bs @ k # rest \<longrightarrow> list_all (busy db) bs \<longrightarrow> \<not> busy db k \<longrightarrow> 0 < batch limit \<longrightarrow> k \<in> X"
    by auto
  have e: "res = Inr (decode_leases xs)" "c = (d, [])" using assms(6) x by (simp_all add: claim_eq)
  show ?thesis
  proof (cases "h \<in> X")
    case True
    with X(3) assms(2,3) have "p\<lparr>xp_token_hash := h\<rparr> \<in> set (decode_leases xs)" by (auto simp: decode_leases_set)
    with e X(2) show ?thesis by blast
  next
    case False
    have b: "0 < batch limit" by (simp add: batch_def)
    have "length (filter (busy db) (takeWhile (\<lambda>k. k \<noteq> h) (dues ?now db))) < nat (batch limit * 10)"
      using assms(5) by (simp add: ahead_def)
    from assms(1,4) this obtain bs k rest where k: "?hs = bs @ k # rest" "list_all (busy db) bs" "\<not> busy db k"
      "k = h \<or> k \<in> set (ahead ?now h db)" unfolding ahead_def by (rule first_ready)
    with X(4) b have "k \<in> X" by blast
    with k(4) False have ka: "k \<in> set (ahead ?now h db)" by auto
    have a: "ahead ?now h d = filter (\<lambda>x. x \<notin> X) (ahead ?now h db)"
      unfolding ahead_def X(1) by (rule takeWhile_filter) (simp_all add: False)
    have "length (ahead ?now h d) < length (ahead ?now h db)"
      unfolding a using ka \<open>k \<in> X\<close> by (intro length_filter_less) auto
    moreover have "h \<in> set (dues ?now d)" using X(1) assms(1) False by simp
    moreover have "length (filter (busy db) (ahead ?now h d)) \<le> length (filter (busy db) (ahead ?now h db))"
    proof -
      have "filter (busy db) (filter (\<lambda>x. x \<notin> X) ys) = filter (\<lambda>x. x \<notin> X) (filter (busy db) ys)" for ys
        by (simp add: conj_commute)
      then show ?thesis unfolding a by (metis length_filter_le)
    qed
    ultimately show ?thesis using e X(2) by auto
  qed
qed

lemma handed_out_eventually:
  assumes "h \<in> set (dues (unix_milli now) db)" "eb_cleanup db h = Some (Readable p)" "h \<noteq> []" "\<not> busy db h"
    and "int (length (filter (busy db) (ahead (unix_milli now) h db))) < 10 * batch limit"
    and "length (ahead (unix_milli now) h db) < k"
  shows "p\<lparr>xp_token_hash := h\<rparr> \<in> set (handed_out k now limit db)"
  using assms
proof (induction k arbitrary: db)
  case (Suc k)
  obtain res c where c: "claim_expired_passkey_enrollments now limit (db, []) = (res, c)" by (rule prod.exhaust)
  from claim_pass [OF Suc.prems(1-5) c] obtain es z where es: "res = Inr es" "c = (db\<lparr>eb_index := z\<rparr>, [])"
    and d: "p\<lparr>xp_token_hash := h\<rparr> \<in> set es
       \<or> (h \<in> set (dues (unix_milli now) (fst c))
          \<and> length (ahead (unix_milli now) h (fst c)) < length (ahead (unix_milli now) h db)
          \<and> length (filter (busy db) (ahead (unix_milli now) h (fst c))) \<le> length (filter (busy db) (ahead (unix_milli now) h db)))"
    by blast
  from d show ?case
  proof
    assume n: "h \<in> set (dues (unix_milli now) (fst c))
          \<and> length (ahead (unix_milli now) h (fst c)) < length (ahead (unix_milli now) h db)
          \<and> length (filter (busy db) (ahead (unix_milli now) h (fst c))) \<le> length (filter (busy db) (ahead (unix_milli now) h db))"
    from Suc.prems n es(2) have "p\<lparr>xp_token_hash := h\<rparr> \<in> set (handed_out k now limit (fst c))"
      by (intro Suc.IH) auto
    with c es show ?thesis by simp
  qed (use c es in simp)
qed simp

text \<open>
  C11.  An abandoned passkey registration is never forgotten: in whatever state calls, faults and
  delays leave a store that began without pending registrations, every pending one whose
  ceremony is neither live nor claimed is in the queue with a due time.  Once that has come, a
  call whose batch is larger than the number of entries due ahead of it hands it out; and with any
  batch size, one call more than there are entries due ahead of it hands it out, when the calls
  follow each other without fault or interference and fewer than ten batches of the entries
  ahead belong to ceremonies still live or claimed (a call looks no further than ten batches).
\<close>

theorem passkey_cleanup_stays_queued:
  assumes "store_reaches enrollment_run cd_tick P db0 db" and "eb_cleanup db0 = Map.empty"
    and "eb_cleanup db h = Some (Readable p)" and "h \<noteq> []" and "live_data db h = None" and "live_claim db h = None"
  shows "\<exists>due. (h, due) \<in> set (eb_index db) \<and> (\<forall>now limit. due \<le> unix_milli now \<longrightarrow>
    (int (length (ahead (unix_milli now) h db)) < batch limit \<longrightarrow>
       (\<exists>es. fst (claim_expired_passkey_enrollments now limit (db, [])) = Inr es \<and> p\<lparr>xp_token_hash := h\<rparr> \<in> set es))
    \<and> (int (length (filter (busy db) (ahead (unix_milli now) h db))) < 10 * batch limit \<longrightarrow>
       p\<lparr>xp_token_hash := h\<rparr> \<in> set (handed_out (Suc (length (ahead (unix_milli now) h db))) now limit db)))"
proof -
  have "queued db0" using assms(2) by (simp add: queued_def)
  then have "queued db"
    by (elim enroll.reaches_keeps [OF assms(1)]) (auto simp: enrollment_queued queued_cong [of "cd_tick _ _"])
  then obtain due where due: "(h, due) \<in> set (eb_index db)" using queuedD assms(3) by blast
  have nb: "\<not> busy db h" using assms(5,6) by (simp add: busy_def)
  have "\<exists>es. fst (claim_expired_passkey_enrollments now limit (db, [])) = Inr es \<and> p\<lparr>xp_token_hash := h\<rparr> \<in> set es"
    if a: "due \<le> unix_milli now" and b: "int (length (ahead (unix_milli now) h db)) < batch limit" for now limit
  proof -
    have "int (length (takeWhile (\<lambda>x. fst x \<noteq> h) (filter (\<lambda>x. snd x \<le> unix_milli now) (eb_index db)))) < batch limit"
      using b by (simp add: ahead_def dues_def takeWhile_map comp_def)
    from lease_script_hands_out [OF due a assms(3,5,6) this, of "unix_milli (now + enrollmentCleanupLeaseTTL)"]
    obtain xs db' where
      "lease_script (unix_milli now) (unix_milli (now + enrollmentCleanupLeaseTTL)) (batch limit) (batch limit * 10) db = (Inr xs, db')"
        "(h, Readable p) \<in> set xs" by blast
    then show ?thesis using assms(4)
      by (auto simp: claim_expired_passkey_enrollments_def batch_def decode_leases_set)
  qed
  moreover have "p\<lparr>xp_token_hash := h\<rparr> \<in> set (handed_out (Suc (length (ahead (unix_milli now) h db))) now limit db)"
    if "due \<le> unix_milli now" "int (length (filter (busy db) (ahead (unix_milli now) h db))) < 10 * batch limit" for now limit
    by (rule handed_out_eventually [OF _ assms(3,4) nb that(2)]) (use due that(1) in \<open>force simp: dues_def\<close>)+
  ultimately show ?thesis using due by blast
qed

definition demo_enrollment :: enrollment_db where
  "demo_enrollment = \<lparr>cd_ms = 0, cd_data = Map.empty, cd_attempts = Map.empty, cd_claims = Map.empty,
     eb_cleanup = Map.empty, eb_index = []\<rparr>"

abbreviation demo_passkey :: enrollment_op where
  "demo_passkey \<equiv> EnCreate 0 ''ab'' \<lparr>en_user_id = ''u'', en_session_id = ''s'', en_kind = ''passkey'',
     en_target = ''key'', en_security_epoch = 1\<rparr> (seconds 1)"

definition demo_abandoned :: enrollment_db where
  "demo_abandoned = cd_tick 2000 (fst (enrollment_run demo_passkey (demo_enrollment, [])))"

lemma demo_abandoned_reached: "store_reaches enrollment_run cd_tick (\<lambda>op. True) demo_enrollment demo_abandoned"
  unfolding demo_abandoned_def by (intro store_reaches.intros) simp_all

lemma demo_abandoned_value: "demo_abandoned = \<lparr>cd_ms = 2000, cd_data = [''ab'' \<mapsto> (Readable \<lparr>en_user_id = ''u'',
     en_session_id = ''s'', en_kind = ''passkey'', en_target = ''key'', en_security_epoch = 1\<rparr>, Some 1000)],
     cd_attempts = Map.empty, cd_claims = Map.empty, eb_cleanup = [''ab'' \<mapsto> Readable \<lparr>xp_token_hash = ''ab'',
     xp_user_id = ''u'', xp_target = ''key'', xp_created_at = 0, xp_attempts = 0\<rparr>], eb_index = [(''ab'', 1000)]\<rparr>"
proof -
  have "dur_millis (seconds 1) = 1000" "unix_milli (seconds 1) = 1000" by code_simp+
  then show ?thesis
    by (simp add: demo_abandoned_def demo_enrollment_def create_enrollment_def create_passkey_script_def
        EnrollmentPasskey_def queue_add_def cd_tick_def)
qed

theorem passkey_cleanup_stays_queued_witness:
  "\<lparr>xp_token_hash = ''ab'', xp_user_id = ''u'', xp_target = ''key'', xp_created_at = 0, xp_attempts = 0\<rparr>
     \<in> set (handed_out 1 (seconds 2) 10 demo_abandoned)"
proof -
  have "eb_cleanup demo_enrollment = Map.empty" by (simp add: demo_enrollment_def)
  moreover have "eb_cleanup demo_abandoned ''ab'' = Some (Readable \<lparr>xp_token_hash = ''ab'',
     xp_user_id = ''u'', xp_target = ''key'', xp_created_at = 0, xp_attempts = 0\<rparr>)"
    "live_data demo_abandoned ''ab'' = None" "live_claim demo_abandoned ''ab'' = None"
    by (simp_all add: demo_abandoned_value live_data_def live_claim_def unexpired_def)
  ultimately obtain due where "(''ab'', due) \<in> set (eb_index demo_abandoned)" and
    out: "due \<le> unix_milli (seconds 2) \<Longrightarrow>
      int (length (filter (busy demo_abandoned) (ahead (unix_milli (seconds 2)) ''ab'' demo_abandoned))) < 10 * batch 10 \<Longrightarrow>
      \<lparr>xp_token_hash = ''ab'', xp_user_id = ''u'', xp_target = ''key'', xp_created_at = 0, xp_attempts = 0\<rparr>
        \<in> set (handed_out (Suc (length (ahead (unix_milli (seconds 2)) ''ab'' demo_abandoned))) (seconds 2) 10 demo_abandoned)"
    using passkey_cleanup_stays_queued [OF demo_abandoned_reached, of "''ab''"] by fastforce
  moreover have "unix_milli (seconds 2) = 2000" by code_simp
  moreover from this have "ahead (unix_milli (seconds 2)) ''ab'' demo_abandoned = []"
    by (simp add: ahead_def dues_def demo_abandoned_value)
  moreover have "due = 1000" using \<open>(''ab'', due) \<in> set (eb_index demo_abandoned)\<close> by (simp add: demo_abandoned_value)
  ultimately show ?thesis by (simp add: batch_def del: handed_out.simps)
qed

section \<open>Leases\<close>

lemma lease_loop_scores:
  "\<forall>k\<in>fst ` set acc. \<forall>s. (k, s) \<in> set (eb_index db) \<longrightarrow> s = l \<Longrightarrow>
     \<forall>k\<in>fst ` set (fst (lease_loop l n hs acc db)). \<forall>s. (k, s) \<in> set (eb_index (snd (lease_loop l n hs acc db))) \<longrightarrow> s = l"
proof (induction l n hs acc db rule: lease_loop.induct)
  case (2 l n h hs acc db)
  show ?case
  proof (cases "int (length acc) < n \<and> (\<exists>p. eb_cleanup db h = Some p \<and> live_data db h = None \<and> live_claim db h = None)")
    case True
    then obtain p where p: "int (length acc) < n" "eb_cleanup db h = Some p" "live_data db h = None" "live_claim db h = None" by blast
    have "\<forall>k\<in>fst ` set (acc @ [(h, p)]). \<forall>s. (k, s) \<in> set (eb_index (db\<lparr>eb_index := queue_add h l (eb_index db)\<rparr>)) \<longrightarrow> s = l"
      using 2(4) by auto
    with p 2(2) show ?thesis by simp
  next
    case False
    with 2 show ?thesis by (auto split: option.split)
  qed
qed simp

lemma lease_loop_members: "k \<in> fst ` set (fst (lease_loop l n hs acc db)) \<Longrightarrow> k \<in> fst ` set acc \<or> k \<in> set hs"
  by (induction l n hs acc db rule: lease_loop.induct) (auto split: option.splits if_splits)

lemma lease_loop_index:
  "(k, s) \<in> set (eb_index (snd (lease_loop l n hs acc db))) \<Longrightarrow> k \<notin> set hs \<Longrightarrow> (k, s) \<in> set (eb_index db)"
  by (induction l n hs acc db rule: lease_loop.induct) (auto split: option.splits if_splits)

text \<open>What puts an item back into the queue, or leases it once the lease is over.\<close>

definition returns_item :: "enrollment_op \<Rightarrow> token_hash \<Rightarrow> int \<Rightarrow> bool" where
  "returns_item op h lease_ms = (case op of
     EnCreate now h' d ttl \<Rightarrow> h' = h
   | EnAbandon now h' cid \<Rightarrow> h' = h
   | EnRequeue now e delay \<Rightarrow> xp_token_hash e = h
   | EnLease now limit \<Rightarrow> lease_ms \<le> unix_milli now
   | _ \<Rightarrow> False)"

definition leased_until :: "token_hash \<Rightarrow> int \<Rightarrow> enrollment_db \<Rightarrow> bool" where
  "leased_until h l db \<longleftrightarrow> (\<forall>s. (h, s) \<in> set (eb_index db) \<longrightarrow> l \<le> s)"

lemma not_due:
  assumes "leased_until h l db" "now_ms < l"
  shows "h \<notin> set (map fst (take n (filter (\<lambda>x. snd x \<le> now_ms) (eb_index db))))"
  using assms by (fastforce simp: leased_until_def dest!: in_set_takeD)

lemma enrollment_leased:
  assumes "leased_until h l db" "\<not> returns_item op h l"
  shows "leased_until h l (enrollment_effect op db)"
proof (cases op)
  case (EnLease now limit)
  then have "unix_milli now < l" using assms(2) by (simp add: returns_item_def)
  note nd = not_due [OF assms(1) this]
  have "leased_until h l (snd (lease_loop k n (map fst (take m (filter (\<lambda>x. snd x \<le> unix_milli now) (eb_index db)))) [] db))" for k n m
    using assms(1) lease_loop_index nd [of m] unfolding leased_until_def by blast
  with EnLease show ?thesis by (simp add: snd_lease_script Let_def)
qed (use assms in \<open>auto simp: leased_until_def returns_item_def create_passkey_script_def consume_enrollment_script_def
      abandon_enrollment_script_def requeue_script_def split: if_splits\<close>)

lemma leased_by:
  assumes "claim_expired_passkey_enrollments now limit c = (Inr es, c1)" "e \<in> set es"
  shows "leased_until (xp_token_hash e) (unix_milli (now + enrollmentCleanupLeaseTTL)) (fst c1)"
proof -
  let ?l = "unix_milli (now + enrollmentCleanupLeaseTTL)" and ?n = "if limit \<le> 0 then 100 else limit"
  from assms obtain xs where
    "io_call ErrChallengeInfra (lease_script (unix_milli now) ?l ?n (?n * 10)) c = (Inr xs, c1)" and es: "es = decode_leases xs"
    by (auto simp: claim_expired_passkey_enrollments_def Let_def split: prod.splits sum.splits)
  then have run: "lease_script (unix_milli now) ?l ?n (?n * 10) (fst c) = (Inr xs, fst c1)" using io_call_ok by fastforce
  let ?hs = "map fst (take (nat (?n * 10)) (filter (\<lambda>x. snd x \<le> unix_milli now) (eb_index (fst c))))"
  from run have "lease_loop ?l ?n ?hs [] (fst c) = (xs, fst c1)"
    unfolding lease_script_eq by (simp only: split: prod.splits) blast
  with lease_loop_scores [of "[]" "fst c" ?l ?n ?hs]
  have "\<forall>k\<in>fst ` set xs. \<forall>s. (k, s) \<in> set (eb_index (fst c1)) \<longrightarrow> s = ?l" by simp
  moreover from assms(2) es have "xp_token_hash e \<in> fst ` set xs" by (force simp: decode_leases_set image_iff)
  ultimately show ?thesis by (auto simp: leased_until_def)
qed

text \<open>
  Two workers never settle the same abandoned registration at once: an item that was handed
  out is not handed out again to a worker whose clock is within the forty-five seconds of the
  lease, whatever calls, faults and delays came in between, unless it was put back by a requeue,
  an abandonment or a new registration under its hash.
\<close>

theorem enrollment_cleanup_leased_once:
  assumes "claim_expired_passkey_enrollments now limit c = (Inr es, c1)" and "e \<in> set es"
    and "store_reaches enrollment_run cd_tick P (fst c1) db2"
    and "\<And>op. P op \<Longrightarrow> \<not> returns_item op (xp_token_hash e) (unix_milli (now + enrollmentCleanupLeaseTTL))"
    and "unix_milli now2 < unix_milli (now + enrollmentCleanupLeaseTTL)"
    and "fst (claim_expired_passkey_enrollments now2 limit2 (db2, fs)) = Inr es2"
  shows "xp_token_hash e \<notin> xp_token_hash ` set es2"
proof
  let ?l = "unix_milli (now + enrollmentCleanupLeaseTTL)" and ?n = "if limit2 \<le> 0 then 100 else limit2"
  assume in2: "xp_token_hash e \<in> xp_token_hash ` set es2"
  have "leased_until (xp_token_hash e) ?l db2"
    using leased_by [OF assms(1,2)] assms(4)
    by (elim enroll.reaches_keeps [OF assms(3)]) (auto intro!: enrollment_leased, simp add: leased_until_def)
  from not_due [OF this assms(5), of "nat (?n * 10)"] assms(6) in2 show False
  proof -
    assume nd: "xp_token_hash e \<notin> set (map fst (take (nat (?n * 10)) (filter (\<lambda>x. snd x \<le> unix_milli now2) (eb_index db2))))"
    from assms(6) obtain xs where xs: "fst (io_call ErrChallengeInfra (lease_script (unix_milli now2)
          (unix_milli (now2 + enrollmentCleanupLeaseTTL)) ?n (?n * 10)) (db2, fs)) = Inr xs" "es2 = decode_leases xs"
      by (auto simp: claim_expired_passkey_enrollments_def Let_def split: prod.splits sum.splits)
    with fst_io_call have "fst (lease_script (unix_milli now2) (unix_milli (now2 + enrollmentCleanupLeaseTTL)) ?n (?n * 10) db2) = Inr xs"
      by (metis fst_conv sum.distinct(1))
    then have "xs = fst (lease_loop (unix_milli (now2 + enrollmentCleanupLeaseTTL)) ?n
        (map fst (take (nat (?n * 10)) (filter (\<lambda>x. snd x \<le> unix_milli now2) (eb_index db2)))) [] db2)"
      unfolding lease_script_eq prod.case_eq_if by (simp only: fst_conv sum.inject)
    moreover from in2 xs(2) have "xp_token_hash e \<in> fst ` set xs" by (force simp: decode_leases_set image_iff)
    ultimately show False using lease_loop_members nd by fastforce
  qed
qed

theorem enrollment_cleanup_leased_once_witness:
  "''ab'' \<notin> xp_token_hash ` set (projr (fst (claim_expired_passkey_enrollments (seconds 4) 10
     (fst (snd (claim_expired_passkey_enrollments (seconds 3) 10 (demo_abandoned, []))), []))))"
proof -
  let ?e = "\<lparr>xp_token_hash = ''ab'', xp_user_id = ''u'', xp_target = ''key'', xp_created_at = 0, xp_attempts = 0\<rparr>"
  have ms: "unix_milli (seconds 3) = 3000" "unix_milli (seconds 4) = 4000"
    "unix_milli (seconds 3 + enrollmentCleanupLeaseTTL) = 48000" by code_simp+
  let ?r = "claim_expired_passkey_enrollments (seconds 3) 10 (demo_abandoned, [])"
  have "fst ?r = Inr [?e]"
    by (simp add: claim_expired_passkey_enrollments_def lease_script_def demo_abandoned_value ms live_data_def live_claim_def
        unexpired_def)
  then have r: "?r = (Inr [?e], snd ?r)" by (simp add: prod_eq_iff)
  have r2: "\<exists>es. fst (claim_expired_passkey_enrollments (seconds 4) 10 (fst (snd ?r), [])) = Inr es"
    by (simp add: claim_expired_passkey_enrollments_def split: prod.split) (simp add: lease_script_def split: prod.split)
  then obtain es2 where es2: "fst (claim_expired_passkey_enrollments (seconds 4) 10 (fst (snd ?r), [])) = Inr es2" ..
  from enrollment_cleanup_leased_once [where P = "\<lambda>op. False" and e = ?e, OF r _ store_reaches.here _ _ es2]
  have "''ab'' \<notin> xp_token_hash ` set es2" by (simp add: ms)
  with es2 show ?thesis by simp
qed

end
