(* ===== verification/RateLimiter.thy ===== *)
theory RateLimiter
  imports ScriptStores SessionStore
begin

text \<open>
  The rate limiter of \<open>internal/adapters/redis/rate_limiter.go\<close> and the limiter of administrator
  challenges (\<open>admin_challenge_rate_limiter.go\<close>): fixed-window counters in Redis, moved only by
  Lua scripts, and the methods that choose the buckets of a request.
\<close>

section \<open>The state\<close>

text \<open>
  A string that is a decimal 64-bit integer is a \<open>Counter\<close>, any other string is \<open>Text\<close>; the
  marker of a registration chain is a hash of three fields.
\<close>

record chain_marker =
  cm_binding :: "string option"
  cm_uses :: "string option"
  cm_refunded :: "string option"

datatype rl_value = Counter int | Text string | Marker chain_marker

record rl_db =
  rl_ms :: int
  rl_keys :: "string \<rightharpoonup> rl_value \<times> int option"

type_synonym rl_conn = "rl_db conn"

datatype rl_error =
  RlInfra \<comment> \<open>a Redis failure, or a command on a value of the wrong type\<close>
  | RlInvalidRate | RlInvalidTTL \<comment> \<open>the error replies of the scripts\<close>
  | RlRefused string \<comment> \<open>an error of the limiter itself\<close>

section \<open>Redis commands\<close>

definition live_key :: "rl_db \<Rightarrow> string \<Rightarrow> (rl_value \<times> int option) option" where
  "live_key db k = (case rl_keys db k of None \<Rightarrow> None
     | Some (v, w) \<Rightarrow> if unexpired (rl_ms db) w then Some (v, w) else None)"

definition pttl :: "rl_db \<Rightarrow> string \<Rightarrow> int" where
  "pttl db k = (case live_key db k of None \<Rightarrow> - 2 | Some (v, None) \<Rightarrow> - 1 | Some (v, Some t) \<Rightarrow> t - rl_ms db)"

definition put_key :: "string \<Rightarrow> rl_value \<times> int option \<Rightarrow> rl_db \<Rightarrow> rl_db" where
  "put_key k x db = db\<lparr>rl_keys := (rl_keys db)(k \<mapsto> x)\<rparr>"

definition drop_key :: "string \<Rightarrow> rl_db \<Rightarrow> rl_db" where
  "drop_key k db = db\<lparr>rl_keys := (rl_keys db)(k := None)\<rparr>"

definition max_int64 :: int where "max_int64 = 9223372036854775807"

definition incr :: "string \<Rightarrow> rl_db \<Rightarrow> (rl_error + int) \<times> rl_db" where
  "incr k db =
     (case live_key db k of
        None \<Rightarrow> (Inr 1, put_key k (Counter 1, None) db)
      | Some (Counter n, w) \<Rightarrow>
          if n = max_int64 then (Inl RlInfra, db) else (Inr (n + 1), put_key k (Counter (n + 1), w) db)
      | Some _ \<Rightarrow> (Inl RlInfra, db))"

definition pexpire :: "string \<Rightarrow> int \<Rightarrow> rl_db \<Rightarrow> rl_db" where
  "pexpire k ms db =
     (case live_key db k of
        None \<Rightarrow> db
      | Some (v, w) \<Rightarrow> if ms \<le> 0 then drop_key k db else put_key k (v, Some (rl_ms db + ms)) db)"

text \<open>\<open>INCR\<close>, and \<open>PEXPIRE\<close> when the counter is new: the step all scripts charge a bucket with.\<close>

definition charge :: "string \<Rightarrow> int \<Rightarrow> rl_db \<Rightarrow> (rl_error + int) \<times> rl_db" where
  "charge k window db =
     (case incr k db of
        (Inl e, db') \<Rightarrow> (Inl e, db')
      | (Inr n, db') \<Rightarrow> (Inr n, if n = 1 then pexpire k window db' else db'))"

section \<open>The scripts\<close>

text \<open>A bucket is its key, its limit and its window in milliseconds.\<close>

type_synonym script_buckets = "(string \<times> int \<times> int) list"

definition rate_limit_script :: "string \<Rightarrow> int \<Rightarrow> int \<Rightarrow> rl_db \<Rightarrow> (rl_error + int \<times> int) \<times> rl_db" where
  "rate_limit_script k limit window db =
     (case charge k window db of
        (Inl e, db') \<Rightarrow> (Inl e, db')
      | (Inr n, db') \<Rightarrow>
          let ttl = (if pttl db' k < 0 then window else pttl db' k)
          in (Inr (if limit < n then 0 else 1, ttl), db'))"

text \<open>
  The first loop of the scripts over several buckets: a counter must match \<open>^[1-9][0-9]*$\<close>
  within 64 bits and have a deadline.
\<close>

fun scan_buckets :: "rl_db \<Rightarrow> script_buckets \<Rightarrow> bool \<Rightarrow> int \<Rightarrow> rl_error + bool \<times> int" where
  "scan_buckets db [] allowed retry = Inr (allowed, retry)"
| "scan_buckets db ((k, limit, window) # bs) allowed retry =
     (case live_key db k of
        None \<Rightarrow> scan_buckets db bs allowed retry
      | Some (Counter n, w) \<Rightarrow>
          if n < 1 then Inl RlInvalidRate
          else if pttl db k < 0 then Inl RlInvalidTTL
          else if limit \<le> n then scan_buckets db bs False (max retry (pttl db k))
          else scan_buckets db bs allowed retry
      | Some (Text s, w) \<Rightarrow> Inl RlInvalidRate
      | Some (Marker m, w) \<Rightarrow> Inl RlInfra)"

text \<open>The second loop; an error ends the script, what it did before stays.\<close>

fun charge_buckets :: "script_buckets \<Rightarrow> rl_db \<Rightarrow> (rl_error + unit) \<times> rl_db" where
  "charge_buckets [] db = (Inr (), db)"
| "charge_buckets ((k, limit, window) # bs) db =
     (case charge k window db of
        (Inl e, db') \<Rightarrow> (Inl e, db')
      | (Inr n, db') \<Rightarrow> charge_buckets bs db')"

definition multi_script :: "script_buckets \<Rightarrow> rl_db \<Rightarrow> (rl_error + int \<times> int) \<times> rl_db" where
  "multi_script bs db =
     (case scan_buckets db bs True 0 of
        Inl e \<Rightarrow> (Inl e, db)
      | Inr (allowed, retry) \<Rightarrow>
          if \<not> allowed then (Inr (0, retry), db)
          else (case charge_buckets bs db of
                  (Inl e, db') \<Rightarrow> (Inl e, db')
                | (Inr _, db') \<Rightarrow> (Inr (1, 0), db')))"

definition no_marker :: chain_marker where
  "no_marker = \<lparr>cm_binding = None, cm_uses = None, cm_refunded = None\<rparr>"

text \<open>\<open>HMGET\<close>, \<open>HGET\<close> and \<open>HSET\<close> reach the fields of the hash; a key that is not there is an empty one.\<close>

definition marker_at :: "rl_db \<Rightarrow> string \<Rightarrow> rl_error + chain_marker" where
  "marker_at db k = (case live_key db k of
     None \<Rightarrow> Inr no_marker | Some (Marker m, w) \<Rightarrow> Inr m | Some _ \<Rightarrow> Inl RlInfra)"

definition set_marker :: "string \<Rightarrow> (chain_marker \<Rightarrow> chain_marker) \<Rightarrow> rl_db \<Rightarrow> rl_db" where
  "set_marker k f db = (case live_key db k of
     Some (Marker m, w) \<Rightarrow> put_key k (Marker (f m), w) db
   | _ \<Rightarrow> put_key k (Marker (f no_marker), None) db)"

definition create_chain_script ::
  "string \<Rightarrow> string \<Rightarrow> int \<Rightarrow> script_buckets \<Rightarrow> rl_db \<Rightarrow> (rl_error + int \<times> int) \<times> rl_db" where
  "create_chain_script mk binding marker_ttl bs db =
     (case marker_at db mk of
        Inl e \<Rightarrow> (Inl e, db)
      | Inr m \<Rightarrow>
          let ttl = (if pttl db mk < 0 then marker_ttl else pttl db mk)
          in (case cm_binding m of
                Some b \<Rightarrow>
                  if b \<noteq> binding then (Inr (- 1, ttl), db)
                  else if cm_uses m \<noteq> Some ''1'' \<and> cm_uses m \<noteq> Some ''2'' then (Inr (- 3, ttl), db)
                  else if cm_uses m \<noteq> Some ''1'' then (Inr (- 2, ttl), db)
                  else (Inr (2, 0), set_marker mk (cm_uses_update (\<lambda>_. Some ''2'')) db)
              | None \<Rightarrow>
                  (case scan_buckets db bs True 0 of
                     Inl e \<Rightarrow> (Inl e, db)
                   | Inr (allowed, retry) \<Rightarrow>
                       if \<not> allowed then (Inr (0, retry), db)
                       else (case charge_buckets bs db of
                               (Inl e, db') \<Rightarrow> (Inl e, db')
                             | (Inr _, db') \<Rightarrow>
                                 (Inr (1, 0), pexpire mk marker_ttl (set_marker mk
                                    (\<lambda>m. m\<lparr>cm_binding := Some binding, cm_uses := Some ''1''\<rparr>) db'))))))"

fun refundable :: "rl_db \<Rightarrow> string list \<Rightarrow> rl_error + int list" where
  "refundable db [] = Inr []"
| "refundable db (k # ks) =
     (case (case live_key db k of
              None \<Rightarrow> Inr 0
            | Some (Counter n, w) \<Rightarrow>
                if n < 1 then Inl RlInvalidRate else if pttl db k < 0 then Inl RlInvalidTTL else Inr n
            | Some (Text s, w) \<Rightarrow> Inl RlInvalidRate
            | Some (Marker m, w) \<Rightarrow> Inl RlInfra) of
        Inl e \<Rightarrow> Inl e
      | Inr n \<Rightarrow> map_sum id ((#) n) (refundable db ks))"

definition decr :: "string \<Rightarrow> rl_db \<Rightarrow> (rl_error + unit) \<times> rl_db" where
  "decr k db =
     (case live_key db k of
        None \<Rightarrow> (Inr (), put_key k (Counter (- 1), None) db)
      | Some (Counter n, w) \<Rightarrow>
          if n = - max_int64 - 1 then (Inl RlInfra, db) else (Inr (), put_key k (Counter (n - 1), w) db)
      | Some _ \<Rightarrow> (Inl RlInfra, db))"

fun refund_counts :: "string list \<Rightarrow> int list \<Rightarrow> int \<Rightarrow> rl_db \<Rightarrow> (rl_error + int) \<times> rl_db" where
  "refund_counts (k # ks) (n # ns) changed db =
     (if n = 0 then refund_counts ks ns changed db
      else if n = 1 then refund_counts ks ns 1 (drop_key k db)
      else (case decr k db of
              (Inl e, db') \<Rightarrow> (Inl e, db')
            | (Inr _, db') \<Rightarrow> refund_counts ks ns 1 db'))"
| "refund_counts ks ns changed db = (Inr changed, db)"

definition refund_script :: "string \<Rightarrow> string \<Rightarrow> string list \<Rightarrow> rl_db \<Rightarrow> (rl_error + int) \<times> rl_db" where
  "refund_script mk binding ks db =
     (case marker_at db mk of
        Inl e \<Rightarrow> (Inl e, db)
      | Inr m \<Rightarrow>
          if cm_binding m \<noteq> Some binding then (Inr 0, db)
          else if cm_refunded m = Some ''1'' then (Inr 0, db)
          else (case refundable db ks of
                  Inl e \<Rightarrow> (Inl e, db)
                | Inr ns \<Rightarrow> refund_counts ks ns 0 (set_marker mk (cm_refunded_update (\<lambda>_. Some ''1'')) db)))"

definition claim_proofs_script ::
  "string \<Rightarrow> string \<Rightarrow> string \<Rightarrow> int \<Rightarrow> int \<Rightarrow> rl_db \<Rightarrow> (rl_error + int \<times> int) \<times> rl_db" where
  "claim_proofs_script ip_key login_key phone_key limit window db =
     (case charge ip_key window db of
        (Inl e, db') \<Rightarrow> (Inl e, db')
      | (Inr n, db') \<Rightarrow>
          let ip_ttl = (if pttl db' ip_key < 0 then window else pttl db' ip_key)
          in if limit < n then (Inr (0, ip_ttl), db')
             else if live_key db' login_key \<noteq> None \<or> live_key db' phone_key \<noteq> None
             then let ttl = max (pttl db' login_key) (pttl db' phone_key)
                  in (Inr (0, if ttl < 0 then window else ttl), db')
             else if window \<le> 0 then (Inl RlInfra, db')
             else (Inr (1, 0), put_key phone_key (Counter 1, Some (rl_ms db' + window))
                                (put_key login_key (Counter 1, Some (rl_ms db' + window)) db')))"

definition admin_challenge_script ::
  "string \<Rightarrow> string \<Rightarrow> int \<Rightarrow> int \<Rightarrow> rl_db \<Rightarrow> (rl_error + int \<times> int) \<times> rl_db" where
  "admin_challenge_script user_key client_key limit window db =
     (case charge user_key window db of
        (Inl e, db') \<Rightarrow> (Inl e, db')
      | (Inr user_count, db') \<Rightarrow>
          (case charge client_key window db' of
             (Inl e, db'') \<Rightarrow> (Inl e, db'')
           | (Inr client_count, db'') \<Rightarrow>
               let user_ttl = (if pttl db'' user_key < 0 then window else pttl db'' user_key);
                   client_ttl = (if pttl db'' client_key < 0 then window else pttl db'' client_key)
               in if limit < user_count \<or> limit < client_count then (Inr (0, max user_ttl client_ttl), db'')
                  else (Inr (1, 0), db'')))"

end
