(* ===== verification/RateChecks.thy ===== *)
theory RateChecks
  imports RateLimiter
begin

text \<open>
  The methods of the rate limiter: the buckets of each kind of request, and what a reply of a
  script means to the caller.  \<open>p\<close> is the key prefix of the client and \<open>digest\<close> the hexadecimal
  SHA-256 digest of a string.  A check answers whether the request may go on, after which
  delay to retry, and the error, if any.
\<close>

section \<open>Policies\<close>

record limit =
  lm_max :: int
  lm_window :: duration

record aggregate_rate_policy =
  ag_burst :: limit
  ag_sustained :: limit

record create_rate_policy =
  cp_client_ip :: limit
  cp_client_net :: limit
  cp_email :: limit
  cp_mailbox_family :: limit
  cp_client_email :: limit
  cp_global :: aggregate_rate_policy
  cp_unfamiliar_domain :: aggregate_rate_policy
  cp_unfamiliar_mx :: aggregate_rate_policy

record create_rate_subject =
  cs_client_ip :: string
  cs_client_network :: string
  cs_email_hash :: string
  cs_mailbox_family_hash :: string
  cs_domain_hash :: string
  cs_mx_hashes :: "string list"
  cs_form_intent_hash :: string

datatype create_chain_rate_outcome =
  CreateChainRateUnknown | CreateChainRateFirstAllowed | CreateChainRateReplayAllowed
  | CreateChainRateLimited | CreateChainRateBindingMismatch | CreateChainRateReplayExhausted

definition outcome_allowed :: "create_chain_rate_outcome \<Rightarrow> bool" where
  "outcome_allowed o1 \<longleftrightarrow> o1 = CreateChainRateFirstAllowed \<or> o1 = CreateChainRateReplayAllowed"

definition MaxCreateRateMXCohorts :: nat where "MaxCreateRateMXCohorts = 16"

definition lower_hex_char :: "char \<Rightarrow> bool" where
  "lower_hex_char c \<longleftrightarrow> (CHR ''0'' \<le> c \<and> c \<le> CHR ''9'') \<or> (CHR ''a'' \<le> c \<and> c \<le> CHR ''f'')"

definition is_lower_sha256_hex :: "string \<Rightarrow> bool" where
  "is_lower_sha256_hex v \<longleftrightarrow> length v = 64 \<and> list_all lower_hex_char v"

section \<open>The shared checks\<close>

type_synonym verdict = "bool \<times> duration \<times> rl_error option"

type_synonym rate_bucket = "string \<times> limit"

definition bucket_args :: "rate_bucket list \<Rightarrow> script_buckets" where
  "bucket_args bs = map (\<lambda>(k, l). (k, lm_max l, dur_millis (lm_window l))) bs"

definition millis :: "int \<Rightarrow> duration" where "millis n = n * ns_per_ms"

definition check :: "string \<Rightarrow> int \<Rightarrow> duration \<Rightarrow> rl_conn \<Rightarrow> verdict \<times> rl_conn" where
  "check k limit window c =
     (case io_call RlInfra (rate_limit_script k limit (dur_millis window)) c of
        (Inl e, c1) \<Rightarrow> ((False, window, Some e), c1)
      | (Inr (allowed, ttl), c1) \<Rightarrow>
          ((allowed = 1, if allowed = 1 then 0 else if millis ttl < 0 then window else millis ttl, None), c1))"

text \<open>The validation loop; the left value is the largest window met before an invalid bucket.\<close>

fun validate_buckets :: "rate_bucket list \<Rightarrow> duration \<Rightarrow> duration + duration" where
  "validate_buckets [] fallback = Inr fallback"
| "validate_buckets ((k, l) # bs) fallback =
     (if k = [] \<or> lm_max l \<le> 0 \<or> lm_window l \<le> 0 then Inl fallback
      else validate_buckets bs (max fallback (lm_window l)))"

definition check_buckets :: "rate_bucket list \<Rightarrow> rl_conn \<Rightarrow> verdict \<times> rl_conn" where
  "check_buckets bs c =
     (if bs = [] then ((False, 0, Some (RlRefused ''registration rate limiter unavailable'')), c)
      else case validate_buckets bs 0 of
        Inl fallback \<Rightarrow> ((False, fallback, Some (RlRefused ''invalid registration rate bucket'')), c)
      | Inr fallback \<Rightarrow>
          (case io_call RlInfra (multi_script (bucket_args bs)) c of
             (Inl e, c1) \<Rightarrow> ((False, fallback, Some e), c1)
           | (Inr (allowed, retry), c1) \<Rightarrow>
               if allowed = 1 then ((True, 0, None), c1)
               else ((False, if millis retry \<le> 0 then fallback else millis retry, None), c1)))"

section \<open>Login, reset and verification checks\<close>

definition login_buckets :: "string \<Rightarrow> string \<Rightarrow> string \<Rightarrow> limit \<Rightarrow> rate_bucket list" where
  "login_buckets p ip h l =
     [(build_key p [''rl:login:'', ''ip:'', ip], l), (build_key p [''rl:login:'', ''account:'', h], l),
      (build_key p [''rl:login:'', ''pair:'', ip, '':'', h], l)]"

definition check_login :: "string \<Rightarrow> string \<Rightarrow> string \<Rightarrow> int \<Rightarrow> duration \<Rightarrow> rl_conn \<Rightarrow> verdict \<times> rl_conn" where
  "check_login p ip h limit window = check_buckets (login_buckets p ip h \<lparr>lm_max = limit, lm_window = window\<rparr>)"

definition check_mfa :: "string \<Rightarrow> string \<Rightarrow> string \<Rightarrow> int \<Rightarrow> duration \<Rightarrow> rl_conn \<Rightarrow> verdict \<times> rl_conn" where
  "check_mfa p ip h = check (build_key p [''rl:mfa:'', ip, '':'', h])"

definition check_reauth :: "string \<Rightarrow> string \<Rightarrow> string \<Rightarrow> int \<Rightarrow> duration \<Rightarrow> rl_conn \<Rightarrow> verdict \<times> rl_conn" where
  "check_reauth p ip h = check (build_key p [''rl:reauth:'', ip, '':'', h])"

definition check_rotation :: "string \<Rightarrow> string \<Rightarrow> string \<Rightarrow> int \<Rightarrow> duration \<Rightarrow> rl_conn \<Rightarrow> verdict \<times> rl_conn" where
  "check_rotation p ip h = check (build_key p [''rl:rotate:'', ip, '':'', h])"

definition check_password_reset ::
  "string \<Rightarrow> string \<Rightarrow> string \<Rightarrow> int \<Rightarrow> int \<Rightarrow> duration \<Rightarrow> rl_conn \<Rightarrow> verdict \<times> rl_conn" where
  "check_password_reset p ip h ip_limit account_limit window =
     check_buckets ((build_key p [''rl:password-reset:'', ''ip:'', ip], \<lparr>lm_max = ip_limit, lm_window = window\<rparr>)
       # (if h = [] then []
          else [(build_key p [''rl:password-reset:'', ''account:'', h], \<lparr>lm_max = account_limit, lm_window = window\<rparr>)]))"

definition registration_lifecycle_buckets :: "string \<Rightarrow> string \<Rightarrow> string \<Rightarrow> string \<Rightarrow> limit \<Rightarrow> rate_bucket list" where
  "registration_lifecycle_buckets p segment ip h l =
     [(build_key p [segment, ''target:'', h], l), (build_key p [segment, ''ip:'', ip], l),
      (build_key p [segment, ''pair:'', ip, '':'', h], l)]"

definition check_registration_lifecycle_buckets ::
  "string \<Rightarrow> string \<Rightarrow> string \<Rightarrow> string \<Rightarrow> limit \<Rightarrow> rl_conn \<Rightarrow> verdict \<times> rl_conn" where
  "check_registration_lifecycle_buckets p segment ip h l c =
     (if (segment \<noteq> ''rl:registration:verify:'' \<and> segment \<noteq> ''rl:registration:resend:'') \<or> ip = [] \<or> \<not> is_lower_sha256_hex h
      then ((False, lm_window l, Some (RlRefused ''invalid registration lifecycle rate scope'')), c)
      else check_buckets (registration_lifecycle_buckets p segment ip h l) c)"

definition check_registration_verify :: "string \<Rightarrow> string \<Rightarrow> string \<Rightarrow> limit \<Rightarrow> rl_conn \<Rightarrow> verdict \<times> rl_conn" where
  "check_registration_verify p = check_registration_lifecycle_buckets p ''rl:registration:verify:''"

definition check_registration_resend :: "string \<Rightarrow> string \<Rightarrow> string \<Rightarrow> limit \<Rightarrow> rl_conn \<Rightarrow> verdict \<times> rl_conn" where
  "check_registration_resend p = check_registration_lifecycle_buckets p ''rl:registration:resend:''"

definition append_aggregate_buckets ::
  "rate_bucket list \<Rightarrow> string list \<Rightarrow> aggregate_rate_policy \<Rightarrow> unit + rate_bucket list" where
  "append_aggregate_buckets existing keys policy =
     (if lm_max (ag_burst policy) = 0 \<and> lm_window (ag_burst policy) = 0 \<and> lm_max (ag_sustained policy) = 0
         \<and> lm_window (ag_sustained policy) = 0 then Inr existing
      else if lm_max (ag_burst policy) \<le> 0 \<or> lm_window (ag_burst policy) \<le> 0 \<or> lm_max (ag_sustained policy) \<le> 0
         \<or> lm_window (ag_sustained policy) \<le> 0 then Inl ()
      else (case keys of
              [a, b] \<Rightarrow> Inr (existing @ [(a, ag_burst policy), (b, ag_sustained policy)])
            | _ \<Rightarrow> Inl ()))"

definition check_registration_verify_with_global ::
  "string \<Rightarrow> string \<Rightarrow> string \<Rightarrow> limit \<Rightarrow> aggregate_rate_policy \<Rightarrow> rl_conn \<Rightarrow> verdict \<times> rl_conn" where
  "check_registration_verify_with_global p ip h l global c =
     (if ip = [] \<or> \<not> is_lower_sha256_hex h
      then ((False, lm_window l, Some (RlRefused ''invalid registration verification rate scope'')), c)
      else case append_aggregate_buckets (registration_lifecycle_buckets p ''rl:registration:verify:'' ip h l)
             [build_key p [''rl:registration:verify:global:v1:'', ''burst''],
              build_key p [''rl:registration:verify:global:v1:'', ''sustained'']] global of
        Inl _ \<Rightarrow> ((False, lm_window l, Some (RlRefused ''invalid registration verification global policy'')), c)
      | Inr bs \<Rightarrow> check_buckets bs c)"

section \<open>Form intents\<close>

definition registration_form_intent_key :: "string \<Rightarrow> string \<Rightarrow> string" where
  "registration_form_intent_key p h = build_key p [''rl:registration:form-intent:'', ''net:'', h]"

definition check_registration_form_intent :: "string \<Rightarrow> string \<Rightarrow> limit \<Rightarrow> rl_conn \<Rightarrow> verdict \<times> rl_conn" where
  "check_registration_form_intent p h l c =
     (if h = [] \<or> lm_max l \<le> 0 \<or> lm_window l \<le> 0
      then ((False, lm_window l, Some (RlRefused ''registration form-intent rate limiter unavailable'')), c)
      else check (registration_form_intent_key p h) (lm_max l) (lm_window l) c)"

definition check_registration_form_intent_global ::
  "string \<Rightarrow> string \<Rightarrow> limit \<Rightarrow> aggregate_rate_policy \<Rightarrow> rl_conn \<Rightarrow> verdict \<times> rl_conn" where
  "check_registration_form_intent_global p h network global c =
     (if \<not> is_lower_sha256_hex h
      then ((False, lm_window network, Some (RlRefused ''registration form-intent global limiter unavailable'')), c)
      else case append_aggregate_buckets [(registration_form_intent_key p h, network)]
             [build_key p [''rl:registration:form-intent:global:v1:'', ''burst''],
              build_key p [''rl:registration:form-intent:global:v1:'', ''sustained'']] global of
        Inl _ \<Rightarrow> ((False, lm_window network, Some (RlRefused ''invalid registration form-intent global policy'')), c)
      | Inr bs \<Rightarrow> check_buckets bs c)"

definition check_registration_form_intent_device :: "string \<Rightarrow> string \<Rightarrow> limit \<Rightarrow> rl_conn \<Rightarrow> verdict \<times> rl_conn" where
  "check_registration_form_intent_device p h l c =
     (if \<not> is_lower_sha256_hex h
      then ((False, lm_window l, Some (RlRefused ''registration form-intent device limiter unavailable'')), c)
      else check_buckets [(build_key p [''rl:registration:form-intent:device:v1:'', h], l)] c)"

section \<open>Registration creation\<close>

definition registration_create_email_key :: "string \<Rightarrow> string \<Rightarrow> string" where
  "registration_create_email_key p h = build_key p [''rl:registration:create:email:v2:'', h]"

definition registration_create_mailbox_family_key :: "string \<Rightarrow> string \<Rightarrow> string" where
  "registration_create_mailbox_family_key p h = build_key p [''rl:registration:create:mailbox-family:v1:'', h]"

definition registration_create_chain_key :: "string \<Rightarrow> string \<Rightarrow> string" where
  "registration_create_chain_key p h = build_key p [''rl:registration:create-chain:v5:'', ''intent:'', h]"

definition registration_global_keys :: "string \<Rightarrow> string list" where
  "registration_global_keys p =
     [build_key p [''rl:registration:create:global:v1:'', ''burst''], build_key p [''rl:registration:create:global:v1:'', ''sustained'']]"

definition registration_domain_keys :: "string \<Rightarrow> string \<Rightarrow> string list" where
  "registration_domain_keys p h =
     [build_key p [''rl:registration:create:domain:v1:'', ''burst:'', h], build_key p [''rl:registration:create:domain:v1:'', ''sustained:'', h]]"

definition registration_mx_keys :: "string \<Rightarrow> string \<Rightarrow> string list" where
  "registration_mx_keys p h =
     [build_key p [''rl:registration:create:mx:v1:'', ''burst:'', h], build_key p [''rl:registration:create:mx:v1:'', ''sustained:'', h]]"

definition registration_create_buckets :: "string \<Rightarrow> string \<Rightarrow> string \<Rightarrow> string \<Rightarrow> create_rate_policy \<Rightarrow> rate_bucket list" where
  "registration_create_buckets p ip network h policy =
     [(build_key p [''rl:registration:create:'', ''ip:'', ip], cp_client_ip policy),
      (build_key p [''rl:registration:create:'', ''net:'', network], cp_client_net policy),
      (registration_create_email_key p h, cp_email policy),
      (build_key p [''rl:registration:create:'', ''pair:'', ip, '':'', h], cp_client_email policy)]"

definition check_registration_create ::
  "string \<Rightarrow> string \<Rightarrow> string \<Rightarrow> string \<Rightarrow> create_rate_policy \<Rightarrow> rl_conn \<Rightarrow> verdict \<times> rl_conn" where
  "check_registration_create p ip network h policy = check_buckets (registration_create_buckets p ip network h policy)"

definition normalize_registration_create_mx_cohorts :: "create_rate_subject \<Rightarrow> string + create_rate_subject" where
  "normalize_registration_create_mx_cohorts s =
     (if MaxCreateRateMXCohorts < length (cs_mx_hashes s) then Inl ''too many MX cohorts''
      else if \<not> list_all is_lower_sha256_hex (cs_mx_hashes s) then Inl ''invalid MX cohort hash''
      else if \<not> distinct (cs_mx_hashes s) then Inl ''duplicate MX cohort hash''
      else Inr (s\<lparr>cs_mx_hashes := sort (cs_mx_hashes s)\<rparr>))"

fun append_mx_buckets ::
  "string \<Rightarrow> aggregate_rate_policy \<Rightarrow> string list \<Rightarrow> rate_bucket list \<Rightarrow> unit + rate_bucket list" where
  "append_mx_buckets p policy [] bs = Inr bs"
| "append_mx_buckets p policy (h # hs) bs =
     (case append_aggregate_buckets bs (registration_mx_keys p h) policy of
        Inl e \<Rightarrow> Inl e
      | Inr bs' \<Rightarrow> append_mx_buckets p policy hs bs')"

definition registration_create_buckets_with_cohorts ::
  "string \<Rightarrow> create_rate_subject \<Rightarrow> create_rate_policy \<Rightarrow> string + rate_bucket list" where
  "registration_create_buckets_with_cohorts p s0 policy =
     (case normalize_registration_create_mx_cohorts s0 of
        Inl e \<Rightarrow> Inl ''invalid registration MX cohorts''
      | Inr s \<Rightarrow>
          let base = registration_create_buckets p (cs_client_ip s) (cs_client_network s) (cs_email_hash s) policy
          in if cs_mailbox_family_hash s \<noteq> []
                \<and> (lm_max (cp_mailbox_family policy) \<le> 0 \<or> lm_window (cp_mailbox_family policy) \<le> 0)
             then Inl ''invalid registration mailbox-family rate policy''
             else
               let family = (if cs_mailbox_family_hash s = [] then base
                             else base @ [(registration_create_mailbox_family_key p (cs_mailbox_family_hash s), cp_mailbox_family policy)])
               in (case append_aggregate_buckets family (registration_global_keys p) (cp_global policy) of
                     Inl _ \<Rightarrow> Inl ''invalid registration global rate policy''
                   | Inr global \<Rightarrow>
                       (case (if cs_domain_hash s = [] then Inr global
                              else append_aggregate_buckets global (registration_domain_keys p (cs_domain_hash s))
                                     (cp_unfamiliar_domain policy)) of
                          Inl _ \<Rightarrow> Inl ''invalid registration domain rate policy''
                        | Inr domain \<Rightarrow>
                            (case append_mx_buckets p (cp_unfamiliar_mx policy) (cs_mx_hashes s) domain of
                               Inl _ \<Rightarrow> Inl ''invalid registration MX rate policy''
                             | Inr bs \<Rightarrow> Inr bs))))"

fun join_nul :: "string list \<Rightarrow> string" where
  "join_nul [] = []"
| "join_nul [x] = x"
| "join_nul (x # xs) = x @ CHR 0x00 # join_nul xs"

definition chain_binding_text :: "create_rate_subject \<Rightarrow> string" where
  "chain_binding_text s =
     ''network'' @ [CHR 0x00] @ cs_client_network s @ [CHR 0x00] @ ''email'' @ [CHR 0x00] @ cs_email_hash s
     @ [CHR 0x00] @ ''mailbox-family'' @ [CHR 0x00] @ cs_mailbox_family_hash s
     @ [CHR 0x00] @ ''domain'' @ [CHR 0x00] @ cs_domain_hash s
     @ [CHR 0x00] @ ''mx'' @ [CHR 0x00] @ join_nul (sort (cs_mx_hashes s))"

definition registration_create_chain_cohort_binding :: "(string \<Rightarrow> string) \<Rightarrow> create_rate_subject \<Rightarrow> string" where
  "registration_create_chain_cohort_binding digest s = digest (chain_binding_text s)"

definition chain_subject_valid :: "create_rate_subject \<Rightarrow> bool" where
  "chain_subject_valid s \<longleftrightarrow> cs_client_network s \<noteq> [] \<and> is_lower_sha256_hex (cs_email_hash s)
     \<and> is_lower_sha256_hex (cs_form_intent_hash s)
     \<and> (cs_mailbox_family_hash s = [] \<or> is_lower_sha256_hex (cs_mailbox_family_hash s))
     \<and> (cs_domain_hash s = [] \<or> is_lower_sha256_hex (cs_domain_hash s))"

text \<open>The bucket loop also refuses windows below a millisecond.\<close>

fun validate_chain_buckets :: "rate_bucket list \<Rightarrow> duration \<Rightarrow> duration + duration" where
  "validate_chain_buckets [] fallback = Inr fallback"
| "validate_chain_buckets ((k, l) # bs) fallback =
     (if k = [] \<or> lm_max l \<le> 0 \<or> lm_window l \<le> 0 \<or> dur_millis (lm_window l) \<le> 0 then Inl fallback
      else validate_chain_buckets bs (max fallback (lm_window l)))"

definition chain_reply :: "duration \<Rightarrow> (rl_error + int \<times> int) \<times> 'c \<Rightarrow> (create_chain_rate_outcome \<times> duration \<times> rl_error option) \<times> 'c" where
  "chain_reply fallback r =
     (case r of
        (Inl e, c) \<Rightarrow> ((CreateChainRateUnknown, fallback, Some e), c)
      | (Inr (code, retry), c) \<Rightarrow>
          if code = 1 then ((CreateChainRateFirstAllowed, 0, None), c)
          else if code = 2 then ((CreateChainRateReplayAllowed, 0, None), c)
          else if code = 0 then ((CreateChainRateLimited, if millis retry \<le> 0 then fallback else millis retry, None), c)
          else if code = - 1 then ((CreateChainRateBindingMismatch, millis retry, None), c)
          else if code = - 2 then ((CreateChainRateReplayExhausted, millis retry, None), c)
          else ((CreateChainRateUnknown, fallback, Some (RlRefused ''invalid outcome'')), c))"

definition check_registration_create_chain_with_cohorts ::
  "string \<Rightarrow> (string \<Rightarrow> string) \<Rightarrow> create_rate_subject \<Rightarrow> create_rate_policy \<Rightarrow> duration \<Rightarrow> rl_conn
     \<Rightarrow> (create_chain_rate_outcome \<times> duration \<times> rl_error option) \<times> rl_conn" where
  "check_registration_create_chain_with_cohorts p digest s0 policy marker_ttl c =
     (if cs_client_ip s0 = [] \<or> \<not> chain_subject_valid s0 \<or> marker_ttl \<le> 0 \<or> dur_millis marker_ttl \<le> 0
      then ((CreateChainRateUnknown, marker_ttl, Some (RlRefused ''registration create-chain limiter unavailable'')), c)
      else case normalize_registration_create_mx_cohorts s0 of
        Inl e \<Rightarrow> ((CreateChainRateUnknown, marker_ttl, Some (RlRefused e)), c)
      | Inr s \<Rightarrow>
          (case registration_create_buckets_with_cohorts p s policy of
             Inl e \<Rightarrow> ((CreateChainRateUnknown, marker_ttl, Some (RlRefused e)), c)
           | Inr bs \<Rightarrow>
               (case validate_chain_buckets bs 0 of
                  Inl fallback \<Rightarrow> ((CreateChainRateUnknown, fallback, Some (RlRefused ''invalid registration create-chain bucket'')), c)
                | Inr fallback \<Rightarrow>
                    chain_reply fallback (io_call RlInfra
                      (create_chain_script (registration_create_chain_key p (cs_form_intent_hash s))
                         (registration_create_chain_cohort_binding digest s) (dur_millis marker_ttl) (bucket_args bs)) c))))"

definition plain_subject :: "string \<Rightarrow> string \<Rightarrow> string \<Rightarrow> string \<Rightarrow> create_rate_subject" where
  "plain_subject ip network email_hash intent =
     \<lparr>cs_client_ip = ip, cs_client_network = network, cs_email_hash = email_hash, cs_mailbox_family_hash = '''',
      cs_domain_hash = '''', cs_mx_hashes = [], cs_form_intent_hash = intent\<rparr>"

definition registration_create_chain_binding :: "(string \<Rightarrow> string) \<Rightarrow> string \<Rightarrow> string \<Rightarrow> string" where
  "registration_create_chain_binding digest network email_hash =
     registration_create_chain_cohort_binding digest (plain_subject '''' network email_hash '''')"

definition check_registration_create_chain ::
  "string \<Rightarrow> (string \<Rightarrow> string) \<Rightarrow> string \<Rightarrow> string \<Rightarrow> string \<Rightarrow> string \<Rightarrow> create_rate_policy \<Rightarrow> duration \<Rightarrow> rl_conn
     \<Rightarrow> (create_chain_rate_outcome \<times> duration \<times> rl_error option) \<times> rl_conn" where
  "check_registration_create_chain p digest ip network email_hash intent =
     check_registration_create_chain_with_cohorts p digest (plain_subject ip network email_hash intent)"

definition refund_keys :: "string \<Rightarrow> create_rate_subject \<Rightarrow> string list" where
  "refund_keys p s =
     registration_create_email_key p (cs_email_hash s)
     # (if cs_mailbox_family_hash s = [] then [] else [registration_create_mailbox_family_key p (cs_mailbox_family_hash s)])
     @ (if cs_domain_hash s = [] then [] else registration_domain_keys p (cs_domain_hash s))
     @ concat (map (registration_mx_keys p) (cs_mx_hashes s))"

definition refund_registration_create_cohorts ::
  "string \<Rightarrow> (string \<Rightarrow> string) \<Rightarrow> create_rate_subject \<Rightarrow> rl_conn \<Rightarrow> (rl_error + bool) \<times> rl_conn" where
  "refund_registration_create_cohorts p digest s0 c =
     (if \<not> chain_subject_valid s0 then (Inl (RlRefused ''invalid registration email-rate refund''), c)
      else case normalize_registration_create_mx_cohorts s0 of
        Inl e \<Rightarrow> (Inl (RlRefused e), c)
      | Inr s \<Rightarrow>
          (case io_call RlInfra (refund_script (registration_create_chain_key p (cs_form_intent_hash s))
                  (registration_create_chain_cohort_binding digest s) (refund_keys p s)) c of
             (Inl e, c1) \<Rightarrow> (Inl e, c1)
           | (Inr n, c1) \<Rightarrow>
               if n \<noteq> 0 \<and> n \<noteq> 1 then (Inl (RlRefused ''invalid registration email-rate refund result''), c1)
               else (Inr (n = 1), c1)))"

definition refund_registration_create_email ::
  "string \<Rightarrow> (string \<Rightarrow> string) \<Rightarrow> string \<Rightarrow> string \<Rightarrow> string \<Rightarrow> rl_conn \<Rightarrow> (rl_error + bool) \<times> rl_conn" where
  "refund_registration_create_email p digest network email_hash intent =
     refund_registration_create_cohorts p digest (plain_subject '''' network email_hash intent)"

section \<open>Proofs, account changes and the rest\<close>

definition wechat_registration_proof_keys :: "string \<Rightarrow> string \<Rightarrow> string \<Rightarrow> string \<Rightarrow> string \<times> string \<times> string" where
  "wechat_registration_proof_keys p ip login phone =
     (build_key p [''rl:wechat:registration-proof:'', ''ip:'', ip], build_key p [''rl:wechat:login:'', ''proof:'', login],
      build_key p [''rl:wechat:phone:'', ''proof:'', phone])"

definition claim_wechat_registration_proofs ::
  "string \<Rightarrow> string \<Rightarrow> string \<Rightarrow> string \<Rightarrow> int \<Rightarrow> duration \<Rightarrow> rl_conn \<Rightarrow> verdict \<times> rl_conn" where
  "claim_wechat_registration_proofs p ip login phone limit window c =
     (if ip = [] \<or> \<not> is_lower_sha256_hex login \<or> \<not> is_lower_sha256_hex phone \<or> limit \<le> 0 \<or> window \<le> 0
         \<or> dur_millis window \<le> 0
      then ((False, window, Some (RlRefused ''invalid WeChat registration proof input'')), c)
      else case wechat_registration_proof_keys p ip login phone of
        (ip_key, login_key, phone_key) \<Rightarrow>
          (case io_call RlInfra (claim_proofs_script ip_key login_key phone_key limit (dur_millis window)) c of
             (Inl e, c1) \<Rightarrow> ((False, window, Some e), c1)
           | (Inr (allowed, ttl), c1) \<Rightarrow>
               if allowed = 1 then ((True, 0, None), c1)
               else if ttl \<le> 0 then ((False, window, None), c1)
               else ((False, millis ttl, None), c1)))"

definition check_registration_block_revoke :: "string \<Rightarrow> string \<Rightarrow> int \<Rightarrow> duration \<Rightarrow> rl_conn \<Rightarrow> verdict \<times> rl_conn" where
  "check_registration_block_revoke p h limit window c =
     (if \<not> is_lower_sha256_hex h \<or> limit \<le> 0 \<or> window \<le> 0
      then ((False, window, Some (RlRefused ''registration unblock rate limiter unavailable'')), c)
      else check (build_key p [''rl:registration:unblock:'', ''actor:'', h]) limit window c)"

definition account_contact_change_buckets :: "string \<Rightarrow> string \<Rightarrow> string \<Rightarrow> string \<Rightarrow> int \<Rightarrow> duration \<Rightarrow> rate_bucket list" where
  "account_contact_change_buckets p segment ip h limit window =
     [(build_key p [segment, ''user:'', h], \<lparr>lm_max = limit, lm_window = window\<rparr>),
      (build_key p [segment, ''ip:'', ip], \<lparr>lm_max = limit, lm_window = window\<rparr>),
      (build_key p [segment, ''pair:'', ip, '':'', h], \<lparr>lm_max = limit, lm_window = window\<rparr>)]"

definition check_account_email_change_begin :: "string \<Rightarrow> string \<Rightarrow> string \<Rightarrow> int \<Rightarrow> duration \<Rightarrow> rl_conn \<Rightarrow> verdict \<times> rl_conn" where
  "check_account_email_change_begin p ip h limit window =
     check_buckets (account_contact_change_buckets p ''rl:account:email-change:begin:'' ip h limit window)"

definition check_account_email_change_verify :: "string \<Rightarrow> string \<Rightarrow> string \<Rightarrow> int \<Rightarrow> duration \<Rightarrow> rl_conn \<Rightarrow> verdict \<times> rl_conn" where
  "check_account_email_change_verify p ip h limit window =
     check_buckets (account_contact_change_buckets p ''rl:account:email-change:verify:'' ip h limit window)"

definition check_account_phone_change_begin :: "string \<Rightarrow> string \<Rightarrow> string \<Rightarrow> int \<Rightarrow> duration \<Rightarrow> rl_conn \<Rightarrow> verdict \<times> rl_conn" where
  "check_account_phone_change_begin p ip h limit window =
     check_buckets (account_contact_change_buckets p ''rl:account:phone-change:begin:'' ip h limit window)"

definition check_wechat_proof :: "string \<Rightarrow> string \<Rightarrow> string \<Rightarrow> string \<Rightarrow> int \<Rightarrow> duration \<Rightarrow> rl_conn \<Rightarrow> verdict \<times> rl_conn" where
  "check_wechat_proof p segment ip h limit window c =
     (if \<not> is_lower_sha256_hex h then ((False, window, Some (RlRefused ''invalid WeChat proof hash'')), c)
      else check_buckets [(build_key p [segment, ''ip:'', ip], \<lparr>lm_max = limit, lm_window = window\<rparr>),
             (build_key p [segment, ''proof:'', h], \<lparr>lm_max = 1, lm_window = window\<rparr>)] c)"

definition check_wechat_login :: "string \<Rightarrow> string \<Rightarrow> string \<Rightarrow> int \<Rightarrow> duration \<Rightarrow> rl_conn \<Rightarrow> verdict \<times> rl_conn" where
  "check_wechat_login p = check_wechat_proof p ''rl:wechat:login:''"

definition check_wechat_phone :: "string \<Rightarrow> string \<Rightarrow> string \<Rightarrow> int \<Rightarrow> duration \<Rightarrow> rl_conn \<Rightarrow> verdict \<times> rl_conn" where
  "check_wechat_phone p = check_wechat_proof p ''rl:wechat:phone:''"

definition check_qr_auth_begin :: "string \<Rightarrow> string \<Rightarrow> int \<Rightarrow> duration \<Rightarrow> rl_conn \<Rightarrow> verdict \<times> rl_conn" where
  "check_qr_auth_begin p ip = check (build_key p [''rl:qr-auth:begin:'', ip])"

definition check_dreamup_mobile_assertion ::
  "string \<Rightarrow> (string \<Rightarrow> string) \<Rightarrow> user_id \<Rightarrow> session_id \<Rightarrow> string \<Rightarrow> int \<Rightarrow> int \<Rightarrow> duration \<Rightarrow> rl_conn \<Rightarrow> verdict \<times> rl_conn" where
  "check_dreamup_mobile_assertion p digest user sid ip scoped_limit global_limit window c =
     (if user = [] \<or> sid = [] \<or> ip = []
      then ((False, window, Some (RlRefused ''DreamUP Mobile assertion rate limiter unavailable'')), c)
      else let scope = digest (''user'' @ [CHR 0x00] @ user @ [CHR 0x00] @ ''session'' @ [CHR 0x00] @ sid
                        @ [CHR 0x00] @ ''ip'' @ [CHR 0x00] @ ip)
           in check_buckets [(build_key p [''rl:dreamup-mobile-assertion:'', ''scope:'', scope], \<lparr>lm_max = scoped_limit, lm_window = window\<rparr>),
                (build_key p [''rl:dreamup-mobile-assertion:'', ''global''], \<lparr>lm_max = global_limit, lm_window = window\<rparr>)] c)"

text \<open>
  The limiter of administrator challenges.  \<open>current\<close> is the current key of the keyring, None
  when there is none; \<open>mac\<close> the base64url HMAC-SHA-256 under a key.  The first result is the
  delay, the second the error, \<open>ErrRateLimited\<close> being None of the limiter's failures.
\<close>

datatype admin_rate_error = ErrRateLimited | AdminRateFailure rl_error

definition admin_rate_digest :: "(string \<Rightarrow> string \<Rightarrow> string) \<Rightarrow> string \<Rightarrow> string \<Rightarrow> string \<Rightarrow> string" where
  "admin_rate_digest mac key purpose v =
     mac key (''united-pass/admin-challenge-rate-limit/v1'' @ [CHR 0x00] @ purpose @ [CHR 0x00] @ v)"

definition admin_challenge_check ::
  "string \<Rightarrow> (string \<Rightarrow> string \<Rightarrow> string) \<Rightarrow> (string \<times> string) option \<Rightarrow> int \<Rightarrow> duration \<Rightarrow> user_id \<Rightarrow> string \<Rightarrow> rl_conn
     \<Rightarrow> (duration \<times> admin_rate_error option) \<times> rl_conn" where
  "admin_challenge_check p mac current limit window user fingerprint c =
     (if user = [] \<or> fingerprint = []
      then ((window, Some (AdminRateFailure (RlRefused ''admin challenge limiter identity unavailable''))), c)
      else case current of
        None \<Rightarrow> ((window, Some (AdminRateFailure (RlRefused ''keyring''))), c)
      | Some (key_id, key) \<Rightarrow>
          (case io_call RlInfra (admin_challenge_script
                  (build_key p [''rl:admin-challenge:'', key_id, '':user:'', admin_rate_digest mac key ''immutable-user'' user])
                  (build_key p [''rl:admin-challenge:'', key_id, '':client:'', admin_rate_digest mac key ''client-fingerprint'' fingerprint])
                  limit (dur_millis window)) c of
             (Inl e, c1) \<Rightarrow> ((window, Some (AdminRateFailure e)), c1)
           | (Inr (allowed, retry), c1) \<Rightarrow>
               if allowed \<noteq> 1 then ((if millis retry \<le> 0 then window else millis retry, Some ErrRateLimited), c1)
               else ((0, None), c1)))"

end
