(* ===== verification/Windows.thy ===== *)
theory Windows
  imports Main
begin

text \<open>
  Fixed windows: what a counter that starts over after a span allows.  The events it counts are
  sorted into windows, the latest first, each with its start and at most \<open>m\<close> events, and each
  start more than \<open>w\<close> after the one before.  Shared by the rate limiter and the lockout of
  administrator challenges.
\<close>

fun paced :: "int \<Rightarrow> int \<Rightarrow> (int \<times> int list) list \<Rightarrow> bool" where
  "paced m w [] \<longleftrightarrow> True"
| "paced m w [(s, xs)] \<longleftrightarrow> (\<forall>x\<in>set xs. s \<le> x) \<and> int (length xs) \<le> m"
| "paced m w ((s', ys) # (s, xs) # Ws) \<longleftrightarrow> (\<forall>y\<in>set ys. s' \<le> y) \<and> int (length ys) \<le> m
     \<and> (\<forall>x\<in>set xs. x \<le> s') \<and> s + w < s' \<and> paced m w ((s, xs) # Ws)"

definition times_of :: "(int \<times> int list) list \<Rightarrow> int list" where
  "times_of Ws = concat (map snd Ws)"

lemma times_of_simps [simp]: "times_of [] = []" "times_of ((s, xs) # Ws) = xs @ times_of Ws"
  by (simp_all add: times_of_def)

lemma paced_tail: "paced m w (W # Ws) \<Longrightarrow> paced m w Ws"
  by (cases Ws; cases W) auto

lemma paced_hd: "paced m w ((s, xs) # Ws) \<Longrightarrow> (\<forall>x\<in>set xs. s \<le> x) \<and> int (length xs) \<le> m"
  by (cases Ws) auto

lemma paced_before: "paced m w ((s, xs) # Ws) \<Longrightarrow> x \<in> set (times_of Ws) \<Longrightarrow> 0 \<le> w \<Longrightarrow> x \<le> s"
proof (induction Ws arbitrary: s xs)
  case (Cons W Ws)
  obtain s1 ys where W: "W = (s1, ys)" by (rule prod.exhaust)
  with Cons.prems have "s1 \<le> s" "\<forall>y\<in>set ys. y \<le> s" "paced m w ((s1, ys) # Ws)" by auto
  with Cons W show ?case by (cases "x \<in> set ys") fastforce+
qed simp

lemma paced_span:
  assumes "paced m w Ws" "0 \<le> w"
  shows "int (length (filter (\<lambda>x. T \<le> x \<and> x \<le> T + w) (times_of Ws))) \<le> 2 * m \<or> Ws = []"
  using assms(1)
proof (induction Ws)
  case (Cons W Ws)
  let ?in = "\<lambda>x. T \<le> x \<and> x \<le> T + w"
  obtain s xs where W: "W = (s, xs)" by (rule prod.exhaust)
  have m: "int (length xs) \<le> m" "\<forall>x\<in>set xs. s \<le> x" using paced_hd Cons.prems W by blast+
  have le: "int (length (filter ?in xs)) \<le> m" using m(1) length_filter_le [of ?in xs] by linarith
  show ?case
  proof (cases Ws)
    case Nil
    with W le show ?thesis by simp
  next
    case (Cons W2 Ws2)
    obtain s2 ys where W2: "W2 = (s2, ys)" by (rule prod.exhaust)
    from Cons.prems W Cons W2 have p: "\<forall>y\<in>set ys. y \<le> s" "s2 + w < s" "paced m w ((s2, ys) # Ws2)" by auto
    show ?thesis
    proof (cases "filter ?in xs = []")
      case True
      with Cons.IH paced_tail [OF Cons.prems] W Cons show ?thesis by auto
    next
      case False
      then obtain x where x: "x \<in> set xs" "x \<le> T + w" by (auto simp: filter_empty_conv)
      have "y < T" if "y \<in> set (times_of Ws2)" for y
        using paced_before [OF p(3) that assms(2)] p(2) m(2) x by fastforce
      then have "filter ?in (times_of Ws2) = []" by (fastforce simp: filter_empty_conv)
      moreover have "int (length (filter ?in ys)) \<le> m"
        using paced_hd [OF p(3)] length_filter_le [of ?in ys] by linarith
      ultimately show ?thesis using W Cons W2 le by simp
    qed
  qed
qed simp

end
