(* ===== verification/RateLimits.thy ===== *)
theory RateLimits
  imports RateChecks Windows
begin

text \<open>
  What the limiter's scripts keep over time: how often a bucket admits within any span of its
  window, and that the keys of the limiter keep their types, so that the scripts never meet the
  errors they guard against.
\<close>

section \<open>Histories of scripts\<close>

text \<open>
  A script run by any client, whether or not its reply arrives, or time passing; the most recent
  event comes first, in the history and in its log.
\<close>

datatype rl_op =
  Single string int int
  | Multi script_buckets
  | Chain string string int script_buckets
  | Refund string string "string list"
  | Proofs string string string int int
  | AdminPair string string int int

fun rl_exec :: "rl_op \<Rightarrow> rl_db \<Rightarrow> (rl_error + int \<times> int) \<times> rl_db" where
  "rl_exec (Single k l w) db = rate_limit_script k l w db"
| "rl_exec (Multi bs) db = multi_script bs db"
| "rl_exec (Chain mk b ttl bs) db = create_chain_script mk b ttl bs db"
| "rl_exec (Refund mk b ks) db = map_prod (map_sum id (\<lambda>n. (n, 0))) id (refund_script mk b ks db)"
| "rl_exec (Proofs ip lk pk l w) db = claim_proofs_script ip lk pk l w db"
| "rl_exec (AdminPair uk ck l w) db = admin_challenge_script uk ck l w db"

datatype rl_event = Run rl_op | Pass nat

fun history :: "rl_event list \<Rightarrow> rl_db \<Rightarrow> (int \<times> rl_op \<times> (rl_error + int \<times> int)) list \<times> rl_db" where
  "history [] db = ([], db)"
| "history (Run op # es) db =
     (case history es db of (log, db') \<Rightarrow> ((rl_ms db', op, fst (rl_exec op db')) # log, snd (rl_exec op db')))"
| "history (Pass d # es) db = (case history es db of (log, db') \<Rightarrow> (log, db'\<lparr>rl_ms := rl_ms db' + int d\<rparr>))"

lemma history_keeps:
  assumes "I db" "\<And>op db. Run op \<in> set es \<Longrightarrow> I db \<Longrightarrow> I (snd (rl_exec op db))"
    and "\<And>d db. I db \<Longrightarrow> I (db\<lparr>rl_ms := rl_ms db + int d\<rparr>)"
  shows "I (snd (history es db))"
  using assms(2)
proof (induction es)
  case Nil
  show ?case using assms(1) by simp
next
  case (Cons e es)
  then have "I (snd (history es db))" by simp
  with Cons.prems assms(3) show ?case by (cases e) (auto split: prod.split)
qed

text \<open>The buckets an operation charges, and the keys it writes besides.\<close>

fun buckets_of :: "rl_op \<Rightarrow> script_buckets" where
  "buckets_of (Single k l w) = [(k, l, w)]"
| "buckets_of (Multi bs) = bs"
| "buckets_of (Chain mk b ttl bs) = bs"
| "buckets_of (Refund mk b ks) = []"
| "buckets_of (Proofs ip lk pk l w) = [(ip, l, w)]"
| "buckets_of (AdminPair uk ck l w) = [(uk, l, w), (ck, l, w)]"

fun other_keys :: "rl_op \<Rightarrow> string list" where
  "other_keys (Chain mk b ttl bs) = [mk]"
| "other_keys (Refund mk b ks) = mk # ks"
| "other_keys (Proofs ip lk pk l w) = [lk, pk]"
| "other_keys _ = []"

definition admits :: "string \<Rightarrow> int \<times> rl_op \<times> (rl_error + int \<times> int) \<Rightarrow> bool" where
  "admits k e = (k \<in> fst ` set (buckets_of (fst (snd e))) \<and> (\<exists>x. snd (snd e) = Inr (1, x)))"

definition admission_times :: "string \<Rightarrow> (int \<times> rl_op \<times> (rl_error + int \<times> int)) list \<Rightarrow> int list" where
  "admission_times k log = map fst (filter (admits k) log)"

text \<open>The operation uses \<open>k\<close> as a bucket only, with limit at most \<open>m\<close> and window at least \<open>w\<close>.\<close>

definition bounds_key :: "string \<Rightarrow> int \<Rightarrow> int \<Rightarrow> rl_op \<Rightarrow> bool" where
  "bounds_key k m w op \<longleftrightarrow> k \<notin> set (other_keys op) \<and> (\<forall>l win. (k, l, win) \<in> set (buckets_of op) \<longrightarrow> l \<le> m \<and> w \<le> win)"

section \<open>What scripts leave alone\<close>

lemma put_drop_simps [simp]:
  "rl_ms (put_key k x db) = rl_ms db" "rl_ms (drop_key k db) = rl_ms db"
  "rl_keys (put_key k x db) = (rl_keys db)(k \<mapsto> x)" "rl_keys (drop_key k db) = (rl_keys db)(k := None)"
  by (simp_all add: put_key_def drop_key_def)

lemma live_put [simp]:
  "live_key (put_key k x db) k' = (if k' = k then (if unexpired (rl_ms db) (snd x) then Some x else None) else live_key db k')"
  "live_key (drop_key k db) k' = (if k' = k then None else live_key db k')"
  by (auto simp: live_key_def put_key_def drop_key_def split: prod.split option.split)

lemma unexpired_simps [simp]: "unexpired ms None" "unexpired ms (Some t) \<longleftrightarrow> ms \<le> t"
  by (simp_all add: unexpired_def)

lemma charge_ms: "charge k w db = (r, d) \<Longrightarrow> rl_ms d = rl_ms db"
  by (auto simp: charge_def incr_def pexpire_def split: option.splits rl_value.splits if_splits)

lemma charge_other: "charge k w db = (r, d) \<Longrightarrow> k' \<noteq> k \<Longrightarrow> rl_keys d k' = rl_keys db k'"
  by (auto simp: charge_def incr_def pexpire_def split: option.splits rl_value.splits if_splits)

lemma live_cong: "rl_keys db' k = rl_keys db k \<Longrightarrow> rl_ms db' = rl_ms db \<Longrightarrow> live_key db' k = live_key db k"
  by (simp add: live_key_def split: option.split)

lemma pttl_cong: "rl_keys db' k = rl_keys db k \<Longrightarrow> rl_ms db' = rl_ms db \<Longrightarrow> pttl db' k = pttl db k"
  unfolding pttl_def using live_cong [of db' k db] by (simp split: option.split)

lemma charge_buckets_ms: "charge_buckets bs db = (r, d) \<Longrightarrow> rl_ms d = rl_ms db"
  by (induction bs db arbitrary: r d rule: charge_buckets.induct) (fastforce split: prod.splits sum.splits dest: charge_ms)+

lemma charge_buckets_other:
  "charge_buckets bs db = (r, d) \<Longrightarrow> k \<notin> fst ` set bs \<Longrightarrow> rl_keys d k = rl_keys db k"
  by (induction bs db arbitrary: r d rule: charge_buckets.induct)
     (fastforce split: prod.splits sum.splits dest: charge_other)+

lemma set_marker_other [simp]:
  "k \<noteq> mk \<Longrightarrow> rl_keys (set_marker mk f db) k = rl_keys db k" "rl_ms (set_marker mk f db) = rl_ms db"
  by (auto simp: set_marker_def split: option.split rl_value.split)

lemma pexpire_other [simp]:
  "k \<noteq> mk \<Longrightarrow> rl_keys (pexpire mk w db) k = rl_keys db k" "rl_ms (pexpire mk w db) = rl_ms db"
  by (auto simp: pexpire_def split: option.split)

lemma refund_counts_other:
  "rl_ms (snd (refund_counts ks ns ch db)) = rl_ms db \<and> (k \<notin> set ks \<longrightarrow> rl_keys (snd (refund_counts ks ns ch db)) k = rl_keys db k)"
  by (induction ks ns ch db rule: refund_counts.induct)
     (auto simp: decr_def split: option.split rl_value.split)

lemma refund_script_other:
  "rl_ms (snd (refund_script mk b ks db)) = rl_ms db"
  "k \<noteq> mk \<Longrightarrow> k \<notin> set ks \<Longrightarrow> rl_keys (snd (refund_script mk b ks db)) k = rl_keys db k"
  by (auto simp: refund_script_def refund_counts_other split: sum.split)

lemmas script_defs = rate_limit_script_def multi_script_def create_chain_script_def claim_proofs_script_def
  admin_challenge_script_def Let_def

lemma rl_exec_ms [simp]: "rl_ms (snd (rl_exec op db)) = rl_ms db"
  by (cases op) (auto simp: script_defs refund_script_other split: prod.split sum.split option.split
      dest!: charge_ms charge_buckets_ms)

lemma rl_exec_other:
  assumes "k \<notin> fst ` set (buckets_of op)" "k \<notin> set (other_keys op)"
  shows "rl_keys (snd (rl_exec op db)) k = rl_keys db k"
  using assms by (cases op) (auto simp: script_defs refund_script_other split: prod.split sum.split option.split
      dest: charge_other charge_buckets_other, (metis charge_other)+)

section \<open>Windows\<close>

text \<open>
  The counter of \<open>k\<close> and the windows: it counts at least the admissions of the current window,
  one more when \<open>slack\<close>, and it stands until more than \<open>w\<close> after the window began.
\<close>

definition counted :: "string \<Rightarrow> int \<Rightarrow> int \<Rightarrow> bool \<Rightarrow> (int \<times> int list) list \<Rightarrow> rl_db \<Rightarrow> bool" where
  "counted k m w slack Ws db \<longleftrightarrow> paced m w Ws \<and> (\<forall>x\<in>set (times_of Ws). x \<le> rl_ms db)
     \<and> (case Ws of
          [] \<Rightarrow> rl_keys db k = None \<and> \<not> slack
        | (s, xs) # _ \<Rightarrow> s \<le> rl_ms db \<and> (\<exists>n t. rl_keys db k = Some (Counter n, Some t) \<and> s + w \<le> t
             \<and> int (length xs) + of_bool slack \<le> n \<and> int (length xs) + of_bool slack \<le> m))"

lemma counted_cong:
  "counted k m w slack Ws db \<Longrightarrow> rl_keys db' k = rl_keys db k \<Longrightarrow> rl_ms db \<le> rl_ms db' \<Longrightarrow> counted k m w slack Ws db'"
  by (cases Ws) (auto simp: counted_def intro: order_trans)

lemma counted_less: "counted k m w slack Ws db \<Longrightarrow> counted k m w False Ws db"
  by (cases Ws; cases slack) (auto simp: counted_def)

lemma admit:
  assumes "counted k m w True Ws db"
  shows "\<exists>Ws'. counted k m w False Ws' db \<and> times_of Ws' = rl_ms db # times_of Ws"
proof -
  from assms obtain s xs Ws0 where Ws: "Ws = (s, xs) # Ws0"
    by (cases Ws) (auto simp: counted_def)
  with assms have "counted k m w False ((s, rl_ms db # xs) # Ws0) db"
    by (cases Ws0) (auto simp: counted_def)
  moreover have "times_of ((s, rl_ms db # xs) # Ws0) = rl_ms db # times_of Ws" using Ws by simp
  ultimately show ?thesis by blast
qed

lemma charge_counted:
  assumes "counted k m w slack Ws db" "0 < m" "0 < w" "charge k' win db = (r, db')"
    and "k' = k \<Longrightarrow> w \<le> win"
  shows "\<exists>Ws'. times_of Ws' = times_of Ws
     \<and> counted k m w (slack \<or> k' = k \<and> (\<exists>n. r = Inr n \<and> n \<le> m)) Ws' db'"
proof (cases "k' = k")
  case False
  with assms(1) charge_other [OF assms(4)] charge_ms [OF assms(4)] counted_cong show ?thesis by fastforce
next
  case True
  note win = assms(5) [OF True]
  show ?thesis
  proof (cases "live_key db k")
    case None
    then have c: "r = Inr 1" "rl_keys db' k = Some (Counter 1, Some (rl_ms db + win))" "rl_ms db' = rl_ms db"
      using assms(3,4) True win by (auto simp: charge_def incr_def pexpire_def)
    have "counted k m w True ((rl_ms db, []) # Ws) db'"
    proof (cases Ws)
      case Nil
      then show ?thesis using c assms(2) win by (simp add: counted_def)
    next
      case (Cons W Ws0)
      obtain s xs where W: "W = (s, xs)" by (rule prod.exhaust)
      with Cons assms(1) obtain n t where "rl_keys db k = Some (Counter n, Some t)" "s + w \<le> t"
        by (auto simp: counted_def)
      with None have "s + w < rl_ms db" by (auto simp: live_key_def split: if_splits)
      with Cons W assms(1,2) c win show ?thesis by (auto simp: counted_def)
    qed
    with c show ?thesis using True assms(2) by (intro exI [of _ "(rl_ms db, []) # Ws"]) simp
  next
    case (Some x)
    then obtain s xs Ws0 n t where Ws: "Ws = (s, xs) # Ws0" "rl_keys db k = Some (Counter n, Some t)" "s + w \<le> t"
        "int (length xs) + of_bool slack \<le> n" "int (length xs) + of_bool slack \<le> m"
      using assms(1) by (cases Ws) (auto simp: counted_def live_key_def)
    with Some have live: "live_key db k = Some (Counter n, Some t)" by (auto simp: live_key_def split: if_splits)
    show ?thesis
    proof (cases "n = max_int64")
      case True
      with assms(1,4) live \<open>k' = k\<close> show ?thesis by (auto simp: charge_def incr_def)
    next
      case False
      with assms(4) live \<open>k' = k\<close> have c: "r = Inr (n + 1)"
        "db' = (if n + 1 = 1 then pexpire k win (put_key k (Counter (n + 1), Some t) db) else put_key k (Counter (n + 1), Some t) db)"
        by (auto simp: charge_def incr_def)
      have "unexpired (rl_ms db) (Some t)" using live by (auto simp: live_key_def split: option.splits if_splits)
      then obtain t' where t': "rl_keys db' k = Some (Counter (n + 1), Some t')" "s + w \<le> t'" "rl_ms db' = rl_ms db"
        using c(2) Ws(1,3) assms(1,3) win by (cases "n = 0") (auto simp: pexpire_def counted_def)
      have "counted k m w (slack \<or> n + 1 \<le> m) Ws db'"
        using assms(1) Ws t' by (cases slack) (auto simp: counted_def)
      with c(1) \<open>k' = k\<close> show ?thesis by auto
    qed
  qed
qed

lemma charge_count:
  "charge k win db = (Inr n, db') \<Longrightarrow> live_key db k = None \<and> n = 1 \<or> (\<exists>w. live_key db k = Some (Counter (n - 1), w))"
  by (auto simp: charge_def incr_def split: option.splits rl_value.splits if_splits)

text \<open>A bucket the scan lets pass: absent, or a counter below the limit that has a deadline.\<close>

definition has_room :: "rl_db \<Rightarrow> string \<times> int \<times> int \<Rightarrow> bool" where
  "has_room db b = (case live_key db (fst b) of
     None \<Rightarrow> True
   | Some (Counter n, w) \<Rightarrow> 1 \<le> n \<and> n < fst (snd b) \<and> 0 \<le> pttl db (fst b)
   | Some _ \<Rightarrow> False)"

lemma scan_allows: "scan_buckets db bs allowed retry = Inr (True, x) \<Longrightarrow> allowed \<and> list_all (has_room db) bs"
proof (induction bs arbitrary: allowed retry)
  case (Cons b bs)
  obtain k l win where b: "b = (k, l, win)" by (rule prod_cases3)
  show ?case
  proof (cases "live_key db k")
    case None
    with Cons b show ?thesis by (auto simp: has_room_def)
  next
    case (Some y)
    then obtain v t where "live_key db k = Some (v, t)" by (cases y) simp
    with Cons b show ?thesis by (cases v) (auto simp: has_room_def split: if_splits)
  qed
qed simp

lemma charge_buckets_counted:
  assumes "counted k m w slack Ws db" "0 < m" "0 < w" "charge_buckets bs db = (r, db')"
    and "\<And>l win. (k, l, win) \<in> set bs \<Longrightarrow> w \<le> win"
    and "\<And>n x. \<not> slack \<Longrightarrow> k \<in> fst ` set bs \<Longrightarrow> live_key db k = Some (Counter n, x) \<Longrightarrow> n < m"
  shows "\<exists>Ws'. times_of Ws' = times_of Ws \<and> counted k m w (r = Inr () \<and> (slack \<or> k \<in> fst ` set bs)) Ws' db'"
  using assms(1,4-6)
proof (induction bs db arbitrary: slack Ws rule: charge_buckets.induct)
  case (1 db)
  then show ?case by auto
next
  case (2 k' l win bs db)
  obtain r1 d where d: "charge k' win db = (r1, d)" by (rule prod.exhaust)
  have "w \<le> win" if "k' = k" using that 2(4) by auto
  from charge_counted [OF 2(2) assms(2,3) d this] obtain Ws1 where
    W1: "times_of Ws1 = times_of Ws" "counted k m w (slack \<or> k' = k \<and> (\<exists>n. r1 = Inr n \<and> n \<le> m)) Ws1 d" by blast
  show ?case
  proof (cases r1)
    case (Inl e)
    with 2(3) d have "r = Inl e" "db' = d" by auto
    moreover from this W1(2) counted_less have "counted k m w False Ws1 db'" by blast
    ultimately show ?thesis using W1(1) by (intro exI [of _ Ws1]) simp
  next
    case (Inr n)
    with 2(3) d have rest: "charge_buckets bs d = (r, db')" by simp
    let ?slack = "slack \<or> k' = k"
    have "n \<le> m" if "k' = k" "\<not> slack"
      using charge_count [OF d [unfolded Inr]] that 2(5) assms(2) by fastforce
    then have c: "counted k m w ?slack Ws1 d" using W1(2) Inr by (cases "slack"; cases "k' = k") auto
    have "n' < m" if "\<not> ?slack" "k \<in> fst ` set bs" "live_key d k = Some (Counter n', x)" for n' x
      using that 2(5) [of n' x] live_cong [of d k db] charge_other [OF d, of k] charge_ms [OF d] by auto
    from 2(1) [OF d [symmetric] Inr c rest _ this] 2(4) obtain Ws2 where W2: "times_of Ws2 = times_of Ws1"
      "counted k m w (r = Inr () \<and> (?slack \<or> k \<in> fst ` set bs)) Ws2 db'" by fastforce
    have "(?slack \<or> k \<in> fst ` set bs) = (slack \<or> k \<in> fst ` set ((k', l, win) # bs))" by auto
    then have "counted k m w (r = Inr () \<and> (slack \<or> k \<in> fst ` set ((k', l, win) # bs))) Ws2 db'" using W2(2) by (simp only:)
    with W1(1) W2(1) show ?thesis by (intro exI [of _ Ws2]) (simp only:)
  qed
qed

lemma scanned_room:
  assumes "\<exists>x. scan_buckets db (buckets_of op) True 0 = Inr (True, x)" "bounds_key k m w op"
    "k \<in> fst ` set (buckets_of op)" "live_key db k = Some (Counter n, y)"
  shows "n < m"
proof -
  from assms(3) obtain l win where "(k, l, win) \<in> set (buckets_of op)" by auto
  then have "has_room db (k, l, win)" "l \<le> m"
    using assms(1,2) scan_allows by (auto simp: bounds_key_def list_all_iff)
  with assms(4) show ?thesis by (simp add: has_room_def)
qed

lemma charged_by_step:
  assumes "counted k m w False Ws db" "0 < m" "0 < w" "bounds_key k m w op"
    and "\<exists>x. scan_buckets db (buckets_of op) True 0 = Inr (True, x)" and d: "charge_buckets (buckets_of op) db = (r, d)"
  shows "\<exists>Ws'. times_of Ws' = times_of Ws \<and> counted k m w (r = Inr () \<and> k \<in> fst ` set (buckets_of op)) Ws' d"
  using charge_buckets_counted [OF assms(1-3) d] scanned_room [OF assms(5,4)] assms(4) by (auto simp: bounds_key_def)

lemma step_counted:
  assumes "counted k m w False Ws db" "0 < m" "0 < w" "bounds_key k m w op"
  shows "\<exists>Ws'. counted k m w False Ws' (snd (rl_exec op db))
    \<and> times_of Ws' = (if admits k (rl_ms db, op, fst (rl_exec op db)) then [rl_ms db] else []) @ times_of Ws"
proof -
  have one: ?thesis if "counted k m w (admits k (rl_ms db, op, fst (rl_exec op db))) Ws' (snd (rl_exec op db))"
      "times_of Ws' = times_of Ws" for Ws'
    using that admit [of k m w Ws' "snd (rl_exec op db)"] by (cases "admits k (rl_ms db, op, fst (rl_exec op db))") auto
  show ?thesis
  proof (cases op)
    case (Single k' l win)
    obtain r d where d: "charge k' win db = (r, d)" by (rule prod.exhaust)
    from charge_counted [OF assms(1-3) d] assms(4) Single obtain Ws' where
      W: "times_of Ws' = times_of Ws" "counted k m w (k' = k \<and> (\<exists>n. r = Inr n \<and> n \<le> m)) Ws' d" by (auto simp: bounds_key_def)
    have "counted k m w (admits k (rl_ms db, op, fst (rl_exec op db))) Ws' d"
      using W(2) Single d assms(4) counted_less
      by (cases r; cases "k' = k") (auto simp: admits_def rate_limit_script_def bounds_key_def Let_def)
    with one W(1) Single d show ?thesis by (cases r) (auto simp: rate_limit_script_def Let_def)
  next
    case (Multi bs)
    show ?thesis
    proof (cases "\<exists>x. scan_buckets db bs True 0 = Inr (True, x)")
      case True
      obtain r d where d: "charge_buckets bs db = (r, d)" by (rule prod.exhaust)
      with charged_by_step [OF assms] True Multi obtain Ws' where
        W: "times_of Ws' = times_of Ws" "counted k m w (r = Inr () \<and> k \<in> fst ` set bs) Ws' d" by auto
      have "counted k m w (admits k (rl_ms db, op, fst (rl_exec op db))) Ws' (snd (rl_exec op db))"
        using W(2) True d Multi counted_less by (cases r) (auto simp: admits_def multi_script_def)
      with W(1) show ?thesis by (rule one [rotated])
    next
      case False
      with Multi assms(1) one [of Ws] show ?thesis by (auto simp: admits_def multi_script_def split: sum.split)
    qed
  next
    case (Chain mk b ttl bs)
    then have k: "k \<noteq> mk" using assms(4) by (auto simp: bounds_key_def)
    show ?thesis
    proof (cases "cm_binding (case marker_at db mk of Inl e \<Rightarrow> no_marker | Inr m \<Rightarrow> m) = None \<and> (\<exists>m. marker_at db mk = Inr m)
        \<and> (\<exists>x. scan_buckets db bs True 0 = Inr (True, x))")
      case True
      obtain r d where d: "charge_buckets bs db = (r, d)" by (rule prod.exhaust)
      with charged_by_step [OF assms] True Chain obtain Ws' where
        W: "times_of Ws' = times_of Ws" "counted k m w (r = Inr () \<and> k \<in> fst ` set bs) Ws' d" by auto
      let ?d = "snd (rl_exec op db)"
      have "rl_keys ?d k = rl_keys d k" "rl_ms ?d = rl_ms d" "admits k (rl_ms db, op, fst (rl_exec op db)) \<longleftrightarrow> r = Inr () \<and> k \<in> fst ` set bs"
        using True d Chain k by (cases r; auto simp: admits_def create_chain_script_def Let_def)+
      with counted_cong [OF W(2), of ?d] have "counted k m w (admits k (rl_ms db, op, fst (rl_exec op db))) Ws' ?d" by simp
      with W(1) show ?thesis by (rule one [rotated])
    next
      case False
      then have "rl_keys (snd (rl_exec op db)) k = rl_keys db k" "\<not> admits k (rl_ms db, op, fst (rl_exec op db))"
        using Chain k by (auto simp: admits_def create_chain_script_def Let_def split: sum.split option.split prod.split)
      with counted_cong [OF assms(1), of "snd (rl_exec op db)"] one [of Ws] show ?thesis by simp
    qed
  next
    case (Refund mk b ks)
    then have "rl_keys (snd (rl_exec op db)) k = rl_keys db k" "\<not> admits k (rl_ms db, op, fst (rl_exec op db))"
      using assms(4) rl_exec_other [of k op db] by (auto simp: bounds_key_def admits_def)
    with counted_cong [OF assms(1), of "snd (rl_exec op db)"] one [of Ws] show ?thesis by simp
  next
    case (Proofs ip lk pk l win)
    obtain r d where d: "charge ip win db = (r, d)" by (rule prod.exhaust)
    from charge_counted [OF assms(1-3) d] assms(4) Proofs obtain Ws' where
      W: "times_of Ws' = times_of Ws" "counted k m w (ip = k \<and> (\<exists>n. r = Inr n \<and> n \<le> m)) Ws' d" by (auto simp: bounds_key_def)
    let ?d = "snd (rl_exec op db)"
    have other: "rl_keys ?d k = rl_keys d k" "rl_ms ?d = rl_ms d"
      using d Proofs assms(4) by (auto simp: bounds_key_def claim_proofs_script_def Let_def split: sum.split)
    have "counted k m w (admits k (rl_ms db, op, fst (rl_exec op db))) Ws' d"
      using W(2) Proofs d assms(4) counted_less
      by (cases r; cases "ip = k") (auto simp: admits_def claim_proofs_script_def bounds_key_def Let_def split: if_splits)
    with counted_cong [OF this, of ?d] other W(1) one show ?thesis by simp
  next
    case (AdminPair uk ck l win)
    obtain r d where d: "charge uk win db = (r, d)" by (rule prod.exhaust)
    from charge_counted [OF assms(1-3) d] assms(4) AdminPair obtain Ws1 where
      W1: "times_of Ws1 = times_of Ws" "counted k m w (uk = k \<and> (\<exists>n. r = Inr n \<and> n \<le> m)) Ws1 d" by (auto simp: bounds_key_def)
    show ?thesis
    proof (cases r)
      case (Inl e)
      with W1 d AdminPair one [of Ws1] show ?thesis by (auto simp: admits_def admin_challenge_script_def)
    next
      case (Inr n)
      obtain r2 d2 where d2: "charge ck win d = (r2, d2)" by (rule prod.exhaust)
      from charge_counted [OF W1(2) assms(2,3) d2] assms(4) AdminPair obtain Ws2 where
        W2: "times_of Ws2 = times_of Ws1"
          "counted k m w ((uk = k \<and> n \<le> m) \<or> ck = k \<and> (\<exists>n. r2 = Inr n \<and> n \<le> m)) Ws2 d2"
        using Inr by (auto simp: bounds_key_def)
      have "counted k m w (admits k (rl_ms db, op, fst (rl_exec op db))) Ws2 d2"
        using W2(2) AdminPair d d2 Inr assms(4) counted_less
        by (cases r2; cases "uk = k"; cases "ck = k")
           (auto simp: admits_def admin_challenge_script_def bounds_key_def Let_def split: if_splits)
      moreover have "snd (rl_exec op db) = d2"
        using AdminPair d d2 Inr by (cases r2) (auto simp: admin_challenge_script_def Let_def)
      ultimately show ?thesis using W1(1) W2(1) one [of Ws2] by simp
    qed
  qed
qed

text \<open>
  C12.  Fixed windows bound every span: whatever requests come in, if a counter that starts out
  absent is only ever used with limits of at most \<open>m\<close> and windows of at least \<open>w\<close>
  milliseconds, then in any \<open>w\<close> milliseconds at most \<open>2 * m\<close> requests are admitted through it,
  also when several buckets are checked together, when counters are charged twice by one
  request, and when denied requests keep counting.
\<close>

theorem admissions_bounded:
  assumes "0 < m" and "0 < w" and "rl_keys db k = None" and "\<And>op. Run op \<in> set es \<Longrightarrow> bounds_key k m w op"
  shows "int (length (filter (\<lambda>x. T \<le> x \<and> x \<le> T + w) (admission_times k (fst (history es db))))) \<le> 2 * m"
proof -
  have "\<exists>Ws. counted k m w False Ws (snd (history es db)) \<and> times_of Ws = admission_times k (fst (history es db))"
    using assms(4)
  proof (induction es)
    case Nil
    have "counted k m w False [] db" using assms(3) by (simp add: counted_def)
    then show ?case by (auto simp: admission_times_def intro!: exI [of _ "[]"])
  next
    case (Cons e es)
    then obtain Ws where Ws: "counted k m w False Ws (snd (history es db))"
      "times_of Ws = admission_times k (fst (history es db))" by auto
    show ?case
    proof (cases e)
      case (Run op)
      then have "bounds_key k m w op" using Cons.prems by simp
      from step_counted [OF Ws(1) assms(1,2) this] Ws(2) Run show ?thesis
        by (auto simp: admission_times_def split: prod.split)
    next
      case (Pass d)
      with counted_cong [OF Ws(1), of "(snd (history es db))\<lparr>rl_ms := rl_ms (snd (history es db)) + int d\<rparr>"] Ws(2)
      show ?thesis by (auto split: prod.split)
    qed
  qed
  then obtain Ws where "paced m w Ws" "times_of Ws = admission_times k (fst (history es db))"
    by (auto simp: counted_def)
  with paced_span [of m w Ws T] assms(1,2) show ?thesis by auto
qed

theorem admissions_bounded_witness:
  "int (length (filter (\<lambda>x. 0 \<le> x \<and> x \<le> 0 + 1000) (admission_times ''k'' (fst (history
     [Run (Single ''k'' 1 1000), Pass 1001, Run (Multi [(''j'', 9, 50), (''k'', 1, 2000)]), Run (Single ''k'' 1 1000)]
     \<lparr>rl_ms = 0, rl_keys = Map.empty\<rparr>))))) \<le> 2 * 1"
  by (rule admissions_bounded) (auto simp: bounds_key_def)

end
