(* ===== verification/RateTypes.thy ===== *)
theory RateTypes
  imports RateLimits
begin

text \<open>
  The keys of the limiter keep their types: counters stay positive integers with a deadline,
  markers stay complete, and the scripts never reply with the errors they guard against.
\<close>

section \<open>Typing of the store\<close>

fun counter_ok :: "rl_value \<times> int option \<Rightarrow> bool" where
  "counter_ok (Counter n, Some t) \<longleftrightarrow> 1 \<le> n"
| "counter_ok _ \<longleftrightarrow> False"

fun marker_ok :: "rl_value \<times> int option \<Rightarrow> bool" where
  "marker_ok (Marker m, Some t) \<longleftrightarrow> cm_binding m \<noteq> None \<and> cm_uses m \<in> {Some ''1'', Some ''2''}"
| "marker_ok _ \<longleftrightarrow> False"

lemma counter_okE: "counter_ok x \<Longrightarrow> \<exists>n t. x = (Counter n, Some t) \<and> 1 \<le> n"
  by (cases x rule: counter_ok.cases) auto

lemma marker_okE: "marker_ok x \<Longrightarrow> \<exists>m t. x = (Marker m, Some t) \<and> cm_binding m \<noteq> None \<and> cm_uses m \<in> {Some ''1'', Some ''2''}"
  by (cases x rule: marker_ok.cases) auto

definition store_typed :: "(string \<Rightarrow> bool) \<Rightarrow> (string \<Rightarrow> bool) \<Rightarrow> rl_db \<Rightarrow> bool" where
  "store_typed K M db \<longleftrightarrow> (\<forall>k x. rl_keys db k = Some x \<longrightarrow> (K k \<longrightarrow> counter_ok x) \<and> (M k \<longrightarrow> marker_ok x))"

fun op_typed :: "(string \<Rightarrow> bool) \<Rightarrow> (string \<Rightarrow> bool) \<Rightarrow> rl_op \<Rightarrow> bool" where
  "op_typed K M (Single k l w) \<longleftrightarrow> K k \<and> 0 < w"
| "op_typed K M (Multi bs) \<longleftrightarrow> distinct (map fst bs) \<and> (\<forall>(k, l, w)\<in>set bs. K k \<and> l \<le> max_int64 \<and> 0 < w)"
| "op_typed K M (Chain mk b ttl bs) \<longleftrightarrow> M mk \<and> 0 < ttl \<and> distinct (map fst bs)
     \<and> (\<forall>(k, l, w)\<in>set bs. K k \<and> l \<le> max_int64 \<and> 0 < w)"
| "op_typed K M (Refund mk b ks) \<longleftrightarrow> M mk \<and> distinct ks \<and> list_all K ks"
| "op_typed K M (Proofs ip lk pk l w) \<longleftrightarrow> K ip \<and> K lk \<and> K pk \<and> 0 < w"
| "op_typed K M (AdminPair uk ck l w) \<longleftrightarrow> K uk \<and> K ck \<and> 0 < w"

lemma typed_live: "store_typed K M db \<Longrightarrow> K k \<Longrightarrow> live_key db k = Some x \<Longrightarrow> \<exists>n t. x = (Counter n, Some t) \<and> 1 \<le> n \<and> rl_ms db \<le> t"
  by (auto simp: store_typed_def live_key_def split: option.splits if_splits) (metis counter_okE old.prod.inject unexpired_simps(2))+

lemma typed_live_marker: "store_typed K M db \<Longrightarrow> M k \<Longrightarrow> live_key db k = Some x \<Longrightarrow> marker_ok x"
  by (auto simp: store_typed_def live_key_def split: option.splits if_splits)

lemma typed_put: "store_typed K M db \<Longrightarrow> (K k \<Longrightarrow> counter_ok x) \<Longrightarrow> (M k \<Longrightarrow> marker_ok x) \<Longrightarrow> store_typed K M (put_key k x db)"
  by (auto simp: store_typed_def)

lemma typed_drop: "store_typed K M db \<Longrightarrow> store_typed K M (drop_key k db)"
  by (auto simp: store_typed_def)

lemma put_put [simp]: "put_key k x (put_key k y db) = put_key k x db"
  by (simp add: put_key_def)

lemma has_room_cong:
  "live_key d k = live_key db k \<Longrightarrow> pttl d k = pttl db k \<Longrightarrow> has_room d (k, l) = has_room db (k, l)"
  by (simp add: has_room_def split: option.split rl_value.split)

definition counter_at :: "rl_db \<Rightarrow> string \<Rightarrow> int \<Rightarrow> bool" where
  "counter_at db k n \<longleftrightarrow> (case live_key db k of Some (Counter m, t) \<Rightarrow> m = n | _ \<Rightarrow> False)"

lemma counter_at_iff: "counter_at db k n \<longleftrightarrow> (\<exists>t. live_key db k = Some (Counter n, t))"
  by (auto simp: counter_at_def split: option.split rl_value.split)

text \<open>
  The scripts that increment without reading first overflow exactly when a live counter they
  increment stands at the largest 64-bit integer: the second of two increments of one key finds it
  there when the counter stood one below.
\<close>

fun overflows :: "rl_op \<Rightarrow> rl_db \<Rightarrow> bool" where
  "overflows (Single k l w) db \<longleftrightarrow> counter_at db k max_int64"
| "overflows (Proofs ip lk pk l w) db \<longleftrightarrow> counter_at db ip max_int64"
| "overflows (AdminPair uk ck l w) db \<longleftrightarrow>
     counter_at db uk max_int64 \<or> (if uk = ck then counter_at db uk (max_int64 - 1) else counter_at db ck max_int64)"
| "overflows _ db \<longleftrightarrow> False"

lemma charge_overflows:
  assumes "charge k w db = (r, d)" and "counter_at db k max_int64"
  shows "r = Inl RlInfra"
  using assms by (auto simp: charge_def incr_def counter_at_iff)

lemma charge_counts:
  assumes "charge k w db = (Inr n, d)"
  shows "counter_at d k max_int64 \<longleftrightarrow> counter_at db k (max_int64 - 1)"
  using assms
  by (auto simp: charge_def incr_def pexpire_def put_key_def live_key_def counter_at_def unexpired_def max_int64_def
      split: option.splits rl_value.splits if_splits prod.splits)

text \<open>Keys of counters and keys of markers are different keys.\<close>

locale key_kinds =
  fixes K M :: "string \<Rightarrow> bool"
  assumes apart: "K k \<Longrightarrow> \<not> M k"
begin

lemma charge_typed:
  assumes "store_typed K M db" "K k" "0 < w" "charge k w db = (r, d)"
  shows "store_typed K M d" "r = Inl e \<Longrightarrow> e = RlInfra \<and> (\<exists>t. live_key db k = Some (Counter max_int64, t))"
proof -
  have "store_typed K M d \<and> (\<forall>e. r = Inl e \<longrightarrow> e = RlInfra \<and> (\<exists>t. live_key db k = Some (Counter max_int64, t)))"
  proof (cases "live_key db k")
    case None
    with assms apart [OF assms(2)] show ?thesis
      by (auto simp: charge_def incr_def pexpire_def intro!: typed_put)
  next
    case (Some x)
    from typed_live [OF assms(1,2) Some] obtain n t where x: "x = (Counter n, Some t)" "1 \<le> n" by blast
    with assms Some apart [OF assms(2)] show ?thesis
      by (auto simp: charge_def incr_def intro!: typed_put split: if_splits)
  qed
  then show "store_typed K M d" "r = Inl e \<Longrightarrow> e = RlInfra \<and> (\<exists>t. live_key db k = Some (Counter max_int64, t))" by auto
qed

lemma scan_typed:
  "store_typed K M db \<Longrightarrow> \<forall>(k, l, w)\<in>set bs. K k \<Longrightarrow> \<exists>x. scan_buckets db bs allowed retry = Inr x"
proof (induction bs arbitrary: allowed retry)
  case (Cons b bs)
  obtain k l w where b: "b = (k, l, w)" by (rule prod_cases3)
  show ?case
  proof (cases "live_key db k")
    case None
    with Cons b show ?thesis by auto
  next
    case (Some x)
    with typed_live [of K M db k x] Cons.prems b obtain n t where "x = (Counter n, Some t)" "1 \<le> n" "rl_ms db \<le> t" by auto
    with Some Cons b show ?thesis by (auto simp: pttl_def)
  qed
qed simp

lemma charge_buckets_typed:
  assumes "store_typed K M db" "charge_buckets bs db = (r, d)" "\<forall>(k, l, w)\<in>set bs. K k \<and> l \<le> max_int64 \<and> 0 < w"
    and "distinct (map fst bs)" "list_all (has_room db) bs"
  shows "store_typed K M d \<and> r = Inr ()"
  using assms
proof (induction bs db rule: charge_buckets.induct)
  case (2 k l w bs db)
  obtain r1 d1 where d1: "charge k w db = (r1, d1)" by (rule prod.exhaust)
  have t1: "store_typed K M d1" using charge_typed(1) [OF 2(2) _ _ d1] 2(4) by simp
  show ?case
  proof (cases r1)
    case (Inl e)
    with charge_typed(2) [OF 2(2) _ _ d1] 2(4) obtain t where "live_key db k = Some (Counter max_int64, t)" by auto
    with 2(4,6) show ?thesis by (auto simp: has_room_def)
  next
    case (Inr n)
    have "has_room d1 b" if "b \<in> set bs" for b
    proof -
      have "fst b \<noteq> k" using that 2(5) by auto
      with charge_other [OF d1] charge_ms [OF d1] live_cong pttl_cong
      have "live_key d1 (fst b) = live_key db (fst b)" "pttl d1 (fst b) = pttl db (fst b)" by blast+
      moreover have "has_room db b" using that 2(6) by (auto simp: list_all_iff)
      ultimately show ?thesis using has_room_cong [of d1 "fst b" db "snd b"] by simp
    qed
    with 2(1) [OF d1 [symmetric] Inr t1] 2(3-5) d1 Inr show ?thesis by (auto simp: list_all_iff)
  qed
qed simp

lemma marker_typed:
  assumes "store_typed K M db" "M mk"
  shows "\<exists>m. marker_at db mk = Inr m \<and> (live_key db mk = None \<and> m = no_marker
     \<or> live_key db mk \<noteq> None \<and> cm_binding m \<noteq> None \<and> cm_uses m \<in> {Some ''1'', Some ''2''})"
proof (cases "live_key db mk")
  case None
  then show ?thesis by (simp add: marker_at_def)
next
  case (Some x)
  with typed_live_marker [OF assms Some] show ?thesis by (auto simp: marker_at_def dest!: marker_okE)
qed

lemma set_marker_typed:
  assumes "store_typed K M db" "M mk" "live_key db mk \<noteq> None"
    and "\<And>m. cm_binding m \<noteq> None \<Longrightarrow> cm_binding (f m) \<noteq> None"
    and "\<And>m. cm_uses m \<in> {Some ''1'', Some ''2''} \<Longrightarrow> cm_uses (f m) \<in> {Some ''1'', Some ''2''}"
  shows "store_typed K M (set_marker mk f db)"
proof -
  from assms(3) obtain x where x: "live_key db mk = Some x" by blast
  from marker_okE [OF typed_live_marker [OF assms(1,2) x]] obtain m t where
    "x = (Marker m, Some t)" "cm_binding m \<noteq> None" "cm_uses m \<in> {Some ''1'', Some ''2''}" by blast
  with x assms(1,2,4,5) apart show ?thesis by (auto simp: set_marker_def intro!: typed_put)
qed

lemma refund_counts_typed:
  assumes "store_typed K M db" "list_all K ks" "distinct ks"
    and "\<forall>(k, n)\<in>set (zip ks ns). n = 0 \<or> (\<exists>t. live_key db k = Some (Counter n, t))"
  shows "store_typed K M (snd (refund_counts ks ns ch db)) \<and> (\<exists>n. fst (refund_counts ks ns ch db) = Inr n)"
  using assms
proof (induction ks ns ch db rule: refund_counts.induct)
  case (1 k ks n ns ch db)
  have rest: "\<forall>(k', n')\<in>set (zip ks ns). n' = 0 \<or> (\<exists>t. live_key d k' = Some (Counter n', t))"
    if "\<And>k'. k' \<noteq> k \<Longrightarrow> live_key d k' = live_key db k'" for d
    using 1(6,7) that by (fastforce dest: set_zip_leftD)
  show ?case
  proof (cases "n = 0 \<or> n = 1")
    case True
    with 1 rest [of "drop_key k db"] typed_drop show ?thesis by auto
  next
    case False
    with 1(7) obtain t where t: "live_key db k = Some (Counter n, t)" by auto
    with typed_live [OF 1(4) _ t] 1(5) False obtain t' where tt: "t = Some t'" "1 < n" by auto
    let ?d = "put_key k (Counter (n - 1), t) db"
    have d: "decr k db = (Inr (), ?d)" using t tt by (simp add: decr_def max_int64_def)
    moreover have "store_typed K M ?d" using 1(4,5) tt apart by (intro typed_put) auto
    ultimately show ?thesis using 1(3) [of "Inr ()" ?d "()"] 1(5,6) False rest [of ?d] by auto
  qed
qed (auto simp: refund_counts.simps)

lemma refundable_typed:
  "store_typed K M db \<Longrightarrow> list_all K ks \<Longrightarrow>
     \<exists>ns. refundable db ks = Inr ns \<and> (\<forall>(k, n)\<in>set (zip ks ns). n = 0 \<or> (\<exists>t. live_key db k = Some (Counter n, t)))"
proof (induction ks)
  case (Cons k ks)
  then obtain ns where ns: "refundable db ks = Inr ns"
    "\<forall>(k, n)\<in>set (zip ks ns). n = 0 \<or> (\<exists>t. live_key db k = Some (Counter n, t))" by auto
  show ?case
  proof (cases "live_key db k")
    case None
    with ns show ?thesis by auto
  next
    case (Some x)
    with typed_live [of K M db k x] Cons.prems obtain n t where "x = (Counter n, Some t)" "1 \<le> n" "rl_ms db \<le> t" by auto
    with Some ns show ?thesis by (auto simp: pttl_def)
  qed
qed simp

lemma scanned:
  assumes "store_typed K M db" "\<forall>(k, l, w)\<in>set bs. K k \<and> l \<le> max_int64 \<and> 0 < w" "distinct (map fst bs)"
  obtains retry where "scan_buckets db bs True 0 = Inr (False, retry)"
  | retry d where "scan_buckets db bs True 0 = Inr (True, retry)" "charge_buckets bs db = (Inr (), d)" "store_typed K M d"
proof -
  obtain a retry where s: "scan_buckets db bs True 0 = Inr (a, retry)" using scan_typed [OF assms(1)] assms(2) by fastforce
  show ?thesis
  proof (cases a)
    case True
    obtain r d where d: "charge_buckets bs db = (r, d)" by (rule prod.exhaust)
    have "list_all (has_room db) bs" using scan_allows [of db bs True 0 retry] s True by simp
    from charge_buckets_typed [OF assms(1) d assms(2,3) this] s True d that(2) show ?thesis by simp
  next
    case False
    with s that(1) show ?thesis by simp
  qed
qed

lemma chain_typed:
  assumes "store_typed K M db" "op_typed K M (Chain mk b ttl bs)"
  shows "store_typed K M (snd (create_chain_script mk b ttl bs db)) \<and> (\<exists>x. fst (create_chain_script mk b ttl bs db) = Inr x)"
proof -
  from assms(2) have mk: "M mk" "0 < ttl" by auto
  from marker_typed [OF assms(1) mk(1)] obtain m where m: "marker_at db mk = Inr m"
    "live_key db mk = None \<and> m = no_marker
     \<or> live_key db mk \<noteq> None \<and> cm_binding m \<noteq> None \<and> cm_uses m \<in> {Some ''1'', Some ''2''}" by blast
  show ?thesis
  proof (cases "cm_binding m")
    case None
    with m(2) have gone: "live_key db mk = None" by auto
    from assms(2) have bs: "\<forall>(k, l, w)\<in>set bs. K k \<and> l \<le> max_int64 \<and> 0 < w" "distinct (map fst bs)" by auto
    from assms(1) bs show ?thesis
    proof (rule scanned)
      fix retry assume "scan_buckets db bs True 0 = Inr (False, retry)"
      with m(1) None assms(1) show ?thesis by (simp add: create_chain_script_def Let_def)
    next
      fix retry d assume d: "scan_buckets db bs True 0 = Inr (True, retry)" "charge_buckets bs db = (Inr (), d)" "store_typed K M d"
      have "mk \<notin> fst ` set bs" using bs(1) apart mk(1) by fastforce
      then have "live_key d mk = None"
        using gone charge_buckets_other [OF d(2)] charge_buckets_ms [OF d(2)] live_cong [of d mk db] by simp
      with m(1) None d mk apart show ?thesis
        by (auto simp: create_chain_script_def Let_def set_marker_def pexpire_def intro!: typed_put)
    qed
  next
    case (Some b')
    with m(2) have "live_key db mk \<noteq> None" by (auto simp: no_marker_def)
    with set_marker_typed [OF assms(1) mk(1)] m Some assms(1) show ?thesis
      by (auto simp: create_chain_script_def Let_def)
  qed
qed

lemma refund_typed:
  assumes "store_typed K M db" "op_typed K M (Refund mk b ks)"
  shows "store_typed K M (snd (refund_script mk b ks db)) \<and> (\<exists>x. fst (refund_script mk b ks db) = Inr x)"
proof -
  from assms(2) have mk: "M mk" and ks: "list_all K ks" "distinct ks" by auto
  from marker_typed [OF assms(1) mk] obtain m where m: "marker_at db mk = Inr m"
    "live_key db mk = None \<and> m = no_marker \<or> live_key db mk \<noteq> None \<and> cm_binding m \<noteq> None" by blast
  show ?thesis
  proof (cases "cm_binding m = Some b \<and> cm_refunded m \<noteq> Some ''1''")
    case False
    with m(1) assms(1) show ?thesis by (auto simp: refund_script_def)
  next
    case True
    with m(2) have "live_key db mk \<noteq> None" by (auto simp: no_marker_def)
    let ?d = "set_marker mk (cm_refunded_update (\<lambda>_. Some ''1'')) db"
    have t: "store_typed K M ?d" using set_marker_typed [OF assms(1) mk \<open>live_key db mk \<noteq> None\<close>] by simp
    from refundable_typed [OF assms(1) ks(1)] obtain ns where ns: "refundable db ks = Inr ns"
      "\<forall>(k, n)\<in>set (zip ks ns). n = 0 \<or> (\<exists>t. live_key db k = Some (Counter n, t))" by blast
    have "live_key ?d k = live_key db k" if "k \<in> set ks" for k
    proof (rule live_cong)
      have "k \<noteq> mk" using that ks(1) mk apart by (auto simp: list_all_iff)
      then show "rl_keys ?d k = rl_keys db k" "rl_ms ?d = rl_ms db" by simp_all
    qed
    then have "\<forall>(k, n)\<in>set (zip ks ns). n = 0 \<or> (\<exists>t. live_key ?d k = Some (Counter n, t))"
      using ns(2) by (fastforce dest: set_zip_leftD)
    from refund_counts_typed [OF t ks this] m(1) True ns(1) show ?thesis by (simp add: refund_script_def)
  qed
qed

lemma rl_exec_typed:
  assumes "store_typed K M db" "op_typed K M op"
  shows "store_typed K M (snd (rl_exec op db))
    \<and> (\<forall>e. fst (rl_exec op db) = Inl e \<longleftrightarrow> e = RlInfra \<and> overflows op db)"
proof (cases op)
  case (Single k l w)
  obtain r d where d: "charge k w db = (r, d)" by (rule prod.exhaust)
  with charge_typed [OF assms(1) _ _ d] charge_overflows [OF d] assms Single show ?thesis
    by (cases r) (auto simp: rate_limit_script_def Let_def counter_at_iff)
next
  case (Multi bs)
  with assms have bs: "\<forall>(k, l, w)\<in>set bs. K k \<and> l \<le> max_int64 \<and> 0 < w" "distinct (map fst bs)" by auto
  from assms(1) bs show ?thesis
    by (rule scanned) (use assms(1) Multi in \<open>auto simp: multi_script_def\<close>)
next
  case (Chain mk b ttl bs)
  with chain_typed [OF assms(1), of mk b ttl bs] assms(2) show ?thesis by auto
next
  case (Refund mk b ks)
  with refund_typed [OF assms(1), of mk b ks] assms(2) show ?thesis by auto
next
  case (Proofs ip lk pk l w)
  obtain r d where d: "charge ip w db = (r, d)" by (rule prod.exhaust)
  have t: "store_typed K M d" using charge_typed(1) [OF assms(1) _ _ d] assms Proofs by simp
  with d charge_typed(2) [OF assms(1) _ _ d] charge_overflows [OF d] assms Proofs apart show ?thesis
    by (cases r) (auto simp: claim_proofs_script_def Let_def counter_at_iff intro!: typed_put)
next
  case (AdminPair uk ck l w)
  obtain r d where d: "charge uk w db = (r, d)" by (rule prod.exhaust)
  have t: "store_typed K M d" using charge_typed(1) [OF assms(1) _ _ d] assms AdminPair by simp
  obtain r2 d2 where d2: "charge ck w d = (r2, d2)" by (rule prod.exhaust)
  have t2: "store_typed K M d2" using charge_typed(1) [OF t _ _ d2] assms AdminPair by simp
  have first: "r = Inl e \<longleftrightarrow> e = RlInfra \<and> counter_at db uk max_int64" for e
    using charge_typed(2) [OF assms(1) _ _ d] charge_overflows [OF d] assms AdminPair by (auto simp: counter_at_iff)
  have second: "r2 = Inl e \<longleftrightarrow> e = RlInfra \<and> counter_at d ck max_int64" for e
    using charge_typed(2) [OF t _ _ d2] charge_overflows [OF d2] assms AdminPair by (auto simp: counter_at_iff)
  have mid: "counter_at d ck max_int64 \<longleftrightarrow>
      (if uk = ck then counter_at db uk (max_int64 - 1) else counter_at db ck max_int64)" if "r = Inr n" for n
  proof (cases "uk = ck")
    case True
    with charge_counts [of uk w db n d] d that show ?thesis by simp
  next
    case False
    with charge_other [OF d] charge_ms [OF d] live_cong [of d ck db] have "live_key d ck = live_key db ck" by simp
    with False show ?thesis by (simp add: counter_at_def)
  qed
  show ?thesis
  proof (cases r)
    case (Inl e)
    with first t d AdminPair show ?thesis by (auto simp: admin_challenge_script_def)
  next
    case (Inr n)
    with first have ok: "\<not> counter_at db uk max_int64" by blast
    from Inr d d2 t2 second mid [OF Inr] ok AdminPair show ?thesis
      by (cases r2) (auto simp: admin_challenge_script_def Let_def)
  qed
qed

lemma history_typed:
  assumes "store_typed K M db" "\<And>op. Run op \<in> set es \<Longrightarrow> op_typed K M op"
  shows "store_typed K M (snd (history es db))"
  by (rule history_keeps [where I = "store_typed K M", OF assms(1)]) (use assms(2) rl_exec_typed in blast, simp add: store_typed_def)

lemma history_errors:
  assumes "store_typed K M db" "\<And>op. Run op \<in> set es \<Longrightarrow> op_typed K M op" and "es = later @ Run op # before"
  shows "fst (rl_exec op (snd (history before db))) = Inl e \<longleftrightarrow> e = RlInfra \<and> overflows op (snd (history before db))"
proof -
  have "store_typed K M (snd (history before db))" "op_typed K M op"
    using assms(2,3) history_typed [OF assms(1)] by simp_all
  from rl_exec_typed [OF this] show ?thesis by blast
qed

end

section \<open>The keys of the limiter\<close>

definition counter_segments :: "string list" where
  "counter_segments = [''rl:login:'', ''rl:mfa:'', ''rl:reauth:'', ''rl:rotate:'', ''rl:password-reset:'',
     ''rl:registration:verify:'', ''rl:registration:resend:'', ''rl:registration:form-intent:'', ''rl:registration:create:'',
     ''rl:registration:unblock:'', ''rl:account:email-change:begin:'', ''rl:account:email-change:verify:'',
     ''rl:account:phone-change:begin:'', ''rl:wechat:login:'', ''rl:wechat:phone:'', ''rl:wechat:registration-proof:'',
     ''rl:qr-auth:begin:'', ''rl:dreamup-mobile-assertion:'', ''rl:admin-challenge:'']"

definition starts_with :: "string \<Rightarrow> string \<Rightarrow> bool" where
  "starts_with s k \<longleftrightarrow> take (length s) k = s"

definition counter_key :: "string \<Rightarrow> string \<Rightarrow> bool" where
  "counter_key p k \<longleftrightarrow> list_ex (\<lambda>seg. starts_with (p @ seg) k) counter_segments"

definition chain_key :: "string \<Rightarrow> string \<Rightarrow> bool" where
  "chain_key p k \<longleftrightarrow> starts_with (p @ ''rl:registration:create-chain:v5:'') k"

lemma starts_with_append [simp]: "starts_with (p @ s) (p @ k) \<longleftrightarrow> starts_with s k" "starts_with s (s @ k)" "starts_with [] k"
  by (simp_all add: starts_with_def)

lemma starts_with_Cons [simp]: "starts_with (a # s) (b # k) \<longleftrightarrow> a = b \<and> starts_with s k"
  by (auto simp: starts_with_def)

lemma starts_withE: "starts_with s k \<Longrightarrow> \<exists>r. k = s @ r"
  unfolding starts_with_def by (metis append_take_drop_id)

interpretation limiter: key_kinds "counter_key p" "chain_key p" for p
proof
  fix k assume "counter_key p k"
  then obtain seg r where "seg \<in> set counter_segments" "k = p @ seg @ r"
    by (auto simp: counter_key_def list_ex_iff dest!: starts_withE)
  then show "\<not> chain_key p k" by (auto simp: counter_segments_def chain_key_def)
qed

section \<open>The operations of the methods\<close>

lemma counter_key_simps [simp]:
  "counter_key p (build_key p (seg # parts)) \<longleftrightarrow> list_ex (\<lambda>s. starts_with s (seg @ concat parts)) counter_segments"
  by (simp add: counter_key_def build_key_def)

lemma counter_key_seg: "list_ex (\<lambda>s. starts_with s seg) counter_segments \<Longrightarrow> counter_key p (p @ seg @ rest)"
  by (auto simp: counter_key_def list_ex_iff dest!: starts_withE) (metis starts_with_append(2))

text \<open>Every bucket of a registration has a counter key, and no key occurs twice.\<close>

definition create_tail :: "string \<Rightarrow> string \<Rightarrow> string" where
  "create_tail p t = p @ ''rl:registration:create:'' @ t"

lemma create_tail_key [simp]: "counter_key p (create_tail p t)"
  unfolding create_tail_def by (rule counter_key_seg) (simp add: counter_segments_def)

lemma create_tail_inj [simp]: "create_tail p t = create_tail p u \<longleftrightarrow> t = u"
  by (simp add: create_tail_def)

lemma create_keys:
  "build_key p [''rl:registration:create:'', ''ip:'', ip] = create_tail p (''ip:'' @ ip)"
  "build_key p [''rl:registration:create:'', ''net:'', n] = create_tail p (''net:'' @ n)"
  "build_key p [''rl:registration:create:'', ''pair:'', ip, '':'', h] = create_tail p (''pair:'' @ ip @ '':'' @ h)"
  "registration_create_email_key p h = create_tail p (''email:v2:'' @ h)"
  "registration_create_mailbox_family_key p h = create_tail p (''mailbox-family:v1:'' @ h)"
  "registration_global_keys p = [create_tail p ''global:v1:burst'', create_tail p ''global:v1:sustained'']"
  "registration_domain_keys p h = [create_tail p (''domain:v1:burst:'' @ h), create_tail p (''domain:v1:sustained:'' @ h)]"
  "registration_mx_keys p h = [create_tail p (''mx:v1:burst:'' @ h), create_tail p (''mx:v1:sustained:'' @ h)]"
  by (simp_all add: build_key_def create_tail_def registration_create_email_key_def
      registration_create_mailbox_family_key_def registration_global_keys_def registration_domain_keys_def registration_mx_keys_def)

lemma append_aggregate_keys:
  "append_aggregate_buckets bs [a, b] policy = Inr bs' \<Longrightarrow> map fst bs' = map fst bs \<or> map fst bs' = map fst bs @ [a, b]"
  by (auto simp: append_aggregate_buckets_def split: if_splits)

lemma append_mx_keys:
  "append_mx_buckets p policy hs bs = Inr bs' \<Longrightarrow>
     map fst bs' = map fst bs \<or> map fst bs' = map fst bs @ concat (map (registration_mx_keys p) hs)"
proof (induction hs arbitrary: bs)
  case (Cons h hs)
  then obtain b1 where b1: "append_aggregate_buckets bs (registration_mx_keys p h) policy = Inr b1"
    "append_mx_buckets p policy hs b1 = Inr bs'" by (auto split: sum.splits)
  show ?case
  proof (cases "b1 = bs")
    case True
    have "append_mx_buckets p policy hs bs = Inr bs" if "append_aggregate_buckets bs (registration_mx_keys p h) policy = Inr bs"
      for hs
      using that by (induction hs) (auto simp: append_aggregate_buckets_def create_keys split: if_splits)
    with b1 True show ?thesis by simp
  next
    case False
    then have "map fst b1 = map fst bs @ registration_mx_keys p h"
      using b1(1) by (auto simp: append_aggregate_buckets_def create_keys split: if_splits)
    moreover from False b1(1) have "append_mx_buckets p policy hs b1 = Inr bs' \<Longrightarrow>
        map fst bs' = map fst b1 @ concat (map (registration_mx_keys p) hs)" for hs b1
      by (induction hs arbitrary: b1) (auto simp: append_aggregate_buckets_def create_keys split: if_splits)
    ultimately show ?thesis using b1(2) by simp
  qed
qed simp

lemma mx_keys_distinct:
  "distinct hs \<Longrightarrow> distinct (concat (map (registration_mx_keys p) hs))"
  "x \<in> set (concat (map (registration_mx_keys p) hs)) \<Longrightarrow> \<exists>t. x = create_tail p (CHR ''m'' # CHR ''x'' # t)"
  by (induction hs) (auto simp: create_keys)

text \<open>Distinct keys of registration buckets, told apart by the two characters after the segment.\<close>

definition tagged :: "string \<Rightarrow> string set \<Rightarrow> string list \<Rightarrow> bool" where
  "tagged p T ks \<longleftrightarrow> distinct ks \<and> (\<forall>k\<in>set ks. counter_key p k \<and> take 2 (drop (length (create_tail p [])) k) \<in> T)"

lemma drop_create_tail [simp]: "drop (length (create_tail p [])) (create_tail p t) = t"
  by (simp add: create_tail_def)

lemma tagged_grow:
  "tagged p S ks \<Longrightarrow> ks2 = ks \<or> ks2 = ks @ ks' \<Longrightarrow> tagged p T ks' \<Longrightarrow> S \<inter> T = {} \<Longrightarrow> tagged p (S \<union> T) ks2"
  unfolding tagged_def
proof (elim disjE conjE)
  assume "\<forall>k\<in>set ks. counter_key p k \<and> take 2 (drop (length (create_tail p [])) k) \<in> S"
    "\<forall>k\<in>set ks'. counter_key p k \<and> take 2 (drop (length (create_tail p [])) k) \<in> T" "S \<inter> T = {}"
  then have "set ks \<inter> set ks' = {}" by (metis disjoint_iff)
  then show "distinct ks \<Longrightarrow> distinct ks' \<Longrightarrow> ks2 = ks @ ks' \<Longrightarrow> distinct ks2
      \<and> (\<forall>k\<in>set ks2. counter_key p k \<and> take 2 (drop (length (create_tail p [])) k) \<in> S \<union> T)"
    using \<open>\<forall>k\<in>set ks. _ k\<close> \<open>\<forall>k\<in>set ks'. _ k\<close> by auto
qed simp

lemma create_buckets_keys:
  assumes "registration_create_buckets_with_cohorts p s policy = Inr bs"
  shows "distinct (map fst bs) \<and> list_all (counter_key p) (map fst bs)"
proof -
  from assms have d: "distinct (cs_mx_hashes s)"
    by (auto simp: registration_create_buckets_with_cohorts_def normalize_registration_create_mx_cohorts_def split: if_splits)
  define hs where "hs = sort (cs_mx_hashes s)"
  have hs: "distinct hs" using d by (simp add: hs_def)
  define base where "base = registration_create_buckets p (cs_client_ip s) (cs_client_network s) (cs_email_hash s) policy"
  define b1 where "b1 = (if cs_mailbox_family_hash s = [] then base
    else base @ [(registration_create_mailbox_family_key p (cs_mailbox_family_hash s), cp_mailbox_family policy)])"
  have "\<exists>b2 b3. append_aggregate_buckets b1 (registration_global_keys p) (cp_global policy) = Inr b2
    \<and> (b3 = b2 \<or> append_aggregate_buckets b2 (registration_domain_keys p (cs_domain_hash s)) (cp_unfamiliar_domain policy) = Inr b3)
    \<and> append_mx_buckets p (cp_unfamiliar_mx policy) hs b3 = Inr bs"
    using assms by (auto simp: registration_create_buckets_with_cohorts_def normalize_registration_create_mx_cohorts_def Let_def
        hs_def b1_def base_def split: if_splits sum.splits)
  then obtain b2 b3 where b2: "append_aggregate_buckets b1 (registration_global_keys p) (cp_global policy) = Inr b2"
    and b3: "b3 = b2 \<or> append_aggregate_buckets b2 (registration_domain_keys p (cs_domain_hash s)) (cp_unfamiliar_domain policy) = Inr b3"
    and b4: "append_mx_buckets p (cp_unfamiliar_mx policy) hs b3 = Inr bs" by blast
  have "tagged p {''ip'', ''ne'', ''em'', ''pa'', ''ma''} (map fst b1)"
    by (auto simp: tagged_def b1_def base_def registration_create_buckets_def create_keys)
  moreover have "map fst b2 = map fst b1 \<or> map fst b2 = map fst b1 @ registration_global_keys p"
    using append_aggregate_keys b2 by (fastforce simp: create_keys)
  moreover have "tagged p {''gl''} (registration_global_keys p)" by (simp add: tagged_def create_keys)
  ultimately have "tagged p {''ip'', ''ne'', ''em'', ''pa'', ''ma'', ''gl''} (map fst b2)"
    using tagged_grow by (fastforce simp: insert_commute)
  moreover have "map fst b3 = map fst b2 \<or> map fst b3 = map fst b2 @ registration_domain_keys p (cs_domain_hash s)"
    using append_aggregate_keys b3 by (fastforce simp: create_keys)
  moreover have "tagged p {''do''} (registration_domain_keys p (cs_domain_hash s))" by (simp add: tagged_def create_keys)
  ultimately have "tagged p {''ip'', ''ne'', ''em'', ''pa'', ''ma'', ''gl'', ''do''} (map fst b3)"
    using tagged_grow by (fastforce simp: insert_commute)
  moreover have "map fst bs = map fst b3 \<or> map fst bs = map fst b3 @ concat (map (registration_mx_keys p) hs)"
    using append_mx_keys b4 by blast
  moreover have "tagged p {''mx''} (concat (map (registration_mx_keys p) hs))"
    using mx_keys_distinct(1) [OF hs, of p] mx_keys_distinct(2) [of _ p hs] by (fastforce simp: tagged_def)
  ultimately have "tagged p ({''ip'', ''ne'', ''em'', ''pa'', ''ma'', ''gl'', ''do''} \<union> {''mx''}) (map fst bs)"
    by (intro tagged_grow) auto
  then show ?thesis by (auto simp: tagged_def list_all_iff)
qed

lemma validated_chain:
  "validate_chain_buckets bs f = Inr g \<Longrightarrow> \<forall>(k, l)\<in>set bs. 0 < lm_max l \<and> 0 < dur_millis (lm_window l)"
  by (induction bs f rule: validate_chain_buckets.induct) (auto split: if_splits)

lemma map_fst_bucket_args [simp]: "map fst (bucket_args bs) = map fst bs"
  by (induction bs) (auto simp: bucket_args_def)

lemma chain_key_of [simp]: "chain_key p (registration_create_chain_key p h)"
  by (simp add: chain_key_def registration_create_chain_key_def build_key_def)

text \<open>What the chain and refund methods send is typed.\<close>

lemma chain_method_op:
  assumes "registration_create_buckets_with_cohorts p s policy = Inr bs" "validate_chain_buckets bs 0 = Inr g"
    and "0 < dur_millis ttl" "\<forall>(k, l)\<in>set bs. lm_max l \<le> max_int64"
  shows "op_typed (counter_key p) (chain_key p) (Chain (registration_create_chain_key p h) b (dur_millis ttl) (bucket_args bs))"
proof -
  have "counter_key p k \<and> l \<le> max_int64 \<and> 0 < w" if "(k, l, w) \<in> set (bucket_args bs)" for k l w
    using that create_buckets_keys [OF assms(1)] validated_chain [OF assms(2)] assms(4)
    by (fastforce simp: bucket_args_def list_all_iff)
  with create_buckets_keys [OF assms(1)] assms(3) show ?thesis by auto
qed

lemma refund_method_op:
  assumes "distinct (cs_mx_hashes s)"
  shows "op_typed (counter_key p) (chain_key p) (Refund (registration_create_chain_key p h) b (refund_keys p s))"
  using mx_keys_distinct(1) [OF assms, of p] mx_keys_distinct(2) [of _ p "cs_mx_hashes s"]
  by (fastforce simp: refund_keys_def create_keys list_all_iff)

text \<open>
  C14.  The keys of the limiter keep their types over every history of its scripts with any time
  between them, calls as the methods build them; and at every call of such a history a script
  replies with an error exactly when a live counter it increments unread would leave the 64 bits,
  and then with Redis's own, so the scripts over several buckets, the chain and the refund never
  reply with one of the errors they guard against.
\<close>

theorem rate_store_stays_typed:
  assumes "store_typed (counter_key p) (chain_key p) db"
    and "\<And>op. Run op \<in> set es \<Longrightarrow> op_typed (counter_key p) (chain_key p) op"
  shows "store_typed (counter_key p) (chain_key p) (snd (history es db))
    \<and> (\<forall>later op before e. es = later @ Run op # before \<longrightarrow>
        (fst (rl_exec op (snd (history before db))) = Inl e
           \<longleftrightarrow> e = RlInfra \<and> overflows op (snd (history before db))))"
  using limiter.history_typed [OF assms] limiter.history_errors [OF assms] by blast

theorem rate_store_stays_typed_witness:
  "store_typed (counter_key ''p:'') (chain_key ''p:'') (snd (history
     [Run (Refund ''p:rl:registration:create-chain:v5:intent:a'' ''b'' [''p:rl:registration:create:email:v2:e'']), Pass 5,
      Run (Chain ''p:rl:registration:create-chain:v5:intent:a'' ''b'' 1000 [(''p:rl:registration:create:email:v2:e'', 3, 1000)])]
     \<lparr>rl_ms = 0, rl_keys = Map.empty\<rparr>))"
proof -
  have "counter_key ''p:'' ''p:rl:registration:create:email:v2:e''" "chain_key ''p:'' ''p:rl:registration:create-chain:v5:intent:a''"
    by (simp_all add: counter_key_def chain_key_def counter_segments_def)
  then show ?thesis
    by (intro rate_store_stays_typed [THEN conjunct1]) (auto simp: store_typed_def max_int64_def)
qed

end
