(* ===== verification/RateProperties.thy ===== *)
theory RateProperties
  imports RateTypes
begin

text \<open>
  What the limiter promises its callers: a check over several buckets is the abstract one, a
  registration chain is charged once and replayed once, a refund happens once, a WeChat proof is
  used once, and the binding of a chain identifies its subject.
\<close>

section \<open>A check is all or nothing\<close>

definition count_at :: "rl_db \<Rightarrow> string \<Rightarrow> int" where
  "count_at db k = (case live_key db k of Some (Counter n, w) \<Rightarrow> n | _ \<Rightarrow> 0)"

text \<open>The abstract limiter: every bucket below its limit, and then every bucket one up.\<close>

definition admit_all :: "(string \<Rightarrow> int) \<Rightarrow> rate_bucket list \<Rightarrow> bool \<times> (string \<Rightarrow> int)" where
  "admit_all counts bs =
     (if list_all (\<lambda>(k, l). counts k < lm_max l) bs
      then (True, \<lambda>k. if k \<in> fst ` set bs then counts k + 1 else counts k) else (False, counts))"

lemma count_cong: "live_key d k = live_key db k \<Longrightarrow> count_at d k = count_at db k"
  by (simp add: count_at_def)

lemma count_charge:
  assumes "store_typed K M db" "K k" "charge k w db = (Inr n, d)" "0 < w"
  shows "count_at d k = count_at db k + 1" "k' \<noteq> k \<Longrightarrow> count_at d k' = count_at db k'"
proof -
  show "count_at d k' = count_at db k'" if "k' \<noteq> k"
    using that charge_other [OF assms(3)] charge_ms [OF assms(3)] by (intro count_cong live_cong) auto
  show "count_at d k = count_at db k + 1"
  proof (cases "live_key db k")
    case None
    with assms(3,4) show ?thesis by (auto simp: charge_def incr_def pexpire_def count_at_def)
  next
    case (Some x)
    from typed_live [OF assms(1,2) Some] obtain m t where "x = (Counter m, Some t)" "1 \<le> m" "rl_ms db \<le> t" by blast
    with Some assms(3) show ?thesis by (auto simp: charge_def incr_def count_at_def split: if_splits)
  qed
qed

lemma scan_exact:
  "store_typed K M db \<Longrightarrow> \<forall>(k, l, w)\<in>set bs. K k \<and> 0 < l \<Longrightarrow> \<exists>r. scan_buckets db bs a retry
     = Inr (a \<and> list_all (\<lambda>(k, l, w). count_at db k < l) bs, r)"
proof (induction bs arbitrary: a retry)
  case (Cons b bs)
  obtain k l w where b: "b = (k, l, w)" by (rule prod_cases3)
  show ?case
  proof (cases "live_key db k")
    case None
    with Cons b show ?thesis by (auto simp: count_at_def)
  next
    case (Some x)
    with typed_live [of K M db k x] Cons.prems b obtain n t where "x = (Counter n, Some t)" "1 \<le> n" "rl_ms db \<le> t" by auto
    moreover from this Some have "count_at db k = n" by (simp add: count_at_def)
    ultimately show ?thesis
      using Some Cons.IH [of a retry] Cons.IH [of False "max retry (t - rl_ms db)"] Cons.prems b by (auto simp: pttl_def)
  qed
qed simp

lemma charge_buckets_counts:
  assumes "store_typed (counter_key p) (chain_key p) db" "charge_buckets bs db = (Inr (), d)"
    and "\<forall>(k, l, w)\<in>set bs. counter_key p k \<and> 0 < w" "distinct (map fst bs)"
  shows "count_at d k = (if k \<in> fst ` set bs then count_at db k + 1 else count_at db k)"
  using assms
proof (induction bs db rule: charge_buckets.induct)
  case (2 k1 l w bs db)
  obtain r1 d1 where d1: "charge k1 w db = (r1, d1)" by (rule prod.exhaust)
  with 2(3) obtain n where n: "r1 = Inr n" "charge_buckets bs d1 = (Inr (), d)" by (cases r1) auto
  have k1: "counter_key p k1" "0 < w" using 2(4) by auto
  have "store_typed (counter_key p) (chain_key p) d1" by (rule limiter.charge_typed(1) [OF 2(2) k1 d1])
  from 2(1) [OF d1 [symmetric] n(1) this n(2)] 2(4,5)
  have "count_at d k = (if k \<in> fst ` set bs then count_at d1 k + 1 else count_at d1 k)" by auto
  with count_charge [OF 2(2) k1(1) d1 [unfolded n(1)] k1(2)] 2(5) show ?case by (cases "k = k1") auto
qed simp

lemma checked_buckets:
  "list_all (\<lambda>(k, l). k \<noteq> [] \<and> 0 < lm_max l \<and> 0 < lm_window l) bs \<Longrightarrow> \<exists>g. validate_buckets bs f = Inr g"
  by (induction bs f rule: validate_buckets.induct) auto

text \<open>
  C13.  A check over several buckets is one step of the abstract limiter: on a well-typed store it
  lets the request through exactly when every bucket is below its limit, then raises each of
  them by one, and otherwise raises none, so that a saturated bucket never uses up the others.
\<close>

theorem check_refines_abstract_limiter:
  assumes "store_typed (counter_key p) (chain_key p) db" and "bs \<noteq> []" and "distinct (map fst bs)"
    and "\<forall>(k, l)\<in>set bs. k \<noteq> [] \<and> counter_key p k \<and> 0 < lm_max l \<and> lm_max l \<le> max_int64 \<and> ns_per_ms \<le> lm_window l"
  shows "(fst (fst (check_buckets bs (db, []))), count_at (fst (snd (check_buckets bs (db, [])))))
      = admit_all (count_at db) bs \<and> snd (snd (fst (check_buckets bs (db, [])))) = None"
proof -
  have args: "\<forall>(k, l, w)\<in>set (bucket_args bs). counter_key p k \<and> 0 < l \<and> l \<le> max_int64 \<and> 0 < w"
    using assms(4) by (fastforce simp: bucket_args_def dur_millis_pos_iff)
  have keys: "fst ` set (bucket_args bs) = fst ` set bs" by (force simp: bucket_args_def image_iff)
  have valid: "list_all (\<lambda>(k, l). k \<noteq> [] \<and> 0 < lm_max l \<and> 0 < lm_window l) bs"
    using assms(4) by (fastforce simp: list_all_iff ns_per_ms_def)
  from checked_buckets [OF this] obtain f where f: "validate_buckets bs 0 = Inr f" by blast
  have below: "list_all (\<lambda>(k, l, w). count_at db k < l) (bucket_args bs) = list_all (\<lambda>(k, l). count_at db k < lm_max l) bs"
    by (auto simp: list_all_iff bucket_args_def)
  from scan_exact [OF assms(1), of "bucket_args bs" True 0] args obtain r where
    r: "scan_buckets db (bucket_args bs) True 0 = Inr (list_all (\<lambda>(k, l). count_at db k < lm_max l) bs, r)"
    using below by fastforce
  show ?thesis
  proof (cases "list_all (\<lambda>(k, l). count_at db k < lm_max l) bs")
    case False
    with r f assms(2) show ?thesis by (simp add: check_buckets_def multi_script_def admit_all_def)
  next
    case True
    obtain r1 d where d: "charge_buckets (bucket_args bs) db = (r1, d)" by (rule prod.exhaust)
    have "list_all (has_room db) (bucket_args bs)" using scan_allows [of db "bucket_args bs" True 0 r] r True by simp
    with limiter.charge_buckets_typed [OF assms(1) d] args assms(3) have "r1 = Inr ()" by fastforce
    with charge_buckets_counts [OF assms(1), of "bucket_args bs" d] d args assms(3) keys
    have "count_at d = (\<lambda>k. if k \<in> fst ` set bs then count_at db k + 1 else count_at db k)" by fastforce
    with r f d assms(2) True \<open>r1 = Inr ()\<close> show ?thesis
      by (simp add: check_buckets_def multi_script_def admit_all_def)
  qed
qed

definition demo_limits :: rl_db where
  "demo_limits = \<lparr>rl_ms = 10, rl_keys = [''rl:login:account:h'' \<mapsto> (Counter 2, Some 500)]\<rparr>"

theorem check_refines_abstract_limiter_witness:
  "(fst (fst (check_buckets [(''rl:login:account:h'', \<lparr>lm_max = 2, lm_window = 1000000000\<rparr>),
       (''rl:login:ip:i'', \<lparr>lm_max = 2, lm_window = 1000000000\<rparr>)] (demo_limits, []))),
     count_at (fst (snd (check_buckets [(''rl:login:account:h'', \<lparr>lm_max = 2, lm_window = 1000000000\<rparr>),
       (''rl:login:ip:i'', \<lparr>lm_max = 2, lm_window = 1000000000\<rparr>)] (demo_limits, [])))))
   = (False, count_at demo_limits)"
proof -
  have t: "store_typed (counter_key '''') (chain_key '''') demo_limits"
    by (auto simp: store_typed_def demo_limits_def chain_key_def)
  have k: "\<forall>(k, l)\<in>set [(''rl:login:account:h'', \<lparr>lm_max = 2, lm_window = 1000000000\<rparr>),
       (''rl:login:ip:i'', \<lparr>lm_max = 2, lm_window = 1000000000\<rparr>)]. k \<noteq> [] \<and> counter_key '''' k
      \<and> 0 < lm_max l \<and> lm_max l \<le> max_int64 \<and> ns_per_ms \<le> lm_window l"
    by (simp add: counter_key_def counter_segments_def max_int64_def ns_per_ms_def)
  have "\<not> count_at demo_limits ''rl:login:account:h'' < 2"
    by (simp add: count_at_def demo_limits_def live_key_def)
  with check_refines_abstract_limiter [OF t _ _ k] show ?thesis by (simp add: admit_all_def)
qed

section \<open>Registration chains\<close>

text \<open>The operation uses \<open>mk\<close> as the marker of a chain or not at all.\<close>

definition marker_only :: "string \<Rightarrow> rl_op \<Rightarrow> bool" where
  "marker_only mk op = (case op of
     Chain mk' b ttl bs \<Rightarrow> mk \<notin> fst ` set bs
   | Refund mk' b ks \<Rightarrow> mk \<notin> set ks
   | _ \<Rightarrow> mk \<notin> fst ` set (buckets_of op) \<and> mk \<notin> set (other_keys op))"

definition uses_marker :: "string \<Rightarrow> rl_op \<Rightarrow> bool" where
  "uses_marker mk op = (case op of Chain mk' b ttl bs \<Rightarrow> mk' = mk | Refund mk' b ks \<Rightarrow> mk' = mk | _ \<Rightarrow> False)"

lemma marker_untouched:
  "marker_only mk op \<Longrightarrow> \<not> uses_marker mk op \<Longrightarrow> rl_keys (snd (rl_exec op db)) mk = rl_keys db mk"
  by (rule rl_exec_other) (auto simp: marker_only_def uses_marker_def split: rl_op.splits)

lemma history_ms_le: "rl_ms db \<le> rl_ms (snd (history es db))"
proof (induction es)
  case (Cons e es)
  then show ?case using rl_exec_ms by (cases e) (auto split: prod.split)
qed simp

text \<open>The marker of \<open>mk\<close> until \<open>T\<close>: bound to \<open>b\<close>, used once, or a second time when \<open>replayed\<close>.\<close>

definition chained :: "string \<Rightarrow> string \<Rightarrow> int \<Rightarrow> bool \<Rightarrow> rl_db \<Rightarrow> bool" where
  "chained mk b T replayed db \<longleftrightarrow> (\<exists>m. rl_keys db mk = Some (Marker m, Some T) \<and> cm_binding m = Some b
     \<and> cm_uses m = Some (if replayed then ''2'' else ''1''))"

lemma chained_cong: "rl_keys d mk = rl_keys db mk \<Longrightarrow> chained mk b T r d = chained mk b T r db"
  by (simp add: chained_def)

lemma live_unexpired: "live_key db k = Some (v, w) \<Longrightarrow> unexpired (rl_ms db) w"
  by (auto simp: live_key_def split: option.splits if_splits)

lemma chained_starts:
  assumes "create_chain_script mk b ttl bs db = (Inr (1, x), db1)" "0 < ttl" "mk \<notin> fst ` set bs"
  shows "chained mk b (rl_ms db + ttl) False db1"
proof -
  obtain m where m: "marker_at db mk = Inr m" "cm_binding m = None"
    using assms(1) by (auto simp: create_chain_script_def Let_def split: sum.splits option.splits if_splits)
  with assms(1) obtain y d where d: "charge_buckets bs db = (Inr (), d)"
    "db1 = pexpire mk ttl (set_marker mk (\<lambda>m. m\<lparr>cm_binding := Some b, cm_uses := Some ''1''\<rparr>) d)"
    by (auto simp: create_chain_script_def Let_def split: sum.splits if_splits prod.splits)
  have "rl_ms d = rl_ms db" by (rule charge_buckets_ms [OF d(1)])
  with d(2) assms(2) show ?thesis
    by (auto simp: chained_def set_marker_def pexpire_def split: option.splits rl_value.splits dest: live_unexpired)
qed

lemma chained_chain:
  assumes "chained mk b T rep db" "rl_ms db \<le> T"
  shows "\<exists>y. fst (create_chain_script mk b' ttl bs db) = Inr (if b' \<noteq> b then - 1 else if rep then - 2 else 2, y)"
    "chained mk b T (rep \<or> b' = b) (snd (create_chain_script mk b' ttl bs db))"
  using assms by (auto simp: chained_def create_chain_script_def marker_at_def live_key_def set_marker_def Let_def)

lemma chained_refund:
  assumes "chained mk b T rep db" "rl_ms db \<le> T" "mk \<notin> set ks"
  shows "chained mk b T rep (snd (refund_script mk b' ks db))"
proof -
  let ?sm = "set_marker mk (cm_refunded_update (\<lambda>_. Some ''1'')) db"
  have "chained mk b T rep ?sm"
    using assms(1,2) by (auto simp: chained_def set_marker_def live_key_def)
  moreover have "rl_keys (snd (refund_script mk b' ks db)) mk = rl_keys db mk
      \<or> rl_keys (snd (refund_script mk b' ks db)) mk = rl_keys ?sm mk"
    using assms(3) refund_counts_other [of ks _ 0 ?sm mk] by (auto simp: refund_script_def split: sum.split)
  ultimately show ?thesis using assms(1) chained_cong by metis
qed

definition replays :: "string \<Rightarrow> (int \<times> rl_op \<times> (rl_error + int \<times> int)) list \<Rightarrow> nat" where
  "replays mk log = length (filter (\<lambda>(t, op, r). (\<exists>b ttl bs. op = Chain mk b ttl bs) \<and> (\<exists>y. r = Inr (2, y))) log)"

text \<open>
  C15.  A registration form intent pays once and is replayed once: after its chain was charged,
  and for as long as its marker lives, no request under the same intent is charged again, a
  request with another binding is refused, at most one request with the same binding goes
  through for free, and every further one is refused, whatever other requests, refunds and
  delays come in between.
\<close>

theorem registration_chain_charged_once:
  assumes "create_chain_script mk b ttl bs db = (Inr (1, x), db1)" and "0 < ttl" and "mk \<notin> fst ` set bs"
    and "\<And>op. Run op \<in> set es \<Longrightarrow> marker_only mk op" and "rl_ms (snd (history es db1)) \<le> rl_ms db + ttl"
  shows "(\<forall>t b' ttl' bs' r. (t, Chain mk b' ttl' bs', r) \<in> set (fst (history es db1)) \<longrightarrow>
      (\<exists>y. r = Inr (- 1, y) \<and> b' \<noteq> b \<or> r = Inr (2, y) \<and> b' = b \<or> r = Inr (- 2, y) \<and> b' = b))
    \<and> replays mk (fst (history es db1)) \<le> 1"
proof -
  let ?T = "rl_ms db + ttl"
  have "\<exists>rep. chained mk b ?T rep (snd (history es db1)) \<and> replays mk (fst (history es db1)) = of_bool rep
    \<and> (\<forall>t b' ttl' bs' r. (t, Chain mk b' ttl' bs', r) \<in> set (fst (history es db1)) \<longrightarrow>
      (\<exists>y. r = Inr (- 1, y) \<and> b' \<noteq> b \<or> r = Inr (2, y) \<and> b' = b \<or> r = Inr (- 2, y) \<and> b' = b))"
    using assms(4,5)
  proof (induction es)
    case Nil
    show ?case using chained_starts [OF assms(1-3)] by (auto simp: replays_def intro: exI [of _ False])
  next
    case (Cons e es)
    obtain log d where h: "history es db1 = (log, d)" by (rule prod.exhaust)
    have ms: "rl_ms d \<le> ?T" using Cons.prems(2) h rl_exec_ms by (cases e) auto
    with Cons h obtain rep where IH: "chained mk b ?T rep d" "replays mk log = of_bool rep"
      "\<forall>t b' ttl' bs' r. (t, Chain mk b' ttl' bs', r) \<in> set log \<longrightarrow>
        (\<exists>y. r = Inr (- 1, y) \<and> b' \<noteq> b \<or> r = Inr (2, y) \<and> b' = b \<or> r = Inr (- 2, y) \<and> b' = b)" by auto
    show ?case
    proof (cases e)
      case (Pass k)
      with IH h show ?thesis by (intro exI [of _ rep]) (simp add: chained_def)
    next
      case (Run op)
      then have mo: "marker_only mk op" using Cons.prems(1) by simp
      show ?thesis
      proof (cases "\<exists>b' ttl' bs'. op = Chain mk b' ttl' bs'")
        case True
        then obtain b' ttl' bs' where op: "op = Chain mk b' ttl' bs'" by blast
        from chained_chain(1) [OF IH(1) ms, of b' ttl' bs'] obtain y where
          y: "fst (create_chain_script mk b' ttl' bs' d) = Inr (if b' \<noteq> b then - 1 else if rep then - 2 else 2, y)" by blast
        with chained_chain(2) [OF IH(1) ms, of b' ttl' bs'] IH(2,3) Run h op show ?thesis
          by (intro exI [of _ "rep \<or> b' = b"]) (auto simp: replays_def split: if_splits)
      next
        case False
        have "chained mk b ?T rep (snd (rl_exec op d))"
        proof (cases "uses_marker mk op")
          case True
          with False obtain b' ks where "op = Refund mk b' ks" by (auto simp: uses_marker_def split: rl_op.splits)
          with chained_refund [OF IH(1) ms] mo show ?thesis by (simp add: marker_only_def)
        next
          case False
          with marker_untouched [OF mo] IH(1) show ?thesis by (simp add: chained_def)
        qed
        with IH(2,3) Run h False show ?thesis
          by (intro exI [of _ rep]) (auto simp: replays_def)
      qed
    qed
  qed
  then show ?thesis by auto
qed

definition demo_buckets :: script_buckets where
  "demo_buckets = [(''e'', 3, 1000)]"

definition demo_charged :: rl_db where
  "demo_charged = \<lparr>rl_ms = 0, rl_keys = [''e'' \<mapsto> (Counter 1, Some 1000), ''m'' \<mapsto> (Marker \<lparr>cm_binding = Some ''b'',
     cm_uses = Some ''1'', cm_refunded = None\<rparr>, Some 600)]\<rparr>"

lemma demo_chain: "create_chain_script ''m'' ''b'' 600 demo_buckets \<lparr>rl_ms = 0, rl_keys = Map.empty\<rparr> = (Inr (1, 0), demo_charged)"
  by (simp add: create_chain_script_def marker_at_def no_marker_def live_key_def demo_buckets_def charge_def incr_def
      put_key_def pexpire_def set_marker_def demo_charged_def pttl_def fun_upd_twist)

theorem registration_chain_charged_once_witness:
  "replays ''m'' (fst (history [Run (Chain ''m'' ''b'' 600 demo_buckets), Run (Chain ''m'' ''c'' 600 demo_buckets),
     Pass 5, Run (Chain ''m'' ''b'' 600 demo_buckets)] demo_charged)) \<le> 1"
proof -
  let ?es = "[Run (Chain ''m'' ''b'' 600 demo_buckets), Run (Chain ''m'' ''c'' 600 demo_buckets),
     Pass 5, Run (Chain ''m'' ''b'' 600 demo_buckets)]"
  have "rl_ms (snd (history ?es demo_charged)) \<le> rl_ms \<lparr>rl_ms = 0, rl_keys = Map.empty\<rparr> + 600"
    by (simp del: rl_exec.simps split: prod.split) (simp add: demo_charged_def)
  note once = registration_chain_charged_once [OF demo_chain _ _ _ this]
  show ?thesis
    by (rule once [THEN conjunct2]) (auto simp: demo_buckets_def marker_only_def)
qed

section \<open>Refunds\<close>

lemma count_put [simp]: "count_at (put_key k (Counter n, w) db) k' = (if k' = k then (if unexpired (rl_ms db) w then n else 0) else count_at db k')"
  by (simp add: count_at_def)

lemma count_drop [simp]: "count_at (drop_key k db) k' = (if k' = k then 0 else count_at db k')"
  by (simp add: count_at_def)

lemma refundable_counts:
  "store_typed K M db \<Longrightarrow> list_all K ks \<Longrightarrow> refundable db ks = Inr (map (count_at db) ks)"
proof (induction ks)
  case (Cons k ks)
  show ?case
  proof (cases "live_key db k")
    case None
    with Cons show ?thesis by (simp add: count_at_def)
  next
    case (Some x)
    with typed_live [of K M db k x] Cons.prems obtain n t where "x = (Counter n, Some t)" "1 \<le> n" "rl_ms db \<le> t" by auto
    with Some Cons show ?thesis by (simp add: pttl_def) (simp add: count_at_def)
  qed
qed simp

lemma refund_counts_counts:
  assumes "store_typed (counter_key p) (chain_key p) db" "list_all (counter_key p) ks" "distinct ks"
  shows "count_at (snd (refund_counts ks (map (count_at db) ks) ch db)) k
      = count_at db k - of_bool (k \<in> set ks \<and> 0 < count_at db k)"
  using assms
proof (induction ks arbitrary: db ch)
  case (Cons k1 ks)
  have step: "count_at (snd (refund_counts ks (map (count_at db) ks) ch' d)) k
      = count_at db k - of_bool (k \<in> set (k1 # ks) \<and> 0 < count_at db k)"
    if d: "store_typed (counter_key p) (chain_key p) d" "\<And>k'. k' \<noteq> k1 \<Longrightarrow> count_at d k' = count_at db k'"
      "count_at d k1 = count_at db k1 - of_bool (0 < count_at db k1)" for ch' d
  proof -
    have m: "map (count_at d) ks = map (count_at db) ks" using Cons.prems(3) by (auto intro!: d(2))
    have "count_at (snd (refund_counts ks (map (count_at db) ks) ch' d)) k = count_at d k - of_bool (k \<in> set ks \<and> 0 < count_at d k)"
      using Cons.IH [OF d(1), of ch', unfolded m] Cons.prems(2,3) by simp
    with Cons.prems(3) d(2) [of k] d(3) show ?thesis by (cases "k = k1") simp_all
  qed
  show ?case
  proof (cases "live_key db k1")
    case None
    then have "count_at db k1 = 0" by (simp add: count_at_def)
    with step [OF Cons.prems(1)] show ?thesis by simp
  next
    case (Some x)
    from typed_live [OF Cons.prems(1) _ Some] Cons.prems(2) obtain n t where
      x: "x = (Counter n, Some t)" "1 \<le> n" "rl_ms db \<le> t" by auto
    with Some have n: "count_at db k1 = n" by (simp add: count_at_def)
    have k1: "counter_key p k1" "\<not> chain_key p k1" using Cons.prems(2) limiter.apart by auto
    show ?thesis
    proof (cases "n = 1")
      case True
      with step [OF typed_drop [OF Cons.prems(1)], of k1] n show ?thesis by simp
    next
      case False
      have "store_typed (counter_key p) (chain_key p) (put_key k1 (Counter (n - 1), Some t) db)"
        using k1 x(2) False by (intro typed_put [OF Cons.prems(1)]) auto
      with step [OF this] n x False Some show ?thesis by (simp add: decr_def max_int64_def)
    qed
  qed
qed simp

definition refunding :: "rl_db \<Rightarrow> string \<Rightarrow> string \<Rightarrow> bool" where
  "refunding db mk b \<longleftrightarrow> (\<exists>m. marker_at db mk = Inr m \<and> cm_binding m = Some b \<and> cm_refunded m \<noteq> Some ''1'')"

text \<open>A marker that is gone or has had its refund.\<close>

definition refund_done :: "string \<Rightarrow> rl_db \<Rightarrow> bool" where
  "refund_done mk db \<longleftrightarrow> (case live_key db mk of None \<Rightarrow> True
     | Some (Marker m, w) \<Rightarrow> cm_refunded m = Some ''1'' \<and> cm_binding m \<noteq> None | Some _ \<Rightarrow> False)"

lemma refund_done_reply: "refund_done mk db \<Longrightarrow> refund_script mk b ks db = (Inr 0, db)"
  by (auto simp: refund_done_def refund_script_def marker_at_def no_marker_def split: option.splits rl_value.splits)

lemma refund_done_cong: "live_key d mk = live_key db mk \<Longrightarrow> refund_done mk d = refund_done mk db"
  by (simp add: refund_done_def)

lemma refund_done_chain:
  assumes "refund_done mk db" "mk \<notin> fst ` set bs" "\<nexists>y. fst (create_chain_script mk b ttl bs db) = Inr (1, y)"
  shows "refund_done mk (snd (create_chain_script mk b ttl bs db))"
proof (cases "live_key db mk")
  case None
  obtain r d where d: "charge_buckets bs db = (r, d)" by (rule prod.exhaust)
  have "live_key d mk = live_key db mk"
    using charge_buckets_other [OF d assms(2)] charge_buckets_ms [OF d] by (rule live_cong)
  with None d assms show ?thesis
    by (auto simp: create_chain_script_def marker_at_def no_marker_def Let_def refund_done_def split: sum.splits prod.splits)
next
  case (Some x)
  with assms(1) obtain m w where "live_key db mk = Some (Marker m, w)" "cm_refunded m = Some ''1''" "cm_binding m \<noteq> None"
    by (auto simp: refund_done_def split: prod.splits rl_value.splits)
  then show ?thesis
    by (auto simp: create_chain_script_def marker_at_def Let_def set_marker_def refund_done_def split: option.splits)
qed

lemma refund_done_pass: "refund_done mk db \<Longrightarrow> refund_done mk (db\<lparr>rl_ms := rl_ms db + int k\<rparr>)"
  by (auto simp: refund_done_def live_key_def unexpired_def split: option.splits rl_value.splits if_splits)

text \<open>
  C16.  A conflict refunds a chain at most once and exactly: on a well-typed store a refund takes
  one from each of its counters that is above zero when the marker carries the binding and has
  had no refund, and nothing otherwise; and after a refund no other one under that marker
  changes anything until the chain is charged anew.
\<close>

theorem refund_exact_and_once:
  assumes "store_typed (counter_key p) (chain_key p) db" and "op_typed (counter_key p) (chain_key p) (Refund mk b ks)"
    and "refund_script mk b ks db = (Inr n, db1)"
    and "\<And>op. Run op \<in> set es \<Longrightarrow> marker_only mk op"
    and "\<nexists>t b' ttl bs y. (t, Chain mk b' ttl bs, Inr (1, y)) \<in> set (fst (history es db1))"
  shows "(\<forall>k. count_at db1 k = count_at db k - of_bool (refunding db mk b \<and> k \<in> set ks \<and> 0 < count_at db k))
    \<and> (refunding db mk b \<longrightarrow> refund_script mk b' ks' (snd (history es db1)) = (Inr 0, snd (history es db1)))"
proof (intro conjI allI impI)
  from assms(2) have mk: "chain_key p mk" and ks: "list_all (counter_key p) ks" "distinct ks" by auto
  obtain m where m: "marker_at db mk = Inr m"
    using limiter.marker_typed [OF assms(1) mk] by blast
  let ?d = "set_marker mk (cm_refunded_update (\<lambda>_. Some ''1'')) db"
  have d1: "db1 = (if refunding db mk b then snd (refund_counts ks (map (count_at db) ks) 0 ?d) else db)"
    using assms(3) m refundable_counts [OF assms(1) ks(1)]
    by (auto simp: refund_script_def refunding_def split: if_splits dest: sym)
  have live: "live_key db mk \<noteq> None" if "refunding db mk b"
    using that by (auto simp: refunding_def marker_at_def no_marker_def split: option.splits)
  have notin: "mk \<notin> set ks" using ks(1) mk limiter.apart by (auto simp: list_all_iff)
  have each: "count_at ?d k = count_at db k" for k
  proof (cases "k = mk")
    case True
    with m show ?thesis by (auto simp: count_at_def marker_at_def set_marker_def split: option.splits rl_value.splits)
  next
    case False
    then show ?thesis by (intro count_cong live_cong) simp_all
  qed
  then have counts: "count_at ?d = count_at db" by blast
  show "count_at db1 k = count_at db k - of_bool (refunding db mk b \<and> k \<in> set ks \<and> 0 < count_at db k)" for k
  proof (cases "refunding db mk b")
    case True
    have "store_typed (counter_key p) (chain_key p) ?d"
      using live [OF True] by (intro limiter.set_marker_typed [OF assms(1) mk]) auto
    from refund_counts_counts [OF this ks, of 0 k] d1 True show ?thesis by (simp add: counts)
  qed (use d1 in simp)
  assume r: "refunding db mk b"
  have "refund_done mk db1"
  proof -
    have "rl_keys db1 mk = rl_keys ?d mk" "rl_ms db1 = rl_ms ?d"
      using d1 r refund_counts_other [of ks "map (count_at db) ks" 0 ?d mk] notin by simp_all
    then have "live_key db1 mk = live_key ?d mk" by (rule live_cong)
    moreover have "refund_done mk ?d"
      using live [OF r] m r live_unexpired [of db mk]
      by (auto simp: refund_done_def set_marker_def marker_at_def refunding_def split: option.splits rl_value.splits)
    ultimately show ?thesis by (simp add: refund_done_def)
  qed
  then have "refund_done mk (snd (history es db1))"
    using assms(4,5)
  proof (induction es)
    case (Cons e es)
    obtain log d where h: "history es db1 = (log, d)" by (rule prod.exhaust)
    have IH: "refund_done mk d" using Cons h by (cases e) auto
    show ?case
    proof (cases e)
      case (Pass k)
      with refund_done_pass [OF IH] h show ?thesis by simp
    next
      case (Run op)
      then have mo: "marker_only mk op" using Cons.prems(2) by simp
      have "refund_done mk (snd (rl_exec op d))"
      proof (cases "uses_marker mk op")
        case True
        then consider b' ttl bs where "op = Chain mk b' ttl bs" | b' ks' where "op = Refund mk b' ks'"
          by (auto simp: uses_marker_def split: rl_op.splits)
        then show ?thesis
        proof cases
          case 1
          then have "\<nexists>y. fst (create_chain_script mk b' ttl bs d) = Inr (1, y)" using Cons.prems(3) Run h by fastforce
          with refund_done_chain [OF IH, of bs b' ttl] mo 1 show ?thesis by (simp add: marker_only_def)
        next
          case 2
          with refund_done_reply [OF IH] IH show ?thesis by simp
        qed
      next
        case False
        with marker_untouched [OF mo] have "live_key (snd (rl_exec op d)) mk = live_key d mk" by (intro live_cong) simp_all
        with IH show ?thesis by (simp add: refund_done_def)
      qed
      with Run h show ?thesis by simp
    qed
  qed simp
  from refund_done_reply [OF this] show "refund_script mk b' ks' (snd (history es db1)) = (Inr 0, snd (history es db1))" .
qed

theorem refund_exact_and_once_witness:
  "refund_script ''rl:registration:create-chain:v5:m'' ''b'' []
     (snd (refund_script ''rl:registration:create-chain:v5:m'' ''b'' [''rl:registration:create:e'']
       \<lparr>rl_ms = 0, rl_keys = [''rl:registration:create:e'' \<mapsto> (Counter 2, Some 1000),
          ''rl:registration:create-chain:v5:m'' \<mapsto> (Marker \<lparr>cm_binding = Some ''b'', cm_uses = Some ''1'', cm_refunded = None\<rparr>, Some 600)]\<rparr>))
   = (Inr 0, snd (refund_script ''rl:registration:create-chain:v5:m'' ''b'' [''rl:registration:create:e'']
       \<lparr>rl_ms = 0, rl_keys = [''rl:registration:create:e'' \<mapsto> (Counter 2, Some 1000),
          ''rl:registration:create-chain:v5:m'' \<mapsto> (Marker \<lparr>cm_binding = Some ''b'', cm_uses = Some ''1'', cm_refunded = None\<rparr>, Some 600)]\<rparr>))"
  (is "refund_script ?mk ?b [] (snd (refund_script ?mk ?b [?e] ?db)) = _")
proof -
  have keys: "counter_key '''' ?e" "chain_key '''' ?mk" by (simp_all add: counter_key_def chain_key_def counter_segments_def)
  then have t: "store_typed (counter_key '''') (chain_key '''') ?db"
    using limiter.apart [of "''''" ?e] limiter.apart [of "''''" ?mk] by (auto simp: store_typed_def)
  have op: "op_typed (counter_key '''') (chain_key '''') (Refund ?mk ?b [?e])" using keys by simp
  have "\<exists>n. fst (refund_script ?mk ?b [?e] ?db) = Inr n" using limiter.refund_typed [OF t op] by blast
  then obtain n where r: "refund_script ?mk ?b [?e] ?db = (Inr n, snd (refund_script ?mk ?b [?e] ?db))"
    by (metis prod.collapse)
  have "refunding ?db ?mk ?b" by (simp add: refunding_def marker_at_def live_key_def)
  with refund_exact_and_once [OF t op r, where es = "[]" and ks' = "[]" and b' = ?b] show ?thesis by simp
qed

end
