(* ===== verification/RateProofs.thy ===== *)
theory RateProofs
  imports RateProperties
begin

text \<open>
  Proofs and bindings: a WeChat code proof is used once, across registration and both login
  checks, and the binding of a registration chain tells its subjects apart.
\<close>

section \<open>One-time proofs\<close>

text \<open>The operation uses \<open>k\<close> as a one-time proof or not at all.\<close>

definition proof_only :: "string \<Rightarrow> rl_op \<Rightarrow> bool" where
  "proof_only k op = (case op of
     Multi bs \<Rightarrow> (\<forall>l w. (k, l, w) \<in> set bs \<longrightarrow> l \<le> 1)
   | Proofs ip lk pk l w \<Rightarrow> ip \<noteq> k
   | _ \<Rightarrow> k \<notin> fst ` set (buckets_of op) \<and> k \<notin> set (other_keys op))"

definition used_until :: "string \<Rightarrow> int \<Rightarrow> rl_db \<Rightarrow> bool" where
  "used_until k T db \<longleftrightarrow> (\<exists>n. rl_keys db k = Some (Counter n, Some T) \<and> 1 \<le> n)"

lemma used_scan:
  assumes "used_until k T db" "rl_ms db \<le> T" "(k, l, w) \<in> set bs" "l \<le> 1"
  shows "\<nexists>x. scan_buckets db bs a retry = Inr (True, x)"
proof
  assume "\<exists>x. scan_buckets db bs a retry = Inr (True, x)"
  then have "has_room db (k, l, w)" using scan_allows assms(3) by (fastforce simp: list_all_iff)
  with assms(1,2,4) show False by (auto simp: has_room_def used_until_def live_key_def)
qed

lemma used_step:
  assumes "used_until k T db" "rl_ms db \<le> T" "proof_only k op"
  shows "used_until k T (snd (rl_exec op db))"
proof (cases "k \<in> fst ` set (buckets_of op) \<or> k \<in> set (other_keys op)")
  case False
  with rl_exec_other [of k op db] assms(1) show ?thesis by (simp add: used_until_def)
next
  case True
  with assms(3) consider bs l w where "op = Multi bs" "(k, l, w) \<in> set bs" "l \<le> 1"
    | ip lk pk l w where "op = Proofs ip lk pk l w" "ip \<noteq> k" "k = lk \<or> k = pk"
    by (auto simp: proof_only_def split: rl_op.splits)
  then show ?thesis
  proof cases
    case 1
    with used_scan [OF assms(1,2) 1(2,3), of True 0] assms(1) show ?thesis
      by (auto simp: multi_script_def split: sum.split)
  next
    case 2
    obtain r d where d: "charge ip w db = (r, d)" by (rule prod.exhaust)
    have k: "rl_keys d k = rl_keys db k" "rl_ms d = rl_ms db" using charge_other [OF d] charge_ms [OF d] 2(2) by auto
    with assms(1,2) have "live_key d k \<noteq> None" by (auto simp: used_until_def live_key_def)
    with 2 d k(1) assms(1) show ?thesis
      by (auto simp: claim_proofs_script_def Let_def used_until_def split: sum.split)
  qed
qed

lemma used_history:
  assumes "used_until k T db" "\<And>op. Run op \<in> set es \<Longrightarrow> proof_only k op" "rl_ms (snd (history es db)) \<le> T"
  shows "used_until k T (snd (history es db))"
  using assms(2,3)
proof (induction es)
  case (Cons e es)
  obtain log d where h: "history es db = (log, d)" by (rule prod.exhaust)
  have ms: "rl_ms d \<le> T" using Cons.prems(2) h rl_exec_ms by (cases e) auto
  with Cons h have IH: "used_until k T d" by simp
  show ?case
  proof (cases e)
    case (Run op)
    with used_step [OF IH ms] Cons.prems(1) h show ?thesis by simp
  next
    case (Pass n)
    with IH h show ?thesis by (simp add: used_until_def)
  qed
qed (simp add: assms(1))

lemma verdict_of_multi:
  assumes "\<nexists>x. scan_buckets db (bucket_args bs) True 0 = Inr (True, x)"
  shows "\<not> fst (fst (check_buckets bs (db, fs)))"
proof -
  from assms have "\<nexists>x. fst (multi_script (bucket_args bs) db) = Inr (1, x)"
    by (auto simp: multi_script_def split: sum.split)
  moreover obtain r c where r: "io_call RlInfra (multi_script (bucket_args bs)) (db, fs) = (r, c)" by (rule prod.exhaust)
  ultimately have "\<nexists>x. r = Inr (1, x)" using io_call_ok by fastforce
  with r show ?thesis by (auto simp: check_buckets_def split: sum.split)
qed

lemma used_login:
  assumes "used_until (build_key p [seg, ''proof:'', h]) T db" "rl_ms db \<le> T"
  shows "\<not> fst (fst (check_wechat_proof p seg ip h l w (db, fs)))"
proof -
  have "(build_key p [seg, ''proof:'', h], 1, dur_millis w) \<in> set (bucket_args
      [(build_key p [seg, ''ip:'', ip], \<lparr>lm_max = l, lm_window = w\<rparr>), (build_key p [seg, ''proof:'', h], \<lparr>lm_max = 1, lm_window = w\<rparr>)])"
    by (simp add: bucket_args_def)
  from verdict_of_multi [OF used_scan [OF assms this]] show ?thesis by (simp add: check_wechat_proof_def)
qed

lemma used_claim:
  assumes "used_until k T db" "rl_ms db \<le> T" "k = lk \<or> k = pk" "ip \<noteq> k"
  shows "\<nexists>x. fst (claim_proofs_script ip lk pk l w db) = Inr (1, x)"
proof -
  obtain r d where d: "charge ip w db = (r, d)" by (rule prod.exhaust)
  have "rl_keys d k = rl_keys db k" "rl_ms d = rl_ms db" using charge_other [OF d] charge_ms [OF d] assms(4) by auto
  with assms(1,2) have "live_key d k \<noteq> None" by (auto simp: used_until_def live_key_def)
  with d assms(3) show ?thesis by (auto simp: claim_proofs_script_def Let_def split: sum.split)
qed

lemma proof_keys_apart:
  "build_key p [''rl:wechat:registration-proof:'', ''ip:'', ip] \<noteq> build_key p [''rl:wechat:login:'', ''proof:'', h]"
  "build_key p [''rl:wechat:registration-proof:'', ''ip:'', ip] \<noteq> build_key p [''rl:wechat:phone:'', ''proof:'', h]"
  "build_key p [''rl:wechat:login:'', ''proof:'', h'] \<noteq> build_key p [''rl:wechat:phone:'', ''proof:'', h]"
  by (simp_all add: build_key_def)

lemma claimed_proofs:
  assumes "claim_wechat_registration_proofs p ip login phone l w c = ((True, r, e), c1)"
  shows "used_until (build_key p [''rl:wechat:login:'', ''proof:'', login]) (rl_ms (fst c) + dur_millis w) (fst c1)"
    "used_until (build_key p [''rl:wechat:phone:'', ''proof:'', phone]) (rl_ms (fst c) + dur_millis w) (fst c1)"
proof -
  let ?f = "claim_proofs_script (build_key p [''rl:wechat:registration-proof:'', ''ip:'', ip])
    (build_key p [''rl:wechat:login:'', ''proof:'', login]) (build_key p [''rl:wechat:phone:'', ''proof:'', phone]) l (dur_millis w)"
  from assms obtain y where "io_call RlInfra ?f c = (Inr (1, y), c1)"
    by (auto simp: claim_wechat_registration_proofs_def wechat_registration_proof_keys_def split: if_splits prod.splits sum.splits)
  then have "?f (fst c) = (Inr (1, y), fst c1)" by (rule io_call_ok)
  then have f: "fst (?f (fst c)) = Inr (1, y)" "fst c1 = snd (?f (fst c))" by simp_all
  obtain r d where d: "charge (build_key p [''rl:wechat:registration-proof:'', ''ip:'', ip]) (dur_millis w) (fst c) = (r, d)"
    by (rule prod.exhaust)
  with f(1) have "snd (?f (fst c)) = put_key (build_key p [''rl:wechat:phone:'', ''proof:'', phone]) (Counter 1, Some (rl_ms d + dur_millis w))
      (put_key (build_key p [''rl:wechat:login:'', ''proof:'', login]) (Counter 1, Some (rl_ms d + dur_millis w)) d)"
    by (auto simp: claim_proofs_script_def Let_def split: sum.splits if_splits)
  with f(2) charge_ms [OF d] proof_keys_apart(3) [of p login phone]
  show "used_until (build_key p [''rl:wechat:login:'', ''proof:'', login]) (rl_ms (fst c) + dur_millis w) (fst c1)"
    "used_until (build_key p [''rl:wechat:phone:'', ''proof:'', phone]) (rl_ms (fst c) + dur_millis w) (fst c1)"
    by (auto simp: used_until_def)
qed

lemma claim_refused:
  assumes "used_until k T db" "rl_ms db \<le> T"
    and "k = build_key p [''rl:wechat:login:'', ''proof:'', login] \<or> k = build_key p [''rl:wechat:phone:'', ''proof:'', phone]"
  shows "\<not> fst (fst (claim_wechat_registration_proofs p ip login phone l w (db, fs)))"
proof -
  let ?f = "claim_proofs_script (build_key p [''rl:wechat:registration-proof:'', ''ip:'', ip])
    (build_key p [''rl:wechat:login:'', ''proof:'', login]) (build_key p [''rl:wechat:phone:'', ''proof:'', phone]) l (dur_millis w)"
  have "\<nexists>x. fst (?f db) = Inr (1, x)"
    using used_claim [OF assms] assms(3) proof_keys_apart(1,2) by blast
  moreover obtain r c where r: "io_call RlInfra ?f (db, fs) = (r, c)" by (rule prod.exhaust)
  ultimately have "\<nexists>x. r = Inr (1, x)" using io_call_ok by fastforce
  with r show ?thesis
    by (auto simp: claim_wechat_registration_proofs_def wechat_registration_proof_keys_def split: sum.split)
qed

text \<open>
  C17.  The proofs of a WeChat registration are used once: after a registration claimed its login
  and phone code, for the whole window neither code passes a login check, a phone check or
  another registration, from whatever address and together with whatever other code, and
  whatever requests, faults and delays come in between.
\<close>

theorem wechat_proofs_single_use:
  assumes "claim_wechat_registration_proofs p ip login phone l w c = ((True, r, e), c1)"
    and "\<And>op k. Run op \<in> set es \<Longrightarrow> k \<in> {build_key p [''rl:wechat:login:'', ''proof:'', login],
           build_key p [''rl:wechat:phone:'', ''proof:'', phone]} \<Longrightarrow> proof_only k op"
    and "rl_ms (snd (history es (fst c1))) \<le> rl_ms (fst c) + dur_millis w"
    and "c2 = (snd (history es (fst c1)), fs)"
  shows "\<not> fst (fst (check_wechat_login p ip' login l' w' c2)) \<and> \<not> fst (fst (check_wechat_phone p ip' phone l' w' c2))
    \<and> \<not> fst (fst (claim_wechat_registration_proofs p ip' login phone' l' w' c2))
    \<and> \<not> fst (fst (claim_wechat_registration_proofs p ip' login' phone l' w' c2))"
proof -
  note used = claimed_proofs [OF assms(1)]
  have u: "used_until (build_key p [''rl:wechat:login:'', ''proof:'', login]) (rl_ms (fst c) + dur_millis w) (snd (history es (fst c1)))"
    "used_until (build_key p [''rl:wechat:phone:'', ''proof:'', phone]) (rl_ms (fst c) + dur_millis w) (snd (history es (fst c1)))"
    using used_history [OF used(1) _ assms(3)] used_history [OF used(2) _ assms(3)] assms(2) by auto
  show ?thesis
    using used_login [OF u(1) assms(3)] used_login [OF u(2) assms(3)] claim_refused [OF u(1) assms(3)] claim_refused [OF u(2) assms(3)]
    by (auto simp: check_wechat_login_def check_wechat_phone_def assms(4))
qed

lemma hex_replicate: "lower_hex_char a \<Longrightarrow> is_lower_sha256_hex (replicate 64 a)"
  by (simp add: is_lower_sha256_hex_def list_all_iff)

theorem wechat_proofs_single_use_witness:
  "\<not> fst (fst (check_wechat_login ''p:'' ''9.9.9.9'' (replicate 64 CHR ''a'') 5 (seconds 60)
     (snd (history [Pass 20] (fst (snd (claim_wechat_registration_proofs ''p:'' ''1.1.1.1'' (replicate 64 CHR ''a'')
        (replicate 64 CHR ''b'') 5 (seconds 60) (\<lparr>rl_ms = 0, rl_keys = Map.empty\<rparr>, []))))), [])))"
proof -
  let ?a = "replicate 64 CHR ''a''" and ?b = "replicate 64 CHR ''b''"
  let ?r = "claim_wechat_registration_proofs ''p:'' ''1.1.1.1'' ?a ?b 5 (seconds 60) (\<lparr>rl_ms = 0, rl_keys = Map.empty\<rparr>, [])"
  have hex: "is_lower_sha256_hex ?a" "is_lower_sha256_hex ?b" by (rule hex_replicate, code_simp)+
  have w: "dur_millis (seconds 60) = 60000" "0 < seconds 60" by code_simp+
  have r: "?r = ((True, 0, None), snd ?r)" and ms: "rl_ms (fst (snd ?r)) = 0"
    using hex w by (simp_all add: claim_wechat_registration_proofs_def wechat_registration_proof_keys_def claim_proofs_script_def
        charge_def incr_def pexpire_def live_key_def put_key_def build_key_def prod_eq_iff)
  have "rl_ms (snd (history [Pass 20] (fst (snd ?r)))) \<le> rl_ms (fst (\<lparr>rl_ms = 0, rl_keys = Map.empty\<rparr>, [])) + dur_millis (seconds 60)"
    using ms w by simp
  from wechat_proofs_single_use [OF r _ this refl, THEN conjunct1] show ?thesis by simp
qed

section \<open>Bindings\<close>

lemma hex_no_nul: "is_lower_sha256_hex h \<Longrightarrow> CHR 0x00 \<notin> set h"
  by (auto simp: is_lower_sha256_hex_def list_all_iff lower_hex_char_def dest!: bspec)

lemma join_nul_inj:
  "\<forall>x\<in>set xs. x \<noteq> [] \<and> CHR 0x00 \<notin> set x \<Longrightarrow> \<forall>y\<in>set ys. y \<noteq> [] \<and> CHR 0x00 \<notin> set y \<Longrightarrow>
     join_nul xs = join_nul ys \<Longrightarrow> xs = ys"
proof (induction xs arbitrary: ys rule: join_nul.induct)
  case 1
  then show ?case by (cases ys rule: join_nul.cases) auto
next
  case (2 x)
  then show ?case
  proof (cases ys rule: join_nul.cases)
    case (3 y y2 zs)
    with 2 have "CHR 0x00 \<in> set x" by (metis in_set_conv_decomp join_nul.simps(2,3))
    with 2 show ?thesis by simp
  qed auto
next
  case (3 x x2 xs)
  show ?case
  proof (cases ys rule: join_nul.cases)
    case 1
    with 3(4) show ?thesis by simp
  next
    case (2 y)
    with 3 have "CHR 0x00 \<in> set y" by (metis in_set_conv_decomp join_nul.simps(2,3))
    with 2 3 show ?thesis by simp
  next
    case (3 y y2 zs)
    with "3.prems" have "x = y \<and> join_nul (x2 # xs) = join_nul (y2 # zs)" using cut_at [of "CHR 0x00" x y] by simp
    with 3 "3.IH" [of "y2 # zs"] "3.prems" show ?thesis by simp
  qed
qed

text \<open>
  The binding of a registration chain identifies its subject: two valid subjects whose
  binding texts agree have the same network, email, mailbox family, domain and mail-operator
  hashes, so a replay or a refund with a binding that matches is for the same registration
  unless the digest collides.
\<close>

theorem chain_binding_identifies_subject:
  assumes "chain_subject_valid s" and "chain_subject_valid s'"
    and "CHR 0x00 \<notin> set (cs_client_network s)" and "CHR 0x00 \<notin> set (cs_client_network s')"
    and "list_all is_lower_sha256_hex (cs_mx_hashes s)" and "list_all is_lower_sha256_hex (cs_mx_hashes s')"
    and "chain_binding_text s = chain_binding_text s'"
  shows "cs_client_network s = cs_client_network s' \<and> cs_email_hash s = cs_email_hash s'
    \<and> cs_mailbox_family_hash s = cs_mailbox_family_hash s' \<and> cs_domain_hash s = cs_domain_hash s'
    \<and> sort (cs_mx_hashes s) = sort (cs_mx_hashes s')"
proof -
  have free: "CHR 0x00 \<notin> set (cs_email_hash x)" "CHR 0x00 \<notin> set (cs_mailbox_family_hash x)" "CHR 0x00 \<notin> set (cs_domain_hash x)"
    if "chain_subject_valid x" for x
    using that hex_no_nul by (auto simp: chain_subject_valid_def)
  have mx: "\<forall>h\<in>set (sort (cs_mx_hashes x)). h \<noteq> [] \<and> CHR 0x00 \<notin> set h" if "list_all is_lower_sha256_hex (cs_mx_hashes x)" for x
    using that hex_no_nul by (auto simp: list_all_iff is_lower_sha256_hex_def)
  from assms(7) have "cs_client_network s = cs_client_network s' \<and> cs_email_hash s = cs_email_hash s'
    \<and> cs_mailbox_family_hash s = cs_mailbox_family_hash s' \<and> cs_domain_hash s = cs_domain_hash s'
    \<and> join_nul (sort (cs_mx_hashes s)) = join_nul (sort (cs_mx_hashes s'))"
    using free [OF assms(1)] free [OF assms(2)] assms(3,4) by (simp add: chain_binding_text_def cut_at)
  with join_nul_inj [OF mx [OF assms(5)] mx [OF assms(6)]] show ?thesis by blast
qed

theorem chain_binding_identifies_subject_witness:
  "cs_client_network (plain_subject ''i'' ''10.0.0.0/24'' (replicate 64 CHR ''a'') (replicate 64 CHR ''b''))
   = cs_client_network (plain_subject ''j'' ''10.0.0.0/24'' (replicate 64 CHR ''a'') (replicate 64 CHR ''c''))"
proof -
  have "is_lower_sha256_hex (replicate 64 CHR ''a'')" "is_lower_sha256_hex (replicate 64 CHR ''b'')"
    "is_lower_sha256_hex (replicate 64 CHR ''c'')" by (rule hex_replicate, code_simp)+
  then show ?thesis
    by (intro chain_binding_identifies_subject [THEN conjunct1])
       (simp_all add: plain_subject_def chain_subject_valid_def chain_binding_text_def)
qed

end
