(* ===== verification/AuthorityStore.thy ===== *)
theory AuthorityStore
  imports AdminRoleStore
begin

text \<open>
  The tables of the authority database behind administrator step-up and restricted identity
  access, beside those of \<open>AdminRoleStore\<close>: challenges, step-up proofs, the account security
  epoch, operator approvals, identity access requests and grants.  The statements are those of
  \<open>internal/adapters/postgres/admin_stepup_repo.go\<close>, \<open>identity_access_repo.go\<close> and
  \<open>admin_unit_of_work.go\<close>, the constraints those of the migrations 00012 and 00013.
\<close>

section \<open>The rows\<close>

type_synonym challenge_status = string

definition ChallengeActive :: challenge_status where "ChallengeActive = ''active''"
definition ChallengeRecoveryPending :: challenge_status where "ChallengeRecoveryPending = ''recovery_pending''"
definition ChallengeRevoked :: challenge_status where "ChallengeRevoked = ''revoked''"

lemmas challenge_status_defs = ChallengeActive_def ChallengeRecoveryPending_def ChallengeRevoked_def

record challenge =
  ch_user_id :: user_id
  ch_status :: challenge_status
  ch_must_rotate :: bool
  ch_credential_version :: int
  ch_security_epoch :: int
  ch_failure_count :: int
  ch_failure_window :: "time option"
  ch_locked_until :: "time option"
  ch_version :: int
  ch_created_at :: time
  ch_updated_at :: time

text \<open>A NULL column of the secret material is the empty string, as the reading code has it.\<close>

record credential_material =
  ct_challenge :: challenge
  ct_question_key_id :: string
  ct_question_nonce :: string
  ct_question_ciphertext :: string
  ct_answer_phc :: string
  ct_answer_pepper_key_id :: string

record step_up_state =
  su_id :: string
  su_session_id :: string
  su_user_id :: user_id
  su_challenge_version :: int
  su_security_epoch :: int
  su_verified_at :: time
  su_expires_at :: time
  su_revoked_at :: "time option"

record operator_approval =
  oa_id :: string
  oa_request_hash :: string
  oa_operator_id :: string
  oa_key_id :: string
  oa_signature :: string
  oa_expires_at :: time
  oa_terminal_at :: "time option"
  oa_created_at :: time

record access_request =
  iq_id :: string
  iq_event_id :: event_id
  iq_requester :: user_id
  iq_subject :: user_id
  iq_approver :: user_id
  iq_target_type :: string
  iq_target_id :: string
  iq_fields :: "string list"
  iq_status :: string
  iq_reason_id :: string
  iq_version :: int
  iq_created_at :: time
  iq_updated_at :: time
  iq_expires_at :: time
  iq_terminal_at :: "time option"

record access_grant =
  ig_id :: string
  ig_request_id :: string
  ig_event_id :: event_id
  ig_requester :: user_id
  ig_subject :: user_id
  ig_target_type :: string
  ig_target_id :: string
  ig_approved_by :: user_id
  ig_fields :: "string list"
  ig_status :: string
  ig_nonce_hash :: "string option"
  ig_lease_until :: "time option"
  ig_receipt_hash :: "string option"
  ig_binding_id :: string
  ig_binding_version :: int
  ig_challenge_version :: int
  ig_field_set_hash :: string
  ig_version :: int
  ig_expires_at :: time
  ig_terminal_at :: "time option"
  ig_created_at :: time
  ig_updated_at :: time

text \<open>A row of \<open>security_events\<close> without its random id and its time.\<close>

record authority_event =
  av_type :: string
  av_actor :: user_id
  av_request_id :: string
  av_operation :: string
  av_result :: string
  av_target_kind :: string
  av_target_id :: string
  av_extra :: "(string \<times> string) list"

record authority_db =
  au_admin :: admin_db
  au_epoch :: "user_id \<Rightarrow> int" \<comment> \<open>\<open>users.security_epoch\<close>, of the users \<open>ad_users\<close> lists\<close>
  au_challenges :: "user_id \<rightharpoonup> credential_material" \<comment> \<open>the primary key \<open>user_id\<close> is the key of the map\<close>
  au_proofs :: "step_up_state list"
  au_approvals :: "operator_approval list"
  au_requests :: "access_request list"
  au_grants :: "access_grant list"
  au_events :: "authority_event list"

type_synonym authority_conn = "authority_db conn"

section \<open>Constraints\<close>

definition material_present :: "credential_material \<Rightarrow> bool" where
  "material_present m \<longleftrightarrow> ct_question_key_id m \<noteq> [] \<and> ct_question_nonce m \<noteq> [] \<and> ct_question_ciphertext m \<noteq> []
     \<and> ct_answer_phc m \<noteq> [] \<and> ct_answer_pepper_key_id m \<noteq> []"

definition material_absent :: "credential_material \<Rightarrow> bool" where
  "material_absent m \<longleftrightarrow> ct_question_key_id m = [] \<and> ct_question_nonce m = [] \<and> ct_question_ciphertext m = []
     \<and> ct_answer_phc m = [] \<and> ct_answer_pepper_key_id m = []"

definition challenge_check :: "credential_material \<Rightarrow> bool" where
  "challenge_check m \<longleftrightarrow>
     ch_status (ct_challenge m) \<in> {ChallengeActive, ChallengeRecoveryPending, ChallengeRevoked}
     \<and> 0 < ch_credential_version (ct_challenge m) \<and> 0 < ch_security_epoch (ct_challenge m)
     \<and> 0 \<le> ch_failure_count (ct_challenge m) \<and> 0 < ch_version (ct_challenge m)
     \<and> (if ch_status (ct_challenge m) = ChallengeActive then material_present m else material_absent m)
     \<and> (ch_failure_count (ct_challenge m) = 0 \<or> ch_failure_window (ct_challenge m) \<noteq> None)
     \<and> ch_created_at (ct_challenge m) \<le> ch_updated_at (ct_challenge m)"

definition proof_check :: "step_up_state \<Rightarrow> bool" where
  "proof_check s \<longleftrightarrow> 1 \<le> length (su_session_id s) \<and> length (su_session_id s) \<le> 240
     \<and> 0 < su_challenge_version s \<and> 0 < su_security_epoch s \<and> su_verified_at s < su_expires_at s
     \<and> (case su_revoked_at s of None \<Rightarrow> True | Some t \<Rightarrow> su_verified_at s \<le> t)"

definition approval_check :: "operator_approval \<Rightarrow> bool" where
  "approval_check a \<longleftrightarrow> 16 \<le> length (oa_request_hash a) \<and> length (oa_request_hash a) \<le> 240
     \<and> 1 \<le> length (oa_key_id a) \<and> length (oa_key_id a) \<le> 160 \<and> oa_created_at a < oa_expires_at a
     \<and> (case oa_terminal_at a of None \<Rightarrow> True | Some t \<Rightarrow> oa_created_at a \<le> t)"

definition access_fields :: "string list" where
  "access_fields = [''legal_name'', ''identity_number'', ''identity_photo'', ''contact_email'', ''contact_mobile'']"

definition request_check :: "access_request \<Rightarrow> bool" where
  "request_check r \<longleftrightarrow>
     1 \<le> length (iq_event_id r) \<and> length (iq_event_id r) \<le> 160
     \<and> iq_target_type r \<in> {''application'', ''check_in''}
     \<and> 1 \<le> length (iq_target_id r) \<and> length (iq_target_id r) \<le> 240
     \<and> 1 \<le> length (iq_reason_id r) \<and> length (iq_reason_id r) \<le> 160 \<and> 0 < iq_version r
     \<and> iq_requester r \<noteq> iq_subject r
     \<and> (iq_approver r = [] \<or> iq_approver r \<noteq> iq_requester r \<and> iq_approver r \<noteq> iq_subject r)
     \<and> (iq_status r = ''pending'' \<and> iq_terminal_at r = None \<and> iq_approver r = []
        \<or> iq_status r \<in> {''approved'', ''rejected''} \<and> iq_terminal_at r \<noteq> None \<and> iq_approver r \<noteq> []
        \<or> iq_status r \<in> {''revoked'', ''expired''} \<and> iq_terminal_at r \<noteq> None)
     \<and> (case iq_terminal_at r of None \<Rightarrow> True | Some t \<Rightarrow> iq_created_at r \<le> t)
     \<and> iq_created_at r \<le> iq_updated_at r \<and> iq_created_at r < iq_expires_at r"

definition grant_check :: "access_grant \<Rightarrow> bool" where
  "grant_check g \<longleftrightarrow>
     1 \<le> length (ig_event_id g) \<and> length (ig_event_id g) \<le> 160
     \<and> ig_target_type g \<in> {''application'', ''check_in''}
     \<and> 1 \<le> length (ig_target_id g) \<and> length (ig_target_id g) \<le> 240
     \<and> 1 \<le> length (ig_approved_by g) \<and> length (ig_approved_by g) \<le> 160 \<and> 0 < ig_version g
     \<and> ig_requester g \<noteq> ig_subject g \<and> ig_approved_by g \<noteq> ig_requester g \<and> ig_approved_by g \<noteq> ig_subject g
     \<and> (ig_status g = ''claimed'' \<and> ig_nonce_hash g \<noteq> None \<and> ig_lease_until g \<noteq> None \<and> ig_terminal_at g = None
        \<or> ig_status g = ''active'' \<and> ig_nonce_hash g = None \<and> ig_lease_until g = None \<and> ig_terminal_at g = None
        \<or> ig_status g \<in> {''settled'', ''revoked'', ''expired''} \<and> ig_terminal_at g \<noteq> None)
     \<and> ig_created_at g < ig_expires_at g
     \<and> (case ig_terminal_at g of None \<Rightarrow> True | Some t \<Rightarrow> ig_created_at g \<le> t)
     \<and> ig_created_at g \<le> ig_updated_at g
     \<and> 1 \<le> length (ig_binding_id g) \<and> length (ig_binding_id g) \<le> 160
     \<and> 0 < ig_binding_version g \<and> 0 < ig_challenge_version g
     \<and> length (ig_field_set_hash g) = 43 \<and> list_all is_token_char (ig_field_set_hash g)"

text \<open>What a statement can fail with: a unique index, or anything else.\<close>

datatype sql_error = UniqueViolation | SqlFailure

section \<open>Statements\<close>

definition sql_challenge :: "user_id \<Rightarrow> authority_db \<Rightarrow> (sql_error + credential_material option) \<times> authority_db" where
  "sql_challenge u db =
     (Inr (map_option (\<lambda>m. m\<lparr>ct_challenge := (ct_challenge m)\<lparr>ch_user_id := u\<rparr>\<rparr>) (au_challenges db u)), db)"

definition sql_insert_challenge :: "user_id \<Rightarrow> credential_material \<Rightarrow> authority_db \<Rightarrow> (sql_error + unit) \<times> authority_db" where
  "sql_insert_challenge u m db =
     (if \<not> challenge_check m \<or> ad_users (au_admin db) u = None then (Inl SqlFailure, db)
      else if au_challenges db u \<noteq> None then (Inl UniqueViolation, db)
      else (Inr (), db\<lparr>au_challenges := (au_challenges db)(u \<mapsto> m)\<rparr>))"

definition sql_update_challenge ::
  "user_id \<Rightarrow> (challenge \<Rightarrow> bool) \<Rightarrow> (credential_material \<Rightarrow> credential_material) \<Rightarrow> authority_db
     \<Rightarrow> (sql_error + nat) \<times> authority_db" where
  "sql_update_challenge u p f db =
     (case au_challenges db u of
        None \<Rightarrow> (Inr 0, db)
      | Some m \<Rightarrow>
          if \<not> p (ct_challenge m) then (Inr 0, db)
          else if \<not> challenge_check (f m) then (Inl SqlFailure, db)
          else (Inr 1, db\<lparr>au_challenges := (au_challenges db)(u \<mapsto> f m)\<rparr>))"

text \<open>The unique index \<open>uq_admin_step_up_state_active_session\<close>.\<close>

definition proof_conflict :: "step_up_state \<Rightarrow> step_up_state \<Rightarrow> bool" where
  "proof_conflict s x \<longleftrightarrow> su_revoked_at x = None \<and> su_revoked_at s = None
     \<and> su_session_id x = su_session_id s \<and> su_user_id x = su_user_id s"

definition sql_insert_proof :: "step_up_state \<Rightarrow> authority_db \<Rightarrow> (sql_error + nat) \<times> authority_db" where
  "sql_insert_proof s db =
     (if \<not> proof_check s \<or> ad_users (au_admin db) (su_user_id s) = None then (Inl SqlFailure, db)
      else if \<exists>x\<in>set (au_proofs db). su_id x = su_id s then (Inr 0, db)
      else if \<exists>x\<in>set (au_proofs db). proof_conflict s x then (Inl UniqueViolation, db)
      else (Inr 1, db\<lparr>au_proofs := au_proofs db @ [s]\<rparr>))"

definition sql_revoke_proofs :: "(step_up_state \<Rightarrow> bool) \<Rightarrow> time \<Rightarrow> authority_db \<Rightarrow> (sql_error + unit) \<times> authority_db" where
  "sql_revoke_proofs p at db =
     (let f = (\<lambda>s. if p s \<and> su_revoked_at s = None then s\<lparr>su_revoked_at := Some at\<rparr> else s)
      in if list_all proof_check (map f (filter (\<lambda>s. p s \<and> su_revoked_at s = None) (au_proofs db)))
         then (Inr (), db\<lparr>au_proofs := map f (au_proofs db)\<rparr>) else (Inl SqlFailure, db))"

text \<open>\<open>ORDER BY verified_at DESC LIMIT 1\<close> of the live proofs of a session and user.\<close>

definition sql_active_proof ::
  "string \<Rightarrow> user_id \<Rightarrow> time \<Rightarrow> authority_db \<Rightarrow> (sql_error + step_up_state option) \<times> authority_db" where
  "sql_active_proof session u now db =
     (case sort_key (\<lambda>s. - su_verified_at s) (filter (\<lambda>s. su_session_id s = session \<and> su_user_id s = u
             \<and> su_verified_at s \<le> now \<and> now < su_expires_at s \<and> su_revoked_at s = None) (au_proofs db)) of
        [] \<Rightarrow> (Inr None, db) | s # _ \<Rightarrow> (Inr (Some s), db))"

definition sql_account_epoch :: "user_id \<Rightarrow> authority_db \<Rightarrow> (sql_error + int option) \<times> authority_db" where
  "sql_account_epoch u db = (Inr (if ad_users (au_admin db) u = None then None else Some (au_epoch db u)), db)"

definition sql_terminate_approvals :: "string \<Rightarrow> time \<Rightarrow> authority_db \<Rightarrow> (sql_error + unit) \<times> authority_db" where
  "sql_terminate_approvals operator at db =
     (let p = (\<lambda>a. oa_operator_id a = operator \<and> oa_terminal_at a = None);
          f = (\<lambda>a. a\<lparr>oa_terminal_at := Some at\<rparr>)
      in if list_all approval_check (map f (filter p (au_approvals db)))
         then (Inr (), db\<lparr>au_approvals := map (\<lambda>a. if p a then f a else a) (au_approvals db)\<rparr>)
         else (Inl SqlFailure, db))"

text \<open>\<open>UPDATE\<close> of requests and of grants, with the number of rows it changed.\<close>

definition request_conflict :: "access_request \<Rightarrow> access_request \<Rightarrow> bool" where
  "request_conflict r x \<longleftrightarrow> iq_status x = ''pending'' \<and> iq_terminal_at x = None
     \<and> iq_status r = ''pending'' \<and> iq_terminal_at r = None
     \<and> iq_event_id x = iq_event_id r \<and> iq_requester x = iq_requester r
     \<and> iq_target_type x = iq_target_type r \<and> iq_target_id x = iq_target_id r"

definition sql_update_requests ::
  "(access_request \<Rightarrow> bool) \<Rightarrow> (access_request \<Rightarrow> access_request) \<Rightarrow> authority_db \<Rightarrow> (sql_error + nat) \<times> authority_db" where
  "sql_update_requests p f db =
     (if list_all request_check (map f (filter p (au_requests db)))
      then (Inr (length (filter p (au_requests db))),
            db\<lparr>au_requests := map (\<lambda>r. if p r then f r else r) (au_requests db)\<rparr>)
      else (Inl SqlFailure, db))"

definition claim_is_live :: "access_grant \<Rightarrow> bool" where
  "claim_is_live g \<longleftrightarrow> ig_nonce_hash g \<noteq> None \<and> ig_terminal_at g = None"

definition claim_slot :: "access_grant \<Rightarrow> event_id \<times> string \<times> string \<times> user_id" where
  "claim_slot g = (ig_event_id g, ig_target_type g, ig_target_id g, ig_requester g)"

definition sql_update_grants ::
  "(access_grant \<Rightarrow> bool) \<Rightarrow> (access_grant \<Rightarrow> access_grant) \<Rightarrow> authority_db \<Rightarrow> (sql_error + nat) \<times> authority_db" where
  "sql_update_grants p f db =
     (let gs = map (\<lambda>g. if p g then f g else g) (au_grants db)
      in if \<not> list_all grant_check (map f (filter p (au_grants db))) then (Inl SqlFailure, db)
         else if \<not> distinct (map claim_slot (filter claim_is_live gs)) then (Inl UniqueViolation, db)
         else (Inr (length (filter p (au_grants db))), db\<lparr>au_grants := gs\<rparr>))"

definition sql_insert_authority_event :: "authority_event \<Rightarrow> authority_db \<Rightarrow> (sql_error + unit) \<times> authority_db" where
  "sql_insert_authority_event e db = (Inr (), db\<lparr>au_events := au_events db @ [e]\<rparr>)"

section \<open>The role tables as part of the database\<close>

definition on_admin ::
  "(admin_conn \<Rightarrow> ('e + 'a) \<times> admin_conn) \<Rightarrow> authority_conn \<Rightarrow> ('e + 'a) \<times> authority_conn" where
  "on_admin f c =
     (case f (au_admin (fst c), snd c) of
        (r, c1) \<Rightarrow> (r, ((fst c)\<lparr>au_admin := fst c1\<rparr>, snd c1)))"

section \<open>Revocation on a security rotation\<close>

definition revoked_request :: "time \<Rightarrow> access_request \<Rightarrow> access_request" where
  "revoked_request at r = r\<lparr>iq_status := ''revoked'', iq_terminal_at := Some at, iq_updated_at := at,
     iq_version := iq_version r + 1\<rparr>"

definition revoked_grant :: "time \<Rightarrow> access_grant \<Rightarrow> access_grant" where
  "revoked_grant at g = g\<lparr>ig_status := ''revoked'', ig_nonce_hash := None, ig_lease_until := None,
     ig_terminal_at := Some at, ig_updated_at := at, ig_version := ig_version g + 1\<rparr>"

definition revoke_for_security_rotation ::
  "user_id \<Rightarrow> time \<Rightarrow> authority_conn \<Rightarrow> (sql_error + unit) \<times> authority_conn" where
  "revoke_for_security_rotation u at c =
     (case io_call SqlFailure (sql_update_requests
             (\<lambda>r. iq_requester r = u \<and> iq_status r = ''pending'' \<and> iq_terminal_at r = None) (revoked_request at)) c of
        (Inl e, c1) \<Rightarrow> (Inl e, c1)
      | (Inr _, c1) \<Rightarrow>
          (case io_call SqlFailure (sql_update_grants
                  (\<lambda>g. ig_requester g = u \<and> ig_terminal_at g = None) (revoked_grant at)) c1 of
             (Inl e, c2) \<Rightarrow> (Inl e, c2)
           | (Inr _, c2) \<Rightarrow> (Inr (), c2)))"

definition approvals_revoke_for_user ::
  "user_id \<Rightarrow> time \<Rightarrow> authority_conn \<Rightarrow> (sql_error + unit) \<times> authority_conn" where
  "approvals_revoke_for_user u at c =
     (case io_call SqlFailure (sql_terminate_approvals u at) c of
        (Inl e, c1) \<Rightarrow> (Inl e, c1)
      | (Inr _, c1) \<Rightarrow> revoke_for_security_rotation u at c1)"

section \<open>Transactions beside another store\<close>

text \<open>
  \<open>tx_run\<close> with a second component of the world that the transaction does not roll back: a Redis
  call made inside the callback keeps its effect.
\<close>

definition tx_within ::
  "'e \<Rightarrow> ('db conn \<times> 'r \<Rightarrow> ('e + 'a) \<times> 'db conn \<times> 'r) \<Rightarrow> 'db conn \<times> 'r \<Rightarrow> ('e + 'a) \<times> 'db conn \<times> 'r" where
  "tx_within e body w =
     (case io_call e (\<lambda>db. (Inr (), db)) (fst w) of
        (Inl x, c1) \<Rightarrow> (Inl x, (c1, snd w))
      | (Inr _, c1) \<Rightarrow>
          (case body (c1, snd w) of
             (Inl x, (c2, r)) \<Rightarrow> (Inl x, ((fst c1, snd c2), r))
           | (Inr v, (c2, r)) \<Rightarrow>
               (case io_call e (\<lambda>db. (Inr (), fst c2)) (fst c1, snd c2) of
                  (Inl x, c3) \<Rightarrow> (Inl x, (c3, r))
                | (Inr _, c3) \<Rightarrow> (Inr v, (c3, r)))))"

lemma tx_within_cases:
  obtains (begin_failed) c1 where "tx_within e body w = (Inl e, (c1, snd w))" "fst c1 = fst (fst w)"
  | (rolled_back) x c1 c2 r where "fst c1 = fst (fst w)" "body (c1, snd w) = (Inl x, (c2, r))"
      "tx_within e body w = (Inl x, ((fst (fst w), snd c2), r))"
  | (commit_failed) v c1 c2 r c3 where "fst c1 = fst (fst w)" "body (c1, snd w) = (Inr v, (c2, r))"
      "tx_within e body w = (Inl e, (c3, r))" "fst c3 = fst (fst w) \<or> fst c3 = fst c2"
  | (committed) v c1 c2 r c3 where "fst c1 = fst (fst w)" "body (c1, snd w) = (Inr v, (c2, r))"
      "tx_within e body w = (Inr v, (c3, r))" "fst c3 = fst c2"
proof -
  obtain r1 c1 where b: "io_call e (\<lambda>db. (Inr (), db)) (fst w) = (r1, c1)"
    by (cases "io_call e (\<lambda>db. (Inr (), db)) (fst w) :: (_ + unit) \<times> _") blast
  then have c1: "fst c1 = fst (fst w)"
    using io_call_pure [of "\<lambda>db. (Inr (), db)" e "fst w"] by simp
  show thesis
  proof (cases r1)
    case (Inl x)
    with b have "x = e" using io_call_err [of e "\<lambda>db. (Inr (), db)" "fst w" x c1] by simp
    with Inl b c1 show thesis by (intro begin_failed [of c1]) (auto simp: tx_within_def)
  next
    case (Inr u)
    obtain r2 c2 rr where b2: "body (c1, snd w) = (r2, (c2, rr))" by (cases "body (c1, snd w)") auto
    show thesis
    proof (cases r2)
      case (Inl x)
      with Inr b b2 c1 show thesis by (intro rolled_back [of c1 x c2 rr]) (auto simp: tx_within_def)
    next
      case r2: (Inr v)
      obtain r3 c3 where b3: "io_call e (\<lambda>db. (Inr (), fst c2)) (fst c1, snd c2) = (r3, c3)"
        by (cases "io_call e (\<lambda>db. (Inr (), fst c2)) (fst c1, snd c2) :: (_ + unit) \<times> _") blast
      show thesis
      proof (cases r3)
        case (Inl x)
        then have "x = e" using io_call_err b3 by fastforce
        moreover have "fst c3 = fst (fst w) \<or> fst c3 = fst c2"
          using io_call_state [of e "\<lambda>db. (Inr (), fst c2)" "(fst c1, snd c2)"] b3 c1 by simp
        ultimately show thesis
          using Inl Inr b b2 b3 r2 c1 by (intro commit_failed [of c1 v c2 rr c3]) (auto simp: tx_within_def)
      next
        case r3: (Inr u')
        have "fst c3 = fst c2" using io_call_ok b3 r3 by fastforce
        then show thesis
          using r3 Inr b b2 b3 r2 c1 by (intro committed [of c1 v c2 rr c3]) (auto simp: tx_within_def)
      qed
    qed
  qed
qed

lemma tx_within_ok:
  assumes "tx_within e body w = (Inr v, w')"
  shows "\<exists>c1 c2. fst c1 = fst (fst w) \<and> body (c1, snd w) = (Inr v, (c2, snd w')) \<and> fst (fst w') = fst c2"
proof (cases rule: tx_within_cases [of e body w])
  case (committed u c1 c2 r c3)
  with assms have "u = v" "w' = (c3, r)" by simp_all
  with committed show ?thesis by (intro exI [of _ c1] exI [of _ c2]) simp
qed (use assms in simp_all)

end
