(* ===== verification/AnswerHasher.thy ===== *)
theory AnswerHasher
  imports Prelude
begin

text \<open>
  The secrets of administrator challenges (\<open>internal/adminstepup/keyring.go\<close>,
  \<open>hasher.go\<close>): keyrings, the Argon2id hash of an answer in its textual PHC form, and the cipher
  that binds a question to its owner, record and credential version.  Argon2id, HMAC-SHA-256 and
  AES-GCM are arguments; the unpadded standard base64 of the PHC form is written out.
\<close>

section \<open>Keyrings\<close>

datatype keyring_error = ErrInvalidKeyring | ErrKeyUnavailable | ErrKeyringFile

record keyring =
  kr_current_id :: string
  kr_keys :: "string \<rightharpoonup> string"

text \<open>A nil \<open>*Keyring\<close> is None.  The map argument is the list of its entries.\<close>

definition new_keyring :: "string \<Rightarrow> (string \<times> string) list \<Rightarrow> keyring_error + keyring" where
  "new_keyring current keys =
     (if current = [] \<or> keys = [] then Inl ErrInvalidKeyring
      else if list_ex (\<lambda>(i, k). i = [] \<or> length k < 32) keys then Inl ErrInvalidKeyring
      else if map_of keys current = None then Inl ErrInvalidKeyring
      else Inr \<lparr>kr_current_id = current, kr_keys = map_of keys\<rparr>)"

definition keyring_current :: "keyring option \<Rightarrow> keyring_error + string \<times> string" where
  "keyring_current r =
     (case r of
        None \<Rightarrow> Inl ErrKeyUnavailable
      | Some k \<Rightarrow> (case kr_keys k (kr_current_id k) of
                     None \<Rightarrow> Inl ErrKeyUnavailable | Some key \<Rightarrow> Inr (kr_current_id k, key)))"

definition keyring_key :: "keyring option \<Rightarrow> string \<Rightarrow> keyring_error + string" where
  "keyring_key r i =
     (case r of
        None \<Rightarrow> Inl ErrKeyUnavailable
      | Some k \<Rightarrow> if i = [] then Inl ErrKeyUnavailable
                   else case kr_keys k i of None \<Rightarrow> Inl ErrKeyUnavailable | Some key \<Rightarrow> Inr key)"

definition keyring_snapshot :: "keyring option \<Rightarrow> keyring_error + string \<times> (string \<rightharpoonup> string)" where
  "keyring_snapshot r =
     (case r of
        None \<Rightarrow> Inl ErrKeyUnavailable
      | Some k \<Rightarrow> if kr_keys k (kr_current_id k) = None then Inl ErrKeyUnavailable
                   else Inr (kr_current_id k, kr_keys k))"

section \<open>Base64 without padding\<close>

definition b64_alphabet :: string where
  "b64_alphabet = ''ABCDEFGHIJKLMNOPQRSTUVWXYZabcdefghijklmnopqrstuvwxyz0123456789+/''"

definition b64_char :: "nat \<Rightarrow> char" where
  "b64_char n = b64_alphabet ! (n mod 64)"

definition b64_value :: "char \<Rightarrow> nat option" where
  "b64_value c = map_of (zip b64_alphabet [0..<64]) c"

fun b64_encode :: "string \<Rightarrow> string" where
  "b64_encode [] = []"
| "b64_encode [a] = [b64_char (of_char a div 4), b64_char (of_char a mod 4 * 16)]"
| "b64_encode [a, b] = [b64_char (of_char a div 4), b64_char (of_char a mod 4 * 16 + of_char b div 16),
     b64_char (of_char b mod 16 * 4)]"
| "b64_encode (a # b # c # cs) = [b64_char (of_char a div 4), b64_char (of_char a mod 4 * 16 + of_char b div 16),
     b64_char (of_char b mod 16 * 4 + of_char c div 64), b64_char (of_char c mod 64)] @ b64_encode cs"

fun b64_bytes :: "nat list \<Rightarrow> string option" where
  "b64_bytes [] = Some []"
| "b64_bytes [p] = None"
| "b64_bytes [p, q] = Some [char_of (p * 4 + q div 16)]"
| "b64_bytes [p, q, r] = Some [char_of (p * 4 + q div 16), char_of (q mod 16 * 16 + r div 4)]"
| "b64_bytes (p # q # r # s # ns) = map_option (\<lambda>bs. char_of (p * 4 + q div 16) # char_of (q mod 16 * 16 + r div 4)
     # char_of (r mod 4 * 64 + s) # bs) (b64_bytes ns)"

text \<open>The decoder skips line breaks and, not being strict, the unused bits of the last character.\<close>

definition b64_decode :: "string \<Rightarrow> string option" where
  "b64_decode s = Option.bind (those (map b64_value (filter (\<lambda>c. c \<noteq> CHR 0x0A \<and> c \<noteq> CHR 0x0D) s))) b64_bytes"

lemma b64_value_char: "b64_value (b64_char n) = Some (n mod 64)"
proof -
  have "\<forall>k\<in>set [0..<64]. b64_value (b64_char k) = Some k" by code_simp
  moreover have "n mod 64 \<in> set [0..<64]" by simp
  ultimately have "b64_value (b64_char (n mod 64)) = Some (n mod 64)" by blast
  then show ?thesis by (simp add: b64_char_def)
qed

lemma b64_char_token: "b64_char n \<noteq> CHR 0x0A \<and> b64_char n \<noteq> CHR 0x0D \<and> b64_char n \<noteq> CHR ''$''"
proof -
  have "\<forall>k\<in>set [0..<64]. b64_char k \<noteq> CHR 0x0A \<and> b64_char k \<noteq> CHR 0x0D \<and> b64_char k \<noteq> CHR ''$''" by code_simp
  moreover have "n mod 64 \<in> set [0..<64]" by simp
  ultimately show ?thesis by (metis b64_char_def mod_mod_trivial)
qed

lemma b64_encode_chars: "c \<in> set (b64_encode s) \<Longrightarrow> c \<noteq> CHR 0x0A \<and> c \<noteq> CHR 0x0D \<and> c \<noteq> CHR ''$''"
  by (induction s rule: b64_encode.induct) (use b64_char_token in auto)

fun b64_sextets :: "string \<Rightarrow> nat list" where
  "b64_sextets [] = []"
| "b64_sextets [a] = [of_char a div 4, of_char a mod 4 * 16]"
| "b64_sextets [a, b] = [of_char a div 4, of_char a mod 4 * 16 + of_char b div 16, of_char b mod 16 * 4]"
| "b64_sextets (a # b # c # cs) = [of_char a div 4, of_char a mod 4 * 16 + of_char b div 16,
     of_char b mod 16 * 4 + of_char c div 64, of_char c mod 64] @ b64_sextets cs"

lemma byte_div: "(of_char (a::char) :: nat) div 4 < 64" "(of_char (a::char) :: nat) div 16 < 16"
  "(of_char (a::char) :: nat) div 64 < 4"
proof -
  have "(of_char a :: nat) < 256" by simp
  then show "(of_char a :: nat) div 4 < 64" "(of_char a :: nat) div 16 < 16" "(of_char a :: nat) div 64 < 4"
    by linarith+
qed

lemma sextet_bound: "(x::nat) mod 4 * 16 + of_char (b::char) div 16 < 64" "(x::nat) mod 16 * 4 + of_char (b::char) div 64 < 64"
proof -
  have "x mod 4 < 4" "x mod 16 < 16" by simp_all
  with byte_div [of b] show "x mod 4 * 16 + of_char b div 16 < 64" "x mod 16 * 4 + of_char b div 64 < 64"
    by linarith+
qed

lemma b64_sextets_value: "those (map b64_value (b64_encode s)) = Some (b64_sextets s)"
proof (induction s rule: b64_encode.induct)
  case (4 a b c cs)
  then show ?case using byte_div [of a] sextet_bound by (simp add: b64_value_char)
qed (use byte_div sextet_bound in \<open>simp_all add: b64_value_char\<close>)

lemma b64_bytes_sextets: "b64_bytes (b64_sextets s) = Some s"
proof (induction s rule: b64_encode.induct)
  case (3 a b)
  then show ?case using byte_div [of b] by simp
next
  case (4 a b c cs)
  then show ?case using byte_div [of b] byte_div [of c] by simp
qed simp_all

lemma b64_round_trip: "b64_decode (b64_encode s) = Some s"
proof -
  have "filter (\<lambda>c. c \<noteq> CHR 0x0A \<and> c \<noteq> CHR 0x0D) (b64_encode s) = b64_encode s"
    by (rule filter_True) (use b64_encode_chars in blast)
  then show ?thesis by (simp add: b64_decode_def b64_sextets_value b64_bytes_sextets)
qed

section \<open>Challenge texts\<close>

text \<open>The sentinel errors of the package; any other failure is \<open>ErrStepUpInfra\<close>.\<close>

datatype stepup_error =
  ErrNoChallenge | ErrChallengeConflict | ErrInvalidQuestion | ErrInvalidAnswer | ErrForbiddenChallengeText
  | ErrQuestionEqualsAnswer | ErrStepUpDisabled | ErrEnrollmentRequired | ErrEnrollmentNotAllowed | ErrRotationRequired
  | ErrChallengeLocked | ErrInvalidChallengeAnswer | ErrChallengeRateLimited | ErrRateLimitUnavailable
  | ErrStepUpIdempotencyKey | ErrStepUpIdempotencyConflict | ErrStepUpIfMatch | ErrInvalidStoredReceipt
  | ErrInvalidActionTarget | ErrUnsupportedAction | ErrInvalidVerifyRequest | ErrStepUpInfra

text \<open>
  Compatibility normalisation, the grapheme count and the character category \<open>C\<close> come from
  the Unicode tables.
\<close>

record unicode_tables =
  ut_nfkc :: "string \<Rightarrow> string"
  ut_graphemes :: "string \<Rightarrow> nat"
  ut_forbidden :: "string \<Rightarrow> bool"

definition normalize_question :: "unicode_tables \<Rightarrow> string \<Rightarrow> stepup_error + string" where
  "normalize_question U v =
     (let n = ut_nfkc U v
      in if ut_forbidden U n then Inl ErrForbiddenChallengeText
         else if ut_graphemes U n < 5 \<or> 200 < ut_graphemes U n then Inl ErrInvalidQuestion
         else Inr n)"

definition normalize_answer :: "unicode_tables \<Rightarrow> string \<Rightarrow> stepup_error + string" where
  "normalize_answer U v =
     (let n = ut_nfkc U v
      in if ut_forbidden U n then Inl ErrForbiddenChallengeText
         else let t = trim_space n
              in if ut_graphemes U t < 7 \<or> 256 < ut_graphemes U t then Inl ErrInvalidAnswer else Inr t)"

definition validate_question_answer :: "unicode_tables \<Rightarrow> string \<Rightarrow> string \<Rightarrow> stepup_error option" where
  "validate_question_answer U q a =
     (case normalize_question U q of
        Inl e \<Rightarrow> Some e
      | Inr nq \<Rightarrow> (case normalize_answer U a of
                     Inl e \<Rightarrow> Some e | Inr na \<Rightarrow> if nq = na then Some ErrQuestionEqualsAnswer else None))"

section \<open>Hashing answers\<close>

record argon2_params =
  ap_memory_kib :: nat
  ap_iterations :: nat
  ap_parallelism :: nat
  ap_salt_bytes :: nat
  ap_key_bytes :: nat

definition default_argon2_params :: argon2_params where
  "default_argon2_params = \<lparr>ap_memory_kib = 64 * 1024, ap_iterations = 3, ap_parallelism = 2, ap_salt_bytes = 16,
     ap_key_bytes = 32\<rparr>"

definition valid_argon2_params :: "argon2_params \<Rightarrow> bool" where
  "valid_argon2_params p \<longleftrightarrow> 8 * 1024 \<le> ap_memory_kib p \<and> ap_memory_kib p \<le> 1024 * 1024
     \<and> 1 \<le> ap_iterations p \<and> ap_iterations p \<le> 10 \<and> 1 \<le> ap_parallelism p \<and> ap_parallelism p \<le> 16
     \<and> 16 \<le> ap_salt_bytes p \<and> ap_salt_bytes p \<le> 64 \<and> 32 \<le> ap_key_bytes p \<and> ap_key_bytes p \<le> 64"

record answer_hasher =
  ah_peppers :: "keyring option"
  ah_params :: argon2_params
  ah_unicode :: unicode_tables
  ah_hmac :: "string \<Rightarrow> string \<Rightarrow> string" \<comment> \<open>key, then message\<close>
  ah_argon2 :: "string \<Rightarrow> string \<Rightarrow> argon2_params \<Rightarrow> string" \<comment> \<open>password, then salt\<close>
  ah_random :: "nat \<Rightarrow> string option"
  ah_acquired :: bool \<comment> \<open>whether the semaphore is acquired before the context ends\<close>

definition new_answer_hasher :: "answer_hasher \<Rightarrow> int \<Rightarrow> answer_hasher option" where
  "new_answer_hasher H max_concurrent =
     (case keyring_current (ah_peppers H) of
        Inl _ \<Rightarrow> None
      | Inr _ \<Rightarrow> if \<not> valid_argon2_params (ah_params H) \<or> max_concurrent \<le> 0 \<or> 64 < max_concurrent then None
                else Some H)"

definition derive_answer :: "answer_hasher \<Rightarrow> string \<Rightarrow> string \<Rightarrow> string \<Rightarrow> argon2_params \<Rightarrow> string" where
  "derive_answer H answer pepper salt p =
     ah_argon2 H (ah_hmac H pepper (''united-pass/admin-challenge-answer/v1'' @ [CHR 0x00] @ answer)) salt p"

definition encode_phc :: "argon2_params \<Rightarrow> string \<Rightarrow> string \<Rightarrow> string" where
  "encode_phc p salt derived = ''$argon2id$v=19$m='' @ nat_digits (ap_memory_kib p) @ '',t='' @ nat_digits (ap_iterations p)
     @ '',p='' @ nat_digits (ap_parallelism p) @ ''$'' @ b64_encode salt @ ''$'' @ b64_encode derived"

text \<open>\<open>strconv.ParseUint(raw, 10, bits)\<close>, canonical forms only.\<close>

definition parse_phc_uint :: "string \<Rightarrow> string \<Rightarrow> nat \<Rightarrow> nat option" where
  "parse_phc_uint v prefix bits =
     (if \<not> has_prefix v prefix then None
      else let raw = trim_prefix v prefix; n = nat (digits_value raw)
           in if raw = [] \<or> \<not> list_all is_digit raw \<or> 2 ^ bits \<le> n \<or> nat_digits n \<noteq> raw then None else Some n)"

definition parse_phc_params :: "string \<Rightarrow> (nat \<times> nat \<times> nat) option" where
  "parse_phc_params s =
     (case str_split CHR '','' s of
        [m, t, p] \<Rightarrow>
          (case (parse_phc_uint m ''m='' 32, parse_phc_uint t ''t='' 32, parse_phc_uint p ''p='' 8) of
             (Some a, Some b, Some c) \<Rightarrow> Some (a, b, c) | _ \<Rightarrow> None)
      | _ \<Rightarrow> None)"

definition parse_phc :: "string \<Rightarrow> (argon2_params \<times> string \<times> string) option" where
  "parse_phc phc =
     (case str_split CHR ''$'' phc of
        [e, alg, v, ps, salt64, derived64] \<Rightarrow>
          if e \<noteq> [] \<or> alg \<noteq> ''argon2id'' \<or> v \<noteq> ''v=19'' then None
          else (case (parse_phc_params ps, b64_decode salt64, b64_decode derived64) of
                  (Some (m, t, p), Some salt, Some derived) \<Rightarrow>
                    let params = \<lparr>ap_memory_kib = m, ap_iterations = t, ap_parallelism = p,
                                  ap_salt_bytes = length salt, ap_key_bytes = length derived\<rparr>
                    in if valid_argon2_params params then Some (params, salt, derived) else None
                | _ \<Rightarrow> None)
      | _ \<Rightarrow> None)"

definition hash_answer :: "answer_hasher \<Rightarrow> string \<Rightarrow> stepup_error + string \<times> string" where
  "hash_answer H answer =
     (case normalize_answer (ah_unicode H) answer of
        Inl e \<Rightarrow> Inl e
      | Inr n \<Rightarrow>
          if \<not> ah_acquired H then Inl ErrStepUpInfra
          else case keyring_current (ah_peppers H) of
            Inl _ \<Rightarrow> Inl ErrStepUpInfra
          | Inr (key_id, pepper) \<Rightarrow>
              (case ah_random H (ap_salt_bytes (ah_params H)) of
                 None \<Rightarrow> Inl ErrStepUpInfra
               | Some salt \<Rightarrow> Inr (encode_phc (ah_params H) salt (derive_answer H n pepper salt (ah_params H)), key_id)))"

definition verify_answer :: "answer_hasher \<Rightarrow> string \<Rightarrow> string \<Rightarrow> string \<Rightarrow> stepup_error + bool" where
  "verify_answer H answer phc pepper_id =
     (case normalize_answer (ah_unicode H) answer of
        Inl e \<Rightarrow> Inl e
      | Inr n \<Rightarrow>
          (case parse_phc phc of
             None \<Rightarrow> Inl ErrStepUpInfra
           | Some (params, salt, expected) \<Rightarrow>
               (case keyring_key (ah_peppers H) pepper_id of
                  Inl _ \<Rightarrow> Inl ErrStepUpInfra
                | Inr pepper \<Rightarrow>
                    if \<not> ah_acquired H then Inl ErrStepUpInfra
                    else Inr (expected = derive_answer H n pepper salt params))))"

section \<open>The cipher of questions\<close>

definition PurposeChallengeQuestion :: string where "PurposeChallengeQuestion = ''admin-challenge-question''"
definition PurposeProtectedReason :: string where "PurposeProtectedReason = ''protected-operation-reason''"

lemmas purpose_defs = PurposeChallengeQuestion_def PurposeProtectedReason_def

record encrypted_value =
  ev_key_id :: string
  ev_nonce :: string
  ev_ciphertext :: string

text \<open>
  AES in Galois/counter mode: sealing and opening under a key, a nonce and additional data.
  \<open>aes.NewCipher\<close> takes keys of 16, 24 or 32 bytes.
\<close>

record question_cipher =
  qc_keyring :: "keyring option"
  qc_seal :: "string \<Rightarrow> string \<Rightarrow> string \<Rightarrow> string \<Rightarrow> string" \<comment> \<open>key, nonce, additional data, plaintext\<close>
  qc_open :: "string \<Rightarrow> string \<Rightarrow> string \<Rightarrow> string \<Rightarrow> string option"
  qc_random :: "nat \<Rightarrow> string option"

definition valid_encryption_binding :: "string \<Rightarrow> string \<Rightarrow> string \<Rightarrow> int \<Rightarrow> bool" where
  "valid_encryption_binding purpose owner rec v \<longleftrightarrow>
     (purpose = PurposeChallengeQuestion \<or> purpose = PurposeProtectedReason) \<and> owner \<noteq> [] \<and> rec \<noteq> [] \<and> 0 < v"

definition encryption_aad :: "string \<Rightarrow> string \<Rightarrow> string \<Rightarrow> int \<Rightarrow> string" where
  "encryption_aad purpose owner rec v = ''united-pass/adminstepup/aes-gcm/v1'' @ [CHR 0x00] @ purpose @ [CHR 0x00]
     @ owner @ [CHR 0x00] @ rec @ [CHR 0x00] @ itoa v"

definition aes_key_ok :: "string \<Rightarrow> bool" where
  "aes_key_ok k \<longleftrightarrow> length k \<in> {16, 24, 32}"

definition new_question_cipher :: "question_cipher \<Rightarrow> question_cipher option" where
  "new_question_cipher Q =
     (case keyring_current (qc_keyring Q) of
        Inl _ \<Rightarrow> None | Inr (_, key) \<Rightarrow> if length key \<noteq> 32 then None else Some Q)"

definition encrypt_value ::
  "question_cipher \<Rightarrow> string \<Rightarrow> string \<Rightarrow> string \<Rightarrow> int \<Rightarrow> string \<Rightarrow> encrypted_value option" where
  "encrypt_value Q purpose owner rec v plaintext =
     (if \<not> valid_encryption_binding purpose owner rec v then None
      else case keyring_current (qc_keyring Q) of
        Inl _ \<Rightarrow> None
      | Inr (key_id, key) \<Rightarrow>
          if \<not> aes_key_ok key then None
          else case qc_random Q 12 of
            None \<Rightarrow> None
          | Some nonce \<Rightarrow> Some \<lparr>ev_key_id = key_id, ev_nonce = nonce,
              ev_ciphertext = qc_seal Q key nonce (encryption_aad purpose owner rec v) plaintext\<rparr>)"

definition decrypt_value ::
  "question_cipher \<Rightarrow> string \<Rightarrow> string \<Rightarrow> string \<Rightarrow> int \<Rightarrow> encrypted_value \<Rightarrow> string option" where
  "decrypt_value Q purpose owner rec v x =
     (if \<not> valid_encryption_binding purpose owner rec v \<or> ev_key_id x = [] then None
      else case keyring_key (qc_keyring Q) (ev_key_id x) of
        Inl _ \<Rightarrow> None
      | Inr key \<Rightarrow>
          if \<not> aes_key_ok key \<or> length (ev_nonce x) \<noteq> 12 then None
          else qc_open Q key (ev_nonce x) (encryption_aad purpose owner rec v) (ev_ciphertext x))"

end
