(* ===== verification/StepUpStore.thy ===== *)
theory StepUpStore
  imports AuthorityStore AnswerHasher
begin

text \<open>
  The repository of administrator challenges and step-up proofs
  (\<open>internal/adapters/postgres/admin_stepup_repo.go\<close>) and the adapters that bind the step-up
  service to the unit of work (\<open>admin_unit_of_work.go\<close>).
\<close>

section \<open>Challenges\<close>

definition challenge_get :: "user_id \<Rightarrow> authority_conn \<Rightarrow> (stepup_error + challenge) \<times> authority_conn" where
  "challenge_get u c =
     (case io_call SqlFailure (sql_challenge u) c of
        (Inl _, c1) \<Rightarrow> (Inl ErrStepUpInfra, c1)
      | (Inr None, c1) \<Rightarrow> (Inl ErrNoChallenge, c1)
      | (Inr (Some m), c1) \<Rightarrow> (Inr (ct_challenge m), c1))"

definition get_credential_for_verification ::
  "user_id \<Rightarrow> authority_conn \<Rightarrow> (stepup_error + credential_material) \<times> authority_conn" where
  "get_credential_for_verification u c =
     (case io_call SqlFailure (sql_challenge u) c of
        (Inl _, c1) \<Rightarrow> (Inl ErrStepUpInfra, c1)
      | (Inr None, c1) \<Rightarrow> (Inl ErrNoChallenge, c1)
      | (Inr (Some m), c1) \<Rightarrow>
          if ch_status (ct_challenge m) \<noteq> ChallengeActive then (Inl ErrNoChallenge, c1) else (Inr m, c1))"

definition inserted_material :: "time \<Rightarrow> credential_material \<Rightarrow> credential_material" where
  "inserted_material now m =
     (let k = ct_challenge m
      in m\<lparr>ct_challenge := k\<lparr>ch_status := ChallengeActive,
           ch_credential_version := (if ch_credential_version k = 0 then 1 else ch_credential_version k),
           ch_security_epoch := (if ch_security_epoch k = 0 then 1 else ch_security_epoch k),
           ch_failure_count := 0, ch_failure_window := None, ch_locked_until := None, ch_version := 1,
           ch_created_at := now, ch_updated_at := now\<rparr>\<rparr>)"

definition replaced_material :: "time \<Rightarrow> credential_material \<Rightarrow> credential_material \<Rightarrow> credential_material" where
  "replaced_material now next old =
     (let k = ct_challenge old
      in next\<lparr>ct_challenge := k\<lparr>ch_status := ChallengeActive, ch_must_rotate := ch_must_rotate (ct_challenge next),
           ch_credential_version := ch_credential_version k + 1, ch_security_epoch := ch_security_epoch k + 1,
           ch_failure_count := 0, ch_failure_window := None, ch_locked_until := None,
           ch_version := ch_version k + 1, ch_updated_at := now\<rparr>\<rparr>)"

definition put_credential ::
  "time \<Rightarrow> credential_material \<Rightarrow> int \<Rightarrow> authority_conn \<Rightarrow> (stepup_error + challenge) \<times> authority_conn" where
  "put_credential now m expected c =
     (if ch_status (ct_challenge m) \<noteq> ChallengeActive \<or> \<not> material_present m then (Inl ErrChallengeConflict, c)
      else let u = ch_user_id (ct_challenge m)
           in if expected = 0
              then (case io_call SqlFailure (sql_insert_challenge u (inserted_material now m)) c of
                      (Inl UniqueViolation, c1) \<Rightarrow> (Inl ErrChallengeConflict, c1)
                    | (Inl SqlFailure, c1) \<Rightarrow> (Inl ErrStepUpInfra, c1)
                    | (Inr _, c1) \<Rightarrow> challenge_get u c1)
              else (case io_call SqlFailure (sql_update_challenge u (\<lambda>k. ch_version k = expected) (replaced_material now m)) c of
                      (Inl _, c1) \<Rightarrow> (Inl ErrStepUpInfra, c1)
                    | (Inr n, c1) \<Rightarrow> if n \<noteq> 1 then (Inl ErrChallengeConflict, c1) else challenge_get u c1))"

definition window_over :: "time \<Rightarrow> challenge \<Rightarrow> bool" where
  "window_over now k = (case ch_failure_window k of None \<Rightarrow> True | Some t \<Rightarrow> t < now - minutes 15)"

definition failed_count :: "time \<Rightarrow> challenge \<Rightarrow> int" where
  "failed_count now k = (if window_over now k then 1 else ch_failure_count k + 1)"

definition failed_challenge :: "time \<Rightarrow> challenge \<Rightarrow> challenge" where
  "failed_challenge now k = k\<lparr>
     ch_failure_window := (if window_over now k then Some now else ch_failure_window k),
     ch_failure_count := failed_count now k,
     ch_locked_until := (if 5 \<le> failed_count now k then Some (now + minutes 30) else ch_locked_until k),
     ch_version := ch_version k + 1, ch_updated_at := now\<rparr>"

definition record_failure ::
  "user_id \<Rightarrow> int \<Rightarrow> time \<Rightarrow> authority_conn \<Rightarrow> (stepup_error + challenge) \<times> authority_conn" where
  "record_failure u expected now c =
     (case io_call SqlFailure (sql_update_challenge u (\<lambda>k. ch_version k = expected)
             (\<lambda>m. m\<lparr>ct_challenge := failed_challenge now (ct_challenge m)\<rparr>)) c of
        (Inl _, c1) \<Rightarrow> (Inl ErrStepUpInfra, c1)
      | (Inr n, c1) \<Rightarrow> if n \<noteq> 1 then (Inl ErrChallengeConflict, c1) else challenge_get u c1)"

section \<open>Proofs\<close>

definition put_step_up :: "step_up_state \<Rightarrow> authority_conn \<Rightarrow> (stepup_error + unit) \<times> authority_conn" where
  "put_step_up s c =
     (case io_call SqlFailure (sql_revoke_proofs (\<lambda>x. su_session_id x = su_session_id s \<and> su_user_id x = su_user_id s)
             (su_verified_at s)) c of
        (Inl _, c1) \<Rightarrow> (Inl ErrStepUpInfra, c1)
      | (Inr _, c1) \<Rightarrow>
          (case io_call SqlFailure (sql_insert_proof s) c1 of
             (Inl UniqueViolation, c2) \<Rightarrow> (Inl ErrChallengeConflict, c2)
           | (Inl SqlFailure, c2) \<Rightarrow> (Inl ErrStepUpInfra, c2)
           | (Inr n, c2) \<Rightarrow> if n \<noteq> 1 then (Inl ErrChallengeConflict, c2) else (Inr (), c2)))"

text \<open>The same on a repository that is not bound to a transaction.\<close>

definition put_step_up_standalone :: "step_up_state \<Rightarrow> authority_conn \<Rightarrow> (stepup_error + unit) \<times> authority_conn" where
  "put_step_up_standalone s = tx_run ErrStepUpInfra (put_step_up s)"

definition get_active_for_session ::
  "string \<Rightarrow> user_id \<Rightarrow> time \<Rightarrow> authority_conn \<Rightarrow> (stepup_error + step_up_state) \<times> authority_conn" where
  "get_active_for_session session u now c =
     (case io_call SqlFailure (sql_active_proof session u now) c of
        (Inl _, c1) \<Rightarrow> (Inl ErrStepUpInfra, c1)
      | (Inr None, c1) \<Rightarrow> (Inl ErrNoChallenge, c1)
      | (Inr (Some s), c1) \<Rightarrow> (Inr s, c1))"

definition proofs_revoke_for_user :: "user_id \<Rightarrow> time \<Rightarrow> authority_conn \<Rightarrow> (stepup_error + unit) \<times> authority_conn" where
  "proofs_revoke_for_user u now c =
     (case io_call SqlFailure (sql_revoke_proofs (\<lambda>x. su_user_id x = u) now) c of
        (Inl _, c1) \<Rightarrow> (Inl ErrStepUpInfra, c1)
      | (Inr _, c1) \<Rightarrow> (Inr (), c1))"

section \<open>Epochs\<close>

definition get_security_epoch :: "user_id \<Rightarrow> authority_conn \<Rightarrow> (stepup_error + int) \<times> authority_conn" where
  "get_security_epoch u c =
     (case io_call SqlFailure (sql_challenge u) c of
        (Inl _, c1) \<Rightarrow> (Inl ErrStepUpInfra, c1)
      | (Inr None, c1) \<Rightarrow> (Inl ErrNoChallenge, c1)
      | (Inr (Some m), c1) \<Rightarrow> (Inr (ch_security_epoch (ct_challenge m)), c1))"

text \<open>\<open>UPDATE ... RETURNING\<close>: the new epoch is the one of the row it changed.\<close>

definition increment_security_epoch ::
  "user_id \<Rightarrow> int \<Rightarrow> authority_conn \<Rightarrow> (stepup_error + int) \<times> authority_conn" where
  "increment_security_epoch u expected c =
     (let next = (\<lambda>m. m\<lparr>ct_challenge := (ct_challenge m)\<lparr>ch_security_epoch := ch_security_epoch (ct_challenge m) + 1,
                ch_version := ch_version (ct_challenge m) + 1, ch_updated_at := ad_now (au_admin (fst c))\<rparr>\<rparr>)
      in case io_call SqlFailure (sql_update_challenge u (\<lambda>k. ch_security_epoch k = expected) next) c of
           (Inl _, c1) \<Rightarrow> (Inl ErrStepUpInfra, c1)
         | (Inr n, c1) \<Rightarrow> if n \<noteq> 1 then (Inl ErrChallengeConflict, c1) else (Inr (expected + 1), c1))"

text \<open>\<open>adminStepUpAccountSecurityReader.CurrentEpoch\<close>; a missing user is an error as well.\<close>

definition account_current_epoch :: "user_id \<Rightarrow> authority_conn \<Rightarrow> (stepup_error + int) \<times> authority_conn" where
  "account_current_epoch u c =
     (case io_call SqlFailure (sql_account_epoch u) c of
        (Inl _, c1) \<Rightarrow> (Inl ErrStepUpInfra, c1)
      | (Inr None, c1) \<Rightarrow> (Inl ErrStepUpInfra, c1)
      | (Inr (Some e), c1) \<Rightarrow> if e < 1 then (Inl ErrStepUpInfra, c1) else (Inr e, c1))"

section \<open>Receipts, purges and audit\<close>

definition map_step_up_receipt_error :: "store_error \<Rightarrow> stepup_error" where
  "map_step_up_receipt_error e =
     (if e = ErrIdempotencyConflict then ErrStepUpIdempotencyConflict
      else if e = ErrInvalidOperationResult then ErrInvalidStoredReceipt else ErrStepUpInfra)"

definition stepup_create_or_replay ::
  "string \<Rightarrow> time \<Rightarrow> local_operation_receipt \<Rightarrow> authority_conn
     \<Rightarrow> (stepup_error + local_operation_receipt \<times> bool) \<times> authority_conn" where
  "stepup_create_or_replay fresh_id now r c =
     (case on_admin (on_outbox (create_or_replay fresh_id now (receipt_item r))) c of
        (Inl e, c1) \<Rightarrow> (Inl (map_step_up_receipt_error e), c1)
      | (Inr (item, replay), c1) \<Rightarrow> (Inr (from_adminstore_receipt item, replay), c1))"

definition stepup_complete_local ::
  "string \<Rightarrow> int \<Rightarrow> allowlisted_result \<Rightarrow> time \<Rightarrow> authority_conn \<Rightarrow> (stepup_error + unit) \<times> authority_conn" where
  "stepup_complete_local rid expected result at c =
     (case on_admin (on_outbox (complete_local rid expected result at)) c of
        (Inl e, c1) \<Rightarrow> (Inl (map_step_up_receipt_error e), c1)
      | (Inr _, c1) \<Rightarrow> (Inr (), c1))"

definition purge_item :: "string \<Rightarrow> string \<Rightarrow> fingerprint \<Rightarrow> time \<Rightarrow> outbox_item" where
  "purge_item fresh_id operation fp at =
     (receipt_item \<lparr>lr_id = fresh_id, lr_key = ''redis-purge:'' @ operation, lr_fingerprint = fp,
        lr_result = \<lparr>ar_code = [], ar_digest = [], ar_payload = None\<rparr>, lr_state = ''pending'', lr_version = 1,
        lr_created_at = at, lr_terminal_at = None\<rparr>)\<lparr>ob_kind := OperationRedisPurge, ob_next_attempt_at := at\<rparr>"

definition purge_enqueue ::
  "string \<Rightarrow> time \<Rightarrow> string \<Rightarrow> user_id \<Rightarrow> fingerprint \<Rightarrow> time \<Rightarrow> authority_conn \<Rightarrow> (stepup_error + unit) \<times> authority_conn" where
  "purge_enqueue fresh_id now operation u fp at c =
     (case on_admin (on_outbox (create_or_replay fresh_id now (purge_item fresh_id operation fp at))) c of
        (Inl _, c1) \<Rightarrow> (Inl ErrStepUpInfra, c1)
      | (Inr _, c1) \<Rightarrow> (Inr (), c1))"

record stepup_audit =
  sa_id :: string
  sa_actor_id :: user_id
  sa_event_id :: string
  sa_request_id :: string
  sa_action :: string
  sa_target :: string
  sa_result :: string

definition audit_row :: "stepup_audit \<Rightarrow> authority_event" where
  "audit_row a = \<lparr>av_type = ''admin.challenge.updated'', av_actor = sa_actor_id a, av_request_id = sa_request_id a,
     av_operation = sa_action a, av_result = (if sa_result a \<noteq> ''succeeded'' then ''denied'' else ''success''),
     av_target_kind = ''challenge'', av_target_id = sa_target a,
     av_extra = [(''dreamup_event_id'', sa_event_id a), (''operation_id'', sa_id a)]\<rparr>"

definition audit_record :: "stepup_audit \<Rightarrow> authority_conn \<Rightarrow> (stepup_error + unit) \<times> authority_conn" where
  "audit_record a c =
     (case io_call SqlFailure (sql_insert_authority_event (audit_row a)) c of
        (Inl _, c1) \<Rightarrow> (Inl ErrStepUpInfra, c1)
      | (Inr _, c1) \<Rightarrow> (Inr (), c1))"

definition approvals_revoke :: "user_id \<Rightarrow> time \<Rightarrow> authority_conn \<Rightarrow> (stepup_error + unit) \<times> authority_conn" where
  "approvals_revoke u at c =
     (case approvals_revoke_for_user u at c of
        (Inl _, c1) \<Rightarrow> (Inl ErrStepUpInfra, c1)
      | (Inr _, c1) \<Rightarrow> (Inr (), c1))"

end
