(* ===== verification/AdminStepUp.thy ===== *)
theory AdminStepUp
  imports StepUpStore AdminRoles ReauthStore RateChecks
begin

text \<open>
  The administrator step-up service (\<open>internal/adminstepup/service.go\<close>): enrollment, verification
  and rotation of the challenge that guards administrative actions.  A mutation is one
  serializable transaction on the authority database; the limiter and the grant store are in
  Redis, where nothing is rolled back.
\<close>

section \<open>States and requests\<close>

type_synonym stepup_state = string

definition StatePendingEnrollment :: stepup_state where "StatePendingEnrollment = ''pending_enrollment''"
definition StateRecoveryPending :: stepup_state where "StateRecoveryPending = ''recovery_pending''"
definition StateActive :: stepup_state where "StateActive = ''active''"
definition StateMustRotate :: stepup_state where "StateMustRotate = ''must_rotate''"
definition StateDisabled :: stepup_state where "StateDisabled = ''disabled''"

lemmas stepup_state_defs = StatePendingEnrollment_def StateRecoveryPending_def StateActive_def StateMustRotate_def
  StateDisabled_def

text \<open>The actions of \<open>internal/auth/reauth.go\<close> that belong to administration.\<close>

definition ReauthActionAdminRoleManagement :: string where "ReauthActionAdminRoleManagement = ''dreamup.admin.role.manage''"
definition ReauthActionAdminEventRegistry :: string where "ReauthActionAdminEventRegistry = ''dreamup.admin.event_registry.manage''"
definition ReauthActionAdminOAApproval :: string where "ReauthActionAdminOAApproval = ''dreamup.admin.oa.approve''"
definition ReauthActionAdminRestrictedView :: string where "ReauthActionAdminRestrictedView = ''dreamup.admin.restricted.view''"
definition ReauthActionAdminLegalView :: string where "ReauthActionAdminLegalView = ''dreamup.admin.legal.view''"
definition ReauthActionAdminExport :: string where "ReauthActionAdminExport = ''dreamup.admin.export''"
definition ReauthActionAdminChallengeRotate :: string where "ReauthActionAdminChallengeRotate = ''dreamup.admin.challenge.rotate''"
definition ReauthActionAdminCheckinWindowManage :: string where "ReauthActionAdminCheckinWindowManage = ''dreamup.admin.checkin_window.manage''"

lemmas admin_reauth_action_defs = ReauthActionAdminRoleManagement_def ReauthActionAdminEventRegistry_def
  ReauthActionAdminOAApproval_def ReauthActionAdminRestrictedView_def ReauthActionAdminLegalView_def
  ReauthActionAdminExport_def ReauthActionAdminChallengeRotate_def ReauthActionAdminCheckinWindowManage_def

record stepup_service =
  ss_hasher :: answer_hasher
  ss_cipher :: question_cipher
  ss_limiter :: "user_id \<Rightarrow> string \<Rightarrow> rl_conn \<Rightarrow> (duration \<times> admin_rate_error option) \<times> rl_conn"
  ss_fingerprint :: "string \<Rightarrow> string \<Rightarrow> fingerprint option"
  ss_marshal :: "(string \<times> string) list \<Rightarrow> string"
  ss_digest :: "string \<Rightarrow> string" \<comment> \<open>base64url of SHA-256\<close>
  ss_hash_bearer :: "string \<Rightarrow> string" \<comment> \<open>SHA-256 in hexadecimal\<close>
  ss_json_unmarshal :: "string \<Rightarrow> string list option"
  ss_json_marshal :: "string list \<Rightarrow> string"
  ss_now :: time
  ss_db_now :: time \<comment> \<open>\<open>time.Now\<close> of the repository\<close>
  ss_new_id :: "string \<Rightarrow> string option"
  ss_new_token :: "string option"
  ss_fresh_id :: string \<comment> \<open>\<open>newAdminID\<close> of the adapters\<close>
  ss_general_freshness :: duration
  ss_high_risk_freshness :: duration
  ss_grant_ttl :: duration

definition new_stepup_service :: "stepup_service \<Rightarrow> stepup_service option" where
  "new_stepup_service S =
     (if ss_general_freshness S \<le> 0 \<or> ss_high_risk_freshness S \<le> 0 \<or> ss_general_freshness S < ss_high_risk_freshness S
         \<or> ss_grant_ttl S \<le> 0 then None else Some S)"

record enroll_input =
  en_user_id :: user_id
  en_event_id :: string
  en_question :: string
  en_answer :: string
  en_key :: string
  en_request_id :: string

record verify_request =
  vq_user_id :: user_id
  vq_session_id :: string
  vq_event_id :: string
  vq_answer :: string
  vq_action :: string
  vq_target :: string
  vq_client :: string
  vq_key :: string
  vq_request_id :: string

record verify_result =
  vr_state :: stepup_state
  vr_verified_at :: time
  vr_expires_at :: time
  vr_reauth_grant :: string
  vr_grant_id :: string
  vr_challenge_version :: int
  vr_replayed :: bool

record rotate_input =
  ro_user_id :: user_id
  ro_event_id :: string
  ro_old_answer :: string
  ro_new_question :: string
  ro_new_answer :: string
  ro_client :: string
  ro_key :: string
  ro_request_id :: string
  ro_expected_version :: int

record challenge_view =
  cv_state :: stepup_state
  cv_question :: string
  cv_version :: int
  cv_credential_version :: int
  cv_locked_until :: "time option"

definition empty_verify_result :: verify_result where
  "empty_verify_result = \<lparr>vr_state = [], vr_verified_at = zero_time, vr_expires_at = zero_time, vr_reauth_grant = [],
     vr_grant_id = [], vr_challenge_version = 0, vr_replayed = False\<rparr>"

definition blank_challenge :: challenge where
  "blank_challenge = \<lparr>ch_user_id = [], ch_status = [], ch_must_rotate = False, ch_credential_version = 0,
     ch_security_epoch = 0, ch_failure_count = 0, ch_failure_window = None, ch_locked_until = None, ch_version = 0,
     ch_created_at = zero_time, ch_updated_at = zero_time\<rparr>"

section \<open>Guards\<close>

definition challenge_state :: "challenge \<Rightarrow> stepup_state" where
  "challenge_state k =
     (if ch_status k = ChallengeRecoveryPending then StateRecoveryPending
      else if ch_status k = ChallengeActive then (if ch_must_rotate k then StateMustRotate else StateActive)
      else StateDisabled)"

definition validate_mutation_identity :: "user_id \<Rightarrow> string \<Rightarrow> string \<Rightarrow> string \<Rightarrow> stepup_error option" where
  "validate_mutation_identity u ev rid key =
     (if u = [] \<or> trim_space ev = [] \<or> trim_space rid = [] then Some ErrStepUpInfra
      else if \<not> valid_idempotency_key key then Some ErrStepUpIdempotencyKey else None)"

definition binding_effective :: "binding \<Rightarrow> bool" where
  "binding_effective b \<longleftrightarrow> bd_enabled b \<and> bd_disabled_at b = None"

definition governing_role :: "role \<Rightarrow> bool" where
  "governing_role ro \<longleftrightarrow> ro = RoleSuperAdmin \<or> ro = RoleTopAdmin"

definition require_binding :: "user_id \<Rightarrow> event_id \<Rightarrow> authority_conn \<Rightarrow> (stepup_error + unit) \<times> authority_conn" where
  "require_binding u ev c =
     (if u = [] \<or> ev = [] then (Inl ErrStepUpDisabled, c)
      else
        let system = (\<lambda>c1.
              (case on_admin (get_for_scope u system_scope) c1 of
                 (Inr b, c2) \<Rightarrow> (if binding_effective b \<and> governing_role (bd_role b) then (Inr (), c2)
                                else (Inl ErrStepUpDisabled, c2))
               | (Inl e, c2) \<Rightarrow> if e \<noteq> ErrBindingNotFound then (Inl ErrStepUpInfra, c2) else (Inl ErrStepUpDisabled, c2)))
        in case on_admin (get_for_scope u (event_scope ev)) c of
             (Inr b, c1) \<Rightarrow> if binding_effective b then (Inr (), c1) else system c1
           | (Inl e, c1) \<Rightarrow> if e \<noteq> ErrBindingNotFound then (Inl ErrStepUpInfra, c1) else system c1)"

definition is_admin_reauth_action :: "string \<Rightarrow> bool" where
  "is_admin_reauth_action a \<longleftrightarrow> a \<in> set [ReauthActionAdminRoleManagement, ReauthActionAdminEventRegistry,
     ReauthActionAdminOAApproval, ReauthActionAdminRestrictedView, ReauthActionAdminLegalView, ReauthActionAdminExport,
     ReauthActionAdminChallengeRotate, ReauthActionAdminCheckinWindowManage]"

definition is_supported_admin_action :: "string \<Rightarrow> bool" where
  "is_supported_admin_action a \<longleftrightarrow> is_admin_reauth_action a \<or> a = ActionIdentityAccessRequest
     \<or> is_delegated_administrator_action a"

definition is_high_risk_admin_action :: "string \<Rightarrow> bool" where
  "is_high_risk_admin_action a \<longleftrightarrow> is_admin_reauth_action a \<or> is_high_risk_delegated_administrator_action a"

definition valid_admin_action_target :: "stepup_service \<Rightarrow> user_id \<Rightarrow> string \<Rightarrow> string \<Rightarrow> string \<Rightarrow> bool" where
  "valid_admin_action_target S u ev a target =
     (if target = [] \<or> target \<noteq> trim_space target then False
      else if a \<in> set [ReauthActionAdminRoleManagement, ReauthActionAdminEventRegistry, ReauthActionAdminCheckinWindowManage]
      then target = ev
      else if a = ReauthActionAdminChallengeRotate then target = u
      else if is_high_risk_delegated_administrator_action a
      then parse_reauthentication_target (ss_json_unmarshal S) (ss_json_marshal S) ev a target \<noteq> None
      else True)"

section \<open>Stored results\<close>

definition nul_join :: "string list \<Rightarrow> string" where
  "nul_join xs = str_join xs [CHR 0x00]"

definition encode_receipt :: "(string \<Rightarrow> string) \<Rightarrow> string \<Rightarrow> int \<Rightarrow> stepup_state \<Rightarrow> allowlisted_result" where
  "encode_receipt digest code v st = \<lparr>ar_code = code,
     ar_digest = digest (nul_join [''adminstepup-receipt/v1'', code, itoa v, st]),
     ar_payload = Some [(''version'', itoa v), (''status'', st)]\<rparr>"

definition encode_challenge_receipt :: "(string \<Rightarrow> string) \<Rightarrow> string \<Rightarrow> challenge \<Rightarrow> stepup_state \<Rightarrow> allowlisted_result" where
  "encode_challenge_receipt digest code k st = \<lparr>ar_code = code,
     ar_digest = digest (nul_join [''adminstepup-challenge-receipt/v1'', code, itoa (ch_version k),
                                   itoa (ch_credential_version k), st]),
     ar_payload = Some [(''version'', itoa (ch_version k)), (''credential_version'', itoa (ch_credential_version k)),
                        (''status'', st)]\<rparr>"

definition decode_receipt_version :: "(string \<Rightarrow> string) \<Rightarrow> allowlisted_result \<Rightarrow> string \<Rightarrow> stepup_error + int" where
  "decode_receipt_version digest res want =
     (case ar_payload res of
        None \<Rightarrow> Inl ErrInvalidStoredReceipt
      | Some kvs \<Rightarrow>
          if ar_code res \<noteq> want then Inl ErrInvalidStoredReceipt
          else let st = payload_get kvs ''status''
               in case parse_int64 (payload_get kvs ''version'') of
                    None \<Rightarrow> Inl ErrInvalidStoredReceipt
                  | Some v \<Rightarrow>
                      if v \<le> 0 \<or> st \<notin> {StateActive, StateMustRotate, StateRecoveryPending}
                         \<or> ar_digest (encode_receipt digest want v st) \<noteq> ar_digest res
                      then Inl ErrInvalidStoredReceipt else Inr v)"

definition payload_status :: "allowlisted_result \<Rightarrow> stepup_state" where
  "payload_status res = payload_get (payload_entries res) ''status''"

definition decode_verify_replay :: "(string \<Rightarrow> string) \<Rightarrow> allowlisted_result \<Rightarrow> verify_result \<times> stepup_error option" where
  "decode_verify_replay digest res =
     (case decode_receipt_version digest res (ar_code res) of
        Inl e \<Rightarrow> (empty_verify_result, Some e)
      | Inr v \<Rightarrow>
          (let r = empty_verify_result\<lparr>vr_state := payload_status res, vr_challenge_version := v\<rparr>
           in if ar_code res = ''challenge.verified'' then (r, None)
              else if ar_code res = ''challenge.rejected'' then (r, Some ErrInvalidChallengeAnswer)
              else if ar_code res = ''challenge.locked'' then (r, Some ErrChallengeLocked)
              else (empty_verify_result, Some ErrInvalidStoredReceipt)))"

definition decode_challenge_receipt :: "(string \<Rightarrow> string) \<Rightarrow> allowlisted_result \<Rightarrow> string \<Rightarrow> stepup_error + challenge" where
  "decode_challenge_receipt digest res want =
     (case ar_payload res of
        None \<Rightarrow> Inl ErrInvalidStoredReceipt
      | Some kvs \<Rightarrow>
          if ar_code res \<noteq> want then Inl ErrInvalidStoredReceipt
          else case (parse_int64 (payload_get kvs ''version''), parse_int64 (payload_get kvs ''credential_version'')) of
            (Some v, Some cv) \<Rightarrow>
              (let k = blank_challenge\<lparr>ch_status := ChallengeActive, ch_version := v, ch_credential_version := cv\<rparr>
               in if v \<le> 0 \<or> cv \<le> 0 \<or> payload_get kvs ''status'' \<noteq> StateActive
                     \<or> ar_digest (encode_challenge_receipt digest want k (payload_get kvs ''status'')) \<noteq> ar_digest res
                  then Inl ErrInvalidStoredReceipt else Inr k)
          | _ \<Rightarrow> Inl ErrInvalidStoredReceipt)"

definition decode_rotate_replay :: "(string \<Rightarrow> string) \<Rightarrow> allowlisted_result \<Rightarrow> challenge \<times> stepup_error option" where
  "decode_rotate_replay digest res =
     (let denied = (\<lambda>err. case decode_receipt_version digest res (ar_code res) of
                      Inl e \<Rightarrow> (blank_challenge, Some e)
                    | Inr v \<Rightarrow> (blank_challenge\<lparr>ch_status := ChallengeActive, ch_version := v\<rparr>, Some err))
      in if ar_code res = ''challenge.rotated''
         then (case decode_challenge_receipt digest res ''challenge.rotated'' of
                 Inl e \<Rightarrow> (blank_challenge, Some e) | Inr k \<Rightarrow> (k, None))
         else if ar_code res = ''challenge.rejected'' then denied ErrInvalidChallengeAnswer
         else if ar_code res = ''challenge.locked'' then denied ErrChallengeLocked
         else (blank_challenge, Some ErrInvalidStoredReceipt))"

definition challenge_record_id :: "user_id \<Rightarrow> string" where
  "challenge_record_id u = ''challenge:'' @ u"

definition begin_receipt ::
  "stepup_service \<Rightarrow> string \<Rightarrow> fingerprint \<Rightarrow> authority_conn \<Rightarrow> (stepup_error + local_operation_receipt \<times> bool) \<times> authority_conn" where
  "begin_receipt S key fp c =
     (case ss_new_id S ''aop_'' of
        None \<Rightarrow> (Inl ErrStepUpInfra, c)
      | Some rid \<Rightarrow> stepup_create_or_replay (ss_fresh_id S) (ss_db_now S) \<lparr>lr_id = rid, lr_key = key, lr_fingerprint = fp,
           lr_result = \<lparr>ar_code = [], ar_digest = [], ar_payload = None\<rparr>, lr_state = ''pending'', lr_version = 1,
           lr_created_at = ss_now S, lr_terminal_at = None\<rparr> c)"

section \<open>Reading\<close>

definition stepup_state_of ::
  "user_id \<Rightarrow> event_id \<Rightarrow> authority_conn \<Rightarrow> (stepup_error + stepup_state) \<times> authority_conn" where
  "stepup_state_of u ev c =
     (case require_binding u ev c of
        (Inl e, c1) \<Rightarrow> if e = ErrStepUpDisabled then (Inr StateDisabled, c1) else (Inl e, c1)
      | (Inr _, c1) \<Rightarrow>
          (case challenge_get u c1 of
             (Inl e, c2) \<Rightarrow> if e = ErrNoChallenge then (Inr StatePendingEnrollment, c2) else (Inl e, c2)
           | (Inr k, c2) \<Rightarrow> (Inr (challenge_state k), c2)))"

definition blank_view :: "stepup_state \<Rightarrow> challenge_view" where
  "blank_view st = \<lparr>cv_state = st, cv_question = [], cv_version = 0, cv_credential_version = 0, cv_locked_until = None\<rparr>"

definition view_of :: "stepup_state \<Rightarrow> string \<Rightarrow> challenge \<Rightarrow> challenge_view" where
  "view_of st q k = \<lparr>cv_state = st, cv_question = q, cv_version = ch_version k,
     cv_credential_version = ch_credential_version k, cv_locked_until = ch_locked_until k\<rparr>"

definition view_challenge ::
  "stepup_service \<Rightarrow> user_id \<Rightarrow> event_id \<Rightarrow> authority_conn \<Rightarrow> (stepup_error + challenge_view) \<times> authority_conn" where
  "view_challenge S u ev c =
     (case stepup_state_of u ev c of
        (Inl e, c1) \<Rightarrow> (Inl e, c1)
      | (Inr st, c1) \<Rightarrow>
          if st = StateDisabled \<or> st = StatePendingEnrollment then (Inr (blank_view st), c1)
          else case get_credential_for_verification u c1 of
            (Inl e, c2) \<Rightarrow>
              if e = ErrNoChallenge \<and> st = StateRecoveryPending
              then (case challenge_get u c2 of
                      (Inl e2, c3) \<Rightarrow> (Inl e2, c3) | (Inr k, c3) \<Rightarrow> (Inr (view_of st [] k), c3))
              else (Inl e, c2)
          | (Inr m, c2) \<Rightarrow>
              (case decrypt_value (ss_cipher S) PurposeChallengeQuestion u (challenge_record_id u)
                      (ch_credential_version (ct_challenge m))
                      \<lparr>ev_key_id = ct_question_key_id m, ev_nonce = ct_question_nonce m, ev_ciphertext = ct_question_ciphertext m\<rparr> of
                 None \<Rightarrow> (Inl ErrStepUpInfra, c2)
               | Some q \<Rightarrow> (Inr (view_of st q (ct_challenge m)), c2)))"

definition initial_enrollment_allowed ::
  "user_id \<Rightarrow> event_id \<Rightarrow> authority_conn \<Rightarrow> (stepup_error + bool) \<times> authority_conn" where
  "initial_enrollment_allowed u ev c =
     (if u = [] \<or> trim_space ev = [] then (Inr False, c)
      else case on_admin (get_for_scope u system_scope) c of
        (Inl e, c1) \<Rightarrow> if e = ErrBindingNotFound then (Inr False, c1) else (Inl ErrStepUpInfra, c1)
      | (Inr b, c1) \<Rightarrow>
          if \<not> binding_effective b \<or> \<not> governing_role (bd_role b) then (Inr False, c1)
          else case challenge_get u c1 of
            (Inl e, c2) \<Rightarrow> if e = ErrNoChallenge then (Inr True, c2) else (Inl e, c2)
          | (Inr k, c2) \<Rightarrow> (Inr False, c2))"

end
