(* ===== verification/StepUpMutations.thy ===== *)
theory StepUpMutations
  imports AdminStepUp
begin

text \<open>
  The three mutations of the step-up service, each a guard, a fingerprint of the canonical
  request and one transaction: \<open>Enroll\<close>, \<open>Verify\<close> and \<open>Rotate\<close> of
  \<open>internal/adminstepup/service.go\<close>.  A denied answer is a committed outcome, so the callback
  returns it as a value beside its verdict and not as an error, which would roll the failure
  count back.
\<close>

section \<open>The world of a mutation\<close>

type_synonym stepup_world = "authority_conn \<times> rl_conn \<times> reauth_conn"

definition on_db ::
  "(authority_conn \<Rightarrow> ('e + 'a) \<times> authority_conn) \<Rightarrow> stepup_world \<Rightarrow> ('e + 'a) \<times> stepup_world" where
  "on_db f w = (case f (fst w) of (r, c) \<Rightarrow> (r, (c, snd w)))"

definition limiter_gate :: "stepup_service \<Rightarrow> user_id \<Rightarrow> string \<Rightarrow> stepup_world \<Rightarrow> (stepup_error + unit) \<times> stepup_world" where
  "limiter_gate S u client w =
     (case ss_limiter S u client (fst (snd w)) of
        ((_, verdict), l) \<Rightarrow>
          (case verdict of
             None \<Rightarrow> (Inr (), (fst w, l, snd (snd w)))
           | Some ErrRateLimited \<Rightarrow> (Inl ErrChallengeRateLimited, (fst w, l, snd (snd w)))
           | Some (AdminRateFailure _) \<Rightarrow> (Inl ErrRateLimitUnavailable, (fst w, l, snd (snd w)))))"

definition create_grant ::
  "token_hash \<Rightarrow> reauth_grant \<Rightarrow> duration \<Rightarrow> stepup_world \<Rightarrow> (stepup_error + unit) \<times> stepup_world" where
  "create_grant h d ttl w =
     (case reauth_create_grant h d ttl (snd (snd w)) of
        (Inl _, g) \<Rightarrow> (Inl ErrStepUpInfra, (fst w, fst (snd w), g))
      | (Inr _, g) \<Rightarrow> (Inr (), (fst w, fst (snd w), g)))"

definition locked_at :: "time \<Rightarrow> challenge \<Rightarrow> bool" where
  "locked_at now k = (case ch_locked_until k of None \<Rightarrow> False | Some t \<Rightarrow> now < t)"

text \<open>
  What \<open>Verify\<close> and \<open>Rotate\<close> do about a wrong answer, up to the action and target of the audit
  record: count it, record the denial and complete the receipt with the verdict.
\<close>

definition reject_answer ::
  "stepup_service \<Rightarrow> local_operation_receipt \<Rightarrow> stepup_audit \<Rightarrow> credential_material \<Rightarrow> authority_conn
     \<Rightarrow> (stepup_error + stepup_error) \<times> authority_conn" where
  "reject_answer S receipt audit m c =
     (case record_failure (sa_actor_id audit) (ch_version (ct_challenge m)) (ss_now S) c of
        (Inl e, c1) \<Rightarrow> (Inl e, c1)
      | (Inr k, c1) \<Rightarrow>
          (let code = (if locked_at (ss_now S) k then ''challenge.locked'' else ''challenge.rejected'');
               verdict = (if locked_at (ss_now S) k then ErrChallengeLocked else ErrInvalidChallengeAnswer)
           in case audit_record (audit\<lparr>sa_result := ''denied''\<rparr>) c1 of
                (Inl e, c2) \<Rightarrow> (Inl e, c2)
              | (Inr _, c2) \<Rightarrow>
                  (case stepup_complete_local (lr_id receipt) (lr_version receipt)
                          (encode_receipt (ss_digest S) code (ch_version k) (challenge_state k)) (ss_now S) c2 of
                     (Inl e, c3) \<Rightarrow> (Inl e, c3)
                   | (Inr _, c3) \<Rightarrow> (Inr verdict, c3))))"

definition new_credential ::
  "stepup_service \<Rightarrow> user_id \<Rightarrow> encrypted_value \<Rightarrow> string \<Rightarrow> string \<Rightarrow> credential_material" where
  "new_credential S u sealed phc pepper = \<lparr>ct_challenge = blank_challenge\<lparr>ch_user_id := u, ch_status := ChallengeActive\<rparr>,
     ct_question_key_id = ev_key_id sealed, ct_question_nonce = ev_nonce sealed,
     ct_question_ciphertext = ev_ciphertext sealed, ct_answer_phc = phc, ct_answer_pepper_key_id = pepper\<rparr>"

section \<open>Enrollment\<close>

definition enroll_store ::
  "stepup_service \<Rightarrow> enroll_input \<Rightarrow> string \<Rightarrow> string \<Rightarrow> local_operation_receipt \<Rightarrow> int \<Rightarrow> int
     \<Rightarrow> authority_conn \<Rightarrow> (stepup_error + challenge) \<times> authority_conn" where
  "enroll_store S i question answer receipt expected credential_version c =
     (case hash_answer (ss_hasher S) answer of
        Inl e \<Rightarrow> (Inl e, c)
      | Inr (phc, pepper) \<Rightarrow>
     (case encrypt_value (ss_cipher S) PurposeChallengeQuestion (en_user_id i) (challenge_record_id (en_user_id i))
             credential_version question of
        None \<Rightarrow> (Inl ErrStepUpInfra, c)
      | Some sealed \<Rightarrow>
     (case put_credential (ss_db_now S) (new_credential S (en_user_id i) sealed phc pepper) expected c of
        (Inl e, c1) \<Rightarrow> (Inl e, c1)
      | (Inr k, c1) \<Rightarrow>
     (case audit_record \<lparr>sa_id = lr_id receipt, sa_actor_id = en_user_id i, sa_event_id = en_event_id i,
              sa_request_id = en_request_id i, sa_action = ''admin.challenge.enroll'', sa_target = en_user_id i,
              sa_result = ''succeeded''\<rparr> c1 of
        (Inl e, c2) \<Rightarrow> (Inl e, c2)
      | (Inr _, c2) \<Rightarrow>
     (case stepup_complete_local (lr_id receipt) (lr_version receipt)
             (encode_challenge_receipt (ss_digest S) ''challenge.enrolled'' k StateActive) (ss_now S) c2 of
        (Inl e, c3) \<Rightarrow> (Inl e, c3)
      | (Inr _, c3) \<Rightarrow> (Inr k, c3))))))"

definition enroll_body ::
  "stepup_service \<Rightarrow> enroll_input \<Rightarrow> string \<Rightarrow> string \<Rightarrow> fingerprint \<Rightarrow> authority_conn \<Rightarrow> (stepup_error + challenge) \<times> authority_conn" where
  "enroll_body S i question answer fp c =
     (case begin_receipt S (en_key i) fp c of
        (Inl e, c1) \<Rightarrow> (Inl e, c1)
      | (Inr (receipt, True), c1) \<Rightarrow>
          (case decode_challenge_receipt (ss_digest S) (lr_result receipt) ''challenge.enrolled'' of
             Inl e \<Rightarrow> (Inl e, c1) | Inr k \<Rightarrow> (Inr (k\<lparr>ch_user_id := en_user_id i\<rparr>), c1))
      | (Inr (receipt, False), c1) \<Rightarrow>
          (case challenge_get (en_user_id i) c1 of
             (Inl e, c2) \<Rightarrow>
               if e = ErrNoChallenge then enroll_store S i question answer receipt 0 1 c2 else (Inl e, c2)
           | (Inr current, c2) \<Rightarrow>
               if ch_status current = ChallengeRecoveryPending
               then enroll_store S i question answer receipt (ch_version current)
                      (if 0 < ch_version current then ch_credential_version current + 1 else 1) c2
               else (Inl ErrEnrollmentNotAllowed, c2)))"

definition enroll_challenge :: "stepup_service \<Rightarrow> enroll_input \<Rightarrow> authority_conn \<Rightarrow> (stepup_error + challenge) \<times> authority_conn" where
  "enroll_challenge S i c =
     (case validate_mutation_identity (en_user_id i) (en_event_id i) (en_request_id i) (en_key i) of
        Some e \<Rightarrow> (Inl e, c)
      | None \<Rightarrow>
     (case require_binding (en_user_id i) (en_event_id i) c of
        (Inl e, c1) \<Rightarrow> (Inl e, c1)
      | (Inr _, c1) \<Rightarrow>
     (case normalize_question (ah_unicode (ss_hasher S)) (en_question i) of
        Inl e \<Rightarrow> (Inl e, c1)
      | Inr question \<Rightarrow>
     (case normalize_answer (ah_unicode (ss_hasher S)) (en_answer i) of
        Inl e \<Rightarrow> (Inl e, c1)
      | Inr answer \<Rightarrow>
          if question = answer then (Inl ErrQuestionEqualsAnswer, c1)
          else case ss_fingerprint S ''adminstepup.enroll'' (ss_marshal S [(''userId'', en_user_id i),
                      (''eventId'', en_event_id i), (''question'', question), (''answer'', answer)]) of
            None \<Rightarrow> (Inl ErrStepUpInfra, c1)
          | Some fp \<Rightarrow> tx_run ErrStepUpInfra (enroll_body S i question answer fp) c1))))"

section \<open>Verification\<close>

definition grant_data :: "stepup_service \<Rightarrow> verify_request \<Rightarrow> string \<Rightarrow> int \<Rightarrow> int \<Rightarrow> reauth_grant" where
  "grant_data S q gid account_epoch credential_version = \<lparr>rg_grant_id = gid, rg_user_id = vq_user_id q,
     rg_session_id = vq_session_id q, rg_action = vq_action q, rg_application_id = [], rg_client_id = [],
     rg_target = vq_target q, rg_created_at = ss_now S, rg_security_epoch = account_epoch,
     rg_challenge_version = credential_version\<rparr>"

definition high_risk_grant ::
  "stepup_service \<Rightarrow> verify_request \<Rightarrow> int \<Rightarrow> int \<Rightarrow> verify_result \<Rightarrow> stepup_world \<Rightarrow> (stepup_error + verify_result) \<times> stepup_world" where
  "high_risk_grant S q account_epoch credential_version r w =
     (if \<not> is_high_risk_admin_action (vq_action q) then (Inr r, w)
      else case ss_new_token S of
        None \<Rightarrow> (Inl ErrStepUpInfra, w)
      | Some bearer \<Rightarrow>
     (case ss_new_id S ''rgr_'' of
        None \<Rightarrow> (Inl ErrStepUpInfra, w)
      | Some gid \<Rightarrow>
          let ttl = min (ss_grant_ttl S) (ss_high_risk_freshness S)
          in case create_grant (ss_hash_bearer S bearer) (grant_data S q gid account_epoch credential_version) ttl w of
               (Inl e, w1) \<Rightarrow> (Inl e, w1)
             | (Inr _, w1) \<Rightarrow> (Inr (r\<lparr>vr_reauth_grant := bearer, vr_grant_id := gid, vr_expires_at := ss_now S + ttl\<rparr>), w1)))"

definition verify_audit :: "verify_request \<Rightarrow> local_operation_receipt \<Rightarrow> stepup_audit" where
  "verify_audit q receipt = \<lparr>sa_id = lr_id receipt, sa_actor_id = vq_user_id q, sa_event_id = vq_event_id q,
     sa_request_id = vq_request_id q, sa_action = vq_action q, sa_target = vq_target q, sa_result = ''succeeded''\<rparr>"

definition verify_accepted ::
  "stepup_service \<Rightarrow> verify_request \<Rightarrow> local_operation_receipt \<Rightarrow> challenge \<Rightarrow> stepup_world \<Rightarrow> (stepup_error + verify_result) \<times> stepup_world" where
  "verify_accepted S q receipt k w =
     (case ss_new_id S ''asu_'' of
        None \<Rightarrow> (Inl ErrStepUpInfra, w)
      | Some sid \<Rightarrow>
     (case on_db (account_current_epoch (vq_user_id q)) w of
        (Inl e, w1) \<Rightarrow> (Inl e, w1)
      | (Inr account_epoch, w1) \<Rightarrow>
          if account_epoch < 1 then (Inl ErrInvalidVerifyRequest, w1)
          else
     (case on_db (put_step_up \<lparr>su_id = sid, su_session_id = vq_session_id q, su_user_id = vq_user_id q,
              su_challenge_version = ch_credential_version k, su_security_epoch = account_epoch,
              su_verified_at = ss_now S, su_expires_at = ss_now S + ss_general_freshness S, su_revoked_at = None\<rparr>) w1 of
        (Inl e, w2) \<Rightarrow> (Inl e, w2)
      | (Inr _, w2) \<Rightarrow>
     (case high_risk_grant S q account_epoch (ch_credential_version k) (empty_verify_result\<lparr>vr_state := challenge_state k,
              vr_verified_at := ss_now S, vr_expires_at := ss_now S + ss_general_freshness S,
              vr_challenge_version := ch_credential_version k\<rparr>) w2 of
        (Inl e, w3) \<Rightarrow> (Inl e, w3)
      | (Inr r, w3) \<Rightarrow>
     (case on_db (audit_record (verify_audit q receipt)) w3 of
        (Inl e, w4) \<Rightarrow> (Inl e, w4)
      | (Inr _, w4) \<Rightarrow>
     (case on_db (stepup_complete_local (lr_id receipt) (lr_version receipt)
              (encode_receipt (ss_digest S) ''challenge.verified'' (ch_credential_version k) (challenge_state k)) (ss_now S)) w4 of
        (Inl e, w5) \<Rightarrow> (Inl e, w5)
      | (Inr _, w5) \<Rightarrow> (Inr r, w5)))))))"

definition verify_body ::
  "stepup_service \<Rightarrow> verify_request \<Rightarrow> string \<Rightarrow> fingerprint \<Rightarrow> stepup_world
     \<Rightarrow> (stepup_error + verify_result \<times> stepup_error option) \<times> stepup_world" where
  "verify_body S q answer fp w =
     (case on_db (begin_receipt S (vq_key q) fp) w of
        (Inl e, w1) \<Rightarrow> (Inl e, w1)
      | (Inr (receipt, True), w1) \<Rightarrow>
          (case decode_verify_replay (ss_digest S) (lr_result receipt) of
             (r, verdict) \<Rightarrow> (Inr (r\<lparr>vr_replayed := True\<rparr>, verdict), w1))
      | (Inr (receipt, False), w1) \<Rightarrow>
     (case on_db (get_credential_for_verification (vq_user_id q)) w1 of
        (Inl e, w2) \<Rightarrow> (Inl (if e = ErrNoChallenge then ErrEnrollmentRequired else e), w2)
      | (Inr m, w2) \<Rightarrow>
          if challenge_state (ct_challenge m) = StateMustRotate \<and> vq_action q \<noteq> ReauthActionAdminChallengeRotate
          then (Inl ErrRotationRequired, w2)
          else if locked_at (ss_now S) (ct_challenge m) then (Inl ErrChallengeLocked, w2)
          else
     (case limiter_gate S (vq_user_id q) (vq_client q) w2 of
        (Inl e, w3) \<Rightarrow> (Inl e, w3)
      | (Inr _, w3) \<Rightarrow>
     (case verify_answer (ss_hasher S) answer (ct_answer_phc m) (ct_answer_pepper_key_id m) of
        Inl e \<Rightarrow> (Inl e, w3)
      | Inr verified \<Rightarrow>
          if \<not> verified
          then (case on_db (reject_answer S receipt (verify_audit q receipt) m) w3 of
                  (Inl e, w4) \<Rightarrow> (Inl e, w4)
                | (Inr verdict, w4) \<Rightarrow> (Inr (empty_verify_result, Some verdict), w4))
          else (case verify_accepted S q receipt (ct_challenge m) w3 of
                  (Inl e, w4) \<Rightarrow> (Inl e, w4)
                | (Inr r, w4) \<Rightarrow> (Inr (r, None), w4))))))"

definition verify_challenge ::
  "stepup_service \<Rightarrow> verify_request \<Rightarrow> stepup_world \<Rightarrow> (stepup_error + verify_result \<times> stepup_error option) \<times> stepup_world" where
  "verify_challenge S q w =
     (case validate_mutation_identity (vq_user_id q) (vq_event_id q) (vq_request_id q) (vq_key q) of
        Some e \<Rightarrow> (Inl e, w)
      | None \<Rightarrow>
          if vq_session_id q = [] \<or> vq_action q = [] \<or> vq_client q = [] then (Inl ErrInvalidVerifyRequest, w)
          else if \<not> is_supported_admin_action (vq_action q) then (Inl ErrUnsupportedAction, w)
          else if \<not> valid_admin_action_target S (vq_user_id q) (vq_event_id q) (vq_action q) (vq_target q)
          then (Inl ErrInvalidActionTarget, w)
          else
     (case on_db (require_binding (vq_user_id q) (vq_event_id q)) w of
        (Inl e, w1) \<Rightarrow> (Inl e, w1)
      | (Inr _, w1) \<Rightarrow>
     (case normalize_answer (ah_unicode (ss_hasher S)) (vq_answer q) of
        Inl e \<Rightarrow> (Inl e, w1)
      | Inr answer \<Rightarrow>
     (case ss_fingerprint S ''adminstepup.verify'' (ss_marshal S [(''userId'', vq_user_id q),
              (''sessionId'', vq_session_id q), (''eventId'', vq_event_id q), (''answer'', answer),
              (''action'', vq_action q), (''target'', vq_target q), (''clientFingerprint'', vq_client q)]) of
        None \<Rightarrow> (Inl ErrStepUpInfra, w1)
      | Some fp \<Rightarrow> tx_within ErrStepUpInfra (verify_body S q answer fp) w1))))"

section \<open>Rotation\<close>

definition rotate_audit :: "rotate_input \<Rightarrow> local_operation_receipt \<Rightarrow> stepup_audit" where
  "rotate_audit i receipt = \<lparr>sa_id = lr_id receipt, sa_actor_id = ro_user_id i, sa_event_id = ro_event_id i,
     sa_request_id = ro_request_id i, sa_action = ReauthActionAdminChallengeRotate, sa_target = ro_user_id i,
     sa_result = ''succeeded''\<rparr>"

definition rotate_accepted ::
  "stepup_service \<Rightarrow> rotate_input \<Rightarrow> string \<Rightarrow> string \<Rightarrow> fingerprint \<Rightarrow> local_operation_receipt \<Rightarrow> challenge
     \<Rightarrow> authority_conn \<Rightarrow> (stepup_error + challenge) \<times> authority_conn" where
  "rotate_accepted S i question answer fp receipt k c =
     (case hash_answer (ss_hasher S) answer of
        Inl e \<Rightarrow> (Inl e, c)
      | Inr (phc, pepper) \<Rightarrow>
     (case encrypt_value (ss_cipher S) PurposeChallengeQuestion (ro_user_id i) (challenge_record_id (ro_user_id i))
             (ch_credential_version k + 1) question of
        None \<Rightarrow> (Inl ErrStepUpInfra, c)
      | Some sealed \<Rightarrow>
     (case put_credential (ss_db_now S) (new_credential S (ro_user_id i) sealed phc pepper) (ro_expected_version i) c of
        (Inl e, c1) \<Rightarrow> (Inl e, c1)
      | (Inr next, c1) \<Rightarrow>
     (case proofs_revoke_for_user (ro_user_id i) (ss_now S) c1 of
        (Inl e, c2) \<Rightarrow> (Inl e, c2)
      | (Inr _, c2) \<Rightarrow>
     (case approvals_revoke (ro_user_id i) (ss_now S) c2 of
        (Inl e, c3) \<Rightarrow> (Inl e, c3)
      | (Inr _, c3) \<Rightarrow>
     (case purge_enqueue (ss_fresh_id S) (ss_db_now S) (lr_id receipt) (ro_user_id i) fp (ss_now S) c3 of
        (Inl e, c4) \<Rightarrow> (Inl e, c4)
      | (Inr _, c4) \<Rightarrow>
     (case audit_record (rotate_audit i receipt) c4 of
        (Inl e, c5) \<Rightarrow> (Inl e, c5)
      | (Inr _, c5) \<Rightarrow>
     (case stepup_complete_local (lr_id receipt) (lr_version receipt)
             (encode_challenge_receipt (ss_digest S) ''challenge.rotated'' next StateActive) (ss_now S) c5 of
        (Inl e, c6) \<Rightarrow> (Inl e, c6)
      | (Inr _, c6) \<Rightarrow> (Inr next, c6)))))))))"

definition rotate_body ::
  "stepup_service \<Rightarrow> rotate_input \<Rightarrow> string \<Rightarrow> string \<Rightarrow> string \<Rightarrow> fingerprint \<Rightarrow> stepup_world
     \<Rightarrow> (stepup_error + challenge \<times> stepup_error option) \<times> stepup_world" where
  "rotate_body S i old_answer question answer fp w =
     (case on_db (begin_receipt S (ro_key i) fp) w of
        (Inl e, w1) \<Rightarrow> (Inl e, w1)
      | (Inr (receipt, True), w1) \<Rightarrow>
          (case decode_rotate_replay (ss_digest S) (lr_result receipt) of
             (k, verdict) \<Rightarrow> (Inr (k\<lparr>ch_user_id := ro_user_id i\<rparr>, verdict), w1))
      | (Inr (receipt, False), w1) \<Rightarrow>
     (case on_db (get_credential_for_verification (ro_user_id i)) w1 of
        (Inl e, w2) \<Rightarrow> (Inl (if e = ErrNoChallenge then ErrEnrollmentRequired else e), w2)
      | (Inr m, w2) \<Rightarrow>
          if ch_version (ct_challenge m) \<noteq> ro_expected_version i then (Inl ErrChallengeConflict, w2)
          else if locked_at (ss_now S) (ct_challenge m) then (Inl ErrChallengeLocked, w2)
          else
     (case limiter_gate S (ro_user_id i) (ro_client i) w2 of
        (Inl e, w3) \<Rightarrow> (Inl e, w3)
      | (Inr _, w3) \<Rightarrow>
     (case verify_answer (ss_hasher S) old_answer (ct_answer_phc m) (ct_answer_pepper_key_id m) of
        Inl e \<Rightarrow> (Inl e, w3)
      | Inr verified \<Rightarrow>
          if \<not> verified
          then (case on_db (reject_answer S receipt (rotate_audit i receipt) m) w3 of
                  (Inl e, w4) \<Rightarrow> (Inl e, w4)
                | (Inr verdict, w4) \<Rightarrow> (Inr (blank_challenge, Some verdict), w4))
          else (case on_db (rotate_accepted S i question answer fp receipt (ct_challenge m)) w3 of
                  (Inl e, w4) \<Rightarrow> (Inl e, w4)
                | (Inr k, w4) \<Rightarrow> (Inr (k, None), w4))))))"

definition rotate_challenge :: "stepup_service \<Rightarrow> rotate_input \<Rightarrow> stepup_world \<Rightarrow> (stepup_error + challenge) \<times> stepup_world" where
  "rotate_challenge S i w =
     (case validate_mutation_identity (ro_user_id i) (ro_event_id i) (ro_request_id i) (ro_key i) of
        Some e \<Rightarrow> (Inl e, w)
      | None \<Rightarrow>
          if ro_expected_version i \<le> 0 then (Inl ErrStepUpIfMatch, w)
          else if ro_client i = [] then (Inl ErrStepUpInfra, w)
          else
     (case on_db (require_binding (ro_user_id i) (ro_event_id i)) w of
        (Inl e, w1) \<Rightarrow> (Inl e, w1)
      | (Inr _, w1) \<Rightarrow>
     (case normalize_answer (ah_unicode (ss_hasher S)) (ro_old_answer i) of
        Inl e \<Rightarrow> (Inl e, w1)
      | Inr old_answer \<Rightarrow>
     (case normalize_question (ah_unicode (ss_hasher S)) (ro_new_question i) of
        Inl e \<Rightarrow> (Inl e, w1)
      | Inr question \<Rightarrow>
     (case normalize_answer (ah_unicode (ss_hasher S)) (ro_new_answer i) of
        Inl e \<Rightarrow> (Inl e, w1)
      | Inr answer \<Rightarrow>
          if question = answer then (Inl ErrQuestionEqualsAnswer, w1)
          else
     (case ss_fingerprint S ''adminstepup.rotate'' (ss_marshal S [(''userId'', ro_user_id i), (''eventId'', ro_event_id i),
              (''oldAnswer'', old_answer), (''newQuestion'', question), (''newAnswer'', answer),
              (''clientFingerprint'', ro_client i), (''expectedVersion'', itoa (ro_expected_version i))]) of
        None \<Rightarrow> (Inl ErrStepUpInfra, w1)
      | Some fp \<Rightarrow>
          (case tx_within ErrStepUpInfra (rotate_body S i old_answer question answer fp) w1 of
             (Inl e, w2) \<Rightarrow> (Inl e, w2)
           | (Inr (k, Some verdict), w2) \<Rightarrow> (Inl verdict, w2)
           | (Inr (k, None), w2) \<Rightarrow> (Inr k, w2))))))))"

end
