(* ===== verification/StepUpEffects.thy ===== *)
theory StepUpEffects
  imports StepUpMutations RoleMutations Windows
begin

text \<open>
  What the step-up mutations do to the authority database: the frames of the repository methods
  and the effect of a committed transaction, by its verdict.
\<close>

section \<open>Frames\<close>

text \<open>The receipt ledger may change, and nothing else.\<close>

definition only_outbox :: "authority_db \<Rightarrow> authority_db \<Rightarrow> bool" where
  "only_outbox db db' \<longleftrightarrow> (\<exists>ob. db' = db\<lparr>au_admin := (au_admin db)\<lparr>ad_outbox := ob\<rparr>\<rparr>)"

lemma only_outbox_refl [simp]: "only_outbox db db"
  unfolding only_outbox_def by (rule exI [of _ "ad_outbox (au_admin db)"]) simp

lemma only_outbox_trans: "only_outbox a b \<Longrightarrow> only_outbox b c \<Longrightarrow> only_outbox a c"
  by (auto simp: only_outbox_def)

lemma only_outbox_sel:
  assumes "only_outbox db db'"
  shows "au_challenges db' = au_challenges db" "au_proofs db' = au_proofs db" "au_epoch db' = au_epoch db"
    "au_approvals db' = au_approvals db" "au_requests db' = au_requests db" "au_grants db' = au_grants db"
    "au_events db' = au_events db" "ad_users (au_admin db') = ad_users (au_admin db)"
    "ad_bindings (au_admin db') = ad_bindings (au_admin db)"
  using assms by (auto simp: only_outbox_def)

lemma on_admin_outbox: "only_outbox (fst c) (fst (snd (on_admin (on_outbox f) c)))"
proof -
  obtain r c1 where f: "f (\<lparr>ot_rows = ad_outbox (au_admin (fst c)), ot_clock = ad_now (au_admin (fst c))\<rparr>, snd c) = (r, c1)"
    by (rule prod.exhaust)
  then show ?thesis by (auto simp: on_admin_def on_outbox_def only_outbox_def)
qed

lemma outbox_frame:
  "on_admin (on_outbox f) c = (r, c') \<Longrightarrow> only_outbox (fst c) (fst c')"
  using on_admin_outbox [of c f] by simp

lemma receipt_frames:
  "stepup_create_or_replay fid now r c = (x, c') \<Longrightarrow> only_outbox (fst c) (fst c')"
  "stepup_complete_local rid v res at c = (y, c') \<Longrightarrow> only_outbox (fst c) (fst c')"
  "purge_enqueue fid now oid u fp at c = (y, c') \<Longrightarrow> only_outbox (fst c) (fst c')"
  by (auto simp: stepup_create_or_replay_def stepup_complete_local_def purge_enqueue_def
      split: prod.splits sum.splits dest: outbox_frame)

lemma begin_receipt_frame: "begin_receipt S key fp c = (x, c') \<Longrightarrow> only_outbox (fst c) (fst c')"
  by (auto simp: begin_receipt_def split: option.splits dest: receipt_frames(1))

lemma on_admin_reads:
  assumes "\<And>c. fst (snd (f c)) = fst c"
  shows "on_admin f c = (r, c') \<Longrightarrow> fst c' = fst c"
  using assms [of "(au_admin (fst c), snd c)"] by (auto simp: on_admin_def split: prod.splits)

lemma require_binding_reads: "require_binding u ev c = (r, c') \<Longrightarrow> fst c' = fst c"
  by (auto simp: require_binding_def Let_def split: if_splits prod.splits sum.splits
      dest!: on_admin_reads [OF get_for_scope_reads])

text \<open>Who passes \<open>requireBinding\<close> has standing for the event.\<close>

definition standing :: "authority_db \<Rightarrow> user_id \<Rightarrow> event_id \<Rightarrow> bool" where
  "standing db u ev \<longleftrightarrow> (\<exists>b\<in>set (ad_bindings (au_admin db)). bd_user_id b = u \<and> bd_enabled b \<and> bd_disabled_at b = None
     \<and> (bd_scope b = event_scope ev \<or> bd_scope b = system_scope \<and> governing_role (bd_role b)))"

lemma on_admin_get:
  "on_admin (get_for_scope u s) c = (Inr b, c') \<Longrightarrow>
     b \<in> set (ad_bindings (au_admin (fst c))) \<and> bd_user_id b = u \<and> bd_scope b = s"
  by (auto simp: on_admin_def split: prod.splits dest!: get_for_scope_ok)

lemma require_binding_standing:
  assumes "require_binding u ev c = (Inr x, c')"
  shows "standing (fst c) u ev"
proof -
  obtain r c1 where e: "on_admin (get_for_scope u (event_scope ev)) c = (r, c1)" by (rule prod.exhaust)
  have c1: "fst c1 = fst c" using on_admin_reads [OF get_for_scope_reads e] .
  obtain r2 c2 where s: "on_admin (get_for_scope u system_scope) c1 = (r2, c2)" by (rule prod.exhaust)
  consider b where "r = Inr b" "binding_effective b"
    | b where "r2 = Inr b" "binding_effective b" "governing_role (bd_role b)"
    using assms e s by (auto simp: require_binding_def Let_def split: if_splits sum.splits)
  then show ?thesis
  proof cases
    case 1
    with on_admin_get [of u "event_scope ev" c b c1] e show ?thesis
      by (auto simp: standing_def binding_effective_def)
  next
    case 2
    with on_admin_get [of u system_scope c1 b c2] s c1 show ?thesis
      by (auto simp: standing_def binding_effective_def)
  qed
qed

section \<open>The methods\<close>

lemma sql_challenge_reads: "io_call SqlFailure (sql_challenge u) c = (r, c') \<Longrightarrow> fst c' = fst c"
  using io_call_pure [of "sql_challenge u" SqlFailure c] by (simp add: sql_challenge_def)

lemma challenge_get_reads: "challenge_get u c = (r, c') \<Longrightarrow> fst c' = fst c"
  by (auto simp: challenge_get_def split: prod.splits sum.splits option.splits dest: sql_challenge_reads)

lemma challenge_get_ok:
  "challenge_get u c = (Inr k, c') \<Longrightarrow>
     \<exists>m. au_challenges (fst c) u = Some m \<and> k = (ct_challenge m)\<lparr>ch_user_id := u\<rparr>"
  by (auto simp: challenge_get_def sql_challenge_def split: prod.splits sum.splits option.splits dest!: io_call_ok)

lemma get_credential_reads: "get_credential_for_verification u c = (r, c') \<Longrightarrow> fst c' = fst c"
  by (auto simp: get_credential_for_verification_def split: prod.splits sum.splits option.splits if_splits
      dest: sql_challenge_reads)

lemma get_credential_ok:
  "get_credential_for_verification u c = (Inr m, c') \<Longrightarrow>
     \<exists>m0. au_challenges (fst c) u = Some m0 \<and> m = m0\<lparr>ct_challenge := (ct_challenge m0)\<lparr>ch_user_id := u\<rparr>\<rparr>
        \<and> ch_status (ct_challenge m0) = ChallengeActive"
  by (auto simp: get_credential_for_verification_def sql_challenge_def
      split: prod.splits sum.splits option.splits if_splits dest!: io_call_ok)

lemma sql_update_challenge_ok:
  "sql_update_challenge u p f db = (Inr n, db') \<Longrightarrow> n = 1 \<Longrightarrow>
     \<exists>m. au_challenges db u = Some m \<and> p (ct_challenge m) \<and> challenge_check (f m)
       \<and> db' = db\<lparr>au_challenges := (au_challenges db)(u \<mapsto> f m)\<rparr>"
  by (auto simp: sql_update_challenge_def split: option.splits if_splits)

lemma record_failure_ok:
  assumes "record_failure u v now c = (Inr k, c')"
  shows "\<exists>m. au_challenges (fst c) u = Some m \<and> ch_version (ct_challenge m) = v
    \<and> k = (failed_challenge now (ct_challenge m))\<lparr>ch_user_id := u\<rparr>
    \<and> fst c' = (fst c)\<lparr>au_challenges := (au_challenges (fst c))(u \<mapsto> m\<lparr>ct_challenge := failed_challenge now (ct_challenge m)\<rparr>)\<rparr>"
proof -
  let ?f = "sql_update_challenge u (\<lambda>k. ch_version k = v) (\<lambda>m. m\<lparr>ct_challenge := failed_challenge now (ct_challenge m)\<rparr>)"
  obtain c1 where up: "io_call SqlFailure ?f c = (Inr 1, c1)" and get: "challenge_get u c1 = (Inr k, c')"
    using assms by (auto simp: record_failure_def split: prod.splits sum.splits if_splits)
  from sql_update_challenge_ok [OF io_call_ok [OF up]]
  obtain m where m: "au_challenges (fst c) u = Some m" "ch_version (ct_challenge m) = v"
    "fst c1 = (fst c)\<lparr>au_challenges := (au_challenges (fst c))(u \<mapsto> m\<lparr>ct_challenge := failed_challenge now (ct_challenge m)\<rparr>)\<rparr>"
    by auto
  with challenge_get_ok [OF get] challenge_get_reads [OF get] show ?thesis by auto
qed

lemma audit_record_ok:
  "audit_record a c = (Inr x, c') \<Longrightarrow> fst c' = (fst c)\<lparr>au_events := au_events (fst c) @ [audit_row a]\<rparr>"
  by (auto simp: audit_record_def sql_insert_authority_event_def split: prod.splits sum.splits dest!: io_call_ok)

lemma account_epoch_ok:
  "account_current_epoch u c = (Inr e, c') \<Longrightarrow> fst c' = fst c \<and> e = au_epoch (fst c) u \<and> 1 \<le> e"
  by (auto simp: account_current_epoch_def sql_account_epoch_def split: prod.splits sum.splits option.splits if_splits
      dest!: io_call_ok)

definition revoke_if :: "(step_up_state \<Rightarrow> bool) \<Rightarrow> time \<Rightarrow> step_up_state \<Rightarrow> step_up_state" where
  "revoke_if p at s = (if p s \<and> su_revoked_at s = None then s\<lparr>su_revoked_at := Some at\<rparr> else s)"

lemma sql_revoke_proofs_ok:
  "sql_revoke_proofs p at db = (Inr x, db') \<Longrightarrow> db' = db\<lparr>au_proofs := map (revoke_if p at) (au_proofs db)\<rparr>"
  by (auto simp: sql_revoke_proofs_def revoke_if_def [abs_def] Let_def split: if_splits)

text \<open>The live proofs of a session and user after \<open>PutStepUp\<close> are the new one.\<close>

definition same_owner :: "step_up_state \<Rightarrow> step_up_state \<Rightarrow> bool" where
  "same_owner s x \<longleftrightarrow> su_session_id x = su_session_id s \<and> su_user_id x = su_user_id s"

lemma put_step_up_ok:
  assumes "put_step_up s c = (Inr x, c')"
  shows "fst c' = (fst c)\<lparr>au_proofs := map (revoke_if (same_owner s) (su_verified_at s)) (au_proofs (fst c)) @ [s]\<rparr>
    \<and> proof_check s \<and> ad_users (au_admin (fst c)) (su_user_id s) \<noteq> None"
proof -
  have o: "(\<lambda>x. su_session_id x = su_session_id s \<and> su_user_id x = su_user_id s) = same_owner s"
    by (auto simp: same_owner_def)
  obtain y c1 where rv: "io_call SqlFailure (sql_revoke_proofs (same_owner s) (su_verified_at s)) c = (Inr y, c1)"
    and ins: "io_call SqlFailure (sql_insert_proof s) c1 = (Inr 1, c')"
    using assms by (auto simp: put_step_up_def o split: prod.splits sum.splits if_splits sql_error.splits)
  from sql_revoke_proofs_ok [OF io_call_ok [OF rv]] io_call_ok [OF ins] show ?thesis
    by (auto simp: sql_insert_proof_def split: if_splits)
qed

lemma proofs_revoke_ok:
  "proofs_revoke_for_user u at c = (Inr x, c') \<Longrightarrow>
     fst c' = (fst c)\<lparr>au_proofs := map (revoke_if (\<lambda>s. su_user_id s = u) at) (au_proofs (fst c))\<rparr>"
  by (auto simp: proofs_revoke_for_user_def split: prod.splits sum.splits dest!: io_call_ok sql_revoke_proofs_ok)

text \<open>Whatever \<open>PutCredential\<close> stores is a fresh credential.\<close>

definition fresh_challenge :: "challenge \<Rightarrow> bool" where
  "fresh_challenge k \<longleftrightarrow> ch_status k = ChallengeActive \<and> ch_failure_count k = 0 \<and> ch_failure_window k = None
     \<and> ch_locked_until k = None"

lemma put_credential_ok:
  assumes "put_credential now m v c = (Inr k, c')" "ch_user_id (ct_challenge m) = u"
  shows "\<exists>n. fst c' = (fst c)\<lparr>au_challenges := (au_challenges (fst c))(u \<mapsto> n)\<rparr> \<and> fresh_challenge (ct_challenge n)
    \<and> k = (ct_challenge n)\<lparr>ch_user_id := u\<rparr> \<and> ct_answer_phc n = ct_answer_phc m
    \<and> (if v = 0 then au_challenges (fst c) u = None
       else \<exists>old. au_challenges (fst c) u = Some old \<and> ch_version (ct_challenge old) = v
          \<and> ch_credential_version (ct_challenge n) = ch_credential_version (ct_challenge old) + 1)"
proof (cases "v = 0")
  case True
  obtain y c1 where ins: "io_call SqlFailure (sql_insert_challenge u (inserted_material now m)) c = (Inr y, c1)"
    and get: "challenge_get u c1 = (Inr k, c')"
    using assms True by (auto simp: put_credential_def Let_def split: prod.splits sum.splits if_splits sql_error.splits)
  from io_call_ok [OF ins] have "fst c1 = (fst c)\<lparr>au_challenges := (au_challenges (fst c))(u \<mapsto> inserted_material now m)\<rparr>"
    "au_challenges (fst c) u = None"
    by (auto simp: sql_insert_challenge_def split: if_splits)
  with challenge_get_ok [OF get] challenge_get_reads [OF get] True show ?thesis
    by (intro exI [of _ "inserted_material now m"]) (auto simp: inserted_material_def Let_def fresh_challenge_def)
next
  case False
  let ?f = "sql_update_challenge u (\<lambda>k. ch_version k = v) (replaced_material now m)"
  obtain c1 where up: "io_call SqlFailure ?f c = (Inr 1, c1)" and get: "challenge_get u c1 = (Inr k, c')"
    using assms False by (auto simp: put_credential_def Let_def split: prod.splits sum.splits if_splits)
  from sql_update_challenge_ok [OF io_call_ok [OF up]] obtain old where old: "au_challenges (fst c) u = Some old"
    "ch_version (ct_challenge old) = v"
    "fst c1 = (fst c)\<lparr>au_challenges := (au_challenges (fst c))(u \<mapsto> replaced_material now m old)\<rparr>"
    by auto
  with challenge_get_ok [OF get] challenge_get_reads [OF get] False show ?thesis
    by (intro exI [of _ "replaced_material now m old"]) (auto simp: replaced_material_def Let_def fresh_challenge_def)
qed

lemma revoke_for_rotation_ok:
  assumes "revoke_for_security_rotation u at c = (Inr x, c')"
  shows "fst c' = (fst c)\<lparr>au_requests := map (\<lambda>r. if iq_requester r = u \<and> iq_status r = ''pending'' \<and> iq_terminal_at r = None
             then revoked_request at r else r) (au_requests (fst c)),
          au_grants := map (\<lambda>g. if ig_requester g = u \<and> ig_terminal_at g = None then revoked_grant at g else g)
             (au_grants (fst c))\<rparr>"
  using assms
  by (auto simp: revoke_for_security_rotation_def sql_update_requests_def sql_update_grants_def Let_def
      split: prod.splits sum.splits if_splits dest!: io_call_ok)

lemma approvals_revoke_ok:
  assumes "approvals_revoke u at c = (Inr x, c')"
  shows "\<exists>as rs. fst c' = (fst c)\<lparr>au_approvals := as, au_requests := rs,
       au_grants := map (\<lambda>g. if ig_requester g = u \<and> ig_terminal_at g = None then revoked_grant at g else g)
             (au_grants (fst c))\<rparr>
     \<and> as = map (\<lambda>a. if oa_operator_id a = u \<and> oa_terminal_at a = None then a\<lparr>oa_terminal_at := Some at\<rparr> else a)
             (au_approvals (fst c))
     \<and> rs = map (\<lambda>r. if iq_requester r = u \<and> iq_status r = ''pending'' \<and> iq_terminal_at r = None
             then revoked_request at r else r) (au_requests (fst c))"
proof -
  obtain y c1 where a: "io_call SqlFailure (sql_terminate_approvals u at) c = (Inr y, c1)"
    and r: "revoke_for_security_rotation u at c1 = (Inr (), c')"
    using assms by (auto simp: approvals_revoke_def approvals_revoke_for_user_def split: prod.splits sum.splits)
  from io_call_ok [OF a] have "fst c1 = (fst c)\<lparr>au_approvals := map (\<lambda>a. if oa_operator_id a = u \<and> oa_terminal_at a = None
      then a\<lparr>oa_terminal_at := Some at\<rparr> else a) (au_approvals (fst c))\<rparr>"
    by (auto simp: sql_terminate_approvals_def Let_def split: if_splits)
  with revoke_for_rotation_ok [OF r] show ?thesis by simp
qed

section \<open>Verdicts\<close>

lemma on_db_ok: "on_db f w = (r, w') \<Longrightarrow> \<exists>c'. f (fst w) = (r, c') \<and> w' = (c', snd w)"
  by (auto simp: on_db_def split: prod.splits)

lemma limiter_gate_ok:
  "limiter_gate S u client w = (Inr x, w') \<Longrightarrow> fst w' = fst w \<and> snd (snd w') = snd (snd w)
     \<and> (\<exists>d. ss_limiter S u client (fst (snd w)) = ((d, None), fst (snd w')))"
  by (auto simp: limiter_gate_def split: prod.splits option.splits admin_rate_error.splits)

text \<open>The committed denial of an answer.\<close>

definition denied_effect ::
  "stepup_service \<Rightarrow> user_id \<Rightarrow> string \<Rightarrow> stepup_error \<Rightarrow> authority_db \<Rightarrow> authority_db \<Rightarrow> bool" where
  "denied_effect S u answer verdict db db' \<longleftrightarrow>
     (\<exists>m. au_challenges db u = Some m \<and> ch_status (ct_challenge m) = ChallengeActive \<and> \<not> locked_at (ss_now S) (ct_challenge m)
        \<and> verify_answer (ss_hasher S) answer (ct_answer_phc m) (ct_answer_pepper_key_id m) = Inr False
        \<and> au_challenges db' = (au_challenges db)(u \<mapsto> m\<lparr>ct_challenge := failed_challenge (ss_now S) (ct_challenge m)\<rparr>)
        \<and> verdict = (if locked_at (ss_now S) (failed_challenge (ss_now S) (ct_challenge m))
                     then ErrChallengeLocked else ErrInvalidChallengeAnswer))
     \<and> au_proofs db' = au_proofs db \<and> au_epoch db' = au_epoch db
     \<and> ad_users (au_admin db') = ad_users (au_admin db)"

lemma reject_answer_ok:
  assumes "reject_answer S receipt audit m c = (Inr v, c')" "sa_actor_id audit = u"
    and "au_challenges (fst c) u = Some m0" "m = m0\<lparr>ct_challenge := (ct_challenge m0)\<lparr>ch_user_id := u\<rparr>\<rparr>"
  shows "au_challenges (fst c') = (au_challenges (fst c))(u \<mapsto> m0\<lparr>ct_challenge := failed_challenge (ss_now S) (ct_challenge m0)\<rparr>)
    \<and> v = (if locked_at (ss_now S) (failed_challenge (ss_now S) (ct_challenge m0)) then ErrChallengeLocked
           else ErrInvalidChallengeAnswer)
    \<and> au_proofs (fst c') = au_proofs (fst c) \<and> au_epoch (fst c') = au_epoch (fst c)
    \<and> ad_users (au_admin (fst c')) = ad_users (au_admin (fst c))"
proof -
  obtain k c1 where rf: "record_failure u (ch_version (ct_challenge m)) (ss_now S) c = (Inr k, c1)"
    using assms(1,2) by (auto simp: reject_answer_def split: prod.splits sum.splits)
  let ?code = "if locked_at (ss_now S) k then ''challenge.locked'' else ''challenge.rejected''"
  obtain c2 where ar: "audit_record (audit\<lparr>sa_result := ''denied''\<rparr>) c1 = (Inr (), c2)"
    and rc: "stepup_complete_local (lr_id receipt) (lr_version receipt)
         (encode_receipt (ss_digest S) ?code (ch_version k) (challenge_state k)) (ss_now S) c2 = (Inr (), c')"
    and v: "v = (if locked_at (ss_now S) k then ErrChallengeLocked else ErrInvalidChallengeAnswer)"
    using assms(1,2) rf by (auto simp: reject_answer_def Let_def split: prod.splits sum.splits)
  have "locked_at (ss_now S) k = locked_at (ss_now S) (failed_challenge (ss_now S) (ct_challenge m0))"
    "fst c1 = (fst c)\<lparr>au_challenges := (au_challenges (fst c))(u \<mapsto> m0\<lparr>ct_challenge := failed_challenge (ss_now S) (ct_challenge m0)\<rparr>)\<rparr>"
    using record_failure_ok [OF rf] assms(3) by (auto simp: locked_at_def)
  with v audit_record_ok [OF ar] only_outbox_sel [OF receipt_frames(2) [OF rc]] show ?thesis by simp
qed

text \<open>The committed acceptance: the new proof and, for an action of high risk, the grant.\<close>

definition stamped_proof :: "stepup_service \<Rightarrow> verify_request \<Rightarrow> int \<Rightarrow> int \<Rightarrow> string \<Rightarrow> step_up_state" where
  "stamped_proof S q account_epoch credential_version sid = \<lparr>su_id = sid, su_session_id = vq_session_id q,
     su_user_id = vq_user_id q, su_challenge_version = credential_version, su_security_epoch = account_epoch,
     su_verified_at = ss_now S, su_expires_at = ss_now S + ss_general_freshness S, su_revoked_at = None\<rparr>"

definition granted ::
  "stepup_service \<Rightarrow> verify_request \<Rightarrow> int \<Rightarrow> int \<Rightarrow> verify_result \<Rightarrow> reauth_conn \<Rightarrow> reauth_conn \<Rightarrow> bool" where
  "granted S q account_epoch credential_version r g g' \<longleftrightarrow>
     (if is_high_risk_admin_action (vq_action q)
      then ss_new_token S = Some (vr_reauth_grant r)
         \<and> vr_expires_at r = ss_now S + min (ss_grant_ttl S) (ss_high_risk_freshness S)
         \<and> reauth_create_grant (ss_hash_bearer S (vr_reauth_grant r))
             (grant_data S q (vr_grant_id r) account_epoch credential_version)
             (min (ss_grant_ttl S) (ss_high_risk_freshness S)) g = (Inr (), g')
      else vr_reauth_grant r = [] \<and> vr_expires_at r = ss_now S + ss_general_freshness S \<and> g' = g)"

definition accepted_effect ::
  "stepup_service \<Rightarrow> verify_request \<Rightarrow> string \<Rightarrow> verify_result \<Rightarrow> authority_db \<Rightarrow> authority_db \<Rightarrow> reauth_conn \<Rightarrow> reauth_conn \<Rightarrow> bool" where
  "accepted_effect S q answer r db db' g g' \<longleftrightarrow>
     (\<exists>m sid. au_challenges db (vq_user_id q) = Some m \<and> ch_status (ct_challenge m) = ChallengeActive
        \<and> (ch_must_rotate (ct_challenge m) \<longrightarrow> vq_action q = ReauthActionAdminChallengeRotate)
        \<and> \<not> locked_at (ss_now S) (ct_challenge m)
        \<and> verify_answer (ss_hasher S) answer (ct_answer_phc m) (ct_answer_pepper_key_id m) = Inr True
        \<and> (let s = stamped_proof S q (au_epoch db (vq_user_id q)) (ch_credential_version (ct_challenge m)) sid
           in au_proofs db' = map (revoke_if (same_owner s) (ss_now S)) (au_proofs db) @ [s])
        \<and> granted S q (au_epoch db (vq_user_id q)) (ch_credential_version (ct_challenge m)) r g g'
        \<and> \<not> vr_replayed r \<and> vr_challenge_version r = ch_credential_version (ct_challenge m)
        \<and> vr_verified_at r = ss_now S)
     \<and> au_challenges db' = au_challenges db \<and> au_epoch db' = au_epoch db
     \<and> ad_users (au_admin db') = ad_users (au_admin db)"

lemma verify_accepted_ok:
  assumes "verify_accepted S q receipt k w = (Inr r, w')"
  shows "\<exists>sid. (let s = stamped_proof S q (au_epoch (fst (fst w)) (vq_user_id q)) (ch_credential_version k) sid
       in au_proofs (fst (fst w')) = map (revoke_if (same_owner s) (ss_now S)) (au_proofs (fst (fst w))) @ [s])
     \<and> granted S q (au_epoch (fst (fst w)) (vq_user_id q)) (ch_credential_version k) r (snd (snd w)) (snd (snd w'))
     \<and> fst (snd w') = fst (snd w) \<and> \<not> vr_replayed r \<and> vr_challenge_version r = ch_credential_version k
     \<and> vr_verified_at r = ss_now S
     \<and> au_challenges (fst (fst w')) = au_challenges (fst (fst w)) \<and> au_epoch (fst (fst w')) = au_epoch (fst (fst w))
     \<and> ad_users (au_admin (fst (fst w'))) = ad_users (au_admin (fst (fst w)))"
proof -
  let ?u = "vq_user_id q" and ?v = "ch_credential_version k"
  let ?r0 = "empty_verify_result\<lparr>vr_state := challenge_state k, vr_verified_at := ss_now S,
    vr_expires_at := ss_now S + ss_general_freshness S, vr_challenge_version := ?v\<rparr>"
  obtain sid ae w1 where ae: "on_db (account_current_epoch ?u) w = (Inr ae, w1)" and id: "ss_new_id S ''asu_'' = Some sid"
    using assms by (auto simp: verify_accepted_def split: option.splits prod.splits sum.splits)
  obtain c1 where c1: "fst c1 = fst (fst w)" "w1 = (c1, snd w)" and e: "ae = au_epoch (fst (fst w)) ?u" "1 \<le> ae"
    using on_db_ok [OF ae] account_epoch_ok by (metis fst_conv)
  let ?s = "stamped_proof S q ae ?v sid"
  obtain w2 w3 w4 where p: "on_db (put_step_up ?s) w1 = (Inr (), w2)"
    and g: "high_risk_grant S q ae ?v ?r0 w2 = (Inr r, w3)"
    and a: "on_db (audit_record (verify_audit q receipt)) w3 = (Inr (), w4)"
    and rc: "on_db (stepup_complete_local (lr_id receipt) (lr_version receipt)
         (encode_receipt (ss_digest S) ''challenge.verified'' ?v (challenge_state k)) (ss_now S)) w4 = (Inr (), w')"
    using assms ae id e(2) by (auto simp: verify_accepted_def stamped_proof_def split: prod.splits sum.splits)
  obtain c2 where c2: "put_step_up ?s c1 = (Inr (), c2)" "w2 = (c2, snd w)" using on_db_ok [OF p] c1 by auto
  have g': "fst w3 = c2 \<and> fst (snd w3) = fst (snd w) \<and> granted S q ae ?v r (snd (snd w)) (snd (snd w3))
      \<and> \<not> vr_replayed r \<and> vr_challenge_version r = ?v \<and> vr_verified_at r = ss_now S"
    using g c2(2) by (auto simp: high_risk_grant_def granted_def create_grant_def empty_verify_result_def Let_def
        split: if_splits option.splits prod.splits sum.splits)
  obtain c4 where c4: "audit_record (verify_audit q receipt) c2 = (Inr (), c4)" "w4 = (c4, snd w3)"
    using on_db_ok [OF a] g' by auto
  obtain c5 where c5: "only_outbox (fst c4) (fst c5)" "w' = (c5, snd w3)"
    using on_db_ok [OF rc] c4(2) receipt_frames(2) by (metis fst_conv snd_conv)
  have "fst c2 = (fst (fst w))\<lparr>au_proofs := map (revoke_if (same_owner ?s) (ss_now S)) (au_proofs (fst (fst w))) @ [?s]\<rparr>"
    using put_step_up_ok [OF c2(1)] c1(1) by (simp add: stamped_proof_def)
  with audit_record_ok [OF c4(1)] only_outbox_sel [OF c5(1)] c5(2) g' e show ?thesis
    by (intro exI [of _ sid]) (simp add: Let_def)
qed

lemma verify_body_ok:
  assumes "verify_body S q answer fp w = (Inr (r, v), w')"
  shows "(vr_replayed r \<and> only_outbox (fst (fst w)) (fst (fst w')) \<and> snd w' = snd w)
    \<or> (\<exists>e. v = Some e \<and> r = empty_verify_result \<and> denied_effect S (vq_user_id q) answer e (fst (fst w)) (fst (fst w'))
         \<and> snd (snd w') = snd (snd w)
         \<and> (\<exists>d. ss_limiter S (vq_user_id q) (vq_client q) (fst (snd w)) = ((d, None), fst (snd w'))))
    \<or> (v = None \<and> accepted_effect S q answer r (fst (fst w)) (fst (fst w')) (snd (snd w)) (snd (snd w'))
         \<and> (\<exists>d. ss_limiter S (vq_user_id q) (vq_client q) (fst (snd w)) = ((d, None), fst (snd w'))))"
proof -
  let ?u = "vq_user_id q"
  obtain receipt rep w1 where b: "on_db (begin_receipt S (vq_key q) fp) w = (Inr (receipt, rep), w1)"
    using assms by (auto simp: verify_body_def split: prod.splits sum.splits)
  obtain c1 where c1: "only_outbox (fst (fst w)) (fst c1)" "w1 = (c1, snd w)"
    using on_db_ok [OF b] begin_receipt_frame by blast
  show ?thesis
  proof (cases rep)
    case True
    with assms b c1 show ?thesis by (auto simp: verify_body_def split: prod.splits)
  next
    case False
    obtain m w2 where m: "on_db (get_credential_for_verification ?u) w1 = (Inr m, w2)"
      using assms b False by (auto simp: verify_body_def split: prod.splits sum.splits)
    obtain c2 where c2: "get_credential_for_verification ?u c1 = (Inr m, c2)" "w2 = (c2, snd w)"
      using on_db_ok [OF m] c1 by auto
    obtain m0 where m0: "au_challenges (fst c1) ?u = Some m0" "m = m0\<lparr>ct_challenge := (ct_challenge m0)\<lparr>ch_user_id := ?u\<rparr>\<rparr>"
      "ch_status (ct_challenge m0) = ChallengeActive" and r2: "fst c2 = fst c1"
      using get_credential_ok [OF c2(1)] get_credential_reads [OF c2(1)] by blast
    have st: "challenge_state (ct_challenge m) = (if ch_must_rotate (ct_challenge m0) then StateMustRotate else StateActive)"
      "locked_at (ss_now S) (ct_challenge m) = locked_at (ss_now S) (ct_challenge m0)"
      using m0(2,3) by (simp_all add: challenge_state_def locked_at_def challenge_status_defs)
    obtain w3 where lg: "limiter_gate S ?u (vq_client q) w2 = (Inr (), w3)"
      and nr: "\<not> (ch_must_rotate (ct_challenge m0) \<and> vq_action q \<noteq> ReauthActionAdminChallengeRotate)"
      and nl: "\<not> locked_at (ss_now S) (ct_challenge m0)"
      using assms b False m st by (auto simp: verify_body_def split: prod.splits sum.splits if_splits)
    obtain ok where ok: "verify_answer (ss_hasher S) answer (ct_answer_phc m) (ct_answer_pepper_key_id m) = Inr ok"
      using assms b False m st lg nr nl by (auto simp: verify_body_def split: prod.splits sum.splits if_splits)
    have w3: "fst w3 = c2" "snd (snd w3) = snd (snd w)" using limiter_gate_ok [OF lg] c2(2) by auto
    have lim: "\<exists>d. ss_limiter S ?u (vq_client q) (fst (snd w)) = ((d, None), fst (snd w3))"
      using limiter_gate_ok [OF lg] c2(2) by auto
    have nm: "\<not> (challenge_state (ct_challenge m) = StateMustRotate \<and> vq_action q \<noteq> ReauthActionAdminChallengeRotate)"
      using st(1) nr by (auto simp: stepup_state_defs)
    show ?thesis
    proof (cases ok)
      case True
      have "verify_accepted S q receipt (ct_challenge m) w3 = (Inr r, w') \<and> v = None"
        using assms b False m lg nm nl st(2) ok True by (auto simp: verify_body_def split: prod.splits sum.splits)
      with verify_accepted_ok [of S q receipt "ct_challenge m" w3 r w'] w3 r2 m0 ok True nl nr only_outbox_sel [OF c1(1)]
      have "v = None \<and> accepted_effect S q answer r (fst (fst w)) (fst (fst w')) (snd (snd w)) (snd (snd w'))
          \<and> fst (snd w') = fst (snd w3)"
        by (auto simp: accepted_effect_def Let_def)
      with lim show ?thesis by simp
    next
      case wrong: False
      obtain e where e: "on_db (reject_answer S receipt (verify_audit q receipt) m) w3 = (Inr e, w')" "v = Some e"
        "r = empty_verify_result"
        using assms b False m lg nm nl st(2) ok wrong by (auto simp: verify_body_def split: prod.splits sum.splits)
      obtain c4 where c4: "reject_answer S receipt (verify_audit q receipt) m c2 = (Inr e, c4)" "w' = (c4, snd w3)"
        using on_db_ok [OF e(1)] w3 by auto
      have "denied_effect S ?u answer e (fst (fst w)) (fst (fst w'))"
        using reject_answer_ok [OF c4(1), of ?u m0] m0 r2 ok wrong nl only_outbox_sel [OF c1(1)] c4(2)
        by (auto simp: denied_effect_def verify_audit_def)
      with e c4(2) w3 lim show ?thesis by auto
    qed
  qed
qed

section \<open>Rotation and enrollment\<close>

definition has_purge :: "string \<Rightarrow> authority_db \<Rightarrow> bool" where
  "has_purge rid db \<longleftrightarrow> (\<exists>x\<in>set (ad_outbox (au_admin db)). ob_key x = ''redis-purge:'' @ rid)"

lemma purge_enqueue_ok:
  assumes "purge_enqueue fid now rid u fp at c = (Inr x, c')"
  shows "only_outbox (fst c) (fst c') \<and> has_purge rid (fst c')"
proof -
  let ?f = "create_or_replay fid now (purge_item fid rid fp at)"
  obtain item rep where i: "on_admin (on_outbox ?f) c = (Inr (item, rep), c')"
    using assms by (auto simp: purge_enqueue_def split: prod.splits sum.splits)
  then obtain d where d: "on_outbox ?f (au_admin (fst c), snd c) = (Inr (item, rep), d)" "au_admin (fst c') = fst d"
    by (auto simp: on_admin_def split: prod.splits)
  obtain c1 where c1: "?f (\<lparr>ot_rows = ad_outbox (au_admin (fst c)), ot_clock = ad_now (au_admin (fst c))\<rparr>, snd c) = (Inr (item, rep), c1)"
    "fst d = (au_admin (fst c))\<lparr>ad_outbox := ot_rows (fst c1)\<rparr>"
    by (rule on_outbox_ok [OF d(1)]) simp
  have key: "ob_key (purge_item fid rid fp at) = ''redis-purge:'' @ rid" by (simp add: purge_item_def receipt_item_def)
  have "has_purge rid (fst c')"
  proof (cases rep)
    case True
    have "?f (\<lparr>ot_rows = ad_outbox (au_admin (fst c)), ot_clock = ad_now (au_admin (fst c))\<rparr>, snd c) = (Inr (item, True), c1)"
      using c1(1) True by simp
    from create_or_replay_replayed [OF this]
    obtain r where "r \<in> set (ad_outbox (au_admin (fst c)))" "ob_key r = ob_key (purge_item fid rid fp at)" by auto
    moreover have "ot_rows (fst c1) = ad_outbox (au_admin (fst c))" using create_or_replay_cases [OF c1(1)] True by simp
    ultimately show ?thesis using d(2) c1(2) key by (auto simp: has_purge_def)
  next
    case False
    note cases = create_or_replay_cases [OF c1(1), unfolded if_not_P [OF False] fst_conv outbox_db.simps]
    have "item = outbox_defaults fid now (purge_item fid rid fp at)" by (rule conjunct1 [OF cases])
    then have "ob_key (new_row item) = ''redis-purge:'' @ rid"
      using key by (simp add: new_row_def outbox_defaults_def Let_def)
    moreover have "ot_rows (fst c1) = ad_outbox (au_admin (fst c)) @ [new_row item]"
      by (simp add: conjunct1 [OF conjunct2 [OF cases]])
    ultimately show ?thesis using d(2) c1(2) by (auto simp: has_purge_def)
  qed
  with outbox_frame [OF i] show ?thesis by simp
qed

lemma complete_local_keys:
  assumes "stepup_complete_local rid v res at c = (Inr x, c')"
  shows "map ob_key (ad_outbox (au_admin (fst c'))) = map ob_key (ad_outbox (au_admin (fst c)))"
proof -
  let ?f = "complete_local rid v res at"
  obtain d where d: "on_outbox ?f (au_admin (fst c), snd c) = (Inr (), d)" "au_admin (fst c') = fst d"
    using assms by (auto simp: stepup_complete_local_def on_admin_def split: prod.splits sum.splits)
  obtain c1 where c1: "?f (\<lparr>ot_rows = ad_outbox (au_admin (fst c)), ot_clock = ad_now (au_admin (fst c))\<rparr>, snd c) = (Inr (), c1)"
    "fst d = (au_admin (fst c))\<lparr>ad_outbox := ot_rows (fst c1)\<rparr>"
    by (rule on_outbox_ok [OF d(1)]) simp
  then obtain q g where "exec_one q g (\<lparr>ot_rows = ad_outbox (au_admin (fst c)), ot_clock = ad_now (au_admin (fst c))\<rparr>, snd c) = (Inr (), c1)"
    "\<And>r. ob_key (g r) = ob_key r"
    by (auto simp: complete_local_def bumped_def split: option.splits)
  from exec_one_rows(1) [OF this(1)] this(2) d(2) c1(2) show ?thesis by (auto simp: comp_def)
qed

lemma has_purge_completed:
  assumes "stepup_complete_local rid v res at c = (Inr x, c')" "has_purge p (fst c)"
  shows "has_purge p (fst c')"
proof -
  have "set (map ob_key (ad_outbox (au_admin (fst c')))) = set (map ob_key (ad_outbox (au_admin (fst c))))"
    by (simp add: complete_local_keys [OF assms(1)])
  with assms(2) show ?thesis by (auto simp: has_purge_def) (metis image_iff)
qed

text \<open>What a rotation leaves of everything the old credential stood for.\<close>

definition rotated_effect :: "stepup_service \<Rightarrow> user_id \<Rightarrow> int \<Rightarrow> string \<Rightarrow> authority_db \<Rightarrow> authority_db \<Rightarrow> bool" where
  "rotated_effect S u expected old_answer db db' \<longleftrightarrow>
     (\<exists>m n. au_challenges db u = Some m \<and> ch_status (ct_challenge m) = ChallengeActive
        \<and> ch_version (ct_challenge m) = expected \<and> \<not> locked_at (ss_now S) (ct_challenge m)
        \<and> verify_answer (ss_hasher S) old_answer (ct_answer_phc m) (ct_answer_pepper_key_id m) = Inr True
        \<and> au_challenges db' = (au_challenges db)(u \<mapsto> n) \<and> fresh_challenge (ct_challenge n)
        \<and> ch_credential_version (ct_challenge n) = ch_credential_version (ct_challenge m) + 1)
     \<and> au_proofs db' = map (revoke_if (\<lambda>s. su_user_id s = u) (ss_now S)) (au_proofs db)
     \<and> au_approvals db' = map (\<lambda>a. if oa_operator_id a = u \<and> oa_terminal_at a = None
          then a\<lparr>oa_terminal_at := Some (ss_now S)\<rparr> else a) (au_approvals db)
     \<and> au_requests db' = map (\<lambda>r. if iq_requester r = u \<and> iq_status r = ''pending'' \<and> iq_terminal_at r = None
          then revoked_request (ss_now S) r else r) (au_requests db)
     \<and> au_grants db' = map (\<lambda>g. if ig_requester g = u \<and> ig_terminal_at g = None then revoked_grant (ss_now S) g else g)
          (au_grants db)
     \<and> au_epoch db' = au_epoch db \<and> ad_users (au_admin db') = ad_users (au_admin db)
     \<and> (\<exists>rid. has_purge rid db')"

lemma rotate_accepted_ok:
  assumes "rotate_accepted S i question answer fp receipt k c = (Inr r, c')"
    and "verify_answer (ss_hasher S) old (ct_answer_phc m) (ct_answer_pepper_key_id m) = Inr True"
    and "au_challenges (fst c) (ro_user_id i) = Some m" "ch_status (ct_challenge m) = ChallengeActive"
    and "ch_version (ct_challenge m) = ro_expected_version i" "\<not> locked_at (ss_now S) (ct_challenge m)"
    and "0 < ro_expected_version i"
  shows "rotated_effect S (ro_user_id i) (ro_expected_version i) old (fst c) (fst c')"
proof -
  let ?u = "ro_user_id i"
  obtain phc pepper sealed where h: "hash_answer (ss_hasher S) answer = Inr (phc, pepper)"
    and sd: "encrypt_value (ss_cipher S) PurposeChallengeQuestion ?u (challenge_record_id ?u) (ch_credential_version k + 1) question = Some sealed"
    using assms(1) by (auto simp: rotate_accepted_def split: sum.splits prod.splits option.splits)
  obtain nk c1 c2 c3 c4 c5 where p: "put_credential (ss_db_now S) (new_credential S ?u sealed phc pepper) (ro_expected_version i) c = (Inr nk, c1)"
    and rv: "proofs_revoke_for_user ?u (ss_now S) c1 = (Inr (), c2)"
    and ap: "approvals_revoke ?u (ss_now S) c2 = (Inr (), c3)"
    and pg: "purge_enqueue (ss_fresh_id S) (ss_db_now S) (lr_id receipt) ?u fp (ss_now S) c3 = (Inr (), c4)"
    and ar: "audit_record (rotate_audit i receipt) c4 = (Inr (), c5)"
    and rc: "stepup_complete_local (lr_id receipt) (lr_version receipt)
         (encode_challenge_receipt (ss_digest S) ''challenge.rotated'' nk StateActive) (ss_now S) c5 = (Inr (), c')"
    using assms(1) h sd by (auto simp: rotate_accepted_def split: sum.splits prod.splits)
  have "ch_user_id (ct_challenge (new_credential S ?u sealed phc pepper)) = ?u" by (simp add: new_credential_def)
  from put_credential_ok [OF p this] assms(3,7) obtain n where n: "fst c1 = (fst c)\<lparr>au_challenges := (au_challenges (fst c))(?u \<mapsto> n)\<rparr>"
    "fresh_challenge (ct_challenge n)" "ch_credential_version (ct_challenge n) = ch_credential_version (ct_challenge m) + 1"
    by auto
  have hp: "has_purge (lr_id receipt) (fst c')"
    using has_purge_completed [OF rc] audit_record_ok [OF ar] purge_enqueue_ok [OF pg] by (simp add: has_purge_def)
  note sel = only_outbox_sel [OF receipt_frames(2) [OF rc]] audit_record_ok [OF ar]
    only_outbox_sel [OF purge_enqueue_ok [OF pg, THEN conjunct1]]
  show ?thesis
    using approvals_revoke_ok [OF ap] proofs_revoke_ok [OF rv] n assms hp sel unfolding rotated_effect_def by auto
qed

text \<open>The receipts of the unit of work are those of the role mutations, lifted.\<close>

lemma stepup_receipt:
  assumes "stepup_create_or_replay fid now r c = (Inr (x, rep), c')"
  obtains d where "receipt_create_or_replay fid now r (au_admin (fst c), snd c) = (Inr (x, rep), d)"
    "fst c' = (fst c)\<lparr>au_admin := fst d\<rparr>"
  using assms that
  by (auto simp: stepup_create_or_replay_def receipt_create_or_replay_def on_admin_def split: prod.splits sum.splits)

lemma begin_receipt_rep:
  assumes "begin_receipt S key fp c = (Inr (x, True), c')"
  shows "\<exists>n\<in>set (ad_outbox (au_admin (fst c))). ob_key n = key \<and> lr_result x = ob_result n"
proof -
  obtain rid where "stepup_create_or_replay (ss_fresh_id S) (ss_db_now S) \<lparr>lr_id = rid, lr_key = key, lr_fingerprint = fp,
      lr_result = \<lparr>ar_code = [], ar_digest = [], ar_payload = None\<rparr>, lr_state = ''pending'', lr_version = 1,
      lr_created_at = ss_now S, lr_terminal_at = None\<rparr> c = (Inr (x, True), c')"
    using assms by (auto simp: begin_receipt_def split: option.splits)
  from stepup_receipt [OF this] obtain d where "receipt_create_or_replay (ss_fresh_id S) (ss_db_now S) \<lparr>lr_id = rid,
      lr_key = key, lr_fingerprint = fp, lr_result = \<lparr>ar_code = [], ar_digest = [], ar_payload = None\<rparr>,
      lr_state = ''pending'', lr_version = 1, lr_created_at = ss_now S, lr_terminal_at = None\<rparr> (au_admin (fst c), snd c)
      = (Inr (x, True), d)"
    by blast
  then obtain n where "n \<in> set (ad_outbox (au_admin (fst c)))" "ob_key n = key" "lr_result x = ob_result n"
    by (rule receipt_replayed) simp
  then show ?thesis by blast
qed

lemma rotate_body_ok:
  assumes "rotate_body S i old question answer fp w = (Inr (r, v), w')" "0 < ro_expected_version i"
  shows "(only_outbox (fst (fst w)) (fst (fst w')) \<and> snd w' = snd w
         \<and> (\<exists>n\<in>set (ad_outbox (au_admin (fst (fst w)))). ob_key n = ro_key i))
    \<or> (\<exists>e. v = Some e \<and> denied_effect S (ro_user_id i) old e (fst (fst w)) (fst (fst w')) \<and> snd (snd w') = snd (snd w))
    \<or> (v = None \<and> rotated_effect S (ro_user_id i) (ro_expected_version i) old (fst (fst w)) (fst (fst w'))
         \<and> snd (snd w') = snd (snd w))"
proof -
  let ?u = "ro_user_id i"
  obtain receipt rep w1 where b: "on_db (begin_receipt S (ro_key i) fp) w = (Inr (receipt, rep), w1)"
    using assms by (auto simp: rotate_body_def split: prod.splits sum.splits)
  obtain c1 where c1: "only_outbox (fst (fst w)) (fst c1)" "w1 = (c1, snd w)"
    using on_db_ok [OF b] begin_receipt_frame by blast
  show ?thesis
  proof (cases rep)
    case True
    with on_db_ok [OF b] begin_receipt_rep [of S "ro_key i" fp "fst w" receipt]
    have "\<exists>n\<in>set (ad_outbox (au_admin (fst (fst w)))). ob_key n = ro_key i" by auto
    with True assms b c1 show ?thesis by (auto simp: rotate_body_def split: prod.splits)
  next
    case False
    obtain m w2 where m: "on_db (get_credential_for_verification ?u) w1 = (Inr m, w2)"
      using assms b False by (auto simp: rotate_body_def split: prod.splits sum.splits)
    obtain c2 where c2: "get_credential_for_verification ?u c1 = (Inr m, c2)" "w2 = (c2, snd w)"
      using on_db_ok [OF m] c1 by auto
    obtain m0 where m0: "au_challenges (fst c1) ?u = Some m0" "m = m0\<lparr>ct_challenge := (ct_challenge m0)\<lparr>ch_user_id := ?u\<rparr>\<rparr>"
      "ch_status (ct_challenge m0) = ChallengeActive" and r2: "fst c2 = fst c1"
      using get_credential_ok [OF c2(1)] get_credential_reads [OF c2(1)] by blast
    have st: "locked_at (ss_now S) (ct_challenge m) = locked_at (ss_now S) (ct_challenge m0)"
      "ch_version (ct_challenge m) = ch_version (ct_challenge m0)"
      using m0(2) by (simp_all add: locked_at_def)
    obtain w3 where lg: "limiter_gate S ?u (ro_client i) w2 = (Inr (), w3)"
      and ver: "ch_version (ct_challenge m0) = ro_expected_version i" and nl: "\<not> locked_at (ss_now S) (ct_challenge m0)"
      using assms b False m st by (auto simp: rotate_body_def split: prod.splits sum.splits if_splits)
    obtain ok where ok: "verify_answer (ss_hasher S) old (ct_answer_phc m) (ct_answer_pepper_key_id m) = Inr ok"
      using assms b False m st lg ver nl by (auto simp: rotate_body_def split: prod.splits sum.splits if_splits)
    have w3: "fst w3 = c2" "snd (snd w3) = snd (snd w)" using limiter_gate_ok [OF lg] c2(2) by auto
    show ?thesis
    proof (cases ok)
      case True
      have e: "on_db (rotate_accepted S i question answer fp receipt (ct_challenge m)) w3 = (Inr r, w')" "v = None"
        using assms b False m lg ver nl st ok True by (auto simp: rotate_body_def split: prod.splits sum.splits)
      obtain c4 where c4: "rotate_accepted S i question answer fp receipt (ct_challenge m) c2 = (Inr r, c4)" "w' = (c4, snd w3)"
        using on_db_ok [OF e(1)] w3 by auto
      have "rotated_effect S ?u (ro_expected_version i) old (fst c2) (fst c4)"
        by (rule rotate_accepted_ok [OF c4(1), of old m0]) (use ok True m0 r2 ver nl assms(2) in auto)
      with r2 only_outbox_sel [OF c1(1)] have "rotated_effect S ?u (ro_expected_version i) old (fst (fst w)) (fst c4)"
        by (simp add: rotated_effect_def)
      with e c4(2) w3 show ?thesis by simp
    next
      case wrong: False
      obtain e where e: "on_db (reject_answer S receipt (rotate_audit i receipt) m) w3 = (Inr e, w')" "v = Some e"
        using assms b False m lg ver nl st ok wrong by (auto simp: rotate_body_def split: prod.splits sum.splits)
      obtain c4 where c4: "reject_answer S receipt (rotate_audit i receipt) m c2 = (Inr e, c4)" "w' = (c4, snd w3)"
        using on_db_ok [OF e(1)] w3 by auto
      have "denied_effect S ?u old e (fst (fst w)) (fst (fst w'))"
        using reject_answer_ok [OF c4(1), of ?u m0] m0 r2 ok wrong nl only_outbox_sel [OF c1(1)] c4(2)
        by (auto simp: denied_effect_def rotate_audit_def)
      with e c4(2) w3 show ?thesis by auto
    qed
  qed
qed

text \<open>An enrollment starts a credential where none is active.\<close>

definition enrolled_effect :: "user_id \<Rightarrow> authority_db \<Rightarrow> authority_db \<Rightarrow> bool" where
  "enrolled_effect u db db' \<longleftrightarrow>
     (\<exists>n. au_challenges db' = (au_challenges db)(u \<mapsto> n) \<and> fresh_challenge (ct_challenge n)
        \<and> (case au_challenges db u of None \<Rightarrow> True
           | Some m \<Rightarrow> ch_status (ct_challenge m) = ChallengeRecoveryPending
               \<and> ch_credential_version (ct_challenge n) = ch_credential_version (ct_challenge m) + 1))
     \<and> au_proofs db' = au_proofs db \<and> au_epoch db' = au_epoch db \<and> ad_users (au_admin db') = ad_users (au_admin db)"

lemma enroll_store_ok:
  assumes "enroll_store S i question answer receipt v cv c = (Inr r, c')"
    and "v = 0 \<or> (\<exists>m. au_challenges (fst c) (en_user_id i) = Some m \<and> ch_status (ct_challenge m) = ChallengeRecoveryPending)"
  shows "enrolled_effect (en_user_id i) (fst c) (fst c')"
proof -
  let ?u = "en_user_id i"
  obtain phc pepper sealed where h: "hash_answer (ss_hasher S) answer = Inr (phc, pepper)"
    and sd: "encrypt_value (ss_cipher S) PurposeChallengeQuestion ?u (challenge_record_id ?u) cv question = Some sealed"
    using assms(1) by (auto simp: enroll_store_def split: sum.splits prod.splits option.splits)
  let ?a = "\<lparr>sa_id = lr_id receipt, sa_actor_id = ?u, sa_event_id = en_event_id i, sa_request_id = en_request_id i,
    sa_action = ''admin.challenge.enroll'', sa_target = ?u, sa_result = ''succeeded''\<rparr>"
  obtain k c1 c2 where p: "put_credential (ss_db_now S) (new_credential S ?u sealed phc pepper) v c = (Inr k, c1)"
    and ar: "audit_record ?a c1 = (Inr (), c2)"
    and rc: "stepup_complete_local (lr_id receipt) (lr_version receipt)
         (encode_challenge_receipt (ss_digest S) ''challenge.enrolled'' k StateActive) (ss_now S) c2 = (Inr (), c')"
    using assms(1) h sd by (auto simp: enroll_store_def split: sum.splits prod.splits)
  have "ch_user_id (ct_challenge (new_credential S ?u sealed phc pepper)) = ?u" by (simp add: new_credential_def)
  from put_credential_ok [OF p this] obtain n where n: "fst c1 = (fst c)\<lparr>au_challenges := (au_challenges (fst c))(?u \<mapsto> n)\<rparr>"
    "fresh_challenge (ct_challenge n)" "if v = 0 then au_challenges (fst c) ?u = None
       else \<exists>old. au_challenges (fst c) ?u = Some old \<and> ch_version (ct_challenge old) = v
          \<and> ch_credential_version (ct_challenge n) = ch_credential_version (ct_challenge old) + 1"
    by blast
  note sel = only_outbox_sel [OF receipt_frames(2) [OF rc]] audit_record_ok [OF ar]
  show ?thesis
    unfolding enrolled_effect_def using n assms(2) sel by (cases "v = 0") auto
qed

lemma enroll_body_ok:
  assumes "enroll_body S i question answer fp c = (Inr r, c')"
  shows "only_outbox (fst c) (fst c') \<or> enrolled_effect (en_user_id i) (fst c) (fst c')"
proof -
  let ?u = "en_user_id i"
  obtain receipt rep c1 where b: "begin_receipt S (en_key i) fp c = (Inr (receipt, rep), c1)"
    using assms by (auto simp: enroll_body_def split: prod.splits sum.splits)
  note fr = begin_receipt_frame [OF b]
  show ?thesis
  proof (cases rep)
    case True
    with assms b fr show ?thesis by (auto simp: enroll_body_def split: sum.splits)
  next
    case False
    obtain a c2 where g: "challenge_get ?u c1 = (a, c2)" by (rule prod.exhaust)
    note rd = challenge_get_reads [OF g]
    have "enrolled_effect ?u (fst c2) (fst c')"
    proof (cases a)
      case (Inl e)
      with assms b False g show ?thesis
        by (auto simp: enroll_body_def split: if_splits intro: enroll_store_ok)
    next
      case (Inr k)
      with challenge_get_ok [of ?u c1 k c2] g rd have m: "\<exists>m. au_challenges (fst c2) ?u = Some m \<and> k = (ct_challenge m)\<lparr>ch_user_id := ?u\<rparr>"
        by auto
      from Inr assms b False g have "ch_status k = ChallengeRecoveryPending"
        "\<exists>cv. enroll_store S i question answer receipt (ch_version k) cv c2 = (Inr r, c')"
        by (auto simp: enroll_body_def split: if_splits)
      with m enroll_store_ok [of S i question answer receipt "ch_version k" _ c2 r c'] show ?thesis by auto
    qed
    with rd only_outbox_sel [OF fr] have "enrolled_effect ?u (fst c) (fst c')" by (simp add: enrolled_effect_def)
    then show ?thesis by simp
  qed
qed

end
