(* ===== verification/StepUpProperties.thy ===== *)
theory StepUpProperties
  imports StepUpEffects
begin

text \<open>
  What administrator step-up promises: a proof is earned by the right answer and stamped with
  the credential and account it was earned under, a wrong answer is counted for good and few of
  them are possible, and a rotation ends everything the old credential stood for.
\<close>

section \<open>One request\<close>

lemma verify_ok:
  assumes "verify_challenge S q w = (Inr (r, v), w')"
  obtains answer fp c c' where "standing (fst (fst w)) (vq_user_id q) (vq_event_id q)"
    "is_supported_admin_action (vq_action q)"
    "valid_admin_action_target S (vq_user_id q) (vq_event_id q) (vq_action q) (vq_target q)"
    "normalize_answer (ah_unicode (ss_hasher S)) (vq_answer q) = Inr answer"
    "verify_body S q answer fp (c, snd w) = (Inr (r, v), (c', snd w'))"
    "fst c = fst (fst w)" "fst (fst w') = fst c'"
proof -
  obtain x w1 where rb: "on_db (require_binding (vq_user_id q) (vq_event_id q)) w = (Inr x, w1)"
    and g: "is_supported_admin_action (vq_action q)"
      "valid_admin_action_target S (vq_user_id q) (vq_event_id q) (vq_action q) (vq_target q)"
    using assms by (auto simp: verify_challenge_def split: option.splits if_splits prod.splits sum.splits)
  obtain c1 where c1: "require_binding (vq_user_id q) (vq_event_id q) (fst w) = (Inr x, c1)" "w1 = (c1, snd w)"
    using on_db_ok [OF rb] by blast
  obtain answer fp where a: "normalize_answer (ah_unicode (ss_hasher S)) (vq_answer q) = Inr answer"
    and t: "tx_within ErrStepUpInfra (verify_body S q answer fp) w1 = (Inr (r, v), w')"
    using assms rb by (auto simp: verify_challenge_def split: option.splits if_splits prod.splits sum.splits)
  from tx_within_ok [OF t] c1(2) obtain c2 c3 where "fst c2 = fst c1"
    "verify_body S q answer fp (c2, snd w) = (Inr (r, v), (c3, snd w'))" "fst (fst w') = fst c3"
    by auto
  with that require_binding_standing [OF c1(1)] require_binding_reads [OF c1(1)] g a show thesis by metis
qed

definition live_proof :: "step_up_state \<Rightarrow> bool" where
  "live_proof s \<longleftrightarrow> su_revoked_at s = None"

lemma revoke_if_sel [simp]:
  "su_session_id (revoke_if p at s) = su_session_id s" "su_user_id (revoke_if p at s) = su_user_id s"
  "su_challenge_version (revoke_if p at s) = su_challenge_version s" "su_id (revoke_if p at s) = su_id s"
  by (simp_all add: revoke_if_def)

lemma live_revoke_if: "live_proof (revoke_if p at s) \<longleftrightarrow> live_proof s \<and> \<not> p s"
  by (auto simp: live_proof_def revoke_if_def)

lemma revoke_if_live: "live_proof (revoke_if p at s) \<Longrightarrow> revoke_if p at s = s"
  by (auto simp: live_proof_def revoke_if_def)

lemma filter_revoke_if:
  "filter (\<lambda>s. su_user_id s \<noteq> u) (map (revoke_if (\<lambda>s. su_user_id s = u) at) ss) = filter (\<lambda>s. su_user_id s \<noteq> u) ss"
proof (induction ss)
  case (Cons s ss)
  then show ?case by (simp add: revoke_if_def)
qed simp

lemma create_grant_ok:
  assumes "reauth_create_grant h d ttl c = (Inr x, c')" "0 < ttl"
  shows "\<exists>t. ra_grants (fst c') h = Some (Readable d, Some t) \<and> t \<le> cd_ms (fst c) + max 1 (dur_millis ttl)"
proof -
  from assms have "fst c' = (fst c)\<lparr>ra_grants := (ra_grants (fst c))(h \<mapsto> (Readable d, Some (cd_ms (fst c) + max 1 (dur_millis ttl))))\<rparr>"
    by (auto simp: reauth_create_grant_def set_expiry_def split: if_splits dest!: io_call_ok)
  then show ?thesis by simp
qed

text \<open>
  C27.  A step-up proof is earned.  When \<open>Verify\<close> succeeds and is no replay, the actor has
  standing for the event, the action is supported and its target well-formed, the challenge is
  active, not locked and not due for rotation, the limiter admitted the attempt and the answer
  matches the stored hash; the one live proof of the session is now stamped with the current
  credential version and account epoch; and a bearer grant exists exactly for an action of high
  risk, stored under its hash, bound to user, session, action, target, epoch and credential, and
  gone at the latest after the shorter of the two configured spans.
\<close>

theorem verified_proof_is_earned:
  assumes "new_stepup_service S = Some S"
    and "verify_challenge S q w = (Inr (r, None), w')" "\<not> vr_replayed r"
  shows "\<exists>m answer s. standing (fst (fst w)) (vq_user_id q) (vq_event_id q)
     \<and> is_supported_admin_action (vq_action q)
     \<and> valid_admin_action_target S (vq_user_id q) (vq_event_id q) (vq_action q) (vq_target q)
     \<and> au_challenges (fst (fst w)) (vq_user_id q) = Some m \<and> ch_status (ct_challenge m) = ChallengeActive
     \<and> \<not> locked_at (ss_now S) (ct_challenge m)
     \<and> (ch_must_rotate (ct_challenge m) \<longrightarrow> vq_action q = ReauthActionAdminChallengeRotate)
     \<and> snd (fst (ss_limiter S (vq_user_id q) (vq_client q) (fst (snd w)))) = None
     \<and> normalize_answer (ah_unicode (ss_hasher S)) (vq_answer q) = Inr answer
     \<and> verify_answer (ss_hasher S) answer (ct_answer_phc m) (ct_answer_pepper_key_id m) = Inr True
     \<and> s \<in> set (au_proofs (fst (fst w'))) \<and> live_proof s
     \<and> su_session_id s = vq_session_id q \<and> su_user_id s = vq_user_id q
     \<and> su_challenge_version s = ch_credential_version (ct_challenge m)
     \<and> su_security_epoch s = au_epoch (fst (fst w)) (vq_user_id q)
     \<and> su_verified_at s = ss_now S \<and> su_expires_at s = ss_now S + ss_general_freshness S
     \<and> (\<forall>t\<in>set (au_proofs (fst (fst w'))). live_proof t \<and> same_owner s t \<longrightarrow> t = s)
     \<and> (if is_high_risk_admin_action (vq_action q)
        then \<exists>t. ra_grants (fst (snd (snd w'))) (ss_hash_bearer S (vr_reauth_grant r))
               = Some (Readable (grant_data S q (vr_grant_id r) (su_security_epoch s) (su_challenge_version s)), Some t)
             \<and> t \<le> cd_ms (fst (snd (snd w))) + max 1 (dur_millis (min (ss_grant_ttl S) (ss_high_risk_freshness S)))
        else vr_reauth_grant r = [] \<and> snd (snd w') = snd (snd w))"
proof -
  obtain answer fp c c' where facts: "standing (fst (fst w)) (vq_user_id q) (vq_event_id q)"
    "is_supported_admin_action (vq_action q)"
    "valid_admin_action_target S (vq_user_id q) (vq_event_id q) (vq_action q) (vq_target q)"
    "normalize_answer (ah_unicode (ss_hasher S)) (vq_answer q) = Inr answer"
    and body: "verify_body S q answer fp (c, snd w) = (Inr (r, None), (c', snd w'))"
    and eq: "fst c = fst (fst w)" "fst (fst w') = fst c'"
    by (rule verify_ok [OF assms(2)])
  from verify_body_ok [OF body] assms(3) eq
  have eff: "accepted_effect S q answer r (fst (fst w)) (fst (fst w')) (snd (snd w)) (snd (snd w'))"
    and lim: "snd (fst (ss_limiter S (vq_user_id q) (vq_client q) (fst (snd w)))) = None"
    by auto
  from eff obtain m sid where m: "au_challenges (fst (fst w)) (vq_user_id q) = Some m"
    "ch_status (ct_challenge m) = ChallengeActive" "\<not> locked_at (ss_now S) (ct_challenge m)"
    "ch_must_rotate (ct_challenge m) \<longrightarrow> vq_action q = ReauthActionAdminChallengeRotate"
    "verify_answer (ss_hasher S) answer (ct_answer_phc m) (ct_answer_pepper_key_id m) = Inr True"
    and pr: "au_proofs (fst (fst w')) = map (revoke_if (same_owner (stamped_proof S q (au_epoch (fst (fst w)) (vq_user_id q))
        (ch_credential_version (ct_challenge m)) sid)) (ss_now S)) (au_proofs (fst (fst w)))
        @ [stamped_proof S q (au_epoch (fst (fst w)) (vq_user_id q)) (ch_credential_version (ct_challenge m)) sid]"
    and gr: "granted S q (au_epoch (fst (fst w)) (vq_user_id q)) (ch_credential_version (ct_challenge m)) r
        (snd (snd w)) (snd (snd w'))"
    unfolding accepted_effect_def Let_def by blast
  let ?s = "stamped_proof S q (au_epoch (fst (fst w)) (vq_user_id q)) (ch_credential_version (ct_challenge m)) sid"
  have s: "?s \<in> set (au_proofs (fst (fst w')))" "live_proof ?s" "su_session_id ?s = vq_session_id q"
    "su_user_id ?s = vq_user_id q" "su_challenge_version ?s = ch_credential_version (ct_challenge m)"
    "su_security_epoch ?s = au_epoch (fst (fst w)) (vq_user_id q)" "su_verified_at ?s = ss_now S"
    "su_expires_at ?s = ss_now S + ss_general_freshness S"
    using pr by (simp_all add: stamped_proof_def live_proof_def)
  have one: "\<forall>t\<in>set (au_proofs (fst (fst w'))). live_proof t \<and> same_owner ?s t \<longrightarrow> t = ?s"
    unfolding pr by (auto simp: live_revoke_if same_owner_def)
  have ttl: "0 < min (ss_grant_ttl S) (ss_high_risk_freshness S)"
    using assms(1) by (auto simp: new_stepup_service_def split: if_splits)
  have grant: "if is_high_risk_admin_action (vq_action q)
        then \<exists>t. ra_grants (fst (snd (snd w'))) (ss_hash_bearer S (vr_reauth_grant r))
               = Some (Readable (grant_data S q (vr_grant_id r) (su_security_epoch ?s) (su_challenge_version ?s)), Some t)
             \<and> t \<le> cd_ms (fst (snd (snd w))) + max 1 (dur_millis (min (ss_grant_ttl S) (ss_high_risk_freshness S)))
        else vr_reauth_grant r = [] \<and> snd (snd w') = snd (snd w)"
    using gr ttl create_grant_ok unfolding s(5,6) by (auto simp: granted_def split: if_splits)
  show ?thesis
    by (rule exI [of _ m], rule exI [of _ answer], rule exI [of _ ?s])
       (intro conjI; fact facts m lim s one grant)
qed

text \<open>
  C30.  A wrong answer counts for good.  When \<open>Verify\<close> reports a wrong answer or the lock it
  brings, and is no replay, the stored hash did refuse the answer, the limiter admitted the
  attempt, and the failure is committed in the challenge, with the fifth of a window locking it
  for thirty minutes; no proof and no grant came of it.
\<close>

theorem wrong_answer_is_counted:
  assumes "verify_challenge S q w = (Inr (r, Some e), w')" "\<not> vr_replayed r"
  shows "\<exists>m answer k. normalize_answer (ah_unicode (ss_hasher S)) (vq_answer q) = Inr answer
     \<and> au_challenges (fst (fst w)) (vq_user_id q) = Some m
     \<and> verify_answer (ss_hasher S) answer (ct_answer_phc m) (ct_answer_pepper_key_id m) = Inr False
     \<and> snd (fst (ss_limiter S (vq_user_id q) (vq_client q) (fst (snd w)))) = None
     \<and> au_challenges (fst (fst w')) = (au_challenges (fst (fst w)))(vq_user_id q \<mapsto> m\<lparr>ct_challenge := k\<rparr>)
     \<and> ch_failure_count k = (if window_over (ss_now S) (ct_challenge m) then 1 else ch_failure_count (ct_challenge m) + 1)
     \<and> (5 \<le> ch_failure_count k \<longrightarrow> ch_locked_until k = Some (ss_now S + minutes 30) \<and> e = ErrChallengeLocked)
     \<and> (ch_failure_count k < 5 \<longrightarrow> ch_locked_until k = ch_locked_until (ct_challenge m) \<and> e = ErrInvalidChallengeAnswer)
     \<and> au_proofs (fst (fst w')) = au_proofs (fst (fst w)) \<and> snd (snd w') = snd (snd w)"
proof -
  obtain answer fp c c' where a: "normalize_answer (ah_unicode (ss_hasher S)) (vq_answer q) = Inr answer"
    and body: "verify_body S q answer fp (c, snd w) = (Inr (r, Some e), (c', snd w'))"
    and eq: "fst c = fst (fst w)" "fst (fst w') = fst c'"
    by (rule verify_ok [OF assms(1)])
  from verify_body_ok [OF body] assms(2) eq
  have eff: "denied_effect S (vq_user_id q) answer e (fst (fst w)) (fst (fst w'))"
    and lim: "snd (fst (ss_limiter S (vq_user_id q) (vq_client q) (fst (snd w)))) = None"
    and g: "snd (snd w') = snd (snd w)"
    by auto
  from eff obtain m where m: "au_challenges (fst (fst w)) (vq_user_id q) = Some m" "\<not> locked_at (ss_now S) (ct_challenge m)"
    "verify_answer (ss_hasher S) answer (ct_answer_phc m) (ct_answer_pepper_key_id m) = Inr False"
    "au_challenges (fst (fst w')) = (au_challenges (fst (fst w)))(vq_user_id q \<mapsto>
       m\<lparr>ct_challenge := failed_challenge (ss_now S) (ct_challenge m)\<rparr>)"
    "e = (if locked_at (ss_now S) (failed_challenge (ss_now S) (ct_challenge m)) then ErrChallengeLocked
          else ErrInvalidChallengeAnswer)"
    "au_proofs (fst (fst w')) = au_proofs (fst (fst w))"
    unfolding denied_effect_def by blast
  show ?thesis
    by (rule exI [of _ m], rule exI [of _ answer], rule exI [of _ "failed_challenge (ss_now S) (ct_challenge m)"])
       (use m a lim g in \<open>auto simp: failed_challenge_def failed_count_def locked_at_def minutes_def seconds_def\<close>)
qed

section \<open>Rotation\<close>

lemma rotate_ok:
  assumes "rotate_challenge S i w = (Inr k, w')"
  obtains old question answer fp c c' where "0 < ro_expected_version i"
    "normalize_answer (ah_unicode (ss_hasher S)) (ro_old_answer i) = Inr old"
    "rotate_body S i old question answer fp (c, snd w) = (Inr (k, None), (c', snd w'))"
    "fst c = fst (fst w)" "fst (fst w') = fst c'"
proof -
  obtain x w1 where rb: "on_db (require_binding (ro_user_id i) (ro_event_id i)) w = (Inr x, w1)"
    and pos: "0 < ro_expected_version i"
    using assms by (auto simp: rotate_challenge_def split: option.splits if_splits prod.splits sum.splits)
  obtain c1 where c1: "require_binding (ro_user_id i) (ro_event_id i) (fst w) = (Inr x, c1)" "w1 = (c1, snd w)"
    using on_db_ok [OF rb] by blast
  obtain old question answer fp where a: "normalize_answer (ah_unicode (ss_hasher S)) (ro_old_answer i) = Inr old"
    and t: "tx_within ErrStepUpInfra (rotate_body S i old question answer fp) w1 = (Inr (k, None), w')"
    using assms rb by (auto simp: rotate_challenge_def split: option.splits if_splits prod.splits sum.splits)
  from tx_within_ok [OF t] c1(2) obtain c2 c3 where "fst c2 = fst c1"
    "rotate_body S i old question answer fp (c2, snd w) = (Inr (k, None), (c3, snd w'))" "fst (fst w') = fst c3"
    by auto
  with that pos require_binding_reads [OF c1(1)] a show thesis by metis
qed

text \<open>
  C31.  A rotation ends what the old credential stood for.  When \<open>Rotate\<close> succeeds under a fresh
  key, the old answer was right for the version the caller named and the challenge was not
  locked; the credential is a new one, one version on, without failures; and the user has no live
  proof in any session, no open operator approval, no pending access request and no open access
  grant left, while the purge of the user's Redis state is queued and other users keep theirs.
\<close>

theorem rotation_ends_the_old_credential:
  assumes "rotate_challenge S i w = (Inr k, w')"
    and "\<forall>x\<in>set (ad_outbox (au_admin (fst (fst w)))). ob_key x \<noteq> ro_key i"
  shows "\<exists>m n old. au_challenges (fst (fst w)) (ro_user_id i) = Some m \<and> ch_status (ct_challenge m) = ChallengeActive
     \<and> ch_version (ct_challenge m) = ro_expected_version i \<and> \<not> locked_at (ss_now S) (ct_challenge m)
     \<and> normalize_answer (ah_unicode (ss_hasher S)) (ro_old_answer i) = Inr old
     \<and> verify_answer (ss_hasher S) old (ct_answer_phc m) (ct_answer_pepper_key_id m) = Inr True
     \<and> au_challenges (fst (fst w')) = (au_challenges (fst (fst w)))(ro_user_id i \<mapsto> n)
     \<and> ch_credential_version (ct_challenge n) = ch_credential_version (ct_challenge m) + 1
     \<and> fresh_challenge (ct_challenge n)
     \<and> (\<forall>s\<in>set (au_proofs (fst (fst w'))). su_user_id s = ro_user_id i \<longrightarrow> \<not> live_proof s)
     \<and> (\<forall>a\<in>set (au_approvals (fst (fst w'))). oa_operator_id a = ro_user_id i \<longrightarrow> oa_terminal_at a \<noteq> None)
     \<and> (\<forall>r\<in>set (au_requests (fst (fst w'))). iq_requester r = ro_user_id i \<longrightarrow> iq_status r \<noteq> ''pending'' \<or> iq_terminal_at r \<noteq> None)
     \<and> (\<forall>g\<in>set (au_grants (fst (fst w'))). ig_requester g = ro_user_id i \<longrightarrow> ig_terminal_at g \<noteq> None)
     \<and> filter (\<lambda>s. su_user_id s \<noteq> ro_user_id i) (au_proofs (fst (fst w')))
       = filter (\<lambda>s. su_user_id s \<noteq> ro_user_id i) (au_proofs (fst (fst w)))
     \<and> (\<exists>rid. has_purge rid (fst (fst w')))"
proof -
  obtain old question answer fp c c' where pos: "0 < ro_expected_version i"
    and a: "normalize_answer (ah_unicode (ss_hasher S)) (ro_old_answer i) = Inr old"
    and body: "rotate_body S i old question answer fp (c, snd w) = (Inr (k, None), (c', snd w'))"
    and eq: "fst c = fst (fst w)" "fst (fst w') = fst c'"
    by (rule rotate_ok [OF assms(1)])
  let ?u = "ro_user_id i"
  have fresh: "\<not> (\<exists>n\<in>set (ad_outbox (au_admin (fst c))). ob_key n = ro_key i)" using assms(2) eq by auto
  from rotate_body_ok [OF body pos] fresh eq
  have eff: "rotated_effect S ?u (ro_expected_version i) old (fst (fst w)) (fst (fst w'))" by auto
  from eff obtain m n where m: "au_challenges (fst (fst w)) ?u = Some m" "ch_status (ct_challenge m) = ChallengeActive"
    "ch_version (ct_challenge m) = ro_expected_version i" "\<not> locked_at (ss_now S) (ct_challenge m)"
    "verify_answer (ss_hasher S) old (ct_answer_phc m) (ct_answer_pepper_key_id m) = Inr True"
    "au_challenges (fst (fst w')) = (au_challenges (fst (fst w)))(?u \<mapsto> n)" "fresh_challenge (ct_challenge n)"
    "ch_credential_version (ct_challenge n) = ch_credential_version (ct_challenge m) + 1"
    unfolding rotated_effect_def by blast
  from eff have pr: "au_proofs (fst (fst w')) = map (revoke_if (\<lambda>s. su_user_id s = ?u) (ss_now S)) (au_proofs (fst (fst w)))"
    and ap: "au_approvals (fst (fst w')) = map (\<lambda>a. if oa_operator_id a = ?u \<and> oa_terminal_at a = None
          then a\<lparr>oa_terminal_at := Some (ss_now S)\<rparr> else a) (au_approvals (fst (fst w)))"
    and rq: "au_requests (fst (fst w')) = map (\<lambda>r. if iq_requester r = ?u \<and> iq_status r = ''pending'' \<and> iq_terminal_at r = None
          then revoked_request (ss_now S) r else r) (au_requests (fst (fst w)))"
    and gr: "au_grants (fst (fst w')) = map (\<lambda>g. if ig_requester g = ?u \<and> ig_terminal_at g = None
          then revoked_grant (ss_now S) g else g) (au_grants (fst (fst w)))"
    and pg: "\<exists>rid. has_purge rid (fst (fst w'))"
    unfolding rotated_effect_def by blast+
  have gone: "\<forall>s\<in>set (au_proofs (fst (fst w'))). su_user_id s = ?u \<longrightarrow> \<not> live_proof s"
    "\<forall>a\<in>set (au_approvals (fst (fst w'))). oa_operator_id a = ?u \<longrightarrow> oa_terminal_at a \<noteq> None"
    "\<forall>r\<in>set (au_requests (fst (fst w'))). iq_requester r = ?u \<longrightarrow> iq_status r \<noteq> ''pending'' \<or> iq_terminal_at r \<noteq> None"
    "\<forall>g\<in>set (au_grants (fst (fst w'))). ig_requester g = ?u \<longrightarrow> ig_terminal_at g \<noteq> None"
    unfolding pr ap rq gr by (auto simp: live_revoke_if revoked_request_def revoked_grant_def)
  have others: "filter (\<lambda>s. su_user_id s \<noteq> ?u) (au_proofs (fst (fst w')))
      = filter (\<lambda>s. su_user_id s \<noteq> ?u) (au_proofs (fst (fst w)))"
    unfolding pr by (rule filter_revoke_if)
  show ?thesis
    by (rule exI [of _ m], rule exI [of _ n], rule exI [of _ old]) (intro conjI; fact m a gone others pg)
qed

end
