(* ===== verification/StepUpHistories.thy ===== *)
theory StepUpHistories
  imports StepUpProperties
begin

text \<open>
  Step-up over time: the service as a step relation on the authority database, the invariant of
  its live proofs, and the bound on wrong answers against one credential.
\<close>

section \<open>Requests as steps\<close>

datatype stepup_op =
  OpEnroll stepup_service enroll_input
  | OpVerify stepup_service verify_request
  | OpRotate stepup_service rotate_input

fun op_service :: "stepup_op \<Rightarrow> stepup_service" where
  "op_service (OpEnroll S i) = S"
| "op_service (OpVerify S q) = S"
| "op_service (OpRotate S i) = S"

fun stepup_run :: "stepup_op \<Rightarrow> stepup_world \<Rightarrow> stepup_world" where
  "stepup_run (OpEnroll S i) w = (snd (enroll_challenge S i (fst w)), snd w)"
| "stepup_run (OpVerify S q) w = snd (verify_challenge S q w)"
| "stepup_run (OpRotate S i) w = snd (rotate_challenge S i w)"

inductive stepup_step :: "stepup_service \<Rightarrow> authority_db \<Rightarrow> authority_db \<Rightarrow> bool" for S where
  still: "only_outbox db db' \<Longrightarrow> stepup_step S db db'"
| denied: "denied_effect S u answer e db db' \<Longrightarrow> stepup_step S db db'"
| accepted: "accepted_effect S q answer r db db' g g' \<Longrightarrow> stepup_step S db db'"
| rotated: "rotated_effect S u expected old db db' \<Longrightarrow> stepup_step S db db'"
| enrolled: "enrolled_effect u db db' \<Longrightarrow> stepup_step S db db'"

inductive_cases stepup_stepE: "stepup_step S db db'"

lemma tx_within_step:
  assumes "\<And>c v c' r'. fst c = fst (fst w) \<Longrightarrow> body (c, snd w) = (Inr v, (c', r')) \<Longrightarrow> stepup_step S (fst (fst w)) (fst c')"
  shows "stepup_step S (fst (fst w)) (fst (fst (snd (tx_within e body w))))"
proof (cases rule: tx_within_cases [of e body w])
  case (commit_failed v c1 c2 r c3)
  with assms [OF commit_failed(1,2)] show ?thesis by (auto intro: still)
next
  case (committed v c1 c2 r c3)
  with assms [OF committed(1,2)] show ?thesis by simp
qed (auto intro: still)

lemma tx_run_step:
  assumes "\<And>c1 v c2. fst c1 = fst c \<Longrightarrow> body c1 = (Inr v, c2) \<Longrightarrow> stepup_step S (fst c) (fst c2)"
  shows "stepup_step S (fst c) (fst (snd (tx_run e body c)))"
  by (rule tx_run_inv [of "stepup_step S (fst c)"]) (use assms in \<open>auto intro: still\<close>)

lemma verify_step: "stepup_step S (fst (fst w)) (fst (fst (snd (verify_challenge S q w))))"
proof -
  obtain x w1 where rb: "on_db (require_binding (vq_user_id q) (vq_event_id q)) w = (x, w1)" by (rule prod.exhaust)
  have w1: "fst (fst w1) = fst (fst w)" using on_db_ok [OF rb] require_binding_reads by fastforce
  have "stepup_step S (fst (fst w1)) (fst (fst (snd (tx_within ErrStepUpInfra (verify_body S q answer fp) w1))))" for answer fp
  proof (rule tx_within_step)
    fix c v c' r' assume c: "fst c = fst (fst w1)" and b: "verify_body S q answer fp (c, snd w1) = (Inr v, (c', r'))"
    from verify_body_ok [of S q answer fp "(c, snd w1)" "fst v" "snd v" "(c', r')"] b c
    show "stepup_step S (fst (fst w1)) (fst c')" by (auto intro: still denied accepted)
  qed
  with w1 rb show ?thesis
    by (auto simp: verify_challenge_def split: option.splits sum.splits intro: still)
qed

lemma rotate_step: "stepup_step S (fst (fst w)) (fst (fst (snd (rotate_challenge S i w))))"
proof -
  obtain x w1 where rb: "on_db (require_binding (ro_user_id i) (ro_event_id i)) w = (x, w1)" by (rule prod.exhaust)
  have w1: "fst (fst w1) = fst (fst w)" using on_db_ok [OF rb] require_binding_reads by fastforce
  have t: "stepup_step S (fst (fst w1)) (fst (fst (snd (tx_within ErrStepUpInfra (rotate_body S i old question answer fp) w1))))"
    if "0 < ro_expected_version i" for old question answer fp
  proof (rule tx_within_step)
    fix c v c' r' assume c: "fst c = fst (fst w1)" and b: "rotate_body S i old question answer fp (c, snd w1) = (Inr v, (c', r'))"
    from rotate_body_ok [of S i old question answer fp "(c, snd w1)" "fst v" "snd v" "(c', r')"] b c that
    show "stepup_step S (fst (fst w1)) (fst c')" by (auto intro: still denied rotated)
  qed
  then show ?thesis
  proof (cases "0 < ro_expected_version i")
    case True
    have "stepup_step S (fst (fst w)) (fst (fst w2))"
      if "tx_within ErrStepUpInfra (rotate_body S i old question answer fp) w1 = (y, w2)" for old question answer fp y w2
      using t [OF True, of old question answer fp] that w1 by simp
    with w1 rb True show ?thesis
      by (auto simp: rotate_challenge_def split: option.splits sum.splits prod.splits intro: still)
  qed (auto simp: rotate_challenge_def split: option.splits intro: still)
qed

lemma enroll_step: "stepup_step S (fst c) (fst (snd (enroll_challenge S i c)))"
proof -
  obtain x c1 where rb: "require_binding (en_user_id i) (en_event_id i) c = (x, c1)" by (rule prod.exhaust)
  have c1: "fst c1 = fst c" by (rule require_binding_reads [OF rb])
  have "stepup_step S (fst c1) (fst (snd (tx_run ErrStepUpInfra (enroll_body S i question answer fp) c1)))" for question answer fp
  proof (rule tx_run_step)
    fix c2 v c3 assume c: "fst c2 = fst c1" and b: "enroll_body S i question answer fp c2 = (Inr v, c3)"
    from enroll_body_ok [OF b] c show "stepup_step S (fst c1) (fst c3)" by (auto intro: still enrolled)
  qed
  with c1 rb show ?thesis
    by (auto simp: enroll_challenge_def split: option.splits sum.splits intro: still)
qed

lemma stepup_run_step: "stepup_step (op_service op) (fst (fst w)) (fst (fst (stepup_run op w)))"
  by (cases op) (use verify_step rotate_step enroll_step in auto)

section \<open>Live proofs\<close>

text \<open>
  The histories of the authority database: requests of any kind one after the other, each with
  faults of its own and whatever state of Redis, and other transactions, which leave challenges
  and proofs as they are.
\<close>

inductive stepup_reaches :: "authority_db \<Rightarrow> authority_db \<Rightarrow> bool" for db where
  start: "stepup_reaches db db"
| request: "stepup_reaches db db' \<Longrightarrow> stepup_reaches db (fst (fst (stepup_run op ((db', fs), r))))"
| elsewhere: "stepup_reaches db db' \<Longrightarrow> au_challenges db'' = au_challenges db' \<Longrightarrow> au_proofs db'' = au_proofs db'
    \<Longrightarrow> stepup_reaches db db''"

definition proof_is_current :: "authority_db \<Rightarrow> step_up_state \<Rightarrow> bool" where
  "proof_is_current db s \<longleftrightarrow> (\<exists>m. au_challenges db (su_user_id s) = Some m \<and> ch_status (ct_challenge m) = ChallengeActive
     \<and> ch_credential_version (ct_challenge m) = su_challenge_version s)"

definition proof_owner :: "step_up_state \<Rightarrow> string \<times> user_id" where
  "proof_owner s = (su_session_id s, su_user_id s)"

definition proofs_current :: "authority_db \<Rightarrow> bool" where
  "proofs_current db \<longleftrightarrow> (\<forall>s\<in>set (au_proofs db). live_proof s \<longrightarrow> proof_is_current db s)
     \<and> distinct (map proof_owner (filter live_proof (au_proofs db)))"

lemma proofs_current_cong:
  "au_challenges db' = au_challenges db \<Longrightarrow> au_proofs db' = au_proofs db \<Longrightarrow> proofs_current db' = proofs_current db"
  by (simp add: proofs_current_def proof_is_current_def)

lemma filter_live_revoke: "filter live_proof (map (revoke_if p at) ss) = filter (\<lambda>s. live_proof s \<and> \<not> p s) ss"
proof (induction ss)
  case (Cons s ss)
  then show ?case by (auto simp: live_proof_def revoke_if_def)
qed simp

lemma proofs_current_revoke:
  assumes "proofs_current db" "au_proofs db' = map (revoke_if p at) (au_proofs db)"
    and "\<And>s. s \<in> set (au_proofs db) \<Longrightarrow> live_proof s \<Longrightarrow> \<not> p s \<Longrightarrow> proof_is_current db' s"
  shows "proofs_current db'"
proof -
  have "proof_is_current db' s" if "s \<in> set (au_proofs db')" "live_proof s" for s
  proof -
    from that(1) obtain t where "t \<in> set (au_proofs db)" "s = revoke_if p at t" using assms(2) by auto
    with that(2) have "s = t" "live_proof t" "\<not> p t" "t \<in> set (au_proofs db)"
      by (auto simp: live_revoke_if revoke_if_live)
    with assms(3) show ?thesis by blast
  qed
  moreover have "distinct (map proof_owner (filter live_proof (au_proofs db')))"
    using assms(1) distinct_subfilter by (auto simp: proofs_current_def assms(2) filter_live_revoke)
  ultimately show ?thesis by (simp add: proofs_current_def)
qed

lemma proof_is_current_cong:
  "au_challenges db' (su_user_id s) = au_challenges db (su_user_id s) \<Longrightarrow> proof_is_current db' s = proof_is_current db s"
  by (simp add: proof_is_current_def)

lemma proofs_current_stamp:
  assumes "proofs_current db" "au_proofs db' = map (revoke_if (same_owner s) at) (au_proofs db) @ [s]"
    and "au_challenges db' = au_challenges db" "proof_is_current db' s"
  shows "proofs_current db'"
proof -
  define ss where "ss = map (revoke_if (same_owner s) at) (au_proofs db)"
  have "proofs_current (db'\<lparr>au_proofs := ss\<rparr>)"
    by (rule proofs_current_revoke [OF assms(1)])
       (use assms(1,3) in \<open>auto simp: ss_def proofs_current_def proof_is_current_def\<close>)
  then have old: "\<forall>t\<in>set ss. live_proof t \<longrightarrow> proof_is_current db' t" "distinct (map proof_owner (filter live_proof ss))"
    by (simp_all add: proofs_current_def proof_is_current_def)
  have "\<forall>t\<in>set ss. live_proof t \<longrightarrow> proof_owner t \<noteq> proof_owner s"
    unfolding ss_def by (auto simp: live_revoke_if proof_owner_def same_owner_def)
  then have "proof_owner s \<notin> set (map proof_owner (filter live_proof ss))" by auto
  with old assms(2,4) show ?thesis by (simp add: proofs_current_def ss_def [symmetric])
qed

lemma stepup_step_proofs:
  assumes "stepup_step S db db'" "proofs_current db"
  shows "proofs_current db'"
  using assms(1)
proof (rule stepup_stepE)
  assume "only_outbox db db'"
  from proofs_current_cong [OF only_outbox_sel(1,2) [OF this]] assms(2) show ?thesis by simp
next
  fix u answer e assume "denied_effect S u answer e db db'"
  then obtain m where m: "au_challenges db u = Some m" "au_proofs db' = au_proofs db"
    "au_challenges db' = (au_challenges db)(u \<mapsto> m\<lparr>ct_challenge := failed_challenge (ss_now S) (ct_challenge m)\<rparr>)"
    unfolding denied_effect_def by blast
  then have "proof_is_current db' s = proof_is_current db s" for s
    by (cases "su_user_id s = u") (auto simp: proof_is_current_def failed_challenge_def)
  with assms(2) m(2) show ?thesis by (simp add: proofs_current_def)
next
  fix q answer r g g' assume "accepted_effect S q answer r db db' g g'"
  then obtain m sid where m: "au_challenges db (vq_user_id q) = Some m" "ch_status (ct_challenge m) = ChallengeActive"
    and s: "au_proofs db' = map (revoke_if (same_owner (stamped_proof S q (au_epoch db (vq_user_id q))
        (ch_credential_version (ct_challenge m)) sid)) (ss_now S)) (au_proofs db)
        @ [stamped_proof S q (au_epoch db (vq_user_id q)) (ch_credential_version (ct_challenge m)) sid]"
    and ch: "au_challenges db' = au_challenges db"
    unfolding accepted_effect_def Let_def by blast
  let ?s = "stamped_proof S q (au_epoch db (vq_user_id q)) (ch_credential_version (ct_challenge m)) sid"
  show ?thesis
    by (rule proofs_current_stamp [OF assms(2) s ch])
       (use m ch in \<open>simp add: proof_is_current_def stamped_proof_def\<close>)
next
  fix u expected old assume "rotated_effect S u expected old db db'"
  then obtain n where n: "au_challenges db' = (au_challenges db)(u \<mapsto> n)"
    and pr: "au_proofs db' = map (revoke_if (\<lambda>s. su_user_id s = u) (ss_now S)) (au_proofs db)"
    unfolding rotated_effect_def by blast
  show ?thesis
    by (rule proofs_current_revoke [OF assms(2) pr])
       (use assms(2) n in \<open>auto simp: proofs_current_def proof_is_current_def\<close>)
next
  fix u assume "enrolled_effect u db db'"
  then obtain n where n: "au_challenges db' = (au_challenges db)(u \<mapsto> n)" "au_proofs db' = au_proofs db"
    and was: "case au_challenges db u of None \<Rightarrow> True | Some m \<Rightarrow> ch_status (ct_challenge m) = ChallengeRecoveryPending
               \<and> ch_credential_version (ct_challenge n) = ch_credential_version (ct_challenge m) + 1"
    unfolding enrolled_effect_def by blast
  have "su_user_id s \<noteq> u" if "s \<in> set (au_proofs db)" "live_proof s" for s
    using assms(2) that was by (auto simp: proofs_current_def proof_is_current_def challenge_status_defs split: option.splits)
  then have "proof_is_current db' s = proof_is_current db s" if "s \<in> set (au_proofs db)" "live_proof s" for s
    using that n(1) by (intro proof_is_current_cong) auto
  with assms(2) n(2) show ?thesis by (simp add: proofs_current_def)
qed

text \<open>
  C28.  Live proofs are current.  From a database in which every unrevoked step-up proof carries
  the credential version of its user's active challenge and no session has two of them, no
  sequence of enrollments, verifications and rotations, with whatever faults and interleaved
  transactions, leads to one in which that fails: a proof never outlives the credential it was
  earned with.
\<close>

theorem live_proofs_are_current:
  assumes "stepup_reaches db db'" "proofs_current db"
  shows "proofs_current db'"
  using assms(1)
proof induction
  case start
  show ?case by (rule assms(2))
next
  case (request db' op fs r)
  then show ?case using stepup_step_proofs [OF stepup_run_step [of op "((db', fs), r)"]] by simp
next
  case (elsewhere db' db'')
  then show ?case using proofs_current_cong by metis
qed

section \<open>Guessing\<close>

fun op_now :: "stepup_op \<Rightarrow> time" where
  "op_now op = ss_now (op_service op)"

text \<open>
  A history of attempts on the credential of \<open>u\<close>: the times at which its challenge changed,
  the latest first, while the credential version stays.  The clocks of the requests do not go
  back.
\<close>

definition credential_of :: "authority_db \<Rightarrow> user_id \<Rightarrow> int option" where
  "credential_of db u = map_option (\<lambda>m. ch_credential_version (ct_challenge m)) (au_challenges db u)"

inductive guesses :: "user_id \<Rightarrow> authority_db \<Rightarrow> time list \<Rightarrow> authority_db \<Rightarrow> bool" for u db where
  none: "guesses u db [] db"
| attempt: "guesses u db ts db' \<Longrightarrow> \<forall>t\<in>set ts. t \<le> op_now op
    \<Longrightarrow> db'' = fst (fst (stepup_run op ((db', fs), r))) \<Longrightarrow> credential_of db'' u = credential_of db' u
    \<Longrightarrow> guesses u db (if au_challenges db'' u = au_challenges db' u then ts else op_now op # ts) db''"
| elsewhere: "guesses u db ts db' \<Longrightarrow> au_challenges db'' u = au_challenges db' u \<Longrightarrow> guesses u db ts db''"

text \<open>The failure count of a challenge and the windows of the attempts.\<close>

definition failures_counted :: "challenge \<Rightarrow> (int \<times> int list) list \<Rightarrow> bool" where
  "failures_counted k Ws \<longleftrightarrow> paced 5 (minutes 15) Ws
     \<and> (case Ws of
          [] \<Rightarrow> ch_failure_count k = 0 \<and> ch_failure_window k = None
        | (s, xs) # _ \<Rightarrow> ch_failure_window k = Some s \<and> ch_failure_count k = int (length xs) \<and> s \<in> set xs
            \<and> (5 \<le> length xs \<longrightarrow> (\<exists>l. ch_locked_until k = Some l \<and> (\<forall>x\<in>set xs. x + minutes 30 \<le> l))))"

lemma failure_counted:
  assumes "failures_counted k Ws" "\<not> locked_at t k" "\<forall>x\<in>set (times_of Ws). x \<le> t"
  shows "\<exists>Ws'. failures_counted (failed_challenge t k) Ws' \<and> times_of Ws' = t # times_of Ws"
proof (cases Ws)
  case Nil
  then have "window_over t k" using assms(1) by (simp add: failures_counted_def window_over_def)
  with Nil show ?thesis
    by (intro exI [of _ "[(t, [t])]"]) (simp add: failures_counted_def failed_challenge_def failed_count_def)
next
  case (Cons W Vs)
  obtain s xs where W: "W = (s, xs)" by (rule prod.exhaust)
  with Cons assms(1) have k: "ch_failure_window k = Some s" "ch_failure_count k = int (length xs)" "s \<in> set xs"
    and p: "paced 5 (minutes 15) ((s, xs) # Vs)"
    and lock: "5 \<le> length xs \<longrightarrow> (\<exists>l. ch_locked_until k = Some l \<and> (\<forall>x\<in>set xs. x + minutes 30 \<le> l))"
    by (auto simp: failures_counted_def)
  have le: "\<forall>x\<in>set xs. x \<le> t" "s \<le> t" using assms(3) Cons W k(3) by auto
  show ?thesis
  proof (cases "window_over t k")
    case True
    with k(1) have "s + minutes 15 < t" by (simp add: window_over_def)
    with p le(1) have "paced 5 (minutes 15) ((t, [t]) # (s, xs) # Vs)" by simp
    with True Cons W show ?thesis
      by (intro exI [of _ "(t, [t]) # Ws"]) (simp add: failures_counted_def failed_challenge_def failed_count_def)
  next
    case False
    with k(1) have near: "t \<le> s + minutes 15" by (simp add: window_over_def)
    have "length xs < 5"
    proof (rule ccontr)
      assume "\<not> length xs < 5"
      with lock obtain l where "ch_locked_until k = Some l" "\<forall>x\<in>set xs. x + minutes 30 \<le> l" by auto
      with assms(2) k(3) have "s + minutes 30 \<le> t" by (fastforce simp: locked_at_def)
      with near show False by (simp add: minutes_def seconds_def)
    qed
    with p le(2) have "paced 5 (minutes 15) ((s, t # xs) # Vs)" by (cases Vs) (auto split: prod.splits)
    with False Cons W k le(1) show ?thesis
      by (intro exI [of _ "(s, t # xs) # Vs"])
         (auto simp: failures_counted_def failed_challenge_def failed_count_def minutes_def seconds_def)
  qed
qed

lemma rotated_credential:
  assumes "rotated_effect S v expected old db db'" "credential_of db' u = credential_of db u"
  shows "au_challenges db' u = au_challenges db u"
proof -
  obtain m n where n: "au_challenges db v = Some m" "au_challenges db' = (au_challenges db)(v \<mapsto> n)"
    "ch_credential_version (ct_challenge n) = ch_credential_version (ct_challenge m) + 1"
    using assms(1) unfolding rotated_effect_def by blast
  with assms(2) show ?thesis by (cases "v = u") (auto simp: credential_of_def)
qed

lemma enrolled_credential:
  assumes "enrolled_effect v db db'" "credential_of db' u = credential_of db u"
  shows "au_challenges db' u = au_challenges db u"
proof -
  obtain n where n: "au_challenges db' = (au_challenges db)(v \<mapsto> n)"
    "case au_challenges db v of None \<Rightarrow> True | Some m \<Rightarrow> ch_status (ct_challenge m) = ChallengeRecoveryPending
       \<and> ch_credential_version (ct_challenge n) = ch_credential_version (ct_challenge m) + 1"
    using assms(1) unfolding enrolled_effect_def by blast
  with assms(2) show ?thesis
    by (cases "v = u"; cases "au_challenges db v") (auto simp: credential_of_def)
qed

lemma denied_credential:
  assumes "denied_effect S v answer e db db'" "au_challenges db u = Some m"
  shows "au_challenges db' u = Some m
    \<or> (au_challenges db' u = Some (m\<lparr>ct_challenge := failed_challenge (ss_now S) (ct_challenge m)\<rparr>)
       \<and> \<not> locked_at (ss_now S) (ct_challenge m))"
proof -
  obtain n where n: "au_challenges db v = Some n" "\<not> locked_at (ss_now S) (ct_challenge n)"
    "au_challenges db' = (au_challenges db)(v \<mapsto> n\<lparr>ct_challenge := failed_challenge (ss_now S) (ct_challenge n)\<rparr>)"
    using assms(1) unfolding denied_effect_def by blast
  with assms(2) show ?thesis by (cases "v = u") auto
qed

lemma step_challenge:
  assumes "stepup_step S db db'" "credential_of db' u = credential_of db u" "au_challenges db u = Some m"
  shows "au_challenges db' u = Some m
    \<or> (au_challenges db' u = Some (m\<lparr>ct_challenge := failed_challenge (ss_now S) (ct_challenge m)\<rparr>)
       \<and> \<not> locked_at (ss_now S) (ct_challenge m))"
  using assms(1)
proof (rule stepup_stepE)
  fix v answer e assume "denied_effect S v answer e db db'"
  from denied_credential [OF this assms(3)] show ?thesis .
next
  fix v expected old assume "rotated_effect S v expected old db db'"
  from rotated_credential [OF this assms(2)] assms(3) show ?thesis by simp
next
  fix v assume "enrolled_effect v db db'"
  from enrolled_credential [OF this assms(2)] assms(3) show ?thesis by simp
next
  assume "only_outbox db db'"
  from only_outbox_sel(1) [OF this] assms(3) show ?thesis by simp
next
  fix q answer r g g' assume "accepted_effect S q answer r db db' g g'"
  then have "au_challenges db' = au_challenges db" unfolding accepted_effect_def by blast
  with assms(3) show ?thesis by simp
qed

lemma guesses_counted:
  assumes "guesses u db ts db'" "au_challenges db u = Some m"
    and "ch_failure_count (ct_challenge m) = 0" "ch_failure_window (ct_challenge m) = None"
  shows "\<exists>m' Ws. au_challenges db' u = Some m' \<and> failures_counted (ct_challenge m') Ws \<and> times_of Ws = ts"
  using assms(1)
proof induction
  case none
  show ?case using assms(2-4)
    by (intro exI [of _ m] exI [of _ "[]"]) (simp add: failures_counted_def)
next
  case (attempt ts db' op db'' fs r)
  then obtain m' Ws where m': "au_challenges db' u = Some m'" "failures_counted (ct_challenge m') Ws" "times_of Ws = ts"
    by blast
  have st: "stepup_step (op_service op) db' db''" using stepup_run_step [of op "((db', fs), r)"] attempt.hyps by simp
  have cr: "credential_of db'' u = credential_of db' u" by (rule attempt.hyps)
  show ?case
  proof (cases "au_challenges db'' u = au_challenges db' u")
    case True
    with m' show ?thesis by auto
  next
    case False
    with step_challenge [OF st cr m'(1)] m'(1)
    have now: "au_challenges db'' u = Some (m'\<lparr>ct_challenge := failed_challenge (op_now op) (ct_challenge m')\<rparr>)"
      "\<not> locked_at (op_now op) (ct_challenge m')"
      by auto
    have "\<forall>x\<in>set (times_of Ws). x \<le> op_now op" using attempt.hyps(2) m'(3) by blast
    from failure_counted [OF m'(2) now(2) this] obtain Vs where
      "failures_counted (failed_challenge (op_now op) (ct_challenge m')) Vs" "times_of Vs = op_now op # times_of Ws"
      by blast
    with False now(1) m'(3) show ?thesis by auto
  qed
next
  case (elsewhere ts db' db'')
  then show ?case by metis
qed

text \<open>
  C29.  Wrong answers are few.  Against one credential of a user, starting with a clean count, no
  history of requests, whichever sessions, servers, actions and idempotency keys they use, has
  more than ten wrong answers counted in any quarter of an hour, although every one that was
  reported is counted (\<open>wrong_answer_is_counted\<close>).
\<close>

theorem wrong_answers_are_few:
  assumes "guesses u db ts db'" "au_challenges db u = Some m"
    and "ch_failure_count (ct_challenge m) = 0" "ch_failure_window (ct_challenge m) = None"
  shows "length (filter (\<lambda>t. T \<le> t \<and> t \<le> T + minutes 15) ts) \<le> 10"
proof -
  from guesses_counted [OF assms] obtain m' Ws where "au_challenges db' u = Some m'"
    "failures_counted (ct_challenge m') Ws" and ts: "times_of Ws = ts" by blast
  then have "paced 5 (minutes 15) Ws" by (simp add: failures_counted_def)
  from paced_span [OF this, of T] ts show ?thesis by (auto simp: minutes_def seconds_def)
qed

end
