(* ===== verification/AnswerProofs.thy ===== *)
theory AnswerProofs
  imports AnswerHasher
begin

text \<open>
  What the secrets of a challenge are good for: a stored hash accepts exactly the answers that
  derive the stored key, and a sealed question opens under its own binding only.
\<close>

section \<open>The textual form\<close>

lemma str_split_single: "sep \<notin> set xs \<Longrightarrow> str_split sep xs = [xs]"
  by (induction xs) auto

lemma str_split_cut: "sep \<notin> set xs \<Longrightarrow> str_split sep (xs @ sep # ys) = xs # str_split sep ys"
  by (induction xs) auto

lemma digits_free: "\<not> is_digit c \<Longrightarrow> c \<notin> set (nat_digits n)"
  using nat_digits_value [of n] by (auto simp: list_all_iff)

lemma not_digits: "\<not> is_digit CHR ''$''" "\<not> is_digit CHR '',''" "\<not> is_digit CHR 0x00"
  by (code_simp+)

lemma b64_free: "CHR ''$'' \<notin> set (b64_encode s)"
  using b64_encode_chars by blast

lemma parse_phc_uint_digits:
  assumes "n < 2 ^ bits"
  shows "parse_phc_uint (pre @ nat_digits n) pre bits = Some n"
  using assms nat_digits_value [of n] by (simp add: parse_phc_uint_def has_prefix_def trim_prefix_def Let_def)

lemma parse_phc_params_digits:
  assumes "m < 2 ^ 32" "t < 2 ^ 32" "p < 2 ^ 8"
  shows "parse_phc_params (''m='' @ nat_digits m @ '',t='' @ nat_digits t @ '',p='' @ nat_digits p) = Some (m, t, p)"
proof -
  have free: "CHR '','' \<notin> set (''m='' @ nat_digits m)" "CHR '','' \<notin> set (''t='' @ nat_digits t)"
    "CHR '','' \<notin> set (''p='' @ nat_digits p)"
    using digits_free [OF not_digits(2)] by auto
  have "str_split CHR '','' (''m='' @ nat_digits m @ '',t='' @ nat_digits t @ '',p='' @ nat_digits p)
      = [''m='' @ nat_digits m, ''t='' @ nat_digits t, ''p='' @ nat_digits p]"
    using str_split_cut [OF free(1), of "''t='' @ nat_digits t @ '',p='' @ nat_digits p"]
      str_split_cut [OF free(2), of "''p='' @ nat_digits p"] str_split_single [OF free(3)] by simp
  then show ?thesis
    using assms parse_phc_uint_digits [of m 32 "''m=''"] parse_phc_uint_digits [of t 32 "''t=''"]
      parse_phc_uint_digits [of p 8 "''p=''"]
    by (simp add: parse_phc_params_def)
qed

lemma parse_encode_phc:
  assumes "valid_argon2_params p" "length salt = ap_salt_bytes p" "length d = ap_key_bytes p"
  shows "parse_phc (encode_phc p salt d) = Some (p, salt, d)"
proof -
  let ?ps = "''m='' @ nat_digits (ap_memory_kib p) @ '',t='' @ nat_digits (ap_iterations p)
     @ '',p='' @ nat_digits (ap_parallelism p)"
  have free: "CHR ''$'' \<notin> set ?ps" using digits_free [OF not_digits(1)] by auto
  have shape: "encode_phc p salt d = [] @ CHR ''$'' # ''argon2id'' @ CHR ''$'' # ''v=19'' @ CHR ''$'' # ?ps
      @ CHR ''$'' # b64_encode salt @ CHR ''$'' # b64_encode d"
    by (simp add: encode_phc_def)
  have "str_split CHR ''$'' (encode_phc p salt d)
      = [[], ''argon2id'', ''v=19'', ?ps, b64_encode salt, b64_encode d]"
    unfolding shape
    by (subst str_split_cut, use free b64_free in simp)+ (simp add: str_split_single b64_free)
  moreover have "parse_phc_params ?ps = Some (ap_memory_kib p, ap_iterations p, ap_parallelism p)"
    by (rule parse_phc_params_digits) (use assms(1) in \<open>auto simp: valid_argon2_params_def\<close>)
  ultimately show ?thesis
    using assms by (simp add: parse_phc_def b64_round_trip Let_def valid_argon2_params_def)
qed

text \<open>
  A stored answer round-trips: the PHC text that \<open>Hash\<close> stores reads back to the
  parameters, salt and key it was made of, so \<open>Verify\<close> with the same keyring accepts the answer
  it was made of, and accepts another answer exactly when that derives the same key under the
  same pepper and salt.  Argon2id yields as many bytes as it is asked for, the random source as
  many as it is asked for.
\<close>

theorem stored_answer_round_trip:
  assumes "hash_answer H a = Inr (phc, kid)" "new_answer_hasher H n = Some H"
    and "ah_peppers H = Some k" "new_keyring kid keys = Inr k"
    and "\<And>m s. ah_random H m = Some s \<Longrightarrow> length s = m"
    and "\<And>pw s p. length (ah_argon2 H pw s p) = ap_key_bytes p"
  shows "verify_answer H a phc kid = Inr True
     \<and> (\<exists>na pepper salt. normalize_answer (ah_unicode H) a = Inr na \<and> keyring_key (ah_peppers H) kid = Inr pepper
          \<and> parse_phc phc = Some (ah_params H, salt, derive_answer H na pepper salt (ah_params H))
          \<and> (\<forall>b. verify_answer H b phc kid = (case normalize_answer (ah_unicode H) b of Inl e \<Rightarrow> Inl e
                 | Inr nb \<Rightarrow> Inr (derive_answer H na pepper salt (ah_params H)
                                  = derive_answer H nb pepper salt (ah_params H)))))"
proof -
  from assms(1) obtain na key salt where na: "normalize_answer (ah_unicode H) a = Inr na" and acq: "ah_acquired H"
    and cur: "keyring_current (ah_peppers H) = Inr (kid, key)" and salt: "ah_random H (ap_salt_bytes (ah_params H)) = Some salt"
    and phc: "phc = encode_phc (ah_params H) salt (derive_answer H na key salt (ah_params H))"
    by (auto simp: hash_answer_def split: sum.splits if_splits option.splits prod.splits)
  from assms(2) have "valid_argon2_params (ah_params H)"
    by (auto simp: new_answer_hasher_def split: sum.splits if_splits)
  then have parse: "parse_phc phc = Some (ah_params H, salt, derive_answer H na key salt (ah_params H))"
    unfolding phc by (rule parse_encode_phc) (simp_all add: assms(5) [OF salt] derive_answer_def assms(6))
  from assms(4) have "kid \<noteq> []" by (auto simp: new_keyring_def split: if_splits)
  with cur assms(3) have key: "keyring_key (ah_peppers H) kid = Inr key"
    by (auto simp: keyring_current_def keyring_key_def split: option.splits)
  have all: "verify_answer H b phc kid = (case normalize_answer (ah_unicode H) b of Inl e \<Rightarrow> Inl e
      | Inr nb \<Rightarrow> Inr (derive_answer H na key salt (ah_params H) = derive_answer H nb key salt (ah_params H)))" for b
    using parse key acq by (simp add: verify_answer_def split: sum.splits)
  with na parse key show ?thesis by auto
qed

definition demo_hasher :: answer_hasher where
  "demo_hasher = \<lparr>ah_peppers = Some \<lparr>kr_current_id = ''p1'', kr_keys = [''p1'' \<mapsto> replicate 32 CHR ''k'']\<rparr>,
     ah_params = default_argon2_params,
     ah_unicode = \<lparr>ut_nfkc = (\<lambda>s. s), ut_graphemes = length, ut_forbidden = (\<lambda>s. False)\<rparr>,
     ah_hmac = (\<lambda>k m. m), ah_argon2 = (\<lambda>pw s p. take (ap_key_bytes p) (rev pw @ replicate (ap_key_bytes p) CHR ''0'')),
     ah_random = (\<lambda>n. Some (replicate n CHR ''s'')), ah_acquired = True\<rparr>"

theorem stored_answer_round_trip_witness:
  "\<exists>phc. hash_answer demo_hasher ''  seven samurai '' = Inr (phc, ''p1'')
     \<and> verify_answer demo_hasher ''  seven samurai '' phc ''p1'' = Inr True
     \<and> verify_answer demo_hasher ''seven samurais'' phc ''p1'' = Inr False"
proof -
  let ?d = "derive_answer demo_hasher ''seven samurai'' (replicate 32 CHR ''k'') (replicate 16 CHR ''s'') default_argon2_params"
  have n: "normalize_answer (ah_unicode demo_hasher) ''  seven samurai '' = Inr ''seven samurai''"
    by (simp add: demo_hasher_def normalize_answer_def trim_space_def is_space_def)
  have n': "normalize_answer (ah_unicode demo_hasher) ''seven samurais'' = Inr ''seven samurais''"
    by (simp add: demo_hasher_def normalize_answer_def trim_space_def is_space_def)
  have h: "hash_answer demo_hasher ''  seven samurai '' = Inr (encode_phc default_argon2_params (replicate 16 CHR ''s'') ?d, ''p1'')"
    using n by (simp add: hash_answer_def demo_hasher_def keyring_current_def default_argon2_params_def)
  have k: "new_keyring ''p1'' [(''p1'', replicate 32 CHR ''k'')] = Inr \<lparr>kr_current_id = ''p1'', kr_keys = [''p1'' \<mapsto> replicate 32 CHR ''k'']\<rparr>"
    by (simp add: new_keyring_def)
  have w: "new_answer_hasher demo_hasher 1 = Some demo_hasher"
    by (simp add: new_answer_hasher_def demo_hasher_def keyring_current_def valid_argon2_params_def default_argon2_params_def)
  have p: "ah_peppers demo_hasher = Some \<lparr>kr_current_id = ''p1'', kr_keys = [''p1'' \<mapsto> replicate 32 CHR ''k'']\<rparr>"
    by (simp add: demo_hasher_def)
  have r: "\<And>m s. ah_random demo_hasher m = Some s \<Longrightarrow> length s = m" by (auto simp: demo_hasher_def)
  have g: "\<And>pw s p. length (ah_argon2 demo_hasher pw s p) = ap_key_bytes p" by (auto simp: demo_hasher_def)
  note facts = stored_answer_round_trip [OF h w p k r g]
  obtain na pepper salt where a: "normalize_answer (ah_unicode demo_hasher) ''  seven samurai '' = Inr na"
    and v: "verify_answer demo_hasher ''seven samurais'' (encode_phc default_argon2_params (replicate 16 CHR ''s'') ?d) ''p1''
      = (case normalize_answer (ah_unicode demo_hasher) ''seven samurais'' of Inl e \<Rightarrow> Inl e
           | Inr nb \<Rightarrow> Inr (derive_answer demo_hasher na pepper salt (ah_params demo_hasher)
                            = derive_answer demo_hasher nb pepper salt (ah_params demo_hasher)))"
    using facts [THEN conjunct2] by blast
  have "verify_answer demo_hasher ''seven samurais'' (encode_phc default_argon2_params (replicate 16 CHR ''s'') ?d) ''p1'' = Inr False"
    using v a n n' by (simp add: derive_answer_def demo_hasher_def default_argon2_params_def)
  with h facts [THEN conjunct1] show ?thesis by blast
qed

section \<open>Sealed questions\<close>

lemma itoa_free: "CHR 0x00 \<notin> set (itoa v)"
  using digits_free [OF not_digits(3)] by (simp add: itoa_def)

lemma itoa_inj: "0 < v \<Longrightarrow> 0 < w \<Longrightarrow> itoa v = itoa w \<Longrightarrow> v = w"
  by (metis itoa_def nat_digits_value nat_0_le order_less_imp_le linorder_not_less)

lemma aad_inj:
  assumes "valid_encryption_binding p u r v" "valid_encryption_binding p' u' r' v'"
    and "CHR 0x00 \<notin> set u \<union> set u' \<union> set r \<union> set r'"
  shows "encryption_aad p u r v = encryption_aad p' u' r' v' \<longleftrightarrow> (p, u, r, v) = (p', u', r', v')"
proof -
  have "CHR 0x00 \<notin> set p" "CHR 0x00 \<notin> set p'"
    using assms(1,2) by (auto simp: valid_encryption_binding_def purpose_defs)
  then have "encryption_aad p u r v = encryption_aad p' u' r' v' \<longleftrightarrow> p = p' \<and> u = u' \<and> r = r' \<and> itoa v = itoa v'"
    using assms(3) by (simp add: encryption_aad_def cut_at)
  then show ?thesis
    using assms(1,2) itoa_inj [of v v'] by (auto simp: valid_encryption_binding_def)
qed

text \<open>
  C32.  A sealed value cannot be moved: what \<open>Encrypt\<close> sealed for a purpose, owner, record and
  credential version opens to its plaintext under exactly that binding and to nothing under any
  other, as long as owner and record identifiers hold no zero byte.  The AEAD opens what it
  sealed and nothing under other additional data.
\<close>

theorem sealed_value_is_bound:
  assumes "encrypt_value Q p u r v text = Some x" "new_keyring kid keys = Inr k" "qc_keyring Q = Some k"
    and "\<And>m s. qc_random Q m = Some s \<Longrightarrow> length s = m"
    and "\<And>key nonce a t. qc_open Q key nonce a (qc_seal Q key nonce a t) = Some t"
    and "\<And>key nonce a b t. a \<noteq> b \<Longrightarrow> qc_open Q key nonce b (qc_seal Q key nonce a t) = None"
    and "CHR 0x00 \<notin> set u \<union> set u' \<union> set r \<union> set r'"
  shows "decrypt_value Q p' u' r' v' x = (if (p', u', r', v') = (p, u, r, v) then Some text else None)"
proof -
  from assms(1) obtain key nonce where b: "valid_encryption_binding p u r v" and ok: "aes_key_ok key"
    and cur: "keyring_current (qc_keyring Q) = Inr (ev_key_id x, key)" and nonce: "qc_random Q 12 = Some nonce"
    and x: "ev_nonce x = nonce" "ev_ciphertext x = qc_seal Q key nonce (encryption_aad p u r v) text"
    by (auto simp: encrypt_value_def split: if_splits sum.splits option.splits prod.splits)
  from assms(2,3) cur have "ev_key_id x = kid" "kid \<noteq> []"
    by (auto simp: new_keyring_def keyring_current_def split: if_splits option.splits)
  with cur assms(3) have key: "keyring_key (qc_keyring Q) (ev_key_id x) = Inr key" and id: "ev_key_id x \<noteq> []"
    by (auto simp: keyring_current_def keyring_key_def split: option.splits)
  have len: "length (ev_nonce x) = 12" using assms(4) [OF nonce] x(1) by simp
  show ?thesis
  proof (cases "valid_encryption_binding p' u' r' v'")
    case False
    then have "decrypt_value Q p' u' r' v' x = None" by (simp add: decrypt_value_def)
    moreover from False b have "(p', u', r', v') \<noteq> (p, u, r, v)" by auto
    ultimately show ?thesis by simp
  next
    case True
    then have d: "decrypt_value Q p' u' r' v' x
        = qc_open Q key nonce (encryption_aad p' u' r' v') (qc_seal Q key nonce (encryption_aad p u r v) text)"
      using id key ok len x by (simp add: decrypt_value_def)
    have eq: "encryption_aad p u r v = encryption_aad p' u' r' v' \<longleftrightarrow> (p, u, r, v) = (p', u', r', v')"
      by (rule aad_inj [OF b True]) (use assms(7) in auto)
    show ?thesis
    proof (cases "(p', u', r', v') = (p, u, r, v)")
      case True
      with d show ?thesis by (simp add: assms(5))
    next
      case False
      with eq have "encryption_aad p u r v \<noteq> encryption_aad p' u' r' v'" by auto
      with d False show ?thesis by (simp add: assms(6))
    qed
  qed
qed

text \<open>A toy AEAD that carries its additional data along, with its length in unary.\<close>

definition demo_seal :: "string \<Rightarrow> string \<Rightarrow> string \<Rightarrow> string \<Rightarrow> string" where
  "demo_seal key nonce a t = replicate (length a) CHR ''x'' @ CHR 0x00 # a @ t"

definition demo_open :: "string \<Rightarrow> string \<Rightarrow> string \<Rightarrow> string \<Rightarrow> string option" where
  "demo_open key nonce a c =
     (let n = length (takeWhile (\<lambda>x. x \<noteq> CHR 0x00) c); rest = drop (Suc n) c
      in if n = length a \<and> take n rest = a then Some (drop n rest) else None)"

lemma demo_open_seal: "demo_open key nonce b (demo_seal key nonce a t) = (if a = b then Some t else None)"
  by (auto simp: demo_open_def demo_seal_def Let_def takeWhile_append)

definition demo_cipher :: question_cipher where
  "demo_cipher = \<lparr>qc_keyring = Some \<lparr>kr_current_id = ''q1'', kr_keys = [''q1'' \<mapsto> replicate 32 CHR ''k'']\<rparr>,
     qc_seal = demo_seal, qc_open = demo_open, qc_random = (\<lambda>n. Some (replicate n CHR ''n''))\<rparr>"

theorem sealed_value_is_bound_witness:
  "\<exists>x. encrypt_value demo_cipher PurposeChallengeQuestion ''ann'' ''challenge:ann'' 3 ''first pet?'' = Some x
     \<and> decrypt_value demo_cipher PurposeChallengeQuestion ''ann'' ''challenge:ann'' 3 x = Some ''first pet?''
     \<and> decrypt_value demo_cipher PurposeChallengeQuestion ''ann'' ''challenge:ann'' 4 x = None"
proof -
  obtain x where x: "encrypt_value demo_cipher PurposeChallengeQuestion ''ann'' ''challenge:ann'' 3 ''first pet?'' = Some x"
    by (simp add: encrypt_value_def demo_cipher_def valid_encryption_binding_def keyring_current_def aes_key_ok_def)
  have k: "new_keyring ''q1'' [(''q1'', replicate 32 CHR ''k'')] = Inr \<lparr>kr_current_id = ''q1'', kr_keys = [''q1'' \<mapsto> replicate 32 CHR ''k'']\<rparr>"
    by (simp add: new_keyring_def)
  have "decrypt_value demo_cipher PurposeChallengeQuestion ''ann'' ''challenge:ann'' v x
      = (if v = 3 then Some ''first pet?'' else None)" for v
    by (subst sealed_value_is_bound [OF x k]) (auto simp: demo_cipher_def demo_open_seal)
  with x show ?thesis by simp
qed

end
