(* ===== verification/StepUpDemo.thy ===== *)
theory StepUpDemo
  imports StepUpHistories AnswerProofs
begin

text \<open>
  Concrete runs of the step-up service: the properties of \<open>StepUpProperties\<close> and
  \<open>StepUpHistories\<close> at a database with one super administrator and one credential.
\<close>

section \<open>A service and its database\<close>

definition demo_key :: string where
  "demo_key = replicate 32 (CHR ''k'')"

definition demo_print :: fingerprint where
  "demo_print = \<lparr>fp_version = ''hmac-sha256-v1'', fp_key_id = ''k'', fp_digest = replicate 32 (CHR ''d'')\<rparr>"

definition demo_stepup :: stepup_service where
  "demo_stepup = \<lparr>ss_hasher = demo_hasher, ss_cipher = demo_cipher, ss_limiter = (\<lambda>u client c. ((0, None), c)),
     ss_fingerprint = (\<lambda>purpose body. Some demo_print), ss_marshal = concat \<circ> map snd,
     ss_digest = (\<lambda>s. replicate 43 CHR ''d''), ss_hash_bearer = (\<lambda>s. ''h'' @ s), ss_json_unmarshal = (\<lambda>s. None),
     ss_json_marshal = concat, ss_now = 9, ss_db_now = 9, ss_new_id = (\<lambda>p. Some (p @ ''x'')), ss_new_token = Some ''bearer'',
     ss_fresh_id = ''f'', ss_general_freshness = minutes 30, ss_high_risk_freshness = minutes 5, ss_grant_ttl = minutes 10\<rparr>"

lemma demo_stepup_sel [simp]:
  "ss_hasher demo_stepup = demo_hasher" "ss_cipher demo_stepup = demo_cipher" "ss_limiter demo_stepup u client c = ((0, None), c)"
  "ss_fingerprint demo_stepup purpose body = Some demo_print" "ss_digest demo_stepup s = replicate 43 CHR ''d''"
  "ss_hash_bearer demo_stepup t = ''h'' @ t" "ss_now demo_stepup = 9" "ss_db_now demo_stepup = 9"
  "ss_new_id demo_stepup p = Some (p @ ''x'')" "ss_new_token demo_stepup = Some ''bearer''" "ss_fresh_id demo_stepup = ''f''"
  "ss_general_freshness demo_stepup = minutes 30" "ss_high_risk_freshness demo_stepup = minutes 5"
  "ss_grant_ttl demo_stepup = minutes 10"
  by (simp_all add: demo_stepup_def)

lemma demo_configured: "new_stepup_service demo_stepup = Some demo_stepup"
  by (simp add: new_stepup_service_def minutes_def seconds_def)

definition demo_derived :: string where
  "demo_derived = derive_answer demo_hasher ''seven samurai'' (replicate 32 CHR ''k'') (replicate 16 CHR ''s'') default_argon2_params"

definition demo_phc :: string where
  "demo_phc = encode_phc default_argon2_params (replicate 16 CHR ''s'') demo_derived"

definition demo_material :: credential_material where
  "demo_material = \<lparr>ct_challenge = \<lparr>ch_user_id = ''u'', ch_status = ChallengeActive, ch_must_rotate = False,
       ch_credential_version = 2, ch_security_epoch = 1, ch_failure_count = 0, ch_failure_window = None,
       ch_locked_until = None, ch_version = 4, ch_created_at = 1, ch_updated_at = 1\<rparr>,
     ct_question_key_id = ''q1'', ct_question_nonce = replicate 12 CHR ''n'', ct_question_ciphertext = ''c'',
     ct_answer_phc = demo_phc, ct_answer_pepper_key_id = ''p1''\<rparr>"

definition demo_old_proof :: step_up_state where
  "demo_old_proof = \<lparr>su_id = ''asu_0'', su_session_id = ''s'', su_user_id = ''u'', su_challenge_version = 2,
     su_security_epoch = 1, su_verified_at = 3, su_expires_at = 8, su_revoked_at = None\<rparr>"

definition demo_authority :: authority_db where
  "demo_authority = \<lparr>au_admin = demo_admin_db, au_epoch = (\<lambda>u. 1), au_challenges = [''u'' \<mapsto> demo_material],
     au_proofs = [demo_old_proof], au_approvals = [], au_requests = [], au_grants = [], au_events = []\<rparr>"

definition demo_grants :: reauth_db where
  "demo_grants = \<lparr>cd_ms = 1000, cd_data = Map.empty, cd_attempts = Map.empty, cd_claims = Map.empty,
     ra_index = [], ra_grants = Map.empty\<rparr>"

definition demo_stepup_world :: stepup_world where
  "demo_stepup_world = ((demo_authority, []), ((\<lparr>rl_ms = 1000, rl_keys = Map.empty\<rparr>, []), (demo_grants, [])))"

definition demo_verify :: "string \<Rightarrow> verify_request" where
  "demo_verify answer = \<lparr>vq_user_id = ''u'', vq_session_id = ''s'', vq_event_id = ''e1'', vq_answer = answer,
     vq_action = ReauthActionAdminRoleManagement, vq_target = ''e1'', vq_client = ''c'', vq_key = demo_key,
     vq_request_id = ''q''\<rparr>"

definition demo_rotate :: rotate_input where
  "demo_rotate = \<lparr>ro_user_id = ''u'', ro_event_id = ''e1'', ro_old_answer = ''seven samurai'',
     ro_new_question = ''first pet?'', ro_new_answer = ''rashomon gate'', ro_client = ''c'', ro_key = demo_key,
     ro_request_id = ''q'', ro_expected_version = 4\<rparr>"

section \<open>The steps of a run\<close>

lemma demo_identity: "validate_mutation_identity ''u'' ''e1'' ''q'' demo_key = None"
  by (simp add: validate_mutation_identity_def demo_key_def trim_space_def is_space_def valid_idempotency_key_def
      list_all_iff is_token_char_def is_alnum_def)

lemma demo_admin_sel [simp]:
  "ad_bindings demo_admin_db = [demo_binding]" "ad_users demo_admin_db = [''u'' \<mapsto> ''active'', ''t'' \<mapsto> ''active'']"
  "ad_outbox demo_admin_db = []" "ad_now demo_admin_db = 7"
  by (simp_all add: demo_admin_db_def)

lemma demo_authority_sel [simp]:
  "au_admin demo_authority = demo_admin_db" "au_epoch demo_authority u = 1" "au_challenges demo_authority = [''u'' \<mapsto> demo_material]"
  "au_proofs demo_authority = [demo_old_proof]" "au_approvals demo_authority = []" "au_requests demo_authority = []"
  "au_grants demo_authority = []" "au_events demo_authority = []"
  by (simp_all add: demo_authority_def)

lemma demo_bound: "require_binding ''u'' ''e1'' (demo_authority, []) = (Inr (), (demo_authority, []))"
proof -
  have b: "bd_role demo_binding = RoleSuperAdmin" "bd_scope demo_binding = system_scope" "bd_user_id demo_binding = ''u''"
    "bd_disabled_at demo_binding = None" "bd_enabled demo_binding"
    by (simp_all add: demo_binding_def)
  have s: "get_for_scope ''u'' system_scope (demo_admin_db, []) = (Inr demo_binding, (demo_admin_db, []))"
    by (simp add: get_for_scope_def scope_key_def system_scope_def ScopeSystem_def sql_find_binding_def b)
  have e: "get_for_scope ''u'' (event_scope ''e1'') (demo_admin_db, []) = (Inl ErrBindingNotFound, (demo_admin_db, []))"
    by (simp add: get_for_scope_def scope_key_def system_scope_def event_scope_def ScopeSystem_def ScopeEvent_def
        sql_find_binding_def b trim_space_def is_space_def)
  show ?thesis
    by (simp add: require_binding_def on_admin_def s e binding_effective_def b governing_role_def Let_def)
qed

lemma demo_normal: "normalize_answer (ah_unicode demo_hasher) ''seven samurai'' = Inr ''seven samurai''"
  "normalize_answer (ah_unicode demo_hasher) ''seven sisters'' = Inr ''seven sisters''"
  "normalize_answer (ah_unicode demo_hasher) ''rashomon gate'' = Inr ''rashomon gate''"
  "normalize_question (ah_unicode demo_hasher) ''first pet?'' = Inr ''first pet?''"
  by (simp_all add: demo_hasher_def normalize_answer_def normalize_question_def trim_space_def is_space_def)

lemma demo_verified:
  "verify_answer demo_hasher ''seven samurai'' demo_phc ''p1'' = Inr True"
  "verify_answer demo_hasher ''seven sisters'' demo_phc ''p1'' = Inr False"
proof -
  have "length demo_derived = 32"
    by (simp add: demo_derived_def derive_answer_def demo_hasher_def default_argon2_params_def)
  then have p: "parse_phc demo_phc = Some (default_argon2_params, replicate 16 CHR ''s'', demo_derived)"
    unfolding demo_phc_def
    by (intro parse_encode_phc) (simp_all add: valid_argon2_params_def default_argon2_params_def)
  have k: "keyring_key (ah_peppers demo_hasher) ''p1'' = Inr (replicate 32 CHR ''k'')" "ah_acquired demo_hasher"
    by (simp_all add: demo_hasher_def keyring_key_def)
  show "verify_answer demo_hasher ''seven samurai'' demo_phc ''p1'' = Inr True"
    by (simp add: verify_answer_def demo_normal p k) (simp add: demo_derived_def)
  have "demo_derived \<noteq> derive_answer demo_hasher ''seven sisters'' (replicate 32 CHR ''k'') (replicate 16 CHR ''s'') default_argon2_params"
    by (simp add: demo_derived_def derive_answer_def demo_hasher_def default_argon2_params_def)
  then show "verify_answer demo_hasher ''seven sisters'' demo_phc ''p1'' = Inr False"
    by (simp add: verify_answer_def demo_normal p k)
qed

definition demo_opened :: authority_db where
  "demo_opened = demo_authority\<lparr>au_admin := demo_admin_db\<lparr>ad_outbox := [demo_row]\<rparr>\<rparr>"

lemma stepup_receipt_lift:
  assumes "receipt_create_or_replay fid now r (au_admin (fst c), snd c) = (Inr y, d)"
  shows "stepup_create_or_replay fid now r c = (Inr y, ((fst c)\<lparr>au_admin := fst d\<rparr>, snd d))"
  using assms by (auto simp: stepup_create_or_replay_def receipt_create_or_replay_def on_admin_def split: prod.splits sum.splits)

lemma demo_begun:
  "\<exists>x. begin_receipt demo_stepup demo_key demo_print (demo_authority, []) = (Inr (x, False), (demo_opened, []))
     \<and> lr_id x = ''aop_x'' \<and> lr_version x = 1"
proof -
  obtain x where x: "receipt_create_or_replay ''f'' 9 demo_receipt (demo_admin_db, [])
     = (Inr (x, False), (demo_admin_db\<lparr>ad_outbox := [demo_row]\<rparr>, []))" "lr_id x = ''aop_x''" "lr_version x = 1"
    using demo_receipt_created by blast
  have r: "\<lparr>lr_id = ''aop_x'', lr_key = demo_key, lr_fingerprint = demo_print,
      lr_result = \<lparr>ar_code = [], ar_digest = [], ar_payload = None\<rparr>, lr_state = ''pending'', lr_version = 1,
      lr_created_at = 9, lr_terminal_at = None\<rparr> = demo_receipt"
    by (simp add: demo_receipt_def demo_key_def demo_print_def)
  have "stepup_create_or_replay ''f'' 9 demo_receipt (demo_authority, []) = (Inr (x, False), (demo_opened, []))"
    using stepup_receipt_lift [of "''f''" 9 demo_receipt "(demo_authority, [])" "(x, False)"
        "(demo_admin_db\<lparr>ad_outbox := [demo_row]\<rparr>, [])"] x(1)
    by (simp add: demo_opened_def)
  with x(2,3) show ?thesis by (simp add: begin_receipt_def r)
qed

text \<open>What the receipt of the run is completed with.\<close>

definition finished_row :: "allowlisted_result \<Rightarrow> outbox_item" where
  "finished_row res = (bumped 9 demo_row)\<lparr>ob_state := StateSucceeded, ob_result := stored_result res, ob_terminal_at := Some 9\<rparr>"

definition demo_result_ok :: "allowlisted_result \<Rightarrow> bool" where
  "demo_result_ok res \<longleftrightarrow> result_validate res = None \<and> row_check (finished_row res)"

lemma demo_closed:
  assumes "ad_outbox (au_admin db) = demo_row # rest" "\<forall>r\<in>set rest. ob_id r \<noteq> ''aop_x''" "demo_result_ok res"
  shows "\<exists>db'. stepup_complete_local ''aop_x'' 1 res 9 (db, []) = (Inr (), (db', []))"
proof -
  have p: "ob_id demo_row = ''aop_x''" "ob_version demo_row = 1" "ob_kind demo_row = OperationLocal"
    "ob_state demo_row = StatePending" "ob_terminal_at demo_row = None"
    by (simp_all add: demo_row_def new_row_def outbox_defaults_def receipt_item_def demo_receipt_def StatePending_def Let_def)
  have f: "filter (\<lambda>r. ob_id r = ''aop_x'' \<and> Q r) rest = []" for Q using assms(2) by (auto simp: filter_empty_conv)
  show ?thesis
    using assms(3) by (simp add: stepup_complete_local_def on_admin_def on_outbox_def assms(1) complete_local_def exec_one_def
        sql_update_def p f demo_result_ok_def finished_row_def)
qed

lemma demo_result_okI:
  assumes "ar_code res \<in> set allowed_result_codes" "ar_digest res = replicate 43 CHR ''d''"
    and "list_all (\<lambda>(k, v). payload_value_ok k v) (payload_entries res)" "list_all (\<lambda>(k, v). stored_value_ok k v) (payload_entries res)"
  shows "demo_result_ok res"
proof -
  have d: "result_digest_ok (replicate 43 CHR ''d'')"
    by (simp add: result_digest_ok_def list_all_iff is_token_char_def is_alnum_def)
  have v: "result_validate res = None"
    using assms d by (simp add: result_validate_def)
  have "row_check (finished_row res)"
    using demo_row_check assms d by (simp add: finished_row_def row_check_def demo_row_def new_row_def outbox_defaults_def receipt_item_def
      demo_receipt_def bumped_def stored_result_def delivery_phase_valid_def payload_entries_def Let_def)
  with v show ?thesis by (simp add: demo_result_ok_def)
qed

lemma demo_digits: "itoa 2 = ''2''" "itoa 3 = ''3''" "itoa 5 = ''5''"
  by (code_simp+)

lemma demo_results:
  "demo_result_ok (encode_receipt (\<lambda>s. replicate 43 CHR ''d'') ''challenge.verified'' 2 StateActive)"
  "demo_result_ok (encode_receipt (\<lambda>s. replicate 43 CHR ''d'') ''challenge.rejected'' 5 StateActive)"
  by (rule demo_result_okI; simp add: encode_receipt_def payload_entries_def demo_digits allowed_result_codes_def
      payload_value_ok_def stored_value_ok_def stored_digits_def parse_int64_def digits_value_def is_digit_def
      allowed_statuses_def StateActive_def)+

lemma demo_opened_sel [simp]:
  "au_epoch demo_opened u = 1" "au_challenges demo_opened = [''u'' \<mapsto> demo_material]" "au_proofs demo_opened = [demo_old_proof]"
  "ad_users (au_admin demo_opened) = [''u'' \<mapsto> ''active'', ''t'' \<mapsto> ''active'']" "ad_outbox (au_admin demo_opened) = [demo_row]"
  "au_requests demo_opened = []" "au_grants demo_opened = []" "au_approvals demo_opened = []"
  "au_events demo_opened = []"
  by (simp_all add: demo_opened_def)

lemma demo_material_sel [simp]:
  "ct_answer_phc demo_material = demo_phc" "ct_answer_pepper_key_id demo_material = ''p1''"
  "ch_user_id (ct_challenge demo_material) = ''u''" "ch_status (ct_challenge demo_material) = ChallengeActive"
  "\<not> ch_must_rotate (ct_challenge demo_material)" "ch_credential_version (ct_challenge demo_material) = 2"
  "ch_version (ct_challenge demo_material) = 4" "ch_locked_until (ct_challenge demo_material) = None"
  "ch_failure_count (ct_challenge demo_material) = 0" "ch_failure_window (ct_challenge demo_material) = None"
  by (simp_all add: demo_material_def)

lemma demo_material_user: "demo_material\<lparr>ct_challenge := (ct_challenge demo_material)\<lparr>ch_user_id := ''u''\<rparr>\<rparr> = demo_material"
  by (simp add: demo_material_def)

lemma demo_read: "get_credential_for_verification ''u'' (demo_opened, []) = (Inr demo_material, (demo_opened, []))"
  by (simp add: get_credential_for_verification_def sql_challenge_def demo_material_user)

lemma demo_role_action: "is_high_risk_admin_action ReauthActionAdminRoleManagement"
  "is_supported_admin_action ReauthActionAdminRoleManagement"
  by (simp_all add: is_high_risk_admin_action_def is_supported_admin_action_def is_admin_reauth_action_def)

lemma demo_state: "challenge_state (ct_challenge demo_material) = StateActive" "\<not> locked_at 9 (ct_challenge demo_material)"
  by (simp_all add: challenge_state_def locked_at_def challenge_status_defs)

definition demo_proof :: step_up_state where
  "demo_proof = \<lparr>su_id = ''asu_x'', su_session_id = ''s'', su_user_id = ''u'', su_challenge_version = 2,
     su_security_epoch = 1, su_verified_at = 9, su_expires_at = 9 + minutes 30, su_revoked_at = None\<rparr>"

lemma demo_proof_stored:
  "put_step_up demo_proof (demo_opened, [])
     = (Inr (), (demo_opened\<lparr>au_proofs := [demo_old_proof\<lparr>su_revoked_at := Some 9\<rparr>, demo_proof]\<rparr>, []))"
  by (simp add: put_step_up_def sql_revoke_proofs_def sql_insert_proof_def demo_proof_def demo_old_proof_def proof_check_def
      proof_conflict_def Let_def minutes_def seconds_def)

lemma demo_accepted:
  assumes "lr_id x = ''aop_x''" "lr_version x = 1"
  shows "\<exists>r db g. verify_accepted demo_stepup (demo_verify a) x (ct_challenge demo_material) ((demo_opened, []), (l, (demo_grants, [])))
     = (Inr r, ((db, []), (l, (g, [])))) \<and> \<not> vr_replayed r"
proof -
  let ?db = "demo_opened\<lparr>au_proofs := [demo_old_proof\<lparr>su_revoked_at := Some 9\<rparr>, demo_proof]\<rparr>"
  have e: "account_current_epoch ''u'' (demo_opened, []) = (Inr 1, (demo_opened, []))"
    by (simp add: account_current_epoch_def sql_account_epoch_def)
  obtain db where c: "stepup_complete_local ''aop_x'' 1 (encode_receipt (\<lambda>s. replicate 43 CHR ''d'') ''challenge.verified'' 2 StateActive) 9
      (?db\<lparr>au_events := [audit_row (verify_audit (demo_verify a) x)]\<rparr>, []) = (Inr (), (db, []))"
    using demo_closed [of "?db\<lparr>au_events := [audit_row (verify_audit (demo_verify a) x)]\<rparr>" "[]"] demo_results(1) by auto
  have d: "ss_digest demo_stepup = (\<lambda>s. replicate 43 CHR ''d'')" by (simp add: demo_stepup_def)
  have q: "vq_user_id (demo_verify a) = ''u''" "vq_session_id (demo_verify a) = ''s''" "vq_action (demo_verify a) = ReauthActionAdminRoleManagement"
    by (simp_all add: demo_verify_def)
  note p = demo_proof_stored [unfolded demo_proof_def]
  have g: "\<exists>r g. high_risk_grant demo_stepup (demo_verify a) 1 2 (empty_verify_result\<lparr>vr_state := StateActive, vr_verified_at := 9,
       vr_expires_at := 9 + minutes 30, vr_challenge_version := 2\<rparr>) ((?db, []), (l, (demo_grants, [])))
     = (Inr r, ((?db, []), (l, (g, [])))) \<and> \<not> vr_replayed r"
    by (simp add: high_risk_grant_def q demo_role_action create_grant_def reauth_create_grant_def grant_data_def Let_def empty_verify_result_def)
  then obtain r g where g: "high_risk_grant demo_stepup (demo_verify a) 1 2 (empty_verify_result\<lparr>vr_state := StateActive, vr_verified_at := 9,
       vr_expires_at := 9 + minutes 30, vr_challenge_version := 2\<rparr>) ((?db, []), (l, (demo_grants, [])))
     = (Inr r, ((?db, []), (l, (g, []))))" "\<not> vr_replayed r" by blast
  show ?thesis
    using g(2) by (simp add: verify_accepted_def on_db_def e q p demo_state audit_record_def
        sql_insert_authority_event_def assms d g(1) [unfolded demo_proof_def] c [unfolded demo_proof_def])
qed

lemma demo_authority_after: "fst (snd demo_stepup_world) = (\<lparr>rl_ms = 1000, rl_keys = Map.empty\<rparr>, [])"
  "fst demo_stepup_world = (demo_authority, [])" "snd (snd demo_stepup_world) = (demo_grants, [])"
  by (simp_all add: demo_stepup_world_def)

lemma demo_to_body:
  assumes "normalize_answer (ah_unicode demo_hasher) a = Inr a"
  shows "verify_challenge demo_stepup (demo_verify a) demo_stepup_world
     = tx_within ErrStepUpInfra (verify_body demo_stepup (demo_verify a) a demo_print) demo_stepup_world"
proof -
  have q: "vq_user_id (demo_verify a) = ''u''" "vq_session_id (demo_verify a) = ''s''" "vq_event_id (demo_verify a) = ''e1''"
    "vq_answer (demo_verify a) = a" "vq_action (demo_verify a) = ReauthActionAdminRoleManagement" "vq_target (demo_verify a) = ''e1''"
    "vq_client (demo_verify a) = ''c''" "vq_key (demo_verify a) = demo_key" "vq_request_id (demo_verify a) = ''q''"
    by (simp_all add: demo_verify_def)
  have t: "valid_admin_action_target demo_stepup ''u'' ''e1'' ReauthActionAdminRoleManagement ''e1''"
    by (simp add: valid_admin_action_target_def trim_space_def is_space_def)
  have "ReauthActionAdminRoleManagement \<noteq> []" by (simp add: admin_reauth_action_defs)
  moreover have "on_db (require_binding ''u'' ''e1'') demo_stepup_world = (Inr (), demo_stepup_world)"
    by (simp add: on_db_def demo_stepup_world_def demo_bound)
  ultimately show ?thesis
    by (simp add: verify_challenge_def q demo_identity t demo_role_action assms)
qed

lemma demo_verify_run:
  "\<exists>r w'. verify_challenge demo_stepup (demo_verify ''seven samurai'') demo_stepup_world = (Inr (r, None), w') \<and> \<not> vr_replayed r"
proof -
  let ?q = "demo_verify ''seven samurai''" and ?l = "(\<lparr>rl_ms = 1000, rl_keys = Map.empty\<rparr>, [])"
  obtain x where x: "begin_receipt demo_stepup demo_key demo_print (demo_authority, []) = (Inr (x, False), (demo_opened, []))"
    "lr_id x = ''aop_x''" "lr_version x = 1"
    using demo_begun by blast
  obtain r db g where a: "verify_accepted demo_stepup ?q x (ct_challenge demo_material) ((demo_opened, []), (?l, (demo_grants, [])))
     = (Inr r, ((db, []), (?l, (g, []))))" "\<not> vr_replayed r"
    using demo_accepted [OF x(2,3), of "''seven samurai''" ?l] by blast
  have q: "vq_user_id ?q = ''u''" "vq_action ?q = ReauthActionAdminRoleManagement" "vq_client ?q = ''c''" "vq_key ?q = demo_key"
    by (simp_all add: demo_verify_def)
  have "verify_body demo_stepup ?q ''seven samurai'' demo_print demo_stepup_world = (Inr (r, None), ((db, []), (?l, (g, []))))"
    by (simp add: verify_body_def on_db_def demo_stepup_world_def q x(1) demo_read demo_state limiter_gate_def demo_verified a(1)
        stepup_state_defs)
  then have "tx_within ErrStepUpInfra (verify_body demo_stepup ?q ''seven samurai'' demo_print) demo_stepup_world
     = (Inr (r, None), ((db, []), (?l, (g, []))))"
    by (simp add: tx_within_def demo_stepup_world_def)
  with a(2) demo_to_body [OF demo_normal(1)] show ?thesis by auto
qed

theorem verified_proof_is_earned_witness:
  "\<exists>r w' t. verify_challenge demo_stepup (demo_verify ''seven samurai'') demo_stepup_world = (Inr (r, None), w')
     \<and> standing demo_authority ''u'' ''e1''
     \<and> verify_answer demo_hasher ''seven samurai'' demo_phc ''p1'' = Inr True
     \<and> ra_grants (fst (snd (snd w'))) (''h'' @ vr_reauth_grant r) \<noteq> None"
proof -
  obtain r w' where r: "verify_challenge demo_stepup (demo_verify ''seven samurai'') demo_stepup_world = (Inr (r, None), w')"
    "\<not> vr_replayed r"
    using demo_verify_run by blast
  have q: "vq_user_id (demo_verify ''seven samurai'') = ''u''" "vq_event_id (demo_verify ''seven samurai'') = ''e1''"
    "vq_answer (demo_verify ''seven samurai'') = ''seven samurai''"
    "is_high_risk_admin_action (vq_action (demo_verify ''seven samurai''))"
    by (simp_all add: demo_verify_def demo_role_action)
  from verified_proof_is_earned [OF demo_configured r]
  have "standing demo_authority ''u'' ''e1'' \<and> (\<exists>m. au_challenges demo_authority ''u'' = Some m
       \<and> verify_answer demo_hasher ''seven samurai'' (ct_answer_phc m) (ct_answer_pepper_key_id m) = Inr True)
     \<and> ra_grants (fst (snd (snd w'))) (''h'' @ vr_reauth_grant r) \<noteq> None"
    unfolding q demo_authority_after fst_conv demo_stepup_sel by (auto simp: q demo_normal)
  with r(1) show ?thesis by auto
qed

section \<open>A wrong answer\<close>

definition demo_counted :: credential_material where
  "demo_counted = demo_material\<lparr>ct_challenge := failed_challenge 9 (ct_challenge demo_material)\<rparr>"

lemma demo_counted_sel: "failed_challenge 9 (ct_challenge demo_material) = (ct_challenge demo_material)\<lparr>ch_failure_window := Some 9,
    ch_failure_count := 1, ch_version := 5, ch_updated_at := 9\<rparr>"
  by (simp add: failed_challenge_def failed_count_def window_over_def demo_material_def)

lemma demo_failure:
  "record_failure ''u'' 4 9 (demo_opened, [])
     = (Inr (failed_challenge 9 (ct_challenge demo_material)), (demo_opened\<lparr>au_challenges := [''u'' \<mapsto> demo_counted]\<rparr>, []))"
proof -
  have "challenge_check demo_counted"
    by (simp add: challenge_check_def demo_counted_def demo_counted_sel material_present_def)
       (simp add: demo_material_def demo_phc_def encode_phc_def)
  then have c: "challenge_check (demo_material\<lparr>ct_challenge := failed_challenge 9 (ct_challenge demo_material)\<rparr>)"
    by (simp add: demo_counted_def)
  have u: "(failed_challenge 9 (ct_challenge demo_material))\<lparr>ch_user_id := ''u''\<rparr> = failed_challenge 9 (ct_challenge demo_material)"
    unfolding demo_counted_sel by (simp add: demo_material_def)
  show ?thesis
    by (simp add: record_failure_def sql_update_challenge_def c challenge_get_def sql_challenge_def u demo_counted_def)
qed

lemma demo_rejected:
  assumes "lr_id x = ''aop_x''" "lr_version x = 1" "sa_actor_id a = ''u''"
  shows "\<exists>db. reject_answer demo_stepup x a demo_material (demo_opened, []) = (Inr ErrInvalidChallengeAnswer, (db, []))
     \<and> au_challenges db = [''u'' \<mapsto> demo_counted]"
proof -
  let ?k = "failed_challenge 9 (ct_challenge demo_material)"
  let ?db = "demo_opened\<lparr>au_challenges := [''u'' \<mapsto> demo_counted], au_events := [audit_row (a\<lparr>sa_result := ''denied''\<rparr>)]\<rparr>"
  have k: "\<not> locked_at 9 ?k" "ch_version ?k = 5" "challenge_state ?k = StateActive"
    by (simp_all add: demo_counted_sel locked_at_def challenge_state_def challenge_status_defs)
  obtain db where c: "stepup_complete_local ''aop_x'' 1 (encode_receipt (\<lambda>s. replicate 43 CHR ''d'') ''challenge.rejected'' 5 StateActive) 9
      (?db, []) = (Inr (), (db, []))"
    using demo_closed [of ?db "[]"] demo_results(2) by auto
  have d: "ss_digest demo_stepup = (\<lambda>s. replicate 43 CHR ''d'')" by (simp add: demo_stepup_def)
  have "au_challenges db = [''u'' \<mapsto> demo_counted]"
    using only_outbox_sel(1) [OF receipt_frames(2) [OF c]] by simp
  then show ?thesis
    by (simp add: reject_answer_def assms demo_failure k audit_record_def sql_insert_authority_event_def d c Let_def)
qed

lemma demo_wrong_run:
  "\<exists>r e w'. verify_challenge demo_stepup (demo_verify ''seven sisters'') demo_stepup_world = (Inr (r, Some e), w') \<and> \<not> vr_replayed r
     \<and> au_challenges (fst (fst w')) = [''u'' \<mapsto> demo_counted]"
proof -
  let ?q = "demo_verify ''seven sisters''" and ?l = "(\<lparr>rl_ms = 1000, rl_keys = Map.empty\<rparr>, [])"
  obtain x where x: "begin_receipt demo_stepup demo_key demo_print (demo_authority, []) = (Inr (x, False), (demo_opened, []))"
    "lr_id x = ''aop_x''" "lr_version x = 1"
    using demo_begun by blast
  have q: "vq_user_id ?q = ''u''" "vq_action ?q = ReauthActionAdminRoleManagement" "vq_client ?q = ''c''" "vq_key ?q = demo_key"
    by (simp_all add: demo_verify_def)
  obtain db where a: "reject_answer demo_stepup x (verify_audit ?q x) demo_material (demo_opened, [])
      = (Inr ErrInvalidChallengeAnswer, (db, []))" and db: "au_challenges db = [''u'' \<mapsto> demo_counted]"
    using demo_rejected [OF x(2,3), of "verify_audit ?q x"] by (auto simp: verify_audit_def q)
  have "verify_body demo_stepup ?q ''seven sisters'' demo_print demo_stepup_world
      = (Inr (empty_verify_result, Some ErrInvalidChallengeAnswer), ((db, []), (?l, (demo_grants, []))))"
    by (simp add: verify_body_def on_db_def demo_stepup_world_def q x(1) demo_read demo_state limiter_gate_def demo_verified a
        stepup_state_defs)
  then have "tx_within ErrStepUpInfra (verify_body demo_stepup ?q ''seven sisters'' demo_print) demo_stepup_world
     = (Inr (empty_verify_result, Some ErrInvalidChallengeAnswer), ((db, []), (?l, (demo_grants, []))))"
    by (simp add: tx_within_def demo_stepup_world_def)
  with demo_to_body [OF demo_normal(2)] db show ?thesis by (auto simp: empty_verify_result_def)
qed

theorem wrong_answer_is_counted_witness:
  "\<exists>r e w' n. verify_challenge demo_stepup (demo_verify ''seven sisters'') demo_stepup_world = (Inr (r, Some e), w')
     \<and> au_challenges (fst (fst w')) ''u'' = Some n \<and> ch_failure_count (ct_challenge n) = 1
     \<and> au_proofs (fst (fst w')) = [demo_old_proof]"
proof -
  obtain r e w' where r: "verify_challenge demo_stepup (demo_verify ''seven sisters'') demo_stepup_world = (Inr (r, Some e), w')"
    "\<not> vr_replayed r"
    using demo_wrong_run by auto
  have q: "vq_user_id (demo_verify ''seven sisters'') = ''u''" by (simp add: demo_verify_def)
  from wrong_answer_is_counted [OF r]
  obtain m k where "au_challenges demo_authority ''u'' = Some m"
    "au_challenges (fst (fst w')) = (au_challenges demo_authority)(''u'' \<mapsto> m\<lparr>ct_challenge := k\<rparr>)"
    "ch_failure_count k = (if window_over (ss_now demo_stepup) (ct_challenge m) then 1 else ch_failure_count (ct_challenge m) + 1)"
    "au_proofs (fst (fst w')) = au_proofs demo_authority"
    unfolding q demo_authority_after fst_conv by blast
  with r(1) show ?thesis by (auto simp: window_over_def)
qed

section \<open>A rotation\<close>

lemma demo_put:
  assumes "material_present m" "ch_status (ct_challenge m) = ChallengeActive" "ch_user_id (ct_challenge m) = ''u''"
  shows "\<exists>k. put_credential 9 m 4 (demo_opened, []) = (Inr k, (demo_opened\<lparr>au_challenges := [''u'' \<mapsto> replaced_material 9 m demo_material]\<rparr>, []))
     \<and> ch_version k = 5 \<and> ch_credential_version k = 3"
proof -
  have "material_present (replaced_material 9 m demo_material)" using assms(1) by (simp add: material_present_def replaced_material_def Let_def)
  then have "challenge_check (replaced_material 9 m demo_material)"
    by (simp add: challenge_check_def replaced_material_def Let_def) (simp add: demo_material_def)
  then show ?thesis
    using assms by (simp add: put_credential_def sql_update_challenge_def challenge_get_def sql_challenge_def Let_def)
       (simp add: replaced_material_def Let_def)
qed

definition demo_purge_row :: outbox_item where
  "demo_purge_row = new_row (outbox_defaults ''f'' 9 (purge_item ''f'' ''aop_x'' demo_print 9))"

lemma demo_purge_check: "row_check demo_purge_row" "ob_id demo_purge_row = ''f''" "ob_key demo_purge_row = ''redis-purge:aop_x''"
  by (simp_all add: row_check_def demo_purge_row_def new_row_def outbox_defaults_def purge_item_def receipt_item_def demo_print_def
      outbox_constants payload_entries_def stored_result_def delivery_phase_valid_def zero_time_def)

lemma demo_purged:
  assumes "ad_outbox (au_admin db) = [demo_row]"
  shows "\<exists>y. purge_enqueue ''f'' 9 ''aop_x'' ''u'' demo_print 9 (db, [])
    = (Inr (), (db\<lparr>au_admin := (au_admin db)\<lparr>ad_outbox := [demo_row, demo_purge_row]\<rparr>\<rparr>, y)) \<and> y = []"
proof -
  have k: "ob_key demo_row = demo_key" "ob_id demo_row = ''aop_x''"
    by (simp_all add: demo_row_def new_row_def outbox_defaults_def receipt_item_def demo_receipt_def demo_key_def Let_def)
  have "demo_key \<noteq> ''redis-purge:aop_x''" by (simp add: demo_key_def eval_nat_numeral)
  then have i: "sql_insert demo_purge_row \<lparr>ot_rows = [demo_row], ot_clock = t\<rparr>
      = (Inr 1, \<lparr>ot_rows = [demo_row, demo_purge_row], ot_clock = t\<rparr>)" for t
    by (simp add: sql_insert_def demo_purge_check k)
  have v: "delivery_phase_valid (ob_phase (outbox_defaults ''f'' 9 (purge_item ''f'' ''aop_x'' demo_print 9)))"
     "validate_optional_result (ob_result (outbox_defaults ''f'' 9 (purge_item ''f'' ''aop_x'' demo_print 9))) = None"
    by (simp_all add: outbox_defaults_def purge_item_def receipt_item_def delivery_phase_valid_def validate_optional_result_def
        payload_entries_def Let_def)
  show ?thesis
    by (simp add: purge_enqueue_def on_admin_def on_outbox_def assms create_or_replay_def v i [unfolded demo_purge_row_def]
        demo_purge_row_def Let_def del: One_nat_def)
qed

lemma demo_rotated_result:
  assumes "ch_version k = 5" "ch_credential_version k = 3"
  shows "demo_result_ok (encode_challenge_receipt (\<lambda>s. replicate 43 CHR ''d'') ''challenge.rotated'' k StateActive)"
  by (rule demo_result_okI; simp add: encode_challenge_receipt_def assms payload_entries_def demo_digits allowed_result_codes_def
      payload_value_ok_def stored_value_ok_def stored_digits_def parse_int64_def digits_value_def is_digit_def
      allowed_statuses_def StateActive_def)

lemma demo_new_secret:
  "\<exists>phc sealed. hash_answer demo_hasher ''rashomon gate'' = Inr (phc, ''p1'')
     \<and> encrypt_value demo_cipher PurposeChallengeQuestion ''u'' (challenge_record_id ''u'') 3 ''first pet?'' = Some sealed
     \<and> material_present (new_credential demo_stepup ''u'' sealed phc ''p1'')"
proof -
  have k: "keyring_current (ah_peppers demo_hasher) = Inr (''p1'', replicate 32 CHR ''k'')" "ah_acquired demo_hasher"
    "ah_random demo_hasher n = Some (replicate n CHR ''s'')" for n
    by (simp_all add: demo_hasher_def keyring_current_def)
  then obtain salt where h: "hash_answer demo_hasher ''rashomon gate'' = Inr (encode_phc (ah_params demo_hasher) salt
      (derive_answer demo_hasher ''rashomon gate'' (replicate 32 CHR ''k'') salt (ah_params demo_hasher)), ''p1'')"
    by (auto simp: hash_answer_def demo_normal)
  obtain sealed where s: "encrypt_value demo_cipher PurposeChallengeQuestion ''u'' (challenge_record_id ''u'') 3 ''first pet?'' = Some sealed"
    "ev_key_id sealed = ''q1''" "ev_nonce sealed \<noteq> []" "ev_ciphertext sealed \<noteq> []"
    by (simp add: encrypt_value_def demo_cipher_def valid_encryption_binding_def keyring_current_def aes_key_ok_def
        challenge_record_id_def demo_seal_def)
  with h show ?thesis by (auto simp: material_present_def new_credential_def encode_phc_def)
qed

lemma demo_rotate_accepted:
  assumes "lr_id x = ''aop_x''" "lr_version x = 1"
  shows "\<exists>k db. rotate_accepted demo_stepup demo_rotate ''first pet?'' ''rashomon gate'' demo_print x (ct_challenge demo_material)
     (demo_opened, []) = (Inr k, (db, []))"
proof -
  have i: "ro_user_id demo_rotate = ''u''" "ro_expected_version demo_rotate = 4" by (simp_all add: demo_rotate_def)
  obtain phc sealed where h: "hash_answer demo_hasher ''rashomon gate'' = Inr (phc, ''p1'')"
    and sd: "encrypt_value demo_cipher PurposeChallengeQuestion ''u'' (challenge_record_id ''u'') 3 ''first pet?'' = Some sealed"
    and mp: "material_present (new_credential demo_stepup ''u'' sealed phc ''p1'')"
    using demo_new_secret by blast
  let ?m = "new_credential demo_stepup ''u'' sealed phc ''p1''"
  obtain k where k: "put_credential 9 ?m 4 (demo_opened, []) = (Inr k, (demo_opened\<lparr>au_challenges := [''u'' \<mapsto> replaced_material 9 ?m demo_material]\<rparr>, []))"
    "ch_version k = 5" "ch_credential_version k = 3"
    using demo_put [OF mp] by (auto simp: new_credential_def)
  define db1 where "db1 = demo_opened\<lparr>au_challenges := [''u'' \<mapsto> replaced_material 9 ?m demo_material]\<rparr>"
  have db1: "au_proofs db1 = [demo_old_proof]" "ad_outbox (au_admin db1) = [demo_row]" "au_requests db1 = []" "au_grants db1 = []"
    "au_approvals db1 = []"
    by (simp_all add: db1_def)
  define db2 where "db2 = db1\<lparr>au_proofs := [demo_old_proof\<lparr>su_revoked_at := Some 9\<rparr>]\<rparr>"
  have p: "proofs_revoke_for_user ''u'' 9 (db1, []) = (Inr (), (db2, []))"
    by (simp add: proofs_revoke_for_user_def sql_revoke_proofs_def db1 db2_def demo_old_proof_def proof_check_def Let_def)
  have db2: "ad_outbox (au_admin db2) = [demo_row]" "au_requests db2 = []" "au_grants db2 = []" "au_approvals db2 = []"
    by (simp_all add: db2_def db1)
  obtain db3 where a: "approvals_revoke ''u'' 9 (db2, []) = (Inr (), (db3, []))" "ad_outbox (au_admin db3) = [demo_row]"
    using db2 by (simp add: approvals_revoke_def approvals_revoke_for_user_def sql_terminate_approvals_def
        revoke_for_security_rotation_def sql_update_requests_def sql_update_grants_def Let_def)
  obtain db4 where g: "purge_enqueue ''f'' 9 ''aop_x'' ''u'' demo_print 9 (db3, []) = (Inr (), (db4, []))"
    "ad_outbox (au_admin db4) = [demo_row, demo_purge_row]"
    using demo_purged [OF a(2)] by auto
  let ?db5 = "db4\<lparr>au_events := au_events db4 @ [audit_row (rotate_audit demo_rotate x)]\<rparr>"
  obtain db where c: "stepup_complete_local ''aop_x'' 1 (encode_challenge_receipt (\<lambda>s. replicate 43 CHR ''d'') ''challenge.rotated'' k StateActive)
      9 (?db5, []) = (Inr (), (db, []))"
    using demo_closed [of ?db5 "[demo_purge_row]"] demo_rotated_result [OF k(2,3)] g(2) demo_purge_check(2) by auto
  have d: "ss_digest demo_stepup = (\<lambda>s. replicate 43 CHR ''d'')" by (simp add: demo_stepup_def)
  show ?thesis
    by (simp add: rotate_accepted_def i h sd k(1) [folded db1_def] p a(1) g(1) audit_record_def sql_insert_authority_event_def assms d c)
qed

lemma demo_rotate_run: "\<exists>k w'. rotate_challenge demo_stepup demo_rotate demo_stepup_world = (Inr k, w')"
proof -
  let ?l = "(\<lparr>rl_ms = 1000, rl_keys = Map.empty\<rparr>, [])"
  have i: "ro_user_id demo_rotate = ''u''" "ro_event_id demo_rotate = ''e1''" "ro_old_answer demo_rotate = ''seven samurai''"
    "ro_new_question demo_rotate = ''first pet?''" "ro_new_answer demo_rotate = ''rashomon gate''" "ro_client demo_rotate = ''c''"
    "ro_key demo_rotate = demo_key" "ro_request_id demo_rotate = ''q''" "ro_expected_version demo_rotate = 4"
    by (simp_all add: demo_rotate_def)
  obtain x where x: "begin_receipt demo_stepup demo_key demo_print (demo_authority, []) = (Inr (x, False), (demo_opened, []))"
    "lr_id x = ''aop_x''" "lr_version x = 1"
    using demo_begun by blast
  obtain k db where a: "rotate_accepted demo_stepup demo_rotate ''first pet?'' ''rashomon gate'' demo_print x (ct_challenge demo_material)
     (demo_opened, []) = (Inr k, (db, []))"
    using demo_rotate_accepted [OF x(2,3)] by blast
  have "rotate_body demo_stepup demo_rotate ''seven samurai'' ''first pet?'' ''rashomon gate'' demo_print demo_stepup_world
      = (Inr (k, None), ((db, []), (?l, (demo_grants, []))))"
    by (simp add: rotate_body_def on_db_def demo_stepup_world_def i x(1) demo_read demo_state limiter_gate_def demo_verified a)
  then have "tx_within ErrStepUpInfra (rotate_body demo_stepup demo_rotate ''seven samurai'' ''first pet?'' ''rashomon gate'' demo_print)
      demo_stepup_world = (Inr (k, None), ((db, []), (?l, (demo_grants, []))))"
    by (simp add: tx_within_def demo_stepup_world_def)
  moreover have "on_db (require_binding ''u'' ''e1'') demo_stepup_world = (Inr (), demo_stepup_world)"
    by (simp add: on_db_def demo_stepup_world_def demo_bound)
  ultimately show ?thesis
    by (simp add: rotate_challenge_def i demo_identity demo_normal)
qed

theorem rotation_ends_the_old_credential_witness:
  "\<exists>k w' n. rotate_challenge demo_stepup demo_rotate demo_stepup_world = (Inr k, w')
     \<and> au_challenges (fst (fst w')) ''u'' = Some n \<and> ch_credential_version (ct_challenge n) = 3
     \<and> live_proof demo_old_proof \<and> demo_old_proof \<notin> set (au_proofs (fst (fst w')))"
proof -
  obtain k w' where r: "rotate_challenge demo_stepup demo_rotate demo_stepup_world = (Inr k, w')"
    using demo_rotate_run by blast
  have i: "ro_user_id demo_rotate = ''u''" by (simp add: demo_rotate_def)
  have "\<forall>x\<in>set (ad_outbox (au_admin (fst (fst demo_stepup_world)))). ob_key x \<noteq> ro_key demo_rotate"
    by (simp add: demo_authority_after)
  from rotation_ends_the_old_credential [OF r this]
  obtain m n where "au_challenges demo_authority ''u'' = Some m" "au_challenges (fst (fst w')) = (au_challenges demo_authority)(''u'' \<mapsto> n)"
    "ch_credential_version (ct_challenge n) = ch_credential_version (ct_challenge m) + 1"
    "\<forall>s\<in>set (au_proofs (fst (fst w'))). su_user_id s = ''u'' \<longrightarrow> \<not> live_proof s"
    unfolding i demo_authority_after fst_conv by blast
  moreover have "live_proof demo_old_proof" "su_user_id demo_old_proof = ''u''" by (simp_all add: demo_old_proof_def live_proof_def)
  ultimately show ?thesis using r by auto
qed

section \<open>Histories\<close>

text \<open>A wrong answer in one session, then the right one in another.\<close>

definition demo_ops :: "stepup_op list" where
  "demo_ops = [OpVerify demo_stepup (demo_verify ''seven sisters''),
     OpVerify demo_stepup ((demo_verify ''seven samurai'')\<lparr>vq_session_id := ''s2'', vq_key := replicate 32 CHR ''l''\<rparr>)]"

definition demo_history :: authority_db where
  "demo_history = fold (\<lambda>op db. fst (fst (stepup_run op ((db, []), snd demo_stepup_world)))) demo_ops demo_authority"

lemma demo_reached: "stepup_reaches demo_authority demo_history"
proof -
  have "stepup_reaches db (fold (\<lambda>op db. fst (fst (stepup_run op ((db, []), snd demo_stepup_world)))) ops db')"
    if "stepup_reaches db db'" for db db' ops
    using that by (induction ops arbitrary: db') (auto intro: stepup_reaches.request)
  from this [OF stepup_reaches.start] show ?thesis unfolding demo_history_def .
qed

theorem live_proofs_are_current_witness: "proofs_current demo_authority \<and> proofs_current demo_history"
proof
  show p: "proofs_current demo_authority"
    by (simp add: proofs_current_def proof_is_current_def) (simp add: demo_old_proof_def)
  show "proofs_current demo_history" by (rule live_proofs_are_current [OF demo_reached p])
qed

theorem wrong_answers_are_few_witness:
  "\<exists>db'. guesses ''u'' demo_authority [9] db' \<and> length (filter (\<lambda>t. 9 \<le> t \<and> t \<le> 9 + minutes 15) [9]) \<le> 10"
proof -
  obtain r e w' where w: "verify_challenge demo_stepup (demo_verify ''seven sisters'') demo_stepup_world = (Inr (r, Some e), w')"
    and k: "au_challenges (fst (fst w')) = [''u'' \<mapsto> demo_counted]"
    using demo_wrong_run by auto
  let ?op = "OpVerify demo_stepup (demo_verify ''seven sisters'')"
  have run: "fst (fst w') = fst (fst (stepup_run ?op ((demo_authority, []), snd demo_stepup_world)))"
    using w demo_authority_after(2) by (metis fst_conv snd_conv prod.collapse stepup_run.simps(2))
  have c: "demo_counted \<noteq> demo_material" by (simp add: demo_counted_def demo_counted_sel) (simp add: demo_material_def)
  have "credential_of (fst (fst w')) ''u'' = credential_of demo_authority ''u''"
    by (simp add: credential_of_def k) (simp add: demo_counted_def demo_counted_sel)
  from guesses.attempt [OF guesses.none _ run this] have g: "guesses ''u'' demo_authority [9] (fst (fst w'))"
    using c by (simp add: k)
  have m: "au_challenges demo_authority ''u'' = Some demo_material" "ch_failure_count (ct_challenge demo_material) = 0"
    "ch_failure_window (ct_challenge demo_material) = None" by simp_all
  from g wrong_answers_are_few [OF g m] show ?thesis by blast
qed

end
