(* ===== verification/Pagination.thy ===== *)
theory Pagination
  imports AdminOutbox AnswerHasher "HOL-Library.Finite_Map"
begin

text \<open>
  The signed cursors of administration lists (\<open>internal/adminpagination/cursor.go\<close>): a page ends
  in a token that carries the actor, scope, list, filters and last position under a message
  authentication code, and only a query that agrees with all of them may continue from it.
  HMAC, HKDF and JSON are arguments; a Go map of strings is a finite map.
\<close>

section \<open>Queries, pages and states\<close>

definition MaxPageSize :: int where "MaxPageSize = 100"
definition MaxEncodedCursorBytes :: nat where "MaxEncodedCursorBytes = 4096"
definition maxCursorLifetime :: duration where "maxCursorLifetime = minutes 15"
definition cursorClockSkew :: duration where "cursorClockSkew = seconds 5"
definition cursorPurpose :: string where "cursorPurpose = ''united-pass/admin-pagination/cursor/v1''"

lemmas cursor_constants = MaxPageSize_def MaxEncodedCursorBytes_def maxCursorLifetime_def cursorClockSkew_def

type_synonym str_map = "(string, string) fmap"

record page_query =
  pq_actor :: string
  pq_scope_kind :: string
  pq_event :: string
  pq_list_kind :: string
  pq_filters :: str_map
  pq_sort :: string
  pq_cursor :: string
  pq_limit :: int
  pq_downstream :: string

record 'a page =
  pg_items :: "'a list"
  pg_next :: string
  pg_more :: bool

record cursor_state =
  ck_version :: int
  ck_actor :: string
  ck_scope_kind :: string
  ck_event :: string
  ck_list_kind :: string
  ck_filters :: str_map
  ck_sort :: string
  ck_last :: str_map
  ck_issued_at :: time
  ck_expires_at :: time
  ck_limit :: int
  ck_downstream :: string

record expectation =
  ex_actor :: string
  ex_scope_kind :: string
  ex_event :: string
  ex_list_kind :: string
  ex_filters :: str_map
  ex_sort :: string
  ex_limit :: int

text \<open>
  \<open>json.Marshal\<close> of a state, and the strict decoder: one value without unknown fields and
  nothing after it.  The code is HMAC-SHA-256 under the derived key.
\<close>

record cursor_codec =
  cc_mac :: "string \<Rightarrow> string"
  cc_marshal :: "cursor_state \<Rightarrow> string option"
  cc_unmarshal :: "string \<Rightarrow> cursor_state option"
  cc_now :: time

text \<open>The one error of the package.\<close>

datatype cursor_error = ErrInvalidCursor

definition new_cursor_codec ::
  "(string \<Rightarrow> string option) \<Rightarrow> (string \<Rightarrow> string \<Rightarrow> string option) \<Rightarrow> (string \<Rightarrow> string \<Rightarrow> string)
     \<Rightarrow> (cursor_state \<Rightarrow> string option) \<Rightarrow> (string \<Rightarrow> cursor_state option) \<Rightarrow> string \<Rightarrow> time \<Rightarrow> cursor_codec option" where
  "new_cursor_codec std_decode hkdf hmac marshal unmarshal key64 now =
     (case std_decode key64 of
        None \<Rightarrow> None
      | Some raw \<Rightarrow>
          if length raw \<noteq> 32 then None
          else case hkdf raw cursorPurpose of
            None \<Rightarrow> None
          | Some key \<Rightarrow> Some \<lparr>cc_mac = hmac key, cc_marshal = marshal, cc_unmarshal = unmarshal, cc_now = now\<rparr>)"

section \<open>Normal forms\<close>

definition normalize_space :: "string \<Rightarrow> string" where
  "normalize_space v = str_join (str_fields v) '' ''"

text \<open>Reading a missing key of a Go map gives the empty string.\<close>

definition map_get :: "str_map \<Rightarrow> string \<Rightarrow> string" where
  "map_get m k = (case fmlookup m k of None \<Rightarrow> [] | Some v \<Rightarrow> v)"

text \<open>The value is read under the key that was just normalized.\<close>

definition put_filter :: "str_map \<Rightarrow> string \<Rightarrow> str_map \<Rightarrow> str_map" where
  "put_filter m key acc =
     (let k = normalize_space key in if k = [] then acc else fmupd k (normalize_space (map_get m k)) acc)"

definition normalize_filters :: "str_map \<Rightarrow> str_map" where
  "normalize_filters m = fold (put_filter m) (sorted_list_of_fset (fmdom m)) fmempty"

definition equal_filters :: "str_map \<Rightarrow> str_map \<Rightarrow> bool" where
  "equal_filters l r \<longleftrightarrow> fcard (fmdom l) = fcard (fmdom r) \<and> fBall (fmdom l) (\<lambda>k. map_get r k = map_get l k)"

definition valid_state :: "cursor_state \<Rightarrow> time \<Rightarrow> bool" where
  "valid_state s now \<longleftrightarrow>
     ck_version s = 1 \<and> ck_actor s \<noteq> [] \<and> ck_list_kind s \<noteq> [] \<and> ck_sort s \<noteq> []
     \<and> 1 \<le> ck_limit s \<and> ck_limit s \<le> MaxPageSize
     \<and> (ck_scope_kind s = ''system'' \<and> ck_event s = [] \<or> ck_scope_kind s = ''event'' \<and> ck_event s \<noteq> [])
     \<and> ck_issued_at s \<noteq> zero_time \<and> ck_expires_at s \<noteq> zero_time \<and> ck_issued_at s < ck_expires_at s
     \<and> ck_expires_at s - ck_issued_at s \<le> maxCursorLifetime
     \<and> ck_issued_at s \<le> now + cursorClockSkew \<and> now < ck_expires_at s"

section \<open>The token\<close>

text \<open>\<open>base64.RawURLEncoding\<close>: the alphabet of the standard one but for the last two characters.\<close>

definition url_char :: "char \<Rightarrow> char" where
  "url_char c = (if c = CHR ''+'' then CHR ''-'' else if c = CHR ''/'' then CHR ''_'' else c)"

definition std_char :: "char \<Rightarrow> char" where
  "std_char c = (if c = CHR ''-'' then CHR ''+'' else if c = CHR ''_'' then CHR ''/'' else c)"

definition b64url_encode :: "string \<Rightarrow> string" where
  "b64url_encode s = map url_char (b64_encode s)"

definition b64url_decode :: "string \<Rightarrow> string option" where
  "b64url_decode s = (if list_ex (\<lambda>c. c = CHR ''+'' \<or> c = CHR ''/'') s then None else b64_decode (map std_char s))"

definition sealed_state :: "cursor_state \<Rightarrow> cursor_state" where
  "sealed_state s = s\<lparr>ck_version := 1, ck_filters := normalize_filters (ck_filters s), ck_sort := normalize_space (ck_sort s)\<rparr>"

definition cursor_encode :: "cursor_codec \<Rightarrow> cursor_state \<Rightarrow> cursor_error + string" where
  "cursor_encode C s =
     (if \<not> valid_state (sealed_state s) (cc_now C) then Inl ErrInvalidCursor
      else case cc_marshal C (sealed_state s) of
        None \<Rightarrow> Inl ErrInvalidCursor
      | Some payload \<Rightarrow>
          let raw = b64url_encode (cc_mac C payload @ payload)
          in if MaxEncodedCursorBytes < length raw then Inl ErrInvalidCursor else Inr raw)"

definition expected_state :: "expectation \<Rightarrow> cursor_state \<Rightarrow> bool" where
  "expected_state e s \<longleftrightarrow>
     ck_actor s = ex_actor e \<and> ck_scope_kind s = ex_scope_kind e \<and> ck_event s = ex_event e
     \<and> ck_list_kind s = ex_list_kind e \<and> ck_sort s = normalize_space (ex_sort e) \<and> ck_limit s = ex_limit e
     \<and> equal_filters (ck_filters s) (normalize_filters (ex_filters e))"

definition cursor_decode :: "cursor_codec \<Rightarrow> string \<Rightarrow> expectation \<Rightarrow> cursor_error + cursor_state" where
  "cursor_decode C raw e =
     (if raw = [] \<or> MaxEncodedCursorBytes < length raw then Inl ErrInvalidCursor
      else case b64url_decode raw of
        None \<Rightarrow> Inl ErrInvalidCursor
      | Some buffer \<Rightarrow>
          if length buffer \<le> 32 \<or> take 32 buffer \<noteq> cc_mac C (drop 32 buffer) then Inl ErrInvalidCursor
          else case cc_unmarshal C (drop 32 buffer) of
            None \<Rightarrow> Inl ErrInvalidCursor
          | Some s \<Rightarrow> if valid_state s (cc_now C) \<and> expected_state e s then Inr s else Inl ErrInvalidCursor)"

section \<open>Limits of the repositories\<close>

text \<open>\<open>normalizeAdminLimit\<close> and \<open>adminExpectation\<close> of \<open>internal/adapters/postgres/admin_role_repo.go\<close>.\<close>

definition normalize_admin_limit :: "int \<Rightarrow> int" where
  "normalize_admin_limit n = (if n \<le> 0 then 50 else if MaxPageSize < n then MaxPageSize else n)"

definition admin_expectation :: "page_query \<Rightarrow> string \<Rightarrow> int \<Rightarrow> expectation" where
  "admin_expectation q srt limit = \<lparr>ex_actor = pq_actor q, ex_scope_kind = pq_scope_kind q, ex_event = pq_event q,
     ex_list_kind = pq_list_kind q, ex_filters = pq_filters q, ex_sort = srt, ex_limit = limit\<rparr>"

lemma normalize_admin_limit_range: "1 \<le> normalize_admin_limit n \<and> normalize_admin_limit n \<le> MaxPageSize"
  by (simp add: normalize_admin_limit_def MaxPageSize_def)

section \<open>Reading back\<close>

lemma b64_char_url: "std_char (url_char (b64_char n)) = b64_char n \<and> url_char (b64_char n) \<noteq> CHR ''+''
    \<and> url_char (b64_char n) \<noteq> CHR ''/''"
proof -
  have "\<forall>k\<in>set [0..<64]. std_char (url_char (b64_char k)) = b64_char k \<and> url_char (b64_char k) \<noteq> CHR ''+''
      \<and> url_char (b64_char k) \<noteq> CHR ''/''" by code_simp
  moreover have "n mod 64 \<in> set [0..<64]" by simp
  ultimately show ?thesis by (metis b64_char_def mod_mod_trivial)
qed

lemma b64_encode_url: "map std_char (map url_char (b64_encode s)) = b64_encode s
    \<and> \<not> list_ex (\<lambda>c. c = CHR ''+'' \<or> c = CHR ''/'') (map url_char (b64_encode s))"
  by (induction s rule: b64_encode.induct) (simp_all add: b64_char_url)

lemma b64url_round_trip: "b64url_decode (b64url_encode s) = Some s"
  using b64_encode_url [of s] b64_round_trip [of s] by (simp add: b64url_decode_def b64url_encode_def)

lemma b64url_encode_Nil_iff: "b64url_encode s = [] \<longleftrightarrow> s = []"
  by (cases s rule: b64_encode.cases) (simp_all add: b64url_encode_def)

lemma b64url_encode_length: "length (b64url_encode s) = (4 * length s + 2) div 3"
proof -
  have "length (b64_encode s) = (4 * length s + 2) div 3"
    by (induction s rule: b64_encode.induct) simp_all
  then show ?thesis by (simp add: b64url_encode_def)
qed

lemma encode_ok:
  assumes "cursor_encode C s = Inr raw"
  obtains payload where "valid_state (sealed_state s) (cc_now C)" "cc_marshal C (sealed_state s) = Some payload"
    "raw = b64url_encode (cc_mac C payload @ payload)" "length raw \<le> MaxEncodedCursorBytes"
  using assms by (auto simp: cursor_encode_def Let_def split: if_splits option.splits)

lemma decode_token:
  assumes "length (cc_mac C payload) = 32" and "payload \<noteq> []"
    and "raw = b64url_encode (cc_mac C payload @ payload)" and "length raw \<le> MaxEncodedCursorBytes"
  shows "cursor_decode C raw e =
    (case cc_unmarshal C payload of
       None \<Rightarrow> Inl ErrInvalidCursor
     | Some s \<Rightarrow> if valid_state s (cc_now C) \<and> expected_state e s then Inr s else Inl ErrInvalidCursor)"
  using assms by (simp add: cursor_decode_def b64url_round_trip b64url_encode_Nil_iff)

end
