(* ===== verification/IdentityAccessStore.thy ===== *)
theory IdentityAccessStore
  imports AuthorityStore Pagination
begin

text \<open>
  The ledger of restricted identity access: requests of event administrators to read protected
  fields of a participant, their approval by another administrator, and the short grants that
  follow.  Domain rules of \<open>internal/identityaccess/types.go\<close> and the repository
  \<open>internal/adapters/postgres/identity_access_repo.go\<close> on the tables of migrations 00012 and
  00013, and the receipt adapter of \<open>admin_unit_of_work.go\<close>.
\<close>

section \<open>Types and domain rules\<close>

datatype access_error =
  ErrAccessRequest | ErrAccessDecision | ErrAccessNotFound | ErrAccessConflict | ErrAccessForbidden | ErrAccessReason
  | ErrAccessIdempotencyKey | ErrAccessIfMatch | ErrAccessIdempotencyConflict | ErrAccessStoredResult
  | ErrAccessStepUp | ErrAccessCursor | ErrAccessInfra

definition TargetApplication :: string where "TargetApplication = ''application''"
definition TargetCheckIn :: string where "TargetCheckIn = ''check_in''"

definition StatusPending :: string where "StatusPending = ''pending''"
definition StatusApproved :: string where "StatusApproved = ''approved''"
definition StatusRejected :: string where "StatusRejected = ''rejected''"
definition StatusRevoked :: string where "StatusRevoked = ''revoked''"
definition StatusExpired :: string where "StatusExpired = ''expired''"

definition GrantActive :: string where "GrantActive = ''active''"
definition GrantClaimed :: string where "GrantClaimed = ''claimed''"
definition GrantSettled :: string where "GrantSettled = ''settled''"

definition ListKindOwn :: string where "ListKindOwn = ''identity_access_own''"
definition ListKindApprovalQueue :: string where "ListKindApprovalQueue = ''identity_access_approval_queue''"

lemmas access_status_defs = StatusPending_def StatusApproved_def StatusRejected_def StatusRevoked_def StatusExpired_def
  GrantActive_def GrantClaimed_def GrantSettled_def TargetApplication_def TargetCheckIn_def

text \<open>The column \<open>operation_kind\<close> of the reasons of these requests.\<close>

abbreviation identity_access_kind :: string where "identity_access_kind \<equiv> ''identity_access''"

record protected_reason =
  pz_id :: string
  pz_owner :: user_id
  pz_key_id :: string
  pz_nonce :: string
  pz_ciphertext :: string
  pz_created_at :: time

record access_decision =
  dz_approver :: user_id
  dz_approved :: bool
  dz_request_id :: string
  dz_decided_at :: time

record grant_authorization =
  ga_binding_id :: string
  ga_binding_version :: int
  ga_challenge_version :: int
  ga_field_hash :: string

record access_audit =
  xa_actor :: user_id
  xa_reason_id :: string
  xa_request_id :: string
  xa_action :: string

record authorization_evidence =
  az_role :: role
  az_binding_id :: string
  az_binding_version :: int
  az_challenge_version :: int

record access_claim =
  cl_grant_id :: string
  cl_event_id :: event_id
  cl_requester :: user_id
  cl_subject :: user_id
  cl_target_type :: string
  cl_target_id :: string
  cl_fields :: "string list"
  cl_field_hash :: string
  cl_binding_id :: string
  cl_binding_version :: int
  cl_challenge_version :: int
  cl_nonce :: string
  cl_lease_until :: time
  cl_version :: int

fun scan_fields :: "string list \<Rightarrow> string list \<Rightarrow> bool" where
  "scan_fields seen [] = True"
| "scan_fields seen (f # fs) = (f \<in> set access_fields \<and> f \<notin> set seen \<and> scan_fields (f # seen) fs)"

definition validate_request :: "access_request \<Rightarrow> access_error option" where
  "validate_request r =
     (if iq_event_id r = [] \<or> iq_requester r = [] \<or> iq_subject r = [] \<or> iq_requester r = iq_subject r
         \<or> iq_target_id r = [] \<or> iq_fields r = [] then Some ErrAccessRequest
      else if iq_target_type r \<noteq> TargetApplication \<and> iq_target_type r \<noteq> TargetCheckIn then Some ErrAccessRequest
      else if \<not> scan_fields [] (iq_fields r) then Some ErrAccessRequest
      else None)"

definition validate_decision :: "access_request \<Rightarrow> access_decision \<Rightarrow> access_error option" where
  "validate_decision r d =
     (if dz_approver d = [] \<or> dz_approver d = iq_requester r \<or> dz_approver d = iq_subject r
      then Some ErrAccessDecision else None)"

definition validate_decision_audit :: "access_decision \<Rightarrow> access_audit \<Rightarrow> access_error option" where
  "validate_decision_audit d a =
     (if xa_actor a = [] \<or> xa_actor a \<noteq> dz_approver d \<or> xa_reason_id a = [] \<or> xa_request_id a = [] \<or> xa_action a = []
      then Some ErrAccessDecision else None)"

definition validate_list_query :: "page_query \<Rightarrow> string \<Rightarrow> access_error option" where
  "validate_list_query q kind =
     (if pq_scope_kind q \<noteq> ''event'' \<or> pq_event q = [] \<or> pq_list_kind q \<noteq> kind then Some ErrAccessRequest else None)"

lemma scan_fields_iff:
  "scan_fields seen fs \<longleftrightarrow> distinct fs \<and> set fs \<subseteq> set access_fields \<and> set fs \<inter> set seen = {}"
  by (induction fs arbitrary: seen) auto

section \<open>The environment of the repository\<close>

text \<open>
  The database compares texts by the sort keys of its collation.  \<open>iv_two_years\<close> adds
  \<open>INTERVAL '24 months'\<close>.
\<close>

record access_env =
  iv_collate :: "string \<Rightarrow> string"
  iv_digest :: "string \<Rightarrow> string" \<comment> \<open>base64url of SHA-256\<close>
  iv_random :: "nat \<Rightarrow> string option"
  iv_grant_id :: string \<comment> \<open>\<open>newAdminID("iag_")\<close>\<close>
  iv_two_years :: "time \<Rightarrow> time"
  iv_now :: time \<comment> \<open>\<open>time.Now\<close> of the repository\<close>

definition hash_identity_fields :: "access_env \<Rightarrow> string list \<Rightarrow> string" where
  "hash_identity_fields E fs = iv_digest E (str_join (sort fs) [CHR 0x00])"

definition new_identity_claim_nonce :: "access_env \<Rightarrow> (string \<times> string) option" where
  "new_identity_claim_nonce E =
     (case iv_random E 32 of
        None \<Rightarrow> None
      | Some raw \<Rightarrow> Some (b64url_encode raw, iv_digest E (b64url_encode raw)))"

fun all_allowed :: "string list \<Rightarrow> string list \<Rightarrow> string list \<Rightarrow> bool" where
  "all_allowed requested seen [] = True"
| "all_allowed requested seen (f # fs) =
     (f \<in> set requested \<and> f \<notin> set seen \<and> all_allowed requested (f # seen) fs)"

definition validate_approved_identity_fields :: "string list \<Rightarrow> string list \<Rightarrow> access_error option" where
  "validate_approved_identity_fields approved requested =
     (if approved = [] \<or> length requested < length approved \<or> \<not> all_allowed requested [] approved
      then Some ErrAccessDecision else None)"

lemma all_allowed_iff:
  "all_allowed requested seen fs \<longleftrightarrow> distinct fs \<and> set fs \<subseteq> set requested \<and> set fs \<inter> set seen = {}"
  by (induction fs arbitrary: seen) auto

section \<open>Statements\<close>

definition sql_insert_reason :: "reason_row \<Rightarrow> authority_db \<Rightarrow> (sql_error + unit) \<times> authority_db" where
  "sql_insert_reason x db =
     (let a = au_admin db
      in if \<not> reason_check x \<or> rr_owner x = [] \<or> 160 < length (rr_owner x)
            \<or> rr_kind x \<notin> {''role'', ''challenge'', ''identity_access'', ''registry'', ''direct_read'', ''export''}
         then (Inl SqlFailure, db)
         else if \<exists>y\<in>set (ad_reasons a). rr_id y = rr_id x then (Inl UniqueViolation, db)
         else (Inr (), db\<lparr>au_admin := a\<lparr>ad_reasons := ad_reasons a @ [x]\<rparr>\<rparr>))"

definition sql_insert_request :: "access_request \<Rightarrow> authority_db \<Rightarrow> (sql_error + unit) \<times> authority_db" where
  "sql_insert_request r db =
     (if \<not> request_check r then (Inl SqlFailure, db)
      else if \<exists>x\<in>set (au_requests db). iq_id x = iq_id r \<or> request_conflict r x then (Inl UniqueViolation, db)
      else if ad_users (au_admin db) (iq_requester r) = None \<or> ad_users (au_admin db) (iq_subject r) = None
      then (Inl SqlFailure, db)
      else (Inr (), db\<lparr>au_requests := au_requests db @ [r\<lparr>iq_fields := []\<rparr>]\<rparr>))"

definition sql_insert_request_field :: "string \<Rightarrow> string \<Rightarrow> authority_db \<Rightarrow> (sql_error + unit) \<times> authority_db" where
  "sql_insert_request_field rid f db =
     (if f \<notin> set access_fields then (Inl SqlFailure, db)
      else if \<exists>x\<in>set (au_requests db). iq_id x = rid \<and> f \<in> set (iq_fields x) then (Inl UniqueViolation, db)
      else if \<not> (\<exists>x\<in>set (au_requests db). iq_id x = rid) then (Inl SqlFailure, db)
      else (Inr (), db\<lparr>au_requests := map (\<lambda>x. if iq_id x = rid then x\<lparr>iq_fields := iq_fields x @ [f]\<rparr> else x)
                     (au_requests db)\<rparr>))"

text \<open>Reading a request orders its fields, as \<open>ORDER BY f.field_name\<close> does.\<close>

definition read_request :: "access_env \<Rightarrow> access_request \<Rightarrow> access_request" where
  "read_request E r = r\<lparr>iq_fields := sort_key (iv_collate E) (iq_fields r)\<rparr>"

definition sql_find_request ::
  "access_env \<Rightarrow> event_id \<Rightarrow> string \<Rightarrow> authority_db \<Rightarrow> (sql_error + access_request option) \<times> authority_db" where
  "sql_find_request E ev rid db =
     (Inr (map_option (read_request E) (List.find (\<lambda>r. iq_id r = rid \<and> iq_event_id r = ev) (au_requests db))), db)"

definition sql_list_requests ::
  "access_env \<Rightarrow> event_id \<Rightarrow> string \<Rightarrow> string option \<Rightarrow> string \<Rightarrow> nat \<Rightarrow> authority_db
     \<Rightarrow> (sql_error + access_request list) \<times> authority_db" where
  "sql_list_requests E ev status requester after n db =
     (Inr (map (read_request E) (take n (sort_key (\<lambda>r. iv_collate E (iq_id r)) (filter (\<lambda>r. iq_event_id r = ev
             \<and> (status = [] \<or> iq_status r = status) \<and> (case requester of None \<Rightarrow> True | Some u \<Rightarrow> iq_requester r = u)
             \<and> iv_collate E after < iv_collate E (iq_id r)) (au_requests db))))), db)"

definition sql_insert_grant :: "access_grant \<Rightarrow> authority_db \<Rightarrow> (sql_error + unit) \<times> authority_db" where
  "sql_insert_grant g db =
     (if \<not> grant_check g then (Inl SqlFailure, db)
      else if \<exists>x\<in>set (au_grants db). ig_id x = ig_id g \<or> ig_request_id x = ig_request_id g
                 \<or> claim_is_live x \<and> claim_is_live g \<and> claim_slot x = claim_slot g
      then (Inl UniqueViolation, db)
      else if \<not> (\<exists>r\<in>set (au_requests db). iq_id r = ig_request_id g)
         \<or> ad_users (au_admin db) (ig_requester g) = None \<or> ad_users (au_admin db) (ig_subject g) = None
      then (Inl SqlFailure, db)
      else (Inr (), db\<lparr>au_grants := au_grants db @ [g\<lparr>ig_fields := []\<rparr>]\<rparr>))"

definition sql_insert_grant_field :: "string \<Rightarrow> string \<Rightarrow> authority_db \<Rightarrow> (sql_error + unit) \<times> authority_db" where
  "sql_insert_grant_field gid f db =
     (if f \<notin> set access_fields then (Inl SqlFailure, db)
      else if \<exists>x\<in>set (au_grants db). ig_id x = gid \<and> f \<in> set (ig_fields x) then (Inl UniqueViolation, db)
      else if \<not> (\<exists>x\<in>set (au_grants db). ig_id x = gid) then (Inl SqlFailure, db)
      else (Inr (), db\<lparr>au_grants := map (\<lambda>x. if ig_id x = gid then x\<lparr>ig_fields := ig_fields x @ [f]\<rparr> else x)
                     (au_grants db)\<rparr>))"

text \<open>\<open>UPDATE ... RETURNING\<close> scanned by \<open>QueryRow\<close>: the first changed row, None without one.\<close>

definition sql_update_grant_returning ::
  "(access_grant \<Rightarrow> bool) \<Rightarrow> (access_grant \<Rightarrow> access_grant) \<Rightarrow> authority_db
     \<Rightarrow> (sql_error + access_grant option) \<times> authority_db" where
  "sql_update_grant_returning p f db =
     (case sql_update_grants p f db of
        (Inl e, db1) \<Rightarrow> (Inl e, db1)
      | (Inr _, db1) \<Rightarrow> (Inr (case filter p (au_grants db) of [] \<Rightarrow> None | g # _ \<Rightarrow> Some (f g)), db1))"

section \<open>Audit\<close>

definition access_event :: "access_audit \<Rightarrow> string \<Rightarrow> string \<Rightarrow> string \<Rightarrow> string \<Rightarrow> authority_event" where
  "access_event a event_type ev target_kind target = \<lparr>av_type = event_type, av_actor = xa_actor a,
     av_request_id = xa_request_id a, av_operation = xa_action a, av_result = ''success'',
     av_target_kind = target_kind @ ''_id'', av_target_id = target, av_extra = [(''dreamup_event_id'', ev)]\<rparr>"

definition record_access_mutation ::
  "access_audit \<Rightarrow> string \<Rightarrow> string \<Rightarrow> string \<Rightarrow> string \<Rightarrow> authority_conn \<Rightarrow> (access_error + unit) \<times> authority_conn" where
  "record_access_mutation a event_type ev target_kind target c =
     (if xa_actor a = [] \<or> xa_request_id a = [] \<or> xa_action a = [] \<or> ev = [] \<or> target = [] then (Inl ErrAccessInfra, c)
      else case io_call SqlFailure (sql_insert_authority_event (access_event a event_type ev target_kind target)) c of
        (Inl _, c1) \<Rightarrow> (Inl ErrAccessInfra, c1)
      | (Inr _, c1) \<Rightarrow> (Inr (), c1))"

section \<open>Requests\<close>

text \<open>
  A failed statement is a conflict when a unique index refused it, and an infrastructure error
  otherwise.
\<close>

definition conflict_or_infra :: "sql_error \<Rightarrow> access_error" where
  "conflict_or_infra e = (if e = UniqueViolation then ErrAccessConflict else ErrAccessInfra)"

fun insert_request_fields :: "string \<Rightarrow> string list \<Rightarrow> authority_conn \<Rightarrow> (access_error + unit) \<times> authority_conn" where
  "insert_request_fields rid [] c = (Inr (), c)"
| "insert_request_fields rid (f # fs) c =
     (case io_call SqlFailure (sql_insert_request_field rid f) c of
        (Inl _, c1) \<Rightarrow> (Inl ErrAccessInfra, c1)
      | (Inr _, c1) \<Rightarrow> insert_request_fields rid fs c1)"

definition prepare_request :: "access_request \<Rightarrow> access_request" where
  "prepare_request r = r\<lparr>iq_updated_at := (if iq_updated_at r = zero_time then iq_created_at r else iq_updated_at r)\<rparr>"

definition prepare_reason :: "access_request \<Rightarrow> protected_reason \<Rightarrow> protected_reason" where
  "prepare_reason r z = z\<lparr>pz_created_at := (if pz_created_at z = zero_time then iq_created_at r else pz_created_at z)\<rparr>"

definition access_reason_row :: "protected_reason \<Rightarrow> reason_row" where
  "access_reason_row z = \<lparr>rr_id = pz_id z, rr_owner = pz_owner z, rr_kind = identity_access_kind, rr_consumed_at = None,
     rr_terminal_at = None, rr_expires_at = None, rr_created_at = pz_created_at z, rr_key_id = pz_key_id z,
     rr_nonce = pz_nonce z, rr_ciphertext = pz_ciphertext z\<rparr>"

definition access_create_request ::
  "access_request \<Rightarrow> protected_reason \<Rightarrow> access_audit \<Rightarrow> authority_conn \<Rightarrow> (access_error + access_request) \<times> authority_conn" where
  "access_create_request r0 z0 audit c =
     (if validate_request r0 \<noteq> None \<or> iq_id r0 = [] \<or> iq_reason_id r0 = [] \<or> iq_status r0 \<noteq> StatusPending
         \<or> iq_version r0 \<noteq> 1 \<or> iq_expires_at r0 = zero_time \<or> \<not> iq_created_at r0 < iq_expires_at r0
      then (Inl ErrAccessRequest, c)
      else let r = prepare_request r0; z = prepare_reason r z0
           in if pz_id z \<noteq> iq_reason_id r \<or> pz_owner z \<noteq> iq_requester r \<or> pz_key_id z = [] \<or> pz_nonce z = []
                 \<or> pz_ciphertext z = []
              then (Inl ErrAccessRequest, c)
              else
     (case io_call SqlFailure (sql_insert_reason (access_reason_row z)) c of
        (Inl e, c1) \<Rightarrow> (Inl (conflict_or_infra e), c1)
      | (Inr _, c1) \<Rightarrow>
     (case io_call SqlFailure (sql_insert_request (r\<lparr>iq_approver := [], iq_terminal_at := None\<rparr>)) c1 of
        (Inl e, c2) \<Rightarrow> (Inl (conflict_or_infra e), c2)
      | (Inr _, c2) \<Rightarrow>
     (case insert_request_fields (iq_id r) (iq_fields r) c2 of
        (Inl e, c3) \<Rightarrow> (Inl e, c3)
      | (Inr _, c3) \<Rightarrow>
     (case record_access_mutation audit ''admin.identity_access.requested'' (iq_event_id r) ''identity_access_request''
             (iq_id r) c3 of
        (Inl e, c4) \<Rightarrow> (Inl e, c4)
      | (Inr _, c4) \<Rightarrow> (Inr r, c4))))))"

definition get_request ::
  "access_env \<Rightarrow> event_id \<Rightarrow> string \<Rightarrow> authority_conn \<Rightarrow> (access_error + access_request) \<times> authority_conn" where
  "get_request E ev rid c =
     (case io_call SqlFailure (sql_find_request E ev rid) c of
        (Inl _, c1) \<Rightarrow> (Inl ErrAccessInfra, c1)
      | (Inr None, c1) \<Rightarrow> (Inl ErrAccessNotFound, c1)
      | (Inr (Some r), c1) \<Rightarrow> (Inr r, c1))"

section \<open>Lists\<close>

definition access_status_filter :: "str_map \<Rightarrow> bool \<Rightarrow> access_error + string" where
  "access_status_filter filters queue =
     (if 1 < fcard (fmdom filters) \<or> \<not> fBall (fmdom filters) (\<lambda>k. k = ''status'') then Inl ErrAccessRequest
      else let given = trim_space (map_get filters ''status'');
               status = (if queue \<and> given = [] then StatusPending else given)
           in if status = [] then Inr []
              else if status \<in> {StatusPending, StatusApproved, StatusRejected, StatusRevoked, StatusExpired}
              then Inr status else Inl ErrAccessRequest)"

definition page_state :: "page_query \<Rightarrow> string \<Rightarrow> string \<Rightarrow> time \<Rightarrow> int \<Rightarrow> cursor_state" where
  "page_state q srt after now limit = \<lparr>ck_version = 0, ck_actor = pq_actor q, ck_scope_kind = pq_scope_kind q,
     ck_event = pq_event q, ck_list_kind = pq_list_kind q, ck_filters = pq_filters q, ck_sort = srt,
     ck_last = fmupd ''id'' after fmempty, ck_issued_at = now, ck_expires_at = now + minutes 10, ck_limit = limit,
     ck_downstream = []\<rparr>"

text \<open>The position a query continues from: the empty text without a cursor.\<close>

definition cursor_position :: "cursor_codec \<Rightarrow> page_query \<Rightarrow> string \<Rightarrow> int \<Rightarrow> access_error + string" where
  "cursor_position C q srt limit =
     (if pq_cursor q = [] then Inr []
      else case cursor_decode C (pq_cursor q) (admin_expectation q srt limit) of
        Inl _ \<Rightarrow> Inl ErrAccessCursor | Inr s \<Rightarrow> Inr (map_get (ck_last s) ''id''))"

definition cut_page ::
  "access_env \<Rightarrow> cursor_codec \<Rightarrow> page_query \<Rightarrow> string \<Rightarrow> int \<Rightarrow> access_request list \<Rightarrow> access_error + access_request page" where
  "cut_page E C q srt limit items =
     (if length items \<le> nat limit then Inr \<lparr>pg_items = items, pg_next = [], pg_more = False\<rparr>
      else let shown = take (nat limit) items
           in case cursor_encode C (page_state q srt (iq_id (last shown)) (iv_now E) limit) of
                Inl _ \<Rightarrow> Inl ErrAccessCursor
              | Inr next \<Rightarrow> Inr \<lparr>pg_items = shown, pg_next = next, pg_more = True\<rparr>)"

definition access_list ::
  "access_env \<Rightarrow> cursor_codec option \<Rightarrow> user_id option \<Rightarrow> page_query \<Rightarrow> authority_conn
     \<Rightarrow> (access_error + access_request page) \<times> authority_conn" where
  "access_list E codec requester q c =
     (let limit = normalize_admin_limit (pq_limit q); srt = (if pq_sort q = [] then ''id:asc'' else pq_sort q)
      in case codec of
           None \<Rightarrow> (Inl ErrAccessCursor, c)
         | Some C \<Rightarrow>
             if srt \<noteq> ''id:asc'' then (Inl ErrAccessCursor, c)
             else case access_status_filter (pq_filters q) (requester = None) of
               Inl e \<Rightarrow> (Inl e, c)
             | Inr status \<Rightarrow>
                 (case cursor_position C q srt limit of
                    Inl e \<Rightarrow> (Inl e, c)
                  | Inr after \<Rightarrow>
                      (case io_call SqlFailure (sql_list_requests E (pq_event q) status requester after (Suc (nat limit))) c of
                         (Inl _, c1) \<Rightarrow> (Inl ErrAccessInfra, c1)
                       | (Inr items, c1) \<Rightarrow> (cut_page E C q srt limit items, c1))))"

definition access_list_own ::
  "access_env \<Rightarrow> cursor_codec option \<Rightarrow> user_id \<Rightarrow> page_query \<Rightarrow> authority_conn
     \<Rightarrow> (access_error + access_request page) \<times> authority_conn" where
  "access_list_own E codec u q c =
     (case validate_list_query q ListKindOwn of Some e \<Rightarrow> (Inl e, c) | None \<Rightarrow> access_list E codec (Some u) q c)"

definition access_list_approval_queue ::
  "access_env \<Rightarrow> cursor_codec option \<Rightarrow> page_query \<Rightarrow> authority_conn
     \<Rightarrow> (access_error + access_request page) \<times> authority_conn" where
  "access_list_approval_queue E codec q c =
     (case validate_list_query q ListKindApprovalQueue of
        Some e \<Rightarrow> (Inl e, c) | None \<Rightarrow> access_list E codec None q c)"

end
