(* ===== verification/IdentityGrantStore.thy ===== *)
theory IdentityGrantStore
  imports IdentityAccessStore
begin

text \<open>
  Decisions, grants and authorization of restricted identity access: the rest of
  \<open>internal/adapters/postgres/identity_access_repo.go\<close> and the receipt adapter of
  \<open>admin_unit_of_work.go\<close>.  Every method runs inside the transaction of the unit of work.
\<close>

section \<open>Deciding\<close>

definition decided_request :: "access_decision \<Rightarrow> access_request \<Rightarrow> access_request" where
  "decided_request d r = r\<lparr>iq_status := (if dz_approved d then StatusApproved else StatusRejected),
     iq_approver := dz_approver d, iq_terminal_at := Some (dz_decided_at d), iq_updated_at := dz_decided_at d,
     iq_version := iq_version r + 1\<rparr>"

definition new_grant ::
  "access_env \<Rightarrow> access_decision \<Rightarrow> string list \<Rightarrow> grant_authorization \<Rightarrow> access_request \<Rightarrow> access_grant" where
  "new_grant E d fds a r = \<lparr>ig_id = iv_grant_id E, ig_request_id = iq_id r, ig_event_id = iq_event_id r,
     ig_requester = iq_requester r, ig_subject = iq_subject r, ig_target_type = iq_target_type r,
     ig_target_id = iq_target_id r, ig_approved_by = dz_approver d, ig_fields = fds, ig_status = GrantActive,
     ig_nonce_hash = None, ig_lease_until = None, ig_receipt_hash = None, ig_binding_id = ga_binding_id a,
     ig_binding_version = ga_binding_version a, ig_challenge_version = ga_challenge_version a,
     ig_field_set_hash = ga_field_hash a, ig_version = 1, ig_expires_at = dz_decided_at d + minutes 15,
     ig_terminal_at = None, ig_created_at = dz_decided_at d, ig_updated_at = dz_decided_at d\<rparr>"

fun insert_grant_fields :: "string \<Rightarrow> string list \<Rightarrow> authority_conn \<Rightarrow> (access_error + unit) \<times> authority_conn" where
  "insert_grant_fields gid [] c = (Inr (), c)"
| "insert_grant_fields gid (f # fs) c =
     (case io_call SqlFailure (sql_insert_grant_field gid f) c of
        (Inl _, c1) \<Rightarrow> (Inl ErrAccessInfra, c1)
      | (Inr _, c1) \<Rightarrow> insert_grant_fields gid fs c1)"

definition insert_grant :: "access_grant \<Rightarrow> authority_conn \<Rightarrow> (access_error + access_grant) \<times> authority_conn" where
  "insert_grant g c =
     (case io_call SqlFailure (sql_insert_grant g) c of
        (Inl _, c1) \<Rightarrow> (Inl ErrAccessInfra, c1)
      | (Inr _, c1) \<Rightarrow>
          (case insert_grant_fields (ig_id g) (ig_fields g) c1 of
             (Inl e, c2) \<Rightarrow> (Inl e, c2) | (Inr _, c2) \<Rightarrow> (Inr g, c2)))"

definition decision_fields_error ::
  "access_env \<Rightarrow> access_decision \<Rightarrow> string list \<Rightarrow> grant_authorization \<Rightarrow> access_request \<Rightarrow> access_error option" where
  "decision_fields_error E d fds a r =
     (if dz_approved d
      then (case validate_approved_identity_fields fds (iq_fields r) of
              Some e \<Rightarrow> Some e
            | None \<Rightarrow> if ga_binding_id a = [] \<or> ga_binding_version a \<le> 0 \<or> ga_challenge_version a \<le> 0
                        \<or> ga_field_hash a \<noteq> hash_identity_fields E fds then Some ErrAccessDecision else None)
      else if fds \<noteq> [] then Some ErrAccessDecision else None)"

definition access_decide ::
  "access_env \<Rightarrow> event_id \<Rightarrow> string \<Rightarrow> int \<Rightarrow> access_decision \<Rightarrow> string list \<Rightarrow> grant_authorization \<Rightarrow> access_audit
     \<Rightarrow> authority_conn \<Rightarrow> (access_error + access_request \<times> access_grant option) \<times> authority_conn" where
  "access_decide E ev rid expected d0 fds a audit c =
     (case io_call SqlFailure (sql_find_request E ev rid) c of
        (Inl _, c1) \<Rightarrow> (Inl ErrAccessInfra, c1)
      | (Inr None, c1) \<Rightarrow> (Inl ErrAccessNotFound, c1)
      | (Inr (Some r), c1) \<Rightarrow>
          let d = d0\<lparr>dz_decided_at := (if dz_decided_at d0 = zero_time then iv_now E else dz_decided_at d0)\<rparr>
          in if iq_version r \<noteq> expected \<or> iq_status r \<noteq> StatusPending \<or> iq_expires_at r \<le> dz_decided_at d
             then (Inl ErrAccessConflict, c1)
             else case validate_decision r d of
               Some e \<Rightarrow> (Inl e, c1)
             | None \<Rightarrow>
     (case decision_fields_error E d fds a r of
        Some e \<Rightarrow> (Inl e, c1)
      | None \<Rightarrow>
     (case io_call SqlFailure (sql_update_requests (\<lambda>x. iq_id x = rid \<and> iq_event_id x = ev \<and> iq_version x = expected
             \<and> iq_status x = StatusPending \<and> dz_decided_at d < iq_expires_at x) (decided_request d)) c1 of
        (Inl _, c2) \<Rightarrow> (Inl ErrAccessInfra, c2)
      | (Inr n, c2) \<Rightarrow>
          if n = 0 then (Inl ErrAccessConflict, c2)
          else
     (case on_admin (io_call ErrRoleInfra (sql_consume_reason (iq_reason_id r) (iq_requester r) identity_access_kind
             (dz_decided_at d) (iv_two_years E (dz_decided_at d)))) c2 of
        (Inl _, c3) \<Rightarrow> (Inl ErrAccessInfra, c3)
      | (Inr n, c3) \<Rightarrow>
          if n \<noteq> 1 then (Inl ErrAccessConflict, c3)
          else
     (case record_access_mutation audit ''admin.identity_access.decided'' ev ''identity_access_request'' rid c3 of
        (Inl e, c4) \<Rightarrow> (Inl e, c4)
      | (Inr _, c4) \<Rightarrow>
          if \<not> dz_approved d then (Inr (decided_request d r, None), c4)
          else
     (case insert_grant (new_grant E d fds a r) c4 of
        (Inl e, c5) \<Rightarrow> (Inl e, c5)
      | (Inr g, c5) \<Rightarrow> (Inr (decided_request d r, Some g), c5)))))))"

section \<open>Grants\<close>

definition claimed_grant :: "string \<Rightarrow> time \<Rightarrow> access_grant \<Rightarrow> access_grant" where
  "claimed_grant digest now g = g\<lparr>ig_status := GrantClaimed, ig_nonce_hash := Some digest,
     ig_lease_until := Some (now + seconds 60), ig_version := ig_version g + 1, ig_updated_at := now\<rparr>"

definition settled_grant :: "string \<Rightarrow> time \<Rightarrow> access_grant \<Rightarrow> access_grant" where
  "settled_grant receipt now g = g\<lparr>ig_status := GrantSettled, ig_nonce_hash := None, ig_lease_until := None,
     ig_receipt_hash := Some receipt, ig_terminal_at := Some now, ig_updated_at := now, ig_version := ig_version g + 1\<rparr>"

definition released_grant :: "time \<Rightarrow> access_grant \<Rightarrow> access_grant" where
  "released_grant now g = g\<lparr>ig_status := GrantActive, ig_nonce_hash := None, ig_lease_until := None,
     ig_version := ig_version g + 1, ig_updated_at := now\<rparr>"

definition grant_of_evidence :: "authorization_evidence \<Rightarrow> access_grant \<Rightarrow> bool" where
  "grant_of_evidence z g \<longleftrightarrow> ig_binding_id g = az_binding_id z \<and> ig_binding_version g = az_binding_version z
     \<and> ig_challenge_version g = az_challenge_version z"

definition claimable ::
  "string \<Rightarrow> event_id \<Rightarrow> user_id \<Rightarrow> int \<Rightarrow> authorization_evidence \<Rightarrow> time \<Rightarrow> access_grant \<Rightarrow> bool" where
  "claimable gid ev u expected z now g \<longleftrightarrow> ig_id g = gid \<and> ig_event_id g = ev \<and> ig_requester g = u
     \<and> grant_of_evidence z g \<and> ig_version g = expected \<and> ig_status g = GrantActive \<and> now < ig_expires_at g"

definition settleable ::
  "string \<Rightarrow> event_id \<Rightarrow> user_id \<Rightarrow> string \<Rightarrow> int \<Rightarrow> authorization_evidence \<Rightarrow> time \<Rightarrow> access_grant \<Rightarrow> bool" where
  "settleable gid ev u digest expected z now g \<longleftrightarrow> ig_id g = gid \<and> ig_event_id g = ev \<and> ig_requester g = u
     \<and> ig_nonce_hash g = Some digest \<and> ig_version g = expected \<and> grant_of_evidence z g \<and> ig_status g = GrantClaimed
     \<and> (case ig_lease_until g of None \<Rightarrow> False | Some t \<Rightarrow> now < t) \<and> now < ig_expires_at g"

definition claim_of ::
  "access_env \<Rightarrow> event_id \<Rightarrow> string \<Rightarrow> user_id \<Rightarrow> authorization_evidence \<Rightarrow> string \<Rightarrow> time \<Rightarrow> access_grant \<Rightarrow> access_claim" where
  "claim_of E ev gid u z nonce lease g = \<lparr>cl_grant_id = gid, cl_event_id = ev, cl_requester = u, cl_subject = ig_subject g,
     cl_target_type = ig_target_type g, cl_target_id = ig_target_id g,
     cl_fields = sort_key (iv_collate E) (ig_fields g), cl_field_hash = ig_field_set_hash g,
     cl_binding_id = az_binding_id z, cl_binding_version = az_binding_version z,
     cl_challenge_version = az_challenge_version z, cl_nonce = nonce, cl_lease_until = lease, cl_version = ig_version g\<rparr>"

text \<open>A NULL lease would fail to scan; the claimed row always has one.\<close>

definition access_claim_grant ::
  "access_env \<Rightarrow> event_id \<Rightarrow> string \<Rightarrow> user_id \<Rightarrow> int \<Rightarrow> authorization_evidence \<Rightarrow> time \<Rightarrow> access_audit
     \<Rightarrow> authority_conn \<Rightarrow> (access_error + access_claim) \<times> authority_conn" where
  "access_claim_grant E ev gid u expected z now audit c =
     (case new_identity_claim_nonce E of
        None \<Rightarrow> (Inl ErrAccessInfra, c)
      | Some (nonce, digest) \<Rightarrow>
     (case io_call SqlFailure (sql_update_grant_returning (claimable gid ev u expected z now) (claimed_grant digest now)) c of
        (Inl _, c1) \<Rightarrow> (Inl ErrAccessInfra, c1)
      | (Inr None, c1) \<Rightarrow> (Inl ErrAccessConflict, c1)
      | (Inr (Some g), c1) \<Rightarrow>
     (case ig_lease_until g of
        None \<Rightarrow> (Inl ErrAccessInfra, c1)
      | Some lease \<Rightarrow>
          let claim = claim_of E ev gid u z nonce lease g
          in if cl_field_hash claim \<noteq> hash_identity_fields E (cl_fields claim) then (Inl ErrAccessConflict, c1)
             else case record_access_mutation audit ''admin.identity_access.claimed'' ev ''identity_access_grant'' gid c1 of
               (Inl e, c2) \<Rightarrow> (Inl e, c2)
             | (Inr _, c2) \<Rightarrow> (Inr claim, c2))))"

definition access_settle_grant ::
  "access_env \<Rightarrow> event_id \<Rightarrow> string \<Rightarrow> user_id \<Rightarrow> int \<Rightarrow> string \<Rightarrow> string \<Rightarrow> authorization_evidence \<Rightarrow> time
     \<Rightarrow> access_audit \<Rightarrow> authority_conn \<Rightarrow> (access_error + int) \<times> authority_conn" where
  "access_settle_grant E ev gid u expected nonce receipt z now audit c =
     (case io_call SqlFailure (sql_update_grant_returning (settleable gid ev u (iv_digest E nonce) expected z now)
             (settled_grant receipt now)) c of
        (Inl _, c1) \<Rightarrow> (Inl ErrAccessInfra, c1)
      | (Inr None, c1) \<Rightarrow> (Inl ErrAccessConflict, c1)
      | (Inr (Some g), c1) \<Rightarrow>
     (case record_access_mutation audit ''admin.identity_access.settled'' ev ''identity_access_grant'' gid c1 of
        (Inl e, c2) \<Rightarrow> (Inl e, c2)
      | (Inr _, c2) \<Rightarrow> (Inr (ig_version g), c2)))"

definition releasable :: "string \<Rightarrow> event_id \<Rightarrow> int \<Rightarrow> time \<Rightarrow> access_grant \<Rightarrow> bool" where
  "releasable gid ev expected now g \<longleftrightarrow> ig_id g = gid \<and> ig_event_id g = ev \<and> ig_version g = expected
     \<and> ig_status g = GrantClaimed \<and> (case ig_lease_until g of None \<Rightarrow> False | Some t \<Rightarrow> t \<le> now) \<and> now < ig_expires_at g"

definition access_release_expired_claim ::
  "event_id \<Rightarrow> string \<Rightarrow> int \<Rightarrow> access_audit \<Rightarrow> authority_conn \<Rightarrow> (access_error + unit) \<times> authority_conn" where
  "access_release_expired_claim ev gid expected audit c =
     (let now = ad_now (au_admin (fst c))
      in case io_call SqlFailure (sql_update_grants (releasable gid ev expected now) (released_grant now)) c of
           (Inl _, c1) \<Rightarrow> (Inl ErrAccessInfra, c1)
         | (Inr n, c1) \<Rightarrow>
             if n \<noteq> 1 then (Inl ErrAccessConflict, c1)
             else record_access_mutation audit ''admin.identity_access.claim_released'' ev ''identity_access_grant'' gid c1)"

definition access_revoke_for_user ::
  "access_env \<Rightarrow> user_id \<Rightarrow> access_audit \<Rightarrow> authority_conn \<Rightarrow> (access_error + unit) \<times> authority_conn" where
  "access_revoke_for_user E u audit c =
     (case io_call SqlFailure (sql_update_grants (\<lambda>g. ig_requester g = u \<and> ig_terminal_at g = None) (revoked_grant (iv_now E))) c of
        (Inl _, c1) \<Rightarrow> (Inl ErrAccessInfra, c1)
      | (Inr _, c1) \<Rightarrow>
          record_access_mutation audit ''admin.identity_access.revoked'' ''system'' ''identity_access_principal'' u c1)"

section \<open>Authorization inside the transaction\<close>

definition lock_active_identity_actor ::
  "user_id \<Rightarrow> event_id \<Rightarrow> authority_conn \<Rightarrow> (access_error + unit) \<times> authority_conn" where
  "lock_active_identity_actor u ev c =
     (case on_admin (io_call ErrRoleInfra (sql_find_event ev)) c of
        (Inl _, c1) \<Rightarrow> (Inl ErrAccessInfra, c1)
      | (Inr e, c1) \<Rightarrow>
          if (case e of None \<Rightarrow> True | Some x \<Rightarrow> \<not> rv_enabled x) then (Inl ErrAccessForbidden, c1)
          else
     (case on_admin (io_call ErrRoleInfra (sql_user_status u)) c1 of
        (Inl _, c2) \<Rightarrow> (Inl ErrAccessInfra, c2)
      | (Inr account, c2) \<Rightarrow>
          if account \<noteq> Some ''active'' then (Inl ErrAccessForbidden, c2)
          else
     (case on_admin (io_call ErrRoleInfra (sql_employee_status u)) c2 of
        (Inl _, c3) \<Rightarrow> (Inl ErrAccessInfra, c3)
      | (Inr employee, c3) \<Rightarrow>
          if employee \<noteq> None \<and> employee \<noteq> Some ''active'' then (Inl ErrAccessForbidden, c3) else (Inr (), c3))))"

definition usable_challenge :: "credential_material \<Rightarrow> bool" where
  "usable_challenge m \<longleftrightarrow> ch_status (ct_challenge m) = ChallengeActive \<and> \<not> ch_must_rotate (ct_challenge m)"

definition access_revalidate ::
  "user_id \<Rightarrow> event_id \<Rightarrow> authorization_evidence \<Rightarrow> authority_conn \<Rightarrow> (access_error + unit) \<times> authority_conn" where
  "access_revalidate u ev z c =
     (if u = [] \<or> ev = [] \<or> az_binding_id z = [] \<or> az_binding_version z \<le> 0 \<or> az_challenge_version z \<le> 0
      then (Inl ErrAccessForbidden, c)
      else case lock_active_identity_actor u ev c of
        (Inl e, c1) \<Rightarrow> (Inl e, c1)
      | (Inr _, c1) \<Rightarrow>
          let governing = (az_role z = RoleSuperAdmin \<or> az_role z = RoleTopAdmin);
              s = (if governing then system_scope else event_scope ev)
          in if \<not> governing \<and> az_role z \<noteq> RoleSeniorAdmin then (Inl ErrAccessForbidden, c1)
             else
     (case on_admin (io_call ErrRoleInfra (sql_find_binding (\<lambda>b. bd_id b = az_binding_id z \<and> bd_user_id b = u
             \<and> bd_role b = az_role z \<and> bd_scope b = s \<and> bd_enabled b \<and> bd_disabled_at b = None
             \<and> bd_version b = az_binding_version z))) c1 of
        (Inl _, c2) \<Rightarrow> (Inl ErrAccessInfra, c2)
      | (Inr None, c2) \<Rightarrow> (Inl ErrAccessForbidden, c2)
      | (Inr (Some b), c2) \<Rightarrow>
     (case io_call SqlFailure (sql_challenge u) c2 of
        (Inl _, c3) \<Rightarrow> (Inl ErrAccessInfra, c3)
      | (Inr m, c3) \<Rightarrow>
          if (case m of None \<Rightarrow> False | Some k \<Rightarrow> usable_challenge k
                \<and> ch_credential_version (ct_challenge k) = az_challenge_version z)
          then (Inr (), c3) else (Inl ErrAccessForbidden, c3))))"

definition current_grant_authorization ::
  "user_id \<Rightarrow> event_id \<Rightarrow> authority_conn \<Rightarrow> (access_error + authorization_evidence) \<times> authority_conn" where
  "current_grant_authorization u ev c =
     (if u = [] \<or> ev = [] then (Inl ErrAccessForbidden, c)
      else case lock_active_identity_actor u ev c of
        (Inl e, c1) \<Rightarrow> (Inl e, c1)
      | (Inr _, c1) \<Rightarrow>
     (case on_admin (io_call ErrRoleInfra (sql_find_binding (\<lambda>b. bd_user_id b = u \<and> bd_role b = RoleSeniorAdmin
             \<and> bd_scope b = event_scope ev \<and> bd_enabled b \<and> bd_disabled_at b = None))) c1 of
        (Inl _, c2) \<Rightarrow> (Inl ErrAccessInfra, c2)
      | (Inr None, c2) \<Rightarrow> (Inl ErrAccessForbidden, c2)
      | (Inr (Some b), c2) \<Rightarrow>
     (case io_call SqlFailure (sql_challenge u) c2 of
        (Inl _, c3) \<Rightarrow> (Inl ErrAccessInfra, c3)
      | (Inr None, c3) \<Rightarrow> (Inl ErrAccessForbidden, c3)
      | (Inr (Some m), c3) \<Rightarrow>
          if \<not> usable_challenge m then (Inl ErrAccessForbidden, c3)
          else if bd_id b = [] \<or> bd_version b \<le> 0 \<or> ch_credential_version (ct_challenge m) \<le> 0
          then (Inl ErrAccessForbidden, c3)
          else (Inr \<lparr>az_role = RoleSeniorAdmin, az_binding_id = bd_id b, az_binding_version = bd_version b,
                     az_challenge_version = ch_credential_version (ct_challenge m)\<rparr>, c3))))"

section \<open>Receipts\<close>

definition map_identity_access_receipt_error :: "store_error \<Rightarrow> access_error" where
  "map_identity_access_receipt_error e =
     (if e = ErrIdempotencyConflict then ErrAccessIdempotencyConflict
      else if e = ErrInvalidOperationResult then ErrAccessStoredResult else ErrAccessInfra)"

definition access_create_or_replay ::
  "string \<Rightarrow> time \<Rightarrow> local_operation_receipt \<Rightarrow> authority_conn
     \<Rightarrow> (access_error + local_operation_receipt \<times> bool) \<times> authority_conn" where
  "access_create_or_replay fresh_id now r c =
     (case on_admin (on_outbox (create_or_replay fresh_id now (receipt_item r))) c of
        (Inl e, c1) \<Rightarrow> (Inl (map_identity_access_receipt_error e), c1)
      | (Inr (item, replay), c1) \<Rightarrow> (Inr (from_adminstore_receipt item, replay), c1))"

definition access_complete_local ::
  "string \<Rightarrow> int \<Rightarrow> allowlisted_result \<Rightarrow> time \<Rightarrow> authority_conn \<Rightarrow> (access_error + unit) \<times> authority_conn" where
  "access_complete_local rid expected result at c =
     (case on_admin (on_outbox (complete_local rid expected result at)) c of
        (Inl e, c1) \<Rightarrow> (Inl (map_identity_access_receipt_error e), c1)
      | (Inr _, c1) \<Rightarrow> (Inr (), c1))"

end
