(* ===== verification/IdentityAccess.thy ===== *)
theory IdentityAccess
  imports IdentityGrantStore AdminStepUp
begin

text \<open>
  The service of restricted identity access (\<open>internal/identityaccess/service.go\<close>): requests,
  decisions, claims and settlements.  Each is a guard, an authorization, a fingerprint of the
  canonical request and one transaction over the ledger, the audit and the receipt of the
  idempotency key.
\<close>

section \<open>Inputs and results\<close>

type_synonym target_ref = "string \<times> string" \<comment> \<open>type and id\<close>

record access_service =
  ia_authorize :: "user_id \<Rightarrow> action \<Rightarrow> resource \<Rightarrow> perm_error + scoped_decision"
  ia_validate_target :: "event_id \<Rightarrow> target_ref \<Rightarrow> string list \<Rightarrow> access_error + target_ref \<times> user_id"
  ia_unicode :: unicode_tables
  ia_format_rune :: "string \<Rightarrow> bool" \<comment> \<open>some rune is a control, a format character or the zero width joiner\<close>
  ia_cipher :: question_cipher
  ia_fingerprint :: "string \<Rightarrow> string \<Rightarrow> fingerprint option"
  ia_marshal :: "(string \<times> string) list \<Rightarrow> string list \<Rightarrow> string" \<comment> \<open>the members and the array \<open>Fields\<close>\<close>
  ia_new_id :: "string \<Rightarrow> string option"
  ia_fresh_id :: string
  ia_now :: time
  ia_env :: access_env
  ia_codec :: "cursor_codec option"

record create_request_input =
  ci_actor :: user_id
  ci_event :: string
  ci_target :: target_ref
  ci_fields :: "string list"
  ci_reason :: string
  ci_correlation :: string
  ci_key :: string

record decide_input =
  di_actor :: user_id
  di_event :: string
  di_request :: string
  di_approved :: bool
  di_fields :: "string list"
  di_expected :: int
  di_step_up :: reauth_grant
  di_correlation :: string
  di_key :: string

record claim_input =
  mi_actor :: user_id
  mi_event :: string
  mi_grant :: string
  mi_expected :: int
  mi_correlation :: string
  mi_key :: string

record settle_input =
  si_actor :: user_id
  si_event :: string
  si_grant :: string
  si_expected :: int
  si_nonce :: string
  si_receipt :: string
  si_correlation :: string
  si_key :: string

record create_request_result =
  cr_request :: access_request
  cr_replayed :: bool

record decide_result =
  dr_request :: access_request
  dr_grant :: "access_grant option"
  dr_replayed :: bool

record claim_result =
  mr_claim :: access_claim
  mr_replayed :: bool

record settle_result =
  sr_grant :: string
  sr_version :: int
  sr_replayed :: bool

section \<open>Guards\<close>

definition role_satisfies :: "role \<Rightarrow> role \<Rightarrow> bool" where
  "role_satisfies have required \<longleftrightarrow> have = required \<or> have = RoleTopAdmin \<and> required = RoleSuperAdmin"

definition access_authorize ::
  "access_service \<Rightarrow> user_id \<Rightarrow> action \<Rightarrow> resource \<Rightarrow> role \<Rightarrow> access_error + authorization_evidence" where
  "access_authorize S u a re required =
     (if u = [] then Inl ErrAccessForbidden
      else case ia_authorize S u a re of
        Inl _ \<Rightarrow> Inl ErrAccessInfra
      | Inr d \<Rightarrow>
          if \<not> sd_allowed d \<or> \<not> role_satisfies (sd_role d) required \<or> sd_binding_id d = [] \<or> sd_binding_version d \<le> 0
             \<or> sd_challenge_version d \<le> 0
          then Inl ErrAccessForbidden
          else Inr \<lparr>az_role = sd_role d, az_binding_id = sd_binding_id d, az_binding_version = sd_binding_version d,
                    az_challenge_version = sd_challenge_version d\<rparr>)"

definition access_resource :: "string \<Rightarrow> string \<Rightarrow> event_id \<Rightarrow> resource" where
  "access_resource kind i ev = \<lparr>re_kind = kind, re_id = i, re_event_id = ev, re_attributes = Map.empty\<rparr>"

definition blank_access_request :: access_request where
  "blank_access_request = \<lparr>iq_id = [], iq_event_id = [], iq_requester = [], iq_subject = [], iq_approver = [],
     iq_target_type = [], iq_target_id = [], iq_fields = [], iq_status = [], iq_reason_id = [], iq_version = 0,
     iq_created_at = zero_time, iq_updated_at = zero_time, iq_expires_at = zero_time, iq_terminal_at = None\<rparr>"

definition normalize_fields :: "string list \<Rightarrow> access_error + string list" where
  "normalize_fields fs =
     (case validate_request (blank_access_request\<lparr>iq_event_id := ''event'', iq_requester := ''requester'',
             iq_subject := ''target'', iq_target_type := TargetApplication, iq_target_id := ''target'', iq_fields := fs\<rparr>) of
        Some e \<Rightarrow> Inl e | None \<Rightarrow> Inr (sort fs))"

definition field_subset :: "string list \<Rightarrow> string list \<Rightarrow> bool" where
  "field_subset fs full \<longleftrightarrow> fs \<noteq> [] \<and> length fs \<le> length full \<and> list_all (\<lambda>f. f \<in> set full) fs"

definition field_set_hash :: "access_service \<Rightarrow> string list \<Rightarrow> string" where
  "field_set_hash S fs = iv_digest (ia_env S) (str_join fs [CHR 0x00])"

definition normalize_reason :: "access_service \<Rightarrow> string \<Rightarrow> access_error + string" where
  "normalize_reason S raw =
     (let n = trim_space (ut_nfkc (ia_unicode S) raw); count = ut_graphemes (ia_unicode S) n
      in if count < 20 \<or> 500 < count then Inl ErrAccessReason
         else if ia_format_rune S n then Inl ErrAccessReason else Inr n)"

definition requestLifetime :: duration where "requestLifetime = minutes (24 * 60)"
definition claimLifetime :: duration where "claimLifetime = minutes 1"
definition stepUpFreshness :: duration where "stepUpFreshness = minutes 5"

definition validate_step_up :: "reauth_grant \<Rightarrow> user_id \<Rightarrow> string \<Rightarrow> int \<Rightarrow> time \<Rightarrow> access_error option" where
  "validate_step_up g u target v now =
     (if rg_grant_id g = [] \<or> rg_user_id g \<noteq> u \<or> rg_action g \<noteq> ReauthActionAdminOAApproval \<or> rg_target g \<noteq> target
         \<or> rg_challenge_version g \<noteq> v \<or> rg_created_at g = zero_time \<or> now + minutes 1 < rg_created_at g
         \<or> stepUpFreshness < now - rg_created_at g
      then Some ErrAccessStepUp else None)"

text \<open>\<open>^[A-Za-z0-9_-]{8,240}$\<close>\<close>

definition opaque_digest :: "string \<Rightarrow> bool" where
  "opaque_digest s \<longleftrightarrow> 8 \<le> length s \<and> length s \<le> 240 \<and> list_all is_token_char s"

definition access_fingerprint :: "access_service \<Rightarrow> string \<Rightarrow> string \<Rightarrow> access_error + fingerprint" where
  "access_fingerprint S purpose canonical =
     (case ia_fingerprint S purpose canonical of
        None \<Rightarrow> Inl ErrAccessInfra
      | Some fp \<Rightarrow> if fp_version fp = [] \<or> fp_key_id fp = [] \<or> fp_digest fp = [] then Inl ErrAccessRequest else Inr fp)"

section \<open>Stored results\<close>

definition stored_access_result :: "(string \<Rightarrow> string) \<Rightarrow> string \<Rightarrow> (string \<times> string) list \<Rightarrow> allowlisted_result" where
  "stored_access_result digest code payload = \<lparr>ar_code = code,
     ar_digest = digest (str_join (code # concat (map (\<lambda>(k, v). [k, v]) (sort_key fst payload))) [CHR 0x00]),
     ar_payload = Some payload\<rparr>"

text \<open>The payload of a well-formed stored result: its code matches and so does its digest.\<close>

definition open_stored_result ::
  "(string \<Rightarrow> string) \<Rightarrow> allowlisted_result \<Rightarrow> string \<Rightarrow> (string \<times> string) list option" where
  "open_stored_result digest res code =
     (case ar_payload res of
        None \<Rightarrow> None
      | Some kvs \<Rightarrow>
          if ar_code res \<noteq> code \<or> ar_digest res \<noteq> ar_digest (stored_access_result digest code kvs) then None else Some kvs)"

definition stored_version :: "(string \<times> string) list \<Rightarrow> int option" where
  "stored_version kvs =
     (case parse_int64 (payload_get kvs ''version'') of None \<Rightarrow> None | Some v \<Rightarrow> if v \<le> 0 then None else Some v)"

definition encode_request_result :: "(string \<Rightarrow> string) \<Rightarrow> string \<Rightarrow> access_request \<Rightarrow> allowlisted_result" where
  "encode_request_result digest code r = stored_access_result digest code
     [(''request_id'', iq_id r), (''status'', iq_status r), (''version'', itoa (iq_version r))]"

definition decode_request_result :: "(string \<Rightarrow> string) \<Rightarrow> allowlisted_result \<Rightarrow> string \<Rightarrow> access_error + access_request" where
  "decode_request_result digest res code =
     (case open_stored_result digest res code of
        None \<Rightarrow> Inl ErrAccessStoredResult
      | Some kvs \<Rightarrow>
          (case stored_version kvs of
             None \<Rightarrow> Inl ErrAccessStoredResult
           | Some v \<Rightarrow>
               if \<not> has_prefix (payload_get kvs ''request_id'') ''iar_''
                  \<or> payload_get kvs ''status'' \<notin> {StatusPending, StatusApproved, StatusRejected, StatusRevoked}
               then Inl ErrAccessStoredResult
               else Inr (blank_access_request\<lparr>iq_id := payload_get kvs ''request_id'',
                      iq_status := payload_get kvs ''status'', iq_version := v\<rparr>)))"

definition encode_decision_result ::
  "(string \<Rightarrow> string) \<Rightarrow> access_request \<Rightarrow> access_grant option \<Rightarrow> allowlisted_result" where
  "encode_decision_result digest r g = stored_access_result digest ''identity_access.decided''
     ([(''request_id'', iq_id r), (''status'', iq_status r), (''version'', itoa (iq_version r))]
      @ (case g of None \<Rightarrow> [] | Some x \<Rightarrow> [(''grant_id'', ig_id x)]))"

definition blank_access_grant :: access_grant where
  "blank_access_grant = \<lparr>ig_id = [], ig_request_id = [], ig_event_id = [], ig_requester = [], ig_subject = [],
     ig_target_type = [], ig_target_id = [], ig_approved_by = [], ig_fields = [], ig_status = [], ig_nonce_hash = None,
     ig_lease_until = None, ig_receipt_hash = None, ig_binding_id = [], ig_binding_version = 0, ig_challenge_version = 0,
     ig_field_set_hash = [], ig_version = 0, ig_expires_at = zero_time, ig_terminal_at = None,
     ig_created_at = zero_time, ig_updated_at = zero_time\<rparr>"

definition decode_decision_result :: "(string \<Rightarrow> string) \<Rightarrow> allowlisted_result \<Rightarrow> access_error + decide_result" where
  "decode_decision_result digest res =
     (case decode_request_result digest res ''identity_access.decided'' of
        Inl e \<Rightarrow> Inl e
      | Inr r \<Rightarrow>
          let gid = payload_get (payload_entries res) ''grant_id''
          in if gid = [] then Inr \<lparr>dr_request = r, dr_grant = None, dr_replayed = False\<rparr>
             else if \<not> has_prefix gid ''iag_'' then Inl ErrAccessStoredResult
             else Inr \<lparr>dr_request = r, dr_grant = Some (blank_access_grant\<lparr>ig_id := gid\<rparr>), dr_replayed = False\<rparr>)"

definition encode_grant_result :: "(string \<Rightarrow> string) \<Rightarrow> string \<Rightarrow> string \<Rightarrow> string \<Rightarrow> int \<Rightarrow> allowlisted_result" where
  "encode_grant_result digest code status gid v = stored_access_result digest code
     [(''grant_id'', gid), (''status'', status), (''version'', itoa v)]"

definition decode_grant_result ::
  "(string \<Rightarrow> string) \<Rightarrow> allowlisted_result \<Rightarrow> string \<Rightarrow> string \<Rightarrow> access_error + string \<times> int" where
  "decode_grant_result digest res code status =
     (case open_stored_result digest res code of
        None \<Rightarrow> Inl ErrAccessStoredResult
      | Some kvs \<Rightarrow>
          (case stored_version kvs of
             None \<Rightarrow> Inl ErrAccessStoredResult
           | Some v \<Rightarrow>
               if payload_get kvs ''status'' \<noteq> status \<or> \<not> has_prefix (payload_get kvs ''grant_id'') ''iag_''
               then Inl ErrAccessStoredResult else Inr (payload_get kvs ''grant_id'', v)))"

definition blank_claim :: access_claim where
  "blank_claim = \<lparr>cl_grant_id = [], cl_event_id = [], cl_requester = [], cl_subject = [], cl_target_type = [],
     cl_target_id = [], cl_fields = [], cl_field_hash = [], cl_binding_id = [], cl_binding_version = 0,
     cl_challenge_version = 0, cl_nonce = [], cl_lease_until = zero_time, cl_version = 0\<rparr>"

text \<open>\<open>encodeClaimResult\<close>, \<open>decodeClaimResult\<close>, \<open>encodeSettleResult\<close>, \<open>decodeSettleResult\<close>.\<close>

definition encode_claim_result :: "(string \<Rightarrow> string) \<Rightarrow> access_claim \<Rightarrow> allowlisted_result" where
  "encode_claim_result digest k =
     encode_grant_result digest ''identity_access.claimed'' GrantClaimed (cl_grant_id k) (cl_version k)"

definition decode_claim_result :: "(string \<Rightarrow> string) \<Rightarrow> allowlisted_result \<Rightarrow> access_error + access_claim" where
  "decode_claim_result digest res =
     (case decode_grant_result digest res ''identity_access.claimed'' GrantClaimed of
        Inl e \<Rightarrow> Inl e | Inr (gid, v) \<Rightarrow> Inr (blank_claim\<lparr>cl_grant_id := gid, cl_version := v\<rparr>))"

definition encode_settle_result :: "(string \<Rightarrow> string) \<Rightarrow> string \<Rightarrow> int \<Rightarrow> allowlisted_result" where
  "encode_settle_result digest gid v = encode_grant_result digest ''identity_access.settled'' GrantSettled gid v"

definition decode_settle_result :: "(string \<Rightarrow> string) \<Rightarrow> allowlisted_result \<Rightarrow> access_error + settle_result" where
  "decode_settle_result digest res =
     (case decode_grant_result digest res ''identity_access.settled'' GrantSettled of
        Inl e \<Rightarrow> Inl e | Inr (gid, v) \<Rightarrow> Inr \<lparr>sr_grant = gid, sr_version = v, sr_replayed = False\<rparr>)"

section \<open>Mutations\<close>

definition access_receipt :: "access_service \<Rightarrow> string \<Rightarrow> string \<Rightarrow> fingerprint \<Rightarrow> local_operation_receipt" where
  "access_receipt S rid key fp = \<lparr>lr_id = rid, lr_key = key, lr_fingerprint = fp,
     lr_result = \<lparr>ar_code = [], ar_digest = [], ar_payload = None\<rparr>, lr_state = ''pending'', lr_version = 1,
     lr_created_at = ia_now S, lr_terminal_at = None\<rparr>"

text \<open>
  The shape of the four callbacks: the authorization is read again inside the transaction, then
  the receipt of the key is created or replayed; \<open>replay\<close> answers from a stored result,
  \<open>perform\<close> does the work and hands back the answer with the result to store.
\<close>

definition access_transaction ::
  "access_service \<Rightarrow> user_id \<Rightarrow> event_id \<Rightarrow> authorization_evidence \<Rightarrow> local_operation_receipt
     \<Rightarrow> (allowlisted_result \<Rightarrow> access_error + 'a)
     \<Rightarrow> (authority_conn \<Rightarrow> (access_error + 'a \<times> allowlisted_result) \<times> authority_conn)
     \<Rightarrow> authority_conn \<Rightarrow> (access_error + 'a) \<times> authority_conn" where
  "access_transaction S u ev z rcpt replay perform c =
     (case access_revalidate u ev z c of
        (Inl _, c1) \<Rightarrow> (Inl ErrAccessForbidden, c1)
      | (Inr _, c1) \<Rightarrow>
     (case access_create_or_replay (ia_fresh_id S) (iv_now (ia_env S)) rcpt c1 of
        (Inl e, c2) \<Rightarrow> (Inl e, c2)
      | (Inr (receipt, True), c2) \<Rightarrow> (replay (lr_result receipt), c2)
      | (Inr (receipt, False), c2) \<Rightarrow>
     (case perform c2 of
        (Inl e, c3) \<Rightarrow> (Inl e, c3)
      | (Inr (answer, stored), c3) \<Rightarrow>
     (case access_complete_local (lr_id receipt) (lr_version receipt) stored (ia_now S) c3 of
        (Inl e, c4) \<Rightarrow> (Inl e, c4)
      | (Inr _, c4) \<Rightarrow> (Inr answer, c4)))))"

definition access_digest :: "access_service \<Rightarrow> string \<Rightarrow> string" where
  "access_digest S = iv_digest (ia_env S)"

subsection \<open>CreateRequest\<close>

definition new_access_request ::
  "access_service \<Rightarrow> create_request_input \<Rightarrow> string list \<Rightarrow> user_id \<Rightarrow> string \<Rightarrow> string \<Rightarrow> access_request" where
  "new_access_request S i fds subject rid reason_id = \<lparr>iq_id = rid, iq_event_id = trim_space (ci_event i),
     iq_requester = ci_actor i, iq_subject = subject, iq_approver = [], iq_target_type = fst (ci_target i),
     iq_target_id = trim_space (snd (ci_target i)), iq_fields = fds, iq_status = StatusPending,
     iq_reason_id = reason_id, iq_version = 1, iq_created_at = ia_now S, iq_updated_at = ia_now S,
     iq_expires_at = ia_now S + requestLifetime, iq_terminal_at = None\<rparr>"

definition access_audit_of :: "user_id \<Rightarrow> string \<Rightarrow> action \<Rightarrow> access_audit" where
  "access_audit_of u correlation a = \<lparr>xa_actor = u, xa_reason_id = [], xa_request_id = correlation, xa_action = a\<rparr>"

definition perform_create ::
  "access_service \<Rightarrow> create_request_input \<Rightarrow> string list \<Rightarrow> user_id \<Rightarrow> string \<Rightarrow> string \<Rightarrow> encrypted_value
     \<Rightarrow> authority_conn \<Rightarrow> (access_error + create_request_result \<times> allowlisted_result) \<times> authority_conn" where
  "perform_create S i fds subject rid reason_id sealed c =
     (case access_create_request (new_access_request S i fds subject rid reason_id)
             \<lparr>pz_id = reason_id, pz_owner = ci_actor i, pz_key_id = ev_key_id sealed, pz_nonce = ev_nonce sealed,
              pz_ciphertext = ev_ciphertext sealed, pz_created_at = ia_now S\<rparr>
             (access_audit_of (ci_actor i) (ci_correlation i) ActionIdentityAccessRequest) c of
        (Inl e, c1) \<Rightarrow> (Inl e, c1)
      | (Inr r, c1) \<Rightarrow> (Inr (\<lparr>cr_request = r, cr_replayed = False\<rparr>,
                            encode_request_result (access_digest S) ''identity_access.requested'' r), c1))"

definition replay_create :: "access_service \<Rightarrow> allowlisted_result \<Rightarrow> access_error + create_request_result" where
  "replay_create S res =
     (case decode_request_result (access_digest S) res ''identity_access.requested'' of
        Inl e \<Rightarrow> Inl e | Inr r \<Rightarrow> Inr \<lparr>cr_request = r, cr_replayed = True\<rparr>)"

definition create_access_request ::
  "access_service \<Rightarrow> create_request_input \<Rightarrow> authority_conn \<Rightarrow> (access_error + create_request_result) \<times> authority_conn" where
  "create_access_request S i c =
     (let ev = trim_space (ci_event i); target = (fst (ci_target i), trim_space (snd (ci_target i)))
      in if ci_actor i = [] \<or> ev = [] \<or> snd target = [] \<or> trim_space (ci_correlation i) = [] then (Inl ErrAccessRequest, c)
         else if \<not> valid_idempotency_key (ci_key i) then (Inl ErrAccessIdempotencyKey, c)
         else
     (case normalize_fields (ci_fields i) of
        Inl e \<Rightarrow> (Inl e, c)
      | Inr fds \<Rightarrow>
     (case normalize_reason S (ci_reason i) of
        Inl e \<Rightarrow> (Inl e, c)
      | Inr reason \<Rightarrow>
     (case ia_validate_target S ev target fds of
        Inl e \<Rightarrow> (Inl e, c)
      | Inr (validated, subject) \<Rightarrow>
          if validated \<noteq> target \<or> subject = [] \<or> subject = ci_actor i then (Inl ErrAccessRequest, c)
          else
     (case access_authorize S (ci_actor i) ActionIdentityAccessRequest (access_resource (fst target) (snd target) ev)
             RoleSeniorAdmin of
        Inl e \<Rightarrow> (Inl e, c)
      | Inr z \<Rightarrow>
     (case access_fingerprint S ''identityaccess.request'' (ia_marshal S [(''Operation'', ''request''),
             (''ActorID'', ci_actor i), (''EventID'', ev), (''TargetType'', fst target), (''TargetID'', snd target),
             (''TargetSubject'', subject), (''Reason'', reason)] fds) of
        Inl e \<Rightarrow> (Inl e, c)
      | Inr fp \<Rightarrow>
     (case (ia_new_id S ''iar_'', ia_new_id S ''reason_'', ia_new_id S ''aop_'') of
        (Some rid, Some reason_id, Some receipt_id) \<Rightarrow>
     (case encrypt_value (ia_cipher S) PurposeProtectedReason (ci_actor i) reason_id 1 reason of
        None \<Rightarrow> (Inl ErrAccessInfra, c)
      | Some sealed \<Rightarrow>
          if ev_key_id sealed = [] \<or> ev_nonce sealed = [] \<or> ev_ciphertext sealed = [] then (Inl ErrAccessRequest, c)
          else tx_run ErrAccessInfra (access_transaction S (ci_actor i) ev z (access_receipt S receipt_id (ci_key i) fp)
                 (replay_create S) (perform_create S i fds subject rid reason_id sealed)) c)
      | _ \<Rightarrow> (Inl ErrAccessInfra, c))))))))"

subsection \<open>Decide\<close>

definition access_decision_of :: "access_service \<Rightarrow> decide_input \<Rightarrow> string \<Rightarrow> access_decision" where
  "access_decision_of S i rid = \<lparr>dz_approver = di_actor i, dz_approved = di_approved i, dz_request_id = rid,
     dz_decided_at = ia_now S\<rparr>"

definition perform_decide ::
  "access_service \<Rightarrow> decide_input \<Rightarrow> string list \<Rightarrow> authorization_evidence
     \<Rightarrow> authority_conn \<Rightarrow> (access_error + decide_result \<times> allowlisted_result) \<times> authority_conn" where
  "perform_decide S i fds z c =
     (let ev = trim_space (di_event i); rid = trim_space (di_request i); now = ia_now S
      in case get_request (ia_env S) ev rid c of
        (Inl e, c1) \<Rightarrow> (Inl e, c1)
      | (Inr r, c1) \<Rightarrow>
          if iq_status r \<noteq> StatusPending \<or> iq_version r \<noteq> di_expected i \<or> iq_expires_at r \<le> now
          then (Inl ErrAccessConflict, c1)
          else case validate_decision r (access_decision_of S i (iq_id r)) of
            Some e \<Rightarrow> (Inl e, c1)
          | None \<Rightarrow>
     (case validate_step_up (di_step_up i) (di_actor i) rid (az_challenge_version z) now of
        Some e \<Rightarrow> (Inl e, c1)
      | None \<Rightarrow>
          if di_approved i \<and> \<not> field_subset fds (iq_fields r) then (Inl ErrAccessDecision, c1)
          else
     (case current_grant_authorization (iq_requester r) ev c1 of
        (Inl _, c2) \<Rightarrow> (Inl ErrAccessForbidden, c2)
      | (Inr za, c2) \<Rightarrow>
          if az_role za \<noteq> RoleSeniorAdmin then (Inl ErrAccessForbidden, c2)
          else
     (case access_decide (ia_env S) ev (iq_id r) (di_expected i) (access_decision_of S i (iq_id r)) fds
             \<lparr>ga_binding_id = az_binding_id za, ga_binding_version = az_binding_version za,
              ga_challenge_version = az_challenge_version za, ga_field_hash = field_set_hash S fds\<rparr>
             (access_audit_of (di_actor i) (di_correlation i) ActionIdentityAccessApprove) c2 of
        (Inl e, c3) \<Rightarrow> (Inl e, c3)
      | (Inr (r', g), c3) \<Rightarrow>
          (Inr (\<lparr>dr_request = r', dr_grant = g, dr_replayed = False\<rparr>,
                encode_decision_result (access_digest S) r' g), c3)))))"

definition replay_decide :: "access_service \<Rightarrow> allowlisted_result \<Rightarrow> access_error + decide_result" where
  "replay_decide S res =
     (case decode_decision_result (access_digest S) res of
        Inl e \<Rightarrow> Inl e | Inr d \<Rightarrow> Inr (d\<lparr>dr_replayed := True\<rparr>))"

text \<open>The fields that count: the normalized ones of an approval, none of a rejection.\<close>

definition decided_fields :: "decide_input \<Rightarrow> access_error + string list" where
  "decided_fields i =
     (if di_approved i then normalize_fields (di_fields i)
      else if di_fields i \<noteq> [] then Inl ErrAccessDecision else Inr [])"

definition decide_access_request ::
  "access_service \<Rightarrow> decide_input \<Rightarrow> authority_conn \<Rightarrow> (access_error + decide_result) \<times> authority_conn" where
  "decide_access_request S i c =
     (let ev = trim_space (di_event i); rid = trim_space (di_request i)
      in if di_actor i = [] \<or> ev = [] \<or> rid = [] \<or> trim_space (di_correlation i) = [] then (Inl ErrAccessDecision, c)
         else if di_expected i \<le> 0 then (Inl ErrAccessIfMatch, c)
         else if \<not> valid_idempotency_key (di_key i) then (Inl ErrAccessIdempotencyKey, c)
         else
     (case decided_fields i of
        Inl e \<Rightarrow> (Inl e, c)
      | Inr fds \<Rightarrow>
     (case access_authorize S (di_actor i) ActionIdentityAccessApprove
             (access_resource ''identity_access_request'' rid ev) RoleSuperAdmin of
        Inl e \<Rightarrow> (Inl e, c)
      | Inr z \<Rightarrow>
     (case access_fingerprint S ''identityaccess.decide'' (ia_marshal S [(''Operation'', ''decide''),
             (''ActorID'', di_actor i), (''EventID'', ev), (''RequestID'', rid),
             (''Approved'', if di_approved i then ''true'' else ''false''), (''ExpectedVersion'', itoa (di_expected i))] fds) of
        Inl e \<Rightarrow> (Inl e, c)
      | Inr fp \<Rightarrow>
     (case ia_new_id S ''aop_'' of
        None \<Rightarrow> (Inl ErrAccessInfra, c)
      | Some receipt_id \<Rightarrow> tx_run ErrAccessInfra (access_transaction S (di_actor i) ev z
             (access_receipt S receipt_id (di_key i) fp) (replay_decide S) (perform_decide S i fds z)) c)))))"

subsection \<open>Claim and Settle\<close>

definition perform_claim ::
  "access_service \<Rightarrow> claim_input \<Rightarrow> authorization_evidence
     \<Rightarrow> authority_conn \<Rightarrow> (access_error + claim_result \<times> allowlisted_result) \<times> authority_conn" where
  "perform_claim S i z c =
     (case access_claim_grant (ia_env S) (trim_space (mi_event i)) (trim_space (mi_grant i)) (mi_actor i) (mi_expected i) z
             (ia_now S) (access_audit_of (mi_actor i) (mi_correlation i) ActionIdentityGrantConsume) c of
        (Inl e, c1) \<Rightarrow> (Inl e, c1)
      | (Inr k, c1) \<Rightarrow>
          if cl_nonce k = [] \<or> cl_lease_until k - ia_now S \<le> 0 \<or> claimLifetime < cl_lease_until k - ia_now S
          then (Inl ErrAccessStoredResult, c1)
          else (Inr (\<lparr>mr_claim = k, mr_replayed = False\<rparr>, encode_claim_result (access_digest S) k), c1))"

definition replay_claim :: "access_service \<Rightarrow> allowlisted_result \<Rightarrow> access_error + claim_result" where
  "replay_claim S res =
     (case decode_claim_result (access_digest S) res of
        Inl e \<Rightarrow> Inl e | Inr k \<Rightarrow> Inr \<lparr>mr_claim = k, mr_replayed = True\<rparr>)"

definition claim_access_grant ::
  "access_service \<Rightarrow> claim_input \<Rightarrow> authority_conn \<Rightarrow> (access_error + claim_result) \<times> authority_conn" where
  "claim_access_grant S i c =
     (let ev = trim_space (mi_event i); gid = trim_space (mi_grant i)
      in if mi_actor i = [] \<or> ev = [] \<or> gid = [] \<or> trim_space (mi_correlation i) = [] then (Inl ErrAccessRequest, c)
         else if mi_expected i \<le> 0 then (Inl ErrAccessIfMatch, c)
         else if \<not> valid_idempotency_key (mi_key i) then (Inl ErrAccessIdempotencyKey, c)
         else
     (case access_authorize S (mi_actor i) ActionIdentityGrantConsume
             (access_resource ''identity_access_grant'' gid ev) RoleSeniorAdmin of
        Inl e \<Rightarrow> (Inl e, c)
      | Inr z \<Rightarrow>
     (case access_fingerprint S ''identityaccess.claim'' (ia_marshal S [(''Operation'', ''claim''),
             (''ActorID'', mi_actor i), (''EventID'', ev), (''GrantID'', gid),
             (''ExpectedVersion'', itoa (mi_expected i))] []) of
        Inl e \<Rightarrow> (Inl e, c)
      | Inr fp \<Rightarrow>
     (case ia_new_id S ''aop_'' of
        None \<Rightarrow> (Inl ErrAccessInfra, c)
      | Some receipt_id \<Rightarrow> tx_run ErrAccessInfra (access_transaction S (mi_actor i) ev z
             (access_receipt S receipt_id (mi_key i) fp) (replay_claim S) (perform_claim S i z)) c))))"

definition perform_settle ::
  "access_service \<Rightarrow> settle_input \<Rightarrow> authorization_evidence
     \<Rightarrow> authority_conn \<Rightarrow> (access_error + settle_result \<times> allowlisted_result) \<times> authority_conn" where
  "perform_settle S i z c =
     (let gid = trim_space (si_grant i)
      in case access_settle_grant (ia_env S) (trim_space (si_event i)) gid (si_actor i) (si_expected i) (si_nonce i)
             (si_receipt i) z (ia_now S) (access_audit_of (si_actor i) (si_correlation i) ActionIdentityGrantConsume) c of
        (Inl e, c1) \<Rightarrow> (Inl e, c1)
      | (Inr v, c1) \<Rightarrow> (Inr (\<lparr>sr_grant = gid, sr_version = v, sr_replayed = False\<rparr>,
                            encode_settle_result (access_digest S) gid v), c1))"

definition replay_settle :: "access_service \<Rightarrow> allowlisted_result \<Rightarrow> access_error + settle_result" where
  "replay_settle S res =
     (case decode_settle_result (access_digest S) res of
        Inl e \<Rightarrow> Inl e | Inr d \<Rightarrow> Inr (d\<lparr>sr_replayed := True\<rparr>))"

definition settle_access_grant ::
  "access_service \<Rightarrow> settle_input \<Rightarrow> authority_conn \<Rightarrow> (access_error + settle_result) \<times> authority_conn" where
  "settle_access_grant S i c =
     (let ev = trim_space (si_event i); gid = trim_space (si_grant i)
      in if si_actor i = [] \<or> ev = [] \<or> gid = [] \<or> si_nonce i = [] \<or> \<not> opaque_digest (si_receipt i)
            \<or> trim_space (si_correlation i) = [] then (Inl ErrAccessRequest, c)
         else if si_expected i \<le> 0 then (Inl ErrAccessIfMatch, c)
         else if \<not> valid_idempotency_key (si_key i) then (Inl ErrAccessIdempotencyKey, c)
         else
     (case access_authorize S (si_actor i) ActionIdentityGrantConsume
             (access_resource ''identity_access_grant'' gid ev) RoleSeniorAdmin of
        Inl e \<Rightarrow> (Inl e, c)
      | Inr z \<Rightarrow>
     (case access_fingerprint S ''identityaccess.settle'' (ia_marshal S [(''Operation'', ''settle''),
             (''ActorID'', si_actor i), (''EventID'', ev), (''GrantID'', gid),
             (''ClaimNonceHash'', access_digest S (si_nonce i)), (''ReceiptHash'', si_receipt i),
             (''ExpectedVersion'', itoa (si_expected i))] []) of
        Inl e \<Rightarrow> (Inl e, c)
      | Inr fp \<Rightarrow>
     (case ia_new_id S ''aop_'' of
        None \<Rightarrow> (Inl ErrAccessInfra, c)
      | Some receipt_id \<Rightarrow> tx_run ErrAccessInfra (access_transaction S (si_actor i) ev z
             (access_receipt S receipt_id (si_key i) fp) (replay_settle S) (perform_settle S i z)) c))))"

section \<open>Reading\<close>

definition service_list_own ::
  "access_service \<Rightarrow> user_id \<Rightarrow> page_query \<Rightarrow> authority_conn \<Rightarrow> (access_error + access_request page) \<times> authority_conn" where
  "service_list_own S u q0 c =
     (let q = q0\<lparr>pq_actor := u, pq_scope_kind := ''event'', pq_list_kind := ListKindOwn\<rparr>
      in case access_authorize S u ActionIdentityAccessRequest
             (access_resource ''identity_access_list'' (pq_event q) (pq_event q)) RoleSeniorAdmin of
           Inl e \<Rightarrow> (Inl e, c) | Inr _ \<Rightarrow> access_list_own (ia_env S) (ia_codec S) u q c)"

definition service_list_approval_queue ::
  "access_service \<Rightarrow> user_id \<Rightarrow> page_query \<Rightarrow> authority_conn \<Rightarrow> (access_error + access_request page) \<times> authority_conn" where
  "service_list_approval_queue S u q0 c =
     (let q = q0\<lparr>pq_actor := u, pq_scope_kind := ''event'', pq_list_kind := ListKindApprovalQueue\<rparr>
      in case access_authorize S u ActionIdentityAccessApprove
             (access_resource ''identity_access_queue'' (pq_event q) (pq_event q)) RoleSuperAdmin of
           Inl e \<Rightarrow> (Inl e, c) | Inr _ \<Rightarrow> access_list_approval_queue (ia_env S) (ia_codec S) q c)"

definition service_get_own ::
  "access_service \<Rightarrow> user_id \<Rightarrow> event_id \<Rightarrow> string \<Rightarrow> authority_conn \<Rightarrow> (access_error + access_request) \<times> authority_conn" where
  "service_get_own S u ev rid c =
     (case access_authorize S u ActionIdentityAccessRequest (access_resource ''identity_access_request'' rid ev) RoleSeniorAdmin of
        Inl e \<Rightarrow> (Inl e, c)
      | Inr _ \<Rightarrow>
          (case get_request (ia_env S) ev rid c of
             (Inl e, c1) \<Rightarrow> (Inl e, c1)
           | (Inr r, c1) \<Rightarrow> if iq_requester r \<noteq> u then (Inl ErrAccessNotFound, c1) else (Inr r, c1)))"

definition service_get_for_approval ::
  "access_service \<Rightarrow> user_id \<Rightarrow> event_id \<Rightarrow> string \<Rightarrow> authority_conn \<Rightarrow> (access_error + access_request) \<times> authority_conn" where
  "service_get_for_approval S u ev rid c =
     (case access_authorize S u ActionIdentityAccessApprove (access_resource ''identity_access_request'' rid ev) RoleSuperAdmin of
        Inl e \<Rightarrow> (Inl e, c) | Inr _ \<Rightarrow> get_request (ia_env S) ev rid c)"

end
