(* ===== verification/IdentityEffects.thy ===== *)
theory IdentityEffects
  imports IdentityAccess StepUpEffects
begin

text \<open>
  What the methods and the mutations of restricted identity access do to the authority database:
  frames, the facts the transaction reads again, and the effect of each committed mutation on
  the ledger of requests and grants.
\<close>

section \<open>Frames\<close>

lemma access_receipt_frames:
  "access_create_or_replay fid now r c = (x, c') \<Longrightarrow> only_outbox (fst c) (fst c')"
  "access_complete_local rid v res at c = (y, c') \<Longrightarrow> only_outbox (fst c) (fst c')"
  by (auto simp: access_create_or_replay_def access_complete_local_def split: prod.splits sum.splits dest: outbox_frame)

lemma on_admin_io_reads:
  assumes "\<And>db. snd (f db) = db" and "on_admin (io_call e f) c = (r, c')"
  shows "fst c' = fst c"
  by (rule on_admin_reads [OF _ assms(2)]) (rule io_call_pure, rule assms(1))

lemma admin_reads:
  "on_admin (io_call e (sql_find_event ev)) c = (x, c') \<Longrightarrow> fst c' = fst c"
  "on_admin (io_call e (sql_user_status u)) c = (y, c') \<Longrightarrow> fst c' = fst c"
  "on_admin (io_call e (sql_employee_status u)) c = (y, c') \<Longrightarrow> fst c' = fst c"
  "on_admin (io_call e (sql_find_binding p)) c = (z, c') \<Longrightarrow> fst c' = fst c"
  by (rule on_admin_io_reads, simp_all add: sql_find_event_def sql_user_status_def sql_employee_status_def sql_find_binding_def)+

lemma on_admin_io_ok:
  "on_admin (io_call e f) c = (Inr x, c') \<Longrightarrow> f (au_admin (fst c)) = (Inr x, au_admin (fst c'))
     \<and> fst c' = (fst c)\<lparr>au_admin := au_admin (fst c')\<rparr>"
  by (auto simp: on_admin_def split: prod.splits dest!: io_call_ok)

lemma find_some: "List.find p xs = Some x \<Longrightarrow> x \<in> set xs \<and> p x"
  by (auto simp: find_Some_iff)

lemma get_request_reads: "get_request E ev rid c = (x, c') \<Longrightarrow> fst c' = fst c"
  using io_call_pure [of "sql_find_request E ev rid" SqlFailure c]
  by (auto simp: get_request_def sql_find_request_def split: prod.splits sum.splits option.splits)

lemma sql_find_request_ok:
  assumes "io_call SqlFailure (sql_find_request E ev rid) c = (Inr (Some r), c')"
  obtains r0 where "List.find (\<lambda>x. iq_id x = rid \<and> iq_event_id x = ev) (au_requests (fst c)) = Some r0"
    "r0 \<in> set (au_requests (fst c))" "iq_id r0 = rid" "iq_event_id r0 = ev" "r = read_request E r0" "fst c' = fst c"
proof -
  let ?p = "\<lambda>x. iq_id x = rid \<and> iq_event_id x = ev"
  have f: "sql_find_request E ev rid (fst c) = (Inr (Some r), fst c')" by (rule io_call_ok [OF assms])
  show thesis
  proof (cases "List.find ?p (au_requests (fst c))")
    case None
    with f show thesis by (simp add: sql_find_request_def)
  next
    case (Some r0)
    have "r0 \<in> set (au_requests (fst c))" "iq_id r0 = rid" "iq_event_id r0 = ev"
      using find_some [OF Some] by simp_all
    moreover have "r = read_request E r0" "fst c' = fst c" using f Some by (simp_all add: sql_find_request_def)
    ultimately show thesis by (rule that [OF Some])
  qed
qed

lemma get_request_found:
  "get_request E ev rid c = (Inr r, c') \<Longrightarrow> io_call SqlFailure (sql_find_request E ev rid) c = (Inr (Some r), c')"
  by (auto simp: get_request_def split: prod.splits sum.splits option.splits)

lemmas get_request_ok = sql_find_request_ok [OF get_request_found]

lemma read_request_sel [simp]:
  "iq_id (read_request E r) = iq_id r" "iq_event_id (read_request E r) = iq_event_id r"
  "iq_requester (read_request E r) = iq_requester r" "iq_subject (read_request E r) = iq_subject r"
  "iq_approver (read_request E r) = iq_approver r" "iq_target_type (read_request E r) = iq_target_type r"
  "iq_target_id (read_request E r) = iq_target_id r" "iq_status (read_request E r) = iq_status r"
  "iq_reason_id (read_request E r) = iq_reason_id r" "iq_version (read_request E r) = iq_version r"
  "iq_expires_at (read_request E r) = iq_expires_at r" "iq_terminal_at (read_request E r) = iq_terminal_at r"
  "set (iq_fields (read_request E r)) = set (iq_fields r)" "length (iq_fields (read_request E r)) = length (iq_fields r)"
  by (simp_all add: read_request_def)

lemma record_access_mutation_ok:
  "record_access_mutation a t ev k i c = (Inr x, c') \<Longrightarrow>
     fst c' = (fst c)\<lparr>au_events := au_events (fst c) @ [access_event a t ev k i]\<rparr>"
  by (auto simp: record_access_mutation_def sql_insert_authority_event_def split: if_splits prod.splits sum.splits
      dest!: io_call_ok)

section \<open>What is read again inside the transaction\<close>

definition active_actor :: "authority_db \<Rightarrow> user_id \<Rightarrow> event_id \<Rightarrow> bool" where
  "active_actor db u ev \<longleftrightarrow> (\<exists>e\<in>set (ad_registry (au_admin db)). rv_event_id e = ev \<and> rv_enabled e)
     \<and> ad_users (au_admin db) u = Some ''active''
     \<and> (ad_employees (au_admin db) u = None \<or> ad_employees (au_admin db) u = Some ''active'')"

definition holds_binding :: "authority_db \<Rightarrow> user_id \<Rightarrow> string \<Rightarrow> int \<Rightarrow> role \<Rightarrow> scope \<Rightarrow> bool" where
  "holds_binding db u bid v ro s \<longleftrightarrow> (\<exists>b\<in>set (ad_bindings (au_admin db)). bd_id b = bid \<and> bd_version b = v \<and> bd_user_id b = u
     \<and> bd_role b = ro \<and> bd_scope b = s \<and> bd_enabled b \<and> bd_disabled_at b = None)"

definition holds_challenge :: "authority_db \<Rightarrow> user_id \<Rightarrow> int \<Rightarrow> bool" where
  "holds_challenge db u v \<longleftrightarrow>
     (\<exists>m. au_challenges db u = Some m \<and> usable_challenge m \<and> ch_credential_version (ct_challenge m) = v)"

definition evidence_holds :: "authority_db \<Rightarrow> user_id \<Rightarrow> event_id \<Rightarrow> authorization_evidence \<Rightarrow> bool" where
  "evidence_holds db u ev z \<longleftrightarrow> active_actor db u ev \<and> holds_challenge db u (az_challenge_version z)
     \<and> holds_binding db u (az_binding_id z) (az_binding_version z) (az_role z)
         (if az_role z = RoleSuperAdmin \<or> az_role z = RoleTopAdmin then system_scope else event_scope ev)
     \<and> az_role z \<in> {RoleSuperAdmin, RoleTopAdmin, RoleSeniorAdmin}"

lemma lock_actor_ok:
  assumes "lock_active_identity_actor u ev c = (Inr x, c')"
  shows "fst c' = fst c \<and> active_actor (fst c) u ev"
proof -
  obtain e c1 where e: "on_admin (io_call ErrRoleInfra (sql_find_event ev)) c = (Inr (Some e), c1)" "rv_enabled e"
    using assms by (auto simp: lock_active_identity_actor_def split: prod.splits sum.splits if_splits option.splits)
  obtain c2 where u: "on_admin (io_call ErrRoleInfra (sql_user_status u)) c1 = (Inr (Some ''active''), c2)"
    using assms e by (auto simp: lock_active_identity_actor_def split: prod.splits sum.splits if_splits)
  obtain m where m: "on_admin (io_call ErrRoleInfra (sql_employee_status u)) c2 = (Inr m, c')" "m = None \<or> m = Some ''active''"
    using assms e u by (auto simp: lock_active_identity_actor_def split: prod.splits sum.splits if_splits)
  note reads = admin_reads(1) [OF e(1)] admin_reads(2) [OF u] admin_reads(3) [OF m(1)]
  with on_admin_io_ok [OF e(1)] on_admin_io_ok [OF u] on_admin_io_ok [OF m(1)] e(2) m(2) show ?thesis
    by (auto simp: active_actor_def sql_find_event_def sql_user_status_def sql_employee_status_def dest: find_some)
qed

lemma sql_challenge_ok: "io_call SqlFailure (sql_challenge u) c = (Inr y, c') \<Longrightarrow>
    y = map_option (\<lambda>m. m\<lparr>ct_challenge := (ct_challenge m)\<lparr>ch_user_id := u\<rparr>\<rparr>) (au_challenges (fst c) u)"
  by (auto simp: sql_challenge_def dest!: io_call_ok)

lemma usable_owner [simp]: "usable_challenge (m\<lparr>ct_challenge := (ct_challenge m)\<lparr>ch_user_id := u\<rparr>\<rparr>) = usable_challenge m"
  by (simp add: usable_challenge_def)

lemma access_revalidate_ok:
  assumes "access_revalidate u ev z c = (Inr x, c')"
  shows "fst c' = fst c \<and> evidence_holds (fst c) u ev z"
proof -
  let ?gov = "az_role z = RoleSuperAdmin \<or> az_role z = RoleTopAdmin"
  let ?s = "if ?gov then system_scope else event_scope ev"
  let ?p = "\<lambda>b. bd_id b = az_binding_id z \<and> bd_user_id b = u \<and> bd_role b = az_role z \<and> bd_scope b = ?s
      \<and> bd_enabled b \<and> bd_disabled_at b = None \<and> bd_version b = az_binding_version z"
  have g: "u \<noteq> []" "ev \<noteq> []" "az_binding_id z \<noteq> []" "0 < az_binding_version z" "0 < az_challenge_version z"
    using assms by (auto simp: access_revalidate_def split: if_split_asm)
  obtain y0 c1 where l0: "lock_active_identity_actor u ev c = (y0, c1)" by (rule prod.exhaust)
  with assms g have "y0 = Inr ()" by (auto simp: access_revalidate_def split: sum.splits)
  with l0 have l: "lock_active_identity_actor u ev c = (Inr (), c1)" by simp
  have ro: "?gov \<or> az_role z = RoleSeniorAdmin"
    using assms g l by (auto simp: access_revalidate_def Let_def split: if_split_asm)
  obtain y c2 where b0: "on_admin (io_call ErrRoleInfra (sql_find_binding ?p)) c1 = (y, c2)" by (rule prod.exhaust)
  have q: "access_revalidate u ev z c = (case (y, c2) of
        (Inl _, c2) \<Rightarrow> (Inl ErrAccessInfra, c2)
      | (Inr None, c2) \<Rightarrow> (Inl ErrAccessForbidden, c2)
      | (Inr (Some b), c2) \<Rightarrow>
     (case io_call SqlFailure (sql_challenge u) c2 of
        (Inl _, c3) \<Rightarrow> (Inl ErrAccessInfra, c3)
      | (Inr m, c3) \<Rightarrow>
          if (case m of None \<Rightarrow> False | Some k \<Rightarrow> usable_challenge k
                \<and> ch_credential_version (ct_challenge k) = az_challenge_version z)
          then (Inr (), c3) else (Inl ErrAccessForbidden, c3)))"
    unfolding b0 [symmetric] using g l ro by (simp add: access_revalidate_def Let_def) blast
  obtain b m where y: "y = Inr (Some b)" and m: "io_call SqlFailure (sql_challenge u) c2 = (Inr m, c')"
    "case m of None \<Rightarrow> False | Some k \<Rightarrow> usable_challenge k \<and> ch_credential_version (ct_challenge k) = az_challenge_version z"
    using assms unfolding q by (auto split: sum.splits option.splits prod.splits if_split_asm)
  have b: "on_admin (io_call ErrRoleInfra (sql_find_binding ?p)) c1 = (Inr (Some b), c2)" using b0 y by simp
  note r = conjunct1 [OF lock_actor_ok [OF l]] admin_reads(4) [OF b] sql_challenge_reads [OF m(1)]
  have "b \<in> set (ad_bindings (au_admin (fst c)))" "?p b"
    using conjunct1 [OF on_admin_io_ok [OF b]] r find_some [of ?p _ b] by (simp_all add: sql_find_binding_def)
  then have "holds_binding (fst c) u (az_binding_id z) (az_binding_version z) (az_role z) ?s"
    unfolding holds_binding_def by blast
  moreover have "holds_challenge (fst c) u (az_challenge_version z)"
    using sql_challenge_ok [OF m(1)] m(2) r by (auto simp: holds_challenge_def split: option.split_asm)
  ultimately show ?thesis using lock_actor_ok [OF l] r ro by (simp add: evidence_holds_def)
qed

lemma current_grant_authorization_ok:
  assumes "current_grant_authorization u ev c = (Inr z, c')"
  shows "fst c' = fst c \<and> evidence_holds (fst c) u ev z \<and> az_role z = RoleSeniorAdmin
    \<and> az_binding_id z \<noteq> [] \<and> 0 < az_binding_version z \<and> 0 < az_challenge_version z"
proof -
  let ?p = "\<lambda>b. bd_user_id b = u \<and> bd_role b = RoleSeniorAdmin \<and> bd_scope b = event_scope ev \<and> bd_enabled b
      \<and> bd_disabled_at b = None"
  have g: "u \<noteq> []" "ev \<noteq> []" using assms by (auto simp: current_grant_authorization_def split: if_split_asm)
  obtain y0 c1 where l0: "lock_active_identity_actor u ev c = (y0, c1)" by (rule prod.exhaust)
  with assms g have "y0 = Inr ()" by (auto simp: current_grant_authorization_def split: sum.splits)
  with l0 have l: "lock_active_identity_actor u ev c = (Inr (), c1)" by simp
  obtain y c2 where b0: "on_admin (io_call ErrRoleInfra (sql_find_binding ?p)) c1 = (y, c2)" by (rule prod.exhaust)
  have q: "current_grant_authorization u ev c = (case (y, c2) of
        (Inl _, c2) \<Rightarrow> (Inl ErrAccessInfra, c2)
      | (Inr None, c2) \<Rightarrow> (Inl ErrAccessForbidden, c2)
      | (Inr (Some b), c2) \<Rightarrow>
     (case io_call SqlFailure (sql_challenge u) c2 of
        (Inl _, c3) \<Rightarrow> (Inl ErrAccessInfra, c3)
      | (Inr None, c3) \<Rightarrow> (Inl ErrAccessForbidden, c3)
      | (Inr (Some m), c3) \<Rightarrow>
          if \<not> usable_challenge m then (Inl ErrAccessForbidden, c3)
          else if bd_id b = [] \<or> bd_version b \<le> 0 \<or> ch_credential_version (ct_challenge m) \<le> 0
          then (Inl ErrAccessForbidden, c3)
          else (Inr \<lparr>az_role = RoleSeniorAdmin, az_binding_id = bd_id b, az_binding_version = bd_version b,
                     az_challenge_version = ch_credential_version (ct_challenge m)\<rparr>, c3)))"
    unfolding b0 [symmetric] using g l by (simp add: current_grant_authorization_def)
  obtain b m where y: "y = Inr (Some b)" and m: "io_call SqlFailure (sql_challenge u) c2 = (Inr (Some m), c')"
      "usable_challenge m" "bd_id b \<noteq> []" "0 < bd_version b" "0 < ch_credential_version (ct_challenge m)"
      "z = \<lparr>az_role = RoleSeniorAdmin, az_binding_id = bd_id b, az_binding_version = bd_version b,
            az_challenge_version = ch_credential_version (ct_challenge m)\<rparr>"
    using assms unfolding q by (auto split: sum.splits option.splits prod.splits if_split_asm)
  have b: "on_admin (io_call ErrRoleInfra (sql_find_binding ?p)) c1 = (Inr (Some b), c2)" using b0 y by simp
  note r = conjunct1 [OF lock_actor_ok [OF l]] admin_reads(4) [OF b] sql_challenge_reads [OF m(1)]
  have "b \<in> set (ad_bindings (au_admin (fst c)))" "?p b"
    using conjunct1 [OF on_admin_io_ok [OF b]] r find_some [of ?p _ b] by (simp_all add: sql_find_binding_def)
  then have "holds_binding (fst c) u (az_binding_id z) (az_binding_version z) (az_role z) (event_scope ev)"
    unfolding holds_binding_def m(6) by auto
  moreover have "holds_challenge (fst c) u (az_challenge_version z)"
    using sql_challenge_ok [OF m(1), symmetric] m(2,6) r by (auto simp: holds_challenge_def)
  moreover have "RoleSeniorAdmin \<noteq> RoleSuperAdmin" "RoleSeniorAdmin \<noteq> RoleTopAdmin"
    by (simp_all add: RoleSeniorAdmin_def RoleSuperAdmin_def RoleTopAdmin_def)
  ultimately show ?thesis using lock_actor_ok [OF l] r m by (simp add: evidence_holds_def)
qed

lemma evidence_holds_outbox: "only_outbox db db' \<Longrightarrow> evidence_holds db' u ev z = evidence_holds db u ev z"
  by (auto simp: only_outbox_def evidence_holds_def active_actor_def holds_binding_def holds_challenge_def)

section \<open>The transaction\<close>

lemma access_transaction_ok:
  assumes "access_transaction S u ev z rcpt replay perform c = (Inr v, c')"
  shows "evidence_holds (fst c) u ev z \<and>
    ((\<exists>res. replay res = Inr v) \<and> only_outbox (fst c) (fst c')
     \<or> (\<exists>c2 stored c3. only_outbox (fst c) (fst c2) \<and> perform c2 = (Inr (v, stored), c3) \<and> only_outbox (fst c3) (fst c')))"
proof -
  obtain c1 where rv: "access_revalidate u ev z c = (Inr (), c1)"
    using assms by (auto simp: access_transaction_def split: prod.splits sum.splits)
  obtain rc rep c2 where rc: "access_create_or_replay (ia_fresh_id S) (iv_now (ia_env S)) rcpt c1 = (Inr (rc, rep), c2)"
    using assms rv by (auto simp: access_transaction_def split: prod.splits sum.splits)
  have o: "only_outbox (fst c) (fst c2)"
    using access_receipt_frames(1) [OF rc] access_revalidate_ok [OF rv] by simp
  show ?thesis
  proof (cases rep)
    case True
    then have "replay (lr_result rc) = Inr v" "c' = c2" using assms rv rc by (auto simp: access_transaction_def)
    with o access_revalidate_ok [OF rv] show ?thesis by blast
  next
    case False
    obtain w stored c3 where p: "perform c2 = (Inr (w, stored), c3)"
      using assms rv rc False by (auto simp: access_transaction_def split: prod.splits sum.splits)
    obtain c4 where d: "access_complete_local (lr_id rc) (lr_version rc) stored (ia_now S) c3 = (Inr (), c4)" "w = v" "c' = c4"
      using assms rv rc False p by (auto simp: access_transaction_def split: prod.splits sum.splits)
    with o p access_receipt_frames(2) [OF d(1)] access_revalidate_ok [OF rv] show ?thesis by blast
  qed
qed

section \<open>The methods\<close>

lemma insert_request_fields_ok:
  assumes "insert_request_fields rid fs c = (Inr x, c')"
  shows "fst c' = (fst c)\<lparr>au_requests := map (\<lambda>r. if iq_id r = rid then r\<lparr>iq_fields := iq_fields r @ fs\<rparr> else r)
      (au_requests (fst c))\<rparr> \<and> set fs \<subseteq> set access_fields"
  using assms
proof (induction fs arbitrary: c)
  case Nil
  then show ?case by (simp cong: if_cong)
next
  case (Cons f fs)
  obtain y c1 where f: "io_call SqlFailure (sql_insert_request_field rid f) c = (Inr y, c1)"
    and rest: "insert_request_fields rid fs c1 = (Inr x, c')"
    using Cons.prems by (auto split: prod.splits sum.splits)
  from io_call_ok [OF f] have "f \<in> set access_fields"
    "fst c1 = (fst c)\<lparr>au_requests := map (\<lambda>r. if iq_id r = rid then r\<lparr>iq_fields := iq_fields r @ [f]\<rparr> else r)
       (au_requests (fst c))\<rparr>"
    by (auto simp: sql_insert_request_field_def split: if_split_asm)
  with Cons.IH [OF rest] show ?case by (auto simp: comp_def)
qed

lemma insert_grant_fields_ok:
  assumes "insert_grant_fields gid fs c = (Inr x, c')"
  shows "fst c' = (fst c)\<lparr>au_grants := map (\<lambda>g. if ig_id g = gid then g\<lparr>ig_fields := ig_fields g @ fs\<rparr> else g)
      (au_grants (fst c))\<rparr> \<and> set fs \<subseteq> set access_fields"
  using assms
proof (induction fs arbitrary: c)
  case Nil
  then show ?case by (simp cong: if_cong)
next
  case (Cons f fs)
  obtain y c1 where f: "io_call SqlFailure (sql_insert_grant_field gid f) c = (Inr y, c1)"
    and rest: "insert_grant_fields gid fs c1 = (Inr x, c')"
    using Cons.prems by (auto split: prod.splits sum.splits)
  from io_call_ok [OF f] have "f \<in> set access_fields"
    "fst c1 = (fst c)\<lparr>au_grants := map (\<lambda>g. if ig_id g = gid then g\<lparr>ig_fields := ig_fields g @ [f]\<rparr> else g)
       (au_grants (fst c))\<rparr>"
    by (auto simp: sql_insert_grant_field_def split: if_split_asm)
  with Cons.IH [OF rest] show ?case by (auto simp: comp_def)
qed

text \<open>The last row of a table, the only one with its id.\<close>

lemma map_last_row: "\<forall>y\<in>set xs. \<not> p y \<Longrightarrow> p x \<Longrightarrow> map (\<lambda>y. if p y then f y else y) (xs @ [x]) = xs @ [f x]"
  by (auto intro: map_idI)

definition clean_request :: "access_request \<Rightarrow> access_request" where
  "clean_request r = r\<lparr>iq_approver := [], iq_terminal_at := None\<rparr>"

definition new_request_ok :: "access_request list \<Rightarrow> access_request \<Rightarrow> bool" where
  "new_request_ok rs r \<longleftrightarrow> validate_request r = None \<and> request_check r \<and> iq_status r = StatusPending \<and> iq_version r = 1
     \<and> iq_terminal_at r = None \<and> iq_approver r = [] \<and> (\<forall>x\<in>set rs. iq_id x \<noteq> iq_id r \<and> \<not> request_conflict r x)"

lemma request_conflict_fields [simp]:
  "request_conflict (r\<lparr>iq_fields := fs\<rparr>) x = request_conflict r x" "request_conflict r (x\<lparr>iq_fields := fs\<rparr>) = request_conflict r x"
  by (simp_all add: request_conflict_def)

lemma access_create_request_ok:
  assumes "access_create_request r0 z0 audit c = (Inr r, c')"
  shows "r = prepare_request r0 \<and> new_request_ok (au_requests (fst c)) (clean_request r)
    \<and> au_requests (fst c') = au_requests (fst c) @ [clean_request r] \<and> au_grants (fst c') = au_grants (fst c)
    \<and> ad_reasons (au_admin (fst c')) = ad_reasons (au_admin (fst c)) @ [access_reason_row (prepare_reason r z0)]
    \<and> au_challenges (fst c') = au_challenges (fst c)"
proof -
  let ?r = "prepare_request r0" and ?z = "prepare_reason (prepare_request r0) z0"
  have g: "validate_request r0 = None" "iq_id r0 \<noteq> []" "iq_reason_id r0 \<noteq> []" "iq_status r0 = StatusPending" "iq_version r0 = 1"
    "iq_expires_at r0 \<noteq> zero_time" "iq_created_at r0 < iq_expires_at r0"
    using assms by (auto simp: access_create_request_def split: if_split_asm)
  have z: "pz_id ?z = iq_reason_id ?r" "pz_owner ?z = iq_requester ?r" "pz_key_id ?z \<noteq> []" "pz_nonce ?z \<noteq> []"
    "pz_ciphertext ?z \<noteq> []"
    using assms g by (auto simp: access_create_request_def Let_def split: if_split_asm)
  have q: "access_create_request r0 z0 audit c =
     (case io_call SqlFailure (sql_insert_reason (access_reason_row ?z)) c of
        (Inl e, c1) \<Rightarrow> (Inl (conflict_or_infra e), c1)
      | (Inr _, c1) \<Rightarrow>
     (case io_call SqlFailure (sql_insert_request (clean_request ?r)) c1 of
        (Inl e, c2) \<Rightarrow> (Inl (conflict_or_infra e), c2)
      | (Inr _, c2) \<Rightarrow>
     (case insert_request_fields (iq_id ?r) (iq_fields ?r) c2 of
        (Inl e, c3) \<Rightarrow> (Inl e, c3)
      | (Inr _, c3) \<Rightarrow>
     (case record_access_mutation audit ''admin.identity_access.requested'' (iq_event_id ?r) ''identity_access_request''
             (iq_id ?r) c3 of
        (Inl e, c4) \<Rightarrow> (Inl e, c4)
      | (Inr _, c4) \<Rightarrow> (Inr ?r, c4)))))"
    using g z unfolding access_create_request_def clean_request_def Let_def by simp
  obtain c1 where re: "io_call SqlFailure (sql_insert_reason (access_reason_row ?z)) c = (Inr (), c1)"
    using assms unfolding q by (auto split: prod.splits sum.splits)
  obtain c2 where rq: "io_call SqlFailure (sql_insert_request (clean_request ?r)) c1 = (Inr (), c2)"
    using assms unfolding q re by (auto split: prod.splits sum.splits)
  obtain c3 where f: "insert_request_fields (iq_id ?r) (iq_fields ?r) c2 = (Inr (), c3)"
    using assms unfolding q re by (auto simp: rq split: prod.splits sum.splits)
  obtain c4 where a: "record_access_mutation audit ''admin.identity_access.requested'' (iq_event_id ?r) ''identity_access_request''
      (iq_id ?r) c3 = (Inr (), c4)" "r = ?r" "c' = c4"
    using assms unfolding q re by (auto simp: rq f split: prod.splits sum.splits)
  have d1: "fst c1 = (fst c)\<lparr>au_admin := (au_admin (fst c))\<lparr>ad_reasons := ad_reasons (au_admin (fst c)) @ [access_reason_row ?z]\<rparr>\<rparr>"
    using io_call_ok [OF re] by (auto simp: sql_insert_reason_def Let_def split: if_split_asm)
  have d2: "fst c2 = (fst c1)\<lparr>au_requests := au_requests (fst c1) @ [(clean_request ?r)\<lparr>iq_fields := []\<rparr>]\<rparr>"
    "request_check (clean_request ?r)" "\<forall>x\<in>set (au_requests (fst c1)). iq_id x \<noteq> iq_id ?r \<and> \<not> request_conflict (clean_request ?r) x"
    using io_call_ok [OF rq] by (auto simp: sql_insert_request_def clean_request_def split: if_split_asm)
  have "au_requests (fst c3) = au_requests (fst c1) @ [clean_request ?r]"
    using insert_request_fields_ok [OF f] d2
      map_last_row [of "au_requests (fst c1)" "\<lambda>x. iq_id x = iq_id ?r" "(clean_request ?r)\<lparr>iq_fields := []\<rparr>"
        "\<lambda>x. x\<lparr>iq_fields := iq_fields x @ iq_fields ?r\<rparr>"]
    by (simp add: clean_request_def)
  moreover have "au_grants (fst c3) = au_grants (fst c2)" "au_admin (fst c3) = au_admin (fst c2)"
      "au_challenges (fst c3) = au_challenges (fst c2)"
    using insert_request_fields_ok [OF f] by simp_all
  moreover have "validate_request (clean_request ?r) = validate_request r0"
    by (simp add: validate_request_def clean_request_def prepare_request_def)
  moreover have "iq_status (clean_request ?r) = StatusPending" "iq_version (clean_request ?r) = 1"
    "iq_id (clean_request ?r) = iq_id ?r" "iq_terminal_at (clean_request ?r) = None" "iq_approver (clean_request ?r) = []"
    using g by (simp_all add: clean_request_def prepare_request_def)
  ultimately show ?thesis
    using record_access_mutation_ok [OF a(1)] a(2,3) d1 d2 g(1) by (simp add: new_request_ok_def)
qed

lemma insert_grant_ok:
  assumes "insert_grant g c = (Inr x, c')"
  shows "x = g \<and> grant_check g \<and> au_grants (fst c') = au_grants (fst c) @ [g] \<and> au_requests (fst c') = au_requests (fst c)
    \<and> (\<forall>y\<in>set (au_grants (fst c)). ig_id y \<noteq> ig_id g \<and> ig_request_id y \<noteq> ig_request_id g
         \<and> \<not> (claim_is_live y \<and> claim_is_live g \<and> claim_slot y = claim_slot g))
    \<and> au_admin (fst c') = au_admin (fst c) \<and> au_challenges (fst c') = au_challenges (fst c)"
proof -
  obtain c1 where i: "io_call SqlFailure (sql_insert_grant g) c = (Inr (), c1)"
    and f: "insert_grant_fields (ig_id g) (ig_fields g) c1 = (Inr (), c')" and x: "x = g"
    using assms by (auto simp: insert_grant_def split: prod.splits sum.splits)
  have d: "fst c1 = (fst c)\<lparr>au_grants := au_grants (fst c) @ [g\<lparr>ig_fields := []\<rparr>]\<rparr>" "grant_check g"
    "\<forall>y\<in>set (au_grants (fst c)). ig_id y \<noteq> ig_id g \<and> ig_request_id y \<noteq> ig_request_id g
         \<and> \<not> (claim_is_live y \<and> claim_is_live g \<and> claim_slot y = claim_slot g)"
    using io_call_ok [OF i] by (auto simp: sql_insert_grant_def split: if_split_asm)
  have "au_grants (fst c') = au_grants (fst c) @ [g]"
    using insert_grant_fields_ok [OF f] d
      map_last_row [of "au_grants (fst c)" "\<lambda>y. ig_id y = ig_id g" "g\<lparr>ig_fields := []\<rparr>" "\<lambda>y. y\<lparr>ig_fields := ig_fields y @ ig_fields g\<rparr>"]
    by simp
  with insert_grant_fields_ok [OF f] d x show ?thesis by simp
qed

lemma sql_update_requests_ok:
  "sql_update_requests p f db = (Inr n, db') \<Longrightarrow>
     db' = db\<lparr>au_requests := map (\<lambda>r. if p r then f r else r) (au_requests db)\<rparr>
     \<and> list_all request_check (map f (filter p (au_requests db)))"
  by (auto simp: sql_update_requests_def split: if_split_asm)

lemma sql_update_grants_ok:
  "sql_update_grants p f db = (Inr n, db') \<Longrightarrow>
     db' = db\<lparr>au_grants := map (\<lambda>g. if p g then f g else g) (au_grants db)\<rparr>
     \<and> list_all grant_check (map f (filter p (au_grants db)))
     \<and> distinct (map claim_slot (filter claim_is_live (map (\<lambda>g. if p g then f g else g) (au_grants db))))
     \<and> n = length (filter p (au_grants db))"
  by (auto simp: sql_update_grants_def Let_def split: if_split_asm)

text \<open>\<open>decidable\<close> is the WHERE clause of the decision, \<open>decision_time\<close> its time.\<close>

definition decidable :: "string \<Rightarrow> event_id \<Rightarrow> int \<Rightarrow> time \<Rightarrow> access_request \<Rightarrow> bool" where
  "decidable rid ev v at x \<longleftrightarrow> iq_id x = rid \<and> iq_event_id x = ev \<and> iq_version x = v \<and> iq_status x = StatusPending
     \<and> at < iq_expires_at x"

definition timed_decision :: "access_env \<Rightarrow> access_decision \<Rightarrow> access_decision" where
  "timed_decision E d = d\<lparr>dz_decided_at := (if dz_decided_at d = zero_time then iv_now E else dz_decided_at d)\<rparr>"

lemma timed_decision_sel [simp]:
  "dz_approver (timed_decision E d) = dz_approver d" "dz_approved (timed_decision E d) = dz_approved d"
  by (simp_all add: timed_decision_def)

lemma read_grant [simp]: "new_grant E d fds a (read_request E' r) = new_grant E d fds a r"
  by (simp add: new_grant_def)

lemma decision_fields_ok:
  assumes "decision_fields_error E d fds a r = None" "dz_approved d"
  shows "fds \<noteq> [] \<and> distinct fds \<and> set fds \<subseteq> set (iq_fields r) \<and> ga_field_hash a = hash_identity_fields E fds"
  using assms by (auto simp: decision_fields_error_def validate_approved_identity_fields_def all_allowed_iff
      split: if_split_asm option.split_asm)

definition consumed_for :: "string \<Rightarrow> user_id \<Rightarrow> time \<Rightarrow> authority_db \<Rightarrow> bool" where
  "consumed_for rid owner at db \<longleftrightarrow> (\<exists>x\<in>set (ad_reasons (au_admin db)). rr_id x = rid \<and> rr_owner x = owner
     \<and> rr_kind x = identity_access_kind \<and> rr_consumed_at x = Some at \<and> rr_terminal_at x = Some at)"

lemma sql_consume_reason_ok:
  "sql_consume_reason rid owner kind at ex db = (Inr n, db') \<Longrightarrow>
     n = length (filter (\<lambda>x. rr_id x = rid \<and> rr_owner x = owner \<and> rr_kind x = kind \<and> rr_consumed_at x = None
             \<and> rr_terminal_at x = None) (ad_reasons db))
     \<and> ad_reasons db' = map (\<lambda>x. if rr_id x = rid \<and> rr_owner x = owner \<and> rr_kind x = kind \<and> rr_consumed_at x = None
             \<and> rr_terminal_at x = None then consumed_reason at ex x else x) (ad_reasons db)"
  by (auto simp: sql_consume_reason_def Let_def split: if_split_asm)

lemma consume_reason_ok:
  assumes "on_admin (io_call ErrRoleInfra (sql_consume_reason rid owner identity_access_kind at ex)) c = (Inr n, c')" "n = 1"
  shows "consumed_for rid owner at (fst c') \<and> au_requests (fst c') = au_requests (fst c) \<and> au_grants (fst c') = au_grants (fst c)"
proof -
  let ?p = "\<lambda>x. rr_id x = rid \<and> rr_owner x = owner \<and> rr_kind x = identity_access_kind \<and> rr_consumed_at x = None \<and> rr_terminal_at x = None"
  note o = on_admin_io_ok [OF assms(1)]
  have n: "length (filter ?p (ad_reasons (au_admin (fst c)))) = 1"
    and r: "ad_reasons (au_admin (fst c')) = map (\<lambda>x. if ?p x then consumed_reason at ex x else x) (ad_reasons (au_admin (fst c)))"
    using sql_consume_reason_ok [OF conjunct1 [OF o]] assms(2) by simp_all
  obtain pre x post where x: "ad_reasons (au_admin (fst c)) = pre @ x # post" "?p x" by (rule single_match [OF n])
  then have "consumed_reason at ex x \<in> set (ad_reasons (au_admin (fst c')))" using r by simp
  with x(2) have "consumed_for rid owner at (fst c')"
    unfolding consumed_for_def by (intro bexI [of _ "consumed_reason at ex x"]) (simp_all add: consumed_reason_def)
  moreover have "au_requests (fst c') = au_requests (fst c)" "au_grants (fst c') = au_grants (fst c)"
    using arg_cong [OF conjunct2 [OF o], of au_requests] arg_cong [OF conjunct2 [OF o], of au_grants] by simp_all
  ultimately show ?thesis by simp
qed

lemma access_decide_ok:
  assumes "access_decide E ev rid v d0 fds a audit c = (Inr (r', g), c')" and d: "d = timed_decision E d0"
  shows "\<exists>r\<in>set (au_requests (fst c)). List.find (\<lambda>x. iq_id x = rid \<and> iq_event_id x = ev) (au_requests (fst c)) = Some r
    \<and> decidable rid ev v (dz_decided_at d) r \<and> r' = decided_request d (read_request E r)
    \<and> validate_decision r d = None \<and> consumed_for (iq_reason_id r) (iq_requester r) (dz_decided_at d) (fst c')
    \<and> list_all request_check (map (decided_request d) (filter (decidable rid ev v (dz_decided_at d)) (au_requests (fst c))))
    \<and> au_requests (fst c') = map (\<lambda>x. if decidable rid ev v (dz_decided_at d) x then decided_request d x else x) (au_requests (fst c))
    \<and> (if dz_approved d
       then g = Some (new_grant E d fds a r) \<and> grant_check (new_grant E d fds a r)
          \<and> au_grants (fst c') = au_grants (fst c) @ [new_grant E d fds a r]
          \<and> (\<forall>y\<in>set (au_grants (fst c)). ig_id y \<noteq> iv_grant_id E \<and> ig_request_id y \<noteq> iq_id r)
          \<and> fds \<noteq> [] \<and> distinct fds \<and> set fds \<subseteq> set (iq_fields r) \<and> ga_field_hash a = hash_identity_fields E fds
       else g = None \<and> au_grants (fst c') = au_grants (fst c))"
proof -
  let ?at = "dz_decided_at d"
  obtain y c1 where f: "io_call SqlFailure (sql_find_request E ev rid) c = (Inr (Some y), c1)"
    using assms(1) by (auto simp: access_decide_def split: prod.splits sum.splits option.splits)
  obtain r where found: "List.find (\<lambda>x. iq_id x = rid \<and> iq_event_id x = ev) (au_requests (fst c)) = Some r"
    and r: "r \<in> set (au_requests (fst c))" "iq_id r = rid" "iq_event_id r = ev" "y = read_request E r" and fc: "fst c1 = fst c"
    by (rule sql_find_request_ok [OF f])
  note dd = d [unfolded timed_decision_def]
  have g1: "iq_version y = v" "iq_status y = StatusPending" "?at < iq_expires_at y"
    using assms(1) f unfolding access_decide_def Let_def dd by (auto split: if_split_asm)
  then have dec: "decidable rid ev v ?at r" using r by (simp add: decidable_def)
  have g2: "validate_decision y d = None"
    using assms(1) f g1 unfolding access_decide_def Let_def dd by (auto split: option.split_asm)
  have g3: "decision_fields_error E d fds a y = None"
    using assms(1) f g1 g2 unfolding access_decide_def Let_def dd by (auto split: option.split_asm)
  have w: "(\<lambda>x. iq_id x = rid \<and> iq_event_id x = ev \<and> iq_version x = v \<and> iq_status x = StatusPending \<and> ?at < iq_expires_at x)
      = decidable rid ev v ?at"
    by (auto simp: decidable_def)
  have q: "access_decide E ev rid v d0 fds a audit c =
     (case io_call SqlFailure (sql_update_requests (decidable rid ev v ?at) (decided_request d)) c1 of
        (Inl _, c2) \<Rightarrow> (Inl ErrAccessInfra, c2)
      | (Inr n, c2) \<Rightarrow>
          if n = 0 then (Inl ErrAccessConflict, c2)
          else
     (case on_admin (io_call ErrRoleInfra (sql_consume_reason (iq_reason_id y) (iq_requester y) identity_access_kind
             ?at (iv_two_years E ?at))) c2 of
        (Inl _, c3) \<Rightarrow> (Inl ErrAccessInfra, c3)
      | (Inr n, c3) \<Rightarrow>
          if n \<noteq> 1 then (Inl ErrAccessConflict, c3)
          else
     (case record_access_mutation audit ''admin.identity_access.decided'' ev ''identity_access_request'' rid c3 of
        (Inl e, c4) \<Rightarrow> (Inl e, c4)
      | (Inr _, c4) \<Rightarrow>
          if \<not> dz_approved d then (Inr (decided_request d y, None), c4)
          else
     (case insert_grant (new_grant E d fds a y) c4 of
        (Inl e, c5) \<Rightarrow> (Inl e, c5)
      | (Inr g, c5) \<Rightarrow> (Inr (decided_request d y, Some g), c5)))))"
    unfolding w [symmetric] using f g1 g2 g3 unfolding access_decide_def Let_def dd by simp
  obtain n c2 where u: "io_call SqlFailure (sql_update_requests (decidable rid ev v ?at) (decided_request d)) c1 = (Inr n, c2)" "n \<noteq> 0"
    using assms(1) unfolding q by (auto split: prod.splits sum.splits if_split_asm)
  obtain c3 where k: "on_admin (io_call ErrRoleInfra (sql_consume_reason (iq_reason_id y) (iq_requester y) identity_access_kind
             ?at (iv_two_years E ?at))) c2 = (Inr 1, c3)"
    using assms(1) u(2) unfolding q u(1) by (auto split: prod.splits sum.splits if_split_asm)
  obtain c4 where e: "record_access_mutation audit ''admin.identity_access.decided'' ev ''identity_access_request'' rid c3 = (Inr (), c4)"
    using assms(1) u(2) unfolding q u(1) by (auto simp: k split: prod.splits sum.splits)
  have last: "if dz_approved d then \<exists>gr. insert_grant (new_grant E d fds a y) c4 = (Inr gr, c') \<and> g = Some gr else g = None \<and> c' = c4"
    "r' = decided_request d y"
    using assms(1) u(2) unfolding q u(1) by (auto simp: k e split: prod.splits sum.splits if_split_asm)
  have rq: "au_requests (fst c2) = map (\<lambda>x. if decidable rid ev v ?at x then decided_request d x else x) (au_requests (fst c))"
    "au_grants (fst c2) = au_grants (fst c)"
    "list_all request_check (map (decided_request d) (filter (decidable rid ev v ?at) (au_requests (fst c))))"
    using sql_update_requests_ok [OF io_call_ok [OF u(1)]] fc by simp_all
  note cr = consume_reason_ok [OF k refl] and em = record_access_mutation_ok [OF e]
  have c4: "au_requests (fst c4) = au_requests (fst c2)" "au_grants (fst c4) = au_grants (fst c)"
    "consumed_for (iq_reason_id r) (iq_requester r) ?at (fst c4)"
    using cr em rq r(4) by (simp_all add: consumed_for_def)
  have vd: "validate_decision r d = None" using g2 r(4) by (simp add: validate_decision_def)
  show ?thesis
  proof (cases "dz_approved d")
    case True
    obtain gr where gr: "insert_grant (new_grant E d fds a y) c4 = (Inr gr, c')" "g = Some gr" using last(1) True by auto
    have ng: "new_grant E d fds a y = new_grant E d fds a r" using r(4) by simp
    note i = insert_grant_ok [OF gr(1), unfolded ng]
    have s: "ig_id (new_grant E d fds a r) = iv_grant_id E" "ig_request_id (new_grant E d fds a r) = iq_id r"
      by (simp_all add: new_grant_def)
    have "consumed_for (iq_reason_id r) (iq_requester r) ?at (fst c')"
      using c4(3) i by (simp add: consumed_for_def)
    moreover have "set fds \<subseteq> set (iq_fields r)" "fds \<noteq> []" "distinct fds" "ga_field_hash a = hash_identity_fields E fds"
      using decision_fields_ok [OF g3 True] r(4) by simp_all
    ultimately show ?thesis
      using r found dec vd rq c4 i s gr(2) True last(2) by (intro bexI [of _ r]) auto
  next
    case False
    with last have "g = None" "c' = c4" by auto
    with r found dec vd rq c4 False last(2) show ?thesis by (intro bexI [of _ r]) auto
  qed
qed

text \<open>One statement on the grants: the requests stay, and the constraints hold of what it wrote.\<close>

definition regranted :: "(access_grant \<Rightarrow> bool) \<Rightarrow> (access_grant \<Rightarrow> access_grant) \<Rightarrow> authority_db \<Rightarrow> authority_db \<Rightarrow> bool" where
  "regranted p f db db' \<longleftrightarrow> au_requests db' = au_requests db
     \<and> au_grants db' = map (\<lambda>g. if p g then f g else g) (au_grants db)
     \<and> list_all grant_check (map f (filter p (au_grants db)))
     \<and> distinct (map claim_slot (filter claim_is_live (au_grants db')))"

lemma update_grants_regranted:
  "io_call SqlFailure (sql_update_grants p f) c = (Inr n, c') \<Longrightarrow>
     regranted p f (fst c) (fst c') \<and> n = length (filter p (au_grants (fst c)))"
  by (drule io_call_ok, drule sql_update_grants_ok) (simp add: regranted_def)

lemma grant_returning_ok:
  "io_call SqlFailure (sql_update_grant_returning p f) c = (Inr (Some g'), c') \<Longrightarrow>
     regranted p f (fst c) (fst c') \<and> (\<exists>g\<in>set (au_grants (fst c)). p g \<and> g' = f g)"
  by (drule io_call_ok)
     (auto simp: sql_update_grant_returning_def regranted_def filter_eq_Cons_iff
        split: prod.splits sum.splits list.splits dest!: sql_update_grants_ok)

lemma regranted_event [simp]: "regranted p f db (db'\<lparr>au_events := es\<rparr>) = regranted p f db db'"
  by (simp add: regranted_def)

lemma regranted_around:
  assumes "regranted p f db db'" "only_outbox db0 db" "only_outbox db' db1"
  shows "regranted p f db0 db1"
  using assms(1) only_outbox_sel(5,6) [OF assms(2)] only_outbox_sel(5,6) [OF assms(3)] by (clarsimp simp: regranted_def)

lemma access_claim_grant_ok:
  assumes "access_claim_grant E ev gid u v z now audit c = (Inr k, c')"
  shows "\<exists>nonce digest g. new_identity_claim_nonce E = Some (nonce, digest) \<and> g \<in> set (au_grants (fst c))
    \<and> claimable gid ev u v z now g \<and> k = claim_of E ev gid u z nonce (now + seconds 60) (claimed_grant digest now g)
    \<and> cl_field_hash k = hash_identity_fields E (cl_fields k)
    \<and> regranted (claimable gid ev u v z now) (claimed_grant digest now) (fst c) (fst c')"
proof -
  let ?p = "claimable gid ev u v z now"
  obtain nonce digest where n: "new_identity_claim_nonce E = Some (nonce, digest)"
    using assms by (auto simp: access_claim_grant_def split: option.splits)
  let ?f = "claimed_grant digest now"
  obtain g1 c1 where g1: "io_call SqlFailure (sql_update_grant_returning ?p ?f) c = (Inr (Some g1), c1)"
    using assms n by (auto simp: access_claim_grant_def split: prod.splits sum.splits option.splits)
  obtain g where g: "g \<in> set (au_grants (fst c))" "?p g" "g1 = ?f g" and r: "regranted ?p ?f (fst c) (fst c1)"
    using grant_returning_ok [OF g1] by blast
  have lease: "ig_lease_until g1 = Some (now + seconds 60)" using g(3) by (simp add: claimed_grant_def)
  let ?k = "claim_of E ev gid u z nonce (now + seconds 60) g1"
  have h: "cl_field_hash ?k = hash_identity_fields E (cl_fields ?k)"
    using assms n g1 lease by (auto simp: access_claim_grant_def Let_def split: if_split_asm)
  obtain c2 where a: "record_access_mutation audit ''admin.identity_access.claimed'' ev ''identity_access_grant'' gid c1 = (Inr (), c2)"
    "k = ?k" "c' = c2"
    using assms n g1 lease h by (auto simp: access_claim_grant_def Let_def split: prod.splits sum.splits)
  have "regranted ?p ?f (fst c) (fst c')"
    using record_access_mutation_ok [OF a(1)] r a(3) by simp
  with n g a(2) h show ?thesis by (intro exI conjI) auto
qed

lemma access_settle_grant_ok:
  assumes "access_settle_grant E ev gid u v nonce receipt z now audit c = (Inr n, c')"
  shows "\<exists>g\<in>set (au_grants (fst c)). settleable gid ev u (iv_digest E nonce) v z now g \<and> n = ig_version g + 1
    \<and> regranted (settleable gid ev u (iv_digest E nonce) v z now) (settled_grant receipt now) (fst c) (fst c')"
proof -
  let ?p = "settleable gid ev u (iv_digest E nonce) v z now" and ?f = "settled_grant receipt now"
  obtain g1 c1 where g1: "io_call SqlFailure (sql_update_grant_returning ?p ?f) c = (Inr (Some g1), c1)"
    and a: "record_access_mutation audit ''admin.identity_access.settled'' ev ''identity_access_grant'' gid c1 = (Inr (), c')"
    and n: "n = ig_version g1"
    using assms by (auto simp: access_settle_grant_def split: prod.splits sum.splits option.splits)
  obtain g where g: "g \<in> set (au_grants (fst c))" "?p g" "g1 = ?f g" and r: "regranted ?p ?f (fst c) (fst c1)"
    using grant_returning_ok [OF g1] by blast
  have "regranted ?p ?f (fst c) (fst c')"
    using record_access_mutation_ok [OF a] r by simp
  with g n show ?thesis by (intro bexI [of _ g]) (auto simp: settled_grant_def)
qed

lemma access_release_ok:
  assumes "access_release_expired_claim ev gid v audit c = (Inr x, c')"
  shows "\<exists>now. regranted (releasable gid ev v now) (released_grant now) (fst c) (fst c')"
proof -
  let ?now = "ad_now (au_admin (fst c))"
  obtain c1 where u: "io_call SqlFailure (sql_update_grants (releasable gid ev v ?now) (released_grant ?now)) c = (Inr 1, c1)"
    and a: "record_access_mutation audit ''admin.identity_access.claim_released'' ev ''identity_access_grant'' gid c1 = (Inr x, c')"
    using assms by (auto simp: access_release_expired_claim_def Let_def split: prod.splits sum.splits if_split_asm)
  show ?thesis
    using update_grants_regranted [OF u] record_access_mutation_ok [OF a] by auto
qed

lemma access_revoke_ok:
  assumes "access_revoke_for_user E u audit c = (Inr x, c')"
  shows "regranted (\<lambda>g. ig_requester g = u \<and> ig_terminal_at g = None) (revoked_grant (iv_now E)) (fst c) (fst c')"
proof -
  let ?p = "\<lambda>g. ig_requester g = u \<and> ig_terminal_at g = None"
  obtain n c1 where u: "io_call SqlFailure (sql_update_grants ?p (revoked_grant (iv_now E))) c = (Inr n, c1)"
    and a: "record_access_mutation audit ''admin.identity_access.revoked'' ''system'' ''identity_access_principal'' u c1 = (Inr x, c')"
    using assms by (auto simp: access_revoke_for_user_def split: prod.splits sum.splits)
  show ?thesis
    using update_grants_regranted [OF u] record_access_mutation_ok [OF a] by simp
qed

text \<open>The committed decision on a request.\<close>

definition decision_effect ::
  "access_env \<Rightarrow> access_decision \<Rightarrow> string list \<Rightarrow> grant_authorization \<Rightarrow> access_request \<Rightarrow> authority_db \<Rightarrow> authority_db \<Rightarrow> bool" where
  "decision_effect E d fds a r db db' \<longleftrightarrow>
     r \<in> set (au_requests db) \<and> iq_status r = StatusPending \<and> dz_decided_at d < iq_expires_at r
     \<and> validate_decision r d = None \<and> consumed_for (iq_reason_id r) (iq_requester r) (dz_decided_at d) db'
     \<and> list_all request_check (map (decided_request d)
         (filter (decidable (iq_id r) (iq_event_id r) (iq_version r) (dz_decided_at d)) (au_requests db)))
     \<and> au_requests db' = map (\<lambda>x. if decidable (iq_id r) (iq_event_id r) (iq_version r) (dz_decided_at d) x
         then decided_request d x else x) (au_requests db)
     \<and> (if dz_approved d
        then grant_check (new_grant E d fds a r) \<and> au_grants db' = au_grants db @ [new_grant E d fds a r]
          \<and> (\<forall>y\<in>set (au_grants db). ig_id y \<noteq> iv_grant_id E \<and> ig_request_id y \<noteq> iq_id r)
          \<and> fds \<noteq> [] \<and> distinct fds \<and> set fds \<subseteq> set (iq_fields r) \<and> ga_field_hash a = hash_identity_fields E fds
        else au_grants db' = au_grants db)"

lemma decision_effect_around:
  assumes "decision_effect E d fds a r db db'" "only_outbox db0 db" "only_outbox db' db1"
  shows "decision_effect E d fds a r db0 db1"
proof -
  have "consumed_for i u at db1 = consumed_for i u at db'" for i u at
    using assms(3) by (auto simp: only_outbox_def consumed_for_def)
  then show ?thesis
    using assms(1) only_outbox_sel(5,6) [OF assms(2)] only_outbox_sel(5,6) [OF assms(3)]
    by (simp add: decision_effect_def split: if_splits)
qed

lemma access_decide_effect:
  assumes "access_decide E ev rid v d0 fds a audit c = (Inr (r', g), c')" and d: "d = timed_decision E d0"
  shows "\<exists>r. List.find (\<lambda>x. iq_id x = rid \<and> iq_event_id x = ev) (au_requests (fst c)) = Some r
    \<and> iq_id r = rid \<and> iq_event_id r = ev \<and> iq_version r = v \<and> decision_effect E d fds a r (fst c) (fst c')
    \<and> r' = decided_request d (read_request E r) \<and> g = (if dz_approved d then Some (new_grant E d fds a r) else None)"
proof -
  obtain r where "r \<in> set (au_requests (fst c))" "decidable rid ev v (dz_decided_at d) r"
    and found: "List.find (\<lambda>x. iq_id x = rid \<and> iq_event_id x = ev) (au_requests (fst c)) = Some r" and
    rest: "r' = decided_request d (read_request E r)" "validate_decision r d = None"
    "consumed_for (iq_reason_id r) (iq_requester r) (dz_decided_at d) (fst c')"
    "list_all request_check (map (decided_request d) (filter (decidable rid ev v (dz_decided_at d)) (au_requests (fst c))))"
    "au_requests (fst c') = map (\<lambda>x. if decidable rid ev v (dz_decided_at d) x then decided_request d x else x) (au_requests (fst c))"
    "if dz_approved d
       then g = Some (new_grant E d fds a r) \<and> grant_check (new_grant E d fds a r)
          \<and> au_grants (fst c') = au_grants (fst c) @ [new_grant E d fds a r]
          \<and> (\<forall>y\<in>set (au_grants (fst c)). ig_id y \<noteq> iv_grant_id E \<and> ig_request_id y \<noteq> iq_id r)
          \<and> fds \<noteq> [] \<and> distinct fds \<and> set fds \<subseteq> set (iq_fields r) \<and> ga_field_hash a = hash_identity_fields E fds
       else g = None \<and> au_grants (fst c') = au_grants (fst c)"
    using access_decide_ok [OF assms] by blast
  moreover from this(2) have k: "rid = iq_id r" "ev = iq_event_id r" "v = iq_version r" "iq_status r = StatusPending"
    "dz_decided_at d < iq_expires_at r"
    by (simp_all add: decidable_def)
  ultimately have "decision_effect E d fds a r (fst c) (fst c')"
    unfolding decision_effect_def by (simp split: if_splits)
  with k found rest(1,6) show ?thesis by (intro exI [of _ r]) (simp split: if_splits)
qed

lemma perform_decide_ok:
  assumes "perform_decide S i fds z c = (Inr (x, stored), c')"
  shows "\<exists>r za. iq_id r = trim_space (di_request i) \<and> iq_event_id r = trim_space (di_event i) \<and> iq_version r = di_expected i
    \<and> ia_now S < iq_expires_at r
    \<and> validate_step_up (di_step_up i) (di_actor i) (iq_id r) (az_challenge_version z) (ia_now S) = None
    \<and> evidence_holds (fst c) (iq_requester r) (iq_event_id r) za \<and> az_role za = RoleSeniorAdmin
    \<and> 0 < az_challenge_version za
    \<and> decision_effect (ia_env S) (timed_decision (ia_env S) (access_decision_of S i (iq_id r))) fds
        \<lparr>ga_binding_id = az_binding_id za, ga_binding_version = az_binding_version za,
         ga_challenge_version = az_challenge_version za, ga_field_hash = field_set_hash S fds\<rparr> r (fst c) (fst c')
    \<and> \<not> dr_replayed x \<and> dr_request x = decided_request (timed_decision (ia_env S) (access_decision_of S i (iq_id r))) (read_request (ia_env S) r)"
proof -
  let ?ev = "trim_space (di_event i)" and ?rid = "trim_space (di_request i)" and ?now = "ia_now S"
  let ?d0 = "access_decision_of S i ?rid"
  obtain y c1 where y: "get_request (ia_env S) ?ev ?rid c = (Inr y, c1)"
    using assms by (auto simp: perform_decide_def Let_def split: prod.splits sum.splits)
  obtain r0 where found0: "List.find (\<lambda>x. iq_id x = ?rid \<and> iq_event_id x = ?ev) (au_requests (fst c)) = Some r0"
    and r0: "r0 \<in> set (au_requests (fst c))" "iq_id r0 = ?rid" "iq_event_id r0 = ?ev" "y = read_request (ia_env S) r0"
    and c1: "fst c1 = fst c"
    by (rule get_request_ok [OF y])
  have yid: "iq_id y = ?rid" using r0 by simp
  have g1: "iq_status y = StatusPending" "iq_version y = di_expected i" "?now < iq_expires_at y"
    using assms y unfolding perform_decide_def Let_def by (auto split: if_split_asm)
  have g2: "validate_decision y ?d0 = None"
    using assms y g1 yid unfolding perform_decide_def Let_def by (auto split: option.split_asm)
  have g3: "validate_step_up (di_step_up i) (di_actor i) ?rid (az_challenge_version z) ?now = None"
    using assms y g1 g2 yid unfolding perform_decide_def Let_def by (auto split: option.split_asm)
  have g4: "\<not> (di_approved i \<and> \<not> field_subset fds (iq_fields y))"
    using assms y g1 g2 g3 yid unfolding perform_decide_def Let_def by (auto split: if_split_asm)
  let ?ga = "\<lambda>za. \<lparr>ga_binding_id = az_binding_id za, ga_binding_version = az_binding_version za,
         ga_challenge_version = az_challenge_version za, ga_field_hash = field_set_hash S fds\<rparr>"
  let ?au = "access_audit_of (di_actor i) (di_correlation i) ActionIdentityAccessApprove"
  have q0: "perform_decide S i fds z c =
     (case current_grant_authorization (iq_requester y) ?ev c1 of
        (Inl _, c2) \<Rightarrow> (Inl ErrAccessForbidden, c2)
      | (Inr za, c2) \<Rightarrow>
          if az_role za \<noteq> RoleSeniorAdmin then (Inl ErrAccessForbidden, c2)
          else
     (case access_decide (ia_env S) ?ev (iq_id y) (di_expected i) (access_decision_of S i (iq_id y)) fds (?ga za) ?au c2 of
        (Inl e, c3) \<Rightarrow> (Inl e, c3)
      | (Inr (r', g), c3) \<Rightarrow>
          (Inr (\<lparr>dr_request = r', dr_grant = g, dr_replayed = False\<rparr>, encode_decision_result (access_digest S) r' g), c3)))"
    unfolding perform_decide_def Let_def using y g1 g2 [folded yid] g3 g4 by simp blast
  note q = q0 [unfolded yid]
  obtain za c2 where za: "current_grant_authorization (iq_requester y) ?ev c1 = (Inr za, c2)" "az_role za = RoleSeniorAdmin"
    using assms unfolding q by (auto split: prod.splits sum.splits if_split_asm)
  obtain r' g where d: "access_decide (ia_env S) ?ev ?rid (di_expected i) ?d0 fds (?ga za) ?au c2 = (Inr (r', g), c')"
    "x = \<lparr>dr_request = r', dr_grant = g, dr_replayed = False\<rparr>"
    using assms za(2) unfolding q za(1) by (auto split: prod.splits sum.splits)
  have e: "fst c2 = fst c" "evidence_holds (fst c) (iq_requester y) ?ev za" "0 < az_challenge_version za"
    using current_grant_authorization_ok [OF za(1)] c1 by simp_all
  obtain r where found: "List.find (\<lambda>x. iq_id x = ?rid \<and> iq_event_id x = ?ev) (au_requests (fst c)) = Some r"
    and r: "iq_id r = ?rid" "iq_event_id r = ?ev" "iq_version r = di_expected i"
    "decision_effect (ia_env S) (timed_decision (ia_env S) ?d0) fds (?ga za) r (fst c) (fst c')"
    "r' = decided_request (timed_decision (ia_env S) ?d0) (read_request (ia_env S) r)"
    using access_decide_effect [OF d(1) refl] e(1) by auto
  have "r = r0" using found found0 by simp
  with r r0 g1 g3 e za(2) d(2) show ?thesis by (intro exI [of _ r] exI [of _ za]) simp
qed

end
