(* ===== verification/IdentityLedger.thy ===== *)
theory IdentityLedger
  imports IdentityEffects
begin

text \<open>
  The mutations of restricted identity access as steps of the ledger of requests and grants, and
  what holds of the ledger after any history of them: who decides, what grants stem from, and
  the life of a grant.
\<close>

section \<open>Committed mutations\<close>

lemma access_transaction_split:
  assumes "access_transaction S u ev z rcpt replay perform c = (Inr v, c')"
    and "\<And>res. replay res = Inr v \<Longrightarrow> R" and "\<And>d1 stored d2. perform d1 = (Inr (v, stored), d2) \<Longrightarrow> \<not> R"
  shows "evidence_holds (fst c) u ev z" and "R \<Longrightarrow> only_outbox (fst c) (fst c')"
    and "\<not> R \<Longrightarrow> \<exists>d1 stored d2. only_outbox (fst c) (fst d1) \<and> perform d1 = (Inr (v, stored), d2) \<and> only_outbox (fst d2) (fst c')"
  using access_transaction_ok [OF assms(1)] assms(2,3) by metis+

lemma create_body:
  assumes "access_transaction S u ev z rcpt (replay_create S) (perform_create S i fds subject rid reason_id sealed) c = (Inr x, c')"
  shows "if cr_replayed x then only_outbox (fst c) (fst c')
    else cr_request x = new_access_request S i fds subject rid reason_id
      \<and> new_request_ok (au_requests (fst c)) (new_access_request S i fds subject rid reason_id)
      \<and> au_requests (fst c') = au_requests (fst c) @ [new_access_request S i fds subject rid reason_id]
      \<and> au_grants (fst c') = au_grants (fst c) \<and> au_challenges (fst c') = au_challenges (fst c)"
proof -
  let ?r = "new_access_request S i fds subject rid reason_id"
  have cl: "clean_request (prepare_request ?r) = ?r" "prepare_request ?r = ?r"
    by (simp_all add: clean_request_def prepare_request_def new_access_request_def)
  have rp: "cr_replayed x" if "replay_create S res = Inr x" for res
    using that by (auto simp: replay_create_def split: sum.splits)
  have np: "\<not> cr_replayed x \<and> cr_request x = ?r \<and> new_request_ok (au_requests (fst d1)) ?r
      \<and> au_requests (fst d2) = au_requests (fst d1) @ [?r] \<and> au_grants (fst d2) = au_grants (fst d1)
      \<and> au_challenges (fst d2) = au_challenges (fst d1)"
    if p: "perform_create S i fds subject rid reason_id sealed d1 = (Inr (x, stored), d2)" for d1 stored d2
  proof -
    obtain r where r: "access_create_request ?r \<lparr>pz_id = reason_id, pz_owner = ci_actor i, pz_key_id = ev_key_id sealed,
          pz_nonce = ev_nonce sealed, pz_ciphertext = ev_ciphertext sealed, pz_created_at = ia_now S\<rparr>
         (access_audit_of (ci_actor i) (ci_correlation i) ActionIdentityAccessRequest) d1 = (Inr r, d2)" "\<not> cr_replayed x"
        "cr_request x = r"
      using p by (auto simp: perform_create_def split: prod.splits sum.splits)
    then show ?thesis using access_create_request_ok [OF r(1)] cl by auto
  qed
  have nr: "\<not> cr_replayed x" if "perform_create S i fds subject rid reason_id sealed d1 = (Inr (x, stored), d2)" for d1 stored d2
    using np [OF that] by simp
  note sp = access_transaction_split [OF assms, where R = "cr_replayed x"]
  show ?thesis
  proof (cases "cr_replayed x")
    case True
    have "only_outbox (fst c) (fst c')" by (rule sp(2), erule rp, erule nr, rule True)
    with True show ?thesis by simp
  next
    case False
    have "\<exists>d1 stored d2. only_outbox (fst c) (fst d1) \<and> perform_create S i fds subject rid reason_id sealed d1 = (Inr (x, stored), d2)
        \<and> only_outbox (fst d2) (fst c')"
      by (rule sp(3), erule rp, erule nr, rule False)
    then obtain d1 stored d2 where d: "only_outbox (fst c) (fst d1)"
      "perform_create S i fds subject rid reason_id sealed d1 = (Inr (x, stored), d2)" "only_outbox (fst d2) (fst c')" by blast
    have "au_challenges (fst d1) = au_challenges (fst c)" "au_challenges (fst c') = au_challenges (fst d2)"
      using d(1,3) by (auto simp: only_outbox_def)
    with False np [OF d(2)] only_outbox_sel(5,6) [OF d(1)] only_outbox_sel(5,6) [OF d(3)] show ?thesis by simp
  qed
qed

lemma decide_body:
  assumes "access_transaction S u ev z rcpt (replay_decide S) (perform_decide S i fds z) c = (Inr x, c')"
  shows "evidence_holds (fst c) u ev z \<and>
    (if dr_replayed x then only_outbox (fst c) (fst c')
     else \<exists>c1 stored c2. only_outbox (fst c) (fst c1) \<and> perform_decide S i fds z c1 = (Inr (x, stored), c2)
       \<and> only_outbox (fst c2) (fst c'))"
proof -
  have rp: "dr_replayed x" if "replay_decide S res = Inr x" for res
    using that by (auto simp: replay_decide_def split: sum.splits)
  have np: "\<not> dr_replayed x" if "perform_decide S i fds z d1 = (Inr (x, stored), d2)" for d1 stored d2
    using perform_decide_ok [OF that] by blast
  note sp = access_transaction_split [OF assms, where R = "dr_replayed x"]
  have e: "evidence_holds (fst c) u ev z" by (rule sp(1), erule rp, erule np)
  show ?thesis
  proof (cases "dr_replayed x")
    case True
    have "only_outbox (fst c) (fst c')" by (rule sp(2), erule rp, erule np, rule True)
    with e True show ?thesis by simp
  next
    case False
    have "\<exists>d1 stored d2. only_outbox (fst c) (fst d1) \<and> perform_decide S i fds z d1 = (Inr (x, stored), d2)
        \<and> only_outbox (fst d2) (fst c')"
      by (rule sp(3), erule rp, erule np, rule False)
    with e False show ?thesis by simp
  qed
qed

lemma claim_body:
  assumes "access_transaction S u ev z rcpt (replay_claim S) (perform_claim S i z) c = (Inr x, c')"
  shows "evidence_holds (fst c) u ev z \<and>
    (if mr_replayed x then only_outbox (fst c) (fst c')
     else \<exists>nonce digest g. new_identity_claim_nonce (ia_env S) = Some (nonce, digest) \<and> g \<in> set (au_grants (fst c))
      \<and> claimable (trim_space (mi_grant i)) (trim_space (mi_event i)) (mi_actor i) (mi_expected i) z (ia_now S) g
      \<and> mr_claim x = claim_of (ia_env S) (trim_space (mi_event i)) (trim_space (mi_grant i)) (mi_actor i) z nonce
           (ia_now S + seconds 60) (claimed_grant digest (ia_now S) g)
      \<and> regranted (claimable (trim_space (mi_grant i)) (trim_space (mi_event i)) (mi_actor i) (mi_expected i) z (ia_now S))
           (claimed_grant digest (ia_now S)) (fst c) (fst c'))"
proof -
  let ?ev = "trim_space (mi_event i)" and ?gid = "trim_space (mi_grant i)"
  have rp: "mr_replayed x" if "replay_claim S res = Inr x" for res
    using that by (auto simp: replay_claim_def split: sum.splits)
  have np: "\<exists>k. access_claim_grant (ia_env S) ?ev ?gid (mi_actor i) (mi_expected i) z (ia_now S)
       (access_audit_of (mi_actor i) (mi_correlation i) ActionIdentityGrantConsume) d1 = (Inr k, d2)
       \<and> x = \<lparr>mr_claim = k, mr_replayed = False\<rparr>" if "perform_claim S i z d1 = (Inr (x, stored), d2)" for d1 stored d2
    using that by (auto simp: perform_claim_def split: prod.splits sum.splits if_split_asm)
  have nr: "\<not> mr_replayed x" if "perform_claim S i z d1 = (Inr (x, stored), d2)" for d1 stored d2 using np [OF that] by auto
  note sp = access_transaction_split [OF assms, where R = "mr_replayed x"]
  show ?thesis
  proof (cases "mr_replayed x")
    case True
    have "evidence_holds (fst c) u ev z" by (rule sp(1), erule rp, erule nr)
    moreover have "only_outbox (fst c) (fst c')" by (rule sp(2), erule rp, erule nr, rule True)
    ultimately show ?thesis using True by simp
  next
    case False
    have e: "evidence_holds (fst c) u ev z" by (rule sp(1), erule rp, erule nr)
    have "\<exists>d1 stored d2. only_outbox (fst c) (fst d1) \<and> perform_claim S i z d1 = (Inr (x, stored), d2) \<and> only_outbox (fst d2) (fst c')"
      by (rule sp(3), erule rp, erule nr, rule False)
    then obtain d1 stored d2 where d: "only_outbox (fst c) (fst d1)" "perform_claim S i z d1 = (Inr (x, stored), d2)"
      "only_outbox (fst d2) (fst c')" by blast
    obtain k where k: "access_claim_grant (ia_env S) ?ev ?gid (mi_actor i) (mi_expected i) z (ia_now S)
       (access_audit_of (mi_actor i) (mi_correlation i) ActionIdentityGrantConsume) d1 = (Inr k, d2)" "mr_claim x = k"
      using np [OF d(2)] by auto
    from access_claim_grant_ok [OF k(1)] regranted_around [OF _ d(1,3)] only_outbox_sel(6) [OF d(1)] k(2)
    have "\<exists>nonce digest g. new_identity_claim_nonce (ia_env S) = Some (nonce, digest) \<and> g \<in> set (au_grants (fst c))
      \<and> claimable ?gid ?ev (mi_actor i) (mi_expected i) z (ia_now S) g
      \<and> mr_claim x = claim_of (ia_env S) ?ev ?gid (mi_actor i) z nonce (ia_now S + seconds 60) (claimed_grant digest (ia_now S) g)
      \<and> regranted (claimable ?gid ?ev (mi_actor i) (mi_expected i) z (ia_now S)) (claimed_grant digest (ia_now S)) (fst c) (fst c')"
      by metis
    with e False show ?thesis by simp
  qed
qed

lemma settle_body:
  assumes "access_transaction S u ev z rcpt (replay_settle S) (perform_settle S i z) c = (Inr x, c')"
  shows "evidence_holds (fst c) u ev z \<and>
    (if sr_replayed x then only_outbox (fst c) (fst c')
     else \<exists>g\<in>set (au_grants (fst c)). settleable (trim_space (si_grant i)) (trim_space (si_event i)) (si_actor i)
        (access_digest S (si_nonce i)) (si_expected i) z (ia_now S) g \<and> sr_version x = ig_version g + 1
      \<and> regranted (settleable (trim_space (si_grant i)) (trim_space (si_event i)) (si_actor i)
        (access_digest S (si_nonce i)) (si_expected i) z (ia_now S)) (settled_grant (si_receipt i) (ia_now S)) (fst c) (fst c'))"
proof -
  let ?ev = "trim_space (si_event i)" and ?gid = "trim_space (si_grant i)"
  let ?p = "settleable ?gid ?ev (si_actor i) (access_digest S (si_nonce i)) (si_expected i) z (ia_now S)"
  have rp: "sr_replayed x" if "replay_settle S res = Inr x" for res
    using that by (auto simp: replay_settle_def split: sum.splits)
  have np: "\<exists>v. access_settle_grant (ia_env S) ?ev ?gid (si_actor i) (si_expected i) (si_nonce i) (si_receipt i) z (ia_now S)
       (access_audit_of (si_actor i) (si_correlation i) ActionIdentityGrantConsume) d1 = (Inr v, d2)
       \<and> x = \<lparr>sr_grant = ?gid, sr_version = v, sr_replayed = False\<rparr>" if "perform_settle S i z d1 = (Inr (x, stored), d2)" for d1 stored d2
    using that by (auto simp: perform_settle_def Let_def split: prod.splits sum.splits)
  have nr: "\<not> sr_replayed x" if "perform_settle S i z d1 = (Inr (x, stored), d2)" for d1 stored d2 using np [OF that] by auto
  note sp = access_transaction_split [OF assms, where R = "sr_replayed x"]
  have e: "evidence_holds (fst c) u ev z" by (rule sp(1), erule rp, erule nr)
  show ?thesis
  proof (cases "sr_replayed x")
    case True
    have "only_outbox (fst c) (fst c')" by (rule sp(2), erule rp, erule nr, rule True)
    with e True show ?thesis by simp
  next
    case False
    have "\<exists>d1 stored d2. only_outbox (fst c) (fst d1) \<and> perform_settle S i z d1 = (Inr (x, stored), d2) \<and> only_outbox (fst d2) (fst c')"
      by (rule sp(3), erule rp, erule nr, rule False)
    then obtain d1 stored d2 where d: "only_outbox (fst c) (fst d1)" "perform_settle S i z d1 = (Inr (x, stored), d2)"
      "only_outbox (fst d2) (fst c')" by blast
    obtain v where v: "access_settle_grant (ia_env S) ?ev ?gid (si_actor i) (si_expected i) (si_nonce i) (si_receipt i) z (ia_now S)
       (access_audit_of (si_actor i) (si_correlation i) ActionIdentityGrantConsume) d1 = (Inr v, d2)" "sr_version x = v"
      using np [OF d(2)] by auto
    from access_settle_grant_ok [OF v(1)] regranted_around [OF _ d(1,3)] only_outbox_sel(6) [OF d(1)] v(2)
    have "\<exists>g\<in>set (au_grants (fst c)). ?p g \<and> sr_version x = ig_version g + 1
      \<and> regranted ?p (settled_grant (si_receipt i) (ia_now S)) (fst c) (fst c')"
      by (metis access_digest_def)
    with e False show ?thesis by simp
  qed
qed

text \<open>Every mutation is refused with nothing changed, or is one transaction.\<close>

lemma access_create_shape:
  "(\<exists>e. create_access_request S i c = (Inl e, c))
   \<or> (\<exists>fds subject z rcpt rid reason_id sealed. normalize_fields (ci_fields i) = Inr fds \<and> subject \<noteq> ci_actor i
      \<and> create_access_request S i c = tx_run ErrAccessInfra (access_transaction S (ci_actor i) (trim_space (ci_event i)) z rcpt
          (replay_create S) (perform_create S i fds subject rid reason_id sealed)) c)"
  by (auto simp: create_access_request_def Let_def split: sum.splits option.splits prod.splits) blast

lemma access_decide_shape:
  "(\<exists>e. decide_access_request S i c = (Inl e, c))
   \<or> (\<exists>fds z rcpt. decided_fields i = Inr fds
      \<and> access_authorize S (di_actor i) ActionIdentityAccessApprove (access_resource ''identity_access_request''
          (trim_space (di_request i)) (trim_space (di_event i))) RoleSuperAdmin = Inr z
      \<and> decide_access_request S i c = tx_run ErrAccessInfra (access_transaction S (di_actor i) (trim_space (di_event i)) z rcpt
          (replay_decide S) (perform_decide S i fds z)) c)"
  by (auto simp: decide_access_request_def Let_def split: sum.splits option.splits)

lemma access_claim_shape:
  "(\<exists>e. claim_access_grant S i c = (Inl e, c))
   \<or> (\<exists>z rcpt. access_authorize S (mi_actor i) ActionIdentityGrantConsume (access_resource ''identity_access_grant''
          (trim_space (mi_grant i)) (trim_space (mi_event i))) RoleSeniorAdmin = Inr z
      \<and> claim_access_grant S i c = tx_run ErrAccessInfra (access_transaction S (mi_actor i) (trim_space (mi_event i)) z rcpt
          (replay_claim S) (perform_claim S i z)) c)"
  by (auto simp: claim_access_grant_def Let_def split: sum.splits option.splits)

lemma access_settle_shape:
  "(\<exists>e. settle_access_grant S i c = (Inl e, c))
   \<or> (\<exists>z rcpt. settle_access_grant S i c = tx_run ErrAccessInfra (access_transaction S (si_actor i) (trim_space (si_event i)) z rcpt
          (replay_settle S) (perform_settle S i z)) c)"
  by (auto simp: settle_access_grant_def Let_def split: sum.splits option.splits)

section \<open>The ledger as a step relation\<close>

text \<open>
  The operations that change the ledger: the four mutations of the service, the release and the
  revocation of the repository, and the revocation on a security rotation, each in a transaction.
  Between them the rest of the database goes its own way: \<open>OpElsewhere\<close> puts any content into all
  other tables and any time on the database clock.
\<close>

datatype access_op =
  OpRequest access_service create_request_input
  | OpDecide access_service decide_input
  | OpClaim access_service claim_input
  | OpSettle access_service settle_input
  | OpReleaseClaim event_id string int access_audit
  | OpRevokeUser access_env user_id access_audit
  | OpSecurityRotation user_id time
  | OpElsewhere authority_db

fun access_run :: "access_op \<Rightarrow> authority_conn \<Rightarrow> authority_conn" where
  "access_run (OpRequest S i) c = snd (create_access_request S i c)"
| "access_run (OpDecide S i) c = snd (decide_access_request S i c)"
| "access_run (OpClaim S i) c = snd (claim_access_grant S i c)"
| "access_run (OpSettle S i) c = snd (settle_access_grant S i c)"
| "access_run (OpReleaseClaim ev gid v a) c = snd (tx_run ErrAccessInfra (access_release_expired_claim ev gid v a) c)"
| "access_run (OpRevokeUser E u a) c = snd (tx_run ErrAccessInfra (access_revoke_for_user E u a) c)"
| "access_run (OpSecurityRotation u at) c = snd (tx_run SqlFailure (revoke_for_security_rotation u at) c)"
| "access_run (OpElsewhere d) c = (d\<lparr>au_requests := au_requests (fst c), au_grants := au_grants (fst c)\<rparr>, snd c)"

definition revocable :: "user_id \<Rightarrow> access_grant \<Rightarrow> bool" where
  "revocable u g \<longleftrightarrow> ig_requester g = u \<and> ig_terminal_at g = None"

definition retractable :: "user_id \<Rightarrow> access_request \<Rightarrow> bool" where
  "retractable u r \<longleftrightarrow> iq_requester r = u \<and> iq_status r = StatusPending \<and> iq_terminal_at r = None"

inductive ledger_step :: "access_op \<Rightarrow> authority_db \<Rightarrow> authority_db \<Rightarrow> bool" where
  still: "au_requests db' = au_requests db \<Longrightarrow> au_grants db' = au_grants db \<Longrightarrow> ledger_step op db db'"
| requested: "new_request_ok (au_requests db) r \<Longrightarrow> iq_expires_at r = ia_now S + requestLifetime
    \<Longrightarrow> au_requests db' = au_requests db @ [r] \<Longrightarrow> au_grants db' = au_grants db \<Longrightarrow> ledger_step (OpRequest S i) db db'"
| decided: "decision_effect (ia_env S) d fds a r db db' \<Longrightarrow> d = timed_decision (ia_env S) (access_decision_of S i (iq_id r))
    \<Longrightarrow> ia_now S < iq_expires_at r \<Longrightarrow> ledger_step (OpDecide S i) db db'"
| claimed: "regranted (claimable gid ev u v z (ia_now S)) (claimed_grant h (ia_now S)) db db' \<Longrightarrow> ledger_step (OpClaim S i) db db'"
| settled: "regranted (settleable gid ev u h v z (ia_now S)) (settled_grant receipt (ia_now S)) db db' \<Longrightarrow> ledger_step (OpSettle S i) db db'"
| released: "regranted (releasable gid ev v now) (released_grant now) db db' \<Longrightarrow> ledger_step (OpReleaseClaim ev gid v au) db db'"
| revoked: "regranted (revocable u) (revoked_grant at) db db' \<Longrightarrow> ledger_step (OpRevokeUser E u au) db db'"
| rotated: "au_requests db1 = map (\<lambda>r. if retractable u r then revoked_request at r else r) (au_requests db)
    \<Longrightarrow> list_all request_check (map (revoked_request at) (filter (retractable u) (au_requests db)))
    \<Longrightarrow> au_grants db1 = au_grants db \<Longrightarrow> regranted (revocable u) (revoked_grant at) db1 db'
    \<Longrightarrow> ledger_step (OpSecurityRotation u at) db db'"

inductive_cases ledger_stepE: "ledger_step op db db'"

lemma still_outbox: "only_outbox db db' \<Longrightarrow> ledger_step op db db'"
  by (rule still) (simp_all add: only_outbox_sel)

text \<open>A call that fails leaves the ledger, unless the commit was reported lost after it took effect.\<close>

lemma tx_run_ledger_step:
  assumes "\<And>c1 v c2. fst c1 = fst c \<Longrightarrow> body c1 = (Inr v, c2) \<Longrightarrow> ledger_step op (fst c) (fst c2)"
  shows "ledger_step op (fst c) (fst (snd (tx_run e body c)))"
  by (rule tx_run_inv [of "ledger_step op (fst c)"]) (use assms in \<open>auto intro: still\<close>)

lemma access_create_step:
  "ledger_step (OpRequest S i) (fst c) (fst (snd (create_access_request S i c)))"
proof -
  consider (refused) e where "create_access_request S i c = (Inl e, c)"
    | (ran) fds subject z rcpt rid reason_id sealed where "create_access_request S i c = tx_run ErrAccessInfra
        (access_transaction S (ci_actor i) (trim_space (ci_event i)) z rcpt
          (replay_create S) (perform_create S i fds subject rid reason_id sealed)) c"
    using access_create_shape [of S i c] by blast
  then show ?thesis
  proof cases
    case refused
    then show ?thesis by (auto intro: still)
  next
    case ran
    show ?thesis
      unfolding ran
    proof (rule tx_run_ledger_step)
      fix c1 v c2
      assume c1: "fst c1 = fst c" and b: "access_transaction S (ci_actor i) (trim_space (ci_event i)) z rcpt
          (replay_create S) (perform_create S i fds subject rid reason_id sealed) c1 = (Inr v, c2)"
      show "ledger_step (OpRequest S i) (fst c) (fst c2)"
      proof (cases "cr_replayed v")
        case True
        with create_body [OF b] c1 show ?thesis by (auto intro: still_outbox)
      next
        case False
        with create_body [OF b] c1 show ?thesis
          by (intro requested [where r = "new_access_request S i fds subject rid reason_id"]) (simp_all add: new_access_request_def)
      qed
    qed
  qed
qed

lemma access_decide_step:
  "ledger_step (OpDecide S i) (fst c) (fst (snd (decide_access_request S i c)))"
proof -
  consider (refused) e where "decide_access_request S i c = (Inl e, c)"
    | (ran) fds z rcpt where "decide_access_request S i c = tx_run ErrAccessInfra
        (access_transaction S (di_actor i) (trim_space (di_event i)) z rcpt (replay_decide S) (perform_decide S i fds z)) c"
    using access_decide_shape [of S i c] by blast
  then show ?thesis
  proof cases
    case refused
    then show ?thesis by (auto intro: still)
  next
    case ran
    show ?thesis
      unfolding ran
    proof (rule tx_run_ledger_step)
      fix c1 v c2
      assume c1: "fst c1 = fst c" and b: "access_transaction S (di_actor i) (trim_space (di_event i)) z rcpt
          (replay_decide S) (perform_decide S i fds z) c1 = (Inr v, c2)"
      show "ledger_step (OpDecide S i) (fst c) (fst c2)"
      proof (cases "dr_replayed v")
        case True
        with decide_body [OF b] c1 show ?thesis by (auto intro: still_outbox)
      next
        case False
        with decide_body [OF b] obtain d1 stored d2 where d: "only_outbox (fst c1) (fst d1)"
          "perform_decide S i fds z d1 = (Inr (v, stored), d2)" "only_outbox (fst d2) (fst c2)" by auto
        from perform_decide_ok [OF d(2)] obtain r a where r: "ia_now S < iq_expires_at r"
          "decision_effect (ia_env S) (timed_decision (ia_env S) (access_decision_of S i (iq_id r))) fds a r (fst d1) (fst d2)"
          by blast
        show ?thesis
          by (rule decided [OF decision_effect_around [OF r(2) d(1,3), unfolded c1] refl r(1)])
      qed
    qed
  qed
qed

lemma access_claim_step: "ledger_step (OpClaim S i) (fst c) (fst (snd (claim_access_grant S i c)))"
proof -
  consider (refused) e where "claim_access_grant S i c = (Inl e, c)"
    | (ran) z rcpt where "claim_access_grant S i c = tx_run ErrAccessInfra
        (access_transaction S (mi_actor i) (trim_space (mi_event i)) z rcpt (replay_claim S) (perform_claim S i z)) c"
    using access_claim_shape [of S i c] by blast
  then show ?thesis
  proof cases
    case refused
    then show ?thesis by (auto intro: still)
  next
    case ran
    show ?thesis
      unfolding ran
    proof (rule tx_run_ledger_step)
      fix c1 v c2
      assume "fst c1 = fst c" "access_transaction S (mi_actor i) (trim_space (mi_event i)) z rcpt
          (replay_claim S) (perform_claim S i z) c1 = (Inr v, c2)"
      with claim_body [OF this(2)] show "ledger_step (OpClaim S i) (fst c) (fst c2)"
        by (cases "mr_replayed v") (auto intro: still_outbox claimed)
    qed
  qed
qed

lemma access_settle_step: "ledger_step (OpSettle S i) (fst c) (fst (snd (settle_access_grant S i c)))"
proof -
  consider (refused) e where "settle_access_grant S i c = (Inl e, c)"
    | (ran) z rcpt where "settle_access_grant S i c = tx_run ErrAccessInfra
        (access_transaction S (si_actor i) (trim_space (si_event i)) z rcpt (replay_settle S) (perform_settle S i z)) c"
    using access_settle_shape [of S i c] by blast
  then show ?thesis
  proof cases
    case refused
    then show ?thesis by (auto intro: still)
  next
    case ran
    show ?thesis
      unfolding ran
    proof (rule tx_run_ledger_step)
      fix c1 v c2
      assume "fst c1 = fst c" "access_transaction S (si_actor i) (trim_space (si_event i)) z rcpt
          (replay_settle S) (perform_settle S i z) c1 = (Inr v, c2)"
      with settle_body [OF this(2)] show "ledger_step (OpSettle S i) (fst c) (fst c2)"
        by (cases "sr_replayed v") (auto intro: still_outbox settled)
    qed
  qed
qed

lemma rotation_step:
  assumes "revoke_for_security_rotation u at c = (Inr x, c')"
  shows "ledger_step (OpSecurityRotation u at) (fst c) (fst c')"
proof -
  have p: "(\<lambda>r. iq_requester r = u \<and> iq_status r = ''pending'' \<and> iq_terminal_at r = None) = retractable u"
    "(\<lambda>g. ig_requester g = u \<and> ig_terminal_at g = None) = revocable u"
    by (auto simp: retractable_def revocable_def StatusPending_def)
  obtain n c1 m where r: "io_call SqlFailure (sql_update_requests (retractable u) (revoked_request at)) c = (Inr n, c1)"
    and g: "io_call SqlFailure (sql_update_grants (revocable u) (revoked_grant at)) c1 = (Inr m, c')"
    using assms unfolding revoke_for_security_rotation_def p by (auto split: prod.splits sum.splits)
  show ?thesis
    by (rule rotated [where ?db1.0 = "fst c1"])
       (use sql_update_requests_ok [OF io_call_ok [OF r]] update_grants_regranted [OF g] in simp_all)
qed

text \<open>Every operation is one step of the ledger, whatever fails on the way.\<close>

lemma access_run_step: "ledger_step op (fst c) (fst (access_run op c))"
proof (cases op)
  case (OpReleaseClaim ev gid v a)
  have "ledger_step (OpReleaseClaim ev gid v a) (fst c) (fst c2)"
    if "fst c1 = fst c" "access_release_expired_claim ev gid v a c1 = (Inr x, c2)" for c1 x c2
    using access_release_ok [OF that(2)] that(1) by (auto intro: released)
  then show ?thesis unfolding OpReleaseClaim access_run.simps by (rule tx_run_ledger_step)
next
  case (OpRevokeUser E u a)
  have p: "(\<lambda>g. ig_requester g = u \<and> ig_terminal_at g = None) = revocable u" by (auto simp: revocable_def)
  have "ledger_step (OpRevokeUser E u a) (fst c) (fst c2)"
    if "fst c1 = fst c" "access_revoke_for_user E u a c1 = (Inr v, c2)" for c1 v c2
    using access_revoke_ok [OF that(2)] that(1) unfolding p by (auto intro: revoked)
  then show ?thesis unfolding OpRevokeUser access_run.simps by (rule tx_run_ledger_step)
next
  case (OpSecurityRotation u at)
  have "ledger_step (OpSecurityRotation u at) (fst c) (fst c2)"
    if "fst c1 = fst c" "revoke_for_security_rotation u at c1 = (Inr v, c2)" for c1 v c2
    using rotation_step [OF that(2)] that(1) by simp
  then show ?thesis unfolding OpSecurityRotation access_run.simps by (rule tx_run_ledger_step)
next
  case (OpElsewhere d)
  show ?thesis unfolding OpElsewhere access_run.simps by (rule still) simp_all
qed (simp_all add: access_create_step access_decide_step access_claim_step access_settle_step)

end
