(* ===== verification/IdentityHistories.thy ===== *)
theory IdentityHistories
  imports IdentityLedger
begin

text \<open>
  What holds of the ledger of requests and grants after any history of operations: what a grant
  stems from, the life of a grant, and what stays in the way of later requests and claims.
\<close>

section \<open>The invariant of the ledger\<close>

definition request_slot :: "access_request \<Rightarrow> event_id \<times> user_id \<times> string \<times> string" where
  "request_slot r = (iq_event_id r, iq_requester r, iq_target_type r, iq_target_id r)"

definition is_pending :: "access_request \<Rightarrow> bool" where
  "is_pending r \<longleftrightarrow> iq_status r = StatusPending \<and> iq_terminal_at r = None"

text \<open>\<open>stems_from g r\<close>: \<open>g\<close> was issued by the approval of \<open>r\<close>, for a part of what \<open>r\<close> asked.\<close>

definition stems_from :: "access_grant \<Rightarrow> access_request \<Rightarrow> bool" where
  "stems_from g r \<longleftrightarrow> ig_request_id g = iq_id r \<and> iq_status r = StatusApproved
     \<and> ig_event_id g = iq_event_id r \<and> ig_requester g = iq_requester r \<and> ig_subject g = iq_subject r
     \<and> ig_target_type g = iq_target_type r \<and> ig_target_id g = iq_target_id r \<and> ig_approved_by g = iq_approver r
     \<and> ig_fields g \<noteq> [] \<and> distinct (ig_fields g) \<and> set (ig_fields g) \<subseteq> set (iq_fields r)
     \<and> iq_terminal_at r = Some (ig_created_at g) \<and> ig_created_at g < iq_expires_at r
     \<and> ig_expires_at g = ig_created_at g + minutes 15"

definition ledger_ok :: "authority_db \<Rightarrow> bool" where
  "ledger_ok db \<longleftrightarrow> distinct (map iq_id (au_requests db)) \<and> distinct (map ig_id (au_grants db))
     \<and> distinct (map ig_request_id (au_grants db))
     \<and> (\<forall>r\<in>set (au_requests db). request_check r) \<and> (\<forall>g\<in>set (au_grants db). grant_check g)
     \<and> (\<forall>g\<in>set (au_grants db). \<exists>r\<in>set (au_requests db). stems_from g r)
     \<and> distinct (map request_slot (filter is_pending (au_requests db)))
     \<and> distinct (map claim_slot (filter claim_is_live (au_grants db)))"

text \<open>What no update of a grant changes.\<close>

definition grant_core ::
  "access_grant \<Rightarrow> (string \<times> string) \<times> (event_id \<times> user_id \<times> user_id) \<times> (string \<times> string) \<times> user_id \<times> string list \<times> time \<times> time" where
  "grant_core g = ((ig_id g, ig_request_id g), (ig_event_id g, ig_requester g, ig_subject g), (ig_target_type g, ig_target_id g),
     ig_approved_by g, ig_fields g, ig_created_at g, ig_expires_at g)"

lemma grant_core_updates [simp]:
  "grant_core (claimed_grant h now g) = grant_core g" "grant_core (settled_grant receipt now g) = grant_core g"
  "grant_core (released_grant now g) = grant_core g" "grant_core (revoked_grant now g) = grant_core g"
  by (simp_all add: grant_core_def claimed_grant_def settled_grant_def released_grant_def revoked_grant_def)

lemma grant_core_stems: "grant_core g = grant_core g' \<Longrightarrow> stems_from g r = stems_from g' r"
  by (simp add: grant_core_def stems_from_def)

lemma map_if_same: "(\<And>x. h (f x) = h x) \<Longrightarrow> map h (map (\<lambda>x. if p x then f x else x) xs) = map h xs"
  by auto

lemma all_map_if: "(\<forall>y\<in>set (map (\<lambda>x. if p x then f x else x) xs). Q y)
    \<longleftrightarrow> (\<forall>x\<in>set xs. if p x then Q (f x) else Q x)"
  by auto

lemma regranted_ok:
  assumes "regranted p f db db'" "\<And>g. grant_core (f g) = grant_core g" "ledger_ok db"
  shows "ledger_ok db'"
proof -
  have c: "ig_id (f g) = ig_id g" "ig_request_id (f g) = ig_request_id g" for g
    using assms(2) [of g] by (simp_all add: grant_core_def)
  have g: "au_grants db' = map (\<lambda>g. if p g then f g else g) (au_grants db)" "au_requests db' = au_requests db"
    "\<forall>g\<in>set (au_grants db). p g \<longrightarrow> grant_check (f g)" "distinct (map claim_slot (filter claim_is_live (au_grants db')))"
    using assms(1) by (auto simp: regranted_def list_all_iff)
  have ids: "map ig_id (au_grants db') = map ig_id (au_grants db)" "map ig_request_id (au_grants db') = map ig_request_id (au_grants db)"
    unfolding g(1) by (rule map_if_same, rule c)+
  have ch: "\<forall>g\<in>set (au_grants db'). grant_check g"
    unfolding g(1) all_map_if using g(3) assms(3) by (auto simp: ledger_ok_def)
  have st: "\<forall>g\<in>set (au_grants db'). \<exists>r\<in>set (au_requests db). stems_from g r"
    unfolding g(1) all_map_if using assms(3) grant_core_stems [OF assms(2)] by (auto simp: ledger_ok_def)
  show ?thesis
    using assms(3) ids ch st g(2,4) by (simp add: ledger_ok_def)
qed

text \<open>An update that takes requests out of the pending state.\<close>

definition request_core :: "access_request \<Rightarrow> string \<times> event_id \<times> user_id \<times> user_id \<times> string \<times> string \<times> string list \<times> time" where
  "request_core r = (iq_id r, iq_event_id r, iq_requester r, iq_subject r, iq_target_type r, iq_target_id r, iq_fields r,
     iq_expires_at r)"

lemma request_core_updates [simp]:
  "request_core (decided_request d r) = request_core r" "request_core (revoked_request at r) = request_core r"
  by (simp_all add: request_core_def decided_request_def revoked_request_def)

lemma not_pending_updates [simp]: "\<not> is_pending (decided_request d r)" "\<not> is_pending (revoked_request at r)"
  by (simp_all add: is_pending_def decided_request_def revoked_request_def)

lemma terminated_pending:
  "(\<And>r. \<not> is_pending (f r)) \<Longrightarrow>
     filter is_pending (map (\<lambda>r. if p r then f r else r) rs) = filter (\<lambda>r. is_pending r \<and> \<not> p r) rs"
  by (induction rs) auto

text \<open>The requests after such an update, with a grant for each that is approved by it.\<close>

lemma rerequested_ok:
  assumes u: "au_requests db' = map (\<lambda>r. if p r then f r else r) (au_requests db)" "au_grants db' = au_grants db"
    and f: "\<And>r. request_core (f r) = request_core r" "\<And>r. \<not> is_pending (f r)" "\<And>r. p r \<Longrightarrow> iq_status r = StatusPending"
    and ch: "list_all request_check (map f (filter p (au_requests db)))" and ok: "ledger_ok db"
  shows "ledger_ok db'"
proof -
  have "map iq_id (au_requests db') = map iq_id (au_requests db)"
    unfolding u(1) by (rule map_if_same) (use f(1) in \<open>simp add: request_core_def\<close>)
  moreover have "\<forall>r\<in>set (au_requests db'). request_check r"
    unfolding u(1) all_map_if using ch ok by (auto simp: ledger_ok_def list_all_iff)
  moreover have "distinct (map request_slot (filter is_pending (au_requests db')))"
    unfolding u(1) terminated_pending [OF f(2)] by (rule distinct_subfilter) (use ok in \<open>simp add: ledger_ok_def\<close>)
  moreover have "\<exists>r\<in>set (au_requests db'). stems_from g r" if g: "g \<in> set (au_grants db')" for g
  proof -
    obtain r where r: "r \<in> set (au_requests db)" "stems_from g r" using ok g u(2) by (auto simp: ledger_ok_def)
    then have "\<not> p r" using f(3) by (auto simp: stems_from_def StatusApproved_def StatusPending_def)
    then have "r \<in> set (au_requests db')" using r(1) by (force simp: u(1))
    with r(2) show ?thesis by blast
  qed
  ultimately show ?thesis using ok u(2) by (simp add: ledger_ok_def)
qed


lemma requested_ok:
  assumes n: "new_request_ok (au_requests db) r" and u: "au_requests db' = au_requests db @ [r]" "au_grants db' = au_grants db"
    and ok: "ledger_ok db"
  shows "ledger_ok db'"
proof -
  have p: "is_pending r" "request_check r" "\<forall>x\<in>set (au_requests db). iq_id x \<noteq> iq_id r \<and> \<not> request_conflict r x"
    using n by (simp_all add: new_request_ok_def is_pending_def)
  have "\<forall>x\<in>set (au_requests db). is_pending x \<longrightarrow> request_slot r \<noteq> request_slot x"
    using p by (auto simp: request_conflict_def request_slot_def is_pending_def StatusPending_def)
  then have "distinct (map request_slot (filter is_pending (au_requests db')))"
    using ok p(1) by (auto simp: u ledger_ok_def)
  with p ok show ?thesis by (auto simp: ledger_ok_def u)
qed

lemma decided_ok:
  assumes d: "decision_effect E d fds a r db db'" and ok: "ledger_ok db"
  shows "ledger_ok db'"
proof -
  let ?p = "decidable (iq_id r) (iq_event_id r) (iq_version r) (dz_decided_at d)"
  let ?mid = "db\<lparr>au_requests := au_requests db'\<rparr>" and ?g = "new_grant E d fds a r"
  have dp: "\<And>x. ?p x \<Longrightarrow> iq_status x = StatusPending" by (simp add: decidable_def)
  have mid: "ledger_ok ?mid"
    by (rule rerequested_ok [OF _ _ _ _ dp _ ok, where f = "decided_request d"]) (use d in \<open>auto simp: decision_effect_def\<close>)
  have r: "r \<in> set (au_requests db)" "?p r" using d by (auto simp: decision_effect_def decidable_def)
  have r': "decided_request d r \<in> set (au_requests db')" using d r by (auto simp: decision_effect_def)
  show ?thesis
  proof (cases "dz_approved d")
    case True
    have g: "grant_check ?g" "au_grants db' = au_grants db @ [?g]"
      "\<forall>y\<in>set (au_grants db). ig_id y \<noteq> ig_id ?g \<and> ig_request_id y \<noteq> ig_request_id ?g"
      "fds \<noteq> []" "distinct fds" "set fds \<subseteq> set (iq_fields r)" "dz_decided_at d < iq_expires_at r"
      using d True by (auto simp: decision_effect_def new_grant_def)
    have "\<not> claim_is_live ?g" by (simp add: claim_is_live_def new_grant_def)
    moreover have "stems_from ?g (decided_request d r)"
      using g True by (simp add: stems_from_def new_grant_def decided_request_def)
    ultimately show ?thesis using mid g r' by (auto simp: ledger_ok_def)
  next
    case False
    then have "au_grants db' = au_grants db" using d by (simp add: decision_effect_def)
    with mid show ?thesis by (simp add: ledger_ok_def)
  qed
qed

theorem ledger_step_ok: "ledger_step op db db' \<Longrightarrow> ledger_ok db \<Longrightarrow> ledger_ok db'"
proof (induction rule: ledger_step.induct)
  case (rotated db1 u at db db')
  have "ledger_ok db1"
    by (rule rerequested_ok [OF rotated(1,3) _ _ _ rotated(2) rotated(5)]) (auto simp: retractable_def)
  then show ?case by (rule regranted_ok [OF rotated(4) grant_core_updates(4)])
next
  case (still db' db op)
  then show ?case by (simp add: ledger_ok_def)
qed (auto intro: requested_ok decided_ok regranted_ok)

section \<open>Histories\<close>

fun access_runs :: "access_op list \<Rightarrow> authority_conn \<Rightarrow> authority_conn" where
  "access_runs [] c = c"
| "access_runs (op # ops) c = access_runs ops (access_run op c)"

lemma access_runs_inv:
  assumes "P (fst c)" "\<And>op db db'. op \<in> set ops \<Longrightarrow> ledger_step op db db' \<Longrightarrow> P db \<Longrightarrow> P db'"
  shows "P (fst (access_runs ops c))"
  using assms
proof (induction ops arbitrary: c)
  case (Cons op ops)
  have "P (fst (access_run op c))" by (rule Cons.prems(2) [OF _ access_run_step Cons.prems(1)]) simp
  then have "P (fst (access_runs ops (access_run op c)))" by (rule Cons.IH) (rule Cons.prems(2), simp_all)
  then show ?case by simp
qed simp

lemma access_runs_ok: "ledger_ok (fst c) \<Longrightarrow> ledger_ok (fst (access_runs ops c))"
  by (rule access_runs_inv) (auto intro: ledger_step_ok)

lemma ledger_ok_empty: "au_requests db = [] \<Longrightarrow> au_grants db = [] \<Longrightarrow> ledger_ok db"
  by (simp add: ledger_ok_def)

section \<open>The life of a grant\<close>

text \<open>What the ledger says of a grant, and the moves an operation may make.\<close>

datatype grant_life = Unissued | Open | Held | Settled | Ended

definition life_of :: "access_grant \<Rightarrow> grant_life" where
  "life_of g = (if ig_status g = GrantActive then Open else if ig_status g = GrantClaimed then Held
     else if ig_status g = GrantSettled then Settled else Ended)"

definition life :: "string \<Rightarrow> authority_db \<Rightarrow> grant_life" where
  "life gid db = (case List.find (\<lambda>g. ig_id g = gid) (au_grants db) of None \<Rightarrow> Unissued | Some g \<Rightarrow> life_of g)"

inductive life_step :: "access_op \<Rightarrow> grant_life \<Rightarrow> grant_life \<Rightarrow> bool" where
  stay: "life_step op p p"
| issue: "life_step (OpDecide S i) Unissued Open"
| claim: "life_step (OpClaim S i) Open Held"
| settle: "life_step (OpSettle S i) Held Settled"
| release: "life_step (OpReleaseClaim ev gid v a) Held Open"
| revoke: "p \<in> {Open, Held} \<Longrightarrow> life_step (OpRevokeUser E u a) p Ended"
| rotate: "p \<in> {Open, Held} \<Longrightarrow> life_step (OpSecurityRotation u at) p Ended"

inductive_cases life_stepE: "life_step op p q"
inductive_simps life_step_settled: "life_step op Settled q"
inductive_simps life_step_ended: "life_step op Ended q"

lemma find_map_same:
  "(\<And>x. q (f x) = q x) \<Longrightarrow> List.find q (map (\<lambda>x. if p x then f x else x) xs)
     = map_option (\<lambda>x. if p x then f x else x) (List.find q xs)"
  by (induction xs) auto

lemma find_append:
  "List.find q (xs @ ys) = (case List.find q xs of None \<Rightarrow> List.find q ys | Some x \<Rightarrow> Some x)"
  by (induction xs) auto

lemma life_regranted:
  assumes "regranted p f db db'" "\<And>g. grant_core (f g) = grant_core g"
    and "\<And>g. g \<in> set (au_grants db) \<Longrightarrow> p g \<Longrightarrow> life_step op (life_of g) (life_of (f g))"
  shows "life_step op (life gid db) (life gid db')"
proof -
  have "ig_id (f g) = ig_id g" for g using assms(2) [of g] by (simp add: grant_core_def)
  then have "List.find (\<lambda>g. ig_id g = gid) (au_grants db')
      = map_option (\<lambda>g. if p g then f g else g) (List.find (\<lambda>g. ig_id g = gid) (au_grants db))"
    using assms(1) by (simp add: regranted_def find_map_same)
  then show ?thesis
    using assms(3) by (auto simp: life_def split: option.splits intro: stay dest: find_some)
qed

lemma life_of_status: "ig_status g = GrantActive \<Longrightarrow> life_of g = Open" "ig_status g = GrantClaimed \<Longrightarrow> life_of g = Held"
  by (simp_all add: life_of_def GrantActive_def GrantClaimed_def)

lemma revocable_life:
  "grant_check g \<Longrightarrow> ig_terminal_at g = None \<Longrightarrow> life_of g \<in> {Open, Held}"
  by (auto simp: grant_check_def life_of_def GrantActive_def GrantClaimed_def)

lemma life_of_updates [simp]:
  "life_of (claimed_grant h now g) = Held" "life_of (settled_grant receipt now g) = Settled"
  "life_of (released_grant now g) = Open" "life_of (revoked_grant now g) = Ended"
  "life_of (new_grant E d fds a r) = Open"
  by (simp_all add: life_of_def claimed_grant_def settled_grant_def released_grant_def revoked_grant_def new_grant_def
      GrantActive_def GrantClaimed_def GrantSettled_def)

lemma access_step_life: "ledger_step op db db' \<Longrightarrow> ledger_ok db \<Longrightarrow> life_step op (life gid db) (life gid db')"
proof (induction rule: ledger_step.induct)
  case (decided S d fds a r db db' i)
  show ?case
  proof (cases "dz_approved d")
    case True
    then have g: "au_grants db' = au_grants db @ [new_grant (ia_env S) d fds a r]" using decided(1) by (simp add: decision_effect_def)
    show ?thesis
      by (cases "List.find (\<lambda>g. ig_id g = gid) (au_grants db)") (auto simp: life_def g find_append intro: stay issue)
  next
    case False
    then show ?thesis using decided(1) by (simp add: decision_effect_def life_def stay)
  qed
next
  case (rotated db1 u at db db')
  have "life gid db1 = life gid db" using rotated(3) by (simp add: life_def)
  moreover have "life_step (OpSecurityRotation u at) (life gid db1) (life gid db')"
    by (rule life_regranted [OF rotated(4)])
       (use rotated(3,5) in \<open>auto simp: ledger_ok_def revocable_def intro!: rotate dest: revocable_life\<close>)
  ultimately show ?case by simp
next
  case (revoked u at db db' E au)
  show ?case
    by (rule life_regranted [OF revoked(1)])
       (use revoked(2) in \<open>auto simp: ledger_ok_def revocable_def intro!: revoke dest: revocable_life\<close>)
next
  case (claimed gid' ev u v z S h db db' i)
  show ?case
    by (rule life_regranted [OF claimed(1)]) (auto simp: claimable_def life_of_status intro: claim)
next
  case (settled gid' ev u h v z S receipt db db' i)
  show ?case
    by (rule life_regranted [OF settled(1)]) (auto simp: settleable_def life_of_status intro: settle)
next
  case (released gid' ev v now db db' au)
  show ?case
    by (rule life_regranted [OF released(1)]) (auto simp: releasable_def life_of_status intro: release)
qed (simp_all add: life_def stay)


section \<open>What stays in the way\<close>

text \<open>An operation that comes after the expiry of \<open>r\<close> and is no rotation of its requester.\<close>

fun spares_request :: "access_request \<Rightarrow> access_op \<Rightarrow> bool" where
  "spares_request r (OpDecide S i) = (iq_expires_at r \<le> ia_now S)"
| "spares_request r (OpSecurityRotation u at) = (u \<noteq> iq_requester r)"
| "spares_request r _ = True"

lemma pending_request_stays:
  assumes "ledger_step op db db'" "spares_request r op" "r \<in> set (au_requests db)" "is_pending r" "zero_time < iq_expires_at r"
  shows "r \<in> set (au_requests db')"
  using assms
proof (induction rule: ledger_step.induct)
  case (decided S d fds a r0 db db' i)
  have "dz_decided_at d = ia_now S" using decided by (auto simp: timed_decision_def access_decision_of_def)
  then have "\<not> decidable (iq_id r0) (iq_event_id r0) (iq_version r0) (dz_decided_at d) r"
    using decided(4) by (simp add: decidable_def)
  with decided(1,5) show ?case by (force simp: decision_effect_def)
next
  case (rotated db1 u at db db')
  have "\<not> retractable u r" using rotated(5) by (auto simp: retractable_def)
  with rotated(1,6) have "r \<in> set (au_requests db1)" by force
  with rotated(4) show ?case by (simp add: regranted_def)
qed (simp_all add: regranted_def)

text \<open>An operation after the lease of the claimed grant \<open>g\<close> lapsed, with no revocation of its requester and no release.\<close>

fun spares_grant :: "access_grant \<Rightarrow> access_op \<Rightarrow> bool" where
  "spares_grant g (OpSettle S i) = (case ig_lease_until g of None \<Rightarrow> True | Some t \<Rightarrow> t \<le> ia_now S)"
| "spares_grant g (OpReleaseClaim ev gid v a) = (gid \<noteq> ig_id g)"
| "spares_grant g (OpRevokeUser E u a) = (u \<noteq> ig_requester g)"
| "spares_grant g (OpSecurityRotation u at) = (u \<noteq> ig_requester g)"
| "spares_grant g _ = True"

lemma regranted_stays: "regranted p f db db' \<Longrightarrow> \<not> p g \<Longrightarrow> g \<in> set (au_grants db) \<Longrightarrow> g \<in> set (au_grants db')"
  by (force simp: regranted_def)

lemma claimed_grant_stays:
  assumes "ledger_step op db db'" "spares_grant g op" "g \<in> set (au_grants db)" "ig_status g = GrantClaimed"
  shows "g \<in> set (au_grants db')"
  using assms
proof (induction rule: ledger_step.induct)
  case (claimed gid ev u v z S h db db' i)
  show ?case by (rule regranted_stays [OF claimed(1) _ claimed(3)]) (use claimed in \<open>auto simp: claimable_def GrantActive_def GrantClaimed_def\<close>)
next
  case (settled gid ev u h v z S receipt db db' i)
  show ?case by (rule regranted_stays [OF settled(1) _ settled(3)]) (use settled in \<open>auto simp: settleable_def split: option.splits\<close>)
next
  case (released gid ev v now db db' au)
  show ?case by (rule regranted_stays [OF released(1) _ released(3)]) (use released in \<open>auto simp: releasable_def\<close>)
next
  case (revoked u at db db' E au)
  show ?case by (rule regranted_stays [OF revoked(1) _ revoked(3)]) (use revoked in \<open>auto simp: revocable_def\<close>)
next
  case (rotated db1 u at db db')
  show ?case by (rule regranted_stays [OF rotated(4)]) (use rotated in \<open>auto simp: revocable_def\<close>)
next
  case (decided S d fds a r0 db db' i)
  then show ?case by (auto simp: decision_effect_def split: if_splits)
qed simp_all

end
