(* ===== verification/IdentityProperties.thy ===== *)
theory IdentityProperties
  imports IdentityHistories
begin

text \<open>
  Properties of restricted identity access: who decides, what a claim needs, where grants come
  from and how they end, and the two ways a target stays blocked.
\<close>

section \<open>Decisions and claims\<close>

lemma access_authorize_ok:
  "access_authorize S u a re required = Inr z \<Longrightarrow> role_satisfies (az_role z) required"
  by (auto simp: access_authorize_def split: if_split_asm sum.splits)

text \<open>
  C33.  A decision that is not a replay is taken by four eyes on a live request: the request is
  pending at the version the caller expected and has not expired; the caller is neither its
  requester nor its subject, holds in the database of the transaction a governing binding and a
  usable challenge, and has stepped up for this request with that challenge within the freshness
  window; the requester still is a senior administrator of the event.  The reason is consumed,
  the request leaves the pending state, and a grant is issued exactly on approval, bound to the
  requester's own current binding and challenge, for a part of the requested fields.
\<close>
theorem decide_is_four_eyes:
  assumes "decide_access_request S i c = (Inr x, c')" "\<not> dr_replayed x"
  shows "\<exists>r z za fds. r \<in> set (au_requests (fst c)) \<and> iq_id r = trim_space (di_request i)
    \<and> iq_event_id r = trim_space (di_event i) \<and> iq_version r = di_expected i \<and> iq_status r = StatusPending
    \<and> ia_now S < iq_expires_at r \<and> di_actor i \<noteq> iq_requester r \<and> di_actor i \<noteq> iq_subject r
    \<and> evidence_holds (fst c) (di_actor i) (iq_event_id r) z \<and> role_satisfies (az_role z) RoleSuperAdmin
    \<and> validate_step_up (di_step_up i) (di_actor i) (iq_id r) (az_challenge_version z) (ia_now S) = None
    \<and> evidence_holds (fst c) (iq_requester r) (iq_event_id r) za \<and> az_role za = RoleSeniorAdmin
    \<and> (let d = timed_decision (ia_env S) (access_decision_of S i (iq_id r))
       in consumed_for (iq_reason_id r) (iq_requester r) (dz_decided_at d) (fst c')
          \<and> decided_request d r \<in> set (au_requests (fst c'))
          \<and> (di_approved i \<longrightarrow> fds \<noteq> [] \<and> distinct fds \<and> set fds \<subseteq> set (iq_fields r))
          \<and> au_grants (fst c') = au_grants (fst c) @ (if di_approved i then [new_grant (ia_env S) d fds
               \<lparr>ga_binding_id = az_binding_id za, ga_binding_version = az_binding_version za,
                ga_challenge_version = az_challenge_version za, ga_field_hash = field_set_hash S fds\<rparr> r] else []))"
proof -
  obtain fds z rcpt where a: "access_authorize S (di_actor i) ActionIdentityAccessApprove
      (access_resource ''identity_access_request'' (trim_space (di_request i)) (trim_space (di_event i))) RoleSuperAdmin = Inr z"
    and t: "decide_access_request S i c = tx_run ErrAccessInfra (access_transaction S (di_actor i) (trim_space (di_event i)) z rcpt
        (replay_decide S) (perform_decide S i fds z)) c"
    using access_decide_shape [of S i c] assms(1) by auto
  obtain c1 c2 where b: "fst c1 = fst c" "access_transaction S (di_actor i) (trim_space (di_event i)) z rcpt
      (replay_decide S) (perform_decide S i fds z) c1 = (Inr x, c2)" "fst c' = fst c2"
    using tx_run_ok [OF assms(1) [unfolded t]] by blast
  from decide_body [OF b(2)] assms(2) obtain d1 stored d2 where e: "evidence_holds (fst c1) (di_actor i) (trim_space (di_event i)) z"
    and d: "only_outbox (fst c1) (fst d1)" "perform_decide S i fds z d1 = (Inr (x, stored), d2)" "only_outbox (fst d2) (fst c2)" by auto
  let ?d = "\<lambda>r. timed_decision (ia_env S) (access_decision_of S i (iq_id r))"
  let ?a = "\<lambda>za. \<lparr>ga_binding_id = az_binding_id za, ga_binding_version = az_binding_version za,
                ga_challenge_version = az_challenge_version za, ga_field_hash = field_set_hash S fds\<rparr>"
  from perform_decide_ok [OF d(2)] obtain r za where r: "iq_id r = trim_space (di_request i)"
    "iq_event_id r = trim_space (di_event i)" "iq_version r = di_expected i" "ia_now S < iq_expires_at r"
    "validate_step_up (di_step_up i) (di_actor i) (iq_id r) (az_challenge_version z) (ia_now S) = None"
    "evidence_holds (fst d1) (iq_requester r) (iq_event_id r) za" "az_role za = RoleSeniorAdmin"
    "decision_effect (ia_env S) (?d r) fds (?a za) r (fst d1) (fst d2)" by blast
  have ef: "decision_effect (ia_env S) (?d r) fds (?a za) r (fst c) (fst c')"
    using decision_effect_around [OF r(8) d(1,3)] b(1,3) by simp
  have ap: "dz_approved (?d r) = di_approved i" "dz_approver (?d r) = di_actor i" by (simp_all add: access_decision_of_def)
  have p: "r \<in> set (au_requests (fst c))" "iq_status r = StatusPending" "dz_decided_at (?d r) < iq_expires_at r"
    "consumed_for (iq_reason_id r) (iq_requester r) (dz_decided_at (?d r)) (fst c')"
    "validate_decision r (?d r) = None"
    using ef by (simp_all add: decision_effect_def)
  have n: "di_actor i \<noteq> iq_requester r" "di_actor i \<noteq> iq_subject r"
    using p(5) ap(2) by (auto simp: validate_decision_def split: if_split_asm)
  have "decidable (iq_id r) (iq_event_id r) (iq_version r) (dz_decided_at (?d r)) r" using p by (simp add: decidable_def)
  with ef p(1) have m: "decided_request (?d r) r \<in> set (au_requests (fst c'))" by (auto simp: decision_effect_def)
  have gr: "di_approved i \<longrightarrow> fds \<noteq> [] \<and> distinct fds \<and> set fds \<subseteq> set (iq_fields r)"
    "au_grants (fst c') = au_grants (fst c) @ (if di_approved i then [new_grant (ia_env S) (?d r) fds (?a za) r] else [])"
    using ef ap(1) by (simp_all add: decision_effect_def split: if_splits)
  have ev: "evidence_holds (fst c) (di_actor i) (iq_event_id r) z" "evidence_holds (fst c) (iq_requester r) (iq_event_id r) za"
    using e r(2,6) b(1) evidence_holds_outbox [OF d(1)] by simp_all
  show ?thesis
    unfolding Let_def
    by (intro exI [of _ r] exI [of _ z] exI [of _ za] exI [of _ fds] conjI p r n ev m gr access_authorize_ok [OF a])
qed

text \<open>
  C34.  A claim that is not a replay is made by the requester of an active, unexpired grant at the
  version it expected, with the very binding and challenge versions the grant was issued to,
  still valid in the database of the transaction.  The claim hands out the granted fields with
  their hash, a lease of one minute, and leaves the grant held, with no other live claim of the
  same requester on the target.
\<close>
theorem claim_needs_current_authority:
  assumes "claim_access_grant S i c = (Inr x, c')" "\<not> mr_replayed x"
  shows "\<exists>g z nonce digest. g \<in> set (au_grants (fst c)) \<and> ig_id g = trim_space (mi_grant i) \<and> ig_event_id g = trim_space (mi_event i)
    \<and> ig_requester g = mi_actor i \<and> ig_version g = mi_expected i \<and> ig_status g = GrantActive \<and> ia_now S < ig_expires_at g
    \<and> evidence_holds (fst c) (mi_actor i) (ig_event_id g) z \<and> role_satisfies (az_role z) RoleSeniorAdmin
    \<and> ig_binding_id g = az_binding_id z \<and> ig_binding_version g = az_binding_version z \<and> ig_challenge_version g = az_challenge_version z
    \<and> cl_fields (mr_claim x) = sort_key (iv_collate (ia_env S)) (ig_fields g) \<and> cl_field_hash (mr_claim x) = ig_field_set_hash g
    \<and> cl_nonce (mr_claim x) = nonce \<and> new_identity_claim_nonce (ia_env S) = Some (nonce, digest)
    \<and> cl_lease_until (mr_claim x) = ia_now S + seconds 60
    \<and> claimed_grant digest (ia_now S) g \<in> set (au_grants (fst c'))
    \<and> distinct (map claim_slot (filter claim_is_live (au_grants (fst c'))))"
proof -
  let ?ev = "trim_space (mi_event i)" and ?gid = "trim_space (mi_grant i)"
  obtain z rcpt where a: "access_authorize S (mi_actor i) ActionIdentityGrantConsume
      (access_resource ''identity_access_grant'' ?gid ?ev) RoleSeniorAdmin = Inr z"
    and t: "claim_access_grant S i c = tx_run ErrAccessInfra (access_transaction S (mi_actor i) ?ev z rcpt
        (replay_claim S) (perform_claim S i z)) c"
    using access_claim_shape [of S i c] assms(1) by auto
  obtain c1 c2 where b: "fst c1 = fst c" "access_transaction S (mi_actor i) ?ev z rcpt
      (replay_claim S) (perform_claim S i z) c1 = (Inr x, c2)" "fst c' = fst c2"
    using tx_run_ok [OF assms(1) [unfolded t]] by blast
  from claim_body [OF b(2)] assms(2) obtain nonce digest g where e: "evidence_holds (fst c1) (mi_actor i) ?ev z"
    and g: "new_identity_claim_nonce (ia_env S) = Some (nonce, digest)" "g \<in> set (au_grants (fst c1))"
    "claimable ?gid ?ev (mi_actor i) (mi_expected i) z (ia_now S) g"
    "mr_claim x = claim_of (ia_env S) ?ev ?gid (mi_actor i) z nonce (ia_now S + seconds 60) (claimed_grant digest (ia_now S) g)"
    and rg: "regranted (claimable ?gid ?ev (mi_actor i) (mi_expected i) z (ia_now S)) (claimed_grant digest (ia_now S)) (fst c1) (fst c2)"
    by auto
  have "claimed_grant digest (ia_now S) g \<in> set (au_grants (fst c'))" using rg g(2,3) b(3) by (auto simp: regranted_def)
  moreover have "distinct (map claim_slot (filter claim_is_live (au_grants (fst c'))))"
    unfolding b(3) using rg unfolding regranted_def by blast
  ultimately show ?thesis
    using e g b(1) access_authorize_ok [OF a]
    by (intro exI [of _ g] exI [of _ z] exI [of _ nonce] exI [of _ digest])
       (simp add: claimable_def grant_of_evidence_def claim_of_def claimed_grant_def)
qed

section \<open>Histories\<close>

text \<open>
  C35.  After any history of requests, decisions, claims, settlements, releases, revocations and
  rotations on an empty ledger, whatever calls fail on the way and whatever happens to all other
  tables and the clock of the database between them, the ledger is well formed: ids
  are unique, every row satisfies its table's constraints, every grant stems from the one
  approved request it names (same event, people and target, decided by its approver before it
  expired, for a part of its fields and for fifteen minutes), no requester has two pending
  requests for a target, and none holds two live claims on one.
\<close>
theorem grants_stem_from_approvals:
  assumes "au_requests (fst c) = []" "au_grants (fst c) = []"
  shows "ledger_ok (fst (access_runs ops c))"
  using access_runs_ok [OF ledger_ok_empty [OF assms]] .

text \<open>
  C36.  The tables refine the life of a grant: in every state a history reaches, changes of all
  other tables and of the database clock between its operations included, each operation makes at most one move of each grant, and only its own.  A grant is issued by a decision,
  held by a claim, settled by a settlement of a held grant, opened again by the release of a
  held one, and ended by a revocation; a settled or ended grant never moves again.
\<close>
theorem grant_lifecycle:
  assumes "au_requests (fst c) = []" "au_grants (fst c) = []"
  shows "life_step op (life gid (fst (access_runs ops c))) (life gid (fst (access_run op (access_runs ops c))))"
  by (rule access_step_life [OF access_run_step access_runs_ok [OF ledger_ok_empty [OF assms]]])

section \<open>Blocked targets\<close>

text \<open>
  C37.  A pending request that has expired stays in the way: after any history of operations (and
  of changes to all other tables and the clock) whose decisions come later than its expiry, its requester's security rotation apart, a new request of the same requester
  for the same target of the event is never accepted.  Nothing marks a request as expired, a
  decision refuses it, and the unique index of pending requests keeps counting it.
\<close>
theorem expired_request_blocks_target:
  assumes "r \<in> set (au_requests (fst c))" "is_pending r" "zero_time < iq_expires_at r" "list_all (spares_request r) ops"
    and "create_access_request S i (access_runs ops c) = (Inr x, c')"
    and "trim_space (ci_event i) = iq_event_id r" "ci_actor i = iq_requester r"
    and "fst (ci_target i) = iq_target_type r" "trim_space (snd (ci_target i)) = iq_target_id r"
  shows "cr_replayed x"
proof (rule ccontr)
  assume n: "\<not> cr_replayed x"
  have "r \<in> set (au_requests (fst (access_runs ops c)))"
    by (rule access_runs_inv [of "\<lambda>db. r \<in> set (au_requests db)"])
       (use assms(1-4) in \<open>auto simp: list_all_iff intro: pending_request_stays\<close>)
  moreover obtain fds subject z rcpt rid reason_id sealed where t: "create_access_request S i (access_runs ops c)
      = tx_run ErrAccessInfra (access_transaction S (ci_actor i) (trim_space (ci_event i)) z rcpt
          (replay_create S) (perform_create S i fds subject rid reason_id sealed)) (access_runs ops c)"
    using access_create_shape [of S i "access_runs ops c"] assms(5) by auto
  obtain c1 c2 where b: "fst c1 = fst (access_runs ops c)" "access_transaction S (ci_actor i) (trim_space (ci_event i)) z rcpt
      (replay_create S) (perform_create S i fds subject rid reason_id sealed) c1 = (Inr x, c2)"
    using tx_run_ok [OF assms(5) [unfolded t]] by blast
  ultimately have "\<not> request_conflict (new_access_request S i fds subject rid reason_id) r"
    using create_body [OF b(2)] n by (simp add: new_request_ok_def)
  with assms(2,6-9) show False
    by (simp add: request_conflict_def new_access_request_def is_pending_def StatusPending_def)
qed

text \<open>
  C38.  A claim whose lease has lapsed stays in the way: after any history of operations (and
  of changes to all other tables and the clock) whose settlements come later than the lease, as long as nothing releases the claim or revokes its requester's grants, no
  other grant of the same requester on the same target can be claimed, not even when the claimed
  grant has expired.  The release has no caller in the program.
\<close>
theorem lapsed_claim_blocks_target:
  assumes "ledger_ok (fst c)" "g \<in> set (au_grants (fst c))" "ig_status g = GrantClaimed" "list_all (spares_grant g) ops"
    and "claim_access_grant S i (access_runs ops c) = (Inr x, c')" "\<not> mr_replayed x"
  shows "\<exists>g'. g' \<in> set (au_grants (fst (access_runs ops c))) \<and> ig_id g' = trim_space (mi_grant i) \<and> claim_slot g' \<noteq> claim_slot g"
proof -
  let ?c = "access_runs ops c" and ?ev = "trim_space (mi_event i)" and ?gid = "trim_space (mi_grant i)"
  let ?p = "\<lambda>z. claimable ?gid ?ev (mi_actor i) (mi_expected i) z (ia_now S)"
  have stays: "g \<in> set (au_grants (fst ?c))"
    by (rule access_runs_inv [of "\<lambda>db. g \<in> set (au_grants db)"])
       (use assms(2-4) in \<open>auto simp: list_all_iff intro: claimed_grant_stays\<close>)
  have ok: "ledger_ok (fst ?c)" by (rule access_runs_ok [OF assms(1)])
  have gc: "grant_check g" using assms(1,2) by (simp add: ledger_ok_def)
  have live: "claim_is_live g" using gc assms(3) by (auto simp: grant_check_def claim_is_live_def GrantClaimed_def)
  obtain z rcpt where t: "claim_access_grant S i ?c = tx_run ErrAccessInfra (access_transaction S (mi_actor i) ?ev z rcpt
        (replay_claim S) (perform_claim S i z)) ?c"
    using access_claim_shape [of S i ?c] assms(5) by auto
  obtain c1 c2 where b: "fst c1 = fst ?c" "access_transaction S (mi_actor i) ?ev z rcpt
      (replay_claim S) (perform_claim S i z) c1 = (Inr x, c2)"
    using tx_run_ok [OF assms(5) [unfolded t]] by blast
  from claim_body [OF b(2)] assms(6) obtain digest g' where g': "g' \<in> set (au_grants (fst ?c))" "?p z g'"
    "regranted (?p z) (claimed_grant digest (ia_now S)) (fst ?c) (fst c2)" using b(1) by auto
  let ?h = "claimed_grant digest (ia_now S) g'"
  have "\<not> ?p z g" using assms(3) by (auto simp: claimable_def GrantActive_def GrantClaimed_def)
  then have g2: "g \<in> set (au_grants (fst c2))" by (rule regranted_stays [OF g'(3) _ stays])
  have h2: "?h \<in> set (au_grants (fst c2))" using g' by (auto simp: regranted_def)
  have hl: "claim_is_live ?h"
    using g' by (auto simp: regranted_def list_all_iff grant_check_def claim_is_live_def claimed_grant_def GrantClaimed_def)
  have "ig_id g' \<noteq> ig_id g"
    using ok stays g'(1,2) \<open>\<not> ?p z g\<close> by (auto simp: ledger_ok_def distinct_map dest: inj_onD)
  then have "?h \<noteq> g" by (auto simp: claimed_grant_def)
  have "inj_on claim_slot (set (filter claim_is_live (au_grants (fst c2))))"
    using g'(3) unfolding regranted_def distinct_map by blast
  then have "claim_slot ?h \<noteq> claim_slot g"
    using g2 h2 hl live \<open>?h \<noteq> g\<close> by (auto dest: inj_onD)
  then have "claim_slot g' \<noteq> claim_slot g" by (simp add: claim_slot_def claimed_grant_def)
  moreover have "ig_id g' = ?gid" using g'(2) by (simp add: claimable_def)
  ultimately show ?thesis using g'(1) by blast
qed

end
