(* ===== verification/IdentityDemo.thy ===== *)
theory IdentityDemo
  imports IdentityProperties
begin

text \<open>
  A run of restricted identity access: a senior administrator asks for two targets, a super
  administrator approves both, and the first grant is claimed, left to lapse, and stays in the
  way.  It applies the properties of \<open>IdentityProperties\<close>.
\<close>

section \<open>A service and its database\<close>

definition ia_demo_env :: "string \<Rightarrow> access_env" where
  "ia_demo_env gid = \<lparr>iv_collate = (\<lambda>s. s), iv_digest = (\<lambda>s. replicate 43 CHR ''d''),
     iv_random = (\<lambda>n. Some (replicate n CHR ''n'')), iv_grant_id = gid, iv_two_years = (\<lambda>t. t + 100), iv_now = 9\<rparr>"

definition ia_demo_cipher :: question_cipher where
  "ia_demo_cipher = \<lparr>qc_keyring = Some \<lparr>kr_current_id = ''q1'', kr_keys = [''q1'' \<mapsto> replicate 32 CHR ''k'']\<rparr>,
     qc_seal = (\<lambda>k n a p. p), qc_open = (\<lambda>k n a c. Some c), qc_random = (\<lambda>n. Some (replicate n CHR ''n''))\<rparr>"

definition ia_demo_service :: "string \<Rightarrow> string \<Rightarrow> time \<Rightarrow> scoped_decision \<Rightarrow> access_service" where
  "ia_demo_service new gid t d = \<lparr>ia_authorize = (\<lambda>u a re. Inr d), ia_validate_target = (\<lambda>ev t fs. Inr (t, ''t'')),
     ia_unicode = \<lparr>ut_nfkc = (\<lambda>s. s), ut_graphemes = length, ut_forbidden = (\<lambda>s. False)\<rparr>, ia_format_rune = (\<lambda>s. False),
     ia_cipher = ia_demo_cipher,
     ia_fingerprint = (\<lambda>p s. Some \<lparr>fp_version = ''hmac-sha256-v1'', fp_key_id = ''k'', fp_digest = replicate 32 (CHR ''d'')\<rparr>),
     ia_marshal = (\<lambda>kvs fs. concat (map snd kvs) @ concat fs), ia_new_id = (\<lambda>p. Some (p @ new)), ia_fresh_id = ''f'',
     ia_now = t, ia_env = ia_demo_env gid, ia_codec = None\<rparr>"

definition ia_demo_binding :: "string \<Rightarrow> user_id \<Rightarrow> role \<Rightarrow> scope \<Rightarrow> binding" where
  "ia_demo_binding i u ro s = \<lparr>bd_id = i, bd_user_id = u, bd_role = ro, bd_scope = s, bd_enabled = True, bd_version = 1,
     bd_granted_by = ''x'', bd_reason_id = ''reason_x'', bd_disabled_at = None, bd_created_at = 1, bd_updated_at = 1\<rparr>"

definition ia_demo_material :: "user_id \<Rightarrow> int \<Rightarrow> credential_material" where
  "ia_demo_material u v = \<lparr>ct_challenge = \<lparr>ch_user_id = u, ch_status = ChallengeActive, ch_must_rotate = False,
       ch_credential_version = v, ch_security_epoch = 1, ch_failure_count = 0, ch_failure_window = None,
       ch_locked_until = None, ch_version = 4, ch_created_at = 1, ch_updated_at = 1\<rparr>,
     ct_question_key_id = ''q1'', ct_question_nonce = replicate 12 CHR ''n'', ct_question_ciphertext = ''c'',
     ct_answer_phc = ''x'', ct_answer_pepper_key_id = ''p1''\<rparr>"

definition ia_demo_db :: authority_db where
  "ia_demo_db = \<lparr>au_admin = \<lparr>ad_bindings = [ia_demo_binding ''arb_r'' ''r'' RoleSeniorAdmin (event_scope ''e1''),
        ia_demo_binding ''arb_a'' ''a'' RoleSuperAdmin system_scope],
      ad_users = [''r'' \<mapsto> ''active'', ''a'' \<mapsto> ''active'', ''t'' \<mapsto> ''active''], ad_employees = Map.empty,
      ad_registry = [\<lparr>rv_event_id = ''e1'', rv_series = ''dreamup'', rv_slug = ''s'', rv_display_name = ''d'', rv_source_version = ''1'',
        rv_authoritative_read_at = 1, rv_enabled = True, rv_version = 1\<rparr>], ad_reasons = [], ad_outbox = [], ad_events = [], ad_now = 7\<rparr>,
     au_epoch = (\<lambda>u. 1), au_challenges = [''r'' \<mapsto> ia_demo_material ''r'' 2, ''a'' \<mapsto> ia_demo_material ''a'' 3],
     au_proofs = [], au_approvals = [], au_requests = [], au_grants = [], au_events = []\<rparr>"

definition ia_demo_senior :: scoped_decision where
  "ia_demo_senior = \<lparr>sd_allowed = True, sd_role = RoleSeniorAdmin, sd_binding_id = ''arb_r'', sd_binding_version = 1,
     sd_challenge_version = 2\<rparr>"

definition ia_demo_super :: scoped_decision where
  "ia_demo_super = \<lparr>sd_allowed = True, sd_role = RoleSuperAdmin, sd_binding_id = ''arb_a'', sd_binding_version = 1,
     sd_challenge_version = 3\<rparr>"

definition ia_demo_create :: "string \<Rightarrow> char \<Rightarrow> create_request_input" where
  "ia_demo_create target k = \<lparr>ci_actor = ''r'', ci_event = ''e1'', ci_target = (''application'', target),
     ci_fields = [''legal_name'', ''contact_email''], ci_reason = ''a reason that is long enough'', ci_correlation = ''q'',
     ci_key = replicate 32 k\<rparr>"

definition ia_demo_decide :: "string \<Rightarrow> time \<Rightarrow> char \<Rightarrow> decide_input" where
  "ia_demo_decide rid t k = \<lparr>di_actor = ''a'', di_event = ''e1'', di_request = rid, di_approved = True,
     di_fields = [''legal_name''], di_expected = 1,
     di_step_up = \<lparr>rg_grant_id = ''rgr_1'', rg_user_id = ''a'', rg_session_id = ''s'', rg_action = ReauthActionAdminOAApproval,
       rg_application_id = [], rg_client_id = [], rg_target = rid, rg_created_at = t, rg_security_epoch = 1, rg_challenge_version = 3\<rparr>,
     di_correlation = ''q'', di_key = replicate 32 k\<rparr>"

definition ia_demo_claim :: "string \<Rightarrow> char \<Rightarrow> claim_input" where
  "ia_demo_claim gid k = \<lparr>mi_actor = ''r'', mi_event = ''e1'', mi_grant = gid, mi_expected = 1, mi_correlation = ''q'',
     mi_key = replicate 32 k\<rparr>"

definition ia_demo_asks :: access_op where
  "ia_demo_asks = OpRequest (ia_demo_service ''1'' [] 10 ia_demo_senior) (ia_demo_create ''app1'' CHR ''a'')"

definition ia_demo_approves :: access_op where
  "ia_demo_approves = OpDecide (ia_demo_service ''2'' ''iag_1'' 20 ia_demo_super) (ia_demo_decide ''iar_1'' 15 CHR ''b'')"

definition ia_demo_start :: authority_conn where
  "ia_demo_start = (ia_demo_db, [])"

lemma ia_demo_empty: "au_requests (fst ia_demo_start) = []" "au_grants (fst ia_demo_start) = []"
  by (simp_all add: ia_demo_start_def ia_demo_db_def)

section \<open>The properties at the run\<close>

lemma answered: "fst p = Inr x \<Longrightarrow> p = (Inr x, snd p)"
  by (cases p) simp

lemma ia_demo_decided:
  "case fst (decide_access_request (ia_demo_service ''2'' ''iag_1'' 20 ia_demo_super) (ia_demo_decide ''iar_1'' 15 CHR ''b'')
      (access_runs [ia_demo_asks] ia_demo_start)) of Inl _ \<Rightarrow> False | Inr x \<Rightarrow> \<not> dr_replayed x"
  by code_simp

text \<open>The super administrator \<open>a\<close> decides the request of \<open>r\<close>.\<close>

theorem decide_is_four_eyes_witness:
  "\<exists>z. evidence_holds (fst (access_runs [ia_demo_asks] ia_demo_start)) ''a'' ''e1'' z \<and> role_satisfies (az_role z) RoleSuperAdmin"
proof -
  let ?S = "ia_demo_service ''2'' ''iag_1'' 20 ia_demo_super" and ?i = "ia_demo_decide ''iar_1'' 15 CHR ''b''"
    and ?c = "access_runs [ia_demo_asks] ia_demo_start"
  obtain x where x: "fst (decide_access_request ?S ?i ?c) = Inr x" "\<not> dr_replayed x"
    using ia_demo_decided by (auto split: sum.splits)
  have d: "decide_access_request ?S ?i ?c = (Inr x, snd (decide_access_request ?S ?i ?c))" by (rule answered [OF x(1)])
  have t: "trim_space (di_event ?i) = ''e1''" "di_actor ?i = ''a''" by code_simp+
  from decide_is_four_eyes [OF d x(2), unfolded t] show ?thesis by metis
qed

lemma ia_demo_open: "life ''iag_1'' (fst (access_runs [ia_demo_asks, ia_demo_approves] ia_demo_start)) = Open"
  by code_simp

lemma ia_demo_unissued: "life ''iag_1'' (fst (access_runs [ia_demo_asks] ia_demo_start)) = Unissued"
  by code_simp

theorem grants_stem_from_approvals_witness:
  "ledger_ok (fst (access_runs [ia_demo_asks, ia_demo_approves] ia_demo_start))
   \<and> life ''iag_1'' (fst (access_runs [ia_demo_asks, ia_demo_approves] ia_demo_start)) = Open"
  using grants_stem_from_approvals [OF ia_demo_empty] ia_demo_open by blast

theorem grant_lifecycle_witness: "life_step ia_demo_approves Unissued Open"
proof -
  have "access_run ia_demo_approves (access_runs [ia_demo_asks] ia_demo_start)
      = access_runs [ia_demo_asks, ia_demo_approves] ia_demo_start" by simp
  with grant_lifecycle [OF ia_demo_empty, of ia_demo_approves "''iag_1''" "[ia_demo_asks]"]
  show ?thesis by (simp only: ia_demo_unissued ia_demo_open)
qed

section \<open>Blocked targets\<close>

text \<open>The expired request \<open>iar_1\<close>: after a refused decision, asking again only replays the old answer.\<close>

definition ia_demo_late :: access_service where
  "ia_demo_late = ia_demo_service ''9'' ''iag_9'' 90000000000000 ia_demo_senior"

definition ia_demo_too_late :: access_op where
  "ia_demo_too_late = OpDecide ia_demo_late (ia_demo_decide ''iar_1'' 15 CHR ''b'')"

definition ia_demo_expired :: access_request where
  "ia_demo_expired = new_access_request (ia_demo_service ''1'' [] 10 ia_demo_senior) (ia_demo_create ''app1'' CHR ''a'')
     [''contact_email'', ''legal_name''] ''t'' ''iar_1'' ''reason_1''"

lemma ia_demo_expired_facts:
  "ia_demo_expired \<in> set (au_requests (fst (access_runs [ia_demo_asks] ia_demo_start)))" "is_pending ia_demo_expired"
  "zero_time < iq_expires_at ia_demo_expired" "list_all (spares_request ia_demo_expired) [ia_demo_too_late]"
  "trim_space (ci_event (ia_demo_create ''app1'' CHR ''a'')) = iq_event_id ia_demo_expired"
  "ci_actor (ia_demo_create ''app1'' CHR ''a'') = iq_requester ia_demo_expired"
  "fst (ci_target (ia_demo_create ''app1'' CHR ''a'')) = iq_target_type ia_demo_expired"
  "trim_space (snd (ci_target (ia_demo_create ''app1'' CHR ''a''))) = iq_target_id ia_demo_expired"
  by code_simp+

lemma ia_demo_asked_again:
  "case fst (create_access_request ia_demo_late (ia_demo_create ''app1'' CHR ''a'')
      (access_runs [ia_demo_too_late] (access_runs [ia_demo_asks] ia_demo_start))) of Inl _ \<Rightarrow> False | Inr x \<Rightarrow> True"
  by code_simp

theorem expired_request_blocks_target_witness:
  "\<exists>x. fst (create_access_request ia_demo_late (ia_demo_create ''app1'' CHR ''a'')
      (access_runs [ia_demo_too_late] (access_runs [ia_demo_asks] ia_demo_start))) = Inr x \<and> cr_replayed x"
proof -
  let ?i = "ia_demo_create ''app1'' CHR ''a''" and ?c = "access_runs [ia_demo_asks] ia_demo_start"
  obtain x where x: "fst (create_access_request ia_demo_late ?i (access_runs [ia_demo_too_late] ?c)) = Inr x"
    using ia_demo_asked_again by (auto split: sum.splits)
  have d: "create_access_request ia_demo_late ?i (access_runs [ia_demo_too_late] ?c)
      = (Inr x, snd (create_access_request ia_demo_late ?i (access_runs [ia_demo_too_late] ?c)))"
    by (rule answered [OF x])
  from expired_request_blocks_target [OF ia_demo_expired_facts(1-4) d ia_demo_expired_facts(5-8)] x show ?thesis by blast
qed

text \<open>A held grant on \<open>app1\<close> that has lapsed, and an active grant on \<open>app2\<close>.\<close>

definition ia_demo_grant :: "string \<Rightarrow> string \<Rightarrow> string \<Rightarrow> access_grant" where
  "ia_demo_grant gid rid target = \<lparr>ig_id = gid, ig_request_id = rid, ig_event_id = ''e1'', ig_requester = ''r'', ig_subject = ''t'',
     ig_target_type = ''application'', ig_target_id = target, ig_approved_by = ''a'', ig_fields = [''legal_name''],
     ig_status = GrantActive, ig_nonce_hash = None, ig_lease_until = None, ig_receipt_hash = None, ig_binding_id = ''arb_r'',
     ig_binding_version = 1, ig_challenge_version = 2, ig_field_set_hash = replicate 43 CHR ''d'', ig_version = 1,
     ig_expires_at = 20 + minutes 15, ig_terminal_at = None, ig_created_at = 20, ig_updated_at = 20\<rparr>"

definition ia_demo_held :: access_grant where
  "ia_demo_held = claimed_grant ''x'' 30 (ia_demo_grant ''iag_1'' ''iar_1'' ''app1'')"

definition ia_demo_request :: "string \<Rightarrow> string \<Rightarrow> access_request" where
  "ia_demo_request rid target = \<lparr>iq_id = rid, iq_event_id = ''e1'', iq_requester = ''r'', iq_subject = ''t'', iq_approver = ''a'',
     iq_target_type = ''application'', iq_target_id = target, iq_fields = [''contact_email'', ''legal_name''],
     iq_status = StatusApproved, iq_reason_id = ''reason_1'', iq_version = 2, iq_created_at = 10, iq_updated_at = 20,
     iq_expires_at = 10 + requestLifetime, iq_terminal_at = Some 20\<rparr>"

definition ia_demo_two :: authority_conn where
  "ia_demo_two = (ia_demo_db\<lparr>au_requests := [ia_demo_request ''iar_1'' ''app1'', ia_demo_request ''iar_2'' ''app2''],
     au_grants := [ia_demo_held, ia_demo_grant ''iag_2'' ''iar_2'' ''app2'']\<rparr>, [])"

definition ia_demo_after :: access_service where
  "ia_demo_after = ia_demo_service ''7'' [] 90000000000 ia_demo_senior"

definition ia_demo_settles :: access_op where
  "ia_demo_settles = OpSettle ia_demo_after \<lparr>si_actor = ''r'', si_event = ''e1'', si_grant = ''iag_1'', si_expected = 2,
     si_nonce = ''n'', si_receipt = replicate 10 CHR ''h'', si_correlation = ''q'', si_key = replicate 32 CHR ''e''\<rparr>"

lemma ia_demo_two_ok:
  "ledger_ok (fst ia_demo_two)" "ia_demo_held \<in> set (au_grants (fst ia_demo_two))" "ig_status ia_demo_held = GrantClaimed"
  "list_all (spares_grant ia_demo_held) [ia_demo_settles]"
  by code_simp+

lemma ia_demo_other_claimed:
  "case fst (claim_access_grant ia_demo_after (ia_demo_claim ''iag_2'' CHR ''c'') (access_runs [ia_demo_settles] ia_demo_two)) of
     Inl _ \<Rightarrow> False | Inr x \<Rightarrow> \<not> mr_replayed x"
  by code_simp

theorem lapsed_claim_blocks_target_witness:
  "\<exists>g. ig_id g = ''iag_2'' \<and> claim_slot g \<noteq> claim_slot ia_demo_held"
proof -
  let ?i = "ia_demo_claim ''iag_2'' CHR ''c''" and ?c = "access_runs [ia_demo_settles] ia_demo_two"
  obtain x where x: "fst (claim_access_grant ia_demo_after ?i ?c) = Inr x" "\<not> mr_replayed x"
    using ia_demo_other_claimed by (auto split: sum.splits)
  have d: "claim_access_grant ia_demo_after ?i ?c = (Inr x, snd (claim_access_grant ia_demo_after ?i ?c))"
    by (rule answered [OF x(1)])
  have "trim_space (mi_grant ?i) = ''iag_2''" by code_simp
  with lapsed_claim_blocks_target [OF ia_demo_two_ok d x(2)] show ?thesis by metis
qed

text \<open>The claim of \<open>iag_2\<close> rests on the binding and challenge of its requester.\<close>

lemma ia_demo_claimed:
  "case fst (claim_access_grant (ia_demo_service ''3'' [] 30 ia_demo_senior) (ia_demo_claim ''iag_2'' CHR ''c'') ia_demo_two) of
     Inl _ \<Rightarrow> False | Inr x \<Rightarrow> \<not> mr_replayed x"
  by code_simp

theorem claim_needs_current_authority_witness:
  "\<exists>(g::access_grant) z. ig_id g = ''iag_2'' \<and> ig_status g = GrantActive
     \<and> evidence_holds (fst ia_demo_two) ''r'' (ig_event_id g) z \<and> ig_challenge_version g = az_challenge_version z"
proof -
  let ?S = "ia_demo_service ''3'' [] 30 ia_demo_senior" and ?i = "ia_demo_claim ''iag_2'' CHR ''c''"
  obtain x where x: "fst (claim_access_grant ?S ?i ia_demo_two) = Inr x" "\<not> mr_replayed x"
    using ia_demo_claimed by (auto split: sum.splits)
  have d: "claim_access_grant ?S ?i ia_demo_two = (Inr x, snd (claim_access_grant ?S ?i ia_demo_two))" by (rule answered [OF x(1)])
  have t: "trim_space (mi_grant ?i) = ''iag_2''" "mi_actor ?i = ''r''" by code_simp+
  from claim_needs_current_authority [OF d x(2), unfolded t] show ?thesis
    by (elim exE conjE) (intro exI conjI, assumption+)
qed

end
