(* ===== verification/IdentityPages.thy ===== *)
theory IdentityPages
  imports IdentityAccessStore
begin

text \<open>
  Reading a list of requests page by page: the cursor of a page continues exactly the query it
  was issued for, and a client that follows the cursors of an unchanged ledger reads what one
  unpaged query would return.
\<close>

section \<open>Cursors\<close>

lemma encoded_decodes:
  assumes "cursor_encode C s = Inr raw" "\<And>p. length (cc_mac C p) = 32"
    and "\<And>p. cc_marshal C (sealed_state s) = Some p \<Longrightarrow> p \<noteq> [] \<and> cc_unmarshal C p = Some (sealed_state s)"
  shows "cursor_decode (C\<lparr>cc_now := t\<rparr>) raw e =
    (if valid_state (sealed_state s) t \<and> expected_state e (sealed_state s) then Inr (sealed_state s) else Inl ErrInvalidCursor)"
proof -
  obtain p where p: "cc_marshal C (sealed_state s) = Some p" "raw = b64url_encode (cc_mac C p @ p)"
    "length raw \<le> MaxEncodedCursorBytes"
    by (rule encode_ok [OF assms(1)])
  show ?thesis
    using decode_token [of "C\<lparr>cc_now := t\<rparr>" p raw e] p assms(2) assms(3) [OF p(1)] by simp
qed

lemma equal_filters_refl [simp]: "equal_filters m m"
  by (simp add: equal_filters_def)

lemma normalize_sort [simp]: "normalize_space ''id:asc'' = ''id:asc''"
  by code_simp

section \<open>The reference list\<close>

definition listed :: "event_id \<Rightarrow> string \<Rightarrow> user_id option \<Rightarrow> access_request \<Rightarrow> bool" where
  "listed ev status requester r \<longleftrightarrow> iq_event_id r = ev \<and> (status = [] \<or> iq_status r = status)
     \<and> (case requester of None \<Rightarrow> True | Some u \<Rightarrow> iq_requester r = u)"

definition id_key :: "access_env \<Rightarrow> access_request \<Rightarrow> string" where
  "id_key E r = iv_collate E (iq_id r)"

definition all_requests :: "access_env \<Rightarrow> event_id \<Rightarrow> string \<Rightarrow> user_id option \<Rightarrow> authority_db \<Rightarrow> access_request list" where
  "all_requests E ev status requester db = sort_key (id_key E) (filter (listed ev status requester) (au_requests db))"

definition rows_after :: "access_env \<Rightarrow> string \<Rightarrow> access_request list \<Rightarrow> access_request list" where
  "rows_after E after rs = filter (\<lambda>r. iv_collate E after < id_key E r) rs"

lemma sql_list_rows:
  "sql_list_requests E ev status requester after n db
     = (Inr (map (read_request E) (take n (rows_after E after (all_requests E ev status requester db)))), db)"
proof -
  have "filter (\<lambda>r. iq_event_id r = ev \<and> (status = [] \<or> iq_status r = status)
      \<and> (case requester of None \<Rightarrow> True | Some u \<Rightarrow> iq_requester r = u) \<and> iv_collate E after < iv_collate E (iq_id r)) (au_requests db)
    = filter (\<lambda>r. iv_collate E after < id_key E r) (filter (listed ev status requester) (au_requests db))"
    by (simp add: listed_def id_key_def conj_ac cong: filter_cong)
  moreover have "(\<lambda>r. iv_collate E (iq_id r)) = id_key E" by (simp add: id_key_def fun_eq_iff)
  ultimately show ?thesis
    by (simp add: sql_list_requests_def rows_after_def all_requests_def filter_sort)
qed

text \<open>The rows after the last of a prefix are the rest.\<close>

lemma rows_after_prefix:
  assumes "sorted (map (id_key E) (xs @ ys))" "distinct (map (id_key E) (xs @ ys))" "xs \<noteq> []"
  shows "rows_after E (iq_id (last xs)) (xs @ ys) = ys"
proof -
  let ?k = "id_key E (last xs)"
  have "x \<in> set xs \<Longrightarrow> id_key E x \<le> ?k" for x
    using assms(1,3) by (cases xs rule: rev_cases) (auto simp: sorted_append)
  then have "filter (\<lambda>r. ?k < id_key E r) xs = []" by (auto simp: filter_empty_conv not_less)
  moreover have "y \<in> set ys \<Longrightarrow> ?k < id_key E y" for y
    using assms by (cases xs rule: rev_cases) (fastforce simp: sorted_append less_le)+
  then have "filter (\<lambda>r. ?k < id_key E r) ys = ys" by (simp add: filter_id_conv)
  ultimately show ?thesis by (simp add: rows_after_def id_key_def)
qed


lemma rows_after_start:
  assumes "\<And>r. r \<in> set rs \<Longrightarrow> iv_collate E [] < id_key E r"
  shows "rows_after E [] rs = rs"
  using assms by (simp add: rows_after_def)

section \<open>One page\<close>

text \<open>
  What the walk needs of the caller's query and of JSON: the query is one the cursors accept, and
  the states of its pages are written so that they read back and fit a cursor.
\<close>

definition walkable :: "page_query \<Rightarrow> bool" where
  "walkable q \<longleftrightarrow> pq_actor q \<noteq> [] \<and> pq_scope_kind q = ''event'' \<and> pq_event q \<noteq> [] \<and> pq_list_kind q \<noteq> []
     \<and> (pq_sort q = [] \<or> pq_sort q = ''id:asc'')"

definition end_state :: "page_query \<Rightarrow> access_request \<Rightarrow> time \<Rightarrow> cursor_state" where
  "end_state q r t = sealed_state (page_state q ''id:asc'' (iq_id r) t (normalize_admin_limit (pq_limit q)))"

definition reads_back :: "cursor_codec \<Rightarrow> page_query \<Rightarrow> time \<Rightarrow> access_request \<Rightarrow> bool" where
  "reads_back C q t r \<longleftrightarrow> (case cc_marshal C (end_state q r t) of
     None \<Rightarrow> False
   | Some p \<Rightarrow> p \<noteq> [] \<and> length p \<le> 3040 \<and> cc_unmarshal C p = Some (end_state q r t))"

text \<open>Each page is asked for within ten minutes of the one before, by clocks that agree to five seconds.\<close>

fun clocks_agree :: "time list \<Rightarrow> bool" where
  "clocks_agree (s # t # ts) = (s \<le> t + cursorClockSkew \<and> t < s + minutes 10 \<and> clocks_agree (t # ts))"
| "clocks_agree _ = True"

lemma end_state_valid:
  assumes "walkable q" "zero_time < s" "s \<le> t + cursorClockSkew" "t < s + minutes 10"
  shows "valid_state (end_state q r s) t"
  using assms normalize_admin_limit_range [of "pq_limit q"]
  by (auto simp: valid_state_def end_state_def sealed_state_def page_state_def walkable_def maxCursorLifetime_def minutes_def seconds_def)

lemma end_state_expected: "expected_state (admin_expectation q ''id:asc'' (normalize_admin_limit (pq_limit q))) (end_state q r s)"
  by (simp add: expected_state_def admin_expectation_def end_state_def sealed_state_def page_state_def)

lemma end_state_position: "map_get (ck_last (end_state q r s)) ''id'' = iq_id r"
  by (simp add: end_state_def sealed_state_def page_state_def map_get_def)

lemma end_state_cursor [simp]: "end_state (q\<lparr>pq_cursor := raw\<rparr>) r s = end_state q r s"
  by (simp add: end_state_def page_state_def)

lemma reads_back_cursor [simp]: "reads_back C (q\<lparr>pq_cursor := raw\<rparr>) t r = reads_back C q t r"
  by (simp add: reads_back_def cong: option.case_cong)

text \<open>The cursor of a page that ends in \<open>r\<close>, and where the next query continues.\<close>

lemma page_cursor:
  assumes "walkable q" "reads_back C q s r" "\<And>p. length (cc_mac C p) = 32" "zero_time < s"
  obtains raw where "cursor_encode (C\<lparr>cc_now := s\<rparr>) (page_state q ''id:asc'' (iq_id r) s (normalize_admin_limit (pq_limit q))) = Inr raw"
    "raw \<noteq> []" "\<And>t. s \<le> t + cursorClockSkew \<Longrightarrow> t < s + minutes 10 \<Longrightarrow>
      cursor_position (C\<lparr>cc_now := t\<rparr>) (q\<lparr>pq_cursor := raw\<rparr>) ''id:asc'' (normalize_admin_limit (pq_limit q)) = Inr (iq_id r)"
proof -
  let ?l = "normalize_admin_limit (pq_limit q)"
  let ?st = "page_state q ''id:asc'' (iq_id r) s ?l" and ?C = "C\<lparr>cc_now := s\<rparr>"
  obtain p where p: "cc_marshal C (end_state q r s) = Some p" "p \<noteq> []" "length p \<le> 3040" "cc_unmarshal C p = Some (end_state q r s)"
    using assms(2) by (auto simp: reads_back_def split: option.splits)
  have es: "sealed_state ?st = end_state q r s" by (simp add: end_state_def)
  have "valid_state (end_state q r s) s"
    by (rule end_state_valid [OF assms(1,4)]) (simp_all add: cursorClockSkew_def seconds_def minutes_def)
  moreover have "length (b64url_encode (cc_mac C p @ p)) \<le> MaxEncodedCursorBytes"
    using p(3) assms(3) by (simp add: b64url_encode_length MaxEncodedCursorBytes_def)
  ultimately have enc: "cursor_encode ?C ?st = Inr (b64url_encode (cc_mac C p @ p))"
    using p(1) by (simp add: cursor_encode_def es Let_def)
  let ?raw = "b64url_encode (cc_mac C p @ p)"
  have ne: "?raw \<noteq> []" using p(2) by (simp add: b64url_encode_Nil_iff)
  have "cursor_position (C\<lparr>cc_now := t\<rparr>) (q\<lparr>pq_cursor := ?raw\<rparr>) ''id:asc'' ?l = Inr (iq_id r)"
    if "s \<le> t + cursorClockSkew" "t < s + minutes 10" for t
  proof -
    have "cursor_decode (?C\<lparr>cc_now := t\<rparr>) ?raw (admin_expectation q ''id:asc'' ?l) = Inr (end_state q r s)"
      using encoded_decodes [OF enc, of t "admin_expectation q ''id:asc'' ?l"] assms(3) p end_state_valid [OF assms(1,4) that]
        end_state_expected [of q r s] by (simp add: es)
    then show ?thesis using ne end_state_position [of q r s] by (simp add: cursor_position_def admin_expectation_def)
  qed
  with enc ne that show thesis by blast
qed

lemma page_of_rows:
  assumes "walkable q" "healthy c" "access_status_filter (pq_filters q) (requester = None) = Inr status"
    and "cursor_position C q ''id:asc'' (normalize_admin_limit (pq_limit q)) = Inr after"
    and "rows_after E after (all_requests E (pq_event q) status requester (fst c)) = rows"
  obtains c1 where "access_list E (Some C) requester q c
      = (cut_page E C q ''id:asc'' (normalize_admin_limit (pq_limit q))
           (map (read_request E) (take (Suc (nat (normalize_admin_limit (pq_limit q)))) rows)), c1)"
    "fst c1 = fst c" "healthy c1"
proof -
  have "(if pq_sort q = [] then ''id:asc'' else pq_sort q) = ''id:asc''" using assms(1) by (auto simp: walkable_def)
  moreover have "io_call SqlFailure (sql_list_requests E (pq_event q) status requester after n) c
      = (Inr (map (read_request E) (take n rows)), (fst c, tl (snd c)))" for n
    using healthy_io_call [OF assms(2), of SqlFailure "sql_list_requests E (pq_event q) status requester after n"] assms(5)
    by (simp add: sql_list_rows)
  moreover have "healthy (fst c, tl (snd c))" using assms(2) by (cases c) simp
  ultimately show thesis
    using assms(3,4) that [of "(fst c, tl (snd c))"] by (simp add: access_list_def Let_def)
qed


section \<open>The walk\<close>

text \<open>A client that asks for the list page by page, at the given times; \<open>None\<close> when they run out.\<close>

fun walk_pages ::
  "access_env \<Rightarrow> cursor_codec \<Rightarrow> user_id option \<Rightarrow> page_query \<Rightarrow> time list \<Rightarrow> authority_conn
     \<Rightarrow> (access_error + access_request list) option" where
  "walk_pages E C requester q [] c = None"
| "walk_pages E C requester q (t # ts) c =
     (case access_list (E\<lparr>iv_now := t\<rparr>) (Some (C\<lparr>cc_now := t\<rparr>)) requester q c of
        (Inl e, _) \<Rightarrow> Some (Inl e)
      | (Inr p, c1) \<Rightarrow>
          if \<not> pg_more p then Some (Inr (pg_items p))
          else case walk_pages E C requester (q\<lparr>pq_cursor := pg_next p\<rparr>) ts c1 of
            None \<Rightarrow> None
          | Some (Inl e) \<Rightarrow> Some (Inl e)
          | Some (Inr rest) \<Rightarrow> Some (Inr (pg_items p @ rest)))"

lemma clock_key [simp]: "id_key (E\<lparr>iv_now := t\<rparr>) = id_key E"
  by (simp add: id_key_def fun_eq_iff)

lemma clock_env [simp]: "read_request (E\<lparr>iv_now := t\<rparr>) = read_request E" "all_requests (E\<lparr>iv_now := t\<rparr>) = all_requests E"
  "rows_after (E\<lparr>iv_now := t\<rparr>) = rows_after E"
  by (simp_all add: read_request_def all_requests_def rows_after_def fun_eq_iff)

lemma walk_from:
  assumes "walkable q" "healthy c" "access_status_filter (pq_filters q) (requester = None) = Inr status"
    and "all_requests E (pq_event q) status requester (fst c) = before @ rows"
    and "rows_after E after (before @ rows) = rows"
    and "distinct (map (id_key E) (before @ rows))"
    and "\<And>r t. r \<in> set rows \<Longrightarrow> t \<in> set ts \<Longrightarrow> reads_back C q t r" "\<And>p. length (cc_mac C p) = 32"
    and "\<And>t. t \<in> set ts \<Longrightarrow> zero_time < t" "clocks_agree ts" "ts \<noteq> []"
    and "length rows \<le> nat (normalize_admin_limit (pq_limit q)) * length ts"
    and "cursor_position (C\<lparr>cc_now := hd ts\<rparr>) q ''id:asc'' (normalize_admin_limit (pq_limit q)) = Inr after"
  shows "walk_pages E C requester q ts c = Some (Inr (map (read_request E) rows))"
  using assms
proof (induction ts arbitrary: q c before rows after)
  case (Cons t ts)
  let ?l = "normalize_admin_limit (pq_limit q)" and ?E = "E\<lparr>iv_now := t\<rparr>" and ?C = "C\<lparr>cc_now := t\<rparr>"
  have cp: "cursor_position ?C q ''id:asc'' ?l = Inr after" using Cons.prems(13) by simp
  have ra: "rows_after ?E after (all_requests ?E (pq_event q) status requester (fst c)) = rows"
    using Cons.prems(4,5) by simp
  obtain c1 where pg: "access_list ?E (Some ?C) requester q c
      = (cut_page ?E ?C q ''id:asc'' ?l (map (read_request E) (take (Suc (nat ?l)) rows)), c1)" "fst c1 = fst c" "healthy c1"
    using page_of_rows [OF Cons.prems(1,2,3) cp ra] by (auto simp del: Let_def)
  have l1: "1 \<le> nat ?l" using normalize_admin_limit_range [of "pq_limit q"] by (simp add: le_nat_iff)
  show ?case
  proof (cases "length rows \<le> nat ?l")
    case True
    then have "take (Suc (nat ?l)) rows = rows" by simp
    with True show ?thesis by (simp add: pg(1) cut_page_def)
  next
    case False
    let ?shown = "take (nat ?l) rows" and ?rest = "drop (nat ?l) rows"
    have ne: "?shown \<noteq> []" using False l1 by (cases rows) auto
    have lin: "last ?shown \<in> set rows" using last_in_set [OF ne] by (rule in_set_takeD)
    have items: "take (nat ?l) (map (read_request E) (take (Suc (nat ?l)) rows)) = map (read_request E) ?shown"
      by (simp add: take_map)
    have lid: "iq_id (last (map (read_request E) ?shown)) = iq_id (last ?shown)"
      using ne by (simp add: last_map read_request_def)
    obtain raw where raw: "cursor_encode ?C (page_state q ''id:asc'' (iq_id (last ?shown)) t ?l) = Inr raw" "raw \<noteq> []"
      "\<And>t'. t \<le> t' + cursorClockSkew \<Longrightarrow> t' < t + minutes 10 \<Longrightarrow>
        cursor_position (C\<lparr>cc_now := t'\<rparr>) (q\<lparr>pq_cursor := raw\<rparr>) ''id:asc'' ?l = Inr (iq_id (last ?shown))"
      by (rule page_cursor [OF Cons.prems(1) Cons.prems(7) [OF lin, of t] Cons.prems(8) Cons.prems(9) [of t]]) simp_all
    have cut: "cut_page ?E ?C q ''id:asc'' ?l (map (read_request E) (take (Suc (nat ?l)) rows))
        = Inr \<lparr>pg_items = map (read_request E) ?shown, pg_next = raw, pg_more = True\<rparr>"
      using False raw(1) by (simp add: cut_page_def Let_def items lid min_def)
    have ts: "ts \<noteq> []" using Cons.prems(12) False by (cases ts) auto
    have "walk_pages E C requester (q\<lparr>pq_cursor := raw\<rparr>) ts c1 = Some (Inr (map (read_request E) ?rest))"
    proof (rule Cons.IH [where before = "before @ ?shown" and after = "iq_id (last ?shown)"])
      show "walkable (q\<lparr>pq_cursor := raw\<rparr>)" using Cons.prems(1) by (simp add: walkable_def)
      show "all_requests E (pq_event (q\<lparr>pq_cursor := raw\<rparr>)) status requester (fst c1) = (before @ ?shown) @ ?rest"
        using Cons.prems(4) pg(2) by simp
      show d: "distinct (map (id_key E) ((before @ ?shown) @ ?rest))" using Cons.prems(6) by (simp flip: map_append)
      have "sorted (map (id_key E) (before @ rows))" unfolding Cons.prems(4) [symmetric] by (simp add: all_requests_def)
      then have "sorted (map (id_key E) ((before @ ?shown) @ ?rest))" by (simp flip: map_append)
      then show "rows_after E (iq_id (last ?shown)) ((before @ ?shown) @ ?rest) = ?rest"
        using rows_after_prefix [OF _ d] ne by simp
      show "reads_back C (q\<lparr>pq_cursor := raw\<rparr>) t' r" if "r \<in> set ?rest" "t' \<in> set ts" for r t'
        using Cons.prems(7) [of r t'] that by (auto dest: in_set_dropD)
      show "clocks_agree ts" using Cons.prems(10) by (cases ts) auto
      show "length ?rest \<le> nat (normalize_admin_limit (pq_limit (q\<lparr>pq_cursor := raw\<rparr>))) * length ts"
        using Cons.prems(12) by simp
      show "cursor_position (C\<lparr>cc_now := hd ts\<rparr>) (q\<lparr>pq_cursor := raw\<rparr>) ''id:asc''
          (normalize_admin_limit (pq_limit (q\<lparr>pq_cursor := raw\<rparr>))) = Inr (iq_id (last ?shown))"
        using raw(3) [of "hd ts"] Cons.prems(10) ts by (cases ts) auto
    qed (use Cons.prems pg(3) ts in auto)
    moreover have "map (read_request E) rows = map (read_request E) ?shown @ map (read_request E) ?rest"
      by (simp flip: map_append)
    ultimately show ?thesis by (simp add: pg(1) cut)
  qed
qed simp


section \<open>Properties\<close>

lemma encoded_valid: "cursor_encode C s = Inr raw \<Longrightarrow> valid_state (sealed_state s) (cc_now C)"
  by (auto simp: cursor_encode_def split: if_split_asm)

text \<open>The token carries a code over the state it was accepted for.\<close>

definition authentic :: "cursor_codec \<Rightarrow> string \<Rightarrow> cursor_state \<Rightarrow> bool" where
  "authentic C raw s \<longleftrightarrow> (\<exists>p. b64url_decode raw = Some (cc_mac C p @ p) \<and> cc_unmarshal C p = Some s)"

lemma decoded_authentic:
  assumes "cursor_decode C raw e = Inr s"
  shows "authentic C raw s \<and> valid_state s (cc_now C) \<and> expected_state e s"
proof -
  obtain b where b: "b64url_decode raw = Some b" "take 32 b = cc_mac C (drop 32 b)" "cc_unmarshal C (drop 32 b) = Some s"
    "valid_state s (cc_now C)" "expected_state e s"
    using assms by (auto simp: cursor_decode_def split: if_split_asm option.split_asm)
  have "b = cc_mac C (drop 32 b) @ drop 32 b" using b(2) append_take_drop_id [of 32 b] by simp
  with b show ?thesis unfolding authentic_def by (intro conjI exI [of _ "drop 32 b"]) simp_all
qed

text \<open>
  What the comparison of two filter maps comes to: as many keys, and what the first holds the
  second holds too, but that an empty value may be missing there.
\<close>

definition reads_same :: "str_map \<Rightarrow> str_map \<Rightarrow> bool" where
  "reads_same F G \<longleftrightarrow> fcard (fmdom F) = fcard (fmdom G)
     \<and> (\<forall>k v. fmlookup F k = Some v \<longrightarrow> fmlookup G k = Some v \<or> v = [] \<and> fmlookup G k = None)"

lemma equal_filters_reads_same: "equal_filters F G \<longleftrightarrow> reads_same F G"
proof -
  have "fBall (fmdom F) (\<lambda>k. map_get G k = map_get F k)
      \<longleftrightarrow> (\<forall>k v. fmlookup F k = Some v \<longrightarrow> fmlookup G k = Some v \<or> v = [] \<and> fmlookup G k = None)"
    (is "?l \<longleftrightarrow> ?r")
  proof
    assume l: ?l
    show ?r
    proof (intro allI impI)
      fix k v assume k: "fmlookup F k = Some v"
      then have "k |\<in>| fmdom F" by (rule fmdomI)
      with l have "map_get G k = map_get F k" by blast
      with k show "fmlookup G k = Some v \<or> v = [] \<and> fmlookup G k = None"
        by (cases "fmlookup G k") (auto simp: map_get_def)
    qed
  next
    assume r: ?r
    show ?l
    proof
      fix k assume "k |\<in>| fmdom F"
      then obtain v where v: "fmlookup F k = Some v" by (rule fmdomE)
      with r have "fmlookup G k = Some v \<or> v = [] \<and> fmlookup G k = None" by blast
      with v show "map_get G k = map_get F k" by (auto simp: map_get_def)
    qed
  qed
  then show ?thesis by (simp add: equal_filters_def reads_same_def)
qed

lemma reads_same_eq:
  assumes "[] |\<notin>| fmran F"
  shows "reads_same F G \<longleftrightarrow> F = G"
proof
  assume r: "reads_same F G"
  have FG: "fmlookup G k = Some v" if "fmlookup F k = Some v" for k v
    using r assms that fmranI [OF that] by (auto simp: reads_same_def)
  have "fmdom F |\<subseteq>| fmdom G" using FG by (auto intro: fmdomI elim!: fmdomE)
  moreover have "fcard (fmdom F) = fcard (fmdom G)" using r by (simp add: reads_same_def)
  ultimately have d: "fmdom F = fmdom G" by (simp add: fcard_seteq)
  show "F = G"
  proof (rule fmap_ext)
    fix k
    show "fmlookup F k = fmlookup G k"
    proof (cases "fmlookup F k")
      case None
      then have "k |\<notin>| fmdom G" using d by (metis fmdom_notD fmdom_notI)
      with None show ?thesis by (simp add: fmdom_notD)
    qed (use FG in simp)
  qed
qed (auto simp: reads_same_def)

text \<open>Two filters with empty values pass for each other, whatever their keys.\<close>

lemma empty_filters_confused:
  "equal_filters (fmupd ''status'' [] fmempty) (fmupd ''other'' [] fmempty)"
  by (simp add: equal_filters_def map_get_def fcard.rep_eq)

lemma accepted_state:
  assumes "cursor_decode C raw e = Inr s"
  shows "authentic C raw s" and "ck_version s = 1 \<and> ck_actor s \<noteq> [] \<and> ck_list_kind s \<noteq> [] \<and> ck_sort s \<noteq> []"
    and "1 \<le> ck_limit s \<and> ck_limit s \<le> 100"
    and "ck_scope_kind s = ''system'' \<and> ck_event s = [] \<or> ck_scope_kind s = ''event'' \<and> ck_event s \<noteq> []"
    and "ck_issued_at s < ck_expires_at s \<and> ck_expires_at s \<le> ck_issued_at s + minutes 15"
    and "ck_issued_at s \<le> cc_now C + seconds 5 \<and> cc_now C < ck_expires_at s"
    and "ck_actor s = ex_actor e \<and> ck_scope_kind s = ex_scope_kind e \<and> ck_event s = ex_event e"
    and "ck_list_kind s = ex_list_kind e \<and> ck_sort s = normalize_space (ex_sort e) \<and> ck_limit s = ex_limit e"
    and "reads_same (ck_filters s) (normalize_filters (ex_filters e))"
proof -
  note d = decoded_authentic [OF assms]
  then have v: "valid_state s (cc_now C)" and x: "expected_state e s" by blast+
  show "authentic C raw s" using d by blast
  from v show "ck_version s = 1 \<and> ck_actor s \<noteq> [] \<and> ck_list_kind s \<noteq> [] \<and> ck_sort s \<noteq> []"
    "1 \<le> ck_limit s \<and> ck_limit s \<le> 100"
    "ck_scope_kind s = ''system'' \<and> ck_event s = [] \<or> ck_scope_kind s = ''event'' \<and> ck_event s \<noteq> []"
    "ck_issued_at s < ck_expires_at s \<and> ck_expires_at s \<le> ck_issued_at s + minutes 15"
    "ck_issued_at s \<le> cc_now C + seconds 5 \<and> cc_now C < ck_expires_at s"
    unfolding valid_state_def MaxPageSize_def maxCursorLifetime_def cursorClockSkew_def by (blast | linarith)+
  from x show "ck_actor s = ex_actor e \<and> ck_scope_kind s = ex_scope_kind e \<and> ck_event s = ex_event e"
    "ck_list_kind s = ex_list_kind e \<and> ck_sort s = normalize_space (ex_sort e) \<and> ck_limit s = ex_limit e"
    "reads_same (ck_filters s) (normalize_filters (ex_filters e))"
    unfolding expected_state_def equal_filters_reads_same by blast+
qed

text \<open>
  C40.  A cursor continues the query it was issued for: decoding what \<open>Encode\<close> wrote gives the
  state back, with version 1 and normalized sort and filters, as long as it was not issued more
  than five seconds ahead and has not expired, to an expectation of the same actor, scope kind,
  event, list kind, normalized sort and limit and of normalized filters that read the same (as
  many keys, equal values, an empty value possibly missing; equal filters when no value is
  empty), and an error to every other.  Whatever token is accepted carries the authentication
  code of the payload its state was read from, and that state names an actor, a list and a sort,
  belongs to the system or to an event, has a limit from 1 to 100 and a lifetime of at most a
  quarter of an hour that is not over, and agrees with the expectation in the same seven points.
\<close>
theorem cursor_continues_its_query:
  assumes "cursor_encode C s = Inr raw" "\<And>p. length (cc_mac C p) = 32"
    and "\<And>p. cc_marshal C (sealed_state s) = Some p \<Longrightarrow> p \<noteq> [] \<and> cc_unmarshal C p = Some (sealed_state s)"
  shows "cursor_decode (C\<lparr>cc_now := t\<rparr>) raw e =
      (if ck_issued_at s \<le> t + seconds 5 \<and> t < ck_expires_at s
          \<and> ck_actor s = ex_actor e \<and> ck_scope_kind s = ex_scope_kind e \<and> ck_event s = ex_event e
          \<and> ck_list_kind s = ex_list_kind e \<and> normalize_space (ck_sort s) = normalize_space (ex_sort e)
          \<and> ck_limit s = ex_limit e \<and> reads_same (normalize_filters (ck_filters s)) (normalize_filters (ex_filters e))
       then Inr (s\<lparr>ck_version := 1, ck_filters := normalize_filters (ck_filters s), ck_sort := normalize_space (ck_sort s)\<rparr>)
       else Inl ErrInvalidCursor)
    \<and> (\<forall>raw' s'. cursor_decode C raw' e = Inr s' \<longrightarrow> authentic C raw' s'
        \<and> ck_version s' = 1 \<and> ck_actor s' \<noteq> [] \<and> ck_list_kind s' \<noteq> [] \<and> ck_sort s' \<noteq> [] \<and> 1 \<le> ck_limit s' \<and> ck_limit s' \<le> 100
        \<and> (ck_scope_kind s' = ''system'' \<and> ck_event s' = [] \<or> ck_scope_kind s' = ''event'' \<and> ck_event s' \<noteq> [])
        \<and> ck_issued_at s' < ck_expires_at s' \<and> ck_expires_at s' \<le> ck_issued_at s' + minutes 15
        \<and> ck_issued_at s' \<le> cc_now C + seconds 5 \<and> cc_now C < ck_expires_at s'
        \<and> ck_actor s' = ex_actor e \<and> ck_scope_kind s' = ex_scope_kind e \<and> ck_event s' = ex_event e
        \<and> ck_list_kind s' = ex_list_kind e \<and> ck_sort s' = normalize_space (ex_sort e) \<and> ck_limit s' = ex_limit e
        \<and> reads_same (ck_filters s') (normalize_filters (ex_filters e)))
    \<and> (\<forall>F G. [] |\<notin>| fmran F \<longrightarrow> reads_same F G = (F = G))"
proof -
  from encoded_valid [OF assms(1)] have v: "valid_state (sealed_state s) (cc_now C)" .
  have "cursor_decode (C\<lparr>cc_now := t\<rparr>) raw e =
      (if valid_state (sealed_state s) t \<and> expected_state e (sealed_state s) then Inr (sealed_state s) else Inl ErrInvalidCursor)"
    by (rule encoded_decodes [OF assms])
  moreover have "valid_state (sealed_state s) t \<longleftrightarrow> ck_issued_at s \<le> t + seconds 5 \<and> t < ck_expires_at s"
    using v by (auto simp: valid_state_def sealed_state_def cursorClockSkew_def)
  moreover have "expected_state e (sealed_state s) \<longleftrightarrow> ck_actor s = ex_actor e \<and> ck_scope_kind s = ex_scope_kind e
      \<and> ck_event s = ex_event e \<and> ck_list_kind s = ex_list_kind e \<and> normalize_space (ck_sort s) = normalize_space (ex_sort e)
      \<and> ck_limit s = ex_limit e \<and> reads_same (normalize_filters (ck_filters s)) (normalize_filters (ex_filters e))"
    by (simp add: expected_state_def sealed_state_def equal_filters_reads_same)
  ultimately show ?thesis
    using accepted_state [of C _ e] reads_same_eq
    by (intro conjI allI impI) (simp add: sealed_state_def conj_assoc | blast)+
qed

text \<open>
  C39.  Reading page by page is reading at once: on an unchanged ledger a client that asks with
  each cursor in turn, in time, ends after enough pages and has seen every request of the list
  once, in the order of the ids.  The collation of the database tells the ids apart, and JSON
  reads back the states of the pages.
\<close>
theorem pages_enumerate:
  assumes "walkable q" "pq_cursor q = []" "healthy c" "access_status_filter (pq_filters q) (requester = None) = Inr status"
    and "distinct (map iq_id (au_requests (fst c)))" "inj_on (iv_collate E) (set (map iq_id (au_requests (fst c))))"
    and "list_all (\<lambda>r. iv_collate E [] < iv_collate E (iq_id r)) (au_requests (fst c))"
    and "\<And>p. length (cc_mac C p) = 32" "list_all (\<lambda>t. zero_time < t \<and> list_all (reads_back C q t) (au_requests (fst c))) ts"
    and "clocks_agree ts" "ts \<noteq> []"
    and "length (au_requests (fst c)) \<le> nat (normalize_admin_limit (pq_limit q)) * length ts"
  shows "walk_pages E C requester q ts c = Some (Inr (map (read_request E) (all_requests E (pq_event q) status requester (fst c))))"
proof -
  let ?rows = "all_requests E (pq_event q) status requester (fst c)"
  have sub: "set ?rows \<subseteq> set (au_requests (fst c))" by (auto simp: all_requests_def)
  have "distinct (map iq_id ?rows)" using assms(5) by (auto simp: all_requests_def distinct_map intro: inj_on_subset)
  moreover have "inj_on (iv_collate E) (set (map iq_id ?rows))" using assms(6) sub by (auto intro: inj_on_subset)
  ultimately have "distinct (map (iv_collate E) (map iq_id ?rows))" by (simp add: distinct_map comp_inj_on)
  then have d: "distinct (map (id_key E) ([] @ ?rows))" by (simp add: id_key_def [abs_def] comp_def)
  have st: "rows_after E [] ([] @ ?rows) = ?rows"
    using rows_after_start [of ?rows E] assms(7) sub by (auto simp: list_all_iff id_key_def)
  have len: "length ?rows \<le> nat (normalize_admin_limit (pq_limit q)) * length ts"
    using assms(12) by (simp add: all_requests_def le_trans [OF length_filter_le])
  show ?thesis
    by (rule walk_from [OF assms(1,3,4) _ st d _ assms(8) _ assms(10,11) len])
       (use assms(2,9) sub in \<open>auto simp: list_all_iff cursor_position_def\<close>)
qed


section \<open>A walk\<close>

definition pages_codec :: "page_query \<Rightarrow> cursor_codec" where
  "pages_codec q = \<lparr>cc_mac = (\<lambda>p. replicate 32 CHR ''m''), cc_marshal = (\<lambda>s. Some (map_get (ck_last s) ''id'')),
     cc_unmarshal = (\<lambda>p. Some (sealed_state (page_state q ''id:asc'' p 9 1))), cc_now = 9\<rparr>"

definition pages_query :: page_query where
  "pages_query = \<lparr>pq_actor = ''r'', pq_scope_kind = ''event'', pq_event = ''e1'', pq_list_kind = ListKindOwn, pq_filters = fmempty,
     pq_sort = [], pq_cursor = [], pq_limit = 1, pq_downstream = []\<rparr>"

definition pages_env :: access_env where
  "pages_env = \<lparr>iv_collate = (\<lambda>s. s), iv_digest = (\<lambda>s. s), iv_random = (\<lambda>n. None), iv_grant_id = [], iv_two_years = (\<lambda>t. t),
     iv_now = 9\<rparr>"

definition pages_request :: "string \<Rightarrow> access_request" where
  "pages_request rid = \<lparr>iq_id = rid, iq_event_id = ''e1'', iq_requester = ''r'', iq_subject = ''t'', iq_approver = ''a'',
     iq_target_type = ''application'', iq_target_id = rid, iq_fields = [''legal_name''], iq_status = StatusPending,
     iq_reason_id = ''reason_1'', iq_version = 1, iq_created_at = 1, iq_updated_at = 1, iq_expires_at = 100, iq_terminal_at = None\<rparr>"

definition pages_db :: authority_db where
  "pages_db = \<lparr>au_admin = \<lparr>ad_bindings = [], ad_users = Map.empty, ad_employees = Map.empty, ad_registry = [], ad_reasons = [],
      ad_outbox = [], ad_events = [], ad_now = 9\<rparr>, au_epoch = (\<lambda>u. 1), au_challenges = Map.empty, au_proofs = [],
     au_approvals = [], au_requests = [pages_request ''iar_2'', pages_request ''iar_1''], au_grants = [], au_events = []\<rparr>"

lemma pages_limit [simp]: "normalize_admin_limit (pq_limit pages_query) = 1"
  by (simp add: normalize_admin_limit_def pages_query_def MaxPageSize_def)

lemma pages_walkable: "walkable pages_query"
  by (simp add: walkable_def pages_query_def ListKindOwn_def)

lemma pages_read_back: "reads_back (pages_codec pages_query) pages_query 9 (pages_request rid)" if "rid \<noteq> []" "length rid \<le> 3040"
proof -
  have "end_state pages_query (pages_request rid) 9 = sealed_state (page_state pages_query ''id:asc'' rid 9 1)"
    by (simp add: end_state_def pages_request_def)
  with that show ?thesis
    using end_state_position [of pages_query "pages_request rid" 9] by (simp add: reads_back_def pages_codec_def pages_request_def)
qed

theorem pages_enumerate_witness:
  "walk_pages pages_env (pages_codec pages_query) (Some ''r'') pages_query [9, 9] (pages_db, [])
     = Some (Inr (map (read_request pages_env) (all_requests pages_env ''e1'' [] (Some ''r'') pages_db)))
   \<and> length (all_requests pages_env ''e1'' [] (Some ''r'') pages_db) = 2"
proof
  have "walk_pages pages_env (pages_codec pages_query) (Some ''r'') pages_query [9, 9] (pages_db, [])
     = Some (Inr (map (read_request pages_env)
         (all_requests pages_env (pq_event pages_query) [] (Some ''r'') (fst (pages_db, [] :: fault list)))))"
  proof (rule pages_enumerate [OF pages_walkable])
    show "access_status_filter (pq_filters pages_query) (Some ''r'' = None) = Inr []"
      by (simp add: access_status_filter_def pages_query_def map_get_def trim_space_def Let_def fcard_fempty)
    show "list_all (\<lambda>t. zero_time < t \<and> list_all (reads_back (pages_codec pages_query) pages_query t)
        (au_requests (fst (pages_db, [] :: fault list)))) [9, 9]"
      by (simp add: pages_db_def pages_read_back zero_time_def)
  qed (simp_all add: pages_db_def pages_request_def pages_env_def pages_codec_def cursorClockSkew_def seconds_def minutes_def
      pages_query_def normalize_admin_limit_def MaxPageSize_def)
  then show "walk_pages pages_env (pages_codec pages_query) (Some ''r'') pages_query [9, 9] (pages_db, [])
     = Some (Inr (map (read_request pages_env) (all_requests pages_env ''e1'' [] (Some ''r'') pages_db)))"
    by (simp add: pages_query_def)
  show "length (all_requests pages_env ''e1'' [] (Some ''r'') pages_db) = 2"
    by (simp add: all_requests_def listed_def pages_db_def pages_request_def)
qed

theorem cursor_continues_its_query_witness:
  "\<exists>raw. cursor_decode (pages_codec pages_query) raw (admin_expectation pages_query ''id:asc'' 1)
     = Inr (sealed_state (page_state pages_query ''id:asc'' ''iar_1'' 9 1))"
proof -
  let ?C = "pages_codec pages_query" and ?r = "pages_request ''iar_1''"
  let ?s = "page_state pages_query ''id:asc'' ''iar_1'' 9 1" and ?e = "admin_expectation pages_query ''id:asc'' 1"
  have C: "?C\<lparr>cc_now := 9\<rparr> = ?C" "iq_id ?r = ''iar_1''" "\<And>p. length (cc_mac ?C p) = 32"
    by (simp_all add: pages_codec_def pages_request_def)
  have rb: "reads_back ?C pages_query 9 ?r" by (rule pages_read_back) simp_all
  obtain raw where raw: "cursor_encode ?C ?s = Inr raw"
    using page_cursor [OF pages_walkable rb C(3)] C(1,2) by (auto simp: zero_time_def)
  have es: "end_state pages_query ?r 9 = sealed_state ?s" by (simp add: end_state_def C(2))
  have m: "p \<noteq> [] \<and> cc_unmarshal ?C p = Some (sealed_state ?s)" if "cc_marshal ?C (sealed_state ?s) = Some p" for p
    using rb that by (simp add: reads_back_def es)
  have "cursor_decode (?C\<lparr>cc_now := 9\<rparr>) raw ?e = Inr (?s\<lparr>ck_version := 1,
      ck_filters := normalize_filters (ck_filters ?s), ck_sort := normalize_space (ck_sort ?s)\<rparr>)"
    using cursor_continues_its_query [OF raw C(3) m, where t = 9 and e = ?e, THEN conjunct1]
    by (simp add: page_state_def admin_expectation_def pages_query_def reads_same_def seconds_def minutes_def maxCursorLifetime_def)
  then show ?thesis by (auto simp: C(1) sealed_state_def)
qed

end
