(* ===== verification/Spec2Isabelle.thy ===== *)
theory Spec2Isabelle
  imports PasswordSettlement CapabilityResolver OutboxProperties RoleMutations ChallengeProperties EnrollmentCleanup RateProofs StepUpDemo IdentityDemo IdentityPages
begin

text \<open>
  United Pass is an identity provider: a Go backend (\<open>src/backend/internal\<close>) in front of
  PostgreSQL, Redis, an external authenticator and a policy decision point.  This development
  models the parts that carry its security arguments and proves what they promise.

  \<^bold>\<open>The parts and how they meet.\<close>
  \<^item> \<open>Prelude\<close>: time and durations, PostgreSQL connections with a schedule of faults
    (\<open>io_call\<close>: a statement may fail before or after it took effect), transactions (\<open>tx_run\<close>), byte
    strings, decimal numbers.
  \<^item> \<open>SecurityLedger\<close>, \<open>SecurityLifecycle\<close> (\<open>securitystate/securitystate.go\<close>,
    \<open>adapters/postgres/security_state_store.go\<close>): the per-user security epoch and mutation intent,
    the nine compare-and-set methods over them, and the abstract lifecycle of an intent that every
    method refines.
  \<^item> \<open>SecurityService\<close> (\<open>securitystate/service.go\<close>): promotion, the consumption gate, settlement and
    recovery over an arbitrary ledger, whose contract is the locale \<open>security_ledger\<close>.
  \<^item> \<open>SessionTypes\<close>, \<open>SessionStore\<close>, \<open>SessionInventory\<close> (\<open>session/session.go\<close>, \<open>credential.go\<close>,
    \<open>display.go\<close>, \<open>adapters/redis/session_store.go\<close>): session records, the Lua scripts and methods of
    the Redis store, with what other clients do between two commands (\<open>rcall\<close>), and the states
    that any sequence of scripts, healing commands and delays reaches (\<open>store_step\<close>), with the set of
    the sessions whose locator or index entry the self-healing has taken since they were written.
  \<^item> \<open>SessionService\<close>, \<open>SessionMiddleware\<close> (\<open>session/store.go\<close>, \<open>adapters/httpapi/session_middleware.go\<close>):
    the session service over its store interface, and what a request must pass to be handed on.
  \<^item> \<open>PasswordSettlement\<close> (\<open>adapters/httpapi/password_handlers.go\<close>): the security service with the
    session service as its cleaner and the rotation the password handler passes on a success.
  \<^item> \<open>RoleTypes\<close>, \<open>ScopedActions\<close>, \<open>CerbosClient\<close>, \<open>Permissions\<close>, \<open>CapabilityResolver\<close>
    (\<open>adminroles/types.go\<close>, \<open>permissions\<close>, \<open>adapters/cerbos/client.go\<close>): roles and scopes, the action
    vocabulary and role matrix, the compilation of published policies and the decision client, the
    scoped authorizer and the capability resolver.
  \<^item> \<open>AdminOutbox\<close>, \<open>OutboxProtocol\<close>, \<open>OutboxProperties\<close> (\<open>adminstore/outbox.go\<close>,
    \<open>adapters/postgres/admin_unit_of_work.go\<close>): the durable operation ledger, the abstract life of an
    item that its sixteen methods refine, and the delivery guarantees over whole histories.
  \<^item> \<open>AdminRoleStore\<close>, \<open>AdminRoles\<close>, \<open>AdminRoleProperties\<close>, \<open>RoleMutations\<close> (\<open>adminroles/service.go\<close>,
    \<open>adapters/postgres/admin_role_repo.go\<close>, \<open>permission_context.go\<close>): the mutation of event roles, from
    the gate to the receipt in the operation ledger.
  \<^item> \<open>ScriptStores\<close>, \<open>ChallengeStores\<close>, \<open>ReauthStore\<close>, \<open>EnrollmentStore\<close>, \<open>ChallengeProtocol\<close>,
    \<open>ChallengeProperties\<close>, \<open>EnrollmentCleanup\<close> (\<open>adapters/redis/mfa_store.go\<close>,
    \<open>reauth_store.go\<close>, \<open>enrollment_store.go\<close>): the single-use challenges and grants, with their
    operations claimed, consumed or restored, and the durable cleanup of abandoned passkeys.
  \<^item> \<open>RateLimiter\<close>, \<open>RateChecks\<close>, \<open>RateLimits\<close>, \<open>RateTypes\<close>, \<open>RateProperties\<close>, \<open>RateProofs\<close>
    (\<open>adapters/redis/rate_limiter.go\<close>, \<open>admin_challenge_rate_limiter.go\<close>,
    \<open>registration/rate_policy.go\<close>): the key space of the limiter and its scripts, every check,
    claim and refund over them, and their bounds over whole histories (\<open>Windows\<close>: paced windows).
  \<^item> \<open>AuthorityStore\<close>, \<open>StepUpStore\<close>, \<open>AnswerHasher\<close>, \<open>AnswerProofs\<close>, \<open>AdminStepUp\<close>, \<open>StepUpMutations\<close>,
    \<open>StepUpEffects\<close>, \<open>StepUpProperties\<close>, \<open>StepUpHistories\<close>, \<open>StepUpDemo\<close> (\<open>adminstepup\<close>,
    \<open>adapters/postgres/admin_stepup_repo.go\<close>, \<open>admin_unit_of_work.go\<close>): the challenge that guards
    administrative actions, from the tables and the hashed answer to enrollment, verification and
    rotation, with the grant store and the limiter in Redis beside the transaction (\<open>tx_within\<close>).
  \<^item> \<open>Pagination\<close> (\<open>adminpagination/cursor.go\<close>): the signed cursors of administration lists.
  \<^item> \<open>IdentityAccessStore\<close>, \<open>IdentityGrantStore\<close>, \<open>IdentityAccess\<close> (\<open>identityaccess\<close>,
    \<open>adapters/postgres/identity_access_repo.go\<close>): requests for restricted personal fields, their
    decision by a second administrator, and the grants that are claimed and settled.
    \<open>IdentityEffects\<close> has what each call does to the tables, \<open>IdentityLedger\<close> the mutations as one step
    relation, \<open>IdentityHistories\<close> its invariant and the life of a grant, \<open>IdentityProperties\<close> and
    \<open>IdentityDemo\<close> the properties and a run, \<open>IdentityPages\<close> the walk over the pages of a list.

  \<^bold>\<open>How the code is rendered.\<close>  A struct is a record with the fields the code reads, a sentinel
  error a constructor of an error type, a call \<open>'w \<Rightarrow> (error + value) \<times> 'w\<close> with the early returns
  in the order of the source.  A wrapped error keeps the sentinel it wraps; any other wrapped
  failure is the infrastructure error of its component.  A SQL statement is a function on the
  tables that honours the constraints of the migrations; a Lua script is one function on the Redis
  state, since Redis runs it alone.  Clocks, random identifiers and tokens are arguments, as are
  SHA-256, AES-GCM, JSON, the HTTP exchange and the decision point, which are not part of the
  repository.

  \<^bold>\<open>What is shown.\<close>  Invariants of all reachable ledgers, inventories and outboxes; refinements of
  the abstract lifecycles; and end-to-end statements across components: a stale session is never
  promoted again, a settled password change leaves no older session, an operation is sent at most
  once, an idempotency key has at most one effect, nobody changes roles without standing authority
  and nobody gains governing power, a step-up proof is earned and dies with its credential, and
  personal fields are opened by four eyes only.  The completeness of the session cleanups is
  relative: it holds of the sessions no self-healing command has orphaned, for clients whose clocks
  agree with the server's, while nobody mints or rotates sessions of the user.  Faults and interleavings are quantified over
  throughout, so the statements hold for every schedule.  Some theorems exhibit behaviours the
  sources do not intend (\<open>healing_race_orphans_session\<close>, \<open>lagging_clock_shortens_index\<close>,
  \<open>expired_request_blocks_target\<close>, \<open>lapsed_claim_blocks_target\<close>).

  \<^bold>\<open>Bounds.\<close>  No definition needs fuel: every loop is structural or decreases a length, batches of
  \<open>max_checks_per_request\<close> checks included.  Times are nanoseconds in unbounded integers; the
  64-bit ranges that parsing enforces are written out in \<open>parse_int64\<close>.

  \<^bold>\<open>Not modelled.\<close>  Applications, consent, the registration service, risk defense,
  workforce, privacy and the onboarding flows are not modelled: they are services of their own over
  the same stores, and the parts above are what they rest on.  Clients of external services,
  configuration, wiring and HTTP rendering are left out, as they hold no state of their own.
\<close>

end
